(* ===== verification/Prelude.thy ===== *)
theory Prelude
  imports Complex_Main "HOL-Library.Char_ord" "HOL-Library.List_Lexorder"
    "HOL-Library.Product_Lexorder" "HOL-Library.Multiset" "HOL-Library.Code_Target_Nat"
begin

text \<open>
  Generic material of the development: the exceptions of the modelled modules and the
  result type that carries them, Python's \<open>sorted\<close>, and the facts on lists and results
  that several components share.
  \<^item> \<open>py_exc\<close> names every exception class a modelled function raises, with its message.
  \<^item> A function that may raise returns \<open>py_exc + 'a\<close>: \<open>Inl\<close> is the raise, \<open>Inr\<close> the
    returned value; \<open>rbind\<close> sequences two such computations.
  \<^item> \<open>py_sorted\<close> is \<open>sorted(xs, key=.., reverse=..)\<close>: stable in both directions, as
    Python's is.
\<close>

section \<open>Exceptions and results\<close>

datatype py_exc =
    BackupStopError string
  | BreakEvenMarketPolicyError string
  | ManagementSizingError string
  | TakeProfitPlanError string
  | ValueError string
  | TypeError string
  | KeyError string
  | AttributeError string
  | RuntimeError string
  | InvalidOperation
  | DivisionByZero
  | WsStateTransitionError string
  | PositionMutationIntentError string
  | WorkerCommandValidationError string
  | WorkerCommandIdempotencyConflict string
  | DeepcoinLimitEntryError string
  | EntryRevisionRiskError string
  | PositionMutationAuthorityError string
  | DeepcoinDefiniteRejection string
  | DeepcoinRequestOutcomeUnknown string
  | IntegrityError
  | DeepcoinOrderDraftError string
  | Refusal string

type_synonym 'a result = "py_exc + 'a"

abbreviation rbind :: "'a result \<Rightarrow> ('a \<Rightarrow> 'b result) \<Rightarrow> 'b result" where
  "rbind m f \<equiv> (case m of Inl e \<Rightarrow> Inl e | Inr x \<Rightarrow> f x)"

lemma rbind_Inr_iff: "rbind m f = Inr y \<longleftrightarrow> (\<exists>x. m = Inr x \<and> f x = Inr y)"
  by (cases m) auto

lemma rbind_Inl_iff: "rbind m f = Inl e \<longleftrightarrow> m = Inl e \<or> (\<exists>x. m = Inr x \<and> f x = Inl e)"
  by (cases m) auto

text \<open>An iteration over a sequence that may raise: the first error wins.\<close>

fun mapM :: "('a \<Rightarrow> 'b result) \<Rightarrow> 'a list \<Rightarrow> 'b list result" where
  "mapM f [] = Inr []"
| "mapM f (x # xs) = rbind (f x) (\<lambda>y. rbind (mapM f xs) (\<lambda>ys. Inr (y # ys)))"

lemma mapM_Inr_length: "mapM f xs = Inr ys \<Longrightarrow> length ys = length xs"
  by (induction xs arbitrary: ys) (auto simp: rbind_Inr_iff)

lemma mapM_Inr_nth: "mapM f xs = Inr ys \<Longrightarrow> i < length xs \<Longrightarrow> f (xs ! i) = Inr (ys ! i)"
  by (induction xs arbitrary: ys i) (auto simp: rbind_Inr_iff nth_Cons split: nat.splits)

lemma mapM_Inr_set: "mapM f xs = Inr ys \<Longrightarrow> y \<in> set ys \<Longrightarrow> \<exists>x\<in>set xs. f x = Inr y"
  by (induction xs arbitrary: ys) (auto simp: rbind_Inr_iff)

lemma mapM_Inr_all: "mapM f xs = Inr ys \<Longrightarrow> x \<in> set xs \<Longrightarrow> \<exists>y\<in>set ys. f x = Inr y"
  by (induction xs arbitrary: ys) (auto simp: rbind_Inr_iff)

lemma mapM_Inl: "mapM f xs = Inl e \<Longrightarrow> \<exists>x\<in>set xs. f x = Inl e"
  by (induction xs) (auto simp: rbind_Inl_iff)

section \<open>Python's \<open>sorted\<close>\<close>

definition py_sorted :: "('a \<Rightarrow> 'k::linorder) \<Rightarrow> bool \<Rightarrow> 'a list \<Rightarrow> 'a list" where
  "py_sorted key reverse xs =
     (if reverse then rev (sort_key key (rev xs)) else sort_key key xs)"

text \<open>The order \<open>reverse\<close> asks for, as a relation between keys.\<close>

definition dir_le :: "bool \<Rightarrow> 'k::linorder \<Rightarrow> 'k \<Rightarrow> bool" where
  "dir_le reverse a b = (if reverse then b \<le> a else a \<le> b)"

lemma dir_le_refl [simp]: "dir_le r a a"
  by (simp add: dir_le_def)

lemma dir_le_trans: "dir_le r a b \<Longrightarrow> dir_le r b c \<Longrightarrow> dir_le r a c"
  by (auto simp: dir_le_def split: if_splits)

lemma dir_le_total: "dir_le r a b \<or> dir_le r b a"
  by (auto simp: dir_le_def)

lemma mset_py_sorted [simp]: "mset (py_sorted key r xs) = mset xs"
  by (simp add: py_sorted_def)

lemma set_py_sorted [simp]: "set (py_sorted key r xs) = set xs"
  by (metis mset_py_sorted set_mset_mset)

lemma length_py_sorted [simp]: "length (py_sorted key r xs) = length xs"
  by (metis mset_py_sorted size_mset)

lemma distinct_py_sorted [simp]: "distinct (py_sorted key r xs) = distinct xs"
  by (rule mset_eq_imp_distinct_iff) simp

lemma py_sorted_Nil_iff [simp]: "py_sorted key r xs = [] \<longleftrightarrow> xs = []"
  by (metis length_0_conv length_py_sorted)

lemma sorted_wrt_py_sorted:
  "sorted_wrt (\<lambda>x y. dir_le r (key x) (key y)) (py_sorted key r xs)"
proof (cases r)
  case True
  have "sorted_wrt (\<lambda>x y. key x \<le> key y) (sort_key key (rev xs))"
    using sorted_sort_key [of key "rev xs"] by (simp add: sorted_map)
  with True show ?thesis
    by (simp add: py_sorted_def dir_le_def sorted_wrt_rev)
next
  case False
  have "sorted_wrt (\<lambda>x y. key x \<le> key y) (sort_key key xs)"
    using sorted_sort_key [of key xs] by (simp add: sorted_map)
  with False show ?thesis
    by (simp add: py_sorted_def dir_le_def)
qed

lemma py_sorted_nth:
  "i < j \<Longrightarrow> j < length xs \<Longrightarrow>
   dir_le r (key (py_sorted key r xs ! i)) (key (py_sorted key r xs ! j))"
  using sorted_wrt_py_sorted [of r key xs] by (auto dest: sorted_wrt_nth_less)

section \<open>Lists\<close>

lemma sorted_wrt_filter_map:
  "sorted_wrt (\<lambda>x y. P (f x) (f y)) xs \<Longrightarrow> sorted_wrt P (map f (filter Q xs))"
  by (simp add: sorted_wrt_map sorted_wrt_filter)

lemma find_mem: "x \<in> set xs \<Longrightarrow> P x \<Longrightarrow> \<exists>y. find P xs = Some y \<and> P y \<and> y \<in> set xs"
  by (induction xs) auto

lemma find_SomeD: "find P xs = Some y \<Longrightarrow> y \<in> set xs \<and> P y"
  by (induction xs) (auto split: if_splits)

text \<open>\<open>list(dict.fromkeys(xs))\<close>: the distinct elements in order of first occurrence.\<close>

fun dedup_first :: "'a list \<Rightarrow> 'a list" where
  "dedup_first [] = []"
| "dedup_first (x # xs) = x # filter (\<lambda>y. y \<noteq> x) (dedup_first xs)"

lemma set_dedup_first [simp]: "set (dedup_first xs) = set xs"
  by (induction xs) auto

lemma distinct_dedup_first [simp]: "distinct (dedup_first xs)"
  by (induction xs) auto

lemma dedup_first_distinct: "distinct xs \<Longrightarrow> dedup_first xs = xs"
  by (induction xs) (auto intro: filter_True)

text \<open>\<open>max(xs)\<close> and \<open>min(xs)\<close> of a non-empty sequence.\<close>

definition list_max :: "'a::linorder list \<Rightarrow> 'a" where
  "list_max xs = fold max (tl xs) (hd xs)"

definition list_min :: "'a::linorder list \<Rightarrow> 'a" where
  "list_min xs = fold min (tl xs) (hd xs)"

lemma list_max_Max: "xs \<noteq> [] \<Longrightarrow> list_max xs = Max (set xs)"
  by (cases xs) (simp, simp only: list_max_def list.sel Max.set_eq_fold)

lemma list_min_Min: "xs \<noteq> [] \<Longrightarrow> list_min xs = Min (set xs)"
  by (cases xs) (simp, simp only: list_min_def list.sel Min.set_eq_fold)

lemma list_max_in [simp]: "xs \<noteq> [] \<Longrightarrow> list_max xs \<in> set xs"
  by (simp add: list_max_Max)

lemma list_min_in [simp]: "xs \<noteq> [] \<Longrightarrow> list_min xs \<in> set xs"
  by (simp add: list_min_Min)

lemma list_max_ge: "x \<in> set xs \<Longrightarrow> x \<le> list_max xs"
  by (cases "xs = []") (auto simp: list_max_Max)

lemma list_min_le: "x \<in> set xs \<Longrightarrow> list_min xs \<le> x"
  by (cases "xs = []") (auto simp: list_min_Min)

end
