(* ===== verification/Py_Value.thy ===== *)
theory Py_Value
  imports Prelude
begin

text \<open>
  The part of Python's data model the modelled modules use on values they do not type
  (\<open>Any\<close> arguments, JSON and exchange rows): truth, \<open>str\<close>, \<open>strip\<close>, \<open>lower\<close>,
  \<open>upper\<close>, \<open>int\<close> and \<open>dict.get\<close>.  Strings are byte strings; the modelled values are
  ASCII.  A float is carried by its \<open>repr\<close>, because every modelled reader of a float goes
  through \<open>str\<close> first.
\<close>

section \<open>Characters and strings\<close>

definition char_code :: "char \<Rightarrow> nat" where
  "char_code c = of_char c"

definition is_space :: "char \<Rightarrow> bool" where
  "is_space c = (let n = char_code c in (9 \<le> n \<and> n \<le> 13) \<or> (28 \<le> n \<and> n \<le> 32))"

definition is_digit :: "char \<Rightarrow> bool" where
  "is_digit c = (let n = char_code c in 48 \<le> n \<and> n \<le> 57)"

definition digit_val :: "char \<Rightarrow> nat" where
  "digit_val c = char_code c - 48"

definition digit_char :: "nat \<Rightarrow> char" where
  "digit_char n = char_of (48 + n)"

definition lower_char :: "char \<Rightarrow> char" where
  "lower_char c = (let n = char_code c in if 65 \<le> n \<and> n \<le> 90 then char_of (n + 32) else c)"

definition upper_char :: "char \<Rightarrow> char" where
  "upper_char c = (let n = char_code c in if 97 \<le> n \<and> n \<le> 122 then char_of (n - 32) else c)"

definition py_strip :: "string \<Rightarrow> string" where
  "py_strip s = rev (dropWhile is_space (rev (dropWhile is_space s)))"

definition py_lower :: "string \<Rightarrow> string" where
  "py_lower s = map lower_char s"

definition py_upper :: "string \<Rightarrow> string" where
  "py_upper s = map upper_char s"

lemma char_code_digit_char [simp]: "n < 10 \<Longrightarrow> char_code (digit_char n) = 48 + n"
  by (simp add: char_code_def digit_char_def)

lemma is_digit_digit_char [simp]: "n < 10 \<Longrightarrow> is_digit (digit_char n)"
  by (simp add: is_digit_def)

lemma digit_val_digit_char [simp]: "n < 10 \<Longrightarrow> digit_val (digit_char n) = n"
  by (simp add: digit_val_def)

lemma is_digit_not_space: "is_digit c \<Longrightarrow> \<not> is_space c"
  by (auto simp: is_digit_def is_space_def Let_def)

lemma py_strip_id:
  assumes "s \<noteq> [] \<Longrightarrow> \<not> is_space (hd s) \<and> \<not> is_space (last s)"
  shows "py_strip s = s"
  using assms by (cases "s = []")
    (simp_all add: py_strip_def dropWhile_eq_self_iff [THEN iffD2] hd_rev)

lemma py_strip_Nil [simp]: "py_strip [] = []"
  by (simp add: py_strip_def)

lemma py_strip_idem [simp]: "py_strip (py_strip s) = py_strip s"
proof (rule py_strip_id)
  define t where "t = dropWhile is_space s"
  define u where "u = dropWhile is_space (rev t)"
  have p: "py_strip s = rev u" by (simp add: py_strip_def u_def t_def)
  assume "py_strip s \<noteq> []"
  then have u: "u \<noteq> []" by (simp add: p)
  then have "\<not> is_space (hd u)" unfolding u_def by (rule hd_dropWhile)
  then have l: "\<not> is_space (last (py_strip s))" by (simp add: p u last_rev)
  have "t \<noteq> []" using u by (auto simp: u_def)
  then have h: "\<not> is_space (hd t)" unfolding t_def by (rule hd_dropWhile)
  have "rev t = takeWhile is_space (rev t) @ u" by (simp add: u_def)
  then have "t = rev u @ rev (takeWhile is_space (rev t))" by (metis rev_append rev_rev_ident)
  then have "hd t = hd (rev u)" using u by (metis hd_append2 rev_is_Nil_conv)
  with h l show "\<not> is_space (hd (py_strip s)) \<and> \<not> is_space (last (py_strip s))" by (simp add: p)
qed

lemma char_code_lower_char:
  "char_code (lower_char c) = (if 65 \<le> char_code c \<and> char_code c \<le> 90 then char_code c + 32 else char_code c)"
  by (simp add: lower_char_def char_code_def Let_def)

lemma lower_char_idem [simp]: "lower_char (lower_char c) = lower_char c"
  using char_code_lower_char [of c] by (auto simp: lower_char_def [of "lower_char c"] Let_def split: if_splits)

lemma py_lower_idem [simp]: "py_lower (py_lower s) = py_lower s"
  by (simp add: py_lower_def)

section \<open>Decimal digits\<close>

fun nat_digits :: "nat \<Rightarrow> string" where
  "nat_digits n = (if n < 10 then [digit_char n] else nat_digits (n div 10) @ [digit_char (n mod 10)])"

declare nat_digits.simps [simp del]

definition digits_val :: "string \<Rightarrow> nat" where
  "digits_val s = foldl (\<lambda>a c. 10 * a + digit_val c) 0 s"

lemma nat_digits_not_Nil [simp]: "nat_digits n \<noteq> []"
  by (subst nat_digits.simps) simp

lemma nat_digits_all_digit: "c \<in> set (nat_digits n) \<Longrightarrow> is_digit c"
proof (induction n rule: nat_digits.induct)
  case (1 n)
  then show ?case by (subst (asm) (2) nat_digits.simps) (auto split: if_splits)
qed

lemma digits_val_snoc: "digits_val (s @ [c]) = 10 * digits_val s + digit_val c"
  by (simp add: digits_val_def)

lemma digits_val_nat_digits [simp]: "digits_val (nat_digits n) = n"
proof (induction n rule: nat_digits.induct)
  case (1 n)
  show ?case
  proof (cases "n < 10")
    case True
    then show ?thesis by (subst nat_digits.simps) (simp add: digits_val_def)
  next
    case False
    with 1 show ?thesis by (subst nat_digits.simps) (simp add: digits_val_snoc)
  qed
qed

lemma digits_val_replicate_zero [simp]:
  "digits_val (replicate k (digit_char 0) @ s) = digits_val s"
  by (induction k) (simp_all add: digits_val_def)

section \<open>Values\<close>

datatype pydec = DFin rat | DInf bool | DNaN

datatype pyval =
    VNone
  | VBool bool
  | VInt int
  | VStr string
  | VFloat string
  | VDec pydec

definition int_text :: "int \<Rightarrow> string" where
  "int_text i = (if i < 0 then CHR ''-'' # nat_digits (nat (- i)) else nat_digits (nat i))"

text \<open>A row as the exchange or the ledger supplies it, and \<open>row.get(key)\<close>.\<close>

type_synonym row = "string \<Rightarrow> pyval option"

definition row_get :: "row \<Rightarrow> string \<Rightarrow> pyval" where
  "row_get r k = (case r k of None \<Rightarrow> VNone | Some v \<Rightarrow> v)"

section \<open>\<open>int(value)\<close>\<close>

text \<open>Digits with single underscores between them, as \<open>int\<close> reads them.\<close>

fun int_digits_ok :: "string \<Rightarrow> bool" where
  "int_digits_ok [] = False"
| "int_digits_ok [c] = is_digit c"
| "int_digits_ok (c # d # s) =
     (is_digit c \<and> (if d = CHR ''_'' then int_digits_ok s else int_digits_ok (d # s)))"

definition parse_int :: "string \<Rightarrow> int option" where
  "parse_int s =
     (let t = py_strip s;
          (neg, body) = (case t of
              [] \<Rightarrow> (False, [])
            | c # r \<Rightarrow> if c = CHR ''-'' then (True, r) else if c = CHR ''+'' then (False, r) else (False, t))
      in if int_digits_ok body
         then Some ((if neg then - 1 else 1) * int (digits_val (filter (\<lambda>c. c \<noteq> CHR ''_'') body)))
         else None)"

lemma parse_int_examples:
  "parse_int '' 42 '' = Some 42" "parse_int ''-7'' = Some (- 7)"
  "parse_int ''1_000'' = Some 1000" "parse_int ''1__0'' = None" "parse_int ''x'' = None"
  by code_simp+

end
