(* ===== verification/Py_Decimal.thy ===== *)
theory Py_Decimal
  imports Py_Value "HOL-Library.Log_Nat"
begin

text \<open>
  Python's \<open>decimal.Decimal\<close> as the modelled modules use it.  A finite decimal is its
  value, a rational; arithmetic rounds to the default context's 28 significant digits, half
  to even (\<open>dround\<close>), while comparison, \<open>to_integral_value\<close> and the constructor are exact.
  \<^item> \<open>dadd\<close>, \<open>dsub\<close>, \<open>dmul\<close>, \<open>ddiv\<close>, \<open>dsum\<close>: the operators and \<open>sum(.., Decimal("0"))\<close>.
  \<^item> \<open>parse_decimal\<close>: the constructor on a string; \<open>py_decimal v\<close>: \<open>Decimal(str(v))\<close>.
  \<^item> \<open>decimal_text\<close>: \<open>format(value.normalize(), "f")\<close>.
  The locale \<open>decimal_context\<close> states what the components rely on from the rounding; its
  lemmas are the ones their proofs use, through the interpretation \<open>ctx\<close>.
  Not modelled: the exponent limits of the context (no overflow or underflow, which would
  need a number beyond \<open>10^999999\<close>), the sign of zero, and the payload of a NaN.
\<close>

section \<open>Rounding to 28 significant digits\<close>

definition half_even :: "rat \<Rightarrow> int" where
  "half_even x = (let f = \<lfloor>x\<rfloor>; r = x - of_int f in
     if r < 1/2 then f else if 1/2 < r then f + 1 else if even f then f else f + 1)"

text \<open>The exponent of the leading digit of a non-zero number.\<close>

definition dexp :: "rat \<Rightarrow> int" where
  "dexp x = (let (n, d) = quotient_of \<bar>x\<bar>;
                 e = int (floorlog 10 (nat n)) - int (floorlog 10 (nat d))
             in if 10 powi e \<le> \<bar>x\<bar> then e else e - 1)"

definition dround :: "rat \<Rightarrow> rat" where
  "dround x = (if x = 0 then 0
     else let s = dexp x - 27 in of_int (half_even (x / 10 powi s)) * 10 powi s)"

text \<open>Representable with \<open>n\<close> significant digits.\<close>

definition fits :: "nat \<Rightarrow> rat \<Rightarrow> bool" where
  "fits n x \<longleftrightarrow> (\<exists>c e. x = of_int c * 10 powi e \<and> \<bar>c\<bar> < 10 ^ n)"

lemma half_even_of_int [simp]: "half_even (of_int k) = k"
  by (simp add: half_even_def)

lemma half_even_bounds: "\<lfloor>x\<rfloor> \<le> half_even x" "half_even x \<le> \<lfloor>x\<rfloor> + 1"
  by (auto simp: half_even_def Let_def)

lemma half_even_mono: "x \<le> y \<Longrightarrow> half_even x \<le> half_even y"
proof -
  assume le: "x \<le> y"
  show ?thesis
  proof (cases "\<lfloor>x\<rfloor> = \<lfloor>y\<rfloor>")
    case True
    with le show ?thesis by (auto simp: half_even_def Let_def)
  next
    case False
    with le have "\<lfloor>x\<rfloor> + 1 \<le> \<lfloor>y\<rfloor>" using floor_mono [OF le] by linarith
    then show ?thesis using half_even_bounds(2) [of x] half_even_bounds(1) [of y] by linarith
  qed
qed

lemma half_even_minus: "half_even (- x) = - half_even x"
proof (cases "x = of_int \<lfloor>x\<rfloor>")
  case True
  then have "- x = of_int (- \<lfloor>x\<rfloor>)" by simp
  with True show ?thesis by (metis half_even_of_int)
next
  case False
  have lo: "of_int \<lfloor>x\<rfloor> < x" using False of_int_floor_le [of x] by linarith
  have hi: "x < of_int \<lfloor>x\<rfloor> + 1" by (rule floor_less_iff [THEN iffD1, of x "\<lfloor>x\<rfloor> + 1", simplified])
  have "\<lfloor>- x\<rfloor> = - \<lfloor>x\<rfloor> - 1" using lo hi by (intro floor_unique) auto
  then show ?thesis by (auto simp: half_even_def Let_def)
qed

lemma half_even_le: "x \<le> of_int k \<Longrightarrow> half_even x \<le> k"
  using half_even_mono [of x "of_int k"] by simp

lemma half_even_ge: "of_int k \<le> x \<Longrightarrow> k \<le> half_even x"
  using half_even_mono [of "of_int k" x] by simp

lemma powi_pos [simp]: "0 < (10::rat) powi e"
  by simp

lemma powi_mono_iff: "(10::rat) powi a \<le> 10 powi b \<longleftrightarrow> a \<le> b"
proof
  assume "(10::rat) powi a \<le> 10 powi b"
  then show "a \<le> b" using power_int_strict_increasing [of b a "10::rat"] by (simp add: not_less [symmetric]) force
next
  assume "a \<le> b"
  then show "(10::rat) powi a \<le> 10 powi b" by (intro power_int_increasing) simp_all
qed

lemma powi_less_iff: "(10::rat) powi a < 10 powi b \<longleftrightarrow> a < b"
  by (simp only: not_le [symmetric] powi_mono_iff)

lemma powi_diff_nat: "a \<le> b \<Longrightarrow> (10::rat) powi b = of_int (10 ^ nat (b - a)) * 10 powi a"
  using power_int_add [of "10::rat" "b - a" a] by (simp add: power_int_def)

lemma floorlog_powi:
  assumes "0 < (n::int)"
  shows "(10::rat) powi (int (floorlog 10 (nat n)) - 1) \<le> of_int n"
    and "of_int n < (10::rat) powi int (floorlog 10 (nat n))"
proof -
  have b: "10 ^ (floorlog 10 (nat n) - 1) \<le> nat n" "nat n < 10 ^ floorlog 10 (nat n)"
    using assms floorlog_bounds [of "nat n" 10] by auto
  have "floorlog 10 (nat n) \<noteq> 0" using assms by (simp add: floorlog_eq_zero_iff)
  then obtain k where k: "floorlog 10 (nat n) = Suc k" by (cases "floorlog 10 (nat n)") auto
  have "int (10 ^ k) \<le> n" using b(1) assms k by (simp add: le_nat_iff)
  then have "rat_of_int (int (10 ^ k)) \<le> of_int n" by (rule of_int_le_iff [THEN iffD2])
  then show "(10::rat) powi (int (floorlog 10 (nat n)) - 1) \<le> of_int n" by (simp add: k)
  have "n < int (10 ^ Suc k)" using b(2) assms k by (simp add: nat_less_iff)
  then have "rat_of_int n < of_int (int (10 ^ Suc k))" by (rule of_int_less_iff [THEN iffD2])
  then show "of_int n < (10::rat) powi int (floorlog 10 (nat n))"
    by (simp only: k power_int_of_nat) simp
qed

lemma dexp_bounds:
  assumes "x \<noteq> 0"
  shows "10 powi dexp x \<le> \<bar>x\<bar>" "\<bar>x\<bar> < 10 powi (dexp x + 1)"
proof -
  obtain n d where q: "quotient_of \<bar>x\<bar> = (n, d)" by fastforce
  have d: "0 < d" using q by (rule quotient_of_denom_pos)
  have x: "\<bar>x\<bar> = of_int n / of_int d" using q by (rule quotient_of_div)
  have n: "0 < n" using assms d x
    by (metis of_int_0_less_iff zero_less_abs_iff zero_less_divide_iff not_less_iff_gr_or_eq)
  let ?a = "floorlog 10 (nat n)" and ?b = "floorlog 10 (nat d)"
  note nr = floorlog_powi [OF n] and dr = floorlog_powi [OF d]
  let ?e = "int ?a - int ?b"
  have hi: "\<bar>x\<bar> < 10 powi (?e + 1)"
  proof -
    have "of_int n < (10::rat) powi (?e + 1) * 10 powi (int ?b - 1)"
      using nr(2) by (simp flip: power_int_add)
    also have "\<dots> \<le> 10 powi (?e + 1) * of_int d" using dr(1) by simp
    finally show ?thesis using d by (simp add: x divide_less_eq)
  qed
  have lo: "10 powi (?e - 1) \<le> \<bar>x\<bar>"
  proof -
    have "(10::rat) powi (?e - 1) * of_int d \<le> 10 powi (?e - 1) * 10 powi int ?b"
      using dr(2) by simp
    also have "\<dots> = 10 powi (int ?a - 1)" by (simp del: power_int_of_nat flip: power_int_add)
    also have "\<dots> \<le> of_int n" by (rule nr(1))
    finally show ?thesis using d by (simp add: x le_divide_eq)
  qed
  have e: "dexp x = (if 10 powi ?e \<le> \<bar>x\<bar> then ?e else ?e - 1)"
    by (simp add: dexp_def q)
  show "10 powi dexp x \<le> \<bar>x\<bar>" using lo by (simp add: e)
  show "\<bar>x\<bar> < 10 powi (dexp x + 1)" using hi by (auto simp: e)
qed


lemma dround_0 [simp]: "dround 0 = 0"
  by (simp add: dround_def)

lemma dexp_minus [simp]: "dexp (- x) = dexp x"
  by (simp add: dexp_def)

lemma dround_minus: "dround (- x) = - dround x"
  by (simp add: dround_def Let_def half_even_minus)

lemma dround_fits:
  assumes "fits 28 x"
  shows "dround x = x"
proof (cases "x = 0")
  case False
  from assms obtain c e where x: "x = of_int c * 10 powi e" and c: "\<bar>c\<bar> < 10 ^ 28"
    by (auto simp: fits_def)
  have "\<bar>x\<bar> = of_int \<bar>c\<bar> * 10 powi e" by (simp add: x abs_mult)
  also have "\<dots> < of_int (10 ^ 28) * 10 powi e"
    using c by (intro mult_strict_right_mono) (simp_all only: of_int_less_iff powi_pos)
  also have "\<dots> = 10 powi (28 + e)" by (simp add: power_int_add)
  finally have "(10::rat) powi dexp x < 10 powi (28 + e)"
    using dexp_bounds(1) [OF False] by linarith
  then have e: "dexp x - 27 \<le> e" by (simp add: powi_less_iff)
  let ?s = "dexp x - 27"
  have "x / 10 powi ?s = of_int (c * 10 ^ nat (e - ?s))"
    using powi_diff_nat [OF e] by (simp add: x field_simps)
  then have "of_int (half_even (x / 10 powi ?s)) = x / 10 powi ?s"
    by (simp only: half_even_of_int)
  with False show ?thesis by (simp add: dround_def Let_def)
qed simp

lemma dround_scaled:
  assumes "x \<noteq> 0"
  shows "dround x = of_int (half_even (x / 10 powi (dexp x - 27))) * 10 powi (dexp x - 27)"
  using assms by (simp add: dround_def Let_def)

lemma dround_pos_bounds:
  assumes "0 < x"
  shows "10 powi dexp x \<le> dround x" "dround x \<le> 10 powi (dexp x + 1)"
proof -
  let ?s = "dexp x - 27"
  have b: "10 powi dexp x \<le> x" "x < 10 powi (dexp x + 1)"
    using dexp_bounds [of x] assms by auto
  have p27: "(10::rat) powi dexp x = of_int (10 ^ 27) * 10 powi ?s"
    using powi_diff_nat [of ?s "dexp x"] by simp
  have p28: "(10::rat) powi (dexp x + 1) = of_int (10 ^ 28) * 10 powi ?s"
    using powi_diff_nat [of ?s "dexp x + 1"] by simp
  have "of_int (10 ^ 27) \<le> x / 10 powi ?s" using b(1) p27 by (simp add: le_divide_eq)
  then have "10 ^ 27 \<le> half_even (x / 10 powi ?s)" by (rule half_even_ge)
  then have lo: "(of_int (10 ^ 27) :: rat) \<le> of_int (half_even (x / 10 powi ?s))"
    by (simp only: of_int_le_iff)
  have "x / 10 powi ?s \<le> of_int (10 ^ 28)" using b(2) p28 by (simp add: divide_le_eq)
  then have "half_even (x / 10 powi ?s) \<le> 10 ^ 28" by (rule half_even_le)
  then have hi: "(of_int (half_even (x / 10 powi ?s)) :: rat) \<le> of_int (10 ^ 28)"
    by (simp only: of_int_le_iff)
  show "10 powi dexp x \<le> dround x"
    unfolding p27 dround_scaled [OF less_imp_neq [OF assms, symmetric]]
    by (rule mult_right_mono [OF lo]) simp
  show "dround x \<le> 10 powi (dexp x + 1)"
    unfolding p28 dround_scaled [OF less_imp_neq [OF assms, symmetric]]
    by (rule mult_right_mono [OF hi]) simp
qed

lemma dround_pos: "0 < x \<Longrightarrow> 0 < dround x"
  using dround_pos_bounds(1) [of x] powi_pos [of "dexp x"] by linarith

lemma dexp_mono:
  assumes "0 < x" "x \<le> y"
  shows "dexp x \<le> dexp y"
proof -
  have "10 powi dexp x \<le> x" using dexp_bounds(1) [of x] assms(1) by simp
  also have "x \<le> y" by (rule assms(2))
  also have "y < 10 powi (dexp y + 1)" using dexp_bounds(2) [of y] assms by simp
  finally show ?thesis by (simp add: powi_less_iff)
qed

lemma dround_mono_pos:
  assumes "0 < x" "x \<le> y"
  shows "dround x \<le> dround y"
proof (cases "dexp x = dexp y")
  case True
  let ?s = "dexp y - 27"
  have "half_even (x / 10 powi ?s) \<le> half_even (y / 10 powi ?s)"
    using assms(2) by (intro half_even_mono divide_right_mono) simp_all
  then have "(of_int (half_even (x / 10 powi ?s)) :: rat) \<le> of_int (half_even (y / 10 powi ?s))"
    by (simp only: of_int_le_iff)
  then have "of_int (half_even (x / 10 powi ?s)) * 10 powi ?s
      \<le> of_int (half_even (y / 10 powi ?s)) * (10::rat) powi ?s"
    by (rule mult_right_mono) simp
  with True assms show ?thesis by (simp add: dround_scaled)
next
  case False
  with dexp_mono [OF assms] have "dexp x + 1 \<le> dexp y" by linarith
  then have "(10::rat) powi (dexp x + 1) \<le> 10 powi dexp y" by (simp add: powi_mono_iff)
  with dround_pos_bounds(2) [of x] dround_pos_bounds(1) [of y] assms show ?thesis by linarith
qed

lemma dround_mono: "x \<le> y \<Longrightarrow> dround x \<le> dround y"
proof -
  assume le: "x \<le> y"
  consider "0 < x" | "x \<le> 0" "0 \<le> y" | "y < 0" using le by linarith
  then show ?thesis
  proof cases
    case 1
    then show ?thesis using le by (rule dround_mono_pos)
  next
    case 2
    have "0 \<le> dround y" using 2(2) dround_pos [of y] by (cases "y = 0") auto
    moreover have "dround x \<le> 0" using 2(1) dround_pos [of "- x"]
      by (cases "x = 0") (auto simp: dround_minus)
    ultimately show ?thesis by linarith
  next
    case 3
    with le have "dround (- y) \<le> dround (- x)" by (intro dround_mono_pos) auto
    then show ?thesis by (simp add: dround_minus)
  qed
qed

lemma fits_0 [simp]: "fits n 0"
  by (auto simp: fits_def intro!: exI [of _ 0])

lemma fits_minus: "fits n x \<Longrightarrow> fits n (- x)"
  by (force simp: fits_def intro: exI [of _ "- c" for c])

lemma fits_powi: "0 < n \<Longrightarrow> fits n (10 powi e)"
  unfolding fits_def by (intro exI [of _ 1] exI [of _ e]) simp

lemma fits_frac: "\<bar>c\<bar> < 10 ^ n \<Longrightarrow> x * 10 ^ k = of_int c \<Longrightarrow> fits n x"
  unfolding fits_def
  by (intro exI [of _ c] exI [of _ "- int k"]) (simp add: power_int_minus field_simps)

lemma fits_dround: "fits 28 (dround x)"
proof -
  have pos: "fits 28 (dround y)" if "0 < y" for y
  proof -
    let ?s = "dexp y - 27" let ?c = "half_even (y / 10 powi ?s)"
    have y: "dround y = of_int ?c * 10 powi ?s" using that by (simp add: dround_scaled)
    have "0 < ?c" using dround_pos [OF that] y
      by (metis powi_pos zero_less_mult_pos2 of_int_0_less_iff)
    have "of_int ?c * (10::rat) powi ?s \<le> of_int (10 ^ 28) * 10 powi ?s"
      using dround_pos_bounds(2) [OF that] powi_diff_nat [of ?s "dexp y + 1"] y by simp
    then have "(of_int ?c :: rat) \<le> of_int (10 ^ 28)" by simp
    then have le: "?c \<le> 10 ^ 28" by (simp only: of_int_le_iff)
    show ?thesis
    proof (cases "?c = 10 ^ 28")
      case True
      then have "dround y = 10 powi (dexp y + 1)"
        using powi_diff_nat [of ?s "dexp y + 1"] y by simp
      then show ?thesis by (simp add: fits_powi)
    next
      case False
      with le \<open>0 < ?c\<close> have "\<bar>?c\<bar> < 10 ^ 28" by linarith
      with y show ?thesis by (auto simp: fits_def)
    qed
  qed
  consider "0 < x" | "x = 0" | "0 < - x" by linarith
  then show ?thesis
  proof cases
    case 3
    show ?thesis using fits_minus [OF pos [OF 3]] by (simp add: dround_minus)
  qed (simp_all add: pos)
qed


text \<open>
  A faster way to evaluate the rounding: a number with at most eight places after the point
  and few enough digits is returned as it is.
\<close>

lemma frac_rescale: "d * m = p \<Longrightarrow> p \<noteq> 0 \<Longrightarrow> n / d = n * m / (p :: rat)"
  by (auto simp: field_simps)

lemma dround_code [code]:
  "dround x = (let (n, d) = quotient_of x in
     if (10 ^ 8) mod d = 0 \<and> \<bar>n\<bar> * (10 ^ 8 div d) < 10 ^ 28 then x
     else if x = 0 then 0
     else let s = dexp x - 27 in of_int (half_even (x / 10 powi s)) * 10 powi s)"
proof -
  obtain n d where q: "quotient_of x = (n, d)" by fastforce
  have d: "0 < d" and x: "x = of_int n / of_int d"
    using q quotient_of_denom_pos quotient_of_div by blast+
  have "dround x = x" if "(10 ^ 8) mod d = 0" and small: "\<bar>n\<bar> * (10 ^ 8 div d) < 10 ^ 28"
  proof (rule dround_fits)
    let ?m = "10 ^ 8 div d"
    have "d * ?m = 10 ^ 8" using that(1) by (metis dvd_eq_mod_eq_0 dvd_mult_div_cancel)
    then have "of_int d * of_int ?m = (10 ^ 8 :: rat)"
      by (metis of_int_mult of_int_numeral of_int_power)
    then have "x = of_int (n * ?m) / 10 ^ 8"
      unfolding x of_int_mult by (rule frac_rescale) simp
    moreover have "inverse (10 ^ 8) = (10::rat) powi (- 8)"
      unfolding power_int_def by (simp add: power_divide)
    ultimately have "x = of_int (n * ?m) * 10 powi (- 8)" by (simp only: divide_inverse)
    moreover have "\<bar>n * ?m\<bar> < 10 ^ 28"
    proof -
      have "0 \<le> ?m" using d by (simp only: pos_imp_zdiv_nonneg_iff) simp
      with small show ?thesis by (simp only: abs_mult abs_of_nonneg)
    qed
    ultimately show "fits 28 x" unfolding fits_def by blast
  qed
  then show ?thesis by (simp add: q dround_def Let_def)
qed

section \<open>What the components rely on\<close>

text \<open>
  The contract of the arithmetic context: rounding is monotone, odd, leaves a representable
  number alone, always yields one, and never rounds a positive number to zero.
\<close>

locale decimal_context =
  fixes rnd :: "rat \<Rightarrow> rat" and exact :: "rat \<Rightarrow> bool"
  assumes rnd_mono: "x \<le> y \<Longrightarrow> rnd x \<le> rnd y"
    and rnd_exact: "exact x \<Longrightarrow> rnd x = x"
    and exact_rnd: "exact (rnd x)"
    and exact_zero: "exact 0"
    and rnd_minus: "rnd (- x) = - rnd x"
    and rnd_pos: "0 < x \<Longrightarrow> 0 < rnd x"
begin

lemma rnd_idem [simp]: "rnd (rnd x) = rnd x"
  by (rule rnd_exact [OF exact_rnd])

lemma rnd_zero [simp]: "rnd 0 = 0"
  by (rule rnd_exact [OF exact_zero])

lemma rnd_nonneg: "0 \<le> x \<Longrightarrow> 0 \<le> rnd x"
  using rnd_mono [of 0 x] by simp

lemma rnd_le_exact: "x \<le> b \<Longrightarrow> exact b \<Longrightarrow> rnd x \<le> b"
  using rnd_mono [of x b] by (simp add: rnd_exact)

lemma rnd_ge_exact: "b \<le> x \<Longrightarrow> exact b \<Longrightarrow> b \<le> rnd x"
  using rnd_mono [of b x] by (simp add: rnd_exact)

lemma rnd_pos_iff [simp]: "0 < rnd x \<longleftrightarrow> 0 < x"
proof
  assume "0 < rnd x"
  moreover have "rnd x \<le> 0" if "x \<le> 0" using rnd_mono [OF that] by simp
  ultimately show "0 < x" by force
qed (rule rnd_pos)

lemma rnd_neg_iff [simp]: "rnd x < 0 \<longleftrightarrow> x < 0"
  using rnd_pos_iff [of "- x"] by (simp add: rnd_minus)

lemma rnd_eq_0_iff [simp]: "rnd x = 0 \<longleftrightarrow> x = 0"
proof
  assume "rnd x = 0"
  then show "x = 0" using rnd_pos_iff [of x] rnd_neg_iff [of x] by (metis less_irrefl linorder_neqE)
qed simp

lemma rnd_less_imp_less: "rnd x < rnd y \<Longrightarrow> x < y"
  using rnd_mono [of y x] by force

text \<open>Rounding keeps an order that a representable number separates.\<close>

lemma rnd_between: "x \<le> b \<Longrightarrow> b < y \<Longrightarrow> exact b \<Longrightarrow> exact y \<Longrightarrow> rnd x < rnd y"
  using rnd_le_exact [of x b] by (simp add: rnd_exact)

lemma floor_rnd_le: "x \<le> of_int k \<Longrightarrow> exact (of_int k) \<Longrightarrow> \<lfloor>rnd x\<rfloor> \<le> k"
  using rnd_le_exact [of x "of_int k"] by linarith

lemma ceiling_rnd_ge: "of_int k \<le> x \<Longrightarrow> exact (of_int k) \<Longrightarrow> k \<le> \<lceil>rnd x\<rceil>"
  using rnd_ge_exact [of "of_int k" x] by linarith

end

interpretation ctx: decimal_context dround "fits 28"
  by unfold_locales
    (simp_all add: dround_mono dround_fits fits_dround dround_minus dround_pos)

text \<open>Which exact results are representable.\<close>

lemma fits_mono: "fits m x \<Longrightarrow> m \<le> n \<Longrightarrow> fits n x"
proof -
  assume "fits m x" and mn: "m \<le> n"
  then obtain c e where x: "x = of_int c * 10 powi e" and c: "\<bar>c\<bar> < 10 ^ m"
    by (auto simp: fits_def)
  have "(10::int) ^ m \<le> 10 ^ n" using mn by (simp add: power_increasing)
  with c have "\<bar>c\<bar> < 10 ^ n" by (rule less_le_trans)
  with x show ?thesis unfolding fits_def by blast
qed

lemma fits_of_int: "\<bar>k\<bar> < 10 ^ n \<Longrightarrow> fits n (of_int k)"
  unfolding fits_def by (intro exI [of _ k] exI [of _ 0]) simp

lemma fits_mult: "fits m x \<Longrightarrow> fits n y \<Longrightarrow> fits (m + n) (x * y)"
proof -
  assume "fits m x" "fits n y"
  then obtain c e d f where
      x: "x = of_int c * 10 powi e" "\<bar>c\<bar> < 10 ^ m" and y: "y = of_int d * 10 powi f" "\<bar>d\<bar> < 10 ^ n"
    by (auto simp: fits_def)
  have "x * y = of_int (c * d) * 10 powi (e + f)" by (simp add: x y power_int_add)
  moreover have "\<bar>c * d\<bar> < 10 ^ (m + n)"
    using x(2) y(2) by (simp add: abs_mult power_add mult_strict_mono')
  ultimately show ?thesis unfolding fits_def by blast
qed

section \<open>Operators\<close>

definition dadd :: "rat \<Rightarrow> rat \<Rightarrow> rat" where "dadd x y = dround (x + y)"
definition dsub :: "rat \<Rightarrow> rat \<Rightarrow> rat" where "dsub x y = dround (x - y)"
definition dmul :: "rat \<Rightarrow> rat \<Rightarrow> rat" where "dmul x y = dround (x * y)"
definition ddiv :: "rat \<Rightarrow> rat \<Rightarrow> rat" where "ddiv x y = dround (x / y)"

definition dsum :: "rat list \<Rightarrow> rat" where
  "dsum xs = foldl dadd 0 xs"

text \<open>\<open>to_integral_value\<close> with the three rounding modes the code asks for; exact in any context.\<close>

definition to_integral_floor :: "rat \<Rightarrow> rat" where "to_integral_floor x = of_int \<lfloor>x\<rfloor>"
definition to_integral_ceiling :: "rat \<Rightarrow> rat" where "to_integral_ceiling x = of_int \<lceil>x\<rceil>"
definition to_integral_value :: "rat \<Rightarrow> rat" where "to_integral_value x = of_int (half_even x)"

lemma to_integral_value_eq_iff: "x = to_integral_value x \<longleftrightarrow> x \<in> \<int>"
  by (metis Ints_cases Ints_of_int half_even_of_int to_integral_value_def)

text \<open>Bounds by representable numbers pass through every operator.\<close>

lemma op_le_exact:
  "x + y \<le> b \<Longrightarrow> fits 28 b \<Longrightarrow> dadd x y \<le> b" "x - y \<le> b \<Longrightarrow> fits 28 b \<Longrightarrow> dsub x y \<le> b"
  "x * y \<le> b \<Longrightarrow> fits 28 b \<Longrightarrow> dmul x y \<le> b" "x / y \<le> b \<Longrightarrow> fits 28 b \<Longrightarrow> ddiv x y \<le> b"
  by (simp_all add: dadd_def dsub_def dmul_def ddiv_def ctx.rnd_le_exact)

lemma op_ge_exact:
  "b \<le> x + y \<Longrightarrow> fits 28 b \<Longrightarrow> b \<le> dadd x y" "b \<le> x - y \<Longrightarrow> fits 28 b \<Longrightarrow> b \<le> dsub x y"
  "b \<le> x * y \<Longrightarrow> fits 28 b \<Longrightarrow> b \<le> dmul x y" "b \<le> x / y \<Longrightarrow> fits 28 b \<Longrightarrow> b \<le> ddiv x y"
  by (simp_all add: dadd_def dsub_def dmul_def ddiv_def ctx.rnd_ge_exact)

lemma dmul_pos: "0 < x \<Longrightarrow> 0 < y \<Longrightarrow> 0 < dmul x y"
  by (simp add: dmul_def)

lemma ddiv_pos: "0 < x \<Longrightarrow> 0 < y \<Longrightarrow> 0 < ddiv x y"
  by (simp add: ddiv_def)

lemma fits_ops [simp]:
  "fits 28 (dadd x y)" "fits 28 (dsub x y)" "fits 28 (dmul x y)" "fits 28 (ddiv x y)"
  by (simp_all add: dadd_def dsub_def dmul_def ddiv_def fits_dround)


section \<open>The constructor\<close>

definition split_digits :: "string \<Rightarrow> string \<times> string" where
  "split_digits s = (takeWhile is_digit s, dropWhile is_digit s)"

text \<open>\<open>[+-]?digits\<close>, as the exponent is written.\<close>

definition parse_exponent :: "string \<Rightarrow> int option" where
  "parse_exponent s =
     (let (neg, ds) = (case s of [] \<Rightarrow> (False, [])
                       | c # r \<Rightarrow> if c = CHR ''-'' then (True, r)
                                  else if c = CHR ''+'' then (False, r) else (False, s))
      in if ds \<noteq> [] \<and> list_all is_digit ds
         then Some (if neg then - int (digits_val ds) else int (digits_val ds)) else None)"

text \<open>A number without its sign: digits, an optional point and more digits, an exponent.\<close>

definition parse_unsigned :: "string \<Rightarrow> rat option" where
  "parse_unsigned s =
     (let (i, r1) = split_digits s;
          (f, r2) = (case r1 of [] \<Rightarrow> ([], [])
                     | c # r \<Rightarrow> if c = CHR ''.'' then split_digits r else ([], r1));
          m = of_nat (digits_val (i @ f)) * 10 powi (- int (length f))
      in if i = [] \<and> f = [] then None
         else (case r2 of [] \<Rightarrow> Some m
               | c # r \<Rightarrow> if c = CHR ''e'' \<or> c = CHR ''E''
                          then map_option (\<lambda>e. m * 10 powi e) (parse_exponent r) else None))"

definition parse_special :: "string \<Rightarrow> pydec option" where
  "parse_special s =
     (let t = py_lower s
      in if t = ''inf'' \<or> t = ''infinity'' then Some (DInf False)
         else if take 3 t = ''nan'' \<and> list_all is_digit (drop 3 t) then Some DNaN
         else if take 4 t = ''snan'' \<and> list_all is_digit (drop 4 t) then Some DNaN
         else None)"

definition negate_dec :: "pydec \<Rightarrow> pydec" where
  "negate_dec d = (case d of DFin x \<Rightarrow> DFin (- x) | DInf b \<Rightarrow> DInf (\<not> b) | DNaN \<Rightarrow> DNaN)"

definition parse_decimal :: "string \<Rightarrow> pydec option" where
  "parse_decimal s =
     (let t = filter (\<lambda>c. c \<noteq> CHR ''_'') (py_strip s);
          (neg, body) = (case t of [] \<Rightarrow> (False, [])
                         | c # r \<Rightarrow> if c = CHR ''-'' then (True, r)
                                    else if c = CHR ''+'' then (False, r) else (False, t));
          v = (case parse_unsigned body of Some x \<Rightarrow> Some (DFin x) | None \<Rightarrow> parse_special body)
      in map_option (\<lambda>d. if neg then negate_dec d else d) v)"

section \<open>The text of a decimal\<close>

text \<open>
  \<open>format(d.normalize(), "f")\<close>: the shortest positional notation.  \<open>frac_places\<close> is the least
  number of places after the point that writes the number exactly.
\<close>

definition frac_places :: "rat \<Rightarrow> nat" where
  "frac_places x = (let d = snd (quotient_of x)
     in case find (\<lambda>k. (10 ^ k) mod d = 0) [0..<Suc (floorlog 2 (nat d))] of Some k \<Rightarrow> k | None \<Rightarrow> 0)"

definition plain_text :: "rat \<Rightarrow> string" where
  "plain_text x =
     (let k = frac_places x;
          ds = nat_digits (nat \<lfloor>\<bar>x\<bar> * 10 ^ k\<rfloor>);
          padded = replicate (Suc k - length ds) (digit_char 0) @ ds;
          w = length padded - k;
          body = (if k = 0 then ds else take w padded @ CHR ''.'' # drop w padded)
      in if x < 0 then CHR ''-'' # body else body)"

definition decimal_text :: "rat \<Rightarrow> string" where
  "decimal_text x = plain_text (dround x)"

lemma text_examples:
  "decimal_text 0 = ''0''" "decimal_text (3/2) = ''1.5''" "decimal_text (-1200) = ''-1200''"
  "decimal_text (1/20) = ''0.05''"
  by code_simp+

lemma parse_examples:
  "parse_decimal '' 1_0.50e2 '' = Some (DFin 1050)" "parse_decimal ''-.5'' = Some (DFin (- 1/2))"
  "parse_decimal ''.'' = None" "parse_decimal ''-Inf'' = Some (DInf True)"
  "parse_decimal ''None'' = None"
  by code_simp+


section \<open>Printing and reading back\<close>

text \<open>The values a decimal can have: a whole number over a power of ten.\<close>

definition terminating :: "rat \<Rightarrow> bool" where
  "terminating x \<longleftrightarrow> (\<exists>k. x * 10 ^ k \<in> \<int>)"

lemma terminating_fits: "fits n x \<Longrightarrow> terminating x"
proof -
  assume "fits n x"
  then obtain c e where x: "x = of_int c * 10 powi e" by (auto simp: fits_def)
  have "x * 10 ^ nat (- e) = of_int (c * 10 ^ nat e)"
    by (cases "0 \<le> e") (simp_all add: x power_int_def flip: power_mult_distrib)
  then show ?thesis unfolding terminating_def by (metis Ints_of_int)
qed

lemma dvd_power10_bound:
  "0 < d \<Longrightarrow> d dvd (10::int) ^ K \<Longrightarrow> d < 2 ^ Suc m \<Longrightarrow> d dvd 10 ^ m"
proof (induction m arbitrary: d)
  case 0
  then have "d = 1" by simp
  then show ?case by simp
next
  case (Suc m)
  show ?case
  proof (cases "d = 1")
    case False
    let ?g = "gcd d 10"
    have "?g \<noteq> 1"
    proof
      assume "?g = 1"
      then have "coprime d 10" by (simp only: coprime_iff_gcd_eq_1)
      then have "coprime d (10 ^ K)" by simp
      with Suc.prems(2) have "is_unit d" by (metis coprime_common_divisor dvd_refl)
      with False Suc.prems(1) show False by simp
    qed
    then have g: "2 \<le> ?g" using gcd_pos_int [of d 10] by linarith
    define g where "g = ?g"
    have g2: "2 \<le> g" and gd: "g dvd d" and g10: "g dvd 10"
      using g by (simp_all add: g_def)
    from gd obtain d' where d': "d = g * d'" by (rule dvdE)
    have pos: "0 < d'" using Suc.prems(1) g2 by (simp add: d' zero_less_mult_iff)
    have "2 * d' \<le> g * d'" using g2 pos by simp
    then have lt: "d' < 2 ^ Suc m" using Suc.prems(3) d' by simp
    have "d' dvd 10 ^ K" using Suc.prems(2) d' by (metis dvd_mult_right)
    from Suc.IH [OF pos this lt] have "d' dvd 10 ^ m" .
    then have "g * d' dvd 10 * 10 ^ m" using g10 by (simp add: mult_dvd_mono)
    then show ?thesis by (simp add: d')
  qed simp
qed

lemma frac_places_Ints:
  assumes "terminating x"
  shows "x * 10 ^ frac_places x \<in> \<int>"
proof -
  obtain n d where q: "quotient_of x = (n, d)" by fastforce
  have d: "0 < d" and x: "x = of_int n / of_int d" and cop: "coprime n d"
    using q quotient_of_denom_pos quotient_of_div quotient_of_coprime by blast+
  have iff: "x * 10 ^ k \<in> \<int> \<longleftrightarrow> d dvd 10 ^ k" for k
  proof
    assume "x * 10 ^ k \<in> \<int>"
    then obtain z where "x * 10 ^ k = of_int z" by (auto elim: Ints_cases)
    then have "of_int (n * 10 ^ k) = (of_int (z * d) :: rat)" using d by (simp add: x field_simps)
    then have "n * 10 ^ k = z * d" by (simp only: of_int_eq_iff)
    then have "d dvd n * 10 ^ k" by simp
    then show "d dvd 10 ^ k" using cop by (simp add: coprime_dvd_mult_right_iff coprime_commute)
  next
    assume "d dvd 10 ^ k"
    then obtain z where "10 ^ k = d * z" by auto
    then have "(10 ^ k :: rat) = of_int d * of_int z" by (metis of_int_mult of_int_numeral of_int_power)
    then have "x * 10 ^ k = of_int (n * z)" using d by (simp add: x)
    then show "x * 10 ^ k \<in> \<int>" by simp
  qed
  from assms obtain K where K: "d dvd 10 ^ K" by (auto simp: terminating_def iff)
  let ?m = "floorlog 2 (nat d)"
  have "nat d < 2 ^ ?m" using d floorlog_bounds [of "nat d" 2] by simp
  then have "d < 2 ^ ?m" using d by (simp add: nat_less_iff)
  also have "\<dots> \<le> 2 ^ Suc ?m" by simp
  finally have "d dvd 10 ^ ?m" using dvd_power10_bound [OF d K] by blast
  then have m: "(10 ^ ?m) mod d = 0" by simp
  have "?m \<in> set [0..<Suc ?m]" by simp
  from find_mem [of ?m "[0..<Suc ?m]" "\<lambda>k. (10 ^ k) mod d = 0", OF this m]
  obtain k where k: "find (\<lambda>k. (10 ^ k) mod d = 0) [0..<Suc ?m] = Some k"
    and "(10 ^ k) mod d = 0" by (elim exE conjE)
  have "frac_places x = k" by (simp only: frac_places_def q snd_conv Let_def k option.case)
  with \<open>(10 ^ k) mod d = 0\<close> show ?thesis by (simp add: iff dvd_eq_mod_eq_0)
qed

lemma takeWhile_digits_append:
  "list_all P i \<Longrightarrow> r = [] \<or> \<not> P (hd r) \<Longrightarrow> takeWhile P (i @ r) = i \<and> dropWhile P (i @ r) = r"
  by (induction i) (cases r, auto)

lemma parse_unsigned_plain:
  assumes "list_all is_digit i" "i \<noteq> []" "list_all is_digit f"
  shows "parse_unsigned (i @ CHR ''.'' # f) = Some (of_nat (digits_val (i @ f)) * 10 powi (- int (length f)))"
    and "parse_unsigned i = Some (of_nat (digits_val i))"
proof -
  have dot: "\<not> is_digit (CHR ''.'')" by code_simp
  have "split_digits (i @ CHR ''.'' # f) = (i, CHR ''.'' # f)"
    using takeWhile_digits_append [of is_digit i "CHR ''.'' # f"] assms(1) dot by (simp add: split_digits_def)
  moreover have "split_digits f = (f, [])"
    using takeWhile_digits_append [of is_digit f "[]"] assms(3) by (simp add: split_digits_def)
  ultimately show "parse_unsigned (i @ CHR ''.'' # f)
      = Some (of_nat (digits_val (i @ f)) * 10 powi (- int (length f)))"
    using assms(2) by (simp add: parse_unsigned_def)
  have "split_digits i = (i, [])"
    using takeWhile_digits_append [of is_digit i "[]"] assms(1) by (simp add: split_digits_def)
  then show "parse_unsigned i = Some (of_nat (digits_val i))"
    using assms(2) by (simp add: parse_unsigned_def)
qed


lemma plain_text_digits:
  assumes "terminating x"
  obtains i f where "list_all is_digit i" "i \<noteq> []" "list_all is_digit f"
    "plain_text x = (if x < 0 then [CHR ''-''] else []) @ i @ (if f = [] then [] else CHR ''.'' # f)"
    "\<bar>x\<bar> = of_nat (digits_val (i @ f)) * 10 powi (- int (length f))"
proof -
  let ?k = "frac_places x"
  let ?c = "nat \<lfloor>\<bar>x\<bar> * 10 ^ ?k\<rfloor>"
  let ?ds = "nat_digits ?c"
  let ?p = "replicate (Suc ?k - length ?ds) (digit_char 0) @ ?ds"
  have "\<bar>x * 10 ^ ?k\<bar> \<in> \<int>" using frac_places_Ints [OF assms] by simp
  then have "\<bar>x\<bar> * 10 ^ ?k \<in> \<int>" by (simp add: abs_mult)
  then obtain z where z: "\<bar>x\<bar> * 10 ^ ?k = of_int z" by (rule Ints_cases)
  have "0 \<le> (of_int z :: rat)" by (simp flip: z)
  then have c: "\<bar>x\<bar> * 10 ^ ?k = of_nat ?c" by (simp add: z)
  have alld: "list_all is_digit ?ds" "list_all is_digit ?p"
    by (auto simp: list_all_iff dest: nat_digits_all_digit)
  have len: "?k < length ?p" by simp
  show ?thesis
  proof (cases "?k = 0")
    case True
    have "plain_text x = (if x < 0 then [CHR ''-''] else []) @ ?ds"
      by (simp add: plain_text_def True)
    moreover have "\<bar>x\<bar> = of_nat (digits_val ?ds)" using c True by simp
    ultimately show ?thesis using that [of ?ds "[]"] alld by simp
  next
    case False
    let ?w = "length ?p - ?k"
    let ?i = "take ?w ?p" and ?f = "drop ?w ?p"
    have lf: "length ?f = ?k" using len
      by (simp only: length_drop diff_diff_cancel [OF less_imp_le_nat])
    have "0 < ?w" using len by (simp only: zero_less_diff)
    then have "0 < length ?i" using len by (simp only: length_take) linarith
    moreover have "0 < length ?f" using False by (simp only: lf neq0_conv)
    ultimately have ne: "?i \<noteq> []" "?f \<noteq> []" by (simp_all only: length_greater_0_conv not_False_eq_True)
    have di: "list_all is_digit ?i" "list_all is_digit ?f"
      using alld(2) by (auto simp only: list_all_iff dest: in_set_takeD in_set_dropD)
    have pt: "plain_text x = (if x < 0 then [CHR ''-''] else []) @ ?i @ CHR ''.'' # ?f"
      using False by (simp add: plain_text_def Let_def)
    have "digits_val (?i @ ?f) = ?c" by (simp only: append_take_drop_id) simp
    moreover have "\<bar>x\<bar> = of_nat ?c * 10 powi (- int ?k)"
      by (simp add: c [symmetric] power_int_minus)
    ultimately have v: "\<bar>x\<bar> = of_nat (digits_val (?i @ ?f)) * 10 powi (- int (length ?f))"
      by (simp only: lf)
    have "plain_text x = (if x < 0 then [CHR ''-''] else []) @ ?i @ (if ?f = [] then [] else CHR ''.'' # ?f)"
      by (simp only: pt ne(2) if_False)
    then show ?thesis using v by (rule that [OF di(1) ne(1) di(2)])
  qed
qed

lemma parse_decimal_body:
  assumes "list_all is_digit i" "i \<noteq> []" "list_all is_digit f"
  shows "parse_decimal ((if neg then [CHR ''-''] else []) @ i @ (if f = [] then [] else CHR ''.'' # f))
     = Some (DFin ((if neg then - 1 else 1) * (of_nat (digits_val (i @ f)) * 10 powi (- int (length f)))))"
proof -
  let ?body = "i @ (if f = [] then [] else CHR ''.'' # f)"
  let ?s = "(if neg then [CHR ''-''] else []) @ ?body"
  have chars: "\<not> is_space (CHR ''-'')" "\<not> is_digit (CHR ''_'')" "\<not> is_digit (CHR ''-'')"
    "\<not> is_digit (CHR ''+'')" by code_simp+
  have ends: "is_digit (hd i)" "is_digit (last i)" "f \<noteq> [] \<Longrightarrow> is_digit (last f)"
    using assms by (auto simp: list_all_iff)
  have "hd ?s = (if neg then CHR ''-'' else hd i)" "last ?s = (if f = [] then last i else last f)"
    using assms(2) by auto
  then have strip: "py_strip ?s = ?s"
    using ends chars(1) by (intro py_strip_id) (auto dest: is_digit_not_space)
  have nous: "filter (\<lambda>c. c \<noteq> CHR ''_'') ?s = ?s"
    using assms chars(2) by (intro filter_True) (auto simp: list_all_iff)
  have "hd i \<noteq> CHR ''-''" "hd i \<noteq> CHR ''+''" using ends(1) chars by metis+
  then obtain c r where b: "?body = c # r" "c \<noteq> CHR ''-''" "c \<noteq> CHR ''+''"
    using assms(2) by (cases i) auto
  have pu: "parse_unsigned ?body = Some (of_nat (digits_val (i @ f)) * 10 powi (- int (length f)))"
    using parse_unsigned_plain [OF assms] by (cases "f = []") simp_all
  show ?thesis
  proof (cases neg)
    case True
    then show ?thesis using strip nous pu by (simp add: parse_decimal_def negate_dec_def)
  next
    case False
    then show ?thesis using strip nous pu b by (simp add: parse_decimal_def)
  qed
qed

lemma parse_plain_text:
  assumes "terminating x"
  shows "parse_decimal (plain_text x) = Some (DFin x)"
proof -
  from plain_text_digits [OF assms] obtain i f where *:
      "list_all is_digit i" "i \<noteq> []" "list_all is_digit f"
    and t: "plain_text x = (if x < 0 then [CHR ''-''] else []) @ i @ (if f = [] then [] else CHR ''.'' # f)"
    and v: "\<bar>x\<bar> = of_nat (digits_val (i @ f)) * 10 powi (- int (length f))"
    by blast
  have "(if x < 0 then - 1 else 1) * \<bar>x\<bar> = x" by simp
  then show ?thesis using parse_decimal_body [OF *, of "x < 0"] t v by metis
qed

lemma parse_decimal_text: "parse_decimal (decimal_text x) = Some (DFin (dround x))"
  unfolding decimal_text_def by (intro parse_plain_text terminating_fits [OF fits_dround])

lemma parse_decimal_text_exact: "fits 28 x \<Longrightarrow> parse_decimal (decimal_text x) = Some (DFin x)"
  by (simp add: parse_decimal_text dround_fits)

text \<open>A printed decimal has no surrounding blanks, so stripping leaves it as it is.\<close>

lemma py_strip_plain_text:
  assumes "terminating x"
  shows "py_strip (plain_text x) = plain_text x"
proof -
  obtain i f where *: "list_all is_digit i" "i \<noteq> []" "list_all is_digit f"
    and p: "plain_text x = (if x < 0 then [CHR ''-''] else []) @ i @ (if f = [] then [] else CHR ''.'' # f)"
    using plain_text_digits [OF assms] by metis
  have "\<not> is_space (CHR ''-'')" by code_simp
  moreover have "is_digit (hd i)" "is_digit (last i)" "f \<noteq> [] \<Longrightarrow> is_digit (last f)"
    using * by (auto simp: list_all_iff)
  ultimately show ?thesis using *(2) unfolding p
    by (intro py_strip_id) (auto dest: is_digit_not_space)
qed

lemma py_strip_decimal_text [simp]: "py_strip (decimal_text x) = decimal_text x"
  unfolding decimal_text_def by (intro py_strip_plain_text terminating_fits [OF fits_dround])

section \<open>Reading an untyped value\<close>

definition py_str :: "pyval \<Rightarrow> string" where
  "py_str v = (case v of
      VNone \<Rightarrow> ''None''
    | VBool b \<Rightarrow> (if b then ''True'' else ''False'')
    | VInt i \<Rightarrow> int_text i
    | VStr s \<Rightarrow> s
    | VFloat r \<Rightarrow> r
    | VDec d \<Rightarrow> (case d of DFin x \<Rightarrow> plain_text x
        | DInf b \<Rightarrow> (if b then ''-Infinity'' else ''Infinity'') | DNaN \<Rightarrow> ''NaN''))"

lemma py_str_VStr [simp]: "py_str (VStr s) = s"
  by (simp add: py_str_def)

text \<open>Truth of a value; a float is false when its \<open>repr\<close> reads as zero.\<close>

definition truthy :: "pyval \<Rightarrow> bool" where
  "truthy v = (case v of
      VNone \<Rightarrow> False
    | VBool b \<Rightarrow> b
    | VInt i \<Rightarrow> i \<noteq> 0
    | VStr s \<Rightarrow> s \<noteq> []
    | VFloat r \<Rightarrow> parse_decimal r \<noteq> Some (DFin 0)
    | VDec d \<Rightarrow> d \<noteq> DFin 0)"

text \<open>\<open>str(v or "")\<close>.\<close>

definition str_or_empty :: "pyval \<Rightarrow> string" where
  "str_or_empty v = (if truthy v then py_str v else [])"

text \<open>\<open>Decimal(str(v))\<close>; the text of a decimal is read back exactly.\<close>

definition py_decimal :: "pyval \<Rightarrow> pydec option" where
  "py_decimal v = (case v of VDec d \<Rightarrow> Some d | _ \<Rightarrow> parse_decimal (py_str v))"

definition finite_decimal :: "pyval \<Rightarrow> rat option" where
  "finite_decimal v = (case py_decimal v of Some (DFin x) \<Rightarrow> Some x | _ \<Rightarrow> None)"

text \<open>The test every module repeats: parse, finite, and greater than zero.\<close>

definition positive_value :: "pyval \<Rightarrow> rat option" where
  "positive_value v = (case finite_decimal v of Some x \<Rightarrow> (if 0 < x then Some x else None) | None \<Rightarrow> None)"

lemma positive_value_pos: "positive_value v = Some x \<Longrightarrow> 0 < x"
  by (auto simp: positive_value_def split: option.splits if_splits)

lemma positive_value_finite: "positive_value v = Some x \<longleftrightarrow> finite_decimal v = Some x \<and> 0 < x"
  by (auto simp: positive_value_def split: option.splits)

lemma positive_value_VDec [simp]: "positive_value (VDec (DFin x)) = (if 0 < x then Some x else None)"
  by (simp add: positive_value_def finite_decimal_def py_decimal_def)

lemma finite_decimal_VDec [simp]: "finite_decimal (VDec (DFin x)) = Some x"
  by (simp add: finite_decimal_def py_decimal_def)

lemma finite_decimal_text [simp]: "finite_decimal (VStr (decimal_text x)) = Some (dround x)"
  by (simp add: finite_decimal_def py_decimal_def py_str_def parse_decimal_text)

lemma positive_value_text [simp]:
  "positive_value (VStr (decimal_text x)) = (if 0 < x then Some (dround x) else None)"
  by (simp add: positive_value_def)

text \<open>\<open>str(side or "").strip().lower()\<close>, tested against long and short.\<close>

definition norm_side :: "pyval \<Rightarrow> string" where
  "norm_side v = py_lower (py_strip (str_or_empty v))"

abbreviation is_long_or_short :: "string \<Rightarrow> bool" where
  "is_long_or_short s \<equiv> s = ''long'' \<or> s = ''short''"

text \<open>\<open>int(v)\<close>; \<open>None\<close> is the \<open>TypeError\<close> or \<open>ValueError\<close> the callers catch.\<close>

definition py_int :: "pyval \<Rightarrow> int option" where
  "py_int v = (case v of
      VNone \<Rightarrow> None
    | VBool b \<Rightarrow> Some (if b then 1 else 0)
    | VInt i \<Rightarrow> Some i
    | VStr s \<Rightarrow> parse_int s
    | VFloat r \<Rightarrow> map_option (\<lambda>x. if 0 \<le> x then \<lfloor>x\<rfloor> else \<lceil>x\<rceil>) (finite_decimal v)
    | VDec d \<Rightarrow> map_option (\<lambda>x. if 0 \<le> x then \<lfloor>x\<rfloor> else \<lceil>x\<rceil>) (finite_decimal v))"

end
