(* ===== verification/Backup_Stop.thy ===== *)
theory Backup_Stop
  imports Py_Decimal
begin

text \<open>
  The exact-position backup stop (\<open>trigger_backup_stop.py\<close>): its price, a buffer beyond the
  primary stop rounded away from the market to the contract tick, and the order payload with
  the checks that keep it between the primary stop and the liquidation price.
\<close>

section \<open>Definitions\<close>

definition backup_side :: "pyval \<Rightarrow> string result" where
  "backup_side value =
     (let normalized = norm_side value
      in if is_long_or_short normalized then Inr normalized
         else Inl (BackupStopError ''side must be long or short''))"

definition backup_positive_decimal :: "pyval \<Rightarrow> string \<Rightarrow> rat result" where
  "backup_positive_decimal value label =
     (case positive_value value of
        None \<Rightarrow> Inl (BackupStopError (label @ '' must be positive''))
      | Some parsed \<Rightarrow> Inr parsed)"

definition backup_decimal_text :: "rat \<Rightarrow> string" where
  "backup_decimal_text value = decimal_text value"

text \<open>The arithmetic of \<open>calculate_backup_stop_price\<close>, after its arguments are read.\<close>

definition backup_stop_value :: "string \<Rightarrow> rat \<Rightarrow> rat \<Rightarrow> rat \<Rightarrow> rat" where
  "backup_stop_value side primary tick buffer =
     (let ratio = ddiv buffer 10000;
          candidate = dmul primary (if side = ''long'' then dsub 1 ratio else dadd 1 ratio);
          steps = (if side = ''long'' then to_integral_floor (ddiv candidate tick)
                   else to_integral_ceiling (ddiv candidate tick))
      in dmul steps tick)"

definition calculate_backup_stop_price ::
    "pyval \<Rightarrow> pyval \<Rightarrow> pyval \<Rightarrow> pyval \<Rightarrow> string result" where
  "calculate_backup_stop_price primary_stop side price_tick buffer_bps =
     rbind (backup_side side) (\<lambda>normalized_side.
     rbind (backup_positive_decimal primary_stop ''primary stop'') (\<lambda>primary.
     rbind (backup_positive_decimal price_tick ''price tick'') (\<lambda>tick.
     rbind (backup_positive_decimal buffer_bps ''backup-stop buffer'') (\<lambda>buffer.
       Inr (backup_decimal_text (backup_stop_value normalized_side primary tick buffer))))))"

definition build_backup_stop_trigger_payload ::
    "pyval \<Rightarrow> pyval \<Rightarrow> pyval \<Rightarrow> pyval \<Rightarrow> pyval \<Rightarrow> pyval \<Rightarrow> pyval \<Rightarrow> pyval \<Rightarrow> pyval
     \<Rightarrow> (string \<times> string) list result" where
  "build_backup_stop_trigger_payload instrument_id side margin_mode pos_id primary_stop
      backup_stop liquidation_price close_size_arg client_order_id =
     rbind (backup_side side) (\<lambda>normalized_side.
       let normalized_instrument = py_upper (py_strip (str_or_empty instrument_id));
           normalized_pos_id = py_strip (str_or_empty pos_id);
           normalized_client_id = py_strip (str_or_empty client_order_id);
           normalized_margin = py_lower (py_strip (str_or_empty margin_mode))
       in if normalized_instrument = [] \<or> normalized_pos_id = [] \<or> normalized_client_id = []
          then Inl (BackupStopError ''instrument, exact position, and client order id are required'')
          else if normalized_margin \<noteq> ''cross'' \<and> normalized_margin \<noteq> ''isolated''
          then Inl (BackupStopError ''margin mode must be cross or isolated'')
          else
            rbind (backup_positive_decimal primary_stop ''primary stop'') (\<lambda>primary.
            rbind (backup_positive_decimal backup_stop ''backup stop'') (\<lambda>backup.
            rbind (backup_positive_decimal liquidation_price ''liquidation price'') (\<lambda>liquidation.
            rbind (backup_positive_decimal close_size_arg ''close size'') (\<lambda>close_size.
              if normalized_side = ''long'' \<and> backup \<ge> primary then
                Inl (BackupStopError ''backup stop must be on the long risk side of primary stop'')
              else if normalized_side = ''long'' \<and> backup \<le> liquidation then
                Inl (BackupStopError ''backup stop must remain safely before long liquidation'')
              else if normalized_side \<noteq> ''long'' \<and> backup \<le> primary then
                Inl (BackupStopError ''backup stop must be on the short risk side of primary stop'')
              else if normalized_side \<noteq> ''long'' \<and> backup \<ge> liquidation then
                Inl (BackupStopError ''backup stop must remain safely before short liquidation'')
              else
                Inr [(''instType'', ''SWAP''),
                     (''instId'', normalized_instrument),
                     (''posSide'', normalized_side),
                     (''mrgPosition'', ''split''),
                     (''tdMode'', normalized_margin),
                     (''posId'', normalized_pos_id),
                     (''slTriggerPx'', backup_decimal_text backup),
                     (''slTriggerPxType'', ''last''),
                     (''slOrdPx'', ''-1'')])))))"

section \<open>The readers\<close>

lemma backup_side_Inr [simp]:
  "backup_side v = Inr s \<longleftrightarrow> s = norm_side v \<and> is_long_or_short s"
  by (auto simp: backup_side_def Let_def)

lemma backup_positive_decimal_Inr [simp]:
  "backup_positive_decimal v l = Inr x \<longleftrightarrow> positive_value v = Some x"
  by (auto simp: backup_positive_decimal_def split: option.splits)

lemma calculate_backup_stop_price_Inr:
  "calculate_backup_stop_price primary side tick buffer = Inr t \<longleftrightarrow>
     is_long_or_short (norm_side side) \<and>
     (\<exists>p k b. positive_value primary = Some p \<and> positive_value tick = Some k
        \<and> positive_value buffer = Some b
        \<and> t = decimal_text (backup_stop_value (norm_side side) p k b))"
  by (auto simp: calculate_backup_stop_price_def rbind_Inr_iff backup_decimal_text_def)

section \<open>Where the backup stop lies\<close>

text \<open>
  The bounds a real contract meets: the primary stop is a whole number of ticks, fewer than
  \<open>10^12\<close>, the tick has at most seven significant digits, and the buffer is between a
  thousandth of a basis point and one hundred percent.
\<close>

definition contract_scale :: "int \<Rightarrow> rat \<Rightarrow> rat \<Rightarrow> bool" where
  "contract_scale n tick buffer \<longleftrightarrow>
     0 < n \<and> n < 10 ^ 12 \<and> 0 < tick \<and> fits 7 tick \<and> 1 / 1000 \<le> buffer \<and> buffer \<le> 10000"

lemma fits_tick_multiple:
  "fits 7 tick \<Longrightarrow> \<bar>n\<bar> < 10 ^ 21 \<Longrightarrow> fits 28 (of_int n * tick)"
  using fits_mult [OF fits_of_int [of n 21]] by force

lemma dmul_tick: "fits 7 tick \<Longrightarrow> \<bar>n\<bar> < 10 ^ 21 \<Longrightarrow> dmul (of_int n) tick = of_int n * tick"
  by (simp add: dmul_def dround_fits fits_tick_multiple)

lemma small_steps: "0 \<le> q \<Longrightarrow> q \<le> 2 * n \<Longrightarrow> 0 < n \<Longrightarrow> n < 10 ^ 12 \<Longrightarrow> \<bar>q\<bar> < (10::int) ^ 21"
  by simp

text \<open>One ten-millionth, the least move the buffer makes; kept folded in the proofs.\<close>

definition ulp7 :: rat where
  "ulp7 = 1 / 10000000"

lemma ulp7_pos: "0 < ulp7"
  by (simp add: ulp7_def)

lemma ulp7_unit: "1 = of_int 10000000 * ulp7"
  by (simp add: ulp7_def)

lemma ulp7_powi: "ulp7 = 10 powi (- 7)"
  unfolding ulp7_def power_int_def by (simp add: power_divide)

lemma fits_ulp7: "\<bar>m\<bar> < 10 ^ k \<Longrightarrow> fits k (of_int m * ulp7)"
  unfolding fits_def
  by (intro exI [of _ m] exI [of _ "- 7"]) (simp only: ulp7_powi)

lemma fits_step: "\<bar>n\<bar> < 10 ^ 12 \<Longrightarrow> fits 28 (of_int n + ulp7)"
proof -
  assume n: "\<bar>n\<bar> < 10 ^ 12"
  have "of_int n + ulp7 = of_int (n * 10000000 + 1) * ulp7"
    by (simp add: ulp7_def)
  moreover have "\<bar>n * 10000000 + 1\<bar> < 10 ^ 28" using n by (simp add: abs_less_iff)
  ultimately show ?thesis using fits_ulp7 [of "n * 10000000 + 1" 28] by metis
qed

lemma fits_step_down: "\<bar>n\<bar> < 10 ^ 12 \<Longrightarrow> fits 28 (of_int n - ulp7)"
  using fits_minus [OF fits_step [of "- n"]] by simp

lemma fits_28_int: "\<bar>k\<bar> < 10 ^ 28 \<Longrightarrow> fits 28 (of_int k)"
  by (rule fits_of_int)

lemma ratio_bounds:
  assumes "1 / 1000 \<le> b" "b \<le> 10000"
  shows "ulp7 \<le> ddiv b 10000" "ddiv b 10000 \<le> 1"
proof -
  have u: "ulp7 \<le> b / 10000" using assms(1) by (simp add: ulp7_def)
  have "fits 28 ulp7" using fits_ulp7 [of 1 28] by simp
  with u show "ulp7 \<le> ddiv b 10000" by (intro op_ge_exact)
  have "b / 10000 \<le> of_int 1" using assms(2) by simp
  then have "ddiv b 10000 \<le> of_int 1"
    by (intro op_le_exact fits_28_int) simp_all
  then show "ddiv b 10000 \<le> 1" by simp
qed

text \<open>A product by a factor below ten of a scaled price keeps its exact bounds.\<close>

lemma fits_scaled:
  assumes "fits 7 t" "\<bar>n\<bar> < 10 ^ 12" "\<bar>m\<bar> < 10 ^ 8"
  shows "fits 28 (of_int n * t * (of_int m * ulp7))"
proof -
  have "fits 12 (of_int n)" using assms(2) by (rule fits_of_int)
  from fits_mult [OF fits_mult [OF this assms(1)] fits_ulp7 [OF assms(3)]]
  show ?thesis by (rule fits_mono) simp
qed

lemma backup_stop_value_long:
  assumes "contract_scale n t b"
  obtains q where "backup_stop_value ''long'' (of_int n * t) t b = of_int q * t" "0 \<le> q" "q < n"
proof -
  let ?p = "of_int n * t"
  let ?m = "dsub 1 (ddiv b 10000)" let ?c = "dmul ?p ?m"
  have n: "0 < n" "n < 10 ^ 12" and t: "0 < t" "fits 7 t"
    and b: "1 / 1000 \<le> b" "b \<le> 10000" using assms by (auto simp: contract_scale_def)
  note r = ratio_bounds [OF b]
  have f1: "fits 28 (1 - ulp7)" using fits_step_down [of 1] by simp
  have m: "0 \<le> ?m" using r(2) by (intro op_ge_exact) simp_all
  have m1: "?m \<le> 1 - ulp7" using r(1) f1 by (intro op_le_exact) simp_all
  have f: "fits 28 (?p * (1 - ulp7))"
  proof -
    have e: "1 - ulp7 = of_int 9999999 * ulp7" by (simp add: ulp7_def)
    show ?thesis unfolding e using t n by (intro fits_scaled) simp_all
  qed
  have p0: "0 \<le> ?p" using n t by simp
  have c: "0 \<le> ?c" using mult_nonneg_nonneg [OF p0 m] by (intro op_ge_exact) simp_all
  have c1: "?c \<le> ?p * (1 - ulp7)"
    using m1 p0 f by (intro op_le_exact(3) mult_left_mono)
  have "?c / t \<le> of_int n * (1 - ulp7)" using c1 t(1)
    by (simp add: pos_divide_le_eq mult.commute mult.left_commute)
  also have "\<dots> \<le> of_int n - ulp7"
  proof -
    have "1 * ulp7 \<le> of_int n * ulp7" using n(1) ulp7_pos by (intro mult_right_mono) simp_all
    then show ?thesis by (simp add: right_diff_distrib)
  qed
  finally have d: "ddiv ?c t \<le> of_int n - ulp7"
    using n by (intro op_le_exact fits_step_down) auto
  have d0: "0 \<le> ddiv ?c t" using c t(1) by (intro op_ge_exact) simp_all
  let ?q = "\<lfloor>ddiv ?c t\<rfloor>"
  have q: "0 \<le> ?q" using d0 by simp
  have qn: "?q < n" using d ulp7_pos by (simp add: floor_less_iff)
  have "backup_stop_value ''long'' ?p t b = dmul (of_int ?q) t"
    by (simp add: backup_stop_value_def to_integral_floor_def)
  also have "\<dots> = of_int ?q * t"
  proof (rule dmul_tick [OF t(2)])
    have "?q \<le> 2 * n" using qn n(1) by linarith
    with q show "\<bar>?q\<bar> < 10 ^ 21" using n by (rule small_steps)
  qed
  finally show ?thesis using q qn by (rule that)
qed

lemma backup_stop_value_short:
  assumes "contract_scale n t b"
  obtains q where "backup_stop_value ''short'' (of_int n * t) t b = of_int q * t" "n < q" "q \<le> 2 * n"
proof -
  let ?p = "of_int n * t"
  let ?m = "dadd 1 (ddiv b 10000)" let ?c = "dmul ?p ?m"
  have n: "0 < n" "n < 10 ^ 12" and t: "0 < t" "fits 7 t"
    and b: "1 / 1000 \<le> b" "b \<le> 10000" using assms by (auto simp: contract_scale_def)
  note r = ratio_bounds [OF b]
  have f1: "fits 28 (1 + ulp7)" using fits_step [of 1] by simp
  have f2: "fits 28 2" using fits_28_int [of 2] by simp
  have m1: "1 + ulp7 \<le> ?m" using r(1) f1 by (intro op_ge_exact) simp_all
  have m2: "?m \<le> 2" using r(2) f2 by (intro op_le_exact) simp_all
  have f: "fits 28 (?p * (1 + ulp7))"
  proof -
    have e: "1 + ulp7 = of_int 10000001 * ulp7" by (simp add: ulp7_def)
    show ?thesis unfolding e using t n by (intro fits_scaled) simp_all
  qed
  have g: "fits 28 (?p * 2)"
    using fits_tick_multiple [OF t(2), of "n * 2"] n by (simp add: mult.commute mult.left_commute)
  have p0: "0 \<le> ?p" using n t by simp
  have c1: "?p * (1 + ulp7) \<le> ?c"
    using m1 p0 f by (intro op_ge_exact(3) mult_left_mono)
  have c2: "?c \<le> ?p * 2"
    using m2 p0 g by (intro op_le_exact(3) mult_left_mono)
  have "of_int n + ulp7 \<le> of_int n * (1 + ulp7)"
  proof -
    have "1 * ulp7 \<le> of_int n * ulp7" using n(1) ulp7_pos by (intro mult_right_mono) simp_all
    then show ?thesis by (simp add: distrib_left)
  qed
  also have "\<dots> \<le> ?c / t" using c1 t(1)
    by (simp add: pos_le_divide_eq mult.commute mult.left_commute)
  finally have d: "of_int n + ulp7 \<le> ddiv ?c t"
    using n by (intro op_ge_exact fits_step) auto
  have "?c / t \<le> of_int (2 * n)" using c2 t(1)
    by (simp add: pos_divide_le_eq mult.commute mult.left_commute)
  then have d2: "ddiv ?c t \<le> of_int (2 * n)"
    using n by (intro op_le_exact fits_28_int) auto
  let ?q = "\<lceil>ddiv ?c t\<rceil>"
  have qn: "n < ?q" using d ulp7_pos by (simp add: less_ceiling_iff)
  have q2: "?q \<le> 2 * n" using d2 by (simp add: ceiling_le_iff)
  have "backup_stop_value ''short'' ?p t b = dmul (of_int ?q) t"
    by (simp add: backup_stop_value_def to_integral_ceiling_def)
  also have "\<dots> = of_int ?q * t"
  proof (rule dmul_tick [OF t(2)])
    have "0 \<le> ?q" using qn n(1) by linarith
    then show "\<bar>?q\<bar> < 10 ^ 21" using q2 n by (rule small_steps)
  qed
  finally show ?thesis using qn q2 by (rule that)
qed


text \<open>Both sides at once: the step count of the backup stop, seen from the primary's.\<close>

definition beyond_steps :: "string \<Rightarrow> int \<Rightarrow> int \<Rightarrow> bool" where
  "beyond_steps side n q = (if side = ''long'' then 0 \<le> q \<and> q < n else n < q \<and> q \<le> 2 * n)"

lemma backup_stop_value_steps:
  assumes "contract_scale n t b" "is_long_or_short side"
  obtains q where "backup_stop_value side (of_int n * t) t b = of_int q * t"
    "beyond_steps side n q" "fits 28 (of_int q * t)"
proof -
  have n: "n < 10 ^ 12" and t: "fits 7 t" using assms by (auto simp: contract_scale_def)
  have "\<exists>q. backup_stop_value side (of_int n * t) t b = of_int q * t \<and> beyond_steps side n q"
    using assms by (auto simp: beyond_steps_def elim: backup_stop_value_long backup_stop_value_short)
  then obtain q where q: "backup_stop_value side (of_int n * t) t b = of_int q * t" "beyond_steps side n q"
    by blast
  then have "\<bar>q\<bar> < 10 ^ 21" using n by (auto simp: beyond_steps_def split: if_splits)
  with t have "fits 28 (of_int q * t)" by (rule fits_tick_multiple)
  with q show ?thesis by (rule that)
qed

section \<open>Properties\<close>

text \<open>
  For a primary stop on the contract's tick grid and a buffer between a thousandth
  of a basis point and 100 percent, \<open>calculate_backup_stop_price\<close> returns a price that is
  itself a whole number of ticks and lies strictly on the loss side of the primary stop:
  below it (and not negative) for a long, above it (by at most the price) for a short.
\<close>

theorem backup_stop_strictly_beyond_primary:
  assumes "positive_value primary_stop = Some (of_int n * t)"
    and "positive_value price_tick = Some t" and "positive_value buffer_bps = Some b"
    and "is_long_or_short (norm_side side)" and "contract_scale n t b"
  shows "\<exists>price q. calculate_backup_stop_price primary_stop side price_tick buffer_bps = Inr price
    \<and> finite_decimal (VStr price) = Some (of_int q * t)
    \<and> (if norm_side side = ''long'' then 0 \<le> q \<and> q < n else n < q \<and> q \<le> 2 * n)"
proof -
  from assms(5,4) obtain q where q: "backup_stop_value (norm_side side) (of_int n * t) t b = of_int q * t"
    "beyond_steps (norm_side side) n q" "fits 28 (of_int q * t)" by (rule backup_stop_value_steps)
  have "calculate_backup_stop_price primary_stop side price_tick buffer_bps
      = Inr (decimal_text (of_int q * t))"
    using assms q(1) by (simp add: calculate_backup_stop_price_Inr)
  then show ?thesis using q by (auto simp: dround_fits beyond_steps_def)
qed

theorem backup_stop_strictly_beyond_primary_witness:
  "\<exists>price q. calculate_backup_stop_price (VStr ''650'') (VStr ''short'') (VStr ''0.1'') (VInt 20) = Inr price
    \<and> finite_decimal (VStr price) = Some (of_int q * (1 / 10)) \<and> (6500::int) < q \<and> q \<le> 13000"
proof -
  have p: "positive_value (VStr ''650'') = Some (of_int 6500 * (1 / 10))" by code_simp
  have t: "positive_value (VStr ''0.1'') = Some (1 / 10)" by code_simp
  have b: "positive_value (VInt 20) = Some 20" by code_simp
  have s: "norm_side (VStr ''short'') = ''short''" by code_simp
  have "fits 7 (1 / 10 :: rat)"
    unfolding fits_def by (intro exI [of _ 1] exI [of _ "- 1"]) (simp add: power_int_minus)
  then have c: "contract_scale 6500 (1 / 10) 20" by (simp add: contract_scale_def)
  show ?thesis using backup_stop_strictly_beyond_primary [OF p t b _ c, of "VStr ''short''"] by (simp add: s)
qed

text \<open>
  The payload builder agrees with the calculator. The price the calculator returns,
  handed to \<open>build_backup_stop_trigger_payload\<close> with the same primary stop and side, is
  accepted whenever the liquidation price lies beyond it and the identities are given, and the
  payload closes exactly that position on the calculated trigger.
\<close>

theorem backup_stop_payload_accepts_calculated:
  assumes "positive_value primary_stop = Some (of_int n * t)"
    and "positive_value price_tick = Some t" and "positive_value buffer_bps = Some b"
    and "is_long_or_short (norm_side side)" and "contract_scale n t b"
    and "calculate_backup_stop_price primary_stop side price_tick buffer_bps = Inr price"
    and "positive_value liquidation_price = Some l" and "finite_decimal (VStr price) = Some backup"
    and "if norm_side side = ''long'' then l < backup else backup < l"
    and "positive_value close_size = Some z"
    and "py_strip (str_or_empty instrument_id) \<noteq> []" and "py_strip (str_or_empty pos_id) \<noteq> []"
    and "py_strip (str_or_empty client_order_id) \<noteq> []"
    and "py_lower (py_strip (str_or_empty margin_mode)) \<in> {''cross'', ''isolated''}"
  shows "\<exists>payload. build_backup_stop_trigger_payload instrument_id side margin_mode pos_id
      primary_stop (VStr price) liquidation_price close_size client_order_id = Inr payload
    \<and> map_of payload ''slTriggerPx'' = Some price
    \<and> map_of payload ''posId'' = Some (py_strip (str_or_empty pos_id))
    \<and> map_of payload ''posSide'' = Some (norm_side side)"
proof -
  from assms(5,4) obtain q where q: "backup_stop_value (norm_side side) (of_int n * t) t b = of_int q * t"
    "beyond_steps (norm_side side) n q" "fits 28 (of_int q * t)" by (rule backup_stop_value_steps)
  have t: "0 < t" using assms(2) by (rule positive_value_pos)
  have l: "0 < l" using assms(7) by (rule positive_value_pos)
  have n: "0 < n" using assms(5) by (simp add: contract_scale_def)
  have price: "price = decimal_text (of_int q * t)"
    using assms(1-3,4,6) q(1) by (auto simp: calculate_backup_stop_price_Inr)
  then have backup: "backup = of_int q * t" using assms(8) q(3) by (simp add: dround_fits)
  have pos: "0 < backup" using assms(9) l n q(2) t
    by (auto simp: backup beyond_steps_def split: if_splits)
  have pv: "positive_value (VStr price) = Some backup" using pos assms(8) by (simp add: positive_value_finite)
  have side: "if norm_side side = ''long'' then backup < of_int n * t else of_int n * t < backup"
    using q(2) t by (auto simp: backup beyond_steps_def)
  have "backup_decimal_text backup = price" by (simp add: backup_decimal_text_def backup price)
  then show ?thesis
    using assms(1,4,7,9,10-14) pv side
    by (auto simp: build_backup_stop_trigger_payload_def backup_side_def backup_positive_decimal_def
        py_upper_def Let_def split: if_splits)
qed

theorem backup_stop_payload_accepts_calculated_witness:
  "\<exists>payload. build_backup_stop_trigger_payload (VStr ''BTC-USDT-SWAP'') (VStr ''long'')
      (VStr ''cross'') (VStr ''p1'') (VStr ''650'') (VStr ''648.7'') (VStr ''300'') (VInt 3) (VStr ''c1'')
      = Inr payload \<and> map_of payload ''slTriggerPx'' = Some ''648.7''
    \<and> map_of payload ''posId'' = Some (py_strip (str_or_empty (VStr ''p1'')))
    \<and> map_of payload ''posSide'' = Some (norm_side (VStr ''long''))"
proof (rule backup_stop_payload_accepts_calculated)
  show "positive_value (VStr ''650'') = Some (of_int 6500 * (1 / 10))"
    "positive_value (VStr ''0.1'') = Some (1 / 10)" "positive_value (VInt 20) = Some 20"
    "positive_value (VStr ''300'') = Some 300" "positive_value (VInt 3) = Some 3"
    "finite_decimal (VStr ''648.7'') = Some (6487 / 10)"
    "is_long_or_short (norm_side (VStr ''long''))"
    "py_strip (str_or_empty (VStr ''BTC-USDT-SWAP'')) \<noteq> []"
    "py_strip (str_or_empty (VStr ''p1'')) \<noteq> []" "py_strip (str_or_empty (VStr ''c1'')) \<noteq> []"
    "py_lower (py_strip (str_or_empty (VStr ''cross''))) \<in> {''cross'', ''isolated''}"
    "if norm_side (VStr ''long'') = ''long'' then (300::rat) < 6487 / 10 else 6487 / 10 < (300::rat)"
    by code_simp+
  show "calculate_backup_stop_price (VStr ''650'') (VStr ''long'') (VStr ''0.1'') (VInt 20) = Inr ''648.7''"
    by code_simp
  have "fits 7 (1 / 10 :: rat)"
    unfolding fits_def by (intro exI [of _ 1] exI [of _ "- 1"]) (simp add: power_int_minus)
  then show "contract_scale 6500 (1 / 10) 20" by (simp add: contract_scale_def)
qed

end
