(* ===== verification/Market_Policy.thy ===== *)
theory Market_Policy
  imports Backup_Stop
begin

text \<open>
  Market-side policy for stops (\<open>strategy_management_market_policy.py\<close>): whether a resting
  stop already protects enough, the primary and backup stop of a composite replacement, and
  whether a position may move its stop to break-even.

  The locale \<open>protective_order\<close> is the contract every stop decision of the program rests on:
  an order on stops (how much they protect), the stops that are still live at a market price,
  and the choice of the most protective of several.  It is interpreted for each side, and used
  by this component, by the break-even decision and by the stop ladder.
\<close>

section \<open>How much a stop protects\<close>

text \<open>A long's stop is below the market, so the higher is the tighter; a short's is above.\<close>

definition stop_tighter :: "string \<Rightarrow> rat \<Rightarrow> rat \<Rightarrow> bool" where
  "stop_tighter side a b = (if side = ''long'' then a \<ge> b else a \<le> b)"

definition stop_live :: "string \<Rightarrow> rat \<Rightarrow> rat \<Rightarrow> bool" where
  "stop_live side stop market = (if side = ''long'' then stop < market else stop > market)"

definition tightest :: "string \<Rightarrow> rat list \<Rightarrow> rat" where
  "tightest side stops = (if side = ''long'' then list_max stops else list_min stops)"

locale protective_order =
  fixes prot :: "rat \<Rightarrow> rat \<Rightarrow> bool" and live :: "rat \<Rightarrow> rat \<Rightarrow> bool" and best :: "rat list \<Rightarrow> rat"
  assumes prot_refl: "prot a a"
    and prot_trans: "prot a b \<Longrightarrow> prot b c \<Longrightarrow> prot a c"
    and prot_total: "prot a b \<or> prot b a"
    and prot_antisym: "prot a b \<Longrightarrow> prot b a \<Longrightarrow> a = b"
    and live_looser: "prot a b \<Longrightarrow> live a m \<Longrightarrow> live b m"
    and best_mem: "xs \<noteq> [] \<Longrightarrow> best xs \<in> set xs"
    and best_prot: "x \<in> set xs \<Longrightarrow> prot (best xs) x"
begin

text \<open>The tightest of the stops that beat a target, or the target when none does.\<close>

definition keep_tightest :: "(rat \<Rightarrow> bool) \<Rightarrow> rat \<Rightarrow> rat list \<Rightarrow> rat" where
  "keep_tightest ok target stops =
     (let tighter = filter (\<lambda>s. prot s target \<and> ok s) stops
      in if tighter = [] then target else best tighter)"

lemma keep_tightest_mem:
  "keep_tightest ok target stops = target \<or>
   (keep_tightest ok target stops \<in> set stops \<and> ok (keep_tightest ok target stops))"
proof -
  let ?t = "filter (\<lambda>s. prot s target \<and> ok s) stops"
  show ?thesis
  proof (cases "?t = []")
    case False
    then have "best ?t \<in> set ?t" by (rule best_mem)
    with False show ?thesis by (simp add: keep_tightest_def)
  qed (simp add: keep_tightest_def)
qed

lemma keep_tightest_target: "prot (keep_tightest ok target stops) target"
proof -
  let ?t = "filter (\<lambda>s. prot s target \<and> ok s) stops"
  show ?thesis
  proof (cases "?t = []")
    case False
    then have "best ?t \<in> set ?t" by (rule best_mem)
    with False show ?thesis by (simp add: keep_tightest_def)
  qed (simp add: keep_tightest_def prot_refl)
qed

lemma keep_tightest_never_loosens:
  assumes "s \<in> set stops" "ok s"
  shows "prot (keep_tightest ok target stops) s"
proof (cases "prot s target")
  case True
  let ?t = "filter (\<lambda>s. prot s target \<and> ok s) stops"
  have "s \<in> set ?t" using assms True by simp
  then have "?t \<noteq> []" by (auto simp only: list.set)
  with \<open>s \<in> set ?t\<close> show ?thesis using best_prot [of s ?t] by (simp add: keep_tightest_def)
next
  case False
  then have "prot target s" using prot_total by blast
  then show ?thesis using keep_tightest_target prot_trans by blast
qed

lemma keep_tightest_live:
  "live target m \<Longrightarrow> (\<And>s. ok s \<Longrightarrow> live s m) \<Longrightarrow> live (keep_tightest ok target stops) m"
  using keep_tightest_mem [of ok target stops] by auto

end

interpretation prot: protective_order "stop_tighter side" "stop_live side" "tightest side"
  for side
proof unfold_locales
  show "xs \<noteq> [] \<Longrightarrow> tightest side xs \<in> set xs" for xs by (simp add: tightest_def)
  show "x \<in> set xs \<Longrightarrow> stop_tighter side (tightest side xs) x" for x xs
    by (simp add: tightest_def stop_tighter_def list_max_ge list_min_le)
qed (auto simp: stop_tighter_def stop_live_def split: if_splits)

lemma stop_live_antimono: "stop_tighter side a b \<Longrightarrow> stop_live side a m \<Longrightarrow> stop_live side b m"
  by (rule prot.live_looser)

lemma norm_side_known [simp]:
  "norm_side (VStr ''long'') = ''long''" "norm_side (VStr ''short'') = ''short''"
  by code_simp+

lemma norm_side_idem: "is_long_or_short s \<Longrightarrow> norm_side (VStr s) = s"
  by auto

section \<open>The policy\<close>

record break_even_market_decision =
  bm_side :: string
  bm_entry_price :: string
  bm_market_price :: string
  bm_comparison :: string
  bm_allowed :: bool
  bm_fallback_action :: "string option"

record break_even_protection_decision =
  bp_market :: break_even_market_decision
  bp_action :: string
  bp_effective_stop_price :: "string option"

record composite_stop_replacement_decision =
  cs_action :: string
  cs_primary_stop :: string
  cs_backup_stop :: string

definition policy_positive_decimal :: "pyval \<Rightarrow> string \<Rightarrow> rat result" where
  "policy_positive_decimal value reason =
     (case positive_value value of
        None \<Rightarrow> Inl (BreakEvenMarketPolicyError reason)
      | Some number \<Rightarrow> Inr number)"

definition policy_format_decimal :: "rat \<Rightarrow> string" where
  "policy_format_decimal value = decimal_text value"

definition stop_is_at_least_as_protective :: "pyval \<Rightarrow> pyval \<Rightarrow> pyval \<Rightarrow> pyval \<Rightarrow> bool" where
  "stop_is_at_least_as_protective existing target side market_price =
     (let normalized_side = norm_side side
      in if \<not> is_long_or_short normalized_side then False
         else (case positive_value existing of None \<Rightarrow> False
           | Some stop \<Rightarrow> (case positive_value target of None \<Rightarrow> False
           | Some goal \<Rightarrow> (case positive_value market_price of None \<Rightarrow> False
           | Some market \<Rightarrow> stop_tighter normalized_side stop goal
               \<and> stop_live normalized_side stop market))))"

definition requested_on_grid :: "string \<Rightarrow> rat \<Rightarrow> rat \<Rightarrow> rat" where
  "requested_on_grid side requested tick =
     dmul (if side = ''long'' then to_integral_floor (ddiv requested tick)
           else to_integral_ceiling (ddiv requested tick)) tick"

definition plan_composite_stop_replacement ::
    "pyval \<Rightarrow> pyval \<Rightarrow> pyval \<Rightarrow> pyval \<Rightarrow> pyval \<Rightarrow> pyval list
     \<Rightarrow> composite_stop_replacement_decision result" where
  "plan_composite_stop_replacement side requested_stop market_price price_tick backup_buffer_bps
      existing_stop_prices =
     (let normalized_side = py_lower (str_or_empty side)
      in if \<not> is_long_or_short normalized_side
         then Inl (BreakEvenMarketPolicyError ''break_even_side_invalid'')
         else
     rbind (policy_positive_decimal requested_stop ''requested_stop_invalid'') (\<lambda>requested.
     rbind (policy_positive_decimal market_price ''break_even_market_price_invalid'') (\<lambda>market.
     rbind (policy_positive_decimal price_tick ''price_tick_invalid'') (\<lambda>tick.
       let primary0 = requested_on_grid normalized_side requested tick
       in if (normalized_side = ''long'' \<and> primary0 \<ge> market)
             \<or> (normalized_side = ''short'' \<and> primary0 \<le> market)
          then Inl (BreakEvenMarketPolicyError ''requested_stop_market_side_invalid'')
          else
     rbind (mapM (\<lambda>value. policy_positive_decimal value ''break_even_existing_stop_invalid'')
                 existing_stop_prices) (\<lambda>existing.
       let tighter = filter (\<lambda>stop. stop_is_at_least_as_protective (VDec (DFin stop))
                       (VDec (DFin primary0)) (VStr normalized_side) (VDec (DFin market))) existing;
           action = (if tighter \<noteq> [] then ''keep_tighter_stop'' else ''replace'');
           primary = (if tighter \<noteq> [] then tightest normalized_side tighter else primary0);
           primary_text = policy_format_decimal primary
       in rbind (calculate_backup_stop_price (VStr primary_text) (VStr normalized_side)
                  (VStr (policy_format_decimal tick)) backup_buffer_bps) (\<lambda>backup.
            Inr \<lparr>cs_action = action, cs_primary_stop = primary_text, cs_backup_stop = backup\<rparr>))))))"

definition assess_break_even_market ::
    "pyval \<Rightarrow> pyval \<Rightarrow> pyval \<Rightarrow> break_even_market_decision result" where
  "assess_break_even_market side entry_price market_price =
     (let normalized_side = norm_side side
      in if \<not> is_long_or_short normalized_side
         then Inl (BreakEvenMarketPolicyError ''break_even_side_invalid'')
         else
     rbind (policy_positive_decimal entry_price ''break_even_entry_price_invalid'') (\<lambda>entry.
     rbind (policy_positive_decimal market_price ''break_even_market_price_invalid'') (\<lambda>market.
       let comparison = (if entry < market then ''entry_below_market''
                         else if entry > market then ''entry_above_market''
                         else ''entry_equal_market'');
           allowed = (if normalized_side = ''long'' then comparison = ''entry_below_market''
                      else comparison = ''entry_above_market'')
       in Inr \<lparr>bm_side = normalized_side,
               bm_entry_price = policy_format_decimal entry,
               bm_market_price = policy_format_decimal market,
               bm_comparison = comparison,
               bm_allowed = allowed,
               bm_fallback_action = (if allowed then None else Some ''full_exit'')\<rparr>)))"

definition assess_break_even_with_existing_stop ::
    "pyval \<Rightarrow> pyval \<Rightarrow> pyval \<Rightarrow> pyval list \<Rightarrow> break_even_protection_decision result" where
  "assess_break_even_with_existing_stop side entry_price market_price existing_stop_prices =
     rbind (assess_break_even_market side entry_price market_price) (\<lambda>market.
       if \<not> bm_allowed market
       then Inr \<lparr>bp_market = market, bp_action = ''full_exit'', bp_effective_stop_price = None\<rparr>
       else
     rbind (policy_positive_decimal entry_price ''break_even_entry_price_invalid'') (\<lambda>entry.
     rbind (mapM (\<lambda>value. policy_positive_decimal value ''break_even_existing_stop_invalid'')
                 existing_stop_prices) (\<lambda>stops.
       let qualifying = filter (\<lambda>stop. stop_tighter (bm_side market) stop entry) stops
       in if qualifying \<noteq> []
          then Inr \<lparr>bp_market = market, bp_action = ''keep_tighter_stop'',
                    bp_effective_stop_price =
                      Some (policy_format_decimal (tightest (bm_side market) qualifying))\<rparr>
          else Inr \<lparr>bp_market = market, bp_action = ''set_break_even'',
                    bp_effective_stop_price = None\<rparr>)))"

section \<open>Lemmas\<close>

lemma policy_positive_decimal_Inr [simp]:
  "policy_positive_decimal v r = Inr x \<longleftrightarrow> positive_value v = Some x"
  by (auto simp: policy_positive_decimal_def split: option.splits)

lemma policy_stops_mem:
  assumes "mapM (\<lambda>v. policy_positive_decimal v r) vs = Inr xs"
  shows "x \<in> set xs \<longleftrightarrow> (\<exists>v\<in>set vs. positive_value v = Some x)"
  using mapM_Inr_set [OF assms, of x] mapM_Inr_all [OF assms] by fastforce

text \<open>On decimals, the predicate is the order of the contract and liveness, both required.\<close>

lemma stop_is_at_least_as_protective_dec:
  assumes "is_long_or_short s"
  shows "stop_is_at_least_as_protective (VDec (DFin a)) (VDec (DFin b)) (VStr s) (VDec (DFin m)) \<longleftrightarrow>
     0 < a \<and> 0 < b \<and> 0 < m \<and> stop_tighter s a b \<and> stop_live s a m"
  using assms by (auto simp: stop_is_at_least_as_protective_def Let_def)

lemma stop_is_at_least_as_protective_iff:
  "stop_is_at_least_as_protective existing target side market_price \<longleftrightarrow>
     is_long_or_short (norm_side side) \<and>
     (\<exists>s g m. positive_value existing = Some s \<and> positive_value target = Some g
        \<and> positive_value market_price = Some m
        \<and> stop_tighter (norm_side side) s g \<and> stop_live (norm_side side) s m)"
  by (auto simp: stop_is_at_least_as_protective_def Let_def split: option.splits)


text \<open>What a successful plan chose: the tightest live stop at least as tight as the request.\<close>

lemma plan_composite_Inr:
  assumes "plan_composite_stop_replacement side requested_stop market_price price_tick buffer stops = Inr d"
  defines "s \<equiv> py_lower (str_or_empty side)"
  obtains r m t xs where "is_long_or_short s" "positive_value requested_stop = Some r"
    "positive_value market_price = Some m" "positive_value price_tick = Some t"
    "\<And>x. x \<in> set xs \<longleftrightarrow> (\<exists>v\<in>set stops. positive_value v = Some x)"
    "stop_live s (requested_on_grid s r t) m" "0 < requested_on_grid s r t"
    "cs_primary_stop d = decimal_text (prot.keep_tightest s (\<lambda>x. stop_live s x m) (requested_on_grid s r t) xs)"
    "cs_action d = ''replace'' \<and> prot.keep_tightest s (\<lambda>x. stop_live s x m) (requested_on_grid s r t) xs = requested_on_grid s r t
      \<or> cs_action d = ''keep_tighter_stop'' \<and> prot.keep_tightest s (\<lambda>x. stop_live s x m) (requested_on_grid s r t) xs \<in> set xs"
    "calculate_backup_stop_price (VStr (cs_primary_stop d)) (VStr s) (VStr (decimal_text t)) buffer
       = Inr (cs_backup_stop d)"
proof -
  note plan = assms(1) [unfolded plan_composite_stop_replacement_def Let_def, folded s_def]
  from plan obtain r m t xs where side: "is_long_or_short s"
    and r: "positive_value requested_stop = Some r" and m: "positive_value market_price = Some m"
    and t: "positive_value price_tick = Some t"
    and ok: "\<not> ((s = ''long'' \<and> requested_on_grid s r t \<ge> m) \<or> (s = ''short'' \<and> requested_on_grid s r t \<le> m))"
    and xs: "mapM (\<lambda>value. policy_positive_decimal value ''break_even_existing_stop_invalid'') stops = Inr xs"
    by (auto simp: rbind_Inr_iff split: if_splits)
  let ?g = "requested_on_grid s r t"
  let ?f = "filter (\<lambda>x. stop_is_at_least_as_protective (VDec (DFin x)) (VDec (DFin ?g)) (VStr s) (VDec (DFin m))) xs"
  let ?p = "if ?f \<noteq> [] then tightest s ?f else ?g"
  from plan side r m t ok xs have b: "calculate_backup_stop_price (VStr (decimal_text ?p)) (VStr s)
        (VStr (decimal_text t)) buffer = Inr (cs_backup_stop d)"
    and d: "cs_primary_stop d = decimal_text ?p"
      "cs_action d = (if ?f \<noteq> [] then ''keep_tighter_stop'' else ''replace'')"
    by (auto simp: rbind_Inr_iff policy_format_decimal_def simp del: filter_empty_conv)
  have live: "stop_live s ?g m" using ok side by (auto simp: stop_live_def)
  have mem: "x \<in> set xs \<longleftrightarrow> (\<exists>v\<in>set stops. positive_value v = Some x)" for x
    using xs by (rule policy_stops_mem)
  have pos: "0 < ?p" using b by (auto simp: calculate_backup_stop_price_Inr split: if_splits)
  have g: "0 < ?g"
  proof (rule ccontr)
    assume "\<not> 0 < ?g"
    then have "?f = []" using stop_is_at_least_as_protective_dec [OF side] by simp
    with pos \<open>\<not> 0 < ?g\<close> show False by simp
  qed
  have m0: "0 < m" using m by (rule positive_value_pos)
  have "x \<in> set xs \<Longrightarrow> 0 < x" for x using mem by (auto dest: positive_value_pos)
  then have "?f = filter (\<lambda>x. stop_tighter s x ?g \<and> stop_live s x m) xs"
    using g m0 by (intro filter_cong) (auto simp only: stop_is_at_least_as_protective_dec [OF side])
  then have keep: "?p = prot.keep_tightest s (\<lambda>x. stop_live s x m) ?g xs"
    by (simp only: prot.keep_tightest_def Let_def if_not_P not_not if_True if_False split: if_split) simp
  have "cs_action d = ''replace'' \<and> ?p = ?g \<or> cs_action d = ''keep_tighter_stop'' \<and> ?p \<in> set xs"
  proof (cases "?f = []")
    case False
    have "tightest s ?f \<in> set ?f" using False by (rule prot.best_mem)
    then show ?thesis using False d(2) by simp
  qed (use d(2) in simp)
  then show ?thesis using that [OF side r m t mem live g] d(1) b by (simp only: keep)
qed

text \<open>
  A request on a sane contract moves by less than a tick, and where its quotient by the tick is exact, to
  the loose side. The rounded quotient stays between the integers around the exact one.
\<close>

lemma requested_on_grid_bounds:
  assumes "fits 7 t" "0 < t" "0 < r" "r < 10 ^ 11 * t"
  obtains n where "requested_on_grid s r t = of_int n * t" "0 \<le> n" "n < 10 ^ 12"
    "\<bar>requested_on_grid s r t - r\<bar> < t" "fits 28 (r / t) \<Longrightarrow> stop_tighter s r (requested_on_grid s r t)"
proof -
  define x where "x = r / t"
  have r: "r = x * t" using assms(2) by (simp add: x_def)
  have q0: "0 < x" using assms(2,3) by (simp add: x_def)
  have q1: "x < of_int (10 ^ 11)" using assms(2,4) by (simp add: x_def pos_divide_less_eq)
  have int: "0 \<le> \<lfloor>x\<rfloor>" "\<lfloor>x\<rfloor> \<le> \<lceil>x\<rceil>" "\<lceil>x\<rceil> \<le> 10 ^ 11" using q0 q1 by (simp_all add: ceiling_le_iff)
  have "dround (of_int \<lfloor>x\<rfloor>) = of_int \<lfloor>x\<rfloor>" "dround (of_int \<lceil>x\<rceil>) = of_int \<lceil>x\<rceil>"
    using int by (intro dround_fits fits_28_int; simp)+
  then have q: "of_int \<lfloor>x\<rfloor> \<le> ddiv r t" "ddiv r t \<le> of_int \<lceil>x\<rceil>"
    using dround_mono [of "of_int \<lfloor>x\<rfloor>" x] dround_mono [of x "of_int \<lceil>x\<rceil>"]
    by (simp_all add: ddiv_def x_def [symmetric])
  define n where "n = (if s = ''long'' then \<lfloor>ddiv r t\<rfloor> else \<lceil>ddiv r t\<rceil>)"
  have n: "\<lfloor>x\<rfloor> \<le> n" "n \<le> \<lceil>x\<rceil>" using floor_mono [OF q(1)] floor_mono [OF q(2)] ceiling_mono [OF q(1)] ceiling_mono [OF q(2)]
    by (simp_all add: n_def)
  have n0: "0 \<le> n" using int(1) n(1) by (rule order_trans)
  have "n \<le> 10 ^ 11" using n(2) int(3) by (rule order_trans)
  then have n1: "n < 10 ^ 12" by simp
  have g: "requested_on_grid s r t = of_int n * t"
    using dmul_tick [OF assms(1), of n] n0 n1
    by (auto simp: requested_on_grid_def n_def to_integral_floor_def to_integral_ceiling_def split: if_splits)
  have "(of_int n :: rat) \<le> of_int \<lceil>x\<rceil>" "(of_int \<lfloor>x\<rfloor> :: rat) \<le> of_int n" using n by simp_all
  then have "\<bar>of_int n - x\<bar> < 1" using ceiling_correct [of x] floor_correct [of x] by linarith
  then have "\<bar>(of_int n - x) * t\<bar> < 1 * t" using assms(2) by (simp add: abs_mult)
  then have d: "\<bar>requested_on_grid s r t - r\<bar> < t" unfolding g by (simp add: r left_diff_distrib)
  have l: "stop_tighter s r (requested_on_grid s r t)" if "fits 28 (r / t)"
  proof -
    have "ddiv r t = x" using that by (simp add: ddiv_def dround_fits x_def)
    then show ?thesis using assms(2) unfolding g stop_tighter_def n_def by (simp add: r)
  qed
  show ?thesis by (rule that [OF g n0 n1 d l])
qed

definition exact_stops :: "pyval list \<Rightarrow> bool" where
  "exact_stops vs \<longleftrightarrow> (\<forall>v\<in>set vs. \<forall>x. positive_value v = Some x \<longrightarrow> fits 28 x)"

lemma keep_tightest_exact:
  assumes "fits 28 g" "\<And>x. x \<in> set xs \<Longrightarrow> fits 28 x"
  shows "fits 28 (prot.keep_tightest s ok g xs)"
  using prot.keep_tightest_mem [of s ok g xs] assms by metis

section \<open>Properties\<close>


text \<open>
  Claim C7: a composite stop replacement never loosens protection. Whatever it decides, the primary stop
  it returns is a positive price on the live side of the market and at least as tight as every resting stop
  that is still live there. A replacement is the request put on the tick grid: less than one tick from it
  and, the quotient by the tick being exact, on its loose side, where the code rounds; otherwise the
  stop kept is a resting one. So what is returned is never a tick looser than the request.
\<close>

theorem composite_stop_never_loosens:
  assumes "plan_composite_stop_replacement side requested_stop market_price price_tick buffer stops = Inr d"
    and "exact_stops stops"
  shows "let s = py_lower (str_or_empty side) in
    \<exists>p m r t. finite_decimal (VStr (cs_primary_stop d)) = Some p \<and> 0 < p
    \<and> positive_value market_price = Some m \<and> stop_live s p m
    \<and> positive_value requested_stop = Some r \<and> positive_value price_tick = Some t
    \<and> (\<forall>v\<in>set stops. \<forall>e. positive_value v = Some e \<and> stop_live s e m \<longrightarrow> stop_tighter s p e)
    \<and> (cs_action d = ''replace'' \<or> cs_action d = ''keep_tighter_stop'' \<and> (\<exists>v\<in>set stops. positive_value v = Some p))
    \<and> (fits 7 t \<and> r < 10 ^ 11 * t \<longrightarrow> (if s = ''long'' then r - t < p else p < r + t)
       \<and> (cs_action d = ''replace'' \<longrightarrow> p / t \<in> \<int> \<and> \<bar>p - r\<bar> < t
          \<and> (fits 28 (r / t) \<longrightarrow> (if s = ''long'' then p \<le> r else r \<le> p))))"
proof -
  let ?s = "py_lower (str_or_empty side)"
  from assms(1) obtain r m t xs where side: "is_long_or_short ?s"
    and v: "positive_value requested_stop = Some r" "positive_value market_price = Some m"
      "positive_value price_tick = Some t"
    and xs: "\<And>x. x \<in> set xs \<longleftrightarrow> (\<exists>v\<in>set stops. positive_value v = Some x)"
    and g: "stop_live ?s (requested_on_grid ?s r t) m" "0 < requested_on_grid ?s r t"
    and d: "cs_primary_stop d
        = decimal_text (prot.keep_tightest ?s (\<lambda>x. stop_live ?s x m) (requested_on_grid ?s r t) xs)"
    and rp: "cs_action d = ''replace'' \<and> prot.keep_tightest ?s (\<lambda>x. stop_live ?s x m) (requested_on_grid ?s r t) xs = requested_on_grid ?s r t
      \<or> cs_action d = ''keep_tighter_stop'' \<and> prot.keep_tightest ?s (\<lambda>x. stop_live ?s x m) (requested_on_grid ?s r t) xs \<in> set xs"
    by (elim plan_composite_Inr) (rule that)
  define p where "p = prot.keep_tightest ?s (\<lambda>x. stop_live ?s x m) (requested_on_grid ?s r t) xs"
  note rp' = rp [folded p_def]
  have "fits 28 (requested_on_grid ?s r t)" by (simp add: requested_on_grid_def)
  moreover have "\<And>x. x \<in> set xs \<Longrightarrow> fits 28 x" using xs assms(2) by (auto simp: exact_stops_def)
  ultimately have "fits 28 p" unfolding p_def by (rule keep_tightest_exact)
  then have ptext: "finite_decimal (VStr (cs_primary_stop d)) = Some p"
    by (simp add: d p_def [symmetric] dround_fits)
  have p0: "0 < p" using rp' g(2) xs by (auto dest: positive_value_pos)
  have live: "stop_live ?s p m" unfolding p_def using g(1) by (rule prot.keep_tightest_live)
  have tight: "stop_tighter ?s p (requested_on_grid ?s r t)" unfolding p_def by (rule prot.keep_tightest_target)
  have rest: "stop_tighter ?s p e" if "x \<in> set stops" "positive_value x = Some e" "stop_live ?s e m" for x e
    unfolding p_def using that xs by (intro prot.keep_tightest_never_loosens) auto
  have grid: "(if ?s = ''long'' then r - t < p else p < r + t)
       \<and> (cs_action d = ''replace'' \<longrightarrow> p / t \<in> \<int> \<and> \<bar>p - r\<bar> < t \<and> (fits 28 (r / t) \<longrightarrow> (if ?s = ''long'' then p \<le> r else r \<le> p)))"
    if "fits 7 t" "r < 10 ^ 11 * t"
  proof -
    note sane = that
    have pos: "0 < t" "0 < r" using v by (simp_all add: positive_value_pos)
    obtain n where n: "requested_on_grid ?s r t = of_int n * t" "\<bar>requested_on_grid ?s r t - r\<bar> < t"
      "fits 28 (r / t) \<Longrightarrow> stop_tighter ?s r (requested_on_grid ?s r t)"
      using requested_on_grid_bounds [OF sane(1) pos sane(2)] by metis
    have "p = requested_on_grid ?s r t" if "cs_action d = ''replace''" using rp' that by auto
    moreover have "of_int n * t / t \<in> \<int>" using pos by simp
    ultimately show ?thesis using n tight by (auto simp: stop_tighter_def split: if_splits)
  qed
  have "cs_action d = ''replace'' \<or> cs_action d = ''keep_tighter_stop'' \<and> (\<exists>v\<in>set stops. positive_value v = Some p)"
    using rp' xs by blast
  then show ?thesis using ptext p0 v live rest grid unfolding Let_def by blast
qed

theorem composite_stop_never_loosens_witness:
  "\<exists>d p. plan_composite_stop_replacement (VStr ''LONG'') (VStr ''99.96'') (VInt 120) (VStr ''0.1'') (VInt 20)
      [VStr ''99'', VStr ''130''] = Inr d \<and> finite_decimal (VStr (cs_primary_stop d)) = Some p
      \<and> stop_tighter ''long'' p 99 \<and> 9986 / 100 < p \<and> p \<le> 9996 / 100"
proof -
  let ?stops = "[VStr ''99'', VStr ''130'']"
  have d: "plan_composite_stop_replacement (VStr ''LONG'') (VStr ''99.96'') (VInt 120) (VStr ''0.1'') (VInt 20) ?stops
    = Inr \<lparr>cs_action = ''replace'', cs_primary_stop = ''99.9'', cs_backup_stop = ''99.7''\<rparr>"
    by code_simp
  have v: "positive_value (VStr ''99'') = Some 99" "positive_value (VStr ''130'') = Some 130"
    "positive_value (VInt 120) = Some 120" "positive_value (VStr ''99.96'') = Some (2499 / 25)"
    "positive_value (VStr ''0.1'') = Some (1 / 10)" by code_simp+
  have s: "py_lower (str_or_empty (VStr ''LONG'')) = ''long''" by code_simp
  have e: "exact_stops ?stops" using fits_of_int [of 99 28] fits_of_int [of 130 28]
    by (simp add: exact_stops_def v)
  have l: "stop_live ''long'' 99 120" by (simp add: stop_live_def)
  have f: "fits 7 (1 / 10 :: rat)" by (rule fits_frac [of 1 _ _ 1]) simp_all
  have h: "fits 28 (2499 / 25 / (1 / 10) :: rat)" by (rule fits_frac [of 9996 _ _ 1]) simp_all
  from composite_stop_never_loosens [OF d e, unfolded Let_def s v composite_stop_replacement_decision.simps]
  obtain p m r t where p: "finite_decimal (VStr ''99.9'') = Some p"
    and v': "Some (120 :: rat) = Some m" "Some (2499 / 25 :: rat) = Some r" "Some (1 / 10 :: rat) = Some t"
    and *: "\<forall>x\<in>set ?stops. \<forall>e. positive_value x = Some e \<and> stop_live ''long'' e m \<longrightarrow> stop_tighter ''long'' p e"
    and g: "fits 7 t \<and> r < 10 ^ 11 * t \<longrightarrow> (if ''long'' = ''long'' then r - t < p else p < r + t)
       \<and> (''replace'' = ''replace'' \<longrightarrow> p / t \<in> \<int> \<and> \<bar>p - r\<bar> < t
          \<and> (fits 28 (r / t) \<longrightarrow> (if ''long'' = ''long'' then p \<le> r else r \<le> p)))"
    by blast
  then have rt: "m = 120" "r = 2499 / 25" "t = 1 / 10" by simp_all
  from g f h have "9986 / 100 < p" "p \<le> 9996 / 100" by (simp_all add: rt)
  moreover have "stop_tighter ''long'' p 99" using * v(1) l by (simp add: rt)
  ultimately show ?thesis using d p by simp
qed

text \<open>
  When the composite plan places the requested stop itself, primary and backup form
  an ordered pair on the tick grid: the primary stop is the request rounded by less than one
  tick to the loose side and still live at the market, and the backup stop lies strictly
  beyond it (for a long \<open>0 \<le> backup < primary < market\<close>, mirrored for a short).
\<close>

theorem composite_pair_ordered:
  assumes "plan_composite_stop_replacement side requested_stop market_price price_tick buffer stops = Inr d"
    and "cs_action d = ''replace''"
    and "positive_value requested_stop = Some r" "positive_value price_tick = Some t"
    and "positive_value buffer = Some b" "positive_value market_price = Some m"
    and "fits 7 t" "fits 28 (r / t)" "r < 10 ^ 11 * t" "1 / 1000 \<le> b" "b \<le> 10000"
  shows "let s = py_lower (str_or_empty side) in
    \<exists>p q. finite_decimal (VStr (cs_primary_stop d)) = Some p
    \<and> finite_decimal (VStr (cs_backup_stop d)) = Some q
    \<and> p / t \<in> \<int> \<and> q / t \<in> \<int> \<and> stop_tighter s r p \<and> \<bar>p - r\<bar> < t
    \<and> (if s = ''long'' then 0 \<le> q \<and> q < p \<and> p < m else m < p \<and> p < q)"
proof -
  let ?s = "py_lower (str_or_empty side)"
  from assms(1,2) obtain side: "is_long_or_short ?s"
    and g: "stop_live ?s (requested_on_grid ?s r t) m" "0 < requested_on_grid ?s r t"
    and d: "cs_primary_stop d = decimal_text (requested_on_grid ?s r t)"
    and c: "calculate_backup_stop_price (VStr (cs_primary_stop d)) (VStr ?s) (VStr (decimal_text t)) buffer
       = Inr (cs_backup_stop d)"
    using assms(3,4,6) by (elim plan_composite_Inr) auto
  have pos: "0 < r" "0 < t" using assms(3,4) by (simp_all add: positive_value_pos)
  obtain n where n: "requested_on_grid ?s r t = of_int n * t" "0 \<le> n" "n < 10 ^ 12"
    "\<bar>requested_on_grid ?s r t - r\<bar> < t"
    "fits 28 (r / t) \<Longrightarrow> stop_tighter ?s r (requested_on_grid ?s r t)"
    using requested_on_grid_bounds [OF assms(7) pos(2,1) assms(9)] by metis
  then have n5: "stop_tighter ?s r (requested_on_grid ?s r t)" using assms(8) by simp
  have "0 < n" using g(2) pos(2) n by (simp add: zero_less_mult_iff)
  then have scale: "contract_scale n t b" using n assms pos by (simp add: contract_scale_def)
  have t28: "fits 28 t" using assms(7) by (rule fits_mono) simp
  have p28: "fits 28 (of_int n * t)" using n(2,3) by (intro fits_tick_multiple assms(7)) simp
  have side': "is_long_or_short (norm_side (VStr ?s))" using side by (auto simp: norm_side_idem)
  have "positive_value (VStr (cs_primary_stop d)) = Some (of_int n * t)"
    using g(2) p28 by (simp add: d n dround_fits)
  moreover have "positive_value (VStr (decimal_text t)) = Some t" using pos t28 by (simp add: dround_fits)
  ultimately have bk: "cs_backup_stop d
      = decimal_text (backup_stop_value (norm_side (VStr ?s)) (of_int n * t) t b)"
    using c assms(5) by (simp add: calculate_backup_stop_price_Inr)
  obtain q where q: "backup_stop_value (norm_side (VStr ?s)) (of_int n * t) t b = of_int q * t"
    "beyond_steps (norm_side (VStr ?s)) n q" "fits 28 (of_int q * t)"
    using backup_stop_value_steps [OF scale side'] .
  have s: "norm_side (VStr ?s) = ?s" using side by (rule norm_side_idem)
  have "finite_decimal (VStr (cs_primary_stop d)) = Some (of_int n * t)" using p28 by (simp add: d n dround_fits)
  moreover have "finite_decimal (VStr (cs_backup_stop d)) = Some (of_int q * t)"
    using q(3) by (simp add: bk q(1) dround_fits)
  moreover have "of_int n * t / t \<in> \<int>" "of_int q * t / t \<in> \<int>" using pos by simp_all
  moreover have "if ?s = ''long'' then 0 \<le> of_int q * t \<and> of_int q * t < of_int n * t \<and> of_int n * t < m
      else m < of_int n * t \<and> of_int n * t < of_int q * t"
    using q(2) g(1) pos(2) by (auto simp: s beyond_steps_def stop_live_def n split: if_splits)
  ultimately show ?thesis using n(4) n5 unfolding Let_def n(1) by blast
qed

theorem composite_pair_ordered_witness:
  "\<exists>d p q. plan_composite_stop_replacement (VStr ''short'') (VStr ''99.96'') (VInt 90) (VInt 1) (VInt 20) [] = Inr d
    \<and> finite_decimal (VStr (cs_primary_stop d)) = Some p \<and> finite_decimal (VStr (cs_backup_stop d)) = Some q
    \<and> 90 < p \<and> p < q"
proof -
  have d: "plan_composite_stop_replacement (VStr ''short'') (VStr ''99.96'') (VInt 90) (VInt 1) (VInt 20) []
    = Inr \<lparr>cs_action = ''replace'', cs_primary_stop = ''100'', cs_backup_stop = ''101''\<rparr>"
    by code_simp
  have v: "positive_value (VStr ''99.96'') = Some (2499 / 25)" "positive_value (VInt 90) = Some 90"
    "positive_value (VInt 1) = Some 1" "positive_value (VInt 20) = Some 20" by code_simp+
  have s: "py_lower (str_or_empty (VStr ''short'')) = ''short''" by code_simp
  have f: "fits 7 (1::rat)" using fits_of_int [of 1 7] by simp
  have h: "fits 28 (2499 / 25 / 1 :: rat)" by (rule fits_frac [of 9996 _ _ 2]) simp_all
  have "(2499 / 25 :: rat) < 10 ^ 11 * 1" "(1 / 1000 :: rat) \<le> 20" "(20::rat) \<le> 10000" by simp_all
  from composite_pair_ordered [OF d _ v(1) v(3) v(4) v(2) f h this, unfolded Let_def s]
  have "\<exists>p q. finite_decimal (VStr ''100'') = Some p \<and> finite_decimal (VStr ''101'') = Some q \<and> 90 < p \<and> p < q"
    by (simp only: composite_stop_replacement_decision.simps True_implies_equals) auto
  then show ?thesis unfolding d by (simp only: sum.inject composite_stop_replacement_decision.simps) simp
qed


text \<open>
  The break-even decision is right on each branch. It exits in full exactly when a
  stop at the entry would not be on the live side of the market; otherwise it keeps the
  tightest resting stop when one already protects at least as much as the entry price, and
  sets a new break-even stop exactly when no resting stop does. An accepted decision never
  loosens a resting stop and never leaves the position with less than break-even.
\<close>

theorem break_even_decision_sound:
  assumes "assess_break_even_with_existing_stop side entry_price market_price stops = Inr d"
    and "exact_stops stops"
  shows "\<exists>e m. positive_value entry_price = Some e \<and> positive_value market_price = Some m \<and>
    (case bp_effective_stop_price d of
       Some price \<Rightarrow> bp_action d = ''keep_tighter_stop'' \<and> stop_live (norm_side side) e m \<and>
         (\<exists>p. finite_decimal (VStr price) = Some p \<and> stop_tighter (norm_side side) p e
           \<and> (\<exists>v\<in>set stops. positive_value v = Some p)
           \<and> (\<forall>v\<in>set stops. \<forall>x. positive_value v = Some x \<longrightarrow> stop_tighter (norm_side side) p x))
     | None \<Rightarrow>
         (bp_action d = ''full_exit'' \<and> \<not> stop_live (norm_side side) e m) \<or>
         (bp_action d = ''set_break_even'' \<and> stop_live (norm_side side) e m \<and>
           (\<forall>v\<in>set stops. \<forall>x. positive_value v = Some x \<longrightarrow> \<not> stop_tighter (norm_side side) x e)))"
proof -
  let ?s = "norm_side side"
  from assms(1) obtain mk where mk: "assess_break_even_market side entry_price market_price = Inr mk"
    by (auto simp: assess_break_even_with_existing_stop_def rbind_Inr_iff)
  then obtain e m where side: "is_long_or_short ?s" and e: "positive_value entry_price = Some e"
    and m: "positive_value market_price = Some m" and s: "bm_side mk = ?s"
    and allowed: "bm_allowed mk \<longleftrightarrow> stop_live ?s e m"
    by (auto simp: assess_break_even_market_def Let_def rbind_Inr_iff stop_live_def split: if_splits)
  show ?thesis
  proof (cases "bm_allowed mk")
    case False
    then have "bp_action d = ''full_exit''" "bp_effective_stop_price d = None"
      using assms(1) mk by (auto simp: assess_break_even_with_existing_stop_def)
    then show ?thesis using e m allowed False by auto
  next
    case True
    with assms(1) mk e obtain xs where
      xs: "mapM (\<lambda>v. policy_positive_decimal v ''break_even_existing_stop_invalid'') stops = Inr xs"
      by (auto simp: assess_break_even_with_existing_stop_def rbind_Inr_iff policy_positive_decimal_def)
    note mem = policy_stops_mem [OF xs]
    let ?q = "filter (\<lambda>x. stop_tighter ?s x e) xs"
    have d: "d = (if ?q \<noteq> [] then \<lparr>bp_market = mk, bp_action = ''keep_tighter_stop'',
          bp_effective_stop_price = Some (decimal_text (tightest ?s ?q))\<rparr>
        else \<lparr>bp_market = mk, bp_action = ''set_break_even'', bp_effective_stop_price = None\<rparr>)"
      using assms(1) True mk e xs
      by (simp add: assess_break_even_with_existing_stop_def policy_positive_decimal_def
          policy_format_decimal_def s Let_def del: filter_empty_conv split: if_splits)
    show ?thesis
    proof (cases "?q = []")
      case True
      then have "\<forall>x\<in>set xs. \<not> stop_tighter ?s x e" by (simp add: filter_empty_conv)
      then show ?thesis using True d e m allowed \<open>bm_allowed mk\<close> mem by auto
    next
      case False
      define p where "p = tightest ?s ?q"
      have p: "p \<in> set ?q" unfolding p_def using False by (rule prot.best_mem)
      have best: "stop_tighter ?s p x" if "x \<in> set xs" for x
      proof (cases "stop_tighter ?s x e")
        case True
        with that have "x \<in> set ?q" by simp
        then show ?thesis unfolding p_def by (rule prot.best_prot)
      next
        case False
        then have "stop_tighter ?s e x" using prot.prot_total by blast
        then show ?thesis using p prot.prot_trans by auto
      qed
      have "fits 28 p" using p mem assms(2) by (auto simp: exact_stops_def)
      then have "finite_decimal (VStr (decimal_text p)) = Some p" by (simp add: dround_fits)
      moreover have "d = \<lparr>bp_market = mk, bp_action = ''keep_tighter_stop'',
          bp_effective_stop_price = Some (decimal_text p)\<rparr>" using d False p_def by simp
      ultimately show ?thesis using e m allowed \<open>bm_allowed mk\<close> p best mem by auto
    qed
  qed
qed

theorem break_even_decision_sound_witness:
  "assess_break_even_with_existing_stop (VStr '' Short'') (VInt 100) (VInt 90) [VInt 105, VInt 99, VInt 95]
     = Inr \<lparr>bp_market = \<lparr>bm_side = ''short'', bm_entry_price = ''100'', bm_market_price = ''90'',
          bm_comparison = ''entry_above_market'', bm_allowed = True, bm_fallback_action = None\<rparr>,
          bp_action = ''keep_tighter_stop'', bp_effective_stop_price = Some ''95''\<rparr>
   \<and> (\<exists>p. finite_decimal (VStr ''95'') = Some p \<and> stop_tighter ''short'' p 99)"
proof -
  let ?stops = "[VInt 105, VInt 99, VInt 95]"
  let ?d = "\<lparr>bp_market = \<lparr>bm_side = ''short'', bm_entry_price = ''100'', bm_market_price = ''90'',
          bm_comparison = ''entry_above_market'', bm_allowed = True, bm_fallback_action = None\<rparr>,
          bp_action = ''keep_tighter_stop'', bp_effective_stop_price = Some ''95''\<rparr>"
  have d: "assess_break_even_with_existing_stop (VStr '' Short'') (VInt 100) (VInt 90) ?stops = Inr ?d"
    by code_simp
  have v: "positive_value (VInt 105) = Some 105" "positive_value (VInt 99) = Some 99"
    "positive_value (VInt 95) = Some 95" by code_simp+
  have s: "norm_side (VStr '' Short'') = ''short''" by code_simp
  have x: "exact_stops ?stops" using fits_of_int [of 105 28] fits_of_int [of 99 28] fits_of_int [of 95 28]
    by (simp add: exact_stops_def v)
  from break_even_decision_sound [OF d x, unfolded s break_even_protection_decision.simps option.case]
  obtain p where p: "finite_decimal (VStr ''95'') = Some p"
    and *: "\<forall>u\<in>set ?stops. \<forall>x. positive_value u = Some x \<longrightarrow> stop_tighter ''short'' p x" by blast
  have "stop_tighter ''short'' p 99" using * v(2) by (simp del: fun_upd_apply)
  with p d show ?thesis by blast
qed

end
