(* ===== verification/Break_Even.thy ===== *)
theory Break_Even
  imports Market_Policy
begin

text \<open>
  Where a break-even stop goes (\<open>break_even_reference.py\<close>): the strategy's own price, chosen
  by which entry legs still hold a position, with the actual fill as the fallback; and how the
  reference travels from the planner to the executor inside a leg's planned-TPSL mapping.

  \<open>json.loads\<close> on the stored text is an argument (\<open>loads\<close>): the module only asks it whether
  the text is an object, and which object.
\<close>

section \<open>Data\<close>

definition break_even_reference_price_key :: string where
  "break_even_reference_price_key = ''break_even_reference_price''"

definition break_even_reference_source_key :: string where
  "break_even_reference_source_key = ''break_even_reference_source''"

definition strategy_first_leg :: string where "strategy_first_leg = ''strategy_first_leg''"
definition strategy_second_leg :: string where "strategy_second_leg = ''strategy_second_leg''"
definition strategy_midpoint :: string where "strategy_midpoint = ''strategy_midpoint''"
definition strategy_single_price :: string where "strategy_single_price = ''strategy_single_price''"
definition actual_fill_no_strategy_price :: string where
  "actual_fill_no_strategy_price = ''actual_fill_no_strategy_price''"
definition message_explicit_tighter :: string where
  "message_explicit_tighter = ''message_explicit_tighter''"

lemmas source_names = strategy_first_leg_def strategy_second_leg_def strategy_midpoint_def
  strategy_single_price_def actual_fill_no_strategy_price_def message_explicit_tighter_def

definition strategy_sources :: "string list" where
  "strategy_sources = [strategy_first_leg, strategy_second_leg, strategy_midpoint,
     strategy_single_price, message_explicit_tighter]"

record reference_evidence =
  ev_side :: string
  ev_entry_range_low :: "string option"
  ev_entry_range_high :: "string option"
  ev_open_entry_leg_indexes :: "int list"
  ev_superseded :: "(string \<times> string option) option"

record break_even_reference =
  br_price :: "string option"
  br_source :: string
  br_evidence :: reference_evidence

definition is_strategy_price :: "break_even_reference \<Rightarrow> bool" where
  "is_strategy_price self \<longleftrightarrow> br_source self \<in> set strategy_sources \<and> br_price self \<noteq> None"

text \<open>A management leg as this module reads it: the mapping, its stored text, the own fill.\<close>

record 'j reference_leg =
  leg_planned_tpsl :: "'j option"
  leg_planned_tpsl_json :: pyval
  leg_avg_entry_price :: "string option"

section \<open>Operations\<close>

definition reference_positive_decimal :: "pyval \<Rightarrow> rat option" where
  "reference_positive_decimal value = positive_value (VStr (py_strip (py_str value)))"

definition reference_text :: "rat option \<Rightarrow> string option" where
  "reference_text value = (case value of None \<Rightarrow> None | Some x \<Rightarrow> Some (decimal_text x))"

definition fallback_price :: "pyval \<Rightarrow> string option" where
  "fallback_price value =
     (let number = reference_positive_decimal value
      in if number = None then None else reference_text number)"

text \<open>The leg indexes as a sorted list without repetitions; \<open>None\<close> is a value that is not iterable.\<close>

definition leg_indexes :: "pyval list option \<Rightarrow> int list" where
  "leg_indexes values = (case values of None \<Rightarrow> []
     | Some candidates \<Rightarrow>
         sort (remdups (List.map_filter (\<lambda>value. parse_int (py_strip (py_str value))) candidates)))"

definition resolve_break_even_reference ::
    "pyval \<Rightarrow> pyval \<Rightarrow> pyval \<Rightarrow> pyval list option \<Rightarrow> pyval \<Rightarrow> break_even_reference" where
  "resolve_break_even_reference side entry_range_low entry_range_high open_entry_leg_indexes
      actual_avg_entry_price =
     (let normalized_side = norm_side side;
          low = reference_positive_decimal entry_range_low;
          high = reference_positive_decimal entry_range_high;
          indexes = leg_indexes open_entry_leg_indexes;
          evidence = \<lparr>ev_side = normalized_side, ev_entry_range_low = reference_text low,
            ev_entry_range_high = reference_text high, ev_open_entry_leg_indexes = indexes,
            ev_superseded = None\<rparr>;
          fallback = \<lparr>br_price = fallback_price actual_avg_entry_price,
            br_source = actual_fill_no_strategy_price, br_evidence = evidence\<rparr>
      in if \<not> is_long_or_short normalized_side then fallback
         else (case low of None \<Rightarrow> fallback | Some l \<Rightarrow>
              (case high of None \<Rightarrow> fallback | Some h \<Rightarrow>
            if l = h then
              \<lparr>br_price = reference_text low, br_source = strategy_single_price, br_evidence = evidence\<rparr>
            else if l > h then fallback
            else if 1 \<in> set indexes \<and> 2 \<in> set indexes then
              \<lparr>br_price = reference_text (Some (ddiv (dadd l h) 2)),
               br_source = strategy_midpoint, br_evidence = evidence\<rparr>
            else if indexes = [1] then
              \<lparr>br_price = reference_text (if normalized_side = ''short'' then low else high),
               br_source = strategy_first_leg, br_evidence = evidence\<rparr>
            else if indexes = [2] then
              \<lparr>br_price = reference_text (if normalized_side = ''short'' then high else low),
               br_source = strategy_second_leg, br_evidence = evidence\<rparr>
            else fallback)))"

definition adopted_break_even_reference ::
    "break_even_reference \<Rightarrow> pyval \<Rightarrow> break_even_reference" where
  "adopted_break_even_reference reference price =
     \<lparr>br_price = reference_text (reference_positive_decimal price),
      br_source = message_explicit_tighter,
      br_evidence = (br_evidence reference)
        \<lparr>ev_superseded := Some (br_source reference, br_price reference)\<rparr>\<rparr>"

definition planned_tpsl_reference_fields ::
    "break_even_reference option \<Rightarrow> (string \<times> string) list" where
  "planned_tpsl_reference_fields reference = (case reference of None \<Rightarrow> []
     | Some r \<Rightarrow> if \<not> is_strategy_price r then []
         else [(break_even_reference_price_key, the (br_price r)),
               (break_even_reference_source_key, br_source r)])"

text \<open>
  A planned-TPSL value is an object (\<open>Some row\<close>) or some other JSON value (\<open>None\<close>); \<open>loads\<close>
  yields \<open>None\<close> where \<open>json.loads\<close> raises.
\<close>

definition planned_tpsl_mapping ::
    "(string \<Rightarrow> row option option) \<Rightarrow> row option reference_leg \<Rightarrow> row" where
  "planned_tpsl_mapping loads leg =
     (let no_keys = (\<lambda>_. None) in
      case leg_planned_tpsl leg of
        Some planned \<Rightarrow> (case planned of Some r \<Rightarrow> r | None \<Rightarrow> no_keys)
      | None \<Rightarrow>
          let raw = leg_planned_tpsl_json leg
          in if raw = VNone \<or> raw = VStr [] then no_keys
             else (case loads (py_str raw) of
                 None \<Rightarrow> no_keys
               | Some planned \<Rightarrow> (case planned of Some r \<Rightarrow> r | None \<Rightarrow> no_keys)))"

definition break_even_target_price ::
    "(string \<Rightarrow> row option option) \<Rightarrow> row option reference_leg \<Rightarrow> string option" where
  "break_even_target_price loads leg =
     (let planned = planned_tpsl_mapping loads leg
      in if reference_positive_decimal (row_get planned break_even_reference_price_key) = None
         then leg_avg_entry_price leg
         else Some (py_strip (py_str (row_get planned break_even_reference_price_key))))"

section \<open>Lemmas\<close>

lemma reference_text_simps [simp]:
  "reference_text None = None" "reference_text (Some x) = Some (decimal_text x)"
  by (simp_all add: reference_text_def)

lemma reference_positive_text [simp]:
  "reference_positive_decimal (VStr (decimal_text x)) = (if 0 < x then Some (dround x) else None)"
  by (simp add: reference_positive_decimal_def)

lemma reference_positive_pos: "reference_positive_decimal v = Some x \<Longrightarrow> 0 < x"
  by (auto simp: reference_positive_decimal_def dest: positive_value_pos)

lemma midpoint_between:
  assumes "fits 27 l" "fits 27 h" "l \<le> h"
  shows "l \<le> ddiv (dadd l h) 2" "ddiv (dadd l h) 2 \<le> h"
proof -
  have two: "fits 1 (2::rat)" using fits_of_int [of 2 1] by simp
  have f: "fits 28 (x * 2)" "fits 28 x" if "fits 27 x" for x
    using fits_mult [OF that two] fits_mono [OF that] by auto
  have "l * 2 \<le> dadd l h" "dadd l h \<le> h * 2"
    using assms f by (auto intro!: op_ge_exact op_le_exact)
  then show "l \<le> ddiv (dadd l h) 2" "ddiv (dadd l h) 2 \<le> h"
    using assms f by (auto intro!: op_ge_exact op_le_exact)
qed

text \<open>The price of every reference the resolver or the adoption yields is a printed decimal.\<close>

definition printed_reference :: "break_even_reference \<Rightarrow> bool" where
  "printed_reference r \<longleftrightarrow> (\<forall>p. br_price r = Some p \<longrightarrow> (\<exists>x. 0 < x \<and> p = decimal_text x))"

lemma printed_resolve: "printed_reference (resolve_break_even_reference s l h i a)"
proof -
  have m: "0 < ddiv (dadd x y) 2" if "0 < x" "0 < y" for x y
    using that by (intro ddiv_pos) (simp_all add: dadd_def)
  have f: "fallback_price a = Some p \<Longrightarrow> \<exists>x>0. p = decimal_text x" for p
    by (auto simp: fallback_price_def Let_def dest: reference_positive_pos split: if_splits)
  show ?thesis
    unfolding resolve_break_even_reference_def printed_reference_def Let_def
    by (auto split: option.splits if_splits dest!: reference_positive_pos f intro: m)
qed

lemma printed_adopted: "printed_reference (adopted_break_even_reference r v)"
  by (cases "reference_positive_decimal v")
    (auto simp: adopted_break_even_reference_def printed_reference_def dest: reference_positive_pos)

lemma leg_indexes_sorted [simp]: "sorted (leg_indexes v)" "distinct (leg_indexes v)"
  by (simp_all add: leg_indexes_def split: option.splits)

lemma leg_indexes_singleton: "leg_indexes v = [k] \<longleftrightarrow> set (leg_indexes v) = {k}"
proof
  assume "set (leg_indexes v) = {k}"
  then have "sorted_list_of_set (set (leg_indexes v)) = [k]" by simp
  moreover have "sorted_list_of_set (set (leg_indexes v)) = leg_indexes v"
    by (rule sorted_list_of_set.idem_if_sorted_distinct) simp_all
  ultimately show "leg_indexes v = [k]" by simp
qed simp

lemma printed_target:
  assumes "printed_reference r" "is_strategy_price r" "row_get planned break_even_reference_price_key = VStr (the (br_price r))"
  shows "reference_positive_decimal (row_get planned break_even_reference_price_key) \<noteq> None"
    and "Some (py_strip (py_str (row_get planned break_even_reference_price_key))) = br_price r"
proof -
  obtain p where p: "br_price r = Some p" using assms(2) by (auto simp: is_strategy_price_def)
  with assms(1) obtain x where "0 < x" "p = decimal_text x" by (auto simp: printed_reference_def)
  then show "reference_positive_decimal (row_get planned break_even_reference_price_key) \<noteq> None"
    "Some (py_strip (py_str (row_get planned break_even_reference_price_key))) = br_price r"
    using p assms(3) by simp_all
qed

section \<open>Properties\<close>

text \<open>
  With a usable side and entry range, the reference is the strategy's price exactly
  when the open legs say which one, and it is the price the strategy names: the near end of
  the range for the first leg, the far end for the second, the midpoint for both, never
  outside the range. In every other case it is the actual fill, unchanged.
\<close>

theorem break_even_reference_in_range:
  assumes "is_long_or_short (norm_side side)"
    and "reference_positive_decimal low = Some l" and "reference_positive_decimal high = Some h"
    and "l \<le> h" and "fits 27 l" and "fits 27 h"
  shows "let r = resolve_break_even_reference side low high legs avg; idx = set (leg_indexes legs) in
    if l = h \<or> {1, 2} \<subseteq> idx \<or> idx = {1} \<or> idx = {2}
    then is_strategy_price r \<and> (\<exists>price p. br_price r = Some price \<and> finite_decimal (VStr price) = Some p
      \<and> l \<le> p \<and> p \<le> h
      \<and> (idx = {1} \<longrightarrow> p = (if norm_side side = ''short'' then l else h))
      \<and> (idx = {2} \<longrightarrow> p = (if norm_side side = ''short'' then h else l))
      \<and> (l < h \<and> {1, 2} \<subseteq> idx \<longrightarrow> p = ddiv (dadd l h) 2))
    else br_source r = actual_fill_no_strategy_price \<and> \<not> is_strategy_price r
      \<and> br_price r = fallback_price avg"
proof -
  let ?idx = "set (leg_indexes legs)"
  note mid = midpoint_between [OF assms(5,6,4)]
  have d: "dround l = l" "dround h = h" "dround (ddiv (dadd l h) 2) = ddiv (dadd l h) 2"
    using fits_mono [OF assms(5)] fits_mono [OF assms(6)] by (simp_all add: dround_fits)
  have both: "1 \<in> ?idx \<and> 2 \<in> ?idx \<Longrightarrow> ?idx \<noteq> {1} \<and> ?idx \<noteq> {2}" by auto
  show ?thesis
  proof (cases "l = h")
    case True
    then show ?thesis using assms d
      by (auto simp add: resolve_break_even_reference_def Let_def is_strategy_price_def strategy_sources_def)
  next
    case False
    with assms(4) have lt: "l < h" by simp
    then show ?thesis using assms(1-3) d mid both
      by (auto simp: resolve_break_even_reference_def Let_def is_strategy_price_def strategy_sources_def
          leg_indexes_singleton source_names)
  qed
qed

theorem break_even_reference_in_range_witness:
  "\<exists>price. br_price (resolve_break_even_reference (VStr ''long'') (VInt 100) (VStr ''110'')
      (Some [VInt 2, VStr ''1'', VStr ''x'']) (VStr ''107'')) = Some price
    \<and> finite_decimal (VStr price) = Some 105"
proof -
  have v: "reference_positive_decimal (VInt 100) = Some 100" "reference_positive_decimal (VStr ''110'') = Some 110"
    "norm_side (VStr ''long'') = ''long''" "leg_indexes (Some [VInt 2, VStr ''1'', VStr ''x'']) = [1, 2]"
    "ddiv (dadd 100 110) 2 = 105" by code_simp+
  have f: "fits 27 (100::rat)" "fits 27 (110::rat)"
    using fits_of_int [of 100 27] fits_of_int [of 110 27] by simp_all
  from break_even_reference_in_range [OF _ v(1,2) _ f, of "VStr ''long''" "Some [VInt 2, VStr ''1'', VStr ''x'']" "VStr ''107''"]
  show ?thesis by (simp add: v Let_def)
qed

text \<open>
  The executor aims at the price the planner chose. The fields a reference
  contributes to a leg's stored planned-TPSL mapping, read back through
  \<open>break_even_target_price\<close>, give the reference's own price; a reference that fell back to the
  actual fill contributes nothing, and the leg's \<open>avg_entry_price\<close> is the target.
\<close>

theorem break_even_target_round_trip:
  assumes "r = resolve_break_even_reference side low high legs avg
      \<or> r = adopted_break_even_reference (resolve_break_even_reference side low high legs avg) named"
    and "leg_planned_tpsl leg = None" and "leg_planned_tpsl_json leg = VStr raw" and "raw \<noteq> []"
    and "loads raw = Some (Some stored)"
    and "\<And>k. stored k = (case map_of (planned_tpsl_reference_fields (Some r)) k of
            Some v \<Rightarrow> Some (VStr v) | None \<Rightarrow> base k)"
    and "base break_even_reference_price_key = None"
  shows "break_even_target_price loads leg
    = (if is_strategy_price r then br_price r else leg_avg_entry_price leg)"
proof -
  have printed: "printed_reference r" using assms(1) printed_resolve printed_adopted by auto
  have m: "planned_tpsl_mapping loads leg = stored"
    using assms(2-5) by (simp add: planned_tpsl_mapping_def)
  show ?thesis
  proof (cases "is_strategy_price r")
    case True
    then have "row_get stored break_even_reference_price_key = VStr (the (br_price r))"
      by (simp add: row_get_def assms(6) planned_tpsl_reference_fields_def)
    from printed_target [OF printed True this] True show ?thesis
      by (simp add: break_even_target_price_def m del: not_None_eq)
  next
    case False
    have "reference_positive_decimal VNone = None" by code_simp
    with False show ?thesis
      by (simp add: break_even_target_price_def m row_get_def assms(6,7) planned_tpsl_reference_fields_def)
  qed
qed

theorem break_even_target_round_trip_witness:
  "break_even_target_price
     (\<lambda>s. if s = ''J'' then Some (Some [break_even_reference_price_key \<mapsto> VStr ''100'',
        break_even_reference_source_key \<mapsto> VStr strategy_single_price]) else None)
     \<lparr>leg_planned_tpsl = None, leg_planned_tpsl_json = VStr ''J'', leg_avg_entry_price = Some ''101''\<rparr>
   = Some ''100''"
proof -
  let ?r = "resolve_break_even_reference (VStr ''long'') (VInt 100) (VInt 100) None VNone"
  let ?m = "[break_even_reference_price_key \<mapsto> VStr ''100'',
        break_even_reference_source_key \<mapsto> VStr strategy_single_price]"
  let ?leg = "\<lparr>leg_planned_tpsl = None, leg_planned_tpsl_json = VStr ''J'', leg_avg_entry_price = Some ''101''\<rparr>"
  have r: "br_price ?r = Some ''100''" "br_source ?r = strategy_single_price" "is_strategy_price ?r"
    by code_simp+
  from r have f: "planned_tpsl_reference_fields (Some ?r)
      = [(break_even_reference_price_key, ''100''), (break_even_reference_source_key, strategy_single_price)]"
    by (simp add: planned_tpsl_reference_fields_def)
  have ne: "break_even_reference_price_key \<noteq> break_even_reference_source_key" by code_simp
  have "break_even_target_price (\<lambda>s. if s = ''J'' then Some (Some ?m) else None) ?leg
      = (if is_strategy_price ?r then br_price ?r else leg_avg_entry_price ?leg)"
    using break_even_target_round_trip [of ?r "VStr ''long''" "VInt 100" "VInt 100" None VNone VNone ?leg "''J''"
        "\<lambda>s. if s = ''J'' then Some (Some ?m) else None" ?m "\<lambda>_. None"]
    by (simp add: f ne)
  then show ?thesis by (simp only: r if_True)
qed

end
