(* ===== verification/Fill_Predicate.thy ===== *)
theory Fill_Predicate
  imports Py_Decimal
begin

text \<open>
  Did this exact take-profit order fill (\<open>take_profit_fill_predicate.py\<close>): the one predicate
  the stop ladder and the take-profit consumption ask.  A fill is proven by the recorded order
  status, by a single clean trigger-history row under a complete pending read, or, when the
  history is silent, by a position decrease the caller vouches for.

  The locale \<open>fill_evidence\<close> is the contract its callers rely on.
\<close>

section \<open>Definitions\<close>

datatype evidence_value = EvText string | EvCount nat | EvTexts "string list"

definition proven_fill_order_statuses :: "string list" where
  "proven_fill_order_statuses = [''filled'']"

definition untriggered_trigger_times :: "string list" where
  "untriggered_trigger_times = [[], ''0'', ''0.0'', ''0.00'']"

definition clean_error_codes :: "string list" where
  "clean_error_codes = [[], ''0'', ''00000'']"

definition tier_recorded_order_status :: string where
  "tier_recorded_order_status = ''recorded_take_profit_order_status''"
definition tier_trigger_history :: string where
  "tier_trigger_history = ''trigger_history_clean_trigger''"
definition tier_position_decrease :: string where
  "tier_position_decrease = ''position_decrease_between_complete_observations''"

definition evidence_form_trigger_history :: string where
  "evidence_form_trigger_history = ''trigger_history''"
definition evidence_form_position_decrease :: string where
  "evidence_form_position_decrease = ''position_decrease''"

definition evidence_form_by_tier :: "(string \<times> string) list" where
  "evidence_form_by_tier =
     [(tier_recorded_order_status, evidence_form_trigger_history),
      (tier_trigger_history, evidence_form_trigger_history),
      (tier_position_decrease, evidence_form_position_decrease)]"

record take_profit_fill_verdict =
  fv_proven :: bool
  fv_evidence_tier :: "string option"
  fv_reason_code :: "string option"
  fv_evidence :: "(string \<times> evidence_value) list"

fun fill_text :: "row \<Rightarrow> string list \<Rightarrow> string" where
  "fill_text r [] = []"
| "fill_text r (key # keys) =
     (let value = row_get r key
      in if value = VNone \<or> value = VStr [] then fill_text r keys else py_strip (py_str value))"

definition row_order_id :: "row \<Rightarrow> string" where
  "row_order_id r = fill_text r
     [''ordId'', ''orderId'', ''order_id'', ''algoId'', ''triggerOrderId'', ''id'']"

definition trigger_row_fired :: "row \<Rightarrow> bool" where
  "trigger_row_fired r \<longleftrightarrow>
     fill_text r [''triggerTime'', ''trigger_time''] \<notin> set untriggered_trigger_times"

definition trigger_row_failed :: "row \<Rightarrow> bool" where
  "trigger_row_failed r \<longleftrightarrow> trigger_row_fired r \<and>
     fill_text r [''errorCode'', ''error_code'', ''sCode''] \<notin> set clean_error_codes"

text \<open>The sorted set of the recorded statuses, normalised; empty ones are dropped.\<close>

definition normalized_statuses :: "pyval list \<Rightarrow> string list" where
  "normalized_statuses values =
     sort (remdups (filter (\<lambda>s. s \<noteq> []) (map (\<lambda>v. py_lower (py_strip (str_or_empty v))) values)))"

text \<open>The history rows about this order; an entry that is not a mapping is \<open>None\<close>.\<close>

definition history_rows :: "string \<Rightarrow> row option list \<Rightarrow> row list" where
  "history_rows identity trigger_history =
     List.map_filter (\<lambda>r. case r of None \<Rightarrow> None
       | Some r \<Rightarrow> if row_order_id r = identity then Some r else None) trigger_history"

definition unproven :: "string \<Rightarrow> (string \<times> evidence_value) list \<Rightarrow> take_profit_fill_verdict" where
  "unproven reason evidence =
     \<lparr>fv_proven = False, fv_evidence_tier = None, fv_reason_code = Some reason, fv_evidence = evidence\<rparr>"

definition proven_by :: "string \<Rightarrow> (string \<times> evidence_value) list \<Rightarrow> take_profit_fill_verdict" where
  "proven_by tier evidence =
     \<lparr>fv_proven = True, fv_evidence_tier = Some tier, fv_reason_code = None, fv_evidence = evidence\<rparr>"

definition take_profit_fill_proven ::
    "pyval \<Rightarrow> pyval list \<Rightarrow> row option list \<Rightarrow> bool \<Rightarrow> bool option \<Rightarrow> take_profit_fill_verdict" where
  "take_profit_fill_proven order_id recorded_order_statuses trigger_history
      pending_snapshot_complete position_decrease_proven =
     (let identity = py_strip (str_or_empty order_id) in
      if identity = [] then unproven ''take_profit_order_identity_missing'' []
      else
      let statuses = normalized_statuses recorded_order_statuses;
          proven_statuses = filter (\<lambda>v. v \<in> set proven_fill_order_statuses) statuses
      in if proven_statuses \<noteq> [] then
           proven_by tier_recorded_order_status
             [(''order_id'', EvText identity), (''recorded_status'', EvText (hd proven_statuses))]
      else
      let rows = history_rows identity trigger_history;
          failed = filter trigger_row_failed rows
      in if failed \<noteq> [] then
           unproven ''take_profit_trigger_failed''
             [(''order_id'', EvText identity),
              (''error_code'', EvText (fill_text (hd failed) [''errorCode'', ''error_code'', ''sCode'']))]
      else if rows = [] then
        (case position_decrease_proven of
           None \<Rightarrow> unproven ''take_profit_trigger_history_absent''
             [(''order_id'', EvText identity), (''recorded_statuses'', EvTexts statuses)]
         | Some decreased \<Rightarrow>
             if \<not> pending_snapshot_complete then
               unproven ''take_profit_pending_snapshot_incomplete'' [(''order_id'', EvText identity)]
             else if \<not> decreased then
               unproven ''take_profit_position_not_decreased'' [(''order_id'', EvText identity)]
             else
               proven_by tier_position_decrease [(''order_id'', EvText identity),
                 (''evidence_form'', EvText evidence_form_position_decrease)])
      else if length rows > 1 then
        unproven ''take_profit_trigger_history_ambiguous''
          [(''order_id'', EvText identity), (''history_row_count'', EvCount (length rows))]
      else if \<not> trigger_row_fired (hd rows) then
        unproven ''take_profit_not_triggered'' [(''order_id'', EvText identity)]
      else if \<not> pending_snapshot_complete then
        unproven ''take_profit_pending_snapshot_incomplete'' [(''order_id'', EvText identity)]
      else
        proven_by tier_trigger_history [(''order_id'', EvText identity),
          (''trigger_time'', EvText (fill_text (hd rows) [''triggerTime'', ''trigger_time''])),
          (''error_code'', EvText (fill_text (hd rows) [''errorCode'', ''error_code'', ''sCode'']))])"

section \<open>The contract\<close>

text \<open>
  What a caller relies on, whatever forms of proof there are: silence and failure never prove
  a fill, an incomplete read never does, and a history row decides, so that the decrease the
  caller offers is consulted only where the history says nothing.
\<close>

locale fill_evidence =
  fixes proven :: "pyval \<Rightarrow> row option list \<Rightarrow> bool \<Rightarrow> bool option \<Rightarrow> bool"
    and rows :: "pyval \<Rightarrow> row option list \<Rightarrow> row list"
    and fired :: "row \<Rightarrow> bool" and failed :: "row \<Rightarrow> bool"
  assumes incomplete_refuses: "\<not> proven i h False d"
    and failed_refuses: "r \<in> set (rows i h) \<Longrightarrow> failed r \<Longrightarrow> \<not> proven i h c d"
    and silence_needs_decrease: "rows i h = [] \<Longrightarrow> proven i h c d \<Longrightarrow> d = Some True"
    and history_decides: "rows i h \<noteq> [] \<Longrightarrow> proven i h c d = proven i h c d'"
    and fired_needed: "r \<in> set (rows i h) \<Longrightarrow> proven i h c d \<Longrightarrow> fired r"
begin

lemma sound:
  assumes "proven i h c d"
  shows "c \<and> (if rows i h = [] then d = Some True else \<forall>r\<in>set (rows i h). fired r \<and> \<not> failed r)"
  using assms incomplete_refuses [of i h d] failed_refuses [of _ i h c d]
    silence_needs_decrease [of i h c d] fired_needed [of _ i h c d]
  by (cases c) auto

lemma decrease_never_rescues: "rows i h \<noteq> [] \<Longrightarrow> \<not> proven i h c None \<Longrightarrow> \<not> proven i h c d"
  using history_decides [of i h c d None] by simp

end

lemmas fill_verdicts = unproven_def proven_by_def

definition history_proves :: "pyval \<Rightarrow> row option list \<Rightarrow> bool \<Rightarrow> bool option \<Rightarrow> bool" where
  "history_proves i h c d = fv_proven (take_profit_fill_proven i [] h c d)"

definition order_history :: "pyval \<Rightarrow> row option list \<Rightarrow> row list" where
  "order_history i h = history_rows (py_strip (str_or_empty i)) h"

lemma failed_fired: "trigger_row_failed r \<Longrightarrow> trigger_row_fired r"
  by (simp add: trigger_row_failed_def)

lemma normalized_statuses_Nil [simp]: "normalized_statuses [] = []"
  by (simp add: normalized_statuses_def)

lemma filled_status_iff:
  "filter (\<lambda>v. v \<in> set proven_fill_order_statuses) (normalized_statuses vs) \<noteq> []
    \<longleftrightarrow> (\<exists>v\<in>set vs. py_lower (py_strip (str_or_empty v)) = ''filled'')"
  by (force simp: normalized_statuses_def proven_fill_order_statuses_def filter_empty_conv)

lemma fill_proven_cases:
  "fv_proven (take_profit_fill_proven i vs h c d) \<longleftrightarrow>
     py_strip (str_or_empty i) \<noteq> [] \<and>
     ((\<exists>v\<in>set vs. py_lower (py_strip (str_or_empty v)) = ''filled'') \<or>
      c \<and> (case order_history i h of
             [] \<Rightarrow> d = Some True
           | [r] \<Rightarrow> trigger_row_fired r \<and> \<not> trigger_row_failed r
           | _ \<Rightarrow> False))"
proof -
  let ?f = "filter (\<lambda>v. v \<in> set proven_fill_order_statuses) (normalized_statuses vs)"
  let ?rows = "history_rows (py_strip (str_or_empty i)) h"
  show ?thesis
  proof (cases "?f = []")
    case False
    then show ?thesis using filled_status_iff [of vs]
      by (simp add: take_profit_fill_proven_def Let_def fill_verdicts del: filter_empty_conv)
  next
    case True
    consider "?rows = []" | r where "?rows = [r]" | r q rs where "?rows = r # q # rs"
      by (metis neq_Nil_conv)
    then show ?thesis using True filled_status_iff [of vs]
      by cases (auto simp: take_profit_fill_proven_def Let_def fill_verdicts order_history_def
          simp del: filter_empty_conv split: option.splits)
  qed
qed

interpretation fill: fill_evidence history_proves order_history trigger_row_fired trigger_row_failed
  by unfold_locales
    (auto simp: history_proves_def fill_proven_cases split: list.splits)

section \<open>Properties\<close>

text \<open>
  Exactly when a fill is proven. The order must be named, and either its recorded
  status is filled, or the pending read was complete and the history holds one row for the
  order, which fired cleanly, or holds none and the caller vouches for a position decrease. A
  failed, an untriggered or an ambiguous history refuses whatever the decrease says; a verdict
  carries a reason exactly when it does not prove and a tier exactly when it does.
\<close>

theorem take_profit_fill_proven_exact:
  "(fv_proven (take_profit_fill_proven i vs h c d) \<longleftrightarrow>
     py_strip (str_or_empty i) \<noteq> [] \<and>
     ((\<exists>v\<in>set vs. py_lower (py_strip (str_or_empty v)) = ''filled'') \<or>
      c \<and> (case history_rows (py_strip (str_or_empty i)) h of
             [] \<Rightarrow> d = Some True
           | [r] \<Rightarrow> trigger_row_fired r \<and> \<not> trigger_row_failed r
           | _ \<Rightarrow> False)))
   \<and> fv_proven (take_profit_fill_proven i vs h c d)
     = (fv_reason_code (take_profit_fill_proven i vs h c d) = None)
   \<and> fv_proven (take_profit_fill_proven i vs h c d)
     = (fv_evidence_tier (take_profit_fill_proven i vs h c d) \<noteq> None)"
proof (intro conjI)
  let ?v = "take_profit_fill_proven i vs h c d"
  have "fv_proven ?v = (fv_reason_code ?v = None) \<and> fv_proven ?v = (fv_evidence_tier ?v \<noteq> None)"
    by (simp add: take_profit_fill_proven_def Let_def fill_verdicts split: option.splits)
  then show "fv_proven ?v = (fv_reason_code ?v = None)" "fv_proven ?v = (fv_evidence_tier ?v \<noteq> None)"
    by blast+
qed (rule fill_proven_cases [unfolded order_history_def])

end
