(* ===== verification/Stop_Ladder.thy ===== *)
theory Stop_Ladder
  imports Market_Policy Fill_Predicate
begin

text \<open>
  The stop ladder (\<open>stop_ladder.py\<close>): the rungs of a position (its live take-profit ledger
  rows in profit order), which of them have traded, where the stop should aim (one rung
  behind), and what a round decides.  The fill question is asked through the contract
  \<open>fill_evidence\<close>, and the decisions rest on \<open>protective_order\<close>.

  Ledger rows are mappings (\<open>row\<close>); the ORM objects the code also accepts read the same way.
\<close>

section \<open>Data\<close>

definition take_profit_ledger_purposes :: "string list" where
  "take_profit_ledger_purposes = [''take_profit'', ''tp'', ''profit'']"

definition rung_history_statuses :: "string list" where
  "rung_history_statuses = [''retired'', ''cancelled'', ''canceled'', ''superseded'']"

definition action_replace_stop :: string where "action_replace_stop = ''replace_stop''"
definition action_close_at_market :: string where "action_close_at_market = ''close_at_market''"
definition action_no_change :: string where "action_no_change = ''no_change''"

definition target_source_no_fill :: string where
  "target_source_no_fill = ''no_take_profit_filled''"
definition target_source_break_even_reference :: string where
  "target_source_break_even_reference = ''break_even_reference''"

definition take_profit_level_source :: "int \<Rightarrow> string" where
  "take_profit_level_source level = ''strategy_take_profit_level_'' @ int_text level"

record ladder_rung =
  lr_level :: int
  lr_order_id :: string
  lr_trigger_price :: string
  lr_size_text :: "string option"
  lr_status :: string
  lr_ledger_row_id :: "int option"

record rung_verdict =
  rv_order_id :: string
  rv_level :: int
  rv_reached :: bool
  rv_evidence_form :: "string option"
  rv_reason_code :: "string option"
  rv_evidence :: "(string \<times> evidence_value) list"

record ladder_target_record =
  lt_level :: int
  lt_price :: "string option"
  lt_source :: string
  lt_reason_code :: "string option"

record ladder_decision_record =
  ld_would_action :: string
  ld_level :: int
  ld_target_price :: "string option"
  ld_target_source :: "string option"
  ld_market_price :: "string option"
  ld_effective_stop_price :: "string option"
  ld_reason_code :: "string option"

section \<open>Readers\<close>

definition ladder_text :: "pyval \<Rightarrow> string" where
  "ladder_text value = (if value = VNone then [] else py_strip (py_str value))"

definition ladder_text_set :: "pyval list \<Rightarrow> string list" where
  "ladder_text_set values = filter (\<lambda>t. t \<noteq> []) (map ladder_text values)"

definition ladder_side :: "pyval \<Rightarrow> string option" where
  "ladder_side value = (let normalized = py_lower (ladder_text value)
     in if is_long_or_short normalized then Some normalized else None)"

definition ladder_integer :: "pyval \<Rightarrow> int option" where
  "ladder_integer value = py_int value"

definition ladder_positive_decimal :: "pyval \<Rightarrow> rat option" where
  "ladder_positive_decimal value = positive_value (VStr (ladder_text value))"

definition ladder_format :: "rat \<Rightarrow> string" where
  "ladder_format value = decimal_text value"

text \<open>\<open>x or None\<close> on a text, and \<open>_integer(v) or 0\<close>.\<close>

definition text_or_none :: "string \<Rightarrow> string option" where
  "text_or_none s = (if s = [] then None else Some s)"

definition integer_or_zero :: "pyval \<Rightarrow> int" where
  "integer_or_zero v = (case ladder_integer v of None \<Rightarrow> 0 | Some i \<Rightarrow> i)"

section \<open>The rungs of a position\<close>

definition rung_candidate :: "row \<Rightarrow> (rat \<times> string \<times> ladder_rung) option" where
  "rung_candidate r =
     (if py_lower (ladder_text (row_get r ''purpose'')) \<notin> set take_profit_ledger_purposes then None
      else let status = py_lower (ladder_text (row_get r ''status'')) in
      if status \<in> set rung_history_statuses then None
      else let order_id = ladder_text (row_get r ''order_id'') in
      case ladder_positive_decimal (row_get r ''trigger_price'') of
        None \<Rightarrow> None
      | Some price \<Rightarrow> if order_id = [] then None
          else Some (price, order_id,
            \<lparr>lr_level = 0, lr_order_id = order_id,
             lr_trigger_price = ladder_text (row_get r ''trigger_price''),
             lr_size_text = text_or_none (ladder_text (row_get r ''size_text'')),
             lr_status = status, lr_ledger_row_id = ladder_integer (row_get r ''id'')\<rparr>))"

definition rungs_for_position :: "row list option \<Rightarrow> pyval \<Rightarrow> ladder_rung list" where
  "rungs_for_position ledger_rows side =
     (case ladder_side side of None \<Rightarrow> []
      | Some normalized_side \<Rightarrow>
          let candidates = List.map_filter rung_candidate (case ledger_rows of None \<Rightarrow> [] | Some rs \<Rightarrow> rs);
              sorted = py_sorted (\<lambda>(price, order_id, _). (price, order_id)) (normalized_side = ''short'') candidates
          in map (\<lambda>(index, (_, _, rung)). rung\<lparr>lr_level := int index\<rparr>) (enumerate 1 sorted))"

section \<open>Which rungs have traded\<close>

definition not_reached :: "string \<Rightarrow> int \<Rightarrow> string option \<Rightarrow> (string \<times> evidence_value) list \<Rightarrow> rung_verdict" where
  "not_reached order_id level reason evidence =
     \<lparr>rv_order_id = order_id, rv_level = level, rv_reached = False, rv_evidence_form = None,
      rv_reason_code = reason, rv_evidence = evidence\<rparr>"

definition rung_reached ::
    "ladder_rung \<Rightarrow> pyval list \<Rightarrow> bool \<Rightarrow> row option list \<Rightarrow> pyval list \<Rightarrow> bool option \<Rightarrow> rung_verdict" where
  "rung_reached rung pending_order_ids pending_snapshot_complete trigger_history
      cancel_intent_order_ids position_decrease_proven =
     (let order_id = py_strip (lr_order_id rung); level = lr_level rung in
      if order_id = [] then not_reached order_id level (Some ''stop_ladder_unproven'') []
      else if py_lower (py_strip (lr_status rung)) \<in> set rung_history_statuses then
        not_reached order_id level (Some ''stop_ladder_ledger_row_is_history'') []
      else if order_id \<in> set (ladder_text_set cancel_intent_order_ids) then
        not_reached order_id level (Some ''stop_ladder_cancel_intended'') []
      else if \<not> pending_snapshot_complete then
        not_reached order_id level (Some ''stop_ladder_pending_snapshot_incomplete'') []
      else if order_id \<in> set (ladder_text_set pending_order_ids) then
        not_reached order_id level (Some ''stop_ladder_order_still_pending'') []
      else
        let verdict = take_profit_fill_proven (VStr order_id) [] trigger_history True position_decrease_proven
        in if \<not> fv_proven verdict then
             not_reached order_id level (fv_reason_code verdict) (fv_evidence verdict)
           else
             let tier = (case fv_evidence_tier verdict of None \<Rightarrow> [] | Some t \<Rightarrow> t)
             in \<lparr>rv_order_id = order_id, rv_level = level, rv_reached = True,
                 rv_evidence_form = Some (case map_of evidence_form_by_tier tier of
                     None \<Rightarrow> evidence_form_trigger_history | Some f \<Rightarrow> f),
                 rv_reason_code = None,
                 rv_evidence = fv_evidence verdict @ [(''evidence_tier'', EvText tier)]\<rparr>)"

definition filled_level_for_position :: "rung_verdict list option \<Rightarrow> int" where
  "filled_level_for_position verdicts =
     (let levels = map rv_level (filter rv_reached (case verdicts of None \<Rightarrow> [] | Some vs \<Rightarrow> vs))
      in if levels = [] then 0 else list_max levels)"

definition strategy_filled_level :: "(string \<times> pyval) list option \<Rightarrow> int" where
  "strategy_filled_level levels_by_position =
     (let levels = map (\<lambda>(_, v). integer_or_zero v)
            (case levels_by_position of None \<Rightarrow> [] | Some m \<Rightarrow> m)
      in if levels = [] then 0 else list_max levels)"

section \<open>Where the stop aims\<close>

definition rung_prices_below ::
    "int \<Rightarrow> (string \<times> ladder_rung list) list \<Rightarrow> (string \<times> pyval) list \<Rightarrow> rat list" where
  "rung_prices_below level rungs_by_position levels_by_position =
     concat (map (\<lambda>(pos_id, rungs).
       if integer_or_zero (case map_of levels_by_position pos_id of None \<Rightarrow> VNone | Some v \<Rightarrow> v) \<noteq> level
       then []
       else List.map_filter (\<lambda>rung. if lr_level rung \<noteq> level - 1 then None
              else ladder_positive_decimal (VStr (lr_trigger_price rung))) rungs)
       rungs_by_position)"

definition ladder_target ::
    "pyval \<Rightarrow> pyval \<Rightarrow> (string \<times> ladder_rung list) list \<Rightarrow> (string \<times> pyval) list
     \<Rightarrow> pyval \<Rightarrow> pyval \<Rightarrow> ladder_target_record" where
  "ladder_target side filled_level rungs_by_position levels_by_position
      break_even_reference_price break_even_reference_source =
     (let level = integer_or_zero filled_level in
      case ladder_side side of
        None \<Rightarrow> \<lparr>lt_level = level, lt_price = None, lt_source = target_source_no_fill,
                 lt_reason_code = Some ''stop_ladder_side_invalid''\<rparr>
      | Some normalized_side \<Rightarrow>
      if level \<le> 0 then
        \<lparr>lt_level = 0, lt_price = None, lt_source = target_source_no_fill,
         lt_reason_code = Some ''stop_ladder_no_take_profit_filled''\<rparr>
      else if level = 1 then
        (if ladder_positive_decimal break_even_reference_price = None then
           \<lparr>lt_level = level, lt_price = None, lt_source = target_source_break_even_reference,
            lt_reason_code = Some ''stop_ladder_break_even_reference_missing''\<rparr>
         else
           \<lparr>lt_level = level, lt_price = Some (ladder_text break_even_reference_price),
            lt_source = (let s = ladder_text break_even_reference_source
                         in if s = [] then target_source_break_even_reference else s),
            lt_reason_code = None\<rparr>)
      else
        let source = take_profit_level_source (level - 1);
            prices = rung_prices_below level rungs_by_position levels_by_position
        in if prices = [] then
             \<lparr>lt_level = level, lt_price = None, lt_source = source,
              lt_reason_code = Some ''stop_ladder_rung_below_level_missing''\<rparr>
           else
             \<lparr>lt_level = level, lt_price = Some (ladder_format (tightest normalized_side prices)),
              lt_source = source, lt_reason_code = None\<rparr>)"

section \<open>What a round decides\<close>

definition protective_stops :: "string \<Rightarrow> rat \<Rightarrow> rat \<Rightarrow> pyval list \<Rightarrow> rat list" where
  "protective_stops side goal market existing_stop_prices =
     filter (\<lambda>stop. stop_is_at_least_as_protective (VDec (DFin stop)) (VDec (DFin goal))
              (VStr side) (VDec (DFin market)))
       (List.map_filter ladder_positive_decimal existing_stop_prices)"

definition ladder_decision ::
    "pyval \<Rightarrow> ladder_target_record option \<Rightarrow> pyval \<Rightarrow> pyval list \<Rightarrow> ladder_decision_record" where
  "ladder_decision side target market_price existing_stop_prices =
     (let level = (case target of None \<Rightarrow> 0 | Some t \<Rightarrow> lt_level t);
          target_price = (case target of None \<Rightarrow> None | Some t \<Rightarrow> lt_price t);
          target_source = (case target of None \<Rightarrow> None | Some t \<Rightarrow> Some (lt_source t));
          no_change = \<lparr>ld_would_action = action_no_change, ld_level = level, ld_target_price = None,
            ld_target_source = None, ld_market_price = None, ld_effective_stop_price = None,
            ld_reason_code = None\<rparr>
      in case ladder_side side of
        None \<Rightarrow> no_change\<lparr>ld_reason_code := Some ''stop_ladder_side_invalid''\<rparr>
      | Some normalized_side \<Rightarrow>
      (case target_price of
        None \<Rightarrow> no_change\<lparr>ld_target_source := target_source,
          ld_reason_code := Some (case target of None \<Rightarrow> ''stop_ladder_target_missing''
             | Some t \<Rightarrow> (case lt_reason_code t of None \<Rightarrow> ''stop_ladder_target_missing''
                 | Some c \<Rightarrow> if c = [] then ''stop_ladder_target_missing'' else c))\<rparr>
      | Some price \<Rightarrow>
      (case (ladder_positive_decimal (VStr price), ladder_positive_decimal market_price) of
        (Some goal, Some market) \<Rightarrow>
          let decision = no_change\<lparr>ld_target_price := Some (ladder_format goal),
                ld_target_source := target_source, ld_market_price := Some (ladder_format market)\<rparr>
          in if (normalized_side = ''long'' \<and> goal \<ge> market) \<or> (normalized_side = ''short'' \<and> goal \<le> market)
             then decision\<lparr>ld_would_action := action_close_at_market\<rparr>
             else
               let protective = protective_stops normalized_side goal market existing_stop_prices
               in if protective \<noteq> [] then
                    decision\<lparr>ld_effective_stop_price := Some (ladder_format (tightest normalized_side protective)),
                      ld_reason_code := Some ''stop_ladder_existing_stop_already_protective''\<rparr>
                  else decision\<lparr>ld_would_action := action_replace_stop\<rparr>
      | _ \<Rightarrow> no_change\<lparr>ld_target_price := text_or_none (py_strip price), ld_target_source := target_source,
               ld_market_price := text_or_none (ladder_text market_price),
               ld_reason_code := Some ''stop_ladder_market_price_invalid''\<rparr>)))"

section \<open>Lemmas\<close>

lemma ladder_side_Some: "ladder_side v = Some s \<Longrightarrow> is_long_or_short s"
  by (auto simp: ladder_side_def Let_def split: if_splits)

lemma ladder_positive_pos: "ladder_positive_decimal v = Some x \<Longrightarrow> 0 < x"
  by (auto simp: ladder_positive_decimal_def dest: positive_value_pos)

lemma ladder_text_idem [simp]: "ladder_text (VStr (ladder_text v)) = ladder_text v"
  by (simp add: ladder_text_def)

lemma ladder_positive_text [simp]:
  "ladder_positive_decimal (VStr (ladder_text v)) = ladder_positive_decimal v"
  by (simp add: ladder_positive_decimal_def)

lemma set_map_filter: "set (List.map_filter f xs) = {y. \<exists>x\<in>set xs. f x = Some y}"
  by (induction xs) (auto simp: List.map_filter_def)

text \<open>The price a rung carries.\<close>

definition rung_price :: "ladder_rung \<Rightarrow> rat" where
  "rung_price r = the (ladder_positive_decimal (VStr (lr_trigger_price r)))"

lemma rung_candidate_SomeD:
  "rung_candidate r = Some (price, oid, rung) \<Longrightarrow>
     ladder_positive_decimal (VStr (lr_trigger_price rung)) = Some price \<and> lr_order_id rung = oid
     \<and> oid \<noteq> [] \<and> lr_level rung = 0 \<and> lr_status rung \<notin> set rung_history_statuses"
  by (auto simp: rung_candidate_def Let_def split: if_splits option.splits)

text \<open>The candidates in profit order; the rungs are these, numbered from one.\<close>

definition ordered_candidates :: "row list \<Rightarrow> string \<Rightarrow> (rat \<times> string \<times> ladder_rung) list" where
  "ordered_candidates rows s =
     py_sorted (\<lambda>(price, order_id, _). (price, order_id)) (s = ''short'') (List.map_filter rung_candidate rows)"

lemma rungs_for_position_nth:
  assumes "ladder_side side = Some s" "i < length (ordered_candidates rows s)"
  shows "rungs_for_position (Some rows) side ! i
    = (snd (snd (ordered_candidates rows s ! i)))\<lparr>lr_level := int i + 1\<rparr>"
  using assms by (auto simp: rungs_for_position_def ordered_candidates_def Let_def nth_enumerate_eq split: prod.split)

lemma length_rungs:
  "ladder_side side = Some s \<Longrightarrow>
   length (rungs_for_position (Some rows) side) = length (ordered_candidates rows s)"
  by (simp add: rungs_for_position_def ordered_candidates_def Let_def)

lemma ordered_candidate_mem:
  assumes "i < length (ordered_candidates rows s)"
  shows "\<exists>r\<in>set rows. rung_candidate r = Some (ordered_candidates rows s ! i)"
  using nth_mem [OF assms] by (auto simp: ordered_candidates_def set_map_filter)

lemma rung_price_nth:
  assumes "ladder_side side = Some s" "i < length (ordered_candidates rows s)"
  shows "ladder_positive_decimal (VStr (lr_trigger_price (rungs_for_position (Some rows) side ! i)))
      = Some (fst (ordered_candidates rows s ! i))"
proof -
  obtain p o' r where c: "ordered_candidates rows s ! i = (p, o', r)" by (cases "ordered_candidates rows s ! i")
  with ordered_candidate_mem [OF assms(2)] show ?thesis
    by (auto simp: rungs_for_position_nth [OF assms] dest: rung_candidate_SomeD)
qed

lemma ordered_candidates_prices:
  assumes "i < j" "j < length (ordered_candidates rows s)" "is_long_or_short s"
  shows "stop_tighter s (fst (ordered_candidates rows s ! j)) (fst (ordered_candidates rows s ! i))"
proof -
  let ?key = "\<lambda>(price, order_id, _::ladder_rung). (price, order_id)"
  let ?c = "List.map_filter rung_candidate rows"
  have len: "j < length ?c" using assms(2) by (simp add: ordered_candidates_def)
  from py_sorted_nth [OF assms(1) len, where key = ?key and r = "s = ''short''"]
  have "dir_le (s = ''short'') (?key (ordered_candidates rows s ! i)) (?key (ordered_candidates rows s ! j))"
    by (simp add: ordered_candidates_def)
  then show ?thesis using assms(3)
    by (cases "ordered_candidates rows s ! i"; cases "ordered_candidates rows s ! j")
      (auto simp: dir_le_def stop_tighter_def less_eq_prod_def split: if_splits)
qed

lemma rungs_mset:
  assumes "ladder_side side = Some s"
  shows "mset (map (\<lambda>r. r\<lparr>lr_level := 0\<rparr>) (rungs_for_position (Some rows) side))
    = mset (map (snd \<circ> snd) (List.map_filter rung_candidate rows))"
proof -
  have "map (\<lambda>r. r\<lparr>lr_level := 0\<rparr>) (rungs_for_position (Some rows) side)
      = map (snd \<circ> snd) (ordered_candidates rows s)"
  proof (intro nth_equalityI)
    fix i assume "i < length (map (\<lambda>r. r\<lparr>lr_level := 0\<rparr>) (rungs_for_position (Some rows) side))"
    then have i: "i < length (ordered_candidates rows s)" by (simp add: length_rungs [OF assms])
    obtain p o' r where c: "ordered_candidates rows s ! i = (p, o', r)" by (cases "ordered_candidates rows s ! i")
    with ordered_candidate_mem [OF i] have "lr_level r = 0" by (auto dest: rung_candidate_SomeD)
    then show "map (\<lambda>r. r\<lparr>lr_level := 0\<rparr>) (rungs_for_position (Some rows) side) ! i
        = map (snd \<circ> snd) (ordered_candidates rows s) ! i"
      using i c by (simp add: length_rungs [OF assms] rungs_for_position_nth [OF assms])
  qed (simp add: length_rungs [OF assms])
  then show ?thesis by (simp add: ordered_candidates_def)
qed

text \<open>Printing rounds to 28 digits and so keeps the order.\<close>

lemma stop_tighter_dround: "stop_tighter s a b \<Longrightarrow> stop_tighter s (dround a) (dround b)"
  by (auto simp: stop_tighter_def dround_mono split: if_splits)

lemma tightest_pos: "xs \<noteq> [] \<Longrightarrow> (\<And>x. x \<in> set xs \<Longrightarrow> 0 < x) \<Longrightarrow> 0 < tightest s xs"
  using prot.best_mem [of xs s] by blast

lemma ladder_target_level:
  assumes "ladder_side side = Some s" "integer_or_zero filled = n" "2 \<le> n"
  shows "ladder_target side filled rungs levels ref src =
    (let prices = rung_prices_below n rungs levels in
     \<lparr>lt_level = n, lt_price = (if prices = [] then None else Some (decimal_text (tightest s prices))),
      lt_source = take_profit_level_source (n - 1),
      lt_reason_code = (if prices = [] then Some ''stop_ladder_rung_below_level_missing'' else None)\<rparr>)"
  using assms by (simp add: ladder_target_def ladder_format_def Let_def)

lemma set_rung_prices_below:
  "x \<in> set (rung_prices_below n rungs levels) \<longleftrightarrow>
    (\<exists>pos rs r. (pos, rs) \<in> set rungs
       \<and> integer_or_zero (case map_of levels pos of None \<Rightarrow> VNone | Some v \<Rightarrow> v) = n
       \<and> r \<in> set rs \<and> lr_level r = n - 1 \<and> ladder_positive_decimal (VStr (lr_trigger_price r)) = Some x)"
  by (fastforce simp: rung_prices_below_def set_map_filter split: if_splits)

lemma rung_prices_below_pos: "x \<in> set (rung_prices_below n rungs levels) \<Longrightarrow> 0 < x"
  by (auto simp: set_rung_prices_below dest: ladder_positive_pos)

lemma protective_stops_eq:
  assumes "is_long_or_short s" "0 < g" "0 < m"
  shows "protective_stops s g m vs
    = filter (\<lambda>e. stop_tighter s e g \<and> stop_live s e m) (List.map_filter ladder_positive_decimal vs)"
proof -
  have "0 < e" if "e \<in> set (List.map_filter ladder_positive_decimal vs)" for e
    using that by (auto simp: set_map_filter dest: ladder_positive_pos)
  then show ?thesis using assms(2,3) unfolding protective_stops_def
    by (intro filter_cong) (auto simp only: stop_is_at_least_as_protective_dec [OF assms(1)])
qed

text \<open>The decision with its readers discharged.\<close>

lemma ladder_decision_eq:
  assumes "ladder_side side = Some s" "lt_price t = Some price"
    and "ladder_positive_decimal (VStr price) = Some g" "ladder_positive_decimal market = Some m"
  shows "ladder_decision side (Some t) market stops =
    (let protective = filter (\<lambda>e. stop_tighter s e g \<and> stop_live s e m)
                        (List.map_filter ladder_positive_decimal stops);
         keep = stop_live s g m \<and> protective \<noteq> []
     in \<lparr>ld_would_action = (if \<not> stop_live s g m then action_close_at_market
            else if keep then action_no_change else action_replace_stop),
         ld_level = lt_level t, ld_target_price = Some (decimal_text g),
         ld_target_source = Some (lt_source t), ld_market_price = Some (decimal_text m),
         ld_effective_stop_price = (if keep then Some (decimal_text (tightest s protective)) else None),
         ld_reason_code = (if keep then Some ''stop_ladder_existing_stop_already_protective'' else None)\<rparr>)"
proof -
  note s = ladder_side_Some [OF assms(1)]
  have "0 < g" "0 < m" using assms(3,4) by (auto dest: ladder_positive_pos)
  note p = protective_stops_eq [OF s this, of stops]
  have live: "(s = ''long'' \<and> m \<le> g \<or> s = ''short'' \<and> g \<le> m) \<longleftrightarrow> \<not> stop_live s g m"
    using s by (auto simp: stop_live_def)
  show ?thesis using assms
    by (simp add: ladder_decision_def Let_def p live ladder_format_def del: filter_empty_conv)
qed

section \<open>Properties\<close>

text \<open>
  The rungs of a position are exactly its usable live take-profit rows, numbered one
  upwards in the direction of profit: the trigger prices ascend for a long and descend for a
  short, and no rung is lost, invented or duplicated.
\<close>

theorem rungs_are_the_live_take_profits:
  assumes "ladder_side side = Some s"
  shows "let rungs = rungs_for_position (Some rows) side in
    map lr_level rungs = map int [1..<Suc (length rungs)]
    \<and> sorted_wrt (\<lambda>a b. stop_tighter s (rung_price b) (rung_price a)) rungs
    \<and> mset (map (\<lambda>r. r\<lparr>lr_level := 0\<rparr>) rungs) = mset (map (snd \<circ> snd) (List.map_filter rung_candidate rows))"
proof -
  let ?rungs = "rungs_for_position (Some rows) side"
  note s = ladder_side_Some [OF assms]
  note nth = rungs_for_position_nth [OF assms, of _ rows] and len = length_rungs [OF assms, of rows]
  have "map lr_level ?rungs = map int [1..<Suc (length ?rungs)]"
    by (rule nth_equalityI) (simp_all add: nth len del: upt_Suc)
  moreover have "sorted_wrt (\<lambda>a b. stop_tighter s (rung_price b) (rung_price a)) ?rungs"
    unfolding sorted_wrt_iff_nth_less
  proof (intro allI impI)
    fix i j assume ij: "i < j" "j < length ?rungs"
    then have "i < length ?rungs" by simp
    with ij show "stop_tighter s (rung_price (?rungs ! j)) (rung_price (?rungs ! i))"
      using ordered_candidates_prices [OF ij(1) _ s, of rows] rung_price_nth [OF assms, of _ rows]
      by (simp add: rung_price_def len)
  qed
  ultimately show ?thesis using rungs_mset [OF assms, of rows] by (simp add: Let_def)
qed

definition example_ledger :: "row list" where
  "example_ledger =
     [[''purpose'' \<mapsto> VStr ''tp'', ''order_id'' \<mapsto> VStr ''b'', ''trigger_price'' \<mapsto> VInt 120, ''id'' \<mapsto> VInt 2],
      [''purpose'' \<mapsto> VStr ''stop_loss'', ''order_id'' \<mapsto> VStr ''s'', ''trigger_price'' \<mapsto> VInt 90],
      [''purpose'' \<mapsto> VStr ''tp'', ''order_id'' \<mapsto> VStr ''a'', ''trigger_price'' \<mapsto> VInt 110, ''id'' \<mapsto> VInt 1],
      [''purpose'' \<mapsto> VStr ''tp'', ''order_id'' \<mapsto> VStr ''c'', ''trigger_price'' \<mapsto> VInt 130, ''status'' \<mapsto> VStr ''Retired'']]"

lemma example_rungs:
  "rungs_for_position (Some example_ledger) (VStr ''long'') =
    [\<lparr>lr_level = 1, lr_order_id = ''a'', lr_trigger_price = ''110'', lr_size_text = None, lr_status = [], lr_ledger_row_id = Some 1\<rparr>,
     \<lparr>lr_level = 2, lr_order_id = ''b'', lr_trigger_price = ''120'', lr_size_text = None, lr_status = [], lr_ledger_row_id = Some 2\<rparr>]"
  by code_simp

theorem rungs_are_the_live_take_profits_witness:
  "map lr_level (rungs_for_position (Some example_ledger) (VStr ''long'')) = [1, 2]
   \<and> stop_tighter ''long'' (rung_price (rungs_for_position (Some example_ledger) (VStr ''long'') ! 1))
       (rung_price (rungs_for_position (Some example_ledger) (VStr ''long'') ! 0))"
proof -
  have s: "ladder_side (VStr ''long'') = Some ''long''" by code_simp
  show ?thesis using rungs_are_the_live_take_profits [OF s, of example_ledger]
    by (simp add: Let_def example_rungs upt_rec)
qed

text \<open>
  A rung counts as reached only when the order is named, its row is not history, no
  cancel of ours is known for it, the pending read was complete and no longer lists it, and
  the shared predicate found positive evidence: every history row of the order fired without
  error, or the history is silent and the position got smaller.
\<close>

theorem rung_reached_sound:
  assumes "rv_reached (rung_reached rung pending complete_read history cancels decreased)"
  shows "let order_id = py_strip (lr_order_id rung) in
    order_id \<noteq> [] \<and> py_lower (py_strip (lr_status rung)) \<notin> set rung_history_statuses
    \<and> order_id \<notin> set (ladder_text_set cancels) \<and> complete_read \<and> order_id \<notin> set (ladder_text_set pending)
    \<and> (if history_rows order_id history = [] then decreased = Some True
       else \<forall>r\<in>set (history_rows order_id history). trigger_row_fired r \<and> \<not> trigger_row_failed r)"
proof -
  let ?o = "py_strip (lr_order_id rung)"
  have "?o \<noteq> [] \<and> py_lower (py_strip (lr_status rung)) \<notin> set rung_history_statuses
    \<and> ?o \<notin> set (ladder_text_set cancels) \<and> complete_read \<and> ?o \<notin> set (ladder_text_set pending)
    \<and> history_proves (VStr ?o) history True decreased"
    using assms by (auto simp: rung_reached_def Let_def not_reached_def history_proves_def split: if_splits)
  moreover from this have "order_history (VStr ?o) history = history_rows ?o history"
    by (simp add: order_history_def str_or_empty_def truthy_def)
  ultimately show ?thesis using fill.sound [of "VStr ?o" history True decreased] by (simp add: Let_def)
qed

theorem rung_reached_sound_witness:
  "\<exists>rung history. rv_reached (rung_reached rung [VStr ''other''] True history [] (Some False))
    \<and> (\<forall>r\<in>set (history_rows ''a'' history). trigger_row_fired r)"
proof -
  let ?rung = "\<lparr>lr_level = 1, lr_order_id = ''a'', lr_trigger_price = ''110'', lr_size_text = None,
      lr_status = ''active'', lr_ledger_row_id = Some 1\<rparr>"
  let ?h = "[Some [''ordId'' \<mapsto> VStr ''a'', ''triggerTime'' \<mapsto> VInt 17]]"
  have r: "rv_reached (rung_reached ?rung [VStr ''other''] True ?h [] (Some False))" by code_simp
  have s: "py_strip ''a'' = ''a''" and n: "history_rows ''a'' ?h \<noteq> []" by code_simp+
  from rung_reached_sound [OF r] have "\<forall>r\<in>set (history_rows ''a'' ?h). trigger_row_fired r"
    using n by (simp add: Let_def s)
  with r show ?thesis by blast
qed

text \<open>
  From level two on, the stop aims one rung behind. The target is the price of a
  rung just below the filled level on a leg that itself reached that level, it is the most
  protective of all such rungs, and it is missing exactly when there is none.
\<close>

theorem ladder_target_one_rung_behind:
  assumes "ladder_side side = Some s" and "integer_or_zero filled = n" and "2 \<le> n"
  shows "let t = ladder_target side filled rungs levels ref src;
      eligible = (\<lambda>x. \<exists>pos rs r. (pos, rs) \<in> set rungs
        \<and> integer_or_zero (case map_of levels pos of None \<Rightarrow> VNone | Some v \<Rightarrow> v) = n
        \<and> r \<in> set rs \<and> lr_level r = n - 1
        \<and> ladder_positive_decimal (VStr (lr_trigger_price r)) = Some x) in
    lt_level t = n \<and> (case lt_price t of
      None \<Rightarrow> \<not> (\<exists>x. eligible x)
    | Some price \<Rightarrow> \<exists>x. eligible x \<and> finite_decimal (VStr price) = Some (dround x)
        \<and> (\<forall>y. eligible y \<longrightarrow> stop_tighter s x y))"
proof -
  let ?p = "rung_prices_below n rungs levels"
  have best: "?p \<noteq> [] \<Longrightarrow> tightest s ?p \<in> set ?p" by (rule prot.best_mem)
  have all: "y \<in> set ?p \<Longrightarrow> stop_tighter s (tightest s ?p) y" for y by (rule prot.best_prot)
  show ?thesis
  proof (cases "?p = []")
    case True
    then have "\<not> (\<exists>x. x \<in> set ?p)" by simp
    with True show ?thesis
      unfolding ladder_target_level [OF assms] Let_def set_rung_prices_below by simp
  next
    case False
    with best all show ?thesis
      unfolding ladder_target_level [OF assms] Let_def set_rung_prices_below [symmetric]
      by (auto intro!: exI [of _ "tightest s ?p"])
  qed
qed

theorem ladder_target_one_rung_behind_witness:
  "\<exists>price x. lt_price (ladder_target (VStr ''long'') (VInt 2)
      [(''p'', rungs_for_position (Some example_ledger) (VStr ''long''))] [(''p'', VInt 2)] VNone VNone) = Some price
    \<and> price = ''110'' \<and> finite_decimal (VStr price) = Some (dround x)"
proof -
  let ?t = "ladder_target (VStr ''long'') (VInt 2)
      [(''p'', rungs_for_position (Some example_ledger) (VStr ''long''))] [(''p'', VInt 2)] VNone VNone"
  have t: "lt_price ?t = Some ''110''" by code_simp
  have s: "ladder_side (VStr ''long'') = Some ''long''" and n: "integer_or_zero (VInt 2) = 2"
    by code_simp+
  from ladder_target_one_rung_behind [OF s n, of "[(''p'', rungs_for_position (Some example_ledger) (VStr ''long''))]"
      "[(''p'', VInt 2)]" VNone VNone, unfolded Let_def t option.case]
  show ?thesis unfolding t by blast
qed


text \<open>
  Claim C35: along one position's own ladder the target only ratchets from the second level on: reaching
  one more level moves it to a price at least as protective as the one before. The first level aims at the
  break-even reference, which the ladder does not choose: the move from it to the first rung goes the same way
  exactly when that rung is at least as protective as the reference.
\<close>

theorem ladder_target_ratchets:
  assumes "ladder_side side = Some s" and "rungs = rungs_for_position (Some rows) side"
    and "1 \<le> n" and "n \<le> int (length rungs)" and "n = 1 \<Longrightarrow> ladder_positive_decimal ref = Some x"
  shows "\<exists>a b pa pb g. lt_price (ladder_target side (VInt n) [(pos, rungs)] [(pos, VInt n)] ref src) = Some a
    \<and> lt_price (ladder_target side (VInt (n + 1)) [(pos, rungs)] [(pos, VInt (n + 1))] ref src) = Some b
    \<and> finite_decimal (VStr a) = Some pa \<and> finite_decimal (VStr b) = Some pb
    \<and> ladder_positive_decimal (VStr (lr_trigger_price (rungs ! 0))) = Some g
    \<and> (2 \<le> n \<longrightarrow> stop_tighter s pb pa)
    \<and> (n = 1 \<longrightarrow> pa = x \<and> (fits 28 g \<longrightarrow> (stop_tighter s pb pa \<longleftrightarrow> stop_tighter s g x)))"
proof -
  note len = length_rungs [OF assms(1), of rows]
  have price: "lt_price (ladder_target side (VInt k) [(pos, rungs)] [(pos, VInt k)] ref src)
      = Some (decimal_text (fst (ordered_candidates rows s ! nat (k - 2))))"
    if k: "2 \<le> k" "k - 1 \<le> int (length rungs)" for k
  proof -
    let ?i = "nat (k - 2)"
    let ?x = "fst (ordered_candidates rows s ! ?i)"
    have i: "?i < length (ordered_candidates rows s)" using k len assms(2) by simp
    have lv: "integer_or_zero (VInt k) = k" by (simp add: integer_or_zero_def ladder_integer_def py_int_def)
    have only: "x = ?x" if "x \<in> set (rung_prices_below k [(pos, rungs)] [(pos, VInt k)])" for x
    proof -
      from that obtain r where r: "r \<in> set rungs" "lr_level r = k - 1"
        "ladder_positive_decimal (VStr (lr_trigger_price r)) = Some x"
        by (auto simp: set_rung_prices_below)
      then obtain j where j: "j < length (ordered_candidates rows s)" "r = rungs ! j"
        using len assms(2) by (auto simp: in_set_conv_nth)
      with r(2) have "j = ?i" using rungs_for_position_nth [OF assms(1) j(1)] assms(2) by simp
      then show ?thesis using r(3) rung_price_nth [OF assms(1) j(1)] j(2) assms(2) by simp
    qed
    have "rungs ! ?i \<in> set rungs" using i len assms(2) by simp
    moreover have "lr_level (rungs ! ?i) = k - 1"
      using rungs_for_position_nth [OF assms(1) i] assms(2) k by simp
    ultimately have "?x \<in> set (rung_prices_below k [(pos, rungs)] [(pos, VInt k)])"
      using rung_price_nth [OF assms(1) i] assms(2) lv by (auto simp: set_rung_prices_below)
    then have ne: "rung_prices_below k [(pos, rungs)] [(pos, VInt k)] \<noteq> []" by auto
    then have "tightest s (rung_prices_below k [(pos, rungs)] [(pos, VInt k)]) = ?x"
      using only prot.best_mem by blast
    then show ?thesis using ne ladder_target_level [OF assms(1) lv k(1)] by (simp add: Let_def)
  qed
  define g where "g = fst (ordered_candidates rows s ! 0)"
  have g: "ladder_positive_decimal (VStr (lr_trigger_price (rungs ! 0))) = Some g"
    using rung_price_nth [OF assms(1), of 0 rows] len assms(2-4) by (cases "ordered_candidates rows s") (auto simp: g_def)
  show ?thesis
  proof (cases "n = 1")
    case True
    have lv: "integer_or_zero (VInt 1) = 1" by code_simp
    have "lt_price (ladder_target side (VInt 1) [(pos, rungs)] [(pos, VInt 1)] ref src) = Some (ladder_text ref)"
      using assms(1) assms(5) [OF True] by (simp add: ladder_target_def lv Let_def)
    moreover have "finite_decimal (VStr (ladder_text ref)) = Some x"
      using assms(5) [OF True] by (auto simp: ladder_positive_decimal_def positive_value_def split: option.splits if_splits)
    moreover have "lt_price (ladder_target side (VInt (1 + 1)) [(pos, rungs)] [(pos, VInt (1 + 1))] ref src) = Some (decimal_text g)"
      using price [of "1 + 1"] assms(4) True by (simp add: g_def)
    moreover have "finite_decimal (VStr (decimal_text g)) = Some (dround g)" by simp
    ultimately show ?thesis using g True by (auto simp: dround_fits)
  next
    case False
    with assms(3) have n: "2 \<le> n" by simp
    have "stop_tighter s (fst (ordered_candidates rows s ! nat (n + 1 - 2))) (fst (ordered_candidates rows s ! nat (n - 2)))"
      using assms(2,4) n len by (intro ordered_candidates_prices ladder_side_Some [OF assms(1)]) auto
    from stop_tighter_dround [OF this] show ?thesis
      using price [of n] price [of "n + 1"] n assms(4) g by auto
  qed
qed

theorem ladder_target_ratchets_witness:
  "(\<exists>a b pa pb. lt_price (ladder_target (VStr ''long'') (VInt 2)
        [(''p'', rungs_for_position (Some example_ledger) (VStr ''long''))] [(''p'', VInt 2)] VNone VNone) = Some a
    \<and> lt_price (ladder_target (VStr ''long'') (VInt (2 + 1))
        [(''p'', rungs_for_position (Some example_ledger) (VStr ''long''))] [(''p'', VInt (2 + 1))] VNone VNone) = Some b
    \<and> finite_decimal (VStr a) = Some pa \<and> finite_decimal (VStr b) = Some pb \<and> stop_tighter ''long'' pb pa)
   \<and> (\<exists>a pa. lt_price (ladder_target (VStr ''long'') (VInt 1)
        [(''p'', rungs_for_position (Some example_ledger) (VStr ''long''))] [(''p'', VInt 1)] (VInt 108) VNone) = Some a
    \<and> finite_decimal (VStr a) = Some pa \<and> pa = 108)"
proof -
  have s: "ladder_side (VStr ''long'') = Some ''long''" by code_simp
  have x: "ladder_positive_decimal (VInt 108) = Some 108" by code_simp
  have *: "2 \<le> int (length (rungs_for_position (Some example_ledger) (VStr ''long'')))"
    "1 \<le> int (length (rungs_for_position (Some example_ledger) (VStr ''long'')))" by (simp_all add: example_rungs)
  show ?thesis
    using ladder_target_ratchets [OF s refl _ *(1), of VNone 0 "''p''" VNone] ladder_target_ratchets [OF s refl _ *(2) x, of "''p''" VNone]
    by simp blast
qed

text \<open>
  Claim C17: what a ladder round decides with a usable target and market. It closes at market
  exactly when the target is no longer on the live side; it changes nothing exactly when some
  resting stop is live and already at least as tight as the target, and then names the
  tightest of the live ones; it replaces the stop only when the target is live and strictly
  tighter than every live resting stop. So no round ever loosens a stop.
\<close>

theorem ladder_decision_never_loosens:
  assumes "ladder_side side = Some s" and "lt_price t = Some price"
    and "ladder_positive_decimal (VStr price) = Some g" and "ladder_positive_decimal market = Some m"
    and "\<forall>v\<in>set stops. \<forall>x. ladder_positive_decimal v = Some x \<longrightarrow> fits 28 x"
  shows "let d = ladder_decision side (Some t) market stops;
      resting = (\<lambda>x. (\<exists>v\<in>set stops. ladder_positive_decimal v = Some x) \<and> stop_live s x m) in
    (ld_would_action d = action_close_at_market \<longleftrightarrow> \<not> stop_live s g m)
    \<and> (ld_would_action d = action_replace_stop \<longleftrightarrow>
        stop_live s g m \<and> (\<forall>x. resting x \<longrightarrow> \<not> stop_tighter s x g))
    \<and> (ld_would_action d = action_no_change \<longleftrightarrow>
        (\<exists>p. map_option (finite_decimal \<circ> VStr) (ld_effective_stop_price d) = Some (Some p)
          \<and> resting p \<and> stop_live s g m \<and> stop_tighter s p g \<and> (\<forall>x. resting x \<longrightarrow> stop_tighter s p x)))"
proof -
  let ?all = "List.map_filter ladder_positive_decimal stops"
  let ?f = "filter (\<lambda>e. stop_tighter s e g \<and> stop_live s e m) ?all"
  let ?resting = "\<lambda>x. (\<exists>v\<in>set stops. ladder_positive_decimal v = Some x) \<and> stop_live s x m"
  have f: "x \<in> set ?f \<longleftrightarrow> ?resting x \<and> stop_tighter s x g" for x by (auto simp: set_map_filter)
  have ne: "?f = [] \<longleftrightarrow> (\<forall>x. ?resting x \<longrightarrow> \<not> stop_tighter s x g)" 
    by (simp add: filter_empty_conv set_map_filter) blast
  have names: "action_close_at_market \<noteq> action_replace_stop" "action_close_at_market \<noteq> action_no_change"
    "action_replace_stop \<noteq> action_no_change" by code_simp+
  define p where "p = tightest s ?f"
  note d = ladder_decision_eq [OF assms(1-4), of stops, unfolded Let_def, folded p_def]
  show ?thesis
  proof (cases "stop_live s g m \<and> ?f \<noteq> []")
    case False
    then show ?thesis unfolding Let_def d using names ne by auto
  next
    case True
    then have "p \<in> set ?f" unfolding p_def by (intro prot.best_mem) blast
    then have p: "?resting p" "stop_tighter s p g" using f by blast+
    have best: "stop_tighter s p x" if "?resting x" for x
    proof (cases "stop_tighter s x g")
      case True
      with that f show ?thesis unfolding p_def by (intro prot.best_prot) blast
    next
      case False
      then have "stop_tighter s g x" using prot.prot_total by blast
      then show ?thesis using p prot.prot_trans by blast
    qed
    have "finite_decimal (VStr (decimal_text p)) = Some p" using p assms(5) by (auto simp: dround_fits)
    then show ?thesis unfolding Let_def d using True names p best ne by (auto simp del: filter_empty_conv)
  qed
qed

theorem ladder_decision_never_loosens_witness:
  "ld_would_action (ladder_decision (VStr ''long'')
     (Some \<lparr>lt_level = 1, lt_price = Some ''100'', lt_source = ''r'', lt_reason_code = None\<rparr>)
     (VInt 110) [VInt 95, VInt 120]) = action_replace_stop"
proof -
  let ?t = "\<lparr>lt_level = 1, lt_price = Some ''100'', lt_source = ''r'', lt_reason_code = None\<rparr>"
  have v: "ladder_side (VStr ''long'') = Some ''long''" "ladder_positive_decimal (VStr ''100'') = Some 100"
    "ladder_positive_decimal (VInt 110) = Some 110" "ladder_positive_decimal (VInt 95) = Some 95"
    "ladder_positive_decimal (VInt 120) = Some 120" by code_simp+
  have x: "\<forall>v\<in>set [VInt 95, VInt 120]. \<forall>y. ladder_positive_decimal v = Some y \<longrightarrow> fits 28 y"
    using fits_of_int [of 95 28] fits_of_int [of 120 28] by (auto simp: v)
  have p: "lt_price ?t = Some ''100''" by simp
  from ladder_decision_never_loosens [where stops = "[VInt 95, VInt 120]", OF v(1) p v(2,3) x]
  show ?thesis by (simp add: Let_def v stop_live_def stop_tighter_def) fastforce
qed

text \<open>
  Unprovable means unchanged. A round acts only with a known side, a target with a
  positive price and a positive market price; in every other case it proposes no change.
\<close>

theorem ladder_acts_only_on_evidence:
  assumes "ld_would_action (ladder_decision side target market stops) \<noteq> action_no_change"
  shows "\<exists>s t price g m. ladder_side side = Some s \<and> target = Some t \<and> lt_price t = Some price
    \<and> ladder_positive_decimal (VStr price) = Some g \<and> ladder_positive_decimal market = Some m"
  using assms by (auto simp: ladder_decision_def Let_def split: option.splits)

theorem ladder_acts_only_on_evidence_witness:
  "\<exists>m. ladder_positive_decimal (VInt 90) = Some m"
proof -
  have "ld_would_action (ladder_decision (VStr ''long'')
     (Some \<lparr>lt_level = 1, lt_price = Some ''100'', lt_source = ''r'', lt_reason_code = None\<rparr>)
     (VInt 90) []) \<noteq> action_no_change" by code_simp
  from ladder_acts_only_on_evidence [OF this] show ?thesis by blast
qed

end
