(* ===== verification/Step_Grid.thy ===== *)
theory Step_Grid
  imports Backup_Stop
begin

text \<open>
  Decimal arithmetic on a contract's quantity step.  A size is a whole number of steps; as long
  as the counts stay below \<open>10^21\<close> and the step has at most seven significant digits, every
  sum, difference, product and quotient the sizing modules form on such sizes is exact, so the
  28-digit rounding disappears.  Shared by the take-profit plan, the management sizing and the
  take-profit adjustment.
\<close>

definition grid_step :: "rat \<Rightarrow> bool" where
  "grid_step t \<longleftrightarrow> 0 < t \<and> fits 7 t"

definition small_count :: "int \<Rightarrow> bool" where
  "small_count n \<longleftrightarrow> \<bar>n\<bar> < 10 ^ 21"

lemma grid_step_pos [simp]: "grid_step t \<Longrightarrow> 0 < t"
  by (simp add: grid_step_def)

lemma small_count_le: "0 \<le> m \<Longrightarrow> m \<le> n \<Longrightarrow> small_count n \<Longrightarrow> small_count m"
  by (simp add: small_count_def)

lemma fits_grid: "grid_step t \<Longrightarrow> small_count n \<Longrightarrow> fits 28 (of_int n * t)"
  by (simp add: grid_step_def small_count_def fits_tick_multiple)

lemma fits_count: "small_count n \<Longrightarrow> fits 28 (of_int n)"
  unfolding small_count_def by (rule fits_mono [OF fits_of_int [of n 21]]) simp_all

lemma dround_grid [simp]: "grid_step t \<Longrightarrow> small_count n \<Longrightarrow> dround (of_int n * t) = of_int n * t"
  by (rule dround_fits) (rule fits_grid)

lemma dround_count [simp]: "small_count n \<Longrightarrow> dround (of_int n) = of_int n"
  by (rule dround_fits) (rule fits_count)

lemma dadd_grid:
  "grid_step t \<Longrightarrow> small_count (m + n) \<Longrightarrow> dadd (of_int m * t) (of_int n * t) = of_int (m + n) * t"
  using dround_grid [of t "m + n"] by (simp add: dadd_def distrib_right)

lemma dsub_grid:
  "grid_step t \<Longrightarrow> small_count (m - n) \<Longrightarrow> dsub (of_int m * t) (of_int n * t) = of_int (m - n) * t"
  using dround_grid [of t "m - n"] by (simp add: dsub_def left_diff_distrib)

lemma dmul_grid: "grid_step t \<Longrightarrow> small_count n \<Longrightarrow> dmul (of_int n) t = of_int n * t"
  by (simp add: dmul_def)

lemma ddiv_grid: "grid_step t \<Longrightarrow> small_count n \<Longrightarrow> ddiv (of_int n * t) t = of_int n"
proof -
  assume a: "grid_step t" "small_count n"
  have "t \<noteq> 0" using grid_step_pos [OF a(1)] by simp
  with a(2) show ?thesis by (simp add: ddiv_def)
qed

lemma dadd_count: "small_count (m + n) \<Longrightarrow> dadd (of_int m) (of_int n) = of_int (m + n)"
  using dround_count [of "m + n"] by (simp add: dadd_def)

lemma dsub_count: "small_count (m - n) \<Longrightarrow> dsub (of_int m) (of_int n) = of_int (m - n)"
  using dround_count [of "m - n"] by (simp add: dsub_def)

lemma dmul_count: "small_count (m * n) \<Longrightarrow> dmul (of_int m) (of_int n) = of_int (m * n)"
  using dround_count [of "m * n"] by (simp add: dmul_def)

lemma floor_count [simp]: "to_integral_floor (of_int n) = of_int n"
  "to_integral_ceiling (of_int n) = of_int n" "to_integral_value (of_int n) = of_int n"
  by (simp_all add: to_integral_floor_def to_integral_ceiling_def to_integral_value_def)

text \<open>A running sum of non-negative counts stays exact as long as the total is small.\<close>

lemma foldl_dadd_grid:
  assumes "grid_step t" "small_count (n + sum_list ks)" "0 \<le> n" "\<And>k. k \<in> set ks \<Longrightarrow> 0 \<le> k"
  shows "foldl dadd (of_int n * t) (map (\<lambda>k. of_int k * t) ks) = of_int (n + sum_list ks) * t"
  using assms
proof (induction ks arbitrary: n)
  case (Cons k ks)
  have s: "0 \<le> sum_list ks" using Cons.prems(4) by (intro sum_list_nonneg) auto
  have "small_count (n + k)"
    using Cons.prems s by (intro small_count_le [of "n + k" "n + sum_list (k # ks)"]) auto
  then have d: "dadd (of_int n * t) (of_int k * t) = of_int (n + k) * t"
    using Cons.prems(1) by (rule dadd_grid [rotated])
  have "foldl dadd (of_int (n + k) * t) (map (\<lambda>k. of_int k * t) ks) = of_int (n + k + sum_list ks) * t"
    using Cons.prems by (intro Cons.IH) (auto simp: add.assoc)
  then show ?case by (simp only: foldl_Cons list.map d sum_list.Cons add.assoc)
qed simp

lemma dsum_grid:
  assumes "grid_step t" "small_count (sum_list ks)" "\<And>k. k \<in> set ks \<Longrightarrow> 0 \<le> k"
  shows "dsum (map (\<lambda>k. of_int k * t) ks) = of_int (sum_list ks) * t"
  using foldl_dadd_grid [of t 0 ks] assms by (simp add: dsum_def)

lemma grid_step_1 [simp]: "grid_step 1"
  using fits_of_int [of 1 7] by (simp add: grid_step_def)

lemma dsum_count:
  assumes "small_count (sum_list ks)" "\<And>k. k \<in> set ks \<Longrightarrow> 0 \<le> k"
  shows "dsum (map of_int ks) = of_int (sum_list ks)"
  using dsum_grid [of 1 ks] assms by simp

lemma dec_text_grid:
  "grid_step t \<Longrightarrow> small_count n \<Longrightarrow> finite_decimal (VStr (decimal_text (of_int n * t))) = Some (of_int n * t)"
  by simp

end
