(* ===== verification/TP_Plan.thy ===== *)
theory TP_Plan
  imports Step_Grid
begin

text \<open>
  The staged take-profit plan (\<open>take_profit_plan.py\<close>): one to five targets in profit order,
  their allocations (the configured ones when they match and sum to 100, the defaults
  otherwise) and, when a position is given, step-aligned quantities that sum to it.
\<close>

section \<open>Definitions\<close>

record take_profit_leg =
  tp_price :: string
  tp_allocation_pct :: string
  tp_quantity :: "string option"

type_synonym take_profit_plan = "take_profit_leg list"

text \<open>The configured allocations: absent, one text such as \<open>40/30/30\<close>, or a sequence.\<close>

datatype allocation_input = NoAllocations | AllocationText string | AllocationList "pyval list"

text \<open>\<open>s.split(",")\<close>: always at least one piece.\<close>

fun split_commas :: "string \<Rightarrow> string list" where
  "split_commas [] = [[]]"
| "split_commas (c # s) =
     (if c = CHR '','' then [] # split_commas s
      else (case split_commas s of [] \<Rightarrow> [[c]] | p # ps \<Rightarrow> (c # p) # ps))"

definition replace_char :: "char \<Rightarrow> char \<Rightarrow> string \<Rightarrow> string" where
  "replace_char a b s = map (\<lambda>c. if c = a then b else c) s"

definition plan_positive :: "pyval \<Rightarrow> string \<Rightarrow> rat result" where
  "plan_positive value label =
     (case positive_value value of
        None \<Rightarrow> Inl (TakeProfitPlanError (label @ '' must be positive''))
      | Some parsed \<Rightarrow> Inr parsed)"

definition plan_side :: "pyval \<Rightarrow> string result" where
  "plan_side value =
     (let normalized = norm_side value
      in if is_long_or_short normalized then Inr normalized
         else Inl (TakeProfitPlanError ''take-profit side must be long or short''))"

definition plan_prices :: "pyval list \<Rightarrow> rat list result" where
  "plan_prices values =
     rbind (mapM (\<lambda>v. plan_positive v ''take-profit price'') values) (\<lambda>res.
       if res = [] \<or> length res > 5
       then Inl (TakeProfitPlanError ''take-profit plan must contain one through five targets'')
       else if length (remdups res) \<noteq> length res
       then Inl (TakeProfitPlanError ''take-profit prices must be unique'')
       else Inr res)"

definition raw_allocations :: "allocation_input \<Rightarrow> pyval list" where
  "raw_allocations values = (case values of
       AllocationText s \<Rightarrow>
         map VStr (split_commas (replace_char (CHR ''-'') (CHR '','') (replace_char (CHR ''/'') (CHR '','') s)))
     | AllocationList vs \<Rightarrow> vs
     | NoAllocations \<Rightarrow> [])"

definition default_allocations :: "nat \<Rightarrow> rat list" where
  "default_allocations n =
     (if n = 1 then [100]
      else if n = 2 then [50, 50]
      else if n = 3 then [40, 30, 30]
      else if n = 4 then [40, 20, 20, 20]
      else [40, 15, 15, 15, 15])"

definition plan_allocations :: "allocation_input \<Rightarrow> nat \<Rightarrow> rat list result" where
  "plan_allocations values n =
     rbind (mapM (\<lambda>v. plan_positive v ''take-profit allocation'') (raw_allocations values)) (\<lambda>configured.
       if length configured = n \<and> dsum configured = 100 then Inr configured
       else Inr (default_allocations n))"

definition plan_round_down :: "rat \<Rightarrow> rat \<Rightarrow> rat" where
  "plan_round_down value step = dmul (to_integral_floor (ddiv value step)) step"

text \<open>The loop over the allocations: the last stage takes what is left.\<close>

fun plan_stages :: "rat \<Rightarrow> rat \<Rightarrow> rat \<Rightarrow> rat \<Rightarrow> rat list \<Rightarrow> (rat list \<times> rat) result" where
  "plan_stages whole step minimum remaining [] = Inr ([], remaining)"
| "plan_stages whole step minimum remaining (allocation # rest) =
     (let proposed = (if rest = [] then remaining
                      else plan_round_down (ddiv (dmul whole allocation) 100) step)
      in if proposed < minimum
         then Inl (TakeProfitPlanError ''take-profit stage is below minimum quantity'')
         else rbind (plan_stages whole step minimum (dsub remaining proposed) rest)
                (\<lambda>(res, left). Inr (proposed # res, left)))"

definition plan_quantities ::
    "pyval \<Rightarrow> pyval \<Rightarrow> pyval \<Rightarrow> rat list \<Rightarrow> rat list option result" where
  "plan_quantities quantity quantity_step minimum_quantity allocations =
     (if quantity = VNone \<and> quantity_step = VNone \<and> minimum_quantity = VNone then Inr None
      else if quantity = VNone \<or> quantity_step = VNone \<or> minimum_quantity = VNone
      then Inl (TakeProfitPlanError ''quantity, step, and minimum quantity are required together'')
      else
     rbind (plan_positive quantity ''position quantity'') (\<lambda>total.
     rbind (plan_positive quantity_step ''quantity step'') (\<lambda>step.
     rbind (plan_positive minimum_quantity ''minimum quantity'') (\<lambda>minimum.
       if ddiv total step \<noteq> to_integral_value (ddiv total step)
       then Inl (TakeProfitPlanError ''position quantity must align to quantity step'')
       else rbind (plan_stages total step minimum total allocations) (\<lambda>(res, remaining).
         if remaining \<noteq> 0 \<or> dsum res \<noteq> total
         then Inl (TakeProfitPlanError ''take-profit quantities do not sum to position quantity'')
         else Inr (Some res))))))"

fun plan_leg :: "rat list option \<Rightarrow> nat \<times> rat \<times> rat \<Rightarrow> take_profit_leg" where
  "plan_leg quantities (index, price, allocation) =
     \<lparr>tp_price = decimal_text price, tp_allocation_pct = decimal_text allocation,
      tp_quantity = (case quantities of None \<Rightarrow> None | Some qs \<Rightarrow> Some (decimal_text (qs ! index)))\<rparr>"

definition build_take_profit_plan ::
    "pyval list \<Rightarrow> pyval \<Rightarrow> allocation_input \<Rightarrow> pyval \<Rightarrow> pyval \<Rightarrow> pyval \<Rightarrow> take_profit_plan result" where
  "build_take_profit_plan prices side configured_allocations quantity quantity_step minimum_quantity =
     rbind (plan_side side) (\<lambda>normalized_side.
     rbind (plan_prices prices) (\<lambda>normalized_prices.
     rbind (plan_allocations configured_allocations (length normalized_prices)) (\<lambda>allocations.
     rbind (plan_quantities quantity quantity_step minimum_quantity allocations) (\<lambda>quantities.
       let ordered = py_sorted (\<lambda>p. p) (normalized_side = ''short'') normalized_prices
       in Inr (map (plan_leg quantities) (enumerate 0 (zip ordered allocations)))))))"

section \<open>Lemmas\<close>

lemma plan_positive_Inr [simp]: "plan_positive v l = Inr x \<longleftrightarrow> positive_value v = Some x"
  by (auto simp: plan_positive_def split: option.splits)

lemma plan_side_Inr [simp]: "plan_side v = Inr s \<longleftrightarrow> s = norm_side v \<and> is_long_or_short s"
  by (auto simp: plan_side_def Let_def)

lemma plan_prices_Inr:
  assumes "plan_prices values = Inr ps"
  shows "ps \<noteq> []" "length ps \<le> 5" "distinct ps" "\<And>p. p \<in> set ps \<Longrightarrow> 0 < p" "length ps = length values"
    "\<And>p. p \<in> set ps \<longleftrightarrow> (\<exists>v\<in>set values. positive_value v = Some p)"
proof -
  from assms have m: "mapM (\<lambda>v. plan_positive v ''take-profit price'') values = Inr ps"
    and c: "ps \<noteq> []" "length ps \<le> 5" "length (remdups ps) = length ps"
    by (auto simp: plan_prices_def rbind_Inr_iff split: if_splits)
  show "ps \<noteq> []" "length ps \<le> 5" using c by simp_all
  show "distinct ps" using c(3) by (metis card_distinct distinct_card distinct_remdups set_remdups)
  show "length ps = length values" using m by (rule mapM_Inr_length)
  show mem: "p \<in> set ps \<longleftrightarrow> (\<exists>v\<in>set values. positive_value v = Some p)" for p
    using mapM_Inr_set [OF m, of p] mapM_Inr_all [OF m] by fastforce
  then show "p \<in> set ps \<Longrightarrow> 0 < p" for p by (auto dest: positive_value_pos)
qed

lemma default_allocations_ok:
  assumes "0 < n" "n \<le> 5"
  shows "length (default_allocations n) = n" "dsum (default_allocations n) = 100"
    "\<And>a. a \<in> set (default_allocations n) \<Longrightarrow> 0 < a"
proof -
  have "n = 1 \<or> n = 2 \<or> n = 3 \<or> n = 4 \<or> n = 5" using assms by linarith
  moreover have "dsum [100] = 100" "dsum [50, 50] = 100" "dsum [40, 30, 30] = 100"
    "dsum [40, 20, 20, 20] = 100" "dsum [40, 15, 15, 15, 15] = 100" by code_simp+
  ultimately show "length (default_allocations n) = n" "dsum (default_allocations n) = 100"
    "\<And>a. a \<in> set (default_allocations n) \<Longrightarrow> 0 < a"
    by (auto simp: default_allocations_def)
qed

lemma plan_allocations_Inr:
  assumes "plan_allocations values n = Inr as" "0 < n" "n \<le> 5"
  shows "length as = n" "dsum as = 100" "\<And>a. a \<in> set as \<Longrightarrow> 0 < a"
proof -
  from assms(1) obtain cs where
      m: "mapM (\<lambda>v. plan_positive v ''take-profit allocation'') (raw_allocations values) = Inr cs"
    and c: "(length cs = n \<and> dsum cs = 100 \<and> as = cs) \<or> as = default_allocations n"
    by (auto simp: plan_allocations_def rbind_Inr_iff split: if_splits)
  have "c \<in> set cs \<Longrightarrow> 0 < c" for c
    using mapM_Inr_set [OF m, of c] by (auto dest: positive_value_pos)
  with c default_allocations_ok [OF assms(2,3)]
  show "length as = n" "dsum as = 100" "\<And>a. a \<in> set as \<Longrightarrow> 0 < a" by auto
qed


text \<open>Adding positive allocations never falls below any of them, up to the rounding of each.\<close>

lemma foldl_dadd_ge_acc:
  assumes "fits 28 x" "\<And>a. a \<in> set as \<Longrightarrow> 0 < a"
  shows "x \<le> foldl dadd x as"
  using assms
proof (induction as arbitrary: x)
  case (Cons a as)
  have "0 < a" using Cons.prems(2) by simp
  then have "x \<le> dadd x a" using Cons.prems(1) by (intro op_ge_exact) simp_all
  also have "\<dots> \<le> foldl dadd (dadd x a) as" using Cons.prems by (intro Cons.IH) simp_all
  finally show ?case by simp
qed simp

lemma foldl_dadd_ge_mem:
  assumes "0 \<le> x" "\<And>a. a \<in> set as \<Longrightarrow> 0 < a" "a \<in> set as"
  shows "dround a \<le> foldl dadd x as"
  using assms
proof (induction as arbitrary: x)
  case (Cons b as)
  show ?case
  proof (cases "a = b")
    case True
    have "dround a \<le> dadd x b" unfolding dadd_def using Cons.prems True by (intro dround_mono) simp
    also have "\<dots> \<le> foldl dadd (dadd x b) as" using Cons.prems by (intro foldl_dadd_ge_acc) simp_all
    finally show ?thesis by simp
  next
    case False
    have "0 \<le> dadd x b" using Cons.prems by (intro op_ge_exact) (auto simp: less_imp_le)
    with Cons.prems False show ?thesis by (simp add: Cons.IH)
  qed
qed simp

lemma allocation_le:
  assumes "dsum as = 100" "\<And>a. a \<in> set as \<Longrightarrow> 0 < a" "a \<in> set as"
  shows "a \<le> 200"
proof (rule ccontr)
  assume "\<not> a \<le> 200"
  then have "200 \<le> dround a" using fits_count [of 200] by (intro ctx.rnd_ge_exact) (simp_all add: small_count_def)
  also have "\<dots> \<le> dsum as" unfolding dsum_def using assms(2,3) by (intro foldl_dadd_ge_mem) simp_all
  finally show False using assms(1) by simp
qed

lemma round_down_stage:
  assumes t: "grid_step t" and N: "0 \<le> N" "N < 10 ^ 12" and a: "0 < a" "a \<le> 200"
  obtains k where "plan_round_down (ddiv (dmul (of_int N * t) a) 100) t = of_int k * t" "0 \<le> k" "k \<le> 2 * N"
proof -
  let ?T = "of_int N * t" and ?v = "ddiv (dmul (of_int N * t) a) 100"
  have sc: "small_count m" if "0 \<le> m" "m \<le> 200 * N" for m using that N(2) by (simp add: small_count_def)
  have T: "0 \<le> ?T" using grid_step_pos [OF t] N by simp
  have t0: "0 < t" using t by simp
  have "?T * a \<le> of_int (200 * N) * t" using mult_left_mono [OF a(2) T] by (simp add: ac_simps)
  then have "dmul ?T a \<le> of_int (200 * N) * t" using t N by (intro op_le_exact fits_grid sc) simp_all
  then have "dmul ?T a / 100 \<le> of_int (2 * N) * t" by simp
  then have v: "?v \<le> of_int (2 * N) * t" using t N by (intro op_le_exact fits_grid sc) simp_all
  then have "?v / t \<le> of_int (2 * N)" using t0 by (simp only: pos_divide_le_eq)
  then have d: "ddiv ?v t \<le> of_int (2 * N)" using N by (intro op_le_exact fits_count sc) simp_all
  have m0: "0 \<le> dmul ?T a" using mult_nonneg_nonneg [OF T less_imp_le [OF a(1)]] by (intro op_ge_exact) simp_all
  then have v0: "0 \<le> ?v" by (intro op_ge_exact) simp_all
  have d0: "0 \<le> ddiv ?v t" using divide_nonneg_pos [OF v0 t0] by (intro op_ge_exact) simp_all
  let ?k = "\<lfloor>ddiv ?v t\<rfloor>"
  have k: "0 \<le> ?k" "?k \<le> 2 * N" using d d0 by (simp_all add: floor_le_iff)
  have "plan_round_down ?v t = dmul (of_int ?k) t" by (simp add: plan_round_down_def to_integral_floor_def)
  also have "\<dots> = of_int ?k * t" using t k N by (intro dmul_grid sc) simp_all
  finally show ?thesis using k by (rule that)
qed

lemma plan_stages_grid:
  assumes "grid_step t" "0 \<le> N" "N < 10 ^ 12" "\<And>a. a \<in> set as \<Longrightarrow> 0 < a \<and> a \<le> 200"
    and "\<bar>R\<bar> + int (length as) * (2 * N) < 10 ^ 21"
    and "plan_stages (of_int N * t) t minimum (of_int R * t) as = Inr (res, left)" "as \<noteq> []"
  shows "\<exists>ks. res = map (\<lambda>k. of_int k * t) ks \<and> length ks = length as
    \<and> left = of_int (R - sum_list ks) * t \<and> (\<forall>k\<in>set ks. minimum \<le> of_int k * t)"
  using assms(4-)
proof (induction as arbitrary: R res)
  case (Cons a as)
  define p where "p = (if as = [] then of_int R * t else plan_round_down (ddiv (dmul (of_int N * t) a) 100) t)"
  have a: "0 < a" "a \<le> 200" using Cons.prems(1) by simp_all
  have "\<exists>k. p = of_int k * t \<and> (as \<noteq> [] \<longrightarrow> 0 \<le> k \<and> k \<le> 2 * N) \<and> (as = [] \<longrightarrow> k = R)"
  proof (cases "as = []")
    case False
    with round_down_stage [OF assms(1-3) a] show ?thesis unfolding p_def by metis
  qed (auto simp: p_def)
  then obtain k where k: "p = of_int k * t" "as \<noteq> [] \<Longrightarrow> 0 \<le> k \<and> k \<le> 2 * N" "as = [] \<Longrightarrow> k = R"
    by blast
  have "\<exists>rs. plan_stages (of_int N * t) t minimum (dsub (of_int R * t) p) as = Inr (rs, left)
      \<and> res = p # rs \<and> minimum \<le> p"
    using Cons.prems(3) by (auto simp: Let_def rbind_Inr_iff p_def [symmetric] split: if_splits)
  then obtain rs where rs: "plan_stages (of_int N * t) t minimum (dsub (of_int R * t) p) as = Inr (rs, left)"
    and res: "res = p # rs" and le: "minimum \<le> p" by blast
  show ?case
  proof (cases "as = []")
    case True
    have "dsub (of_int R * t) p = of_int (R - k) * t" unfolding k(1)
      using True k(3) assms(1) by (intro dsub_grid) (simp_all add: small_count_def)
    then show ?thesis using True rs res k le by (intro exI [of _ "[k]"]) simp
  next
    case False
    have b: "\<bar>R - k\<bar> + int (length as) * (2 * N) < 10 ^ 21"
    proof -
      have "\<bar>R - k\<bar> \<le> \<bar>R\<bar> + 2 * N" using k(2) [OF False] by arith
      then show ?thesis using Cons.prems(2) by (simp add: distrib_right)
    qed
    moreover have "0 \<le> int (length as) * (2 * N)" using assms(2) by simp
    ultimately have "small_count (R - k)" unfolding small_count_def by linarith
    then have "dsub (of_int R * t) p = of_int (R - k) * t" unfolding k(1) using assms(1) by (intro dsub_grid)
    with rs have "plan_stages (of_int N * t) t minimum (of_int (R - k) * t) as = Inr (rs, left)" by simp
    from Cons.IH [OF _ b this False] Cons.prems(1) obtain ks where
      "rs = map (\<lambda>k. of_int k * t) ks" "length ks = length as" "left = of_int (R - k - sum_list ks) * t"
      "\<forall>k\<in>set ks. minimum \<le> of_int k * t" by auto
    then show ?thesis using res k(1) le by (intro exI [of _ "k # ks"]) (simp add: diff_diff_eq)
  qed
qed simp


lemma plan_quantities_grid:
  assumes "plan_quantities quantity quantity_step minimum_quantity as = Inr (Some qs)"
    and "positive_value quantity = Some (of_int N * t)" "positive_value quantity_step = Some t"
    and "positive_value minimum_quantity = Some m"
    and "grid_step t" "N < 10 ^ 12" "as \<noteq> []" "length as \<le> 5" "dsum as = 100" "\<And>a. a \<in> set as \<Longrightarrow> 0 < a"
  shows "\<exists>ks. qs = map (\<lambda>k. of_int k * t) ks \<and> length ks = length as \<and> sum_list ks = N
    \<and> (\<forall>k\<in>set ks. m \<le> of_int k * t \<and> 0 < k \<and> small_count k)"
proof -
  have t0: "0 < t" using assms(5) by simp
  have "0 < of_int N * t" using assms(2) by (rule positive_value_pos)
  then have N: "0 < N" using t0 by (simp add: zero_less_mult_iff)
  from assms(1-4) have st: "plan_stages (of_int N * t) t m (of_int N * t) as = Inr (qs, 0)"
    by (auto simp: plan_quantities_def rbind_Inr_iff plan_positive_def split: if_splits)
  have a: "a \<in> set as \<Longrightarrow> 0 < a \<and> a \<le> 200" for a
    using assms(9,10) by (auto intro: allocation_le)
  have "\<bar>N\<bar> + int (length as) * (2 * N) \<le> 11 * N" using N assms(8) by simp
  then have b: "\<bar>N\<bar> + int (length as) * (2 * N) < 10 ^ 21" using assms(6) by simp
  have N0: "0 \<le> N" using N by simp
  from plan_stages_grid [OF assms(5) N0 assms(6) a b st assms(7)] obtain ks where
    ks: "qs = map (\<lambda>k. of_int k * t) ks" "length ks = length as" "0 = of_int (N - sum_list ks) * t"
      "\<forall>k\<in>set ks. m \<le> of_int k * t" by blast
  have sum: "sum_list ks = N" using ks(3) t0 by simp
  have "0 < m" using assms(4) by (rule positive_value_pos)
  then have pos: "k \<in> set ks \<Longrightarrow> 0 < k" for k
    using ks(4) t0 by (metis less_le_trans of_int_0_less_iff zero_less_mult_pos2)
  have "small_count k" if "k \<in> set ks" for k
  proof -
    have "k \<le> sum_list ks" using that pos by (intro member_le_sum_list) (auto simp: less_imp_le)
    then show ?thesis using sum pos [OF that] assms(6) by (simp add: small_count_def)
  qed
  with ks sum pos show ?thesis by blast
qed

text \<open>What a successful plan consists of.\<close>

lemma build_plan_Inr:
  assumes "build_take_profit_plan prices side alloc quantity quantity_step minimum_quantity = Inr legs"
  obtains ps as qs where "is_long_or_short (norm_side side)" "plan_prices prices = Inr ps"
    "plan_allocations alloc (length ps) = Inr as"
    "plan_quantities quantity quantity_step minimum_quantity as = Inr qs"
    "legs = map (plan_leg qs) (enumerate 0 (zip (py_sorted (\<lambda>p. p) (norm_side side = ''short'') ps) as))"
  using assms by (auto simp: build_take_profit_plan_def rbind_Inr_iff)

lemma build_plan_length:
  assumes "build_take_profit_plan prices side alloc quantity quantity_step minimum_quantity = Inr legs"
  shows "length legs = length prices"
proof -
  from assms obtain ps as qs where ps: "plan_prices prices = Inr ps" and as: "plan_allocations alloc (length ps) = Inr as"
    and legs: "legs = map (plan_leg qs) (enumerate 0 (zip (py_sorted (\<lambda>p. p) (norm_side side = ''short'') ps) as))"
    by (elim build_plan_Inr) (rule that)
  note P = plan_prices_Inr [OF ps]
  have "0 < length ps" "length ps \<le> 5" using P(1,2) by simp_all
  from plan_allocations_Inr(1) [OF as this] P(5) show ?thesis by (simp add: legs)
qed

lemma build_plan_quantities:
  assumes "build_take_profit_plan prices side alloc quantity quantity_step minimum_quantity = Inr legs"
    and "positive_value quantity = Some (of_int N * t)" and "positive_value quantity_step = Some t"
    and "positive_value minimum_quantity = Some m" and "grid_step t" and "N < 10 ^ 12"
  shows "\<exists>ks. length ks = length legs \<and> sum_list ks = N
    \<and> (\<forall>i<length legs. \<exists>q. tp_quantity (legs ! i) = Some q \<and> m \<le> of_int (ks ! i) * t
         \<and> finite_decimal (VStr q) = Some (of_int (ks ! i) * t))"
proof -
  from assms(1) obtain ps as qs where ps: "plan_prices prices = Inr ps"
    and as: "plan_allocations alloc (length ps) = Inr as"
    and qs: "plan_quantities quantity quantity_step minimum_quantity as = Inr qs"
    and legs: "legs = map (plan_leg qs) (enumerate 0 (zip (py_sorted (\<lambda>p. p) (norm_side side = ''short'') ps) as))"
    by (elim build_plan_Inr) (rule that)
  note P = plan_prices_Inr [OF ps]
  have n: "0 < length ps" "length ps \<le> 5" using P(1,2) by simp_all
  note A = plan_allocations_Inr [OF as n]
  have none: "positive_value VNone = None" by code_simp
  obtain res where res: "qs = Some res" using qs assms(2-4) none
    by (cases qs) (auto simp: plan_quantities_def rbind_Inr_iff split: if_splits)
  have ne: "as \<noteq> []" "length as \<le> 5" using A(1) n by auto
  from plan_quantities_grid [OF qs [unfolded res] assms(2-6) ne A(2,3)] obtain ks where
    ks: "res = map (\<lambda>k. of_int k * t) ks" "length ks = length as" "sum_list ks = N"
      "\<forall>k\<in>set ks. m \<le> of_int k * t \<and> 0 < k \<and> small_count k" by blast
  have len: "length legs = length ks" using ks(2) A(1) by (simp add: legs)
  have "\<exists>q. tp_quantity (legs ! i) = Some q \<and> m \<le> of_int (ks ! i) * t
      \<and> finite_decimal (VStr q) = Some (of_int (ks ! i) * t)" if i: "i < length legs" for i
  proof -
    have "ks ! i \<in> set ks" using i len by simp
    with ks(4) have "m \<le> of_int (ks ! i) * t" "small_count (ks ! i)" by blast+
    moreover have "i < length ps" "i < length ks" using i len A(1) by (simp_all add: legs)
    then have "tp_quantity (legs ! i) = Some (decimal_text (of_int (ks ! i) * t))"
      using A(1) ks(1) by (simp add: legs res nth_enumerate_eq split: prod.split)
    ultimately show ?thesis using dec_text_grid [OF assms(5)] by simp
  qed
  then show ?thesis using len ks(3) by auto
qed

section \<open>Properties\<close>

text \<open>
  A plan has one leg per requested price, in strict profit order (rising for a
  long, falling for a short) and with no price lost, and its allocations are positive and sum
  to 100: the configured ones when there is one per target and they sum to 100, otherwise the
  default split for that many targets.
\<close>

theorem take_profit_plan_ordered:
  assumes "build_take_profit_plan prices side alloc quantity quantity_step minimum_quantity = Inr legs"
  shows "\<exists>ps as. 1 \<le> length legs \<and> length legs \<le> 5 \<and> length legs = length prices
    \<and> map tp_price legs = map decimal_text ps \<and> map tp_allocation_pct legs = map decimal_text as
    \<and> sorted_wrt (\<lambda>a b. if norm_side side = ''long'' then a < b else b < a) ps
    \<and> (\<forall>p. p \<in> set ps \<longleftrightarrow> (\<exists>v\<in>set prices. positive_value v = Some p))
    \<and> dsum as = 100 \<and> (\<forall>a\<in>set as. 0 < a)
    \<and> (as = default_allocations (length prices)
       \<or> mapM (\<lambda>v. plan_positive v ''take-profit allocation'') (raw_allocations alloc) = Inr as)"
proof -
  from assms obtain ps as qs where side: "is_long_or_short (norm_side side)" and ps: "plan_prices prices = Inr ps"
    and as: "plan_allocations alloc (length ps) = Inr as" and legs: "legs = map (plan_leg qs) (enumerate 0 (zip (py_sorted (\<lambda>p. p) (norm_side side = ''short'') ps) as))"
    by (elim build_plan_Inr) (rule that)
  note P = plan_prices_Inr [OF ps]
  have n: "0 < length ps" "length ps \<le> 5" using P(1,2) by simp_all
  note A = plan_allocations_Inr [OF as n]
  let ?o = "py_sorted (\<lambda>p. p) (norm_side side = ''short'') ps"
  have len: "length ?o = length as" using A(1) by simp
  have strict: "sorted_wrt (\<lambda>a b. if norm_side side = ''long'' then a < b else b < a) ?o"
    unfolding sorted_wrt_iff_nth_less
  proof (intro allI impI)
    fix i j assume ij: "i < j" "j < length ?o"
    then have "dir_le (norm_side side = ''short'') (?o ! i) (?o ! j)"
      using py_sorted_nth [OF ij(1), of ps _ "\<lambda>p. p"] by simp
    moreover have "?o ! i \<noteq> ?o ! j" using ij P(3) by (simp add: nth_eq_iff_index_eq)
    ultimately show "if norm_side side = ''long'' then ?o ! i < ?o ! j else ?o ! j < ?o ! i"
      using side by (auto simp: dir_le_def)
  qed
  have "map tp_price legs = map decimal_text ?o" "map tp_allocation_pct legs = map decimal_text as"
    using len by (auto simp: legs intro!: nth_equalityI simp: nth_enumerate_eq split: prod.split)
  moreover have "length legs = length prices" "length prices = length ps" using len P(5) A(1) by (simp_all add: legs)
  moreover have "as = default_allocations (length ps)
      \<or> mapM (\<lambda>v. plan_positive v ''take-profit allocation'') (raw_allocations alloc) = Inr as"
    using as by (auto simp: plan_allocations_def rbind_Inr_iff split: if_splits)
  ultimately show ?thesis using strict P(6) A n
    by - (rule exI [of _ ?o], rule exI [of _ as], auto simp: Suc_le_eq)
qed

theorem take_profit_plan_ordered_witness:
  "\<exists>legs. build_take_profit_plan [VInt 90, VInt 80] (VStr ''Short'') (AllocationText ''60/40'') VNone VNone VNone
      = Inr legs \<and> length legs = 2"
proof -
  have b: "build_take_profit_plan [VInt 90, VInt 80] (VStr ''Short'') (AllocationText ''60/40'') VNone VNone VNone
    = Inr [\<lparr>tp_price = ''90'', tp_allocation_pct = ''60'', tp_quantity = None\<rparr>,
           \<lparr>tp_price = ''80'', tp_allocation_pct = ''40'', tp_quantity = None\<rparr>]" by code_simp
  from take_profit_plan_ordered [OF b] b show ?thesis by auto
qed

text \<open>
  Claim C33: with a position on the quantity step, the stages' quantities are whole numbers of
  steps, each at least the minimum, and they sum to the position exactly: nothing is left
  unprotected and nothing is sold twice.
\<close>

theorem take_profit_quantities_sum:
  assumes "build_take_profit_plan prices side alloc quantity quantity_step minimum_quantity = Inr legs"
    and "positive_value quantity = Some (of_int N * t)" and "positive_value quantity_step = Some t"
    and "positive_value minimum_quantity = Some m" and "grid_step t" and "N < 10 ^ 12"
  shows "\<exists>ks. length ks = length legs \<and> sum_list ks = N
    \<and> (\<forall>i<length legs. \<exists>q. tp_quantity (legs ! i) = Some q \<and> m \<le> of_int (ks ! i) * t
         \<and> finite_decimal (VStr q) = Some (of_int (ks ! i) * t))"
  using assms by (rule build_plan_quantities)

theorem take_profit_quantities_sum_witness:
  "\<exists>legs ks. build_take_profit_plan [VInt 110, VInt 120, VInt 130] (VStr ''long'') NoAllocations (VInt 11) (VInt 1) (VInt 1)
      = Inr legs \<and> length ks = length legs \<and> sum_list ks = (11::int)"
proof -
  have b: "build_take_profit_plan [VInt 110, VInt 120, VInt 130] (VStr ''long'') NoAllocations (VInt 11) (VInt 1) (VInt 1)
    = Inr [\<lparr>tp_price = ''110'', tp_allocation_pct = ''40'', tp_quantity = Some ''4''\<rparr>,
           \<lparr>tp_price = ''120'', tp_allocation_pct = ''30'', tp_quantity = Some ''3''\<rparr>,
           \<lparr>tp_price = ''130'', tp_allocation_pct = ''30'', tp_quantity = Some ''4''\<rparr>]" by code_simp
  have v: "positive_value (VInt 11) = Some (of_int 11 * 1)" "positive_value (VInt 1) = Some 1" by code_simp+
  from take_profit_quantities_sum [OF b v v(2) grid_step_1] b show ?thesis by auto
qed

end
