(* ===== verification/Mgmt_Sizing.thy ===== *)
theory Mgmt_Sizing
  imports Step_Grid
begin

text \<open>
  Management closes (\<open>strategy_management_sizing.py\<close>): the unresolved close delta towards an
  immutable target, the two-round policy, and the allocation of one aggregate close over
  several positions in whole contract steps.
\<close>

section \<open>The close delta\<close>

definition target_remaining_close_delta ::
    "pyval \<Rightarrow> pyval \<Rightarrow> pyval \<Rightarrow> pyval \<Rightarrow> pyval \<Rightarrow> string result" where
  "target_remaining_close_delta trusted_start_size target_remaining_size current_size
      quantity_step min_quantity =
     (case (finite_decimal trusted_start_size, finite_decimal target_remaining_size,
            finite_decimal current_size, finite_decimal quantity_step, finite_decimal min_quantity) of
        (Some trusted, Some target, Some current, Some step, Some minimum) \<Rightarrow>
          if trusted \<le> 0 \<or> target < 0 \<or> target > trusted \<or> current \<le> 0 \<or> step \<le> 0 \<or> minimum \<le> 0
          then Inl (ManagementSizingError ''management_size_invalid'')
          else if current > trusted
          then Inl (ManagementSizingError ''position_size_increased_after_snapshot'')
          else if current < target
          then Inl (ManagementSizingError ''position_below_target_remaining'')
          else
            let delta = dsub current target
            in if delta = 0 then Inr ''0''
               else if delta < minimum \<or> ddiv delta step \<noteq> to_integral_value (ddiv delta step)
               then Inl (ManagementSizingError ''target_remaining_delta_not_executable'')
               else Inr (decimal_text delta)
      | _ \<Rightarrow> Inl (ManagementSizingError ''management_size_invalid''))"

definition entry_revision_risk_reduction_delta ::
    "pyval \<Rightarrow> pyval \<Rightarrow> pyval \<Rightarrow> pyval \<Rightarrow> string result" where
  "entry_revision_risk_reduction_delta current_size target_size quantity_step min_quantity =
     target_remaining_close_delta current_size target_size current_size quantity_step min_quantity"

section \<open>The two-round policy\<close>

definition effective_action :: "int \<Rightarrow> rat option \<Rightarrow> (string \<times> rat) result" where
  "effective_action round_before fraction =
     (if round_before = 0
      then Inr (''partial_close'', case fraction of None \<Rightarrow> 1 / 2 | Some f \<Rightarrow> f)
      else if round_before = 1 then Inr (''full_close'', 1)
      else Inl (ManagementSizingError ''partial_round_invalid''))"

section \<open>Apportioning the extra steps\<close>

definition sizing_error :: "string \<Rightarrow> 'a result" where
  "sizing_error reason = Inl (ManagementSizingError reason)"

text \<open>\<open>for index in indexes: values[index] = f(index)\<close>.\<close>

fun set_each :: "(nat \<Rightarrow> 'a) \<Rightarrow> nat list \<Rightarrow> 'a list \<Rightarrow> 'a list" where
  "set_each f [] values = values"
| "set_each f (i # indexes) values = set_each f indexes (values[i := f i])"

definition tentative_quota :: "rat \<Rightarrow> rat list \<Rightarrow> rat \<Rightarrow> nat \<Rightarrow> rat" where
  "tentative_quota remaining weights total_weight i = ddiv (dmul remaining (weights ! i)) total_weight"

definition quota_saturated :: "rat \<Rightarrow> rat list \<Rightarrow> rat \<Rightarrow> rat list \<Rightarrow> nat \<Rightarrow> bool" where
  "quota_saturated remaining weights total_weight capacities i =
     (tentative_quota remaining weights total_weight i > capacities ! i)"

definition minus_capacity :: "rat list \<Rightarrow> rat \<Rightarrow> nat \<Rightarrow> rat" where
  "minus_capacity capacities remaining i = dsub remaining (capacities ! i)"

text \<open>The passes of \<open>_bulk_extra_step_quotas\<close>; the fuel is the code's own \<open>range(len(capacities))\<close>.\<close>

fun bulk_passes ::
    "nat \<Rightarrow> rat list \<Rightarrow> rat list \<Rightarrow> rat list \<Rightarrow> nat list \<Rightarrow> rat \<Rightarrow> (rat list \<times> rat) result" where
  "bulk_passes 0 capacities weights quotas active remaining = Inr (quotas, remaining)"
| "bulk_passes (Suc passes) capacities weights quotas active remaining =
     (if remaining = 0 then Inr (quotas, remaining)
      else if active = [] then sizing_error ''aggregate_target_not_allocatable''
      else
        let allocation_weights = (if dsum (map ((!) weights) active) > 0 then weights else capacities);
            total_weight = dsum (map ((!) allocation_weights) active);
            saturated = filter (quota_saturated remaining allocation_weights total_weight capacities) active
        in if saturated = []
           then Inr (set_each (tentative_quota remaining allocation_weights total_weight) active quotas, 0)
           else bulk_passes passes capacities weights
                  (set_each ((!) capacities) saturated quotas)
                  (filter (\<lambda>i. i \<notin> set saturated) active)
                  (foldl (minus_capacity capacities) remaining saturated))"

definition bulk_extra_step_quotas :: "rat \<Rightarrow> rat list \<Rightarrow> rat list \<Rightarrow> rat list result" where
  "bulk_extra_step_quotas target capacities weights =
     rbind (bulk_passes (length capacities) capacities weights (map (\<lambda>_. 0) capacities)
              (filter (\<lambda>i. capacities ! i > 0) [0..<length capacities]) target)
       (\<lambda>(quotas, remaining).
          if remaining \<noteq> 0 then sizing_error ''aggregate_target_not_allocatable'' else Inr quotas)"

section \<open>Allocating a close\<close>

text \<open>\<open>x % 1\<close>, \<open>int(x)\<close> and \<open>xs[:r]\<close>, which counts from the end for a negative \<open>r\<close>.\<close>

definition rat_truncate :: "rat \<Rightarrow> int" where
  "rat_truncate x = (if 0 \<le> x then \<lfloor>x\<rfloor> else \<lceil>x\<rceil>)"

definition dec_mod_1 :: "rat \<Rightarrow> rat" where
  "dec_mod_1 x = dround (x - of_int (rat_truncate x))"

definition py_slice_to :: "int \<Rightarrow> 'a list \<Rightarrow> 'a list" where
  "py_slice_to r xs = (if 0 \<le> r then take (nat r) xs else take (length xs - nat (- r)) xs)"

definition sizing_inputs :: "pyval list \<Rightarrow> pyval \<Rightarrow> pyval \<Rightarrow> pyval \<Rightarrow> (rat list \<times> rat \<times> rat \<times> rat) option" where
  "sizing_inputs sizes fraction quantity_step min_quantity =
     (let current = List.map_filter positive_value sizes in
      if sizes = [] \<or> length current \<noteq> length sizes then None
      else case (finite_decimal fraction, positive_value quantity_step, positive_value min_quantity) of
        (Some close_fraction, Some step, Some minimum) \<Rightarrow>
          if 0 < close_fraction \<and> close_fraction \<le> 1
          then Some (current, close_fraction, step, minimum) else None
      | _ \<Rightarrow> None)"

definition planned_steps_of :: "rat \<Rightarrow> rat \<Rightarrow> rat" where
  "planned_steps_of minimum_steps extra = dadd minimum_steps (to_integral_floor extra)"

definition remainder_rank :: "rat list \<Rightarrow> nat \<Rightarrow> rat \<times> nat" where
  "remainder_rank exact_extras i = (- dec_mod_1 (exact_extras ! i), i)"

fun bump_each :: "nat list \<Rightarrow> rat list \<Rightarrow> rat list" where
  "bump_each [] planned = planned"
| "bump_each (i # indexes) planned = bump_each indexes (planned[i := dadd (planned ! i) 1])"

definition planned_step_counts ::
    "rat \<Rightarrow> rat \<Rightarrow> rat list \<Rightarrow> rat list \<Rightarrow> rat list result" where
  "planned_step_counts target_steps minimum_steps capacity_steps exact_extras =
     (let planned = map (planned_steps_of minimum_steps) exact_extras;
          remainder_steps = rat_truncate (dsub target_steps (dsum planned));
          ranked_indexes = py_sorted (remainder_rank exact_extras) False
            (filter (\<lambda>i. planned ! i < capacity_steps ! i) [0..<length capacity_steps])
      in if remainder_steps > int (length ranked_indexes)
         then sizing_error ''aggregate_target_not_allocatable''
         else Inr (bump_each (py_slice_to remainder_steps ranked_indexes) planned))"

definition capacity_of :: "rat \<Rightarrow> rat \<Rightarrow> rat" where
  "capacity_of step value = to_integral_floor (ddiv value step)"

definition step_misaligned :: "rat \<Rightarrow> rat \<Rightarrow> bool" where
  "step_misaligned step value \<longleftrightarrow> ddiv value step \<noteq> to_integral_value (ddiv value step)"

definition ideal_steps_of :: "rat \<Rightarrow> rat \<Rightarrow> rat \<Rightarrow> rat" where
  "ideal_steps_of close_fraction step value = ddiv (dmul value close_fraction) step"

definition extra_capacity_of :: "rat \<Rightarrow> rat \<Rightarrow> rat" where
  "extra_capacity_of minimum_steps capacity = dsub capacity minimum_steps"

definition deficit_weight_of :: "rat \<Rightarrow> rat \<Rightarrow> rat" where
  "deficit_weight_of minimum_steps ideal = max (dsub ideal minimum_steps) 0"

definition size_of_steps :: "rat \<Rightarrow> rat \<Rightarrow> rat" where
  "size_of_steps step step_count = dmul step_count step"

lemmas sizing_points = capacity_of_def [abs_def] step_misaligned_def [abs_def] ideal_steps_of_def [abs_def]
  extra_capacity_of_def [abs_def] deficit_weight_of_def [abs_def] size_of_steps_def [abs_def]
  planned_steps_of_def [abs_def] tentative_quota_def [abs_def] quota_saturated_def [abs_def]
  minus_capacity_def [abs_def]

definition allocate_close_sizes :: "pyval list \<Rightarrow> pyval \<Rightarrow> pyval \<Rightarrow> pyval \<Rightarrow> string list result" where
  "allocate_close_sizes sizes fraction quantity_step min_quantity =
     (case sizing_inputs sizes fraction quantity_step min_quantity of
        None \<Rightarrow> sizing_error ''management_size_invalid''
      | Some (current, close_fraction, step, minimum) \<Rightarrow>
     if close_fraction = 1 \<and> list_ex (step_misaligned step) current
     then sizing_error ''full_close_not_step_aligned''
     else
     let aggregate_target = dmul (dsum current) close_fraction;
         target_steps = to_integral_floor (ddiv aggregate_target step);
         minimum_steps = to_integral_ceiling (ddiv minimum step);
         capacity_steps = map (capacity_of step) current;
         count_minimum = dmul minimum_steps (of_nat (length current))
     in if target_steps \<le> 0 \<or> target_steps < count_minimum \<or> target_steps > dsum capacity_steps
           \<or> list_ex (\<lambda>capacity. capacity < minimum_steps) capacity_steps
        then sizing_error ''aggregate_target_below_minimum''
        else
     let ideal_step_counts = map (ideal_steps_of close_fraction step) current;
         extra_capacities = map (extra_capacity_of minimum_steps) capacity_steps;
         deficit_weights = map (deficit_weight_of minimum_steps) ideal_step_counts
     in rbind (bulk_extra_step_quotas (dsub target_steps count_minimum) extra_capacities deficit_weights)
          (\<lambda>exact_extras.
        rbind (planned_step_counts target_steps minimum_steps capacity_steps exact_extras)
          (\<lambda>planned_steps.
        let planned = map (size_of_steps step) planned_steps
        in if list_ex (\<lambda>value. value < minimum) planned
              \<or> list_ex (\<lambda>(value, size). value > size) (zip planned current)
              \<or> dsum planned > aggregate_target
           then sizing_error ''position_close_size_unsafe''
           else Inr (map decimal_text planned))))"

section \<open>Lemmas\<close>

lemma sizing_error_Inr [simp]: "sizing_error r \<noteq> Inr x"
  by (simp add: sizing_error_def)

lemma length_set_each [simp]: "length (set_each f is qs) = length qs"
  by (induction f "is" qs rule: set_each.induct) simp_all

lemma length_bump_each [simp]: "length (bump_each is qs) = length qs"
  by (induction "is" qs rule: bump_each.induct) simp_all

lemma nth_set_each:
  "j < length qs \<Longrightarrow> set_each f is qs ! j = (if j \<in> set is then f j else qs ! j)"
  by (induction f "is" qs rule: set_each.induct) (auto simp: nth_list_update)

lemma length_bulk_passes:
  "bulk_passes n cs ws qs act r = Inr (qs', r') \<Longrightarrow> length qs' = length qs"
proof (induction n arbitrary: qs act r)
  case (Suc n)
  from Suc.prems show ?case
    by (auto simp: Let_def split: if_splits dest: Suc.IH)
qed simp

lemma length_bulk_extra: "bulk_extra_step_quotas t cs ws = Inr qs \<Longrightarrow> length qs = length cs"
  by (auto simp: bulk_extra_step_quotas_def rbind_Inr_iff dest: length_bulk_passes split: if_splits)

lemma length_planned_steps:
  "planned_step_counts ts ms cs xs = Inr ps \<Longrightarrow> length ps = length xs"
  by (auto simp: planned_step_counts_def Let_def split: if_splits)

lemma map_filter_Some_all:
  "length (List.map_filter f xs) = length xs \<Longrightarrow> list_all2 (\<lambda>x y. f x = Some y) xs (List.map_filter f xs)"
proof (induction xs)
  case (Cons x xs)
  have "length (List.map_filter f xs) \<le> length xs" by (simp add: List.map_filter_def)
  with Cons show ?case by (auto simp: List.map_filter_simps split: option.splits)
qed (simp add: List.map_filter_simps)

lemma sizing_inputs_Some:
  "sizing_inputs sizes fraction step minimum = Some (current, f, s, m) \<Longrightarrow>
    sizes \<noteq> [] \<and> list_all2 (\<lambda>v x. positive_value v = Some x) sizes current \<and> finite_decimal fraction = Some f
    \<and> 0 < f \<and> f \<le> 1 \<and> positive_value step = Some s \<and> positive_value minimum = Some m"
  by (auto simp: sizing_inputs_def Let_def dest: map_filter_Some_all split: option.splits if_splits)

text \<open>What a successful allocation returned has passed the final check.\<close>

lemma allocate_close_sizes_Inr:
  assumes "allocate_close_sizes sizes fraction quantity_step min_quantity = Inr texts"
  obtains current f s m planned where "sizing_inputs sizes fraction quantity_step min_quantity = Some (current, f, s, m)"
    "texts = map decimal_text planned" "length planned = length current"
    "\<And>v. v \<in> set planned \<Longrightarrow> m \<le> v \<and> (\<exists>k. v = dmul k s)"
    "\<And>i. i < length current \<Longrightarrow> planned ! i \<le> current ! i"
    "dsum planned \<le> dmul (dsum current) f"
proof -
  obtain current f s m where inp: "sizing_inputs sizes fraction quantity_step min_quantity = Some (current, f, s, m)"
    using assms by (auto simp: allocate_close_sizes_def split: option.splits)
  define ts where "ts = to_integral_floor (ddiv (dmul (dsum current) f) s)"
  define ms where "ms = to_integral_ceiling (ddiv m s)"
  define cs where "cs = map (\<lambda>value. to_integral_floor (ddiv value s)) current"
  define ec where "ec = map (\<lambda>capacity. dsub capacity ms) cs"
  define dw where "dw = map (\<lambda>ideal. max (dsub ideal ms) 0) (map (\<lambda>value. ddiv (dmul value f) s) current)"
  from assms inp obtain xs ps where
    xs: "bulk_extra_step_quotas (dsub ts (dmul ms (of_nat (length current)))) ec dw = Inr xs"
    and ps: "planned_step_counts ts ms cs xs = Inr ps"
    and ok: "\<not> (list_ex (\<lambda>value. value < m) (map (\<lambda>c. dmul c s) ps)
          \<or> list_ex (\<lambda>(value, size). value > size) (zip (map (\<lambda>c. dmul c s) ps) current)
          \<or> dsum (map (\<lambda>c. dmul c s) ps) > dmul (dsum current) f)"
    and texts: "texts = map decimal_text (map (\<lambda>c. dmul c s) ps)"
    unfolding ts_def ms_def cs_def ec_def dw_def allocate_close_sizes_def Let_def sizing_points
    by (auto simp: rbind_Inr_iff simp del: list.map_comp map_map split: if_splits)
  have len: "length ps = length current"
    using length_planned_steps [OF ps] length_bulk_extra [OF xs] by (simp add: ec_def cs_def)
  show ?thesis
  proof (rule that [OF inp texts])
    show "length (map (\<lambda>c. dmul c s) ps) = length current" using len by simp
    show "v \<in> set (map (\<lambda>c. dmul c s) ps) \<Longrightarrow> m \<le> v \<and> (\<exists>k. v = dmul k s)" for v
      using ok by (auto simp: list_ex_iff not_less)
    show "map (\<lambda>c. dmul c s) ps ! i \<le> current ! i" if "i < length current" for i
    proof -
      have "(map (\<lambda>c. dmul c s) ps ! i, current ! i) \<in> set (zip (map (\<lambda>c. dmul c s) ps) current)"
        using that len by (auto simp: set_zip intro!: exI [of _ i])
      moreover have "\<not> list_ex (\<lambda>(value, size). value > size) (zip (map (\<lambda>c. dmul c s) ps) current)"
        using ok by blast
      ultimately show ?thesis unfolding list_ex_iff by (metis (mono_tags, lifting) case_prod_conv not_less)
    qed
    show "dsum (map (\<lambda>c. dmul c s) ps) \<le> dmul (dsum current) f" using ok by simp
  qed
qed

section \<open>A full close\<close>

text \<open>
  Sizes on the step grid: \<open>ns\<close> counts steps, \<open>k\<close> is the minimum in steps.  Everything the
  apportioning computes is then exact.
\<close>

lemma bulk_full:
  assumes ns: "\<And>n. n \<in> set ns \<Longrightarrow> 0 \<le> n" and small: "sum_list ns < 10 ^ 10"
  shows "bulk_extra_step_quotas (of_int (sum_list ns)) (map of_int ns) (map of_int ns) = Inr (map of_int ns)"
proof (cases "sum_list ns = 0")
  case True
  then have "\<forall>n\<in>set ns. n = 0" using ns by (simp add: sum_list_nonneg_eq_0_iff)
  then have "map (\<lambda>_. 0) (map rat_of_int ns) = map rat_of_int ns" by auto
  moreover have "bulk_passes p cs ws qs act 0 = Inr (qs, 0)" for p cs ws qs act by (cases p) simp_all
  ultimately show ?thesis using True by (simp add: bulk_extra_step_quotas_def)
next
  case False
  let ?cs = "map rat_of_int ns" and ?S = "sum_list ns"
  let ?act = "filter (\<lambda>i. ?cs ! i > 0) [0..<length ?cs]"
  have S: "0 < ?S" using False ns sum_list_nonneg [of ns] by fastforce
  have act: "i \<in> set ?act \<longleftrightarrow> i < length ns \<and> 0 < ns ! i" for i by auto
  have maps: "map ((!) ?cs) ?act = map of_int (filter (\<lambda>n. 0 < n) ns)"
  proof -
    have "map ((!) ns) (filter (\<lambda>i. 0 < ns ! i) [0..<length ns]) = filter (\<lambda>n. 0 < n) (map ((!) ns) [0..<length ns])"
      by (simp add: filter_map comp_def)
    then have "map ((!) ns) (filter (\<lambda>i. 0 < ns ! i) [0..<length ns]) = filter (\<lambda>n. 0 < n) ns"
      by (simp only: map_nth)
    moreover have "?act = filter (\<lambda>i. 0 < ns ! i) [0..<length ns]" by (intro filter_cong) auto
    moreover have "map ((!) ?cs) (filter (\<lambda>i. 0 < ns ! i) [0..<length ns])
        = map of_int (map ((!) ns) (filter (\<lambda>i. 0 < ns ! i) [0..<length ns]))" by simp
    ultimately show ?thesis by simp
  qed
  have sumf: "sum_list (filter (\<lambda>n. 0 < n) ns) = ?S"
    using ns by (induction ns) (auto simp: order.order_iff_strict)
  have tw: "dsum (map ((!) ?cs) ?act) = of_int ?S"
    unfolding maps using S small sumf by (subst dsum_count) (auto simp: small_count_def)
  have le: "ns ! i \<le> ?S" if "i < length ns" for i
    using that ns by (intro member_le_sum_list) auto
  have tent: "ddiv (dmul (of_int ?S) (?cs ! i)) (of_int ?S) = ?cs ! i" if i: "i < length ns" for i
  proof -
    have n: "0 \<le> ns ! i" using i ns by simp
    have "?S * ns ! i \<le> 10 ^ 10 * 10 ^ 10" using S small le [OF i] n by (intro mult_mono) auto
    then have "small_count (?S * ns ! i)" using S n by (simp add: small_count_def)
    then have "dmul (of_int ?S) (?cs ! i) = of_int (?S * ns ! i)" using i by (simp add: dmul_count)
    moreover have "of_int (?S * ns ! i) / (of_int ?S :: rat) = of_int (ns ! i)" using S by simp
    moreover have "small_count (ns ! i)" using n le [OF i] small by (simp add: small_count_def)
    ultimately show ?thesis using i by (simp add: ddiv_def)
  qed
  obtain p where p: "length ?cs = Suc p" using S by (cases ns) auto
  have ne: "?act \<noteq> []"
  proof
    assume "?act = []"
    then have "map ((!) ?cs) ?act = []" by simp
    then have "dsum (map ((!) ?cs) ?act) = 0" by (simp only: dsum_def foldl_Nil)
    with tw S show False by simp
  qed
  have sat: "filter (\<lambda>i. ddiv (dmul (of_int ?S) (?cs ! i)) (of_int ?S) > ?cs ! i) ?act = []"
    using tent act by (auto simp only: filter_empty_conv less_irrefl)
  let ?f = "set_each (\<lambda>i. ddiv (dmul (of_int ?S) (?cs ! i)) (of_int ?S)) ?act (map (\<lambda>_. 0) ?cs)"
  have f: "?f = ?cs"
  proof (rule nth_equalityI)
    fix i assume "i < length ?f"
    then have i: "i < length ns" by simp
    have "?f ! i = (if i \<in> set ?act then ddiv (dmul (of_int ?S) (?cs ! i)) (of_int ?S) else map (\<lambda>_. 0) ?cs ! i)"
      using i by (intro nth_set_each) simp
    also have "\<dots> = ?cs ! i"
    proof (cases "i \<in> set ?act")
      case True
      then show ?thesis using tent [OF i] by (simp only: if_True)
    next
      case False
      then have "ns ! i = 0" using act i ns [of "ns ! i"] by (auto simp: order.order_iff_strict)
      then show ?thesis using False i by (simp only: if_False) simp
    qed
    finally show "?f ! i = ?cs ! i" .
  qed simp
  have B: "bulk_passes (Suc p) ?cs ?cs (map (\<lambda>_. 0) ?cs) ?act (of_int ?S) = Inr (?cs, 0)"
    unfolding bulk_passes.simps(2) Let_def if_cancel sizing_points tw sat f
    using ne False by (simp only: if_True if_False of_int_eq_0_iff simp_thms)
  have "bulk_passes (length ?cs) ?cs ?cs (map (\<lambda>_. 0) ?cs) ?act (of_int ?S) = Inr (?cs, 0)"
    by (subst p) (rule B)
  then show ?thesis by (simp only: bulk_extra_step_quotas_def) simp
qed


lemma planned_full:
  assumes "\<And>n. n \<in> set ns \<Longrightarrow> k \<le> n \<and> small_count n" "0 \<le> k"
    and "small_count (sum_list ns)"
  shows "planned_step_counts (of_int (sum_list ns)) (of_int k) (map of_int ns) (map of_int (map (\<lambda>n. n - k) ns))
    = Inr (map of_int ns)"
proof -
  let ?p = "map (\<lambda>extra. dadd (of_int k) (to_integral_floor extra)) (map of_int (map (\<lambda>n. n - k) ns))"
  have "dadd (of_int k) (to_integral_floor (of_int (n - k))) = of_int n" if "n \<in> set ns" for n
    using dadd_count [of k "n - k"] assms(1) [OF that] by (simp only: floor_count) simp
  then have p: "?p = map of_int ns" by simp
  have "n \<in> set ns \<Longrightarrow> 0 \<le> n" for n using assms(1,2) by force
  then have "dsum (map of_int ns) = of_int (sum_list ns)" using assms(3) by (intro dsum_count)
  then have r: "rat_truncate (dsub (of_int (sum_list ns)) (dsum ?p)) = 0"
    unfolding p by (simp add: dsub_def rat_truncate_def)
  have none: "filter (\<lambda>i. ?p ! i < map of_int ns ! i) [0..<length (map rat_of_int ns)] = []"
    unfolding p by (auto simp: filter_empty_conv)
  show ?thesis unfolding planned_step_counts_def Let_def sizing_points r none by (simp add: py_slice_to_def p [simplified])
qed

lemma allocate_full_close:
  assumes "sizing_inputs sizes fraction quantity_step min_quantity = Some (map (\<lambda>n. of_int n * t) ns, 1, t, m)"
    and t: "grid_step t" and small: "sum_list ns < 10 ^ 10" and ne: "ns \<noteq> []"
    and ns: "\<And>n. n \<in> set ns \<Longrightarrow> 0 < n \<and> m \<le> of_int n * t" and m: "0 < m"
  shows "allocate_close_sizes sizes fraction quantity_step min_quantity
    = Inr (map (\<lambda>n. decimal_text (of_int n * t)) ns)"
proof -
  let ?S = "sum_list ns" and ?cur = "map (\<lambda>n. of_int n * t) ns"
  have le: "n \<le> ?S" if "n \<in> set ns" for n
    using that ns by (intro member_le_sum_list) (auto simp: less_imp_le)
  have sc: "small_count n" if "n \<in> set ns" for n
    using le [OF that] ns [OF that] small by (simp add: small_count_def)
  have S: "0 \<le> ?S" using ns by (intro sum_list_nonneg) (auto simp: less_imp_le)
  have scS: "small_count ?S" using S small by (simp add: small_count_def)
  define k where "k = \<lceil>ddiv m t\<rceil>"
  have t0: "0 < t" using t by simp
  have k0: "0 < k" unfolding k_def using ddiv_pos [OF m t0] by simp
  have kn: "k \<le> n" if "n \<in> set ns" for n
  proof -
    have "m / t \<le> of_int n" using ns [OF that] t0 by (simp add: pos_divide_le_eq)
    then have "ddiv m t \<le> of_int n" using sc [OF that] by (intro op_le_exact fits_count)
    then show ?thesis by (simp add: k_def ceiling_le_iff)
  qed
  have kl: "k * int (length ns) \<le> ?S" using kn
  proof (induction ns)
    case (Cons a ns)
    have "k \<le> a" "k * int (length ns) \<le> sum_list ns" using Cons by auto
    then show ?case by (simp add: distrib_left)
  qed simp
  have sck: "small_count (k * int (length ns))" using kl k0 scS by (intro small_count_le [OF _ kl]) simp_all
  have q: "ddiv v t = of_int n" "to_integral_floor (ddiv v t) = of_int n" if "v = of_int n * t" "n \<in> set ns" for v n
    using that t sc by (simp_all add: ddiv_grid)
  have cap: "map (\<lambda>v. to_integral_floor (ddiv v t)) ?cur = map of_int ns" using q by simp
  have nn: "n \<in> set ns \<Longrightarrow> 0 \<le> n" for n using ns by (simp add: less_imp_le)
  have cur: "dsum ?cur = of_int ?S * t" using t scS nn by (rule dsum_grid)
  have capsum: "dsum (map of_int ns) = of_int ?S" using scS nn by (rule dsum_count)
  have agg: "dmul (dsum ?cur) 1 = of_int ?S * t" unfolding cur using t scS by (simp add: dmul_def)
  have ts: "to_integral_floor (ddiv (dmul (dsum ?cur) 1) t) = of_int ?S"
    unfolding agg using t scS by (simp add: ddiv_grid)
  have ms: "to_integral_ceiling (ddiv m t) = of_int k" by (simp add: to_integral_ceiling_def k_def)
  have cm: "dmul (of_int k) (of_nat (length ?cur)) = of_int (k * int (length ns))"
    using dmul_count [OF sck] by simp
  have nk: "dsub (of_int n) (of_int k) = of_int (n - k)" if n: "n \<in> set ns" for n
    using kn [OF n] k0 sc [OF n] by (intro dsub_count small_count_le [of "n - k" n]) simp_all
  then have ext: "map (\<lambda>c. dsub c (of_int k)) (map of_int ns) = map of_int (map (\<lambda>n. n - k) ns)" by simp
  have ideal: "map (\<lambda>v. ddiv (dmul v 1) t) ?cur = map of_int ns"
    using sc t by (auto simp: dmul_def ddiv_grid)
  have dft: "map (\<lambda>i. max (dsub i (of_int k)) 0) (map of_int ns) = map of_int (map (\<lambda>n. n - k) ns)"
  proof -
    have "max (dsub (of_int n) (of_int k)) 0 = of_int (n - k)" if n: "n \<in> set ns" for n
    proof -
      have "0 \<le> (of_int (n - k) :: rat)" using kn [OF n] by simp
      then show ?thesis by (simp only: nk [OF n] max_absorb1)
    qed
    then show ?thesis by simp
  qed
  have sumd: "sum_list (map (\<lambda>n. n - k) ns) = ?S - k * int (length ns)"
    by (induction ns) (simp_all add: distrib_left)
  have "0 \<le> k * int (length ns)" using k0 by simp
  then have small': "sum_list (map (\<lambda>n. n - k) ns) < 10 ^ 10" using small by (simp only: sumd)
  have tgt: "dsub (of_int ?S) (of_int (k * int (length ns))) = of_int (sum_list (map (\<lambda>n. n - k) ns))"
    unfolding sumd using kl S scS \<open>0 \<le> k * int (length ns)\<close>
    by (intro dsub_count small_count_le [of "?S - k * int (length ns)" ?S]) simp_all
  have bulk: "bulk_extra_step_quotas (of_int (sum_list (map (\<lambda>n. n - k) ns))) (map of_int (map (\<lambda>n. n - k) ns))
      (map of_int (map (\<lambda>n. n - k) ns)) = Inr (map of_int (map (\<lambda>n. n - k) ns))"
    using kn small' by (intro bulk_full) auto
  have plan: "planned_step_counts (of_int ?S) (of_int k) (map of_int ns) (map of_int (map (\<lambda>n. n - k) ns))
      = Inr (map of_int ns)"
    using kn sc k0 scS by (intro planned_full) auto
  have bk: "map (\<lambda>c. dmul c t) (map of_int ns) = ?cur" using t sc by (auto simp: dmul_grid)
  have al: "\<not> list_ex (\<lambda>v. ddiv v t \<noteq> to_integral_value (ddiv v t)) ?cur"
    using q by (auto simp: list_ex_iff)
  have "0 < ?S"
  proof -
    obtain n where "n \<in> set ns" using ne by (cases ns) auto
    with le ns show ?thesis by fastforce
  qed
  then have c: "\<not> (of_int ?S \<le> (0::rat) \<or> (of_int ?S::rat) < of_int (k * int (length ns)) \<or> of_int ?S > dsum (map of_int ns)
      \<or> list_ex (\<lambda>c. c < of_int k) (map rat_of_int ns))"
    using kl capsum kn by (auto simp: list_ex_iff not_less simp del: of_int_mult)
  have fin: "\<not> (list_ex (\<lambda>v. v < m) ?cur \<or> list_ex (\<lambda>(v, size). v > size) (zip ?cur ?cur)
      \<or> dsum ?cur > dmul (dsum ?cur) 1)"
    unfolding agg unfolding cur using ns by (auto simp: list_ex_iff zip_same_conv_map not_less)
  show ?thesis
    unfolding allocate_close_sizes_def assms(1) option.case prod.case Let_def sizing_points ts ms cap ideal ext dft cm tgt bulk
      sum.case plan bk
    using al c fin by (simp only: if_False simp_thms) simp
qed


lemma map_filter_list_all2:
  "list_all2 (\<lambda>x y. f x = Some y) xs ys \<Longrightarrow> List.map_filter f xs = ys"
  by (induction rule: list_all2_induct) (simp_all add: List.map_filter_simps)

section \<open>Properties\<close>

text \<open>
  Closing the returned delta lands exactly on the immutable target. A delta is
  returned only for a current size between the target and the trusted start size; it is zero
  or at least the minimum, subtracting it leaves the target, and asking again at the target
  asks for nothing more, so a retry after the fill never closes twice.
\<close>

theorem close_delta_lands_on_target:
  assumes "target_remaining_close_delta trusted target current step minimum = Inr delta"
    and "finite_decimal current = Some c" and "finite_decimal target = Some g" and "fits 28 (c - g)"
  shows "\<exists>d tr m. finite_decimal (VStr delta) = Some d \<and> c - d = g \<and> 0 \<le> d
    \<and> finite_decimal trusted = Some tr \<and> c \<le> tr \<and> finite_decimal minimum = Some m \<and> (d = 0 \<or> m \<le> d)
    \<and> (0 < g \<longrightarrow> target_remaining_close_delta trusted target (VDec (DFin (c - d))) step minimum = Inr ''0'')"
proof -
  have d: "dsub c g = c - g" using assms(4) by (simp add: dsub_def dround_fits)
  have z: "finite_decimal (VStr ''0'') = Some 0" and gg: "dsub g g = 0" by code_simp (simp add: dsub_def)
  from assms(1-3) obtain tr st m where v: "finite_decimal trusted = Some tr" "finite_decimal step = Some st"
      "finite_decimal minimum = Some m" "0 < tr" "0 \<le> g" "g \<le> tr" "0 < st" "0 < m" "c \<le> tr" "g \<le> c"
    and r: "(c = g \<and> delta = ''0'') \<or> (m \<le> c - g \<and> delta = decimal_text (c - g))"
    by (auto simp: target_remaining_close_delta_def d Let_def not_less not_le split: option.splits if_splits)
  have "finite_decimal (VStr delta) = Some (c - g)" using r z assms(4) by (auto simp: dround_fits)
  moreover have "target_remaining_close_delta trusted target (VDec (DFin g)) step minimum = Inr ''0''" if "0 < g"
    using that v assms(3) by (simp add: target_remaining_close_delta_def gg)
  ultimately show ?thesis using v r by (intro exI [of _ "c - g"] exI [of _ tr] exI [of _ m]) auto
qed

theorem close_delta_lands_on_target_witness:
  "\<exists>d. target_remaining_close_delta (VInt 10) (VInt 4) (VStr ''7'') (VStr ''0.5'') (VInt 1) = Inr ''3''
     \<and> finite_decimal (VStr ''3'') = Some d \<and> 7 - d = 4
     \<and> target_remaining_close_delta (VInt 10) (VInt 4) (VDec (DFin (7 - d))) (VStr ''0.5'') (VInt 1) = Inr ''0''"
proof -
  have r: "target_remaining_close_delta (VInt 10) (VInt 4) (VStr ''7'') (VStr ''0.5'') (VInt 1) = Inr ''3''"
    and v: "finite_decimal (VStr ''7'') = Some 7" "finite_decimal (VInt 4) = Some 4" by code_simp+
  have f: "fits 28 (7 - 4 :: rat)" using fits_of_int [of 3 28] by simp
  from close_delta_lands_on_target [OF r v f] r show ?thesis by auto
qed

text \<open>
  Claim C31: an allocation never closes more than it may. Every returned size is readable, at
  least the minimum and at most its own position's size, there is one per position, and the
  sum stays within the requested fraction of the aggregate.
\<close>

theorem allocate_close_sizes_safe:
  assumes "allocate_close_sizes sizes fraction quantity_step min_quantity = Inr texts"
  shows "\<exists>current f m vs. list_all2 (\<lambda>v x. positive_value v = Some x) sizes current
    \<and> finite_decimal fraction = Some f \<and> 0 < f \<and> f \<le> 1 \<and> positive_value min_quantity = Some m
    \<and> length texts = length sizes \<and> length vs = length sizes
    \<and> (\<forall>i<length sizes. finite_decimal (VStr (texts ! i)) = Some (vs ! i)
         \<and> m \<le> vs ! i \<and> vs ! i \<le> current ! i)
    \<and> dsum vs \<le> dmul (dsum current) f"
proof -
  from assms obtain current f s m planned where
    inp: "sizing_inputs sizes fraction quantity_step min_quantity = Some (current, f, s, m)"
    and texts: "texts = map decimal_text planned" and len: "length planned = length current"
    and v: "\<And>v. v \<in> set planned \<Longrightarrow> m \<le> v \<and> (\<exists>k. v = dmul k s)"
    and le: "\<And>i. i < length current \<Longrightarrow> planned ! i \<le> current ! i"
    and sum: "dsum planned \<le> dmul (dsum current) f"
    by (elim allocate_close_sizes_Inr) (rule that)
  note I = sizing_inputs_Some [OF inp]
  have l2: "length sizes = length current" using I by (auto dest: list_all2_lengthD)
  have p: "finite_decimal (VStr (texts ! i)) = Some (planned ! i) \<and> m \<le> planned ! i" if i: "i < length sizes" for i
  proof -
    have "planned ! i \<in> set planned" using i len l2 by simp
    with v obtain k where "m \<le> planned ! i" "planned ! i = dmul k s" by blast
    then show ?thesis using i len l2 by (simp add: texts dround_fits)
  qed
  have "length texts = length sizes" using len l2 by (simp add: texts)
  then show ?thesis using I p le sum len l2
    by (intro exI [of _ current] exI [of _ f] exI [of _ m] exI [of _ planned]) auto
qed

theorem allocate_close_sizes_safe_witness:
  "\<exists>texts vs. allocate_close_sizes [VInt 3, VInt 5] (VStr ''0.5'') (VInt 1) (VInt 1) = Inr texts
    \<and> length vs = 2 \<and> dsum vs \<le> 4"
proof -
  have r: "allocate_close_sizes [VInt 3, VInt 5] (VStr ''0.5'') (VInt 1) (VInt 1) = Inr [''2'', ''2'']"
    by code_simp
  have v: "positive_value (VInt 3) = Some 3" "positive_value (VInt 5) = Some 5"
    "finite_decimal (VStr ''0.5'') = Some (1 / 2)" "dmul (dsum [3, 5]) (1 / 2) = 4" by code_simp+
  from allocate_close_sizes_safe [OF r] obtain current f vs where
    c: "list_all2 (\<lambda>v x. positive_value v = Some x) [VInt 3, VInt 5] current"
      "finite_decimal (VStr ''0.5'') = Some f" "length vs = length [VInt 3, VInt 5]"
      "dsum vs \<le> dmul (dsum current) f" by blast
  have "current = [3, 5]" using c(1) by (auto simp: list_all2_Cons1 v)
  moreover have "f = 1 / 2" using c(2) v(3) by (simp only: option.inject)
  ultimately have "dsum vs \<le> 4" using c(4) v(4) by (simp only:)
  moreover have "length vs = 2" using c(3) by simp
  ultimately show ?thesis using r by blast
qed

text \<open>
  A full close closes everything. When every position is a whole number of steps
  and none is below the minimum, the allocation for fraction one is each position's own size,
  so no residue stays open.
\<close>

theorem full_close_closes_everything:
  assumes "list_all2 (\<lambda>v n. positive_value v = Some (of_int n * t)) sizes ns" and "ns \<noteq> []"
    and "finite_decimal fraction = Some 1" and "positive_value quantity_step = Some t"
    and "positive_value min_quantity = Some m" and "grid_step t" and "sum_list ns < 10 ^ 10"
    and "\<forall>n\<in>set ns. m \<le> of_int n * t"
  shows "\<exists>texts. allocate_close_sizes sizes fraction quantity_step min_quantity = Inr texts
    \<and> list_all2 (\<lambda>v text. finite_decimal (VStr text) = positive_value v) sizes texts"
proof -
  let ?cur = "map (\<lambda>n. of_int n * t) ns"
  have la: "list_all2 (\<lambda>v x. positive_value v = Some x) sizes ?cur"
    using assms(1) by (simp add: list_all2_map2)
  have t0: "0 < t" using assms(6) by simp
  have pos: "0 < n" if "n \<in> set ns" for n
  proof -
    obtain v where "positive_value v = Some (of_int n * t)"
      using assms(1) \<open>n \<in> set ns\<close> by (auto simp: list_all2_conv_all_nth in_set_conv_nth)
    then have "0 < of_int n * t" by (rule positive_value_pos)
    then show ?thesis using t0 by (simp add: zero_less_mult_iff)
  qed
  have "sizes \<noteq> []" using assms(1,2) by auto
  then have inp: "sizing_inputs sizes fraction quantity_step min_quantity = Some (?cur, 1, t, m)"
    using assms(3-5) map_filter_list_all2 [OF la] list_all2_lengthD [OF la] by (simp add: sizing_inputs_def)
  have m: "0 < m" using assms(5) by (rule positive_value_pos)
  have r: "allocate_close_sizes sizes fraction quantity_step min_quantity = Inr (map (\<lambda>n. decimal_text (of_int n * t)) ns)"
    using assms(8) pos by (intro allocate_full_close [OF inp assms(6,7,2) _ m]) auto
  have "small_count n" if "n \<in> set ns" for n
  proof -
    have "n \<le> sum_list ns" using that pos by (intro member_le_sum_list) (auto simp: less_imp_le)
    then show ?thesis using pos [OF that] assms(7) by (simp add: small_count_def)
  qed
  then have "list_all2 (\<lambda>v text. finite_decimal (VStr text) = positive_value v) sizes
      (map (\<lambda>n. decimal_text (of_int n * t)) ns)"
    using assms(1,6) by (auto simp: list_all2_conv_all_nth)
  with r show ?thesis by blast
qed

theorem full_close_closes_everything_witness:
  "\<exists>texts. allocate_close_sizes [VInt 3, VStr ''2''] (VInt 1) (VInt 1) (VInt 1) = Inr texts
    \<and> list_all2 (\<lambda>v text. finite_decimal (VStr text) = positive_value v) [VInt 3, VStr ''2''] texts"
proof -
  have v: "positive_value (VInt 3) = Some 3" "positive_value (VStr ''2'') = Some 2"
    "finite_decimal (VInt 1) = Some 1" "positive_value (VInt 1) = Some 1" by code_simp+
  have l: "list_all2 (\<lambda>v n. positive_value v = Some (of_int n * 1)) [VInt 3, VStr ''2''] [3, 2]"
    by (simp add: v)
  show ?thesis using full_close_closes_everything [OF l _ v(3,4,4) grid_step_1] by simp
qed

end
