(* ===== verification/TP_Adjustment.thy ===== *)
theory TP_Adjustment
  imports TP_Plan
begin

text \<open>
  Rebuilding a position's take profits (\<open>take_profit_adjustment.py\<close>, from the rows its
  recogniser extracts onwards, and the sizer of
  \<open>trigger_take_profit_convergence_executor.py\<close> it calls): the instruction the rows amount to,
  the target orders it means for one position, which resting orders are kept, cancelled and
  placed, and the share plan of an entry leg that has not filled yet.

  The recogniser itself, regular expressions over Chinese text, is not modelled: its result, the
  prices and the allocation rows, is the input of \<open>build_instruction\<close>.
\<close>

section \<open>Data\<close>

definition mode_full_reset :: string where "mode_full_reset = ''full_reset''"
definition mode_single_tier :: string where "mode_single_tier = ''single_tier''"
definition mode_ratios_only :: string where "mode_ratios_only = ''ratios_only''"
definition mode_prices_only :: string where "mode_prices_only = ''prices_only''"

definition plan_ready :: string where "plan_ready = ''ready''"
definition plan_already_satisfied :: string where "plan_already_satisfied = ''already_satisfied''"
definition plan_refused :: string where "plan_refused = ''refused''"

definition reason_price_missing :: string where "reason_price_missing = ''take_profit_adjust_price_missing''"
definition reason_all_tiers_crossed :: string where
  "reason_all_tiers_crossed = ''take_profit_adjust_all_tiers_crossed''"
definition reason_size_below_minimum :: string where
  "reason_size_below_minimum = ''take_profit_adjust_size_below_minimum''"
definition reason_already_satisfied :: string where
  "reason_already_satisfied = ''take_profit_adjust_already_satisfied''"
definition reason_allocation_invalid :: string where
  "reason_allocation_invalid = ''take_profit_adjust_allocation_invalid''"
definition reason_tier_count_ambiguous :: string where
  "reason_tier_count_ambiguous = ''take_profit_adjust_tier_count_ambiguous''"
definition reason_tier_already_filled :: string where
  "reason_tier_already_filled = ''take_profit_adjust_tier_already_filled''"
definition reason_size_invalid :: string where "reason_size_invalid = ''take_profit_adjust_size_invalid''"
definition reason_position_empty :: string where
  "reason_position_empty = ''take_profit_adjust_position_empty''"
definition reason_input_invalid :: string where
  "reason_input_invalid = ''take_profit_adjust_input_invalid''"

record take_profit_instruction =
  ti_mode :: string
  ti_prices :: "string list"
  ti_allocations :: "string list"
  ti_tier_index :: "int option"
  ti_stop_loss :: "string option"
  ti_evidence :: "string list"

record allocation_row =
  ar_percent :: rat
  ar_price :: "string option"
  ar_each :: bool
  ar_count :: "int option"
  ar_tier_index :: "int option"
  ar_rule :: string

record take_profit_adjustment_plan =
  ap_status :: string
  ap_reason_code :: "string option"
  ap_targets :: "(string \<times> string) list"
  ap_allocations :: "string list"
  ap_keep_order_ids :: "string list"
  ap_cancel_order_ids :: "string list"
  ap_place :: "(string \<times> string) list"
  ap_dropped_crossed :: "string list"
  ap_dropped_filled :: "string list"

type_synonym existing_take_profit = "rat \<times> rat \<times> string"

record unfilled_take_profit_plan =
  up_status :: string
  up_reason_code :: "string option"
  up_targets :: "(string \<times> string) list"
  up_dropped_crossed :: "string list"

section \<open>Readers\<close>

text \<open>\<open>value.replace(",", "")\<close> after \<open>strip\<close>; \<open>None\<close> and booleans are not numbers.\<close>

definition adjust_decimal :: "pyval \<Rightarrow> rat option" where
  "adjust_decimal value = (case value of
       VNone \<Rightarrow> None
     | VBool b \<Rightarrow> None
     | _ \<Rightarrow> finite_decimal (VStr (filter (\<lambda>c. c \<noteq> CHR '','') (py_strip (py_str value)))))"

definition adjust_positive :: "pyval \<Rightarrow> rat option" where
  "adjust_positive value =
     (case adjust_decimal value of None \<Rightarrow> None | Some x \<Rightarrow> if x \<le> 0 then None else Some x)"

definition adjust_decimal_text :: "rat \<Rightarrow> string" where
  "adjust_decimal_text value = decimal_text value"

definition tier_crossed :: "rat \<Rightarrow> string \<Rightarrow> rat \<Rightarrow> bool" where
  "tier_crossed price side market = (if side = ''long'' then price \<le> market else price \<ge> market)"

definition adjust_round_down :: "rat \<Rightarrow> rat \<Rightarrow> rat" where
  "adjust_round_down value step = dmul (to_integral_floor (ddiv value step)) step"

fun read_existing :: "(pyval \<times> pyval \<times> pyval) list \<Rightarrow> existing_take_profit list option" where
  "read_existing [] = Some []"
| "read_existing ((price, amount, order_id) # rows) =
     (case (adjust_positive price, adjust_positive amount) of
        (Some p, Some s) \<Rightarrow>
          if py_strip (str_or_empty order_id) = [] then None
          else (case read_existing rows of None \<Rightarrow> None
                | Some rest \<Rightarrow> Some ((p, s, py_str order_id) # rest))
      | _ \<Rightarrow> None)"

definition refused :: "string \<Rightarrow> string list \<Rightarrow> string list \<Rightarrow> take_profit_adjustment_plan" where
  "refused reason_code dropped_crossed dropped_filled =
     \<lparr>ap_status = plan_refused, ap_reason_code = Some reason_code, ap_targets = [],
      ap_allocations = [], ap_keep_order_ids = [], ap_cancel_order_ids = [], ap_place = [],
      ap_dropped_crossed = dropped_crossed, ap_dropped_filled = dropped_filled\<rparr>"

section \<open>The instruction the rows amount to\<close>

definition instruction_of ::
    "string option \<Rightarrow> string list \<Rightarrow> string \<Rightarrow> string list \<Rightarrow> rat list \<Rightarrow> int option \<Rightarrow> take_profit_instruction" where
  "instruction_of stop_loss evidence mode mode_prices mode_allocations mode_tier =
     \<lparr>ti_mode = mode, ti_prices = mode_prices, ti_allocations = map adjust_decimal_text mode_allocations,
      ti_tier_index = mode_tier, ti_stop_loss = stop_loss, ti_evidence = evidence\<rparr>"

definition each_count :: "allocation_row list \<Rightarrow> string list \<Rightarrow> rat \<Rightarrow> int option" where
  "each_count each_rows prices percent =
     (case List.map_filter (\<lambda>r. case ar_count r of Some c \<Rightarrow> if c = 0 then None else Some c | None \<Rightarrow> None) each_rows of
        c # _ \<Rightarrow> Some c
      | [] \<Rightarrow> if prices \<noteq> [] then Some (int (length prices))
          else let ratio = ddiv 100 percent
               in if ratio = to_integral_value ratio then Some \<lfloor>ratio\<rfloor> else None)"

definition nonempty_text :: "string option \<Rightarrow> string option" where
  "nonempty_text t = (case t of Some [] \<Rightarrow> None | _ \<Rightarrow> t)"

definition nonzero_index :: "int option \<Rightarrow> int option" where
  "nonzero_index i = (case i of Some k \<Rightarrow> if k = 0 then None else Some k | None \<Rightarrow> None)"

definition build_instruction ::
    "string list \<Rightarrow> allocation_row list \<Rightarrow> int option \<Rightarrow> string option \<Rightarrow> string list
     \<Rightarrow> take_profit_instruction" where
  "build_instruction prices allocations tier_index stop_loss evidence =
     (let build = instruction_of stop_loss evidence;
          each_rows = filter ar_each allocations;
          with_prices = (if prices \<noteq> [] then mode_full_reset else mode_ratios_only)
      in if allocations = [] then build mode_prices_only prices [] tier_index
      else if each_rows \<noteq> [] then
        (let percent = ar_percent (hd each_rows) in
         if list_ex (\<lambda>r. ar_percent r \<noteq> percent) allocations
         then build with_prices prices (map ar_percent allocations) None
         else (case each_count each_rows prices percent of
             None \<Rightarrow> build with_prices prices [percent] None
           | Some n \<Rightarrow>
               if n < 1 \<or> 5 < n then build with_prices prices [percent] None
               else if prices \<noteq> [] then build mode_full_reset prices (replicate (nat n) percent) None
               else build mode_ratios_only [] (replicate (nat n) percent) None))
      else if length allocations = 1 then
        (let r = hd allocations;
             price = (case nonempty_text (ar_price r) of Some p \<Rightarrow> Some p
                      | None \<Rightarrow> if length prices = 1 then Some (hd prices) else None)
         in case price of
              None \<Rightarrow> build mode_ratios_only [] [ar_percent r] None
            | Some p \<Rightarrow>
                if ar_percent r = 100 then build mode_full_reset [p] [ar_percent r] None
                else build mode_single_tier [p] [ar_percent r]
                       (case nonzero_index (ar_tier_index r) of Some k \<Rightarrow> Some k | None \<Rightarrow> tier_index))
      else if list_all (\<lambda>r. ar_price r \<noteq> None) allocations then
        build mode_full_reset (map (\<lambda>r. the (ar_price r)) allocations) (map ar_percent allocations) None
      else build with_prices prices (map ar_percent allocations) None)"

section \<open>The sizer\<close>

text \<open>\<open>quantize(Decimal("0.000001"))\<close>, to even and upwards; never refused on the shares it is used on.\<close>

definition millionths :: rat where "millionths = 1000000"

definition quantize6 :: "rat \<Rightarrow> rat" where
  "quantize6 x = of_int (half_even (x * millionths)) / millionths"

definition quantize6_up :: "rat \<Rightarrow> rat" where
  "quantize6_up x = of_int \<lceil>x * millionths\<rceil> / millionths"

definition share_of :: "rat \<Rightarrow> rat \<Rightarrow> rat \<Rightarrow> rat" where
  "share_of whole base value = ddiv (dmul value whole) base"

definition quantized_share :: "rat \<Rightarrow> rat \<Rightarrow> rat \<Rightarrow> rat" where
  "quantized_share whole base value = quantize6 (share_of whole base value)"

definition raised_share :: "rat \<Rightarrow> rat \<Rightarrow> rat \<Rightarrow> rat" where
  "raised_share whole base value = quantize6_up (share_of whole base value)"

definition rescale_allocations :: "rat list \<Rightarrow> rat list option" where
  "rescale_allocations allocations =
     (if allocations = [] then None
      else let s = dsum allocations in
        if s \<le> 0 then None
        else if s = 100 then Some allocations
        else let scaled = map (quantized_share 100 s) (butlast allocations);
                 remainder = dsub 100 (dsum scaled)
             in if remainder \<le> 0 then None else Some (scaled @ [remainder]))"

text \<open>\<open>needle in text\<close>.\<close>

fun is_prefix :: "string \<Rightarrow> string \<Rightarrow> bool" where
  "is_prefix [] s = True"
| "is_prefix (c # p) [] = False"
| "is_prefix (c # p) (d # s) = (c = d \<and> is_prefix p s)"

fun text_contains :: "string \<Rightarrow> string \<Rightarrow> bool" where
  "text_contains needle [] = is_prefix needle []"
| "text_contains needle (c # s) = (is_prefix needle (c # s) \<or> text_contains needle s)"

text \<open>The sizes, or the code of the refusal (\<open>Inl\<close>).\<close>

definition below_minimum :: string where "below_minimum = ''convergence_target_size_below_minimum''"

definition allocate_exact_sizes :: "rat \<Rightarrow> rat list \<Rightarrow> pyval \<Rightarrow> pyval \<Rightarrow> string + rat list" where
  "allocate_exact_sizes amount allocations quantity_step minimum_quantity =
     (case build_take_profit_plan (map (\<lambda>i. VInt (int i)) [1..<Suc (length allocations)]) (VStr ''long'')
             (AllocationList (map (\<lambda>a. VDec (DFin a)) allocations)) (VDec (DFin amount))
             quantity_step minimum_quantity of
        Inl e \<Rightarrow> Inl (case e of TakeProfitPlanError message \<Rightarrow>
              if text_contains ''minimum'' message then below_minimum
              else ''convergence_target_size_step_unverified''
            | _ \<Rightarrow> ''convergence_target_size_step_unverified'')
      | Inr legs \<Rightarrow>
          let quantities = map (\<lambda>leg. case tp_quantity leg of None \<Rightarrow> 0
                | Some q \<Rightarrow> (case finite_decimal (VStr q) of None \<Rightarrow> 0 | Some x \<Rightarrow> x)) legs
          in if list_all (\<lambda>q. 0 < q) quantities then Inr quantities
             else Inl ''convergence_target_size_invalid'')"

fun allocate_sizes_loop ::
    "nat \<Rightarrow> string + rat list \<Rightarrow> rat \<Rightarrow> rat list \<Rightarrow> pyval \<Rightarrow> pyval \<Rightarrow> string + rat list" where
  "allocate_sizes_loop 0 outcome amount allocations quantity_step minimum_quantity = outcome"
| "allocate_sizes_loop (Suc n) outcome amount allocations quantity_step minimum_quantity =
     (case rescale_allocations (take (Suc n) allocations) of
        None \<Rightarrow> allocate_sizes_loop n outcome amount allocations quantity_step minimum_quantity
      | Some scaled \<Rightarrow>
          (let exact = allocate_exact_sizes amount scaled quantity_step minimum_quantity
           in if exact = Inl below_minimum
              then allocate_sizes_loop n exact amount allocations quantity_step minimum_quantity
              else exact))"

definition allocate_sizes :: "rat \<Rightarrow> rat list \<Rightarrow> pyval \<Rightarrow> pyval \<Rightarrow> string + rat list" where
  "allocate_sizes amount allocations quantity_step minimum_quantity =
     allocate_sizes_loop (length allocations) (Inl below_minimum) amount allocations
       quantity_step minimum_quantity"


section \<open>Planning one position\<close>

definition shares_for_rank :: "rat list \<Rightarrow> existing_take_profit list \<Rightarrow> rat list \<Rightarrow> rat list" where
  "shares_for_rank prices existing filled =
     (let ranked_existing = map (fst \<circ> snd) (py_sorted fst False existing);
          live_prices = py_sorted (\<lambda>p. p) False (filter (\<lambda>p. p \<notin> set filled) prices);
          by_price = map_of (zip live_prices ranked_existing)
      in map (\<lambda>p. case by_price p of None \<Rightarrow> 1 | Some s \<Rightarrow> s) prices)"

definition refuse :: "string \<Rightarrow> 'a result" where
  "refuse reason_code = Inl (Refusal reason_code)"

definition prices_and_shares ::
    "take_profit_instruction \<Rightarrow> existing_take_profit list \<Rightarrow> rat list \<Rightarrow> pyval list
     \<Rightarrow> (rat list \<times> rat list) result" where
  "prices_and_shares instruction existing filled strategy_prices =
     (let prices = List.map_filter (\<lambda>t. adjust_positive (VStr t)) (ti_prices instruction);
          shares = List.map_filter (\<lambda>t. adjust_positive (VStr t)) (ti_allocations instruction)
      in if length prices \<noteq> length (ti_prices instruction) then refuse reason_price_missing
      else if length shares \<noteq> length (ti_allocations instruction) then refuse reason_allocation_invalid
      else if length (remdups prices) \<noteq> length prices then refuse reason_allocation_invalid
      else if ti_mode instruction = mode_prices_only then
        (if prices = [] then refuse reason_price_missing
         else
         let live_prices = filter (\<lambda>p. p \<notin> set filled) prices;
             filled_ones = filter (\<lambda>p. p \<in> set filled) prices
         in if existing \<noteq> [] \<and> length live_prices = length existing
            then Inr (prices, shares_for_rank prices existing filled)
            else rbind (plan_allocations NoAllocations (length live_prices)) (\<lambda>table.
                   Inr (live_prices @ filled_ones, table @ map (\<lambda>_. 1) filled_ones)))
      else if ti_mode instruction = mode_ratios_only then
        (if dsum shares \<noteq> 100 then refuse reason_price_missing
         else
         let strategy = dedup_first (List.map_filter adjust_positive strategy_prices);
             unfilled = filter (\<lambda>p. p \<notin> set filled) strategy
         in if strategy = [] then refuse reason_price_missing
            else if length unfilled = length shares then Inr (unfilled, shares)
            else if length strategy = length shares then Inr (strategy, shares)
            else refuse reason_tier_count_ambiguous)
      else if prices = [] then refuse reason_price_missing
      else if length shares \<noteq> length prices \<or> dsum shares \<noteq> 100 then refuse reason_allocation_invalid
      else Inr (prices, shares))"

text \<open>The keep, place and cancel sets: each target takes the first resting order equal to it.\<close>

fun match_targets ::
    "(rat \<times> rat) list \<Rightarrow> existing_take_profit list
     \<Rightarrow> existing_take_profit list \<times> (rat \<times> rat) list \<times> existing_take_profit list" where
  "match_targets [] unmatched = ([], [], unmatched)"
| "match_targets ((price, amount) # targets) unmatched =
     (case find (\<lambda>r. fst r = price \<and> fst (snd r) = amount) unmatched of
        Some r \<Rightarrow>
          (let (keep, place, rest) = match_targets targets (remove1 r unmatched) in (r # keep, place, rest))
      | None \<Rightarrow>
          (let (keep, place, rest) = match_targets targets unmatched in (keep, (price, amount) # place, rest)))"

definition proportional_allocations :: "rat list \<Rightarrow> string list" where
  "proportional_allocations sizes =
     (let s = dsum sizes in
      if sizes = [] \<or> s \<le> 0 then []
      else let shares = map (raised_share 100 s) (butlast sizes);
               rest = dsub 100 (dsum shares)
           in if rest \<le> 0 then [] else map adjust_decimal_text (shares @ [rest]))"

definition text_pair :: "rat \<times> rat \<Rightarrow> string \<times> string" where
  "text_pair p = (adjust_decimal_text (fst p), adjust_decimal_text (snd p))"

definition finish_plan ::
    "(rat \<times> rat) list \<Rightarrow> existing_take_profit list \<Rightarrow> string list \<Rightarrow> string list
     \<Rightarrow> take_profit_adjustment_plan" where
  "finish_plan targets existing dropped_crossed dropped_filled =
     (if targets = [] then refused reason_size_below_minimum [] []
      else
      let (keep, place, unmatched) = match_targets targets existing;
          ready = (unmatched \<noteq> [] \<or> place \<noteq> [])
      in \<lparr>ap_status = (if ready then plan_ready else plan_already_satisfied),
          ap_reason_code = (if ready then None else Some reason_already_satisfied),
          ap_targets = map text_pair targets,
          ap_allocations = proportional_allocations (map snd targets),
          ap_keep_order_ids = map (snd \<circ> snd) keep,
          ap_cancel_order_ids = map (snd \<circ> snd) unmatched,
          ap_place = map text_pair place,
          ap_dropped_crossed = dropped_crossed, ap_dropped_filled = dropped_filled\<rparr>)"

text \<open>
  The trimming loop of the single-tier plan over the other tiers, farthest first: the rows are
  mutated in place, so the list keeps its order and \<open>order\<close> holds their indexes.
\<close>

fun trim_others ::
    "rat \<Rightarrow> nat list \<Rightarrow> (rat \<times> rat) list \<Rightarrow> rat \<Rightarrow> (rat \<times> rat) list \<times> rat" where
  "trim_others minimum [] others excess = (others, excess)"
| "trim_others minimum (i # order) others excess =
     (if excess \<le> 0 then (others, excess)
      else
      let (price, size) = others ! i;
          cut = min excess size;
          left = dsub size cut;
          excess1 = dsub excess cut
      in if 0 < left \<and> left < minimum
         then trim_others minimum order (others[i := (price, 0)]) (dsub excess1 left)
         else trim_others minimum order (others[i := (price, left)]) excess1)"

text \<open>The tier the instruction replaces: the one at the same price, else the one it names.\<close>

definition replaced_tier :: "rat list \<Rightarrow> rat \<Rightarrow> int option \<Rightarrow> nat option" where
  "replaced_tier tier_prices price tier_index =
     (case find (\<lambda>i. tier_prices ! i = price) [0..<length tier_prices] of
        Some i \<Rightarrow> Some i
      | None \<Rightarrow> (case tier_index of
            Some k \<Rightarrow> if 1 \<le> k \<and> k \<le> int (length tier_prices) then Some (nat (k - 1)) else None
          | None \<Rightarrow> None))"

definition without_index :: "nat option \<Rightarrow> 'a list \<Rightarrow> 'a list" where
  "without_index replaced xs = (case replaced of None \<Rightarrow> xs | Some i \<Rightarrow> take i xs @ drop (Suc i) xs)"

definition single_tier_targets ::
    "string \<Rightarrow> rat \<Rightarrow> existing_take_profit list \<Rightarrow> rat \<Rightarrow> int option \<Rightarrow> rat \<Rightarrow> rat
     \<Rightarrow> (rat \<times> rat) list option" where
  "single_tier_targets side remaining existing price tier_index amount minimum =
     (let nearest_first = py_sorted fst (side = ''short'') existing;
          replaced = replaced_tier (map fst nearest_first) price tier_index;
          others = map (\<lambda>(p, s, _). (p, s)) (without_index replaced nearest_first);
          excess = dsub (dadd (dsum (map snd others)) amount) remaining;
          order = py_sorted (\<lambda>i. fst (others ! i)) (side = ''long'') [0..<length others];
          (trimmed, left) = trim_others minimum order others excess
      in if 0 < left then None
         else Some (py_sorted fst (side = ''short'')
                (filter (\<lambda>r. 0 < snd r) trimmed @ [(price, amount)])))"

definition plan_single_tier ::
    "take_profit_instruction \<Rightarrow> string \<Rightarrow> rat \<Rightarrow> rat \<Rightarrow> existing_take_profit list \<Rightarrow> rat list \<Rightarrow> rat \<Rightarrow> rat
     \<Rightarrow> take_profit_adjustment_plan" where
  "plan_single_tier instruction side remaining market existing filled minimum step =
     (if length (ti_prices instruction) \<noteq> 1 \<or> length (ti_allocations instruction) \<noteq> 1
      then refused reason_allocation_invalid [] []
      else case adjust_positive (VStr (hd (ti_prices instruction))) of
        None \<Rightarrow> refused reason_price_missing [] []
      | Some price \<Rightarrow>
      (case adjust_positive (VStr (hd (ti_allocations instruction))) of
        None \<Rightarrow> refused reason_allocation_invalid [] []
      | Some share \<Rightarrow>
          if 100 \<le> share then refused reason_allocation_invalid [] []
          else if price \<in> set filled
          then refused reason_tier_already_filled [] [adjust_decimal_text price]
          else if tier_crossed price side market
          then refused reason_all_tiers_crossed [adjust_decimal_text price] []
          else
            let size = adjust_round_down (ddiv (dmul remaining share) 100) step
            in if size < minimum then refused reason_size_below_minimum [] []
               else (case single_tier_targets side remaining existing price (ti_tier_index instruction) size minimum of
                   None \<Rightarrow> refused reason_size_invalid [] []
                 | Some targets \<Rightarrow> finish_plan targets existing [] [])))"

definition whole_plan ::
    "string \<Rightarrow> rat \<Rightarrow> rat \<Rightarrow> existing_take_profit list \<Rightarrow> rat list \<Rightarrow> rat \<Rightarrow> rat \<Rightarrow> rat list \<Rightarrow> rat list
     \<Rightarrow> take_profit_adjustment_plan" where
  "whole_plan side remaining market existing filled minimum step prices shares =
     (let dropped_filled = map adjust_decimal_text (filter (\<lambda>p. p \<in> set filled) prices);
          tiers = filter (\<lambda>t. fst t \<notin> set filled) (zip prices shares)
      in if tiers = [] then refused reason_tier_already_filled [] dropped_filled
      else
      let sorted = py_sorted fst (side = ''short'') tiers;
          dropped_crossed = map (adjust_decimal_text \<circ> fst) (filter (\<lambda>t. tier_crossed (fst t) side market) sorted);
          open_tiers = filter (\<lambda>t. \<not> tier_crossed (fst t) side market) sorted
      in if open_tiers = [] then refused reason_all_tiers_crossed dropped_crossed dropped_filled
      else (case rescale_allocations (map snd open_tiers) of
          None \<Rightarrow> refused reason_allocation_invalid [] []
        | Some rescaled \<Rightarrow>
      (case allocate_sizes remaining rescaled (VDec (DFin step)) (VDec (DFin minimum)) of
          Inl code \<Rightarrow> refused (if code = below_minimum then reason_size_below_minimum else reason_size_invalid)
                         dropped_crossed dropped_filled
        | Inr sizes \<Rightarrow>
            finish_plan (filter (\<lambda>t. 0 < snd t) (zip (map fst open_tiers) sizes))
              existing dropped_crossed dropped_filled)))"

definition plan_take_profit_adjustment ::
    "take_profit_instruction \<Rightarrow> pyval \<Rightarrow> pyval \<Rightarrow> pyval \<Rightarrow> (pyval \<times> pyval \<times> pyval) list \<Rightarrow> pyval list
     \<Rightarrow> pyval list \<Rightarrow> pyval \<Rightarrow> pyval \<Rightarrow> take_profit_adjustment_plan" where
  "plan_take_profit_adjustment instruction side remaining_size last_price existing_take_profits
      filled_prices strategy_take_profit_prices min_quantity quantity_step =
     (let normalized_side = norm_side side in
      case (adjust_positive last_price, adjust_positive min_quantity, adjust_positive quantity_step) of
        (Some market, Some minimum, Some step) \<Rightarrow>
          if \<not> is_long_or_short normalized_side then refused reason_input_invalid [] []
          else (case adjust_positive remaining_size of
              None \<Rightarrow> refused reason_position_empty [] []
            | Some remaining \<Rightarrow>
          (case read_existing existing_take_profits of
              None \<Rightarrow> refused reason_input_invalid [] []
            | Some existing \<Rightarrow>
          let filled = List.map_filter adjust_decimal filled_prices
          in if ti_mode instruction = mode_single_tier
             then plan_single_tier instruction normalized_side remaining market existing filled minimum step
             else (case prices_and_shares instruction existing filled strategy_take_profit_prices of
                 Inl e \<Rightarrow> refused (case e of Refusal r \<Rightarrow> r | _ \<Rightarrow> reason_input_invalid) [] []
               | Inr (prices, shares) \<Rightarrow>
                   whole_plan normalized_side remaining market existing filled minimum step prices shares)))
      | _ \<Rightarrow> refused reason_input_invalid [] [])"


section \<open>Planning an entry leg that has not filled\<close>

definition scaled_to :: "rat list \<Rightarrow> rat \<Rightarrow> rat list option" where
  "scaled_to shares whole =
     (let current = dsum shares in
      if shares = [] \<or> current \<le> 0 \<or> whole \<le> 0 then None
      else let scaled = map (quantized_share whole current) (butlast shares);
               rest = dsub whole (dsum scaled)
           in if rest \<le> 0 \<or> list_ex (\<lambda>v. v \<le> 0) scaled then None else Some (scaled @ [rest]))"

definition unfilled_refused :: "string \<Rightarrow> string list \<Rightarrow> unfilled_take_profit_plan" where
  "unfilled_refused reason_code dropped_crossed =
     \<lparr>up_status = plan_refused, up_reason_code = Some reason_code, up_targets = [],
      up_dropped_crossed = dropped_crossed\<rparr>"

definition unfilled_ready :: "(rat \<times> rat) list \<Rightarrow> string list \<Rightarrow> unfilled_take_profit_plan" where
  "unfilled_ready tiers dropped_crossed =
     \<lparr>up_status = plan_ready, up_reason_code = None, up_targets = map text_pair tiers,
      up_dropped_crossed = dropped_crossed\<rparr>"

fun read_current_plan :: "(pyval \<times> pyval) list \<Rightarrow> (rat \<times> rat) list option" where
  "read_current_plan [] = Some []"
| "read_current_plan ((price, share) # rows) =
     (case (adjust_positive price, adjust_positive share) of
        (Some p, Some s) \<Rightarrow> map_option (\<lambda>rest. (p, s) # rest) (read_current_plan rows)
      | _ \<Rightarrow> None)"

definition unfilled_single_tier ::
    "take_profit_instruction \<Rightarrow> string \<Rightarrow> rat \<Rightarrow> (rat \<times> rat) list \<Rightarrow> unfilled_take_profit_plan" where
  "unfilled_single_tier instruction side market current =
     (if length (ti_prices instruction) \<noteq> 1 \<or> length (ti_allocations instruction) \<noteq> 1
      then unfilled_refused reason_allocation_invalid []
      else case adjust_positive (VStr (hd (ti_prices instruction))) of
        None \<Rightarrow> unfilled_refused reason_price_missing []
      | Some price \<Rightarrow>
      (case adjust_positive (VStr (hd (ti_allocations instruction))) of
        None \<Rightarrow> unfilled_refused reason_allocation_invalid []
      | Some share \<Rightarrow>
          if 100 \<le> share then unfilled_refused reason_allocation_invalid []
          else if tier_crossed price side market
          then unfilled_refused reason_all_tiers_crossed [adjust_decimal_text price]
          else
            let nearest_first = py_sorted fst (side = ''short'') current;
                replaced = replaced_tier (map fst nearest_first) price (ti_tier_index instruction);
                others = without_index replaced nearest_first
            in if others = [] then unfilled_ready [(price, 100)] []
               else (case scaled_to (map snd others) (dsub 100 share) of
                   None \<Rightarrow> unfilled_refused reason_allocation_invalid []
                 | Some scaled \<Rightarrow>
                     unfilled_ready (py_sorted fst (side = ''short'')
                       (zip (map fst others) scaled @ [(price, share)])) [])))"

definition plan_unfilled_take_profit_allocations ::
    "take_profit_instruction \<Rightarrow> pyval \<Rightarrow> pyval \<Rightarrow> (pyval \<times> pyval) list \<Rightarrow> pyval list
     \<Rightarrow> unfilled_take_profit_plan" where
  "plan_unfilled_take_profit_allocations instruction side last_price current_plan
      strategy_take_profit_prices =
     (let normalized_side = norm_side side in
      case adjust_positive last_price of
        None \<Rightarrow> unfilled_refused reason_input_invalid []
      | Some market \<Rightarrow>
      if \<not> is_long_or_short normalized_side then unfilled_refused reason_input_invalid []
      else (case read_current_plan current_plan of
        None \<Rightarrow> unfilled_refused reason_input_invalid []
      | Some current \<Rightarrow>
      if ti_mode instruction = mode_single_tier
      then unfilled_single_tier instruction normalized_side market current
      else
        let pseudo_existing = map (\<lambda>(i, (p, s)). (p, s, ''plan-'' @ int_text (int i))) (enumerate 0 current)
        in (case prices_and_shares instruction pseudo_existing [] strategy_take_profit_prices of
            Inl e \<Rightarrow> unfilled_refused (case e of Refusal r \<Rightarrow> r | _ \<Rightarrow> reason_input_invalid) []
          | Inr (prices, shares) \<Rightarrow>
              let tiers = py_sorted fst (normalized_side = ''short'') (zip prices shares);
                  dropped_crossed = map (adjust_decimal_text \<circ> fst)
                    (filter (\<lambda>t. tier_crossed (fst t) normalized_side market) tiers);
                  open_tiers = filter (\<lambda>t. \<not> tier_crossed (fst t) normalized_side market) tiers
              in if open_tiers = [] then unfilled_refused reason_all_tiers_crossed dropped_crossed
                 else (case scaled_to (map snd open_tiers) 100 of
                     None \<Rightarrow> unfilled_refused reason_allocation_invalid []
                   | Some scaled \<Rightarrow>
                       unfilled_ready (zip (map fst open_tiers) scaled) dropped_crossed))))"

section \<open>Lemmas on shares\<close>

lemma adjust_positive_Some: "adjust_positive v = Some x \<longleftrightarrow> adjust_decimal v = Some x \<and> 0 < x"
  by (auto simp: adjust_positive_def split: option.splits)

text \<open>A millionth as the step of a grid: the quantised shares live on it.\<close>

definition tiny :: rat where "tiny = 1 / 1000000"

lemma grid_step_tiny [simp]: "grid_step tiny"
  using fits_frac [of 1 7 tiny 6] by (simp add: grid_step_def tiny_def)

lemma quantize6_tiny: "quantize6 x = of_int (half_even (x * millionths)) * tiny"
  "quantize6_up x = of_int \<lceil>x * millionths\<rceil> * tiny"
  by (simp_all add: quantize6_def quantize6_up_def millionths_def tiny_def)

lemma fits_times_10: "fits n x \<Longrightarrow> fits n (10 * x)"
  unfolding fits_def by (elim exE conjE, rename_tac c e, rule_tac x = c in exI, rule_tac x = "e + 1" in exI)
    (simp add: power_int_add)

lemma fits_dsum [simp]: "fits 28 (dsum xs)"
proof -
  have "fits 28 a \<Longrightarrow> fits 28 (foldl dadd a xs)" for a
    by (induction xs arbitrary: a) simp_all
  moreover have "fits 28 0" using fits_count [of 0] by (simp add: small_count_def)
  ultimately show ?thesis by (simp add: dsum_def)
qed

lemma member_le_dsum:
  assumes "\<And>x. x \<in> set xs \<Longrightarrow> 0 < x" "v \<in> set xs" "0 < dsum xs"
  shows "v \<le> 10 * dsum xs"
proof (rule ccontr)
  assume "\<not> v \<le> 10 * dsum xs"
  then have "10 * dsum xs \<le> dround v" by (intro ctx.rnd_ge_exact fits_times_10) simp_all
  also have "\<dots> \<le> dsum xs" unfolding dsum_def using assms by (intro foldl_dadd_ge_mem) simp_all
  finally show False using assms(3) by simp
qed

lemma share_of_bounds:
  assumes "0 < v" "v \<le> 10 * s" "0 < s" "fits 28 s" "0 < w" "w \<le> 100"
  shows "0 \<le> share_of w s v" "share_of w s v \<le> 1000"
proof -
  have "0 < dmul v w" using assms by (intro dmul_pos)
  then have "0 < ddiv (dmul v w) s" using assms by (intro ddiv_pos)
  then show "0 \<le> share_of w s v" by (simp add: share_of_def)
  have "v * w \<le> (10 * s) * 100" using assms by (intro mult_mono) simp_all
  then have "v * w \<le> 10 * (10 * (10 * s))" by simp
  then have "dmul v w \<le> 10 * (10 * (10 * s))" using assms(4) by (intro op_le_exact fits_times_10)
  then have "dmul v w / s \<le> 1000" using assms(3) by (simp add: pos_divide_le_eq)
  then show "share_of w s v \<le> 1000"
    unfolding share_of_def using fits_count [of 1000] by (intro op_le_exact) (simp_all add: small_count_def)
qed

lemma shares_on_grid:
  assumes "0 < v" "v \<le> 10 * s" "0 < s" "fits 28 s" "0 < w" "w \<le> 100"
  shows "\<exists>k. quantized_share w s v = of_int k * tiny \<and> 0 \<le> k \<and> k \<le> 10 ^ 10"
    and "\<exists>k. raised_share w s v = of_int k * tiny \<and> 0 \<le> k \<and> k \<le> 10 ^ 10"
proof -
  note b = share_of_bounds [OF assms]
  have b': "0 \<le> share_of w s v * millionths" "share_of w s v * millionths \<le> of_int (10 ^ 10)"
    using b by (simp_all add: millionths_def)
  have "0 \<le> half_even (share_of w s v * millionths)" using half_even_ge [of 0] b'(1) by simp
  moreover have "half_even (share_of w s v * millionths) \<le> 10 ^ 10" using b'(2) by (rule half_even_le)
  ultimately show "\<exists>k. quantized_share w s v = of_int k * tiny \<and> 0 \<le> k \<and> k \<le> 10 ^ 10"
    by (auto simp: quantized_share_def quantize6_tiny)
  have "0 \<le> \<lceil>share_of w s v * millionths\<rceil>" using b'(1) by (simp add: le_ceiling_iff less_le_trans)
  moreover have "\<lceil>share_of w s v * millionths\<rceil> \<le> 10 ^ 10" using b'(2) by (simp only: ceiling_le_iff)
  ultimately show "\<exists>k. raised_share w s v = of_int k * tiny \<and> 0 \<le> k \<and> k \<le> 10 ^ 10"
    by (auto simp: raised_share_def quantize6_tiny)
qed

lemma sum_list_bounded:
  "(\<And>k. k \<in> set ks \<Longrightarrow> k \<le> c) \<Longrightarrow> sum_list ks \<le> int (length ks) * c" for c :: int
proof (induction ks)
  case (Cons k ks)
  have "k \<le> c" "sum_list ks \<le> int (length ks) * c" using Cons by simp_all
  then show ?case by (simp add: distrib_right)
qed simp

text \<open>The remainder carried by the last share makes the sum exact.\<close>

lemma remainder_exact:
  assumes "\<And>v. v \<in> set vs \<Longrightarrow> \<exists>k. f v = of_int k * tiny \<and> 0 \<le> k \<and> k \<le> 10 ^ 10"
    and "length vs < 10 ^ 9" and "0 \<le> W" "W \<le> 10 ^ 8" and "0 < dsub (of_int W * tiny) (dsum (map f vs))"
  shows "dsum (map f vs @ [dsub (of_int W * tiny) (dsum (map f vs))]) = of_int W * tiny"
proof -
  define g where "g v = (SOME k. f v = of_int k * tiny \<and> 0 \<le> k \<and> k \<le> 10 ^ 10)" for v
  have g: "f v = of_int (g v) * tiny \<and> 0 \<le> g v \<and> g v \<le> 10 ^ 10" if "v \<in> set vs" for v
    unfolding g_def using assms(1) [OF that] by (rule someI_ex)
  let ?ks = "map g vs"
  have m: "map f vs = map (\<lambda>k. of_int k * tiny) ?ks" using g by simp
  have nn: "k \<in> set ?ks \<Longrightarrow> 0 \<le> k" for k using g by auto
  have "sum_list ?ks \<le> int (length vs) * 10 ^ 10"
    using sum_list_bounded [of ?ks "10 ^ 10"] g by auto
  also have "\<dots> \<le> 10 ^ 9 * 10 ^ 10" using assms(2) by (intro mult_right_mono) simp_all
  finally have S: "sum_list ?ks \<le> 10 ^ 19" by simp
  have S0: "0 \<le> sum_list ?ks" using nn by (rule sum_list_nonneg)
  have sc: "small_count (sum_list ?ks)" using S S0 by (simp add: small_count_def)
  have d: "dsum (map f vs) = of_int (sum_list ?ks) * tiny" unfolding m using sc nn by (intro dsum_grid) simp_all
  have scW: "small_count (W - sum_list ?ks)" using S S0 assms(3,4) by (simp add: small_count_def)
  have r: "dsub (of_int W * tiny) (dsum (map f vs)) = of_int (W - sum_list ?ks) * tiny"
    unfolding d using scW by (intro dsub_grid) simp_all
  have "0 < W - sum_list ?ks" using assms(5) unfolding r by (simp add: zero_less_mult_iff tiny_def)
  then have "dsum (map (\<lambda>k. of_int k * tiny) (?ks @ [W - sum_list ?ks])) = of_int (sum_list (?ks @ [W - sum_list ?ks])) * tiny"
    using nn assms(3,4) by (intro dsum_grid) (auto simp: small_count_def)
  then show ?thesis unfolding r unfolding m by simp
qed

lemma hundred_tiny: "100 = of_int (10 ^ 8) * tiny"
  by (simp add: tiny_def)

lemma rescale_allocations_Some:
  assumes "rescale_allocations xs = Some ys" "\<And>x. x \<in> set xs \<Longrightarrow> 0 < x" "length xs < 10 ^ 9"
  shows "dsum ys = 100" "length ys = length xs"
proof -
  from assms(1) have ne: "xs \<noteq> []" and s: "0 < dsum xs" by (auto simp: rescale_allocations_def Let_def not_le split: if_splits)
  have "dsum ys = 100 \<and> length ys = length xs"
  proof (cases "dsum xs = 100")
    case True
    then show ?thesis using assms(1) s ne by (simp add: rescale_allocations_def Let_def)
  next
    case False
    let ?f = "quantized_share 100 (dsum xs)"
    have r: "0 < dsub 100 (dsum (map ?f (butlast xs)))"
      and ys: "ys = map ?f (butlast xs) @ [dsub 100 (dsum (map ?f (butlast xs)))]"
      using assms(1) s ne False by (auto simp: rescale_allocations_def Let_def split: if_splits)
    have g: "\<exists>k. ?f v = of_int k * tiny \<and> 0 \<le> k \<and> k \<le> 10 ^ 10" if "v \<in> set (butlast xs)" for v
    proof -
      have v: "v \<in> set xs" using that by (rule in_set_butlastD)
      then show ?thesis using assms(2) s member_le_dsum [of xs v]
        by (intro shares_on_grid) simp_all
    qed
    have "length (butlast xs) < 10 ^ 9" using assms(3) by simp
    then have "dsum ys = 100" unfolding ys
      using remainder_exact [of "butlast xs" ?f "10 ^ 8", folded hundred_tiny, OF g _ _ _ r] by simp
    then show ?thesis using ne by (simp add: ys)
  qed
  then show "dsum ys = 100" "length ys = length xs" by simp_all
qed


lemma scaled_to_Some:
  assumes "scaled_to xs whole = Some ys" "\<And>x. x \<in> set xs \<Longrightarrow> 0 < x" "length xs < 10 ^ 9"
    and "whole = of_int W * tiny" "W \<le> 10 ^ 8"
  shows "dsum ys = whole" "length ys = length xs" "\<And>y. y \<in> set ys \<Longrightarrow> 0 < y"
proof -
  from assms(1) have ne: "xs \<noteq> []" and s: "0 < dsum xs" and w: "0 < whole"
    by (auto simp: scaled_to_def Let_def not_le split: if_splits)
  let ?f = "quantized_share whole (dsum xs)"
  have r: "0 < dsub whole (dsum (map ?f (butlast xs)))" and p: "\<forall>v\<in>set (map ?f (butlast xs)). 0 < v"
    and ys: "ys = map ?f (butlast xs) @ [dsub whole (dsum (map ?f (butlast xs)))]"
    using assms(1) s ne w by (auto simp: scaled_to_def Let_def list_ex_iff not_le split: if_splits)
  have W: "0 \<le> W" using w unfolding assms(4) by (simp add: zero_less_mult_iff tiny_def)
  have w100: "whole \<le> 100" unfolding assms(4) using assms(5) by (simp add: tiny_def)
  have g: "\<exists>k. ?f v = of_int k * tiny \<and> 0 \<le> k \<and> k \<le> 10 ^ 10" if "v \<in> set (butlast xs)" for v
  proof -
    have v: "v \<in> set xs" using that by (rule in_set_butlastD)
    then show ?thesis using assms(2) s w w100 member_le_dsum [of xs v] by (intro shares_on_grid) simp_all
  qed
  have "length (butlast xs) < 10 ^ 9" using assms(3) by simp
  then show "dsum ys = whole" unfolding ys
    using remainder_exact [of "butlast xs" ?f W, folded assms(4), OF g _ W assms(5) r] by simp
  show "length ys = length xs" using ne by (simp add: ys)
  show "y \<in> set ys \<Longrightarrow> 0 < y" for y using p r by (auto simp: ys)
qed

lemma proportional_allocations_sum:
  assumes "\<And>x. x \<in> set xs \<Longrightarrow> 0 < x" "length xs < 10 ^ 9" "proportional_allocations xs \<noteq> []"
  shows "\<exists>ys. proportional_allocations xs = map decimal_text ys \<and> length ys = length xs \<and> dsum ys = 100
    \<and> map (finite_decimal \<circ> VStr) (proportional_allocations xs) = map Some ys"
proof -
  from assms(3) have ne: "xs \<noteq> []" and s: "0 < dsum xs"
    by (auto simp: proportional_allocations_def Let_def not_le split: if_splits)
  let ?f = "raised_share 100 (dsum xs)"
  let ?ys = "map ?f (butlast xs) @ [dsub 100 (dsum (map ?f (butlast xs)))]"
  have r: "0 < dsub 100 (dsum (map ?f (butlast xs)))" and t: "proportional_allocations xs = map decimal_text ?ys"
    using assms(3) s ne by (auto simp: proportional_allocations_def Let_def adjust_decimal_text_def [abs_def] split: if_splits)
  have g: "\<exists>k. ?f v = of_int k * tiny \<and> 0 \<le> k \<and> k \<le> 10 ^ 10" if "v \<in> set (butlast xs)" for v
  proof -
    have v: "v \<in> set xs" using that by (rule in_set_butlastD)
    then show ?thesis using assms(1) s member_le_dsum [of xs v] by (intro shares_on_grid) simp_all
  qed
  have "length (butlast xs) < 10 ^ 9" using assms(2) by simp
  then have sum: "dsum ?ys = 100"
    using remainder_exact [of "butlast xs" ?f "10 ^ 8", folded hundred_tiny, OF g _ _ _ r] by simp
  have "fits 28 (?f v)" if v: "v \<in> set (butlast xs)" for v
  proof -
    obtain k where "?f v = of_int k * tiny" "0 \<le> k" "k \<le> 10 ^ 10" using g [OF v] by blast
    then show ?thesis by (simp add: fits_grid small_count_def)
  qed
  then have "map (finite_decimal \<circ> VStr) (map decimal_text ?ys) = map Some ?ys"
    by (auto simp: dround_fits)
  then show ?thesis unfolding t using ne sum by (intro exI [of _ ?ys]) simp
qed

section \<open>Lemmas on sizes\<close>

text \<open>The sizes the sizer returns: whole steps, each at least the minimum, summing to the position.\<close>

definition sizes_fill :: "rat \<Rightarrow> rat \<Rightarrow> int \<Rightarrow> rat list \<Rightarrow> bool" where
  "sizes_fill t m N qs \<longleftrightarrow> (\<exists>ks. qs = map (\<lambda>k. of_int k * t) ks \<and> sum_list ks = N
     \<and> (\<forall>k\<in>set ks. m \<le> of_int k * t))"

lemma allocate_exact_sizes_fill:
  assumes "allocate_exact_sizes (of_int N * t) as (VDec (DFin t)) (VDec (DFin m)) = Inr qs"
    and "grid_step t" "0 < N" "N < 10 ^ 12" "0 < m"
  shows "sizes_fill t m N qs \<and> length qs = length as"
proof -
  let ?prices = "map (\<lambda>i. VInt (int i)) [1..<Suc (length as)]"
  let ?q = "\<lambda>leg. case tp_quantity leg of None \<Rightarrow> 0
                | Some q \<Rightarrow> (case finite_decimal (VStr q) of None \<Rightarrow> 0 | Some x \<Rightarrow> x)"
  from assms(1) obtain legs where b: "build_take_profit_plan ?prices (VStr ''long'')
      (AllocationList (map (\<lambda>a. VDec (DFin a)) as)) (VDec (DFin (of_int N * t))) (VDec (DFin t)) (VDec (DFin m)) = Inr legs"
    and q: "qs = map ?q legs"
    by (auto simp: allocate_exact_sizes_def Let_def split: sum.splits if_splits)
  have t0: "0 < t" using assms(2) by simp
  have v: "positive_value (VDec (DFin (of_int N * t))) = Some (of_int N * t)"
    "positive_value (VDec (DFin t)) = Some t" "positive_value (VDec (DFin m)) = Some m"
    using t0 assms(3,5) by simp_all
  from build_plan_quantities [OF b v assms(2,4)] obtain ks where
    ks: "length ks = length legs" "sum_list ks = N"
      "\<forall>i<length legs. \<exists>q. tp_quantity (legs ! i) = Some q \<and> m \<le> of_int (ks ! i) * t
         \<and> finite_decimal (VStr q) = Some (of_int (ks ! i) * t)" by blast
  have "qs = map (\<lambda>k. of_int k * t) ks"
  proof (rule nth_equalityI)
    fix i assume "i < length qs"
    then have i: "i < length legs" by (simp add: q)
    with ks(3) obtain x where "tp_quantity (legs ! i) = Some x" "finite_decimal (VStr x) = Some (of_int (ks ! i) * t)" by blast
    then show "qs ! i = map (\<lambda>k. of_int k * t) ks ! i" using i ks(1) by (simp add: q)
  qed (simp add: q ks(1))
  moreover have "\<forall>k\<in>set ks. m \<le> of_int k * t" using ks(1,3) by (auto simp: in_set_conv_nth)
  moreover have "length legs = length as"
    using build_plan_length [OF b] by (simp del: upt_Suc)
  ultimately show ?thesis using ks(1,2) by (auto simp: sizes_fill_def q)
qed


lemma rescale_allocations_length: "rescale_allocations xs = Some ys \<Longrightarrow> length ys = length xs"
  by (auto simp: rescale_allocations_def Let_def split: if_splits)

lemma allocate_sizes_fill:
  assumes "allocate_sizes (of_int N * t) as (VDec (DFin t)) (VDec (DFin m)) = Inr qs"
    and "grid_step t" "0 < N" "N < 10 ^ 12" "0 < m"
  shows "sizes_fill t m N qs \<and> length qs \<le> length as"
proof -
  have "sizes_fill t m N qs \<and> length qs \<le> n"
    if "allocate_sizes_loop n outcome (of_int N * t) as (VDec (DFin t)) (VDec (DFin m)) = Inr qs"
      "\<And>x. outcome \<noteq> Inr x" "n \<le> length as" for n outcome
    using that
  proof (induction n arbitrary: outcome)
    case (Suc n)
    show ?case
    proof (cases "rescale_allocations (take (Suc n) as)")
      case None
      with Suc.prems have "allocate_sizes_loop n outcome (of_int N * t) as (VDec (DFin t)) (VDec (DFin m)) = Inr qs" by simp
      from Suc.IH [OF this Suc.prems(2)] Suc.prems(3) show ?thesis by simp
    next
      case (Some scaled)
      let ?e = "allocate_exact_sizes (of_int N * t) scaled (VDec (DFin t)) (VDec (DFin m))"
      show ?thesis
      proof (cases "?e = Inl below_minimum")
        case True
        with Some Suc.prems have "allocate_sizes_loop n (Inl below_minimum) (of_int N * t) as (VDec (DFin t)) (VDec (DFin m)) = Inr qs"
          by simp
        from Suc.IH [OF this] Suc.prems(3) show ?thesis by simp
      next
        case False
        with Some Suc.prems(1) have e: "?e = Inr qs" by (simp add: Let_def)
        have "length scaled = length (take (Suc n) as)" using Some by (rule rescale_allocations_length)
        with allocate_exact_sizes_fill [OF e assms(2-5)] show ?thesis by simp
      qed
    qed
  qed simp
  from this [of "length as" "Inl below_minimum"] assms(1) show ?thesis by (simp add: allocate_sizes_def)
qed

lemma sizes_fill_sum: "sizes_fill t m N qs \<Longrightarrow> sum_list qs = of_int N * t"
proof -
  have "sum_list (map (\<lambda>k. of_int k * t) ks) = of_int (sum_list ks) * t" for ks
    by (induction ks) (simp_all add: distrib_right)
  then show "sizes_fill t m N qs \<Longrightarrow> ?thesis" by (auto simp: sizes_fill_def)
qed

lemma sizes_fill_ge: "sizes_fill t m N qs \<Longrightarrow> q \<in> set qs \<Longrightarrow> m \<le> q"
  by (auto simp: sizes_fill_def)

section \<open>Lemmas on matching and trimming\<close>

definition price_and_size :: "existing_take_profit \<Rightarrow> rat \<times> rat" where
  "price_and_size r = (fst r, fst (snd r))"

lemma match_targets_partition:
  "match_targets targets existing = (keep, place, rest) \<Longrightarrow>
     mset existing = mset keep + mset rest \<and> mset targets = mset (map price_and_size keep) + mset place"
proof (induction targets arbitrary: existing keep place rest)
  case (Cons target targets)
  obtain price amount where t: "target = (price, amount)" by (cases target)
  let ?P = "\<lambda>r. fst r = price \<and> fst (snd r) = amount"
  show ?case
  proof (cases "find ?P existing")
    case None
    with Cons.prems obtain place' where "match_targets targets existing = (keep, place', rest)" "place = target # place'"
      by (auto simp: t split: prod.splits)
    with Cons.IH show ?thesis by fastforce
  next
    case (Some r)
    then have r: "r \<in> set existing" "price_and_size r = target"
      by (auto dest: find_SomeD simp: t price_and_size_def)
    from Cons.prems Some obtain keep' where
      k: "match_targets targets (remove1 r existing) = (keep', place, rest)" "keep = r # keep'"
      by (auto simp: t split: prod.splits)
    from Cons.IH [OF k(1)] r k(2) show ?thesis
      by (simp, metis add_mset_add_single insert_DiffM set_mset_mset union_mset_add_mset_left)
  qed
qed simp

text \<open>When the resting orders are exactly the targets, there is nothing to place or cancel.\<close>

lemma match_targets_same: "match_targets (map price_and_size existing) existing = (keep, place, rest) \<Longrightarrow> place = [] \<and> rest = []"
proof (induction existing arbitrary: keep place rest)
  case (Cons r rows)
  have "find (\<lambda>x. fst x = fst r \<and> fst (snd x) = fst (snd r)) (r # rows) = Some r" by simp
  with Cons.prems obtain keep' where "match_targets (map price_and_size rows) rows = (keep', place, rest)"
    by (auto simp: price_and_size_def [of r] split: prod.splits)
  with Cons.IH show ?case by blast
qed simp

lemma sum_list_update_int:
  "i < length ks \<Longrightarrow> sum_list (ks[i := x]) = sum_list ks + x - ks ! i" for x :: int
  by (induction ks arbitrary: i) (auto split: nat.splits)

definition on_grid :: "rat \<Rightarrow> rat list \<Rightarrow> int list \<Rightarrow> (rat \<times> rat) list" where
  "on_grid t prices ks = zip prices (map (\<lambda>k. of_int k * t) ks)"

lemma on_grid_update:
  "i < length ks \<Longrightarrow> length prices = length ks \<Longrightarrow>
   (on_grid t prices ks)[i := (prices ! i, of_int x * t)] = on_grid t prices (ks[i := x])"
  unfolding on_grid_def by (simp add: zip_update [symmetric] map_update)

lemma on_grid_nth:
  "i < length ks \<Longrightarrow> length prices = length ks \<Longrightarrow> on_grid t prices ks ! i = (prices ! i, of_int (ks ! i) * t)"
  by (simp add: on_grid_def)

lemma min_grid: "0 < t \<Longrightarrow> min (of_int a * t) (of_int b * t) = of_int (min a b) * t" for t :: rat
  by (simp add: min_def)

lemma trim_others_grid:
  assumes "grid_step t" "length prices = length ks" "\<And>i. i \<in> set order \<Longrightarrow> i < length ks"
    and "\<And>k. k \<in> set ks \<Longrightarrow> 0 \<le> k \<and> k < 10 ^ 20" "\<bar>E\<bar> < 10 ^ 20"
    and "trim_others m order (on_grid t prices ks) (of_int E * t) = (others, left)"
  shows "\<exists>ks' E'. others = on_grid t prices ks' \<and> length ks' = length ks \<and> left = of_int E' * t
    \<and> E' - sum_list ks' = E - sum_list ks \<and> (\<forall>k\<in>set ks'. 0 \<le> k \<and> k < 10 ^ 20)"
  using assms(2-)
proof (induction order arbitrary: ks E)
  case Nil
  then show ?case by (intro exI [of _ ks] exI [of _ E]) simp
next
  case (Cons i order)
  have t: "0 < t" using assms(1) by simp
  show ?case
  proof (cases "E \<le> 0")
    case True
    then have "of_int E * t \<le> 0" using t by (simp add: mult_le_0_iff)
    with Cons.prems show ?thesis by (intro exI [of _ ks] exI [of _ E]) simp
  next
    case False
    then have ex: "\<not> of_int E * t \<le> 0" using t by (simp add: mult_le_0_iff not_le)
    have i: "i < length ks" using Cons.prems(2) by simp
    define k where "k = ks ! i"
    define c where "c = min E k"
    have k: "0 \<le> k" "k < 10 ^ 20" using Cons.prems(3) i by (simp_all add: k_def)
    have c: "0 \<le> c" "c \<le> k" "c \<le> E" using k False by (simp_all add: c_def)
    have nth: "on_grid t prices ks ! i = (prices ! i, of_int k * t)"
      using i Cons.prems(1) by (simp add: on_grid_nth k_def)
    have d1: "dsub (of_int k * t) (of_int c * t) = of_int (k - c) * t"
      using assms(1) c k by (intro dsub_grid) (simp_all add: small_count_def)
    have d2: "dsub (of_int E * t) (of_int c * t) = of_int (E - c) * t"
      using assms(1) c Cons.prems(4) by (intro dsub_grid) (simp_all add: small_count_def)
    have d3: "dsub (of_int (E - c) * t) (of_int (k - c) * t) = of_int (E - c - (k - c)) * t"
      using assms(1) c k Cons.prems(4) by (intro dsub_grid) (simp_all add: small_count_def)
    have step: "trim_others m (i # order) (on_grid t prices ks) (of_int E * t) =
      (if 0 < of_int (k - c) * t \<and> of_int (k - c) * t < m
       then trim_others m order (on_grid t prices (ks[i := 0])) (of_int (E - k) * t)
       else trim_others m order (on_grid t prices (ks[i := k - c])) (of_int (E - c) * t))"
    proof -
      have "(on_grid t prices ks)[i := (prices ! i, 0)] = on_grid t prices (ks[i := 0])"
        using on_grid_update [OF i Cons.prems(1), of t 0] by simp
      moreover have "(on_grid t prices ks)[i := (prices ! i, of_int (k - c) * t)] = on_grid t prices (ks[i := k - c])"
        by (rule on_grid_update [OF i Cons.prems(1)])
      moreover have "E - c - (k - c) = E - k" by simp
      ultimately show ?thesis
        unfolding trim_others.simps if_not_P [OF ex] nth prod.case Let_def min_grid [OF t] c_def [symmetric] d1 d2 d3
        by (simp only:)
    qed
    have upd: "\<And>z. z \<in> set (ks[i := x]) \<Longrightarrow> 0 \<le> z \<and> z < 10 ^ 20" if "0 \<le> x" "x \<le> k" for x
      using that k Cons.prems(3) set_update_subset_insert [of ks i x] by auto
    have len: "length prices = length (ks[i := x])" for x using Cons.prems(1) by simp
    have ord: "j \<in> set order \<Longrightarrow> j < length (ks[i := x])" for j x using Cons.prems(2) by simp
    show ?thesis
    proof (cases "0 < of_int (k - c) * t \<and> of_int (k - c) * t < m")
      case True
      then have r: "trim_others m order (on_grid t prices (ks[i := 0])) (of_int (E - k) * t) = (others, left)"
        using Cons.prems(5) step by simp
      have "\<bar>E - k\<bar> < 10 ^ 20" using k Cons.prems(4) False by linarith
      moreover have "0 \<le> z \<and> z < 10 ^ 20" if "z \<in> set (ks[i := 0])" for z
        using upd [OF _ _ that] k by simp
      ultimately obtain ks' E' where
        "others = on_grid t prices ks'" "length ks' = length ks" "left = of_int E' * t"
        "E' - sum_list ks' = E - k - sum_list (ks[i := 0])" "\<forall>k\<in>set ks'. 0 \<le> k \<and> k < 10 ^ 20" using Cons.IH [OF len ord _ _ r] by auto
      then show ?thesis using sum_list_update_int [OF i, of 0] by (auto simp: k_def)
    next
      case False
      then have r: "trim_others m order (on_grid t prices (ks[i := k - c])) (of_int (E - c) * t) = (others, left)"
        using Cons.prems(5) step by (simp only: if_False)
      have "\<bar>E - c\<bar> < 10 ^ 20" using c Cons.prems(4) \<open>\<not> E \<le> 0\<close> by linarith
      moreover have "0 \<le> z \<and> z < 10 ^ 20" if "z \<in> set (ks[i := k - c])" for z
        using upd [OF _ _ that] c by simp
      ultimately obtain ks' E' where
        "others = on_grid t prices ks'" "length ks' = length ks" "left = of_int E' * t"
        "E' - sum_list ks' = E - c - sum_list (ks[i := k - c])" "\<forall>k\<in>set ks'. 0 \<le> k \<and> k < 10 ^ 20" using Cons.IH [OF len ord _ _ r] by auto
      then show ?thesis using sum_list_update_int [OF i, of "k - c"] by (auto simp: k_def)
    qed
  qed
qed

section \<open>Properties of the adjustment plan\<close>

lemma status_refused [simp]: "ap_status (refused r c f) = plan_refused"
  by (simp add: refused_def)

lemma not_refused_split:
  "ap_status (if b then refused r c f else p) \<noteq> plan_refused \<longleftrightarrow> \<not> b \<and> ap_status p \<noteq> plan_refused"
  by simp

lemma plan_single_not_refused:
  assumes "ap_status (plan_single_tier i side remaining market existing filled minimum step) \<noteq> plan_refused"
  obtains price share targets where "map (\<lambda>t. adjust_positive (VStr t)) (ti_prices i) = [Some price]"
    "map (\<lambda>t. adjust_positive (VStr t)) (ti_allocations i) = [Some share]" "share < 100"
    "price \<notin> set filled" "\<not> tier_crossed price side market"
    "minimum \<le> adjust_round_down (ddiv (dmul remaining share) 100) step"
    "single_tier_targets side remaining existing price (ti_tier_index i)
       (adjust_round_down (ddiv (dmul remaining share) 100) step) minimum = Some targets"
    "plan_single_tier i side remaining market existing filled minimum step = finish_plan targets existing [] []"
    "targets \<noteq> []"
proof -
  from assms have l: "length (ti_prices i) = 1" "length (ti_allocations i) = 1"
    by (auto simp: plan_single_tier_def split: if_splits)
  then obtain p a where pa: "ti_prices i = [p]" "ti_allocations i = [a]"
    by (auto simp: length_Suc_conv)
  from assms pa show thesis
    unfolding plan_single_tier_def Let_def not_refused_split
    by (elim conjE) (clarsimp split: option.splits simp: not_refused_split not_less not_le if_bool_eq_conj,
      rule that, auto simp: plan_single_tier_def Let_def finish_plan_def)
qed

lemma whole_plan_not_refused:
  assumes "ap_status (whole_plan side remaining market existing filled minimum step prices shares) \<noteq> plan_refused"
  obtains rescaled sizes targets dropped where
    "rescale_allocations (map snd (filter (\<lambda>t. \<not> tier_crossed (fst t) side market)
       (py_sorted fst (side = ''short'') (filter (\<lambda>t. fst t \<notin> set filled) (zip prices shares))))) = Some rescaled"
    "allocate_sizes remaining rescaled (VDec (DFin step)) (VDec (DFin minimum)) = Inr sizes"
    "targets = filter (\<lambda>t. 0 < snd t) (zip (map fst (filter (\<lambda>t. \<not> tier_crossed (fst t) side market)
       (py_sorted fst (side = ''short'') (filter (\<lambda>t. fst t \<notin> set filled) (zip prices shares))))) sizes)"
    "\<And>e. whole_plan side remaining market e filled minimum step prices shares
      = finish_plan targets e dropped (map adjust_decimal_text (filter (\<lambda>p. p \<in> set filled) prices))"
    "targets \<noteq> []"
proof -
  let ?tiers = "filter (\<lambda>t. fst t \<notin> set filled) (zip prices shares)"
  let ?open = "filter (\<lambda>t. \<not> tier_crossed (fst t) side market) (py_sorted fst (side = ''short'') ?tiers)"
  let ?targets = "\<lambda>sizes. filter (\<lambda>t. 0 < snd t) (zip (map fst ?open) sizes)"
  have n: "?tiers \<noteq> []" "?open \<noteq> []" using assms unfolding whole_plan_def Let_def not_refused_split by argo+
  from assms n obtain rescaled where r: "rescale_allocations (map snd ?open) = Some rescaled"
    unfolding whole_plan_def Let_def not_refused_split by (cases "rescale_allocations (map snd ?open)") simp_all
  from assms n r obtain sizes where z: "allocate_sizes remaining rescaled (VDec (DFin step)) (VDec (DFin minimum)) = Inr sizes"
    unfolding whole_plan_def Let_def not_refused_split
    by (cases "allocate_sizes remaining rescaled (VDec (DFin step)) (VDec (DFin minimum))") simp_all
  have e: "whole_plan side remaining market e filled minimum step prices shares
      = finish_plan (?targets sizes) e (map (adjust_decimal_text \<circ> fst) (filter (\<lambda>t. tier_crossed (fst t) side market) (py_sorted fst (side = ''short'') ?tiers)))
          (map adjust_decimal_text (filter (\<lambda>p. p \<in> set filled) prices))" for e
    unfolding whole_plan_def Let_def if_not_P [OF n(1)] if_not_P [OF n(2)] r option.case z sum.case ..
  have "?targets sizes \<noteq> []"
  proof
    assume "?targets sizes = []"
    then show False using assms unfolding e by (simp add: finish_plan_def del: filter_empty_conv)
  qed
  then show thesis by (rule that [OF r z refl e])
qed

lemma adjustment_not_refused:
  assumes "ap_status (plan_take_profit_adjustment i side remaining_size last_price rows filled_prices strategy minq step_q) \<noteq> plan_refused"
  obtains market minimum step remaining existing where
    "adjust_positive last_price = Some market" "adjust_positive minq = Some minimum" "adjust_positive step_q = Some step"
    "is_long_or_short (norm_side side)" "adjust_positive remaining_size = Some remaining" "read_existing rows = Some existing"
    "if ti_mode i = mode_single_tier
     then plan_take_profit_adjustment i side remaining_size last_price rows filled_prices strategy minq step_q
       = plan_single_tier i (norm_side side) remaining market existing (List.map_filter adjust_decimal filled_prices) minimum step
     else (\<exists>prices shares. prices_and_shares i existing (List.map_filter adjust_decimal filled_prices) strategy = Inr (prices, shares)
       \<and> plan_take_profit_adjustment i side remaining_size last_price rows filled_prices strategy minq step_q
       = whole_plan (norm_side side) remaining market existing (List.map_filter adjust_decimal filled_prices) minimum step prices shares)"
  using assms unfolding plan_take_profit_adjustment_def Let_def
  by (auto split: option.splits sum.splits if_splits intro: that)

lemma finish_plan_reconciles:
  assumes "targets \<noteq> []"
  shows "\<exists>keep place rest. mset existing = mset keep + mset rest
    \<and> mset targets = mset (map price_and_size keep) + mset place
    \<and> ap_keep_order_ids (finish_plan targets existing c f) = map (snd \<circ> snd) keep
    \<and> ap_cancel_order_ids (finish_plan targets existing c f) = map (snd \<circ> snd) rest
    \<and> ap_place (finish_plan targets existing c f) = map text_pair place
    \<and> ap_targets (finish_plan targets existing c f) = map text_pair targets
    \<and> (ap_status (finish_plan targets existing c f) = plan_already_satisfied \<longleftrightarrow> place = [] \<and> rest = [])"
proof -
  obtain keep place rest where m: "match_targets targets existing = (keep, place, rest)" by (metis prod_cases3)
  have "ap_status (finish_plan targets existing c f) = plan_already_satisfied \<longleftrightarrow> place = [] \<and> rest = []"
    using assms m by (auto simp: finish_plan_def Let_def plan_ready_def plan_already_satisfied_def split: if_splits)
  with assms m match_targets_partition [OF m] show ?thesis by (auto simp: finish_plan_def Let_def)
qed

lemma match_targets_all:
  "mset targets = mset (map price_and_size existing) \<Longrightarrow>
   match_targets targets existing = (keep, place, rest) \<Longrightarrow> place = [] \<and> rest = []"
proof (induction targets arbitrary: existing keep place rest)
  case (Cons target targets)
  obtain price amount where t: "target = (price, amount)" by (cases target)
  let ?P = "\<lambda>r :: existing_take_profit. fst r = price \<and> fst (snd r) = amount"
  have "(price, amount) \<in> set (map price_and_size existing)"
    using Cons.prems(1) t by (metis list.set_intros(1) mset_eq_setD)
  then have "find ?P existing \<noteq> None" by (auto simp: find_None_iff price_and_size_def)
  then obtain r where f: "find ?P existing = Some r" by blast
  then have r: "r \<in> set existing" "price_and_size r = (price, amount)"
    by (auto simp: find_Some_iff price_and_size_def)
  have "mset (map price_and_size (remove1 r existing)) = mset targets"
  proof -
    have "add_mset r (mset (remove1 r existing)) = mset existing" using r(1) by simp
    then have "mset (map price_and_size existing) = add_mset (price, amount) (mset (map price_and_size (remove1 r existing)))"
      by (metis mset_map image_mset_add_mset r(2))
    with Cons.prems(1) t show ?thesis by simp
  qed
  with Cons.IH [of "remove1 r existing"] Cons.prems(2) f t show ?case by (auto split: prod.splits)
qed simp

text \<open>What reading a decimal back and a plan's shares rely on.\<close>

lemma map_filter_in: "y \<in> set (List.map_filter f xs) \<Longrightarrow> \<exists>x\<in>set xs. f x = Some y"
  by (auto simp: map_filter_def)

text \<open>
  Claim C30: a plan that is not refused reconciles the resting take profits with its targets: every
  resting order is either kept or cancelled, never both and never forgotten; the kept orders and
  the orders to place are together exactly the targets, price and size; and the plan is
  already satisfied exactly when nothing is to cancel and nothing to place.
\<close>

theorem adjustment_reconciles_orders:
  assumes "ap_status (plan_take_profit_adjustment i side remaining_size last_price rows filled strategy minq stepq) \<noteq> plan_refused"
  shows "\<exists>existing keep place rest targets. read_existing rows = Some existing
    \<and> mset existing = mset keep + mset rest
    \<and> mset targets = mset (map price_and_size keep) + mset place \<and> targets \<noteq> []
    \<and> (let p = plan_take_profit_adjustment i side remaining_size last_price rows filled strategy minq stepq
       in ap_keep_order_ids p = map (snd \<circ> snd) keep \<and> ap_cancel_order_ids p = map (snd \<circ> snd) rest
        \<and> ap_place p = map text_pair place \<and> ap_targets p = map text_pair targets
        \<and> (ap_status p = plan_already_satisfied \<longleftrightarrow> place = [] \<and> rest = []))"
proof -
  let ?p = "plan_take_profit_adjustment i side remaining_size last_price rows filled strategy minq stepq"
  from assms obtain existing targets c f where e: "read_existing rows = Some existing" "targets \<noteq> []"
      and p: "?p = finish_plan targets existing c f"
  proof (rule adjustment_not_refused)
    fix market minimum step remaining existing
    assume e: "read_existing rows = Some existing"
      and c: "if ti_mode i = mode_single_tier
     then ?p = plan_single_tier i (norm_side side) remaining market existing (List.map_filter adjust_decimal filled) minimum step
     else (\<exists>prices shares. prices_and_shares i existing (List.map_filter adjust_decimal filled) strategy = Inr (prices, shares)
       \<and> ?p = whole_plan (norm_side side) remaining market existing (List.map_filter adjust_decimal filled) minimum step prices shares)"
    show thesis
    proof (cases "ti_mode i = mode_single_tier")
      case True
      with c have q: "?p = plan_single_tier i (norm_side side) remaining market existing (List.map_filter adjust_decimal filled) minimum step" by simp
      show thesis by (rule plan_single_not_refused [OF assms [unfolded q]]) (rule that [OF e, unfolded q], assumption+)
    next
      case False
      with c obtain prices shares where q: "?p = whole_plan (norm_side side) remaining market existing
        (List.map_filter adjust_decimal filled) minimum step prices shares" by auto
      show thesis by (rule whole_plan_not_refused [OF assms [unfolded q]]) (rule that [OF e, unfolded q], assumption+)
    qed
  qed
  show ?thesis unfolding p using finish_plan_reconciles [OF e(2), of existing c f] e by (metis (mono_tags, lifting))
qed


lemma on_grid_snd: "length prices = length ks \<Longrightarrow> map snd (on_grid t prices ks) = map (\<lambda>k. of_int k * t) ks"
  by (simp add: on_grid_def)

text \<open>The tiers a whole plan keeps, and the sizes they get.\<close>

lemma zip_sizes_filter:
  assumes "length sizes \<le> length xs" "\<And>q. q \<in> set sizes \<Longrightarrow> (0::rat) < q"
  shows "filter (\<lambda>t. 0 < snd t) (zip xs sizes) = zip xs sizes" "map snd (zip xs sizes) = sizes"
proof -
  show "filter (\<lambda>t. 0 < snd t) (zip xs sizes) = zip xs sizes"
    using assms(2) by (auto intro!: filter_True dest: set_zip_rightD)
  show "map snd (zip xs sizes) = sizes" using assms(1)
    by (induction xs sizes rule: list_induct2') auto
qed

lemma sorted_wrt_zip_prefix:
  "sorted_wrt (\<lambda>a b. P (fst a) (fst b)) tiers \<Longrightarrow> sorted_wrt (\<lambda>a b. P (fst a) (fst b)) (zip (map fst tiers) sizes)"
proof (induction tiers arbitrary: sizes)
  case (Cons t tiers)
  then show ?case by (cases sizes) (auto dest!: set_zip_leftD)
qed simp

lemma whole_targets_sound:
  assumes "rescale_allocations (map snd open_tiers) = Some rescaled"
    and "allocate_sizes (of_int N * t) rescaled (VDec (DFin t)) (VDec (DFin m)) = Inr sizes"
    and "grid_step t" "0 < N" "N < 10 ^ 12" "0 < m"
    and "targets = filter (\<lambda>t. 0 < snd t) (zip (map fst open_tiers) sizes)"
  shows "map snd targets = sizes" "sum_list sizes = of_int N * t" "\<And>s. s \<in> set sizes \<Longrightarrow> m \<le> s"
    "set (map fst targets) \<subseteq> set (map fst open_tiers)"
    "sorted_wrt (\<lambda>a b. P (fst a) (fst b)) open_tiers \<Longrightarrow> sorted_wrt (\<lambda>a b. P (fst a) (fst b)) targets"
    "\<And>s. s \<in> set sizes \<Longrightarrow> fits 28 s"
proof -
  have f: "sizes_fill t m N sizes" "length sizes \<le> length rescaled"
    using allocate_sizes_fill [OF assms(2-6)] by simp_all
  have l: "length sizes \<le> length (map fst open_tiers)"
    using f(2) rescale_allocations_length [OF assms(1)] by simp
  have g: "m \<le> s" if "s \<in> set sizes" for s using f(1) that by (rule sizes_fill_ge)
  have p: "0 < q" if "q \<in> set sizes" for q using g [OF that] assms(6) by simp
  note z = zip_sizes_filter [OF l p]
  have t: "targets = zip (map fst open_tiers) sizes" by (simp only: assms(7) z(1))
  show "map snd targets = sizes" unfolding t by (rule z(2))
  show "sum_list sizes = of_int N * t" using f(1) by (rule sizes_fill_sum)
  show "\<And>s. s \<in> set sizes \<Longrightarrow> m \<le> s" by (rule g)
  show "set (map fst targets) \<subseteq> set (map fst open_tiers)" unfolding t by (auto dest: set_zip_leftD)
  show "sorted_wrt (\<lambda>a b. P (fst a) (fst b)) open_tiers \<Longrightarrow> sorted_wrt (\<lambda>a b. P (fst a) (fst b)) targets"
    unfolding t by (rule sorted_wrt_zip_prefix)
  show "fits 28 q" if q: "q \<in> set sizes" for q
  proof -
    obtain ks where ks: "sizes = map (\<lambda>k. of_int k * t) ks" "sum_list ks = N" using f(1) by (auto simp: sizes_fill_def)
    have pos: "0 < k" if "k \<in> set ks" for k
    proof -
      have "0 < of_int k * t" using p that unfolding ks(1) by auto
      then show ?thesis using grid_step_pos [OF assms(3)] by (simp add: zero_less_mult_iff)
    qed
    obtain k where k: "q = of_int k * t" "k \<in> set ks" using q unfolding ks(1) by auto
    have "k \<le> N" using member_le_sum_list [of k ks] k(2) pos ks(2) by (auto intro: less_imp_le)
    then show ?thesis unfolding k(1) using assms(3,5) pos [OF k(2)]
      by (intro fits_grid) (simp_all add: small_count_def)
  qed
qed

lemma adjustment_fields:
  assumes "targets \<noteq> []"
  shows "ap_targets (finish_plan targets existing c f) = map text_pair targets"
    "ap_allocations (finish_plan targets existing c f) = proportional_allocations (map snd targets)"
  using assms by (simp_all add: finish_plan_def Let_def split: prod.splits)

text \<open>
  The targets of a plan that resets the whole position (every mode but the single tier) are
  in profit order, none at a price the market has passed or that has filled already; each is at
  least the exchange's minimum; together they close exactly the remaining position; and the shares
  recorded with them, when recorded, add up to exactly 100.
\<close>

theorem adjustment_targets_sound:
  assumes "ap_status (plan_take_profit_adjustment i side remaining_size last_price rows filled strategy minq stepq) \<noteq> plan_refused"
    and "ti_mode i \<noteq> mode_single_tier"
    and "adjust_positive remaining_size = Some (of_int N * t)" "adjust_positive stepq = Some t"
    and "adjust_positive minq = Some m" "adjust_positive last_price = Some market"
    and "grid_step t" "N < 10 ^ 12" "length (ap_targets (plan_take_profit_adjustment i side remaining_size last_price rows filled strategy minq stepq)) < 10 ^ 9"
  shows "\<exists>targets shares. (let p = plan_take_profit_adjustment i side remaining_size last_price rows filled strategy minq stepq in
      ap_targets p = map text_pair targets
      \<and> sorted_wrt (\<lambda>a b. dir_le (norm_side side = ''short'') (fst a) (fst b)) targets
      \<and> (\<forall>(price, size)\<in>set targets. \<not> tier_crossed price (norm_side side) market
           \<and> price \<notin> set (List.map_filter adjust_decimal filled) \<and> m \<le> size)
      \<and> sum_list (map snd targets) = of_int N * t
      \<and> (ap_allocations p = [] \<or> ap_allocations p = map decimal_text shares \<and> length shares = length targets \<and> dsum shares = 100))"
proof -
  let ?p = "plan_take_profit_adjustment i side remaining_size last_price rows filled strategy minq stepq"
  let ?filled = "List.map_filter adjust_decimal filled" and ?s = "norm_side side"
  have pos: "0 < of_int N * t" "0 < t" "0 < m" using assms by (simp_all add: adjust_positive_Some)
  then have N: "0 < N" by (simp add: zero_less_mult_iff)
  from adjustment_not_refused [OF assms(1)] obtain existing prices shares where
      p: "?p = whole_plan ?s (of_int N * t) market existing ?filled m t prices shares"
    by (rule adjustment_not_refused [OF assms(1)]) (auto simp: assms(2-6) intro: that)
  let ?sorted = "py_sorted fst (?s = ''short'') (filter (\<lambda>t. fst t \<notin> set ?filled) (zip prices shares))"
  let ?open = "filter (\<lambda>t. \<not> tier_crossed (fst t) ?s market) ?sorted"
  from whole_plan_not_refused [OF assms(1) [unfolded p]] obtain rescaled sizes targets c f where
      r: "rescale_allocations (map snd ?open) = Some rescaled"
        "allocate_sizes (of_int N * t) rescaled (VDec (DFin t)) (VDec (DFin m)) = Inr sizes"
      and t: "targets = filter (\<lambda>t. 0 < snd t) (zip (map fst ?open) sizes)"
      and q: "?p = finish_plan targets existing c f" and ne: "targets \<noteq> []"
    unfolding p by metis
  note w = whole_targets_sound [OF r assms(7) N assms(8) pos(3) t]
  have s: "sorted_wrt (\<lambda>a b. dir_le (?s = ''short'') (fst a) (fst b)) targets"
    by (intro w(5) sorted_wrt_filter sorted_wrt_py_sorted)
  have g: "\<forall>(price, size)\<in>set targets. \<not> tier_crossed price ?s market \<and> price \<notin> set ?filled \<and> m \<le> size"
  proof clarify
    fix price size assume a: "(price, size) \<in> set targets"
    then have "price \<in> set (map fst targets)" "size \<in> set (map snd targets)" by force+
    then have "price \<in> set (map fst ?open)" "m \<le> size" using w(3,4) unfolding w(1) by auto
    then show "\<not> tier_crossed price ?s market \<and> price \<notin> set ?filled \<and> m \<le> size" by auto
  qed
  have len: "length sizes < 10 ^ 9"
    using assms(9) w(1) unfolding q adjustment_fields [OF ne] by (metis length_map)
  have sh: "\<exists>ys. proportional_allocations sizes = [] \<or> proportional_allocations sizes = map decimal_text ys \<and> length ys = length sizes \<and> dsum ys = 100"
  proof (cases "proportional_allocations sizes = []")
    case False
    then show ?thesis using proportional_allocations_sum [OF _ len] w(3) pos(3) by (meson less_le_trans)
  qed simp
  then obtain ys where "proportional_allocations sizes = [] \<or> proportional_allocations sizes = map decimal_text ys \<and> length ys = length sizes \<and> dsum ys = 100" by blast
  moreover have "length sizes = length targets" using w(1) by (metis length_map)
  ultimately show ?thesis unfolding q using s g w(2)
    by (intro exI [of _ targets] exI [of _ ys]) (simp add: adjustment_fields [OF ne] w(1))
qed


text \<open>Reading back what a plan wrote.\<close>

lemma no_comma: "filter (\<lambda>c. c \<noteq> CHR '','') (plain_text x) = plain_text x" if t: "terminating x"
proof -
  obtain i f where *: "list_all is_digit i" "i \<noteq> []" "list_all is_digit f"
    and p: "plain_text x = (if x < 0 then [CHR ''-''] else []) @ i @ (if f = [] then [] else CHR ''.'' # f)"
    using plain_text_digits [OF t] by metis
  have "\<not> is_digit (CHR '','')" by code_simp
  then have "\<And>c. c \<in> set i \<union> set f \<Longrightarrow> c \<noteq> CHR '',''" using * by (auto simp: list_all_iff)
  then show ?thesis unfolding p by (intro filter_True) (auto split: if_splits)
qed

lemma adjust_positive_text: "0 < x \<Longrightarrow> fits 28 x \<Longrightarrow> adjust_positive (VStr (adjust_decimal_text x)) = Some x"
proof -
  assume "0 < x" and f: "fits 28 x"
  have "filter (\<lambda>c. c \<noteq> CHR '','') (decimal_text x) = decimal_text x"
    unfolding decimal_text_def by (rule no_comma) (rule terminating_fits [OF fits_dround])
  then have "adjust_decimal (VStr (decimal_text x)) = Some (dround x)"
    by (simp add: adjust_decimal_def py_str_def)
  then show ?thesis using \<open>0 < x\<close> f by (simp add: adjust_positive_Some adjust_decimal_text_def dround_fits)
qed

lemma read_existing_targets:
  assumes "list_all (\<lambda>(a, b, i). adjust_positive a \<noteq> None \<and> adjust_positive b \<noteq> None \<and> py_strip (str_or_empty i) \<noteq> []) rows"
  shows "\<exists>existing. read_existing rows = Some existing
    \<and> map (\<lambda>r. (Some (fst (price_and_size r)), Some (snd (price_and_size r)))) existing
      = map (\<lambda>(a, b, i). (adjust_positive a, adjust_positive b)) rows"
  using assms
proof (induction rows)
  case (Cons row rows)
  obtain a b i where r: "row = (a, b, i)" by (cases row)
  with Cons obtain e where e: "read_existing rows = Some e"
    "map (\<lambda>r. (Some (fst (price_and_size r)), Some (snd (price_and_size r)))) e = map (\<lambda>(a, b, i). (adjust_positive a, adjust_positive b)) rows"
    by auto
  from Cons.prems r obtain x y where "adjust_positive a = Some x" "adjust_positive b = Some y" by auto
  with e Cons.prems r show ?case by (simp add: price_and_size_def)
qed simp

lemma finish_plan_same:
  assumes "mset targets = mset (map price_and_size existing)" "targets \<noteq> []"
  shows "ap_status (finish_plan targets existing c f) = plan_already_satisfied
    \<and> ap_cancel_order_ids (finish_plan targets existing c f) = [] \<and> ap_place (finish_plan targets existing c f) = []"
  using match_targets_all [OF assms(1)] assms(2) by (auto simp: finish_plan_def Let_def split: prod.splits)

lemma full_reset_ignores_existing:
  "ti_mode i = mode_full_reset \<Longrightarrow> prices_and_shares i existing filled strategy = prices_and_shares i existing' filled strategy"
  by (simp add: prices_and_shares_def mode_full_reset_def mode_prices_only_def mode_ratios_only_def Let_def)


text \<open>
  Claim C34: planning converges: take the plan of a full reset, execute it (the resting orders become the
  plan's targets, in any order and under any order ids) and plan again from the same instruction;
  the second plan is already satisfied, cancels nothing and places nothing.
\<close>

theorem adjustment_converges:
  assumes "ap_status (plan_take_profit_adjustment i side remaining_size last_price rows filled strategy minq stepq) \<noteq> plan_refused"
    and "ti_mode i = mode_full_reset"
    and "adjust_positive remaining_size = Some (of_int N * t)" "adjust_positive stepq = Some t"
    and "grid_step t" "N < 10 ^ 12"
    and "\<forall>p\<in>set (ti_prices i). \<forall>x. adjust_positive (VStr p) = Some x \<longrightarrow> fits 28 x"
    and "mset (map (\<lambda>(a, b, oid). (a, b)) rows') = mset (map (\<lambda>(a, b). (VStr a, VStr b))
      (ap_targets (plan_take_profit_adjustment i side remaining_size last_price rows filled strategy minq stepq)))"
    and "\<forall>(a, b, oid)\<in>set rows'. py_strip (str_or_empty oid) \<noteq> []"
  shows "(let p = plan_take_profit_adjustment i side remaining_size last_price rows' filled strategy minq stepq in
    ap_status p = plan_already_satisfied \<and> ap_cancel_order_ids p = [] \<and> ap_place p = [])"
proof -
  let ?plan = "\<lambda>rows. plan_take_profit_adjustment i side remaining_size last_price rows filled strategy minq stepq"
  let ?filled = "List.map_filter adjust_decimal filled" and ?s = "norm_side side"
  have ms: "ti_mode i \<noteq> mode_single_tier" using assms(2) by (simp add: mode_full_reset_def mode_single_tier_def)
  from adjustment_not_refused [OF assms(1)] obtain market m existing prices shares where
      r: "adjust_positive last_price = Some market" "adjust_positive minq = Some m" "is_long_or_short ?s"
      and ps: "prices_and_shares i existing ?filled strategy = Inr (prices, shares)"
      and p: "?plan rows = whole_plan ?s (of_int N * t) market existing ?filled m t prices shares"
    by (rule adjustment_not_refused [OF assms(1)]) (auto simp: ms assms(3,4) intro: that)
  have pos: "0 < of_int N * t" "0 < t" "0 < m" using assms r by (simp_all add: adjust_positive_Some)
  then have N: "0 < N" by (simp add: zero_less_mult_iff)
  let ?open = "filter (\<lambda>t. \<not> tier_crossed (fst t) ?s market) (py_sorted fst (?s = ''short'')
    (filter (\<lambda>t. fst t \<notin> set ?filled) (zip prices shares)))"
  from whole_plan_not_refused [OF assms(1) [unfolded p]] obtain rescaled sizes targets c f where
      sz: "rescale_allocations (map snd ?open) = Some rescaled"
        "allocate_sizes (of_int N * t) rescaled (VDec (DFin t)) (VDec (DFin m)) = Inr sizes"
      and t: "targets = filter (\<lambda>t. 0 < snd t) (zip (map fst ?open) sizes)"
      and q: "\<And>e. whole_plan ?s (of_int N * t) market e ?filled m t prices shares = finish_plan targets e c f"
      and ne: "targets \<noteq> []"
    by metis
  note w = whole_targets_sound [OF sz assms(5) N assms(6) pos(3) t]
  have pr: "prices = List.map_filter (\<lambda>t. adjust_positive (VStr t)) (ti_prices i)"
    using ps assms(2) by (auto simp: prices_and_shares_def refuse_def mode_full_reset_def mode_prices_only_def
      mode_ratios_only_def Let_def split: if_splits)
  have tg: "adjust_positive (VStr (adjust_decimal_text a)) = Some a" "adjust_positive (VStr (adjust_decimal_text b)) = Some b"
    if "(a, b) \<in> set targets" for a b
  proof -
    have "a \<in> set (map fst targets)" "b \<in> set (map snd targets)" using that by force+
    then have "a \<in> set (map fst ?open)" and b: "b \<in> set sizes" using w(4) unfolding w(1) by auto
    then have "a \<in> set prices" by (auto dest: set_zip_leftD)
    then obtain x where "x \<in> set (ti_prices i)" "adjust_positive (VStr x) = Some a"
      unfolding pr by (blast dest: map_filter_in)
    then have "0 < a" "fits 28 a" using assms(7) by (auto simp: adjust_positive_Some)
    then show "adjust_positive (VStr (adjust_decimal_text a)) = Some a" by (rule adjust_positive_text)
    have "0 < b" using w(3) [OF b] pos(3) by simp
    then show "adjust_positive (VStr (adjust_decimal_text b)) = Some b" using w(6) [OF b] by (rule adjust_positive_text)
  qed
  have rows: "mset (map (\<lambda>(a, b, oid). (a, b)) rows') = mset (map (\<lambda>t. (VStr (fst (text_pair t)), VStr (snd (text_pair t)))) targets)"
    using assms(8) unfolding p q adjustment_fields [OF ne] by (simp add: case_prod_unfold comp_def)
  let ?read = "\<lambda>(a, b). (adjust_positive a, adjust_positive b)"
  have "image_mset ?read (mset (map (\<lambda>(a, b, oid). (a, b)) rows'))
      = image_mset ?read (mset (map (\<lambda>t. (VStr (fst (text_pair t)), VStr (snd (text_pair t)))) targets))"
    unfolding rows ..
  also have "\<dots> = mset (map (\<lambda>t. (Some (fst t), Some (snd t))) targets)"
    using tg by (auto simp: text_pair_def image_mset.compositionality comp_def intro!: image_mset_cong)
  finally have read: "mset (map (\<lambda>(a, b, oid). (adjust_positive a, adjust_positive b)) rows')
      = mset (map (\<lambda>t. (Some (fst t), Some (snd t))) targets)"
    by (simp add: case_prod_unfold image_mset.compositionality comp_def)
  have "list_all (\<lambda>(a, b, oid). adjust_positive a \<noteq> None \<and> adjust_positive b \<noteq> None \<and> py_strip (str_or_empty oid) \<noteq> []) rows'"
  proof -
    have "adjust_positive a \<noteq> None \<and> adjust_positive b \<noteq> None" if "(a, b, oid) \<in> set rows'" for a b oid
    proof -
      have "(adjust_positive a, adjust_positive b) \<in> set (map (\<lambda>(a, b, oid). (adjust_positive a, adjust_positive b)) rows')"
        using that by force
      then show ?thesis unfolding mset_eq_setD [OF read] by auto
    qed
    with assms(9) show ?thesis by (auto simp: list_all_iff)
  qed
  then obtain e where e: "read_existing rows' = Some e"
      and em: "map (\<lambda>r. (Some (fst (price_and_size r)), Some (snd (price_and_size r)))) e = map (\<lambda>(a, b, i). (adjust_positive a, adjust_positive b)) rows'"
    using read_existing_targets by blast
  let ?some = "\<lambda>t :: rat \<times> rat. (Some (fst t), Some (snd t))"
  have im: "image_mset ?some (mset (map price_and_size e)) = image_mset ?some (mset targets)"
    using arg_cong [OF em, of mset] read by (simp add: image_mset.compositionality comp_def)
  have "inj ?some" by (rule injI) (simp add: prod_eq_iff)
  from injD [OF multiset.inj_map [OF this] im] have same: "mset targets = mset (map price_and_size e)" ..
  have "prices_and_shares i e ?filled strategy = Inr (prices, shares)"
    using ps full_reset_ignores_existing [OF assms(2)] by metis
  then have "?plan rows' = finish_plan targets e c f"
    unfolding plan_take_profit_adjustment_def Let_def
    by (simp only: r assms(3,4) e ms q option.case prod.case sum.case not_True_eq_False if_False)
  with finish_plan_same [OF same ne] show ?thesis by simp
qed


lemma adjust_round_down_grid:
  assumes "grid_step t" "0 \<le> N" "N < 10 ^ 12" "0 < a" "a \<le> 200"
  obtains k where "adjust_round_down (ddiv (dmul (of_int N * t) a) 100) t = of_int k * t" "0 \<le> k" "k \<le> 2 * N"
  using round_down_stage [OF assms] unfolding adjust_round_down_def plan_round_down_def by metis

lemma on_grid_of:
  assumes "\<forall>r\<in>set rows. \<exists>k. snd r = of_int k * t \<and> 0 \<le> k \<and> k < 10 ^ 10"
  obtains ks where "rows = on_grid t (map fst rows) ks" "length ks = length rows" "\<And>k. k \<in> set ks \<Longrightarrow> 0 \<le> k \<and> k < 10 ^ 10"
proof -
  from assms have "\<exists>ks. rows = on_grid t (map fst rows) ks \<and> length ks = length rows \<and> (\<forall>k\<in>set ks. 0 \<le> k \<and> k < 10 ^ 10)"
  proof (induction rows)
    case (Cons r rows)
    then obtain ks where "rows = on_grid t (map fst rows) ks" "length ks = length rows" "\<forall>k\<in>set ks. 0 \<le> k \<and> k < 10 ^ 10"
      by auto
    moreover from Cons.prems obtain k where "snd r = of_int k * t" "0 \<le> k" "k < 10 ^ 10" by auto
    ultimately show ?case by (intro exI [of _ "k # ks"]) (auto simp: on_grid_def prod_eq_iff)
  qed (simp add: on_grid_def)
  then show thesis using that by blast
qed

lemma single_tier_targets_grid:
  assumes "single_tier_targets side (of_int N * t) existing price ti (of_int A * t) m = Some targets"
    and "grid_step t" "\<forall>r\<in>set existing. \<exists>k. fst (snd r) = of_int k * t \<and> 0 \<le> k \<and> k < 10 ^ 10"
    and "length existing < 10 ^ 9" "0 \<le> N" "N < 10 ^ 12" "0 \<le> A" "A \<le> 2 * N"
  shows "sum_list (map snd targets) \<le> of_int N * t" "(price, of_int A * t) \<in> set targets"
    "\<And>r. r \<in> set targets \<Longrightarrow> r = (price, of_int A * t) \<or> 0 < snd r"
proof -
  let ?near = "py_sorted fst (side = ''short'') existing"
  define others where "others = map (\<lambda>(p, s, x). (p, s)) (without_index (replaced_tier (map fst ?near) price ti) ?near)"
  have sub: "set (without_index k xs) \<subseteq> set xs" "length (without_index k xs) \<le> length xs" for k and xs :: "'b list"
    by (auto simp: without_index_def dest: in_set_takeD in_set_dropD split: option.splits)
  have "\<forall>r\<in>set others. \<exists>k. snd r = of_int k * t \<and> 0 \<le> k \<and> k < 10 ^ 10"
    using assms(3) sub(1) unfolding others_def by fastforce
  then obtain ks where ks: "others = on_grid t (map fst others) ks" "length ks = length others"
      "\<And>k. k \<in> set ks \<Longrightarrow> 0 \<le> k \<and> k < 10 ^ 10"
    by (rule on_grid_of) (rule that, assumption, assumption, iprover)
  have "length others \<le> length ?near" unfolding others_def using sub(2) [of _ ?near] by simp
  then have "length others < 10 ^ 9" using assms(4) by simp
  then have "sum_list ks \<le> int (10 ^ 9) * 10 ^ 10"
    using sum_list_bounded [of ks "10 ^ 10"] ks(2,3) by (smt (verit) mult_right_mono of_nat_le_iff less_imp_le zero_le_power)
  then have S: "0 \<le> sum_list ks" "sum_list ks \<le> 10 ^ 19" using ks(3) by (auto intro: sum_list_nonneg)
  have sn: "map snd others = map (\<lambda>k. of_int k * t) ks" using ks(1,2) on_grid_snd [of "map fst others" ks t] by simp
  have "dsum (map snd others) = of_int (sum_list ks) * t"
    unfolding sn using assms(2) S ks(3) by (intro dsum_grid) (auto simp: small_count_def)
  then have ex: "dsub (dadd (dsum (map snd others)) (of_int A * t)) (of_int N * t) = of_int (sum_list ks + A - N) * t"
    using assms(2) S assms(5-8) by (simp add: dadd_grid dsub_grid small_count_def del: of_int_add of_int_diff)
  let ?order = "py_sorted (\<lambda>i. fst (others ! i)) (side = ''long'') [0..<length others]"
  obtain trimmed left where tr: "trim_others m ?order others (of_int (sum_list ks + A - N) * t) = (trimmed, left)" by fastforce
  have "\<exists>ks' E'. trimmed = on_grid t (map fst others) ks' \<and> length ks' = length ks \<and> left = of_int E' * t
    \<and> E' - sum_list ks' = sum_list ks + A - N - sum_list ks \<and> (\<forall>k\<in>set ks'. 0 \<le> k \<and> k < 10 ^ 20)"
  proof (rule trim_others_grid [OF assms(2)])
    show "trim_others m ?order (on_grid t (map fst others) ks) (of_int (sum_list ks + A - N) * t) = (trimmed, left)"
      using tr ks(1) by simp
    show "\<bar>sum_list ks + A - N\<bar> < 10 ^ 20" using S assms(5-8) by simp
    show "\<And>k. k \<in> set ks \<Longrightarrow> 0 \<le> k \<and> k < 10 ^ 20" using ks(3) by force
  qed (simp_all add: ks(2))
  then obtain ks' E' where k': "trimmed = on_grid t (map fst others) ks'" "length ks' = length ks" "left = of_int E' * t"
    "E' - sum_list ks' = A - N" "\<And>k. k \<in> set ks' \<Longrightarrow> 0 \<le> k" by auto
  have out: "\<not> 0 < left" "targets = py_sorted fst (side = ''short'') (filter (\<lambda>r. 0 < snd r) trimmed @ [(price, of_int A * t)])"
    using assms(1) tr unfolding single_tier_targets_def Let_def others_def [symmetric] ex by (simp_all split: if_splits)
  have E: "E' \<le> 0" using out(1) k'(3) grid_step_pos [OF assms(2)] by (simp add: zero_less_mult_iff)
  have "sum_list (map snd (filter (\<lambda>r. 0 < snd r) trimmed)) \<le> sum_list (map snd trimmed)"
  proof -
    have "0 \<le> snd r" if "r \<in> set trimmed" for r
    proof -
      have "snd r \<in> set (map (\<lambda>k. of_int k * t) ks')"
        using set_zip_rightD [of "fst r" "snd r"] that unfolding k'(1) on_grid_def prod.collapse .
      then show ?thesis using k'(5) grid_step_pos [OF assms(2)] by auto
    qed
    then show ?thesis by (induction trimmed) (auto intro!: add_increasing)
  qed
  also have "sum_list (map snd trimmed) = of_int (sum_list ks') * t"
  proof -
    have "map snd trimmed = map (\<lambda>k. of_int k * t) ks'" unfolding k'(1) using k'(2) ks(2) by (intro on_grid_snd) simp
    moreover have "sum_list (map (\<lambda>k. of_int k * t) xs) = of_int (sum_list xs) * t" for xs
      by (induction xs) (simp_all add: distrib_right)
    ultimately show ?thesis by simp
  qed
  also have "\<dots> + of_int A * t = of_int (sum_list ks' + A) * t" by (simp add: distrib_right)
  finally have le: "sum_list (map snd (filter (\<lambda>r. 0 < snd r) trimmed)) + of_int A * t \<le> of_int (sum_list ks' + A) * t" by simp
  have "sum_list (map snd targets) = sum_list (map snd (filter (\<lambda>r. 0 < snd r) trimmed @ [(price, of_int A * t)]))"
    unfolding out(2) sum_mset_sum_list [symmetric] mset_map mset_py_sorted ..
  also have "\<dots> \<le> of_int (sum_list ks' + A) * t" using le by simp
  also have "\<dots> \<le> of_int N * t" using k'(4) E grid_step_pos [OF assms(2)] by (intro mult_right_mono) simp_all
  finally show "sum_list (map snd targets) \<le> of_int N * t" .
  show "(price, of_int A * t) \<in> set targets" "\<And>r. r \<in> set targets \<Longrightarrow> r = (price, of_int A * t) \<or> 0 < snd r"
    unfolding out(2) by auto
qed


text \<open>
  A single-tier plan sets exactly the tier it was asked for, at the instructed price and at
  the instructed share of the position rounded down to the step, never below the exchange's
  minimum, never at a price already passed or filled; every other tier it leaves has a positive
  size; and all tiers together never close more than the remaining position.
\<close>

theorem single_tier_never_overcloses:
  assumes "ap_status (plan_take_profit_adjustment i side remaining_size last_price rows filled strategy minq stepq) \<noteq> plan_refused"
    and "ti_mode i = mode_single_tier"
    and "adjust_positive remaining_size = Some (of_int N * t)" "adjust_positive stepq = Some t"
    and "adjust_positive minq = Some m" "adjust_positive last_price = Some market"
    and "grid_step t" "N < 10 ^ 12" "read_existing rows = Some existing" "length existing < 10 ^ 9"
    and "\<forall>r\<in>set existing. \<exists>k. fst (snd r) = of_int k * t \<and> 0 \<le> k \<and> k < 10 ^ 10"
  shows "\<exists>targets price share. (let p = plan_take_profit_adjustment i side remaining_size last_price rows filled strategy minq stepq;
        size = adjust_round_down (ddiv (dmul (of_int N * t) share) 100) t in
      ap_targets p = map text_pair targets \<and> map (\<lambda>t. adjust_positive (VStr t)) (ti_prices i) = [Some price]
      \<and> map (\<lambda>t. adjust_positive (VStr t)) (ti_allocations i) = [Some share]
      \<and> (price, size) \<in> set targets \<and> m \<le> size \<and> \<not> tier_crossed price (norm_side side) market
      \<and> price \<notin> set (List.map_filter adjust_decimal filled)
      \<and> (\<forall>r\<in>set targets. 0 < snd r) \<and> sum_list (map snd targets) \<le> of_int N * t)"
proof -
  let ?p = "plan_take_profit_adjustment i side remaining_size last_price rows filled strategy minq stepq"
  let ?filled = "List.map_filter adjust_decimal filled" and ?s = "norm_side side"
  have pos: "0 < of_int N * t" "0 < m" using assms by (simp_all add: adjust_positive_Some)
  then have N: "0 < N" using grid_step_pos [OF assms(7)] by (simp add: zero_less_mult_iff)
  have p: "?p = plan_single_tier i ?s (of_int N * t) market existing ?filled m t"
    by (rule adjustment_not_refused [OF assms(1)]) (simp add: assms(2-6,9))
  obtain price share targets where pa: "map (\<lambda>t. adjust_positive (VStr t)) (ti_prices i) = [Some price]"
    "map (\<lambda>t. adjust_positive (VStr t)) (ti_allocations i) = [Some share]" and sh: "share < 100"
    and ok: "price \<notin> set ?filled" "\<not> tier_crossed price ?s market"
    and mn: "m \<le> adjust_round_down (ddiv (dmul (of_int N * t) share) 100) t"
    and tg: "single_tier_targets ?s (of_int N * t) existing price (ti_tier_index i)
       (adjust_round_down (ddiv (dmul (of_int N * t) share) 100) t) m = Some targets"
    and q: "?p = finish_plan targets existing [] []" and ne: "targets \<noteq> []"
    by (rule plan_single_not_refused [OF assms(1) [unfolded p]]) (rule that [unfolded p], assumption+)
  have "0 < share" using pa(2) by (auto simp: adjust_positive_Some)
  then obtain A where A: "adjust_round_down (ddiv (dmul (of_int N * t) share) 100) t = of_int A * t" "0 \<le> A" "A \<le> 2 * N"
    using adjust_round_down_grid [of t N share] assms(7,8) N sh by auto
  note g = single_tier_targets_grid [OF tg [unfolded A(1)] assms(7,11,10) _ assms(8) A(2,3)]
  have "0 < snd r" if "r \<in> set targets" for r using g(3) [OF _ that] N mn pos(2) A(1) by force
  then show ?thesis unfolding q using g(1,2) pa ok mn A(1) N
    by (intro exI [of _ targets] exI [of _ price] exI [of _ share]) (simp add: adjustment_fields [OF ne])
qed


section \<open>Witnesses\<close>

definition reset_example :: take_profit_instruction where
  "reset_example = \<lparr>ti_mode = mode_full_reset, ti_prices = [''110'', ''120''], ti_allocations = [''50'', ''50''],
     ti_tier_index = None, ti_stop_loss = None, ti_evidence = []\<rparr>"

definition tier_example :: take_profit_instruction where
  "tier_example = \<lparr>ti_mode = mode_single_tier, ti_prices = [''110''], ti_allocations = [''50''],
     ti_tier_index = None, ti_stop_loss = None, ti_evidence = []\<rparr>"

definition reset_plan :: take_profit_adjustment_plan where
  "reset_plan = plan_take_profit_adjustment reset_example (VStr ''long'') (VInt 10) (VInt 100)
   [(VInt 110, VInt 5, VStr ''a''), (VInt 130, VInt 5, VStr ''b'')] [] [] (VInt 1) (VInt 1)"

lemma reset_plan_ready:
  "ap_status reset_plan = ''ready''" "ap_targets reset_plan = [(''110'', ''5''), (''120'', ''5'')]"
  "ap_cancel_order_ids reset_plan = [''b'']" "ap_place reset_plan = [(''120'', ''5'')]"
  by code_simp+

lemma tier_plan_ready: "ap_status (plan_take_profit_adjustment tier_example (VStr ''long'') (VInt 10) (VInt 100)
   [(VInt 120, VInt 8, VStr ''a'')] [] [] (VInt 1) (VInt 1)) = ''ready''"
  by code_simp

lemma reader_examples:
  "adjust_positive (VInt 1) = Some 1" "adjust_positive (VInt 10) = Some 10" "adjust_positive (VInt 100) = Some 100"
  "adjust_positive (VStr ''110'') = Some 110" "adjust_positive (VStr ''120'') = Some 120"
  by code_simp+

lemma read_example: "read_existing [(VInt 120, VInt 8, VStr ''a'')] = Some [(120, 8, ''a'')]"
  by code_simp

lemma fits_small: "fits 28 110" "fits 28 120"
  using fits_count [of 110] fits_count [of 120] by (simp_all add: small_count_def)

theorem adjustment_reconciles_orders_witness:
  "\<exists>existing keep place rest targets. read_existing [(VInt 110, VInt 5, VStr ''a''), (VInt 130, VInt 5, VStr ''b'')] = Some existing
    \<and> mset existing = mset keep + mset rest
    \<and> mset targets = mset (map price_and_size keep) + mset place \<and> targets \<noteq> []
    \<and> ap_cancel_order_ids reset_plan = map (snd \<circ> snd) rest \<and> ap_place reset_plan = map text_pair place"
  using adjustment_reconciles_orders [where i = reset_example and side = "VStr ''long''" and remaining_size = "VInt 10"
      and last_price = "VInt 100" and rows = "[(VInt 110, VInt 5, VStr ''a''), (VInt 130, VInt 5, VStr ''b'')]"
      and filled = "[]" and strategy = "[]" and minq = "VInt 1" and stepq = "VInt 1"] reset_plan_ready(1)
  unfolding Let_def reset_plan_def [symmetric] by (simp add: plan_refused_def) blast

theorem adjustment_targets_sound_witness:
  "\<exists>targets shares. ap_targets reset_plan = map text_pair targets \<and> sum_list (map snd targets) = 10
    \<and> (\<forall>(price, size)\<in>set targets. \<not> tier_crossed price ''long'' 100 \<and> 1 \<le> size)
    \<and> (ap_allocations reset_plan = [] \<or> ap_allocations reset_plan = map decimal_text shares \<and> dsum shares = 100)"
proof -
  have "norm_side (VStr ''long'') = ''long''" by code_simp
  moreover have "ti_mode reset_example \<noteq> mode_single_tier" by code_simp
  ultimately show ?thesis
    using adjustment_targets_sound [where i = reset_example and side = "VStr ''long''" and remaining_size = "VInt 10"
      and last_price = "VInt 100" and rows = "[(VInt 110, VInt 5, VStr ''a''), (VInt 130, VInt 5, VStr ''b'')]"
      and filled = "[]" and strategy = "[]" and minq = "VInt 1" and stepq = "VInt 1" and N = 10 and t = 1 and m = 1 and market = 100]
      reset_plan_ready(1,2) grid_step_1
    unfolding Let_def reset_plan_def [symmetric] by (simp add: plan_refused_def reader_examples) (elim exE conjE, intro exI conjI, assumption+, blast)
qed

theorem adjustment_converges_witness:
  "ap_status (plan_take_profit_adjustment reset_example (VStr ''long'') (VInt 10) (VInt 100)
     [(VStr ''120'', VStr ''5'', VStr ''new''), (VStr ''110'', VStr ''5'', VStr ''a'')] [] [] (VInt 1) (VInt 1)) = plan_already_satisfied"
proof -
  have "ti_mode reset_example = mode_full_reset" "ti_prices reset_example = [''110'', ''120'']" by (simp_all add: reset_example_def)
  moreover have "py_strip (str_or_empty (VStr ''new'')) \<noteq> []" "py_strip (str_or_empty (VStr ''a'')) \<noteq> []" by code_simp+
  ultimately show ?thesis
    using adjustment_converges [where i = reset_example and side = "VStr ''long''" and remaining_size = "VInt 10"
      and last_price = "VInt 100" and rows = "[(VInt 110, VInt 5, VStr ''a''), (VInt 130, VInt 5, VStr ''b'')]"
      and filled = "[]" and strategy = "[]" and minq = "VInt 1" and stepq = "VInt 1" and N = 10 and t = 1
      and rows' = "[(VStr ''120'', VStr ''5'', VStr ''new''), (VStr ''110'', VStr ''5'', VStr ''a'')]"]
      reset_plan_ready(1,2) grid_step_1
    unfolding Let_def reset_plan_def [symmetric]
    by (simp add: plan_refused_def reader_examples fits_small add_mset_commute)
qed

theorem single_tier_never_overcloses_witness:
  "\<exists>targets. ap_targets (plan_take_profit_adjustment tier_example (VStr ''long'') (VInt 10) (VInt 100)
     [(VInt 120, VInt 8, VStr ''a'')] [] [] (VInt 1) (VInt 1)) = map text_pair targets
    \<and> (\<forall>r\<in>set targets. 0 < snd r) \<and> sum_list (map snd targets) \<le> 10"
proof -
  have "ti_mode tier_example = mode_single_tier" by (simp add: tier_example_def)
  moreover have "\<exists>k. 8 = (of_int k :: rat) \<and> 0 \<le> k \<and> k < 10 ^ 10" by (intro exI [of _ 8]) simp
  ultimately show ?thesis
    using single_tier_never_overcloses [where i = tier_example and side = "VStr ''long''" and remaining_size = "VInt 10"
      and last_price = "VInt 100" and rows = "[(VInt 120, VInt 8, VStr ''a'')]" and existing = "[(120, 8, ''a'')]"
      and filled = "[]" and strategy = "[]" and minq = "VInt 1" and stepq = "VInt 1" and N = 10 and t = 1 and m = 1 and market = 100]
      tier_plan_ready grid_step_1 read_example
    unfolding Let_def by (simp add: plan_refused_def reader_examples del: read_existing.simps) blast
qed

end
