(* ===== verification/Ws_Stream.thy ===== *)
theory Ws_Stream
  imports Py_Decimal "HOL-Library.AList"
begin

text \<open>
  The private stream's connection state machine, its newest-state-per-entity view and its
  reconnect backoff (\<open>deepcoin_ws_stream_state.py\<close>).

  The clocks are read by the callers of the definitions here: an operation of the state machine
  takes the value \<open>now_provider\<close> and \<open>monotonic_ms_provider\<close> answered. A dict keeps its insertion
  order and replaces a value in place, which is \<open>AList.update\<close>. The error a failing \<open>int(..)\<close>
  raises is always written as a \<open>ValueError\<close> (Python raises \<open>OverflowError\<close> for an infinity);
  what such an error leaves behind, a row half written, is modelled.
\<close>

section \<open>Constants\<close>

definition ws_state_connecting :: string where "ws_state_connecting = ''connecting''"
definition ws_state_healthy :: string where "ws_state_healthy = ''healthy''"
definition ws_state_disconnected :: string where "ws_state_disconnected = ''disconnected''"
definition ws_state_resyncing :: string where "ws_state_resyncing = ''resyncing''"

definition ws_states :: "string list" where
  "ws_states = [ws_state_connecting, ws_state_healthy, ws_state_disconnected, ws_state_resyncing]"

definition ws_state_transitions :: "(string \<times> string list) list" where
  "ws_state_transitions =
     [(ws_state_connecting, [ws_state_resyncing, ws_state_disconnected]),
      (ws_state_resyncing, [ws_state_healthy, ws_state_disconnected]),
      (ws_state_healthy, [ws_state_disconnected]),
      (ws_state_disconnected, [ws_state_connecting])]"

definition trigger_order_default_unit :: string where "trigger_order_default_unit = ''default''"

definition wake_tracked_fields :: "string list" where
  "wake_tracked_fields = [''order_status'', ''trigger_status'', ''trade_unit_id'', ''position_qty'']"

definition hour_ms :: int where "hour_ms = 3600000"

section \<open>Backoff\<close>

text \<open>
  Binary floating point: every operation is the exact one followed by the rounding \<open>fl\<close> of the
  machine's doubles, a parameter here; a power of two, which is exact, is not rounded.
  \<open>r\<close> is what \<open>rng()\<close> answered.
\<close>

definition compute_backoff_delay :: "(rat \<Rightarrow> rat) \<Rightarrow> int \<Rightarrow> rat \<Rightarrow> rat \<Rightarrow> rat \<Rightarrow> rat \<Rightarrow> rat" where
  "compute_backoff_delay fl attempt base_seconds cap_seconds jitter_ratio r =
     (let attempt0 = (if attempt < 0 then 0 else attempt);
          exponent = min attempt0 32;
          raw0 = fl (base_seconds * 2 ^ nat exponent);
          raw = (if cap_seconds < raw0 then cap_seconds else raw0);
          spread = fl (raw * jitter_ratio);
          delay = fl (raw + fl (spread * fl (fl (2 * r) - 1)))
      in if delay < 0 then 0 else if cap_seconds < delay then cap_seconds else delay)"

section \<open>Identity of an observed entity\<close>

record ws_entity_key =
  ek_channel :: string
  ek_identity :: string

definition entity_key :: "string \<Rightarrow> string \<Rightarrow> ws_entity_key" where
  "entity_key channel identity = \<lparr>ek_channel = channel, ek_identity = identity\<rparr>"

definition ws_clean :: "pyval \<Rightarrow> string option" where
  "ws_clean value =
     (if value = VNone then None
      else let stripped = py_strip (py_str value) in if stripped = [] then None else Some stripped)"

definition entity_key_for_row :: "row \<Rightarrow> ws_entity_key option" where
  "entity_key_for_row r =
     (let channel = py_strip (str_or_empty (row_get r ''channel''));
          order_sys_id = ws_clean (row_get r ''order_sys_id'');
          position_id = ws_clean (row_get r ''position_id'')
      in if channel = [] then None
         else if channel = ''Position'' then map_option (entity_key channel) position_id
         else if channel = ''Trade'' then
           (case order_sys_id of None \<Rightarrow> None
            | Some os \<Rightarrow>
                let fill_id = (case ws_clean (row_get r ''payload_hash'') of None \<Rightarrow> [] | Some h \<Rightarrow> h)
                in Some (entity_key channel (os @ '':'' @ fill_id)))
         else if channel = ''Order'' \<or> channel = ''TriggerOrder''
         then map_option (entity_key channel) order_sys_id
         else None)"

section \<open>The newest state of each entity\<close>

record ws_entity_state =
  es_key :: ws_entity_key
  es_exchange_time_ms :: "int option"
  es_received_ms :: int
  es_trade_unit_id :: "string option"
  es_position_id :: "string option"
  es_instrument_raw :: "string option"
  es_order_status :: "string option"
  es_trigger_status :: "string option"
  es_position_qty :: "string option"
  es_last_event_id :: "int option"
  es_update_count :: nat

definition new_entity_state :: "ws_entity_key \<Rightarrow> ws_entity_state" where
  "new_entity_state key =
     \<lparr>es_key = key, es_exchange_time_ms = None, es_received_ms = 0, es_trade_unit_id = None,
      es_position_id = None, es_instrument_raw = None, es_order_status = None,
      es_trigger_status = None, es_position_qty = None, es_last_event_id = None,
      es_update_count = 0\<rparr>"

definition order_of_times :: "int option \<Rightarrow> int \<Rightarrow> int \<times> int" where
  "order_of_times exchange_time_ms received_ms =
     ((case exchange_time_ms of None \<Rightarrow> - 1 | Some t \<Rightarrow> t), received_ms)"

definition ordering_tuple :: "ws_entity_state \<Rightarrow> int \<times> int" where
  "ordering_tuple st = order_of_times (es_exchange_time_ms st) (es_received_ms st)"

text \<open>\<open><\<close> on tuples.\<close>

definition tuple_less :: "int \<times> int \<Rightarrow> int \<times> int \<Rightarrow> bool" where
  "tuple_less a b \<longleftrightarrow> fst a < fst b \<or> fst a = fst b \<and> snd a < snd b"

record ws_apply_result =
  ar_key :: "ws_entity_key option"
  ar_applied :: bool
  ar_out_of_order :: bool
  ar_reason :: string
  ar_changed_fields :: "string set"

definition apply_result ::
    "ws_entity_key option \<Rightarrow> bool \<Rightarrow> bool \<Rightarrow> string \<Rightarrow> string set \<Rightarrow> ws_apply_result" where
  "apply_result key applied out_of_order reason changed =
     \<lparr>ar_key = key, ar_applied = applied, ar_out_of_order = out_of_order, ar_reason = reason,
      ar_changed_fields = changed\<rparr>"

record ws_tracker =
  wt_states :: "(ws_entity_key \<times> ws_entity_state) list"
  wt_window_ms :: int
  wt_out_of_order_events :: "int list"
  wt_applied_count :: nat
  wt_out_of_order_count :: nat
  wt_unidentified_count :: nat
  wt_seeded_count :: nat

definition new_tracker :: "int \<Rightarrow> ws_tracker" where
  "new_tracker out_of_order_window_ms =
     \<lparr>wt_states = [], wt_window_ms = out_of_order_window_ms, wt_out_of_order_events = [],
      wt_applied_count = 0, wt_out_of_order_count = 0, wt_unidentified_count = 0, wt_seeded_count = 0\<rparr>"

definition state_for :: "ws_entity_key \<Rightarrow> ws_tracker \<Rightarrow> ws_entity_state option" where
  "state_for key t = map_of (wt_states t) key"

definition entity_count :: "ws_tracker \<Rightarrow> nat" where
  "entity_count t = length (wt_states t)"

definition out_of_order_count_since :: "int \<Rightarrow> ws_tracker \<Rightarrow> nat" where
  "out_of_order_count_since floor_ms t =
     length (filter (\<lambda>stamp. floor_ms \<le> stamp) (wt_out_of_order_events t))"

definition put_state :: "ws_entity_key \<Rightarrow> ws_entity_state \<Rightarrow> ws_tracker \<Rightarrow> ws_tracker" where
  "put_state key st t = t\<lparr>wt_states := AList.update key st (wt_states t)\<rparr>"

definition watched_field :: "string \<Rightarrow> ws_entity_state \<Rightarrow> string option" where
  "watched_field name st =
     (if name = ''order_status'' then es_order_status st
      else if name = ''trigger_status'' then es_trigger_status st
      else if name = ''trade_unit_id'' then es_trade_unit_id st
      else es_position_qty st)"

definition watched_values :: "ws_entity_state \<Rightarrow> (string \<times> string option) list" where
  "watched_values st = map (\<lambda>name. (name, watched_field name st)) wake_tracked_fields"

definition changed_since :: "(string \<times> string option) list \<Rightarrow> ws_entity_state \<Rightarrow> string set" where
  "changed_since before st =
     set (filter (\<lambda>name. map_of before name \<noteq> Some (watched_field name st)) wake_tracked_fields)"

definition record_out_of_order :: "int \<Rightarrow> ws_tracker \<Rightarrow> ws_tracker" where
  "record_out_of_order received_ms t =
     (let events = wt_out_of_order_events t @ [received_ms];
          floor_ms = received_ms - wt_window_ms t
      in t\<lparr>wt_out_of_order_events :=
             (if 4096 < length events then filter (\<lambda>stamp. floor_ms \<le> stamp) events else events)\<rparr>)"

definition merge_trade_unit :: "string option \<Rightarrow> string option \<Rightarrow> string option" where
  "merge_trade_unit known incoming =
     (if incoming = None then known
      else if known = None then incoming
      else if known = incoming then known
      else if incoming = Some trigger_order_default_unit then known
      else incoming)"

definition merge_one_way_fields :: "row \<Rightarrow> ws_entity_state \<Rightarrow> ws_entity_state" where
  "merge_one_way_fields r st =
     (let st1 = st\<lparr>es_trade_unit_id := merge_trade_unit (es_trade_unit_id st) (ws_clean (row_get r ''trade_unit_id''))\<rparr>
      in case ws_clean (row_get r ''position_id'') of None \<Rightarrow> st1
         | Some p \<Rightarrow> st1\<lparr>es_position_id := Some p\<rparr>)"

definition keep_unless :: "string option \<Rightarrow> string option \<Rightarrow> string option" where
  "keep_unless known incoming = (case incoming of None \<Rightarrow> known | Some v \<Rightarrow> Some v)"

text \<open>
  \<open>_write\<close>: the new state and the fields that changed, or the state a failing \<open>int(event_id)\<close>
  leaves behind (the object is mutated in place, and the caller's dict already holds it).
\<close>

definition write_times :: "int option \<Rightarrow> int \<Rightarrow> ws_entity_state \<Rightarrow> ws_entity_state" where
  "write_times exchange_time_ms received_ms st =
     st\<lparr>es_exchange_time_ms := exchange_time_ms, es_received_ms := received_ms,
        es_update_count := Suc (es_update_count st)\<rparr>"

definition write_fields :: "row \<Rightarrow> ws_entity_state \<Rightarrow> ws_entity_state" where
  "write_fields r st = merge_one_way_fields r
     (st\<lparr>es_instrument_raw := keep_unless (es_instrument_raw st) (ws_clean (row_get r ''instrument_raw'')),
         es_order_status := keep_unless (es_order_status st) (ws_clean (row_get r ''order_status'')),
         es_trigger_status := keep_unless (es_trigger_status st) (ws_clean (row_get r ''trigger_status'')),
         es_position_qty := keep_unless (es_position_qty st) (ws_clean (row_get r ''position_qty''))\<rparr>)"

definition write_state ::
    "ws_entity_state \<Rightarrow> row \<Rightarrow> int option \<Rightarrow> int \<Rightarrow> ws_entity_state \<times> string set result" where
  "write_state st r exchange_time_ms received_ms =
     (let before = watched_values st;
          timed = write_times exchange_time_ms received_ms st
      in if row_get r ''event_id'' = VNone
         then (let written = write_fields r timed in (written, Inr (changed_since before written)))
         else (case py_int (row_get r ''event_id'') of
             None \<Rightarrow> (timed, Inl (ValueError ''event_id''))
           | Some event_id \<Rightarrow>
               let written = write_fields r (timed\<lparr>es_last_event_id := Some event_id\<rparr>)
               in (written, Inr (changed_since before written))))"

text \<open>\<open>int(row.get("received_ms") or 0)\<close> and the optional exchange time.\<close>

definition row_received_ms :: "row \<Rightarrow> int result" where
  "row_received_ms r =
     (let value = row_get r ''received_ms'' in
      if \<not> truthy value then Inr 0
      else case py_int value of None \<Rightarrow> Inl (ValueError ''received_ms'') | Some i \<Rightarrow> Inr i)"

definition row_exchange_time_ms :: "row \<Rightarrow> int option result" where
  "row_exchange_time_ms r =
     (let value = row_get r ''exchange_time_ms'' in
      if value = VNone then Inr None
      else case py_int value of None \<Rightarrow> Inl (ValueError ''exchange_time_ms'') | Some i \<Rightarrow> Inr (Some i))"

definition row_times :: "row \<Rightarrow> (int \<times> int option) result" where
  "row_times r = rbind (row_received_ms r) (\<lambda>received_ms.
     rbind (row_exchange_time_ms r) (\<lambda>exchange_time_ms. Inr (received_ms, exchange_time_ms)))"

definition written_result ::
    "ws_entity_key \<Rightarrow> string \<Rightarrow> ws_tracker \<Rightarrow> ws_entity_state \<times> string set result
     \<Rightarrow> ws_tracker \<times> ws_apply_result result" where
  "written_result key reason t outcome =
     (let stored = put_state key (fst outcome) t in
      case snd outcome of
        Inl e \<Rightarrow> (stored, Inl e)
      | Inr changed \<Rightarrow>
          (stored\<lparr>wt_applied_count := Suc (wt_applied_count stored)\<rparr>,
           Inr (apply_result (Some key) True False reason changed)))"

definition apply_row :: "row \<Rightarrow> ws_tracker \<Rightarrow> ws_tracker \<times> ws_apply_result result" where
  "apply_row r t =
     (case entity_key_for_row r of
        None \<Rightarrow> (t\<lparr>wt_unidentified_count := Suc (wt_unidentified_count t)\<rparr>,
                 Inr (apply_result None False False ''unidentified'' {}))
      | Some key \<Rightarrow>
     (case row_times r of
        Inl e \<Rightarrow> (t, Inl e)
      | Inr (received_ms, exchange_time_ms) \<Rightarrow>
     (case state_for key t of
        None \<Rightarrow> written_result key ''first_observation'' t
                  (write_state (new_entity_state key) r exchange_time_ms received_ms)
      | Some known \<Rightarrow>
          if tuple_less (order_of_times exchange_time_ms received_ms) (ordering_tuple known)
          then (let counted = record_out_of_order received_ms
                      (t\<lparr>wt_out_of_order_count := Suc (wt_out_of_order_count t)\<rparr>);
                    merged = merge_one_way_fields r known
                in (put_state key merged counted,
                    Inr (apply_result (Some key) False True ''older_than_known_state''
                          (changed_since (watched_values known) merged))))
          else written_result key ''advanced'' t
                 (write_state known r exchange_time_ms received_ms))))"

definition seed_state :: "row \<Rightarrow> int option \<Rightarrow> int \<Rightarrow> ws_entity_state \<Rightarrow> ws_entity_state" where
  "seed_state r exchange_time_ms received_ms st =
     st\<lparr>es_exchange_time_ms := exchange_time_ms, es_received_ms := received_ms,
        es_instrument_raw := keep_unless (es_instrument_raw st) (ws_clean (row_get r ''instrument_raw'')),
        es_position_id := keep_unless (es_position_id st) (ws_clean (row_get r ''position_id''))\<rparr>"

definition seed_row :: "row \<Rightarrow> ws_tracker \<Rightarrow> ws_tracker \<times> bool result" where
  "seed_row r t =
     (case entity_key_for_row r of
        None \<Rightarrow> (t, Inr False)
      | Some key \<Rightarrow>
     (case row_times r of
        Inl e \<Rightarrow> (t, Inl e)
      | Inr (received_ms, exchange_time_ms) \<Rightarrow>
          (let known = state_for key t;
               incoming_order = order_of_times exchange_time_ms received_ms
           in if (case known of None \<Rightarrow> False | Some k \<Rightarrow> \<not> tuple_less (ordering_tuple k) incoming_order)
              then (t, Inr False)
              else (let st = (case known of None \<Rightarrow> new_entity_state key | Some k \<Rightarrow> k);
                        stored = put_state key (seed_state r exchange_time_ms received_ms st) t
                    in (stored\<lparr>wt_seeded_count := Suc (wt_seeded_count stored)\<rparr>, Inr True)))))"

section \<open>The connection's state machine\<close>

record rest_read_failure =
  rf_call :: string
  rf_exception_type :: string
  rf_http_status :: "int option"

definition failure_as_text :: "rest_read_failure \<Rightarrow> string" where
  "failure_as_text f =
     rf_call f @ '':'' @ rf_exception_type f @ '':'' @
     (case rf_http_status f of None \<Rightarrow> ''-'' | Some s \<Rightarrow> int_text s)"

record resync_outcome =
  ro_converged :: bool
  ro_reason :: string
  ro_started_at :: "int option"
  ro_finished_at :: "int option"
  ro_step_durations_ms :: "(string \<times> int) list"
  ro_replayed_events :: int
  ro_rest_objects_before :: int
  ro_rest_objects_after :: int
  ro_advanced_entities :: int
  ro_incomplete_reads :: "string list"
  ro_unresolved_instruments :: "string list"
  ro_read_failures :: "rest_read_failure list"
  ro_seeded_entities :: int

record ws_machine =
  wm_state :: string
  wm_state_since :: int
  wm_state_since_ms :: int
  wm_reconnect_count :: nat
  wm_consecutive_failures :: nat
  wm_last_frame_at :: "int option"
  wm_last_frame_ms :: "int option"
  wm_last_resync_at :: "int option"
  wm_last_resync_outcome :: "string option"
  wm_last_resync_step_durations_ms :: "(string \<times> int) list"
  wm_last_resync_read_failures :: "rest_read_failure list"
  wm_last_resync_seeded_entities :: int
  wm_transitions :: "(string \<times> string \<times> string) list"

definition new_machine :: "int \<Rightarrow> int \<Rightarrow> ws_machine" where
  "new_machine now now_ms =
     \<lparr>wm_state = ws_state_connecting, wm_state_since = now, wm_state_since_ms = now_ms,
      wm_reconnect_count = 0, wm_consecutive_failures = 0, wm_last_frame_at = None,
      wm_last_frame_ms = None, wm_last_resync_at = None, wm_last_resync_outcome = None,
      wm_last_resync_step_durations_ms = [], wm_last_resync_read_failures = [],
      wm_last_resync_seeded_entities = 0, wm_transitions = []\<rparr>"

definition allowed_transitions :: "string \<Rightarrow> string list" where
  "allowed_transitions current =
     (case map_of ws_state_transitions current of None \<Rightarrow> [] | Some allowed \<Rightarrow> allowed)"

text \<open>\<open>del self.transitions[:-256]\<close> once there are more than 512.\<close>

definition trim_transitions :: "'a list \<Rightarrow> 'a list" where
  "trim_transitions xs = (if 512 < length xs then drop (length xs - 256) xs else xs)"

definition ws_transition :: "string \<Rightarrow> string \<Rightarrow> int \<Rightarrow> int \<Rightarrow> ws_machine \<Rightarrow> ws_machine result" where
  "ws_transition new_state reason now now_ms m =
     (if new_state \<notin> set ws_states
      then Inl (WsStateTransitionError (''unknown state '' @ CHR 0x27 # new_state @ [CHR 0x27]))
      else if new_state = wm_state m then Inr m
      else if new_state \<notin> set (allowed_transitions (wm_state m))
      then Inl (WsStateTransitionError (''illegal transition '' @ wm_state m @ '' -> '' @ new_state))
      else Inr (m\<lparr>
        wm_reconnect_count := (if new_state = ws_state_connecting \<and> wm_state m = ws_state_disconnected
                               then Suc (wm_reconnect_count m) else wm_reconnect_count m),
        wm_transitions := trim_transitions (wm_transitions m @ [(wm_state m, new_state, reason)]),
        wm_state := new_state, wm_state_since := now, wm_state_since_ms := now_ms\<rparr>))"

definition mark_frame_received :: "int \<Rightarrow> int \<Rightarrow> ws_machine \<Rightarrow> ws_machine" where
  "mark_frame_received now now_ms m = m\<lparr>wm_last_frame_at := Some now, wm_last_frame_ms := Some now_ms\<rparr>"

definition mark_connection_attempt_failed :: "ws_machine \<Rightarrow> ws_machine" where
  "mark_connection_attempt_failed m = m\<lparr>wm_consecutive_failures := Suc (wm_consecutive_failures m)\<rparr>"

definition outcome_text :: "resync_outcome \<Rightarrow> string" where
  "outcome_text outcome =
     (if ro_converged outcome then ''converged'' else ''not_converged:'' @ ro_reason outcome)"

definition record_resync :: "resync_outcome \<Rightarrow> int \<Rightarrow> ws_machine \<Rightarrow> ws_machine" where
  "record_resync outcome now m =
     m\<lparr>wm_last_resync_at := Some (case ro_finished_at outcome of Some t \<Rightarrow> t | None \<Rightarrow> now),
       wm_last_resync_outcome := Some (outcome_text outcome),
       wm_last_resync_step_durations_ms := ro_step_durations_ms outcome,
       wm_last_resync_read_failures := ro_read_failures outcome,
       wm_last_resync_seeded_entities := ro_seeded_entities outcome,
       wm_consecutive_failures := (if ro_converged outcome then 0 else wm_consecutive_failures m)\<rparr>"

definition permits_new_entry :: "int option \<Rightarrow> ws_machine \<Rightarrow> bool \<times> string" where
  "permits_new_entry open_gap_count m =
     (case open_gap_count of
        None \<Rightarrow> (False, ''gap_state_unknown'')
      | Some gaps \<Rightarrow>
          if wm_state m \<noteq> ws_state_healthy then (False, wm_state m)
          else if 0 < gaps then (False, ''open_gap'')
          else if wm_last_resync_outcome m \<noteq> Some ''converged'' then (False, ''no_converged_resync'')
          else (True, []))"

definition ws_observation_permits_new_entry :: "ws_machine option \<Rightarrow> int option \<Rightarrow> bool \<times> string" where
  "ws_observation_permits_new_entry machine open_gap_count =
     (case machine of None \<Rightarrow> (False, ''unavailable'') | Some m \<Rightarrow> permits_new_entry open_gap_count m)"

section \<open>Lemmas on the tracker\<close>

lemma state_for_put [simp]:
  "state_for k (put_state k' st t) = (if k = k' then Some st else state_for k t)"
  by (simp add: state_for_def put_state_def update_conv)

lemma state_for_counters [simp]:
  "state_for k (t\<lparr>wt_unidentified_count := n\<rparr>) = state_for k t"
  "state_for k (t\<lparr>wt_applied_count := n\<rparr>) = state_for k t"
  "state_for k (t\<lparr>wt_seeded_count := n\<rparr>) = state_for k t"
  "state_for k (t\<lparr>wt_out_of_order_count := n\<rparr>) = state_for k t"
  "state_for k (t\<lparr>wt_out_of_order_events := xs\<rparr>) = state_for k t"
  "state_for k (new_tracker w) = None"
  by (simp_all add: state_for_def new_tracker_def)

lemma state_for_record [simp]: "state_for k (record_out_of_order n t) = state_for k t"
  by (simp add: record_out_of_order_def Let_def)

lemma tuple_less_asym: "tuple_less a b \<Longrightarrow> \<not> tuple_less b a"
  by (auto simp: tuple_less_def)

lemma tuple_less_le_trans: "\<not> tuple_less i s \<Longrightarrow> tuple_less i x \<Longrightarrow> tuple_less s x"
  by (auto simp: tuple_less_def)

lemma tuple_less_irrefl [simp]: "\<not> tuple_less a a"
  by (simp add: tuple_less_def)

lemma merge_one_way_fields_eq:
  "merge_one_way_fields r st =
     st\<lparr>es_trade_unit_id := merge_trade_unit (es_trade_unit_id st) (ws_clean (row_get r ''trade_unit_id'')),
        es_position_id := keep_unless (es_position_id st) (ws_clean (row_get r ''position_id''))\<rparr>"
  by (cases "ws_clean (row_get r ''position_id'')") (simp_all add: merge_one_way_fields_def keep_unless_def)

lemma merge_one_way_fields_simps [simp]:
  "es_key (merge_one_way_fields r st) = es_key st"
  "es_exchange_time_ms (merge_one_way_fields r st) = es_exchange_time_ms st"
  "es_received_ms (merge_one_way_fields r st) = es_received_ms st"
  "es_trade_unit_id (merge_one_way_fields r st)
     = merge_trade_unit (es_trade_unit_id st) (ws_clean (row_get r ''trade_unit_id''))"
  by (simp_all add: merge_one_way_fields_eq)

lemma write_fields_simps [simp]:
  "es_key (write_fields r st) = es_key st"
  "es_exchange_time_ms (write_fields r st) = es_exchange_time_ms st"
  "es_received_ms (write_fields r st) = es_received_ms st"
  "es_trade_unit_id (write_fields r st)
     = merge_trade_unit (es_trade_unit_id st) (ws_clean (row_get r ''trade_unit_id''))"
  by (simp_all add: write_fields_def)

lemma write_state_simps [simp]:
  "es_key (fst (write_state st r e n)) = es_key st"
  "es_exchange_time_ms (fst (write_state st r e n)) = e"
  "es_received_ms (fst (write_state st r e n)) = n"
  by (simp_all add: write_state_def write_times_def Let_def split: option.split)

lemma write_state_unit:
  "es_trade_unit_id (fst (write_state st r e n)) = es_trade_unit_id st
   \<or> es_trade_unit_id (fst (write_state st r e n))
     = merge_trade_unit (es_trade_unit_id st) (ws_clean (row_get r ''trade_unit_id''))"
  by (simp add: write_state_def write_times_def Let_def split: option.split)

lemma state_for_written [simp]:
  "state_for k (fst (written_result key reason t outcome)) = (if k = key then Some (fst outcome) else state_for k t)"
  by (simp add: written_result_def Let_def split: sum.split)

text \<open>One step of the tracker, on a frame or on a row the resync read over REST.\<close>

datatype ws_event = Frame row | Rest_row row

fun event_row :: "ws_event \<Rightarrow> row" where
  "event_row (Frame r) = r"
| "event_row (Rest_row r) = r"

fun tracker_step :: "ws_event \<Rightarrow> ws_tracker \<Rightarrow> ws_tracker" where
  "tracker_step (Frame r) t = fst (apply_row r t)"
| "tracker_step (Rest_row r) t = fst (seed_row r t)"

definition tracker_run :: "ws_event list \<Rightarrow> ws_tracker \<Rightarrow> ws_tracker" where
  "tracker_run es t = fold tracker_step es t"

text \<open>The times an event orders its entity by, when it is readable.\<close>

definition event_order :: "ws_entity_key \<Rightarrow> ws_event \<Rightarrow> (int \<times> int) option" where
  "event_order k e = (if entity_key_for_row (event_row e) = Some k
     then (case row_times (event_row e) of Inl x \<Rightarrow> None
           | Inr (received_ms, exchange_time_ms) \<Rightarrow> Some (order_of_times exchange_time_ms received_ms))
     else None)"

lemma tracker_step_other:
  "event_order k e = None \<Longrightarrow> state_for k (tracker_step e t) = state_for k t"
  by (cases e) (auto simp: event_order_def apply_row_def seed_row_def Let_def split: option.splits sum.splits if_splits)

lemma tracker_step_first:
  assumes "event_order k e = Some i" "state_for k t = None"
  shows "\<exists>st. state_for k (tracker_step e t) = Some st \<and> es_key st = k \<and> ordering_tuple st = i"
  using assms
  by (cases e) (auto simp: event_order_def apply_row_def seed_row_def seed_state_def new_entity_state_def ordering_tuple_def Let_def
    split: option.splits sum.splits if_splits)

lemma tracker_step_known:
  assumes "event_order k e = Some i" "state_for k t = Some st"
  shows "\<exists>st'. state_for k (tracker_step e t) = Some st' \<and> es_key st' = es_key st
    \<and> ordering_tuple st' = (if tuple_less i (ordering_tuple st) then ordering_tuple st else i)"
proof (cases e)
  case (Frame r)
  then show ?thesis using assms
    by (auto simp: event_order_def apply_row_def ordering_tuple_def Let_def split: option.splits sum.splits if_splits)
next
  case (Rest_row r)
  have "i = ordering_tuple st" if "\<not> tuple_less (ordering_tuple st) i" "\<not> tuple_less i (ordering_tuple st)"
    using that by (auto simp: tuple_less_def prod_eq_iff)
  moreover have "\<not> (tuple_less (ordering_tuple st) i \<and> tuple_less i (ordering_tuple st))" by (auto simp: tuple_less_def)
  ultimately show ?thesis using assms Rest_row
    by (auto simp: event_order_def seed_row_def seed_state_def ordering_tuple_def Let_def split: option.splits sum.splits if_splits)
qed

lemma tracker_run_snoc: "tracker_run (es @ [e]) t = tracker_step e (tracker_run es t)"
  by (simp add: tracker_run_def)

lemma orders_snoc:
  "List.map_filter (event_order k) (es @ [e]) =
     List.map_filter (event_order k) es @ (case event_order k e of None \<Rightarrow> [] | Some i \<Rightarrow> [i])"
  by (simp add: map_filter_def split: option.split)

section \<open>Properties of the tracker\<close>

text \<open>
  Claim C32: the newest state wins whatever the order of arrival: after any sequence of frames and REST
  rows, an entity is known exactly when a readable row for it came, it is stored under its own
  key, and the times it carries are the greatest (exchange time first, receive time second) of all the rows that came
  for it.
\<close>

theorem newest_state_wins:
  "case state_for k (tracker_run es (new_tracker w)) of
     None \<Rightarrow> List.map_filter (event_order k) es = []
   | Some st \<Rightarrow> es_key st = k \<and> ordering_tuple st \<in> set (List.map_filter (event_order k) es)
       \<and> (\<forall>i\<in>set (List.map_filter (event_order k) es). \<not> tuple_less (ordering_tuple st) i)"
proof (induction es rule: rev_induct)
  case Nil
  then show ?case by (simp add: tracker_run_def map_filter_def)
next
  case (snoc e es)
  let ?t = "tracker_run es (new_tracker w)"
  show ?case
  proof (cases "event_order k e")
    case None
    with snoc tracker_step_other [OF None, of ?t] show ?thesis
      by (simp add: tracker_run_snoc orders_snoc split: option.splits)
  next
    case (Some i)
    show ?thesis
    proof (cases "state_for k ?t")
      case None
      from tracker_step_first [OF Some None] snoc None Some show ?thesis
        by (auto simp: tracker_run_snoc orders_snoc)
    next
      case (Some st)
      from tracker_step_known [OF \<open>event_order k e = Some i\<close> Some] snoc Some \<open>event_order k e = Some i\<close> show ?thesis
        by (auto simp: tracker_run_snoc orders_snoc dest: tuple_less_asym split: if_splits) (metis tuple_less_le_trans)
    qed
  qed
qed

definition position_row :: "int \<Rightarrow> string \<Rightarrow> row" where
  "position_row n q = [''channel'' \<mapsto> VStr ''Position'', ''position_id'' \<mapsto> VStr ''p'', ''received_ms'' \<mapsto> VInt n,
     ''exchange_time_ms'' \<mapsto> VInt n, ''position_qty'' \<mapsto> VStr q]"

theorem newest_state_wins_witness:
  "\<exists>st. state_for (entity_key ''Position'' ''p'') (tracker_run [Frame (position_row 5 ''1''), Frame (position_row 3 ''2'')] (new_tracker 1)) = Some st
     \<and> ordering_tuple st = (5, 5) \<and> es_position_qty st = Some ''1''"
proof -
  let ?es = "[Frame (position_row 5 ''1''), Frame (position_row 3 ''2'')]"
  have "List.map_filter (event_order (entity_key ''Position'' ''p'')) ?es = [(5, 5), (3, 3)]"
    by code_simp
  moreover have "map_option es_position_qty (state_for (entity_key ''Position'' ''p'') (tracker_run ?es (new_tracker 1))) = Some (Some ''1'')"
    by code_simp
  moreover have "tuple_less (3, 3) (5, 5)" by (simp add: tuple_less_def)
  ultimately show ?thesis
    using newest_state_wins [of "entity_key ''Position'' ''p''" ?es 1] by (auto split: option.splits)
qed

lemma merge_trade_unit_real:
  "known = Some u \<Longrightarrow> u \<noteq> trigger_order_default_unit \<Longrightarrow>
   \<exists>u'. merge_trade_unit known incoming = Some u' \<and> u' \<noteq> trigger_order_default_unit"
  by (auto simp: merge_trade_unit_def)

definition unit_known :: "ws_entity_key \<Rightarrow> ws_tracker \<Rightarrow> bool" where
  "unit_known k t \<longleftrightarrow> (\<exists>st u. state_for k t = Some st \<and> es_trade_unit_id st = Some u \<and> u \<noteq> trigger_order_default_unit)"

lemma unit_known_step:
  assumes "unit_known k t"
  shows "unit_known k (tracker_step e t)"
proof (cases "event_order k e")
  case None
  then show ?thesis using assms by (simp add: unit_known_def tracker_step_other)
next
  case (Some i)
  from assms obtain st u where st: "state_for k t = Some st" and u: "es_trade_unit_id st = Some u" "u \<noteq> trigger_order_default_unit"
    by (auto simp: unit_known_def)
  note m = merge_trade_unit_real [OF u]
  have "\<exists>st'. state_for k (tracker_step e t) = Some st' \<and> (es_trade_unit_id st' = es_trade_unit_id st
    \<or> es_trade_unit_id st' = merge_trade_unit (es_trade_unit_id st) (ws_clean (row_get (event_row e) ''trade_unit_id'')))"
    using Some st write_state_unit
    by (cases e) (auto simp: event_order_def apply_row_def seed_row_def seed_state_def Let_def split: option.splits sum.splits if_splits)
  then show ?thesis using m u by (auto simp: unit_known_def)
qed

text \<open>
  A trigger order's unit is one-way: once it names a real position, no later frame and no
  REST row, in any order and whatever it carries, brings \<open>default\<close> back or forgets it.
\<close>

theorem trade_unit_never_rolls_back:
  assumes "state_for k t = Some st" "es_trade_unit_id st = Some u" "u \<noteq> trigger_order_default_unit"
  shows "\<exists>st' u'. state_for k (tracker_run es t) = Some st' \<and> es_trade_unit_id st' = Some u'
    \<and> u' \<noteq> trigger_order_default_unit"
proof -
  have "unit_known k t" using assms by (auto simp: unit_known_def)
  then have "unit_known k (tracker_run es t)"
    by (induction es rule: rev_induct) (simp_all add: tracker_run_snoc unit_known_step, simp add: tracker_run_def)
  then show ?thesis by (auto simp: unit_known_def)
qed

definition trigger_row :: "int \<Rightarrow> string \<Rightarrow> row" where
  "trigger_row n u = [''channel'' \<mapsto> VStr ''TriggerOrder'', ''order_sys_id'' \<mapsto> VStr ''o'', ''received_ms'' \<mapsto> VInt n,
     ''trade_unit_id'' \<mapsto> VStr u]"

theorem trade_unit_never_rolls_back_witness:
  "\<exists>st' u'. state_for (entity_key ''TriggerOrder'' ''o'') (tracker_run [Frame (trigger_row 9 ''default'')]
      (tracker_run [Frame (trigger_row 5 ''p7'')] (new_tracker 1))) = Some st'
    \<and> es_trade_unit_id st' = Some u' \<and> u' \<noteq> trigger_order_default_unit"
proof -
  have "map_option es_trade_unit_id (state_for (entity_key ''TriggerOrder'' ''o'') (tracker_run [Frame (trigger_row 5 ''p7'')] (new_tracker 1)))
    = Some (Some ''p7'')" by code_simp
  then obtain st where "state_for (entity_key ''TriggerOrder'' ''o'') (tracker_run [Frame (trigger_row 5 ''p7'')] (new_tracker 1)) = Some st"
    "es_trade_unit_id st = Some ''p7''" by auto
  from trade_unit_never_rolls_back [OF this] show ?thesis by (simp add: trigger_order_default_unit_def)
qed

text \<open>
  A frame rejected as older rolls nothing back: of its entity only the trade unit, merged
  one-way, and a position id it carries may change, no other entity changes at all, and every
  result names exactly the watched fields whose stored value it changed.
\<close>

lemma changed_since_iff:
  "name \<in> changed_since (watched_values st) st' \<longleftrightarrow>
     name \<in> set wake_tracked_fields \<and> watched_field name st \<noteq> watched_field name st'"
  by (auto simp: changed_since_def watched_values_def map_of_map_restrict wake_tracked_fields_def)

theorem apply_row_effects:
  assumes "apply_row r t = (t', Inr res)" "ar_key res = Some k"
  shows "\<exists>st'. state_for k t' = Some st' \<and> (\<forall>k'. k' \<noteq> k \<longrightarrow> state_for k' t' = state_for k' t)
    \<and> (ar_out_of_order res \<longrightarrow> \<not> ar_applied res \<and> (\<exists>st. state_for k t = Some st
         \<and> st' = st\<lparr>es_trade_unit_id := merge_trade_unit (es_trade_unit_id st) (ws_clean (row_get r ''trade_unit_id'')),
                    es_position_id := keep_unless (es_position_id st) (ws_clean (row_get r ''position_id''))\<rparr>))
    \<and> ar_changed_fields res = {name \<in> set wake_tracked_fields.
         watched_field name (case state_for k t of None \<Rightarrow> new_entity_state k | Some st \<Rightarrow> st) \<noteq> watched_field name st'}"
proof -
  have w: "snd (write_state st r e n) = Inr c \<Longrightarrow> c = changed_since (watched_values st) (fst (write_state st r e n))" for st e n c
    by (auto simp: write_state_def Let_def split: if_splits option.splits)
  from assms show ?thesis
    by (auto simp: apply_row_def written_result_def apply_result_def Let_def merge_one_way_fields_eq [symmetric]
      changed_since_iff dest!: w split: option.splits sum.splits if_splits prod.splits)
qed

theorem apply_row_effects_witness:
  "\<exists>st'. state_for (entity_key ''TriggerOrder'' ''o'') (fst (apply_row (trigger_row 9 ''p7'') (new_tracker 1))) = Some st'
     \<and> ar_changed_fields (apply_result (Some (entity_key ''TriggerOrder'' ''o'')) True False ''first_observation'' {''trade_unit_id''})
       = {name \<in> set wake_tracked_fields. watched_field name (new_entity_state (entity_key ''TriggerOrder'' ''o'')) \<noteq> watched_field name st'}"
proof -
  let ?k = "entity_key ''TriggerOrder'' ''o''" and ?t = "new_tracker 1"
  have s: "snd (apply_row (trigger_row 9 ''p7'') ?t) = Inr (apply_result (Some ?k) True False ''first_observation'' {''trade_unit_id''})"
    by code_simp
  then have a: "apply_row (trigger_row 9 ''p7'') ?t = (fst (apply_row (trigger_row 9 ''p7'') ?t),
      Inr (apply_result (Some ?k) True False ''first_observation'' {''trade_unit_id''}))"
    by (metis prod.collapse)
  from apply_row_effects [OF a, of ?k] show ?thesis by (auto simp: apply_result_def)
qed


section \<open>The state machine as a step relation\<close>

datatype machine_event =
    Transition string string int int
  | Frame_received int int
  | Attempt_failed
  | Resync_recorded resync_outcome int

text \<open>A raise leaves the machine as it was.\<close>

fun machine_step :: "machine_event \<Rightarrow> ws_machine \<Rightarrow> ws_machine" where
  "machine_step (Transition s reason now now_ms) m =
     (case ws_transition s reason now now_ms m of Inl e \<Rightarrow> m | Inr m' \<Rightarrow> m')"
| "machine_step (Frame_received now now_ms) m = mark_frame_received now now_ms m"
| "machine_step Attempt_failed m = mark_connection_attempt_failed m"
| "machine_step (Resync_recorded outcome now) m = record_resync outcome now m"

definition machine_run :: "machine_event list \<Rightarrow> ws_machine \<Rightarrow> ws_machine" where
  "machine_run es m = fold machine_step es m"

lemma machine_run_snoc [simp]: "machine_run (es @ [e]) m = machine_step e (machine_run es m)"
  by (simp add: machine_run_def)

lemma machine_run_append: "machine_run (xs @ ys) m = machine_run ys (machine_run xs m)"
  by (simp add: machine_run_def)

lemma machine_run_Nil [simp]: "machine_run [] m = m"
  by (simp add: machine_run_def)

inductive ws_reachable :: "ws_machine \<Rightarrow> bool" where
  start: "ws_reachable (new_machine now now_ms)"
| step: "ws_reachable m \<Longrightarrow> ws_reachable (machine_step e m)"

fun transition_chain :: "(string \<times> string \<times> string) list \<Rightarrow> bool" where
  "transition_chain [] = True"
| "transition_chain [(a, b, r)] = (b \<in> set (allowed_transitions a))"
| "transition_chain ((a, b, r) # (c, d, q) # ts) =
     (b \<in> set (allowed_transitions a) \<and> b = c \<and> transition_chain ((c, d, q) # ts))"

lemma transition_chain_append:
  "transition_chain (ts @ [(c, d, q)]) \<longleftrightarrow>
     transition_chain ts \<and> (ts = [] \<or> fst (snd (last ts)) = c) \<and> d \<in> set (allowed_transitions c)"
  by (induction ts rule: transition_chain.induct) auto

lemma transition_chain_drop: "transition_chain ts \<Longrightarrow> transition_chain (drop n ts)"
proof (induction ts arbitrary: n rule: transition_chain.induct)
  case (3 a b r c d q ts)
  then show ?case by (cases n) auto
next
  case (2 a b r)
  then show ?case by (cases n) auto
qed simp

lemma trim_transitions_simps:
  "xs \<noteq> [] \<Longrightarrow> last (trim_transitions xs) = last xs" "xs \<noteq> [] \<Longrightarrow> trim_transitions xs \<noteq> []"
  "length xs \<le> 513 \<Longrightarrow> length (trim_transitions xs) \<le> 512"
  "transition_chain xs \<Longrightarrow> transition_chain (trim_transitions xs)"
  by (auto simp: trim_transitions_def transition_chain_drop last_drop)

text \<open>What every reachable machine satisfies.\<close>

definition machine_ok :: "ws_machine \<Rightarrow> bool" where
  "machine_ok m \<longleftrightarrow> wm_state m \<in> set ws_states \<and> transition_chain (wm_transitions m)
     \<and> length (wm_transitions m) \<le> 512
     \<and> (if wm_transitions m = [] then wm_state m = ws_state_connecting
         else fst (snd (last (wm_transitions m))) = wm_state m)
     \<and> length (filter (\<lambda>(a, b, r). a = ws_state_disconnected \<and> b = ws_state_connecting) (wm_transitions m))
          \<le> wm_reconnect_count m"

lemma filter_trim: "length (filter P (trim_transitions xs)) \<le> length (filter P xs)"
proof (cases "512 < length xs")
  case True
  have "filter P xs = filter P (take (length xs - 256) xs) @ filter P (drop (length xs - 256) xs)"
    by (metis append_take_drop_id filter_append)
  with True show ?thesis by (simp add: trim_transitions_def)
qed (simp add: trim_transitions_def)

lemma transition_ok:
  assumes "machine_ok m" "ws_transition s reason now now_ms m = Inr m'"
  shows "machine_ok m'"
proof (cases "s = wm_state m")
  case True
  then show ?thesis using assms by (auto simp: ws_transition_def split: if_splits)
next
  case False
  let ?ts = "wm_transitions m @ [(wm_state m, s, reason)]"
  let ?P = "\<lambda>(a, b, r). a = ws_state_disconnected \<and> b = ws_state_connecting"
  from False assms(2) have ok: "s \<in> set ws_states" "s \<in> set (allowed_transitions (wm_state m))"
    and m': "wm_state m' = s" "wm_transitions m' = trim_transitions ?ts"
      "wm_reconnect_count m' = (if s = ws_state_connecting \<and> wm_state m = ws_state_disconnected
                               then Suc (wm_reconnect_count m) else wm_reconnect_count m)"
    by (auto simp: ws_transition_def split: if_splits)
  have c: "transition_chain ?ts" "length ?ts \<le> 513" "?ts \<noteq> []" using assms(1) ok(2)
    by (auto simp: machine_ok_def transition_chain_append split: if_splits)
  have "length (filter ?P (trim_transitions ?ts)) \<le> length (filter ?P ?ts)" by (rule filter_trim)
  also have "\<dots> \<le> wm_reconnect_count m'" using assms(1) unfolding m'(3) by (auto simp: machine_ok_def)
  finally have cnt: "length (filter ?P (wm_transitions m')) \<le> wm_reconnect_count m'" unfolding m'(2) .
  show ?thesis using trim_transitions_simps(1,2) [OF c(3)] trim_transitions_simps(3) [OF c(2)] trim_transitions_simps(4) [OF c(1)]
      ok(1) cnt unfolding machine_ok_def m'(1,2) by simp
qed

lemma reachable_ok: "ws_reachable m \<Longrightarrow> machine_ok m"
proof (induction rule: ws_reachable.induct)
  case (start now now_ms)
  then show ?case by (simp add: machine_ok_def new_machine_def ws_states_def)
next
  case (step m e)
  then show ?case
  proof (cases e)
    case (Transition s reason now now_ms)
    with step transition_ok show ?thesis by (auto split: sum.split)
  qed (simp_all add: machine_ok_def mark_frame_received_def mark_connection_attempt_failed_def record_resync_def)
qed

text \<open>
  Every reachable stream state is one of the four, its transition log is a chain of legal
  transitions that ends in the current state, bounded by 512 entries, and the reconnect count
  covers every reconnect the log still shows.
\<close>

theorem ws_transition_log_sound:
  assumes "ws_reachable m"
  shows "wm_state m \<in> set ws_states \<and> transition_chain (wm_transitions m) \<and> length (wm_transitions m) \<le> 512
    \<and> (wm_transitions m \<noteq> [] \<longrightarrow> fst (snd (last (wm_transitions m))) = wm_state m)
    \<and> length (filter (\<lambda>(a, b, r). a = ws_state_disconnected \<and> b = ws_state_connecting) (wm_transitions m))
         \<le> wm_reconnect_count m"
  using reachable_ok [OF assms] by (auto simp: machine_ok_def split: if_splits)

definition converged_outcome :: resync_outcome where
  "converged_outcome = \<lparr>ro_converged = True, ro_reason = [], ro_started_at = None, ro_finished_at = Some 3,
     ro_step_durations_ms = [], ro_replayed_events = 0, ro_rest_objects_before = 0, ro_rest_objects_after = 0,
     ro_advanced_entities = 0, ro_incomplete_reads = [], ro_unresolved_instruments = [], ro_read_failures = [],
     ro_seeded_entities = 0\<rparr>"

definition healthy_run :: "machine_event list" where
  "healthy_run = [Transition ws_state_resyncing ''connected'' 1 1, Resync_recorded converged_outcome 2,
     Transition ws_state_healthy ''resync'' 3 3]"

theorem ws_transition_log_sound_witness:
  "wm_state (machine_run healthy_run (new_machine 0 0)) = ws_state_healthy
   \<and> transition_chain (wm_transitions (machine_run healthy_run (new_machine 0 0)))"
proof -
  have "ws_reachable (machine_run es (new_machine 0 0))" for es
    by (induction es rule: rev_induct) (auto intro: ws_reachable.intros)
  note ws_transition_log_sound [OF this [of healthy_run]]
  moreover have "wm_state (machine_run healthy_run (new_machine 0 0)) = ws_state_healthy" by code_simp
  ultimately show ?thesis by simp
qed

text \<open>A new entry is permitted only behind a resync that converged.\<close>

lemma enters_healthy:
  assumes "wm_state m \<noteq> ws_state_healthy" "wm_state (machine_step e m) = ws_state_healthy"
  shows "wm_state m = ws_state_resyncing \<and> (\<exists>reason now now_ms. e = Transition ws_state_healthy reason now now_ms)"
  using assms
  by (cases e) (auto simp: ws_transition_def mark_frame_received_def mark_connection_attempt_failed_def record_resync_def
    allowed_transitions_def ws_state_transitions_def ws_states_def
    ws_state_connecting_def ws_state_healthy_def ws_state_disconnected_def ws_state_resyncing_def
    split: sum.splits if_splits option.splits)

definition last_outcome :: "machine_event list \<Rightarrow> string option" where
  "last_outcome es = (case rev (List.map_filter (\<lambda>e. case e of Resync_recorded outcome now \<Rightarrow> Some (outcome_text outcome) | _ \<Rightarrow> None) es) of
     [] \<Rightarrow> None | t # ts \<Rightarrow> Some t)"

lemma last_outcome_run: "wm_last_resync_outcome (machine_run es (new_machine a b)) = last_outcome es"
proof (induction es rule: rev_induct)
  case Nil
  then show ?case by (simp add: last_outcome_def new_machine_def map_filter_def)
next
  case (snoc e es)
  then show ?case
    by (cases e) (auto simp: last_outcome_def map_filter_def record_resync_def mark_frame_received_def
      mark_connection_attempt_failed_def ws_transition_def split: sum.split if_splits)
qed

lemma healthy_since:
  "wm_state (machine_run es (new_machine a b)) = ws_state_healthy \<Longrightarrow>
   \<exists>before reason now now_ms after. es = before @ Transition ws_state_healthy reason now now_ms # after
     \<and> wm_state (machine_run before (new_machine a b)) = ws_state_resyncing
     \<and> (\<forall>n \<le> length after. wm_state (machine_run (before @ Transition ws_state_healthy reason now now_ms # take n after)
           (new_machine a b)) = ws_state_healthy)"
proof (induction es rule: rev_induct)
  case Nil
  then show ?case by (simp add: new_machine_def ws_state_connecting_def ws_state_healthy_def)
next
  case (snoc e es)
  let ?m = "new_machine a b"
  show ?case
  proof (cases "wm_state (machine_run es ?m) = ws_state_healthy")
    case True
    from snoc.IH [OF True] obtain before reason now now_ms after where
      x: "es = before @ Transition ws_state_healthy reason now now_ms # after"
      and y: "wm_state (machine_run before ?m) = ws_state_resyncing"
      and z: "\<forall>n \<le> length after. wm_state (machine_run (before @ Transition ws_state_healthy reason now now_ms # take n after) ?m) = ws_state_healthy"
      by blast
    have "wm_state (machine_run (before @ Transition ws_state_healthy reason now now_ms # take n (after @ [e])) ?m) = ws_state_healthy"
      if "n \<le> length (after @ [e])" for n
    proof (cases "n \<le> length after")
      case True
      then show ?thesis using z by simp
    next
      case False
      then have "take n (after @ [e]) = after @ [e]" using that by simp
      then show ?thesis using snoc.prems unfolding x by simp
    qed
    then show ?thesis unfolding x using y by (intro exI [of _ before] exI [of _ reason] exI [of _ now] exI [of _ now_ms] exI [of _ "after @ [e]"]) auto
  next
    case False
    from enters_healthy [OF False, of e] snoc.prems obtain reason now now_ms where
      "wm_state (machine_run es ?m) = ws_state_resyncing" "e = Transition ws_state_healthy reason now now_ms" by auto
    then show ?thesis using snoc.prems by (intro exI [of _ es] exI [of _ reason] exI [of _ now] exI [of _ now_ms] exI [of _ "[]"]) auto
  qed
qed

text \<open>
  Claim C8: a new entry is permitted only when no observation gap is open, the last resync recorded
  converged, and the stream became healthy out of \<open>resyncing\<close> and has been healthy ever since; in
  every other history the answer is no, and no machine at all is a no.
\<close>

theorem new_entry_needs_converged_resync:
  assumes "fst (ws_observation_permits_new_entry machine open_gap_count)"
    and "machine = None \<or> machine = Some (machine_run es (new_machine a b))"
  shows "(\<exists>gaps. open_gap_count = Some gaps \<and> gaps \<le> 0) \<and> last_outcome es = Some ''converged''
    \<and> (\<exists>before reason now now_ms after. es = before @ Transition ws_state_healthy reason now now_ms # after
     \<and> wm_state (machine_run before (new_machine a b)) = ws_state_resyncing
     \<and> (\<forall>n \<le> length after. wm_state (machine_run (before @ Transition ws_state_healthy reason now now_ms # take n after)
           (new_machine a b)) = ws_state_healthy))"
proof -
  let ?m = "machine_run es (new_machine a b)"
  from assms have m: "machine = Some ?m" by (auto simp: ws_observation_permits_new_entry_def)
  with assms(1) have p: "fst (permits_new_entry open_gap_count ?m)" by (simp add: ws_observation_permits_new_entry_def)
  then have "wm_state ?m = ws_state_healthy" "wm_last_resync_outcome ?m = Some ''converged''"
    "\<exists>gaps. open_gap_count = Some gaps \<and> gaps \<le> 0"
    by (auto simp: permits_new_entry_def not_less split: option.splits if_splits)
  with healthy_since [of es a b] last_outcome_run [of es a b] show ?thesis by simp
qed

theorem new_entry_needs_converged_resync_witness:
  "last_outcome healthy_run = Some ''converged'' \<and>
   fst (ws_observation_permits_new_entry (Some (machine_run healthy_run (new_machine 0 0))) (Some 0))"
proof -
  have p: "fst (ws_observation_permits_new_entry (Some (machine_run healthy_run (new_machine 0 0))) (Some 0))" by code_simp
  from new_entry_needs_converged_resync [OF p] p show ?thesis by blast
qed

text \<open>
  The reconnect delay is never negative and never above its cap, whatever the attempt number, the
  jitter, the generator's answer and the rounding of the machine's floats; and the growth stops after 32 attempts.
\<close>

theorem backoff_delay_bounds:
  assumes "0 \<le> cap_seconds"
  shows "0 \<le> compute_backoff_delay fl attempt base_seconds cap_seconds jitter_ratio r
    \<and> compute_backoff_delay fl attempt base_seconds cap_seconds jitter_ratio r \<le> cap_seconds
    \<and> (32 \<le> attempt \<longrightarrow> compute_backoff_delay fl attempt base_seconds cap_seconds jitter_ratio r
         = compute_backoff_delay fl 32 base_seconds cap_seconds jitter_ratio r)
    \<and> (attempt < 0 \<longrightarrow> compute_backoff_delay fl attempt base_seconds cap_seconds jitter_ratio r
         = compute_backoff_delay fl 0 base_seconds cap_seconds jitter_ratio r)"
proof -
  have "32 \<le> attempt \<Longrightarrow> min attempt 32 = 32" by simp
  then show ?thesis using assms by (auto simp: compute_backoff_delay_def Let_def)
qed

theorem backoff_delay_bounds_witness:
  "compute_backoff_delay (\<lambda>x. x) 3 1 60 (1 / 4) (1 / 2) = 8
   \<and> compute_backoff_delay (\<lambda>x. x) 3 1 60 (1 / 4) (1 / 2) \<le> 60"
  using backoff_delay_bounds [of 60 "\<lambda>x. x" 3 1 "1 / 4" "1 / 2"] by (simp add: compute_backoff_delay_def)

end
