(* ===== verification/Keyed_Locks.thy ===== *)
theory Keyed_Locks
  imports Prelude
begin

text \<open>
  The ingest process's message locks (\<open>keyed_async_locks.py\<close>): one lock per key, created on first
  use and dropped with its last reference, under shared admission; \<open>lock_all\<close> is the exclusive
  admission that waits out the readers and holds back new ones.

  The registry's own operations are functions; a task is a program counter, and the step relation
  \<open>lock_step\<close> interleaves the tasks between any two of their awaits. \<open>asyncio.Lock\<close> is its owner
  and its queue of waiters, served in order. The \<open>Condition\<close> is its set of sleeping waiters,
  \<open>lr_asleep\<close>: \<open>wait_for\<close> puts a task whose predicate is false to sleep, only \<open>notify_all\<close> or a
  cancellation wakes it, and a woken task evaluates its predicate again. A task may be cancelled
  wherever it is suspended. What Python runs in one go between two awaits may be two steps here, with
  steps of other tasks between, which only adds interleavings.

  The sections under \<open>_admission\<close> and \<open>_guard\<close> are single steps: their only await is \<open>wait_for\<close>,
  which gives the lock back while it sleeps, so no task is ever suspended holding one of the two locks,
  acquiring them never suspends, and a cancellation, which \<open>asyncio\<close> delivers at a suspension only, cannot
  arrive while a task leaves. For the same reason the \<open>finally\<close> branch for a writer still registered is
  not reached. A task is inside at most one admission at a time, as its callers are.
\<close>

section \<open>The registry\<close>

text \<open>Lock objects have an identity, their address: two tasks may hold different objects for one key
  unless the registry prevents it.\<close>

record 't async_lock =
  al_owner :: "'t option"
  al_waiters :: "'t list"

definition new_lock :: "'t async_lock" where
  "new_lock = \<lparr>al_owner = None, al_waiters = []\<rparr>"

record ('k, 't) registry =
  lr_locks :: "'k \<Rightarrow> nat option"
  lr_refcounts :: "'k \<Rightarrow> int option"
  lr_active_readers :: int
  lr_waiting_writers :: int
  lr_writer_active :: bool
  lr_asleep :: "'t set"
  lr_heap :: "nat \<Rightarrow> 't async_lock"
  lr_next :: nat

definition new_registry :: "('k, 't) registry" where
  "new_registry = \<lparr>lr_locks = (\<lambda>k. None), lr_refcounts = (\<lambda>k. None), lr_active_readers = 0,
     lr_waiting_writers = 0, lr_writer_active = False, lr_asleep = {}, lr_heap = (\<lambda>a. new_lock), lr_next = 0\<rparr>"

definition refcount :: "'k \<Rightarrow> ('k, 't) registry \<Rightarrow> int" where
  "refcount key r = (case lr_refcounts r key of None \<Rightarrow> 0 | Some n \<Rightarrow> n)"

text \<open>\<open>_acquire_ref\<close>: the lock object of the key, created when there is none.\<close>

definition acquire_ref :: "'k \<Rightarrow> ('k, 't) registry \<Rightarrow> nat \<times> ('k, 't) registry" where
  "acquire_ref key r =
     (let (per_key_lock, r1) = (case lr_locks r key of
            Some a \<Rightarrow> (a, r)
          | None \<Rightarrow> (lr_next r,
              r\<lparr>lr_locks := (lr_locks r)(key \<mapsto> lr_next r), lr_heap := (lr_heap r)(lr_next r := new_lock),
                lr_next := Suc (lr_next r)\<rparr>))
      in (per_key_lock, r1\<lparr>lr_refcounts := (lr_refcounts r1)(key \<mapsto> refcount key r1 + 1)\<rparr>))"

definition lock_is_locked :: "nat \<Rightarrow> ('k, 't) registry \<Rightarrow> bool" where
  "lock_is_locked a r = (al_owner (lr_heap r a) \<noteq> None)"

definition release_ref :: "'k \<Rightarrow> ('k, 't) registry \<Rightarrow> ('k, 't) registry" where
  "release_ref key r =
     (let remaining = refcount key r - 1 in
      if remaining \<le> 0 then
        (let r1 = r\<lparr>lr_refcounts := (lr_refcounts r)(key := None)\<rparr> in
         case lr_locks r1 key of
           None \<Rightarrow> r1
         | Some a \<Rightarrow> if lock_is_locked a r1 then r1 else r1\<lparr>lr_locks := (lr_locks r1)(key := None)\<rparr>)
      else r\<lparr>lr_refcounts := (lr_refcounts r)(key \<mapsto> remaining)\<rparr>)"

text \<open>The condition \<open>_admission\<close>: a task falls asleep, is no longer waited for, all sleepers are woken.\<close>

definition fall_asleep :: "'t \<Rightarrow> ('k, 't) registry \<Rightarrow> ('k, 't) registry" where
  "fall_asleep t r = r\<lparr>lr_asleep := insert t (lr_asleep r)\<rparr>"

definition stop_waiting :: "'t \<Rightarrow> ('k, 't) registry \<Rightarrow> ('k, 't) registry" where
  "stop_waiting t r = r\<lparr>lr_asleep := lr_asleep r - {t}\<rparr>"

definition notify_all :: "('k, 't) registry \<Rightarrow> ('k, 't) registry" where
  "notify_all r = r\<lparr>lr_asleep := {}\<rparr>"

text \<open>Shared and exclusive admission, the counters and their guards.\<close>

definition reader_may_enter :: "('k, 't) registry \<Rightarrow> bool" where
  "reader_may_enter r \<longleftrightarrow> \<not> lr_writer_active r \<and> lr_waiting_writers r = 0"

definition reader_enter :: "('k, 't) registry \<Rightarrow> ('k, 't) registry" where
  "reader_enter r = r\<lparr>lr_active_readers := lr_active_readers r + 1\<rparr>"

definition reader_exit :: "('k, 't) registry \<Rightarrow> ('k, 't) registry result" where
  "reader_exit r =
     (if lr_active_readers r \<le> 0 then Inl (RuntimeError ''shared admission counter underflow'')
      else let r' = r\<lparr>lr_active_readers := lr_active_readers r - 1\<rparr>
        in Inr (if lr_active_readers r' = 0 then notify_all r' else r'))"

definition writer_register :: "('k, 't) registry \<Rightarrow> ('k, 't) registry" where
  "writer_register r = r\<lparr>lr_waiting_writers := lr_waiting_writers r + 1\<rparr>"

definition writer_may_enter :: "('k, 't) registry \<Rightarrow> bool" where
  "writer_may_enter r \<longleftrightarrow> \<not> lr_writer_active r \<and> lr_active_readers r = 0"

definition writer_enter :: "('k, 't) registry \<Rightarrow> ('k, 't) registry" where
  "writer_enter r = r\<lparr>lr_waiting_writers := lr_waiting_writers r - 1, lr_writer_active := True\<rparr>"

definition writer_cancel :: "('k, 't) registry \<Rightarrow> ('k, 't) registry" where
  "writer_cancel r = notify_all (r\<lparr>lr_waiting_writers := lr_waiting_writers r - 1\<rparr>)"

definition writer_exit :: "('k, 't) registry \<Rightarrow> ('k, 't) registry result" where
  "writer_exit r =
     (if \<not> lr_writer_active r then Inl (RuntimeError ''exclusive admission ownership lost'')
      else Inr (notify_all (r\<lparr>lr_writer_active := False\<rparr>)))"

text \<open>\<open>asyncio.Lock\<close>: arrive, be served in order, leave the queue, release.\<close>

definition on_lock :: "nat \<Rightarrow> ('t async_lock \<Rightarrow> 't async_lock) \<Rightarrow> ('k, 't) registry \<Rightarrow> ('k, 't) registry" where
  "on_lock a f r = r\<lparr>lr_heap := (lr_heap r)(a := f (lr_heap r a))\<rparr>"

definition lock_arrive :: "'t \<Rightarrow> 't async_lock \<Rightarrow> 't async_lock" where
  "lock_arrive t l = l\<lparr>al_waiters := al_waiters l @ [t]\<rparr>"

definition lock_serves :: "'t \<Rightarrow> 't async_lock \<Rightarrow> bool" where
  "lock_serves t l \<longleftrightarrow> al_owner l = None \<and> al_waiters l \<noteq> [] \<and> hd (al_waiters l) = t"

definition lock_grant :: "'t \<Rightarrow> 't async_lock \<Rightarrow> 't async_lock" where
  "lock_grant t l = l\<lparr>al_owner := Some t, al_waiters := tl (al_waiters l)\<rparr>"

definition lock_leave :: "'t \<Rightarrow> 't async_lock \<Rightarrow> 't async_lock" where
  "lock_leave t l = l\<lparr>al_waiters := filter (\<lambda>x. x \<noteq> t) (al_waiters l)\<rparr>"

definition lock_release :: "'t async_lock \<Rightarrow> 't async_lock" where
  "lock_release l = l\<lparr>al_owner := None\<rparr>"

definition known_key_count :: "('k, 't) registry \<Rightarrow> nat" where
  "known_key_count r = card (dom (lr_locks r))"

definition lock_snapshot :: "('k, 't) registry \<Rightarrow> int \<times> int \<times> bool \<times> nat" where
  "lock_snapshot r = (lr_active_readers r, lr_waiting_writers r, lr_writer_active r, known_key_count r)"

section \<open>Tasks and their steps\<close>

datatype 'k phase =
    Idle
  | Wants 'k
  | Asleep 'k
  | Admitted 'k
  | Queued 'k nat
  | Holding 'k nat
  | Leaving 'k
  | Unreferenced
  | Writer_waiting
  | Writer_asleep
  | Writer_active

datatype action = Ask | Go | Cancel

type_synonym ('k, 't) lock_state = "('k, 't) registry \<times> ('t \<Rightarrow> 'k phase)"

inductive lock_step :: "action \<Rightarrow> 't \<Rightarrow> ('k, 't) lock_state \<Rightarrow> ('k, 't) lock_state \<Rightarrow> bool" where
  ask_key: "pc t = Idle \<Longrightarrow> lock_step Ask t (r, pc) (r, pc(t := Wants k))"
| admit: "pc t = Wants k \<Longrightarrow> reader_may_enter r \<Longrightarrow>
    lock_step Go t (r, pc) (reader_enter r, pc(t := Admitted k))"
| sleep: "pc t = Wants k \<Longrightarrow> \<not> reader_may_enter r \<Longrightarrow>
    lock_step Go t (r, pc) (fall_asleep t r, pc(t := Asleep k))"
| wake: "pc t = Asleep k \<Longrightarrow> t \<notin> lr_asleep r \<Longrightarrow> lock_step Go t (r, pc) (r, pc(t := Wants k))"
| cancel_wants: "pc t = Wants k \<Longrightarrow> lock_step Cancel t (r, pc) (r, pc(t := Idle))"
| cancel_asleep: "pc t = Asleep k \<Longrightarrow> lock_step Cancel t (r, pc) (stop_waiting t r, pc(t := Idle))"
| take_ref: "pc t = Admitted k \<Longrightarrow> acquire_ref k r = (a, r') \<Longrightarrow>
    lock_step Go t (r, pc) (on_lock a (lock_arrive t) r', pc(t := Queued k a))"
| grant: "pc t = Queued k a \<Longrightarrow> lock_serves t (lr_heap r a) \<Longrightarrow>
    lock_step Go t (r, pc) (on_lock a (lock_grant t) r, pc(t := Holding k a))"
| cancel_queued: "pc t = Queued k a \<Longrightarrow>
    lock_step Cancel t (r, pc) (on_lock a (lock_leave t) r, pc(t := Leaving k))"
| finish: "pc t = Holding k a \<Longrightarrow>
    lock_step Go t (r, pc) (on_lock a lock_release r, pc(t := Leaving k))"
| drop_ref: "pc t = Leaving k \<Longrightarrow> lock_step Go t (r, pc) (release_ref k r, pc(t := Unreferenced))"
| leave: "pc t = Unreferenced \<Longrightarrow> reader_exit r = Inr r' \<Longrightarrow> lock_step Go t (r, pc) (r', pc(t := Idle))"
| ask_all: "pc t = Idle \<Longrightarrow> lock_step Ask t (r, pc) (writer_register r, pc(t := Writer_waiting))"
| writer_in: "pc t = Writer_waiting \<Longrightarrow> writer_may_enter r \<Longrightarrow>
    lock_step Go t (r, pc) (writer_enter r, pc(t := Writer_active))"
| writer_sleep: "pc t = Writer_waiting \<Longrightarrow> \<not> writer_may_enter r \<Longrightarrow>
    lock_step Go t (r, pc) (fall_asleep t r, pc(t := Writer_asleep))"
| writer_wake: "pc t = Writer_asleep \<Longrightarrow> t \<notin> lr_asleep r \<Longrightarrow>
    lock_step Go t (r, pc) (r, pc(t := Writer_waiting))"
| cancel_writer: "pc t = Writer_waiting \<Longrightarrow> lock_step Cancel t (r, pc) (writer_cancel r, pc(t := Idle))"
| cancel_writer_asleep: "pc t = Writer_asleep \<Longrightarrow>
    lock_step Cancel t (r, pc) (writer_cancel (stop_waiting t r), pc(t := Idle))"
| writer_out: "pc t = Writer_active \<Longrightarrow> writer_exit r = Inr r' \<Longrightarrow>
    lock_step Go t (r, pc) (r', pc(t := Idle))"

inductive_cases lock_stepE: "lock_step act t s s'"

inductive lock_reachable :: "('k, 't) lock_state \<Rightarrow> bool" where
  empty: "lock_reachable (new_registry, \<lambda>t. Idle)"
| more: "lock_reachable s \<Longrightarrow> lock_step act t s s' \<Longrightarrow> lock_reachable s'"

section \<open>The invariant\<close>

fun in_shared :: "'k phase \<Rightarrow> bool" where
  "in_shared (Admitted k) = True" | "in_shared (Queued k a) = True" | "in_shared (Holding k a) = True"
| "in_shared (Leaving k) = True" | "in_shared Unreferenced = True" | "in_shared _ = False"

fun waits_writer :: "'k phase \<Rightarrow> bool" where
  "waits_writer Writer_waiting = True" | "waits_writer Writer_asleep = True" | "waits_writer _ = False"

fun references :: "'k \<Rightarrow> 'k phase \<Rightarrow> bool" where
  "references k (Queued k' a) = (k = k')" | "references k (Holding k' a) = (k = k')"
| "references k (Leaving k') = (k = k')" | "references k _ = False"

fun at_lock :: "nat \<Rightarrow> 'k phase \<Rightarrow> bool" where
  "at_lock a (Queued k b) = (a = b)" | "at_lock a (Holding k b) = (a = b)" | "at_lock a _ = False"

definition tasks :: "('k phase \<Rightarrow> bool) \<Rightarrow> ('t \<Rightarrow> 'k phase) \<Rightarrow> 't set" where
  "tasks P pc = {t. P (pc t)}"

definition queued_at :: "nat \<Rightarrow> 'k phase \<Rightarrow> bool" where
  "queued_at a p \<longleftrightarrow> (\<exists>k. p = Queued k a)"

definition holding_at :: "nat \<Rightarrow> 'k phase \<Rightarrow> bool" where
  "holding_at a p \<longleftrightarrow> (\<exists>k. p = Holding k a)"

definition headcount :: "('k phase \<Rightarrow> bool) \<Rightarrow> ('t \<Rightarrow> 'k phase) \<Rightarrow> int" where
  "headcount P pc = int (card (tasks P pc))"

definition counters_ok :: "('k, 't) lock_state \<Rightarrow> bool" where
  "counters_ok s \<longleftrightarrow> (case s of (r, pc) \<Rightarrow>
     finite (tasks (\<lambda>p. p \<noteq> Idle) pc)
     \<and> lr_active_readers r = headcount in_shared pc
     \<and> lr_waiting_writers r = headcount waits_writer pc
     \<and> headcount ((=) Writer_active) pc = (if lr_writer_active r then 1 else 0)
     \<and> (lr_writer_active r \<longrightarrow> lr_active_readers r = 0))"

definition refs_ok :: "('k, 't) lock_state \<Rightarrow> bool" where
  "refs_ok s \<longleftrightarrow> (case s of (r, pc) \<Rightarrow>
     finite (tasks (\<lambda>p. p \<noteq> Idle) pc)
     \<and> (\<forall>k. refcount k r = headcount (references k) pc)
     \<and> (\<forall>k. lr_locks r k = None \<longleftrightarrow> tasks (references k) pc = {})
     \<and> (\<forall>k a. lr_locks r k = Some a \<longrightarrow> a < lr_next r)
     \<and> (\<forall>k k' a. lr_locks r k = Some a \<longrightarrow> lr_locks r k' = Some a \<longrightarrow> k = k')
     \<and> (\<forall>t k a. pc t = Queued k a \<or> pc t = Holding k a \<longrightarrow> lr_locks r k = Some a)
     \<and> (\<forall>a t. al_owner (lr_heap r a) = Some t \<longleftrightarrow> holding_at a (pc t))
     \<and> (\<forall>a t. t \<in> set (al_waiters (lr_heap r a)) \<longleftrightarrow> queued_at a (pc t))
     \<and> (\<forall>a. distinct (al_waiters (lr_heap r a))))"

text \<open>No wakeup is lost: whoever sleeps, sleeps for a reason that still holds.\<close>

definition asleep_ok :: "('k, 't) lock_state \<Rightarrow> bool" where
  "asleep_ok s \<longleftrightarrow> (case s of (r, pc) \<Rightarrow> \<forall>t\<in>lr_asleep r.
     (\<exists>k. pc t = Asleep k) \<and> \<not> reader_may_enter r \<or> pc t = Writer_asleep \<and> \<not> writer_may_enter r)"

section \<open>Lemmas\<close>

lemma tasks_upd: "tasks P (pc(t := q)) = (if P q then insert t (tasks P pc) else tasks P pc - {t})"
  by (auto simp: tasks_def)

lemma in_tasks [simp]: "t \<in> tasks P pc \<longleftrightarrow> P (pc t)"
  by (simp add: tasks_def)

lemma finite_busy:
  assumes "finite (tasks (\<lambda>p. p \<noteq> Idle) pc)" "\<not> P Idle"
  shows "finite (tasks P pc)"
  by (rule finite_subset [OF _ assms(1)]) (use assms(2) in \<open>auto simp: tasks_def\<close>)

lemma count_upd:
  assumes "finite (tasks (\<lambda>p. p \<noteq> Idle) pc)" "\<not> P Idle"
  shows "headcount P (pc(t := q)) = headcount P pc + of_bool (P q) - of_bool (P (pc t))"
proof -
  have f: "finite (tasks P pc)" using assms by (rule finite_busy)
  then have "P (pc t) \<Longrightarrow> 0 < card (tasks P pc)" by (auto simp: card_gt_0_iff)
  with f show ?thesis by (auto simp: headcount_def tasks_upd card_insert_if card_Diff_singleton_if of_nat_diff)
qed

lemma count_pos: "finite (tasks (\<lambda>p. p \<noteq> Idle) pc) \<Longrightarrow> \<not> P Idle \<Longrightarrow> P (pc t) \<Longrightarrow> 0 < headcount P pc"
  using finite_busy [of pc P] by (auto simp: headcount_def card_gt_0_iff)

lemma count_nonneg: "0 \<le> headcount P pc"
  by (simp add: headcount_def)

lemma count_one_unique:
  assumes "headcount P pc = 1" "P (pc t)" "P (pc t')"
  shows "t = t'"
proof -
  from assms(1) obtain x where "tasks P pc = {x}" by (auto simp: headcount_def card_1_singleton_iff)
  with assms(2,3) have "t \<in> {x}" "t' \<in> {x}" by (metis in_tasks)+
  then show ?thesis by simp
qed

lemma condition_simps [simp]:
  "lr_active_readers (notify_all r) = lr_active_readers r" "lr_waiting_writers (notify_all r) = lr_waiting_writers r"
  "lr_writer_active (notify_all r) = lr_writer_active r" "lr_asleep (notify_all r) = {}"
  "lr_active_readers (fall_asleep t r) = lr_active_readers r" "lr_waiting_writers (fall_asleep t r) = lr_waiting_writers r"
  "lr_writer_active (fall_asleep t r) = lr_writer_active r" "lr_asleep (fall_asleep t r) = insert t (lr_asleep r)"
  "lr_active_readers (stop_waiting t r) = lr_active_readers r" "lr_waiting_writers (stop_waiting t r) = lr_waiting_writers r"
  "lr_writer_active (stop_waiting t r) = lr_writer_active r" "lr_asleep (stop_waiting t r) = lr_asleep r - {t}"
  by (simp_all add: notify_all_def fall_asleep_def stop_waiting_def)

lemma registry_asleep [simp]:
  "lr_asleep (on_lock a f r) = lr_asleep r" "lr_asleep (release_ref k r) = lr_asleep r"
  by (simp_all add: on_lock_def release_ref_def Let_def split: option.split)

lemma registry_counters [simp]:
  "lr_active_readers (on_lock a f r) = lr_active_readers r" "lr_waiting_writers (on_lock a f r) = lr_waiting_writers r"
  "lr_writer_active (on_lock a f r) = lr_writer_active r"
  "lr_active_readers (release_ref k r) = lr_active_readers r" "lr_waiting_writers (release_ref k r) = lr_waiting_writers r"
  "lr_writer_active (release_ref k r) = lr_writer_active r"
  by (simp_all add: on_lock_def release_ref_def Let_def split: option.split)

lemma acquire_counters:
  assumes "acquire_ref k r = (a, r')"
  shows "lr_active_readers r' = lr_active_readers r" "lr_waiting_writers r' = lr_waiting_writers r"
    "lr_writer_active r' = lr_writer_active r" "lr_asleep r' = lr_asleep r"
  using assms by (auto simp: acquire_ref_def Let_def split: option.splits)

lemma finite_tasks_upd: "finite (tasks P pc) \<Longrightarrow> finite (tasks P (pc(t := q)))"
  by (simp add: tasks_upd)

lemma counters_step:
  assumes "lock_step act t s s'" "counters_ok s"
  shows "counters_ok s'"
proof -
  have nI: "\<not> in_shared Idle" "\<not> waits_writer Idle" "Writer_active \<noteq> Idle" by simp_all
  from assms show ?thesis
    by (cases rule: lock_step.cases)
      (auto simp: counters_ok_def count_upd nI finite_tasks_upd acquire_counters reader_may_enter_def reader_enter_def
        reader_exit_def writer_register_def writer_may_enter_def writer_enter_def writer_cancel_def writer_exit_def Let_def
        split: if_splits dest: count_pos [where P = in_shared])
qed

lemma asleep_step:
  assumes "lock_step act t s s'" "asleep_ok s" "counters_ok s"
  shows "asleep_ok s'"
proof -
  obtain r pc where s: "s = (r, pc)" by (cases s)
  have nonneg: "0 \<le> lr_active_readers r" "0 \<le> lr_waiting_writers r"
    using assms(3) by (simp_all add: s counters_ok_def count_nonneg)
  from assms(1) show ?thesis using assms(2) nonneg unfolding s
    by (cases rule: lock_step.cases)
      (fastforce simp: asleep_ok_def acquire_counters reader_may_enter_def reader_enter_def reader_exit_def writer_register_def
        writer_may_enter_def writer_enter_def writer_cancel_def writer_exit_def Let_def split: if_splits)+
qed


lemma refs_okD:
  assumes "refs_ok (r, pc)"
  shows "finite (tasks (\<lambda>p. p \<noteq> Idle) pc)" "refcount k r = headcount (references k) pc"
    "lr_locks r k = None \<longleftrightarrow> tasks (references k) pc = {}" "lr_locks r k = Some a \<Longrightarrow> a < lr_next r"
    "lr_locks r k = Some a \<Longrightarrow> lr_locks r k' = Some a \<Longrightarrow> k = k'"
    "pc t = Queued k a \<Longrightarrow> lr_locks r k = Some a" "pc t = Holding k a \<Longrightarrow> lr_locks r k = Some a"
    "al_owner (lr_heap r a) = Some t \<longleftrightarrow> holding_at a (pc t)"
    "t \<in> set (al_waiters (lr_heap r a)) \<longleftrightarrow> queued_at a (pc t)" "distinct (al_waiters (lr_heap r a))"
  using assms unfolding refs_ok_def by blast+

lemma phase_simps [simp]:
  "queued_at a (Queued k b) \<longleftrightarrow> a = b" "holding_at a (Holding k b) \<longleftrightarrow> a = b"
  "\<not> queued_at a (Holding k b)" "\<not> holding_at a (Queued k b)"
  "\<not> queued_at a (Admitted k)" "\<not> holding_at a (Admitted k)" "\<not> queued_at a (Leaving k)" "\<not> holding_at a (Leaving k)"
  "\<not> queued_at a (Asleep k)" "\<not> holding_at a (Asleep k)" "\<not> queued_at a Writer_asleep" "\<not> holding_at a Writer_asleep"
  "\<not> queued_at a Idle" "\<not> holding_at a Idle" "\<not> queued_at a (Wants k)" "\<not> holding_at a (Wants k)"
  "\<not> queued_at a Unreferenced" "\<not> holding_at a Unreferenced" "\<not> queued_at a Writer_waiting" "\<not> holding_at a Writer_waiting"
  "\<not> queued_at a Writer_active" "\<not> holding_at a Writer_active"
  by (auto simp: queued_at_def holding_at_def)

lemma refcount_heap [simp]: "refcount k (r\<lparr>lr_heap := h\<rparr>) = refcount k r"
  by (simp add: refcount_def)

text \<open>A step that neither takes nor drops a reference and does not touch a lock object.\<close>

lemma refs_ok_outside:
  assumes "refs_ok (r, pc)" "lr_locks r' = lr_locks r" "lr_refcounts r' = lr_refcounts r" "lr_heap r' = lr_heap r" "lr_next r' = lr_next r"
    and "\<And>k. \<not> references k (pc t)" "\<And>k. \<not> references k q"
    and "\<And>a. \<not> queued_at a (pc t) \<and> \<not> holding_at a (pc t)" "\<And>a. \<not> queued_at a q \<and> \<not> holding_at a q"
  shows "refs_ok (r', pc(t := q))"
proof -
  have f: "finite (tasks (\<lambda>p. p \<noteq> Idle) (pc(t := q)))" using assms(1) by (simp add: refs_ok_def finite_tasks_upd)
  have "headcount (references k) (pc(t := q)) = headcount (references k) pc" for k
    using assms(1,6,7) by (simp add: refs_ok_def count_upd)
  moreover have "tasks (references k) (pc(t := q)) = tasks (references k) pc" for k
    using assms(6,7) by (auto simp: tasks_upd)
  moreover have "q \<noteq> Queued k a" "q \<noteq> Holding k a" for k a using assms(9) [of a] by auto
  ultimately show ?thesis using assms f by (simp add: refs_ok_def refcount_def)
qed

lemma refs_ok_take:
  assumes "refs_ok (r, pc)" "pc t = Admitted k" "acquire_ref k r = (a, r')"
  shows "refs_ok (on_lock a (lock_arrive t) r', pc(t := Queued k a))"
proof -
  note D = refs_okD [OF assms(1)]
  define fresh where "fresh = (lr_locks r k = None)"
  have h: "al_owner (lr_heap r (lr_next r)) = None" "al_waiters (lr_heap r (lr_next r)) = []" 
  proof -
    have "\<not> holding_at (lr_next r) (pc x)" "\<not> queued_at (lr_next r) (pc x)" for x
      using D(4,6,7) by (auto simp: holding_at_def queued_at_def) blast+
    then show "al_owner (lr_heap r (lr_next r)) = None" "al_waiters (lr_heap r (lr_next r)) = []"
      using D(8) [where a = "lr_next r"] D(9) [where a = "lr_next r"]
      by (metis not_None_eq, metis ex_in_conv set_empty)
  qed
  have cnt: "headcount (references x) (pc(t := Queued k a)) = headcount (references x) pc + of_bool (x = k)" for x
    using assms(2) D(1) by (simp add: count_upd)
  have ta: "tasks (references x) (pc(t := Queued k a)) = (if x = k then insert t (tasks (references x) pc) else tasks (references x) pc)" for x
    using assms(2) by (auto simp: tasks_upd)
  have f: "finite (tasks (\<lambda>p. p \<noteq> Idle) (pc(t := Queued k a)))" using D(1) by (rule finite_tasks_upd)
  have a: "lr_locks r' k = Some a" "\<And>x. x \<noteq> k \<Longrightarrow> lr_locks r' x = lr_locks r x" "a < lr_next r'" "lr_next r \<le> lr_next r'"
    "\<And>x. refcount x r' = refcount x r + of_bool (x = k)" "fresh \<Longrightarrow> a = lr_next r" "\<not> fresh \<Longrightarrow> lr_locks r k = Some a"
    "\<And>b. al_owner (lr_heap r' b) = al_owner (lr_heap r b)" "\<And>b. al_waiters (lr_heap r' b) = al_waiters (lr_heap r b)"
    using assms(3) D(4) [of k] h by (auto simp: acquire_ref_def fresh_def refcount_def new_lock_def Let_def split: option.splits if_splits)
  have inj: "lr_locks r' x = Some b \<Longrightarrow> lr_locks r' y = Some b \<Longrightarrow> x = y" for x y b
    using a(1,2,6,7) D(4,5) by (metis less_irrefl option.inject)
  have le: "lr_locks r' x = Some b \<Longrightarrow> b < lr_next r'" for x b
    using a(1-4) D(4) by (metis less_le_trans option.inject)
  have q: "pc x = Queued y b \<Longrightarrow> lr_locks r' y = Some b" "pc x = Holding y b \<Longrightarrow> lr_locks r' y = Some b" if "x \<noteq> t" for x y b
    using D(6,7) a(1,2,7) fresh_def by (metis option.distinct(1))+
  show ?thesis using D(2,3,8,9,10) assms(2) unfolding refs_ok_def prod.case
    by (auto simp: cnt ta a f on_lock_def lock_arrive_def inj refcount_def [symmetric] intro: le q)
qed


text \<open>A step at one lock object, the references staying as they are.\<close>

lemma refs_ok_lock:
  assumes "refs_ok (r, pc)" "\<And>x. references x q = references x (pc t)"
    and "\<And>x b. q = Queued x b \<or> q = Holding x b \<Longrightarrow> lr_locks r x = Some b"
    and "\<And>x. al_owner (f (lr_heap r a)) = Some x \<longleftrightarrow> (if x = t then holding_at a q else holding_at a (pc x))"
    and "\<And>x. x \<in> set (al_waiters (f (lr_heap r a))) \<longleftrightarrow> (if x = t then queued_at a q else queued_at a (pc x))"
    and "distinct (al_waiters (f (lr_heap r a)))"
    and "\<And>b. b \<noteq> a \<Longrightarrow> holding_at b q = holding_at b (pc t) \<and> queued_at b q = queued_at b (pc t)"
  shows "refs_ok (on_lock a f r, pc(t := q))"
proof -
  note D = refs_okD [OF assms(1)]
  have c: "headcount (references x) (pc(t := q)) = headcount (references x) pc" for x
    using D(1) by (simp add: count_upd assms(2))
  have ta: "tasks (references x) (pc(t := q)) = tasks (references x) pc" for x
    using assms(2) by (auto simp: tasks_upd)
  have f: "finite (tasks (\<lambda>p. p \<noteq> Idle) (pc(t := q)))" using D(1) by (rule finite_tasks_upd)
  show ?thesis using D(2-10) assms(3-7) unfolding refs_ok_def prod.case
    by (auto simp: c ta f on_lock_def)
qed

lemma refs_ok_drop:
  assumes "refs_ok (r, pc)" "pc t = Leaving k"
  shows "refs_ok (release_ref k r, pc(t := Unreferenced))"
proof -
  note D = refs_okD [OF assms(1)]
  let ?pc = "pc(t := Unreferenced)"
  have c: "headcount (references x) ?pc = headcount (references x) pc - of_bool (x = k)" for x
    using D(1) assms(2) by (simp add: count_upd)
  have ta: "tasks (references x) ?pc = (if x = k then tasks (references k) pc - {t} else tasks (references x) pc)" for x
    using assms(2) by (auto simp: tasks_upd)
  have f: "finite (tasks (\<lambda>p. p \<noteq> Idle) ?pc)" "finite (tasks (references k) pc)" using D(1)
    by (auto intro: finite_tasks_upd finite_busy)
  have last: "refcount k r - 1 \<le> 0 \<longleftrightarrow> tasks (references k) ?pc = {}"
  proof -
    have "headcount (references k) ?pc \<le> 0 \<longleftrightarrow> tasks (references k) ?pc = {}"
      using f(2) by (simp add: headcount_def ta)
    then show ?thesis using c [of k] D(2) [of k] by simp
  qed
  obtain a where a: "lr_locks r k = Some a" 
  proof -
    have "t \<in> tasks (references k) pc" using assms(2) by simp
    then have "lr_locks r k \<noteq> None" using D(3) [of k] by blast
    then show thesis using that by blast
  qed
  show ?thesis
  proof (cases "refcount k r - 1 \<le> 0")
    case True
    then have none: "\<not> references k (pc x)" if "x \<noteq> t" for x
      using last that True by (metis (mono_tags, lifting) empty_iff fun_upd_other in_tasks)
    have "\<not> lock_is_locked a r"
    proof
      assume "lock_is_locked a r"
      then obtain x y where "pc x = Holding y a" using D(8) by (auto simp: lock_is_locked_def holding_at_def)
      moreover from this have "y = k" using D(5) [OF D(7) a] by blast
      ultimately show False using none [of x] assms(2) by force
    qed
    then have r: "release_ref k r = r\<lparr>lr_refcounts := (lr_refcounts r)(k := None), lr_locks := (lr_locks r)(k := None)\<rparr>"
      using True a by (simp add: release_ref_def lock_is_locked_def Let_def)
    have rc: "refcount x (release_ref k r) = headcount (references x) ?pc" for x
    proof (cases "x = k")
      case True
      then show ?thesis using last \<open>refcount k r - 1 \<le> 0\<close> by (simp add: r refcount_def headcount_def)
    next
      case False
      then show ?thesis using D(2) [of x] c [of x] by (simp add: r refcount_def)
    qed
    have q: "y \<noteq> k" if "x \<noteq> t" "pc x = Queued y b \<or> pc x = Holding y b" for x y b
      using none [OF that(1)] that(2) by auto
    have st: "lr_locks (release_ref k r) = (lr_locks r)(k := None)" "lr_heap (release_ref k r) = lr_heap r"
      "lr_next (release_ref k r) = lr_next r" by (simp_all add: r)
    show ?thesis using D(3-10) last True assms(2) q f rc unfolding refs_ok_def prod.case st
      by (auto simp: ta split: if_splits)
  next
    case False
    then have r: "release_ref k r = r\<lparr>lr_refcounts := (lr_refcounts r)(k \<mapsto> refcount k r - 1)\<rparr>"
      by (simp add: release_ref_def Let_def)
    have "refcount x (release_ref k r) = refcount x r - of_bool (x = k)" for x by (simp add: r refcount_def)
    then have rc: "refcount x (release_ref k r) = headcount (references x) ?pc" for x
      using D(2) [of x] c [of x] by simp
    have st: "lr_locks (release_ref k r) = lr_locks r" "lr_heap (release_ref k r) = lr_heap r"
      "lr_next (release_ref k r) = lr_next r" by (simp_all add: r)
    have "tasks (references k) ?pc \<noteq> {}" using False last by simp
    then show ?thesis using D(3-10) assms(2) f rc a unfolding refs_ok_def prod.case st
      by (auto simp: ta split: if_splits)
  qed
qed

lemma refs_step:
  assumes "lock_step act t s s'" "refs_ok s"
  shows "refs_ok s'"
  using assms
proof (cases rule: lock_step.cases)
  case (take_ref pc k r a r')
  then show ?thesis using assms(2) refs_ok_take by simp
next
  case (grant pc k a r)
  then have ok: "refs_ok (r, pc)" using assms(2) by simp
  note D = refs_okD [OF ok]
  have w: "al_waiters (lr_heap r a) = t # tl (al_waiters (lr_heap r a))" "al_owner (lr_heap r a) = None"
    using grant(5) by (auto simp: lock_serves_def)
  have d: "distinct (t # tl (al_waiters (lr_heap r a)))" using D(10) [of a] w(1) by metis
  have m: "x \<in> set (t # tl (al_waiters (lr_heap r a))) \<longleftrightarrow> queued_at a (pc x)" for x using D(9) [of x a] w(1) by metis
  have o: "\<not> holding_at a (pc x)" for x using D(8) [of a x] w(2) by simp
  have l: "lr_locks r k = Some a" using D(6) grant(4) by blast
  show ?thesis unfolding grant(3)
    by (rule refs_ok_lock [OF ok]) (use grant(4) d m o l in \<open>auto simp: lock_grant_def\<close>)
next
  case (cancel_queued pc k a r)
  then have ok: "refs_ok (r, pc)" using assms(2) by simp
  note D = refs_okD [OF ok]
  show ?thesis unfolding cancel_queued(3)
    by (rule refs_ok_lock [OF ok]) (use cancel_queued(4) D(8-10) in \<open>auto simp: lock_leave_def\<close>)
next
  case (finish pc k a r)
  then have ok: "refs_ok (r, pc)" using assms(2) by simp
  note D = refs_okD [OF ok]
  have own: "al_owner (lr_heap r a) = Some t" using D(8) [of a t] finish(4) by simp
  have o: "\<not> holding_at a (pc x)" if "x \<noteq> t" for x using D(8) [of a x] own that by simp
  show ?thesis unfolding finish(3)
    by (rule refs_ok_lock [OF ok]) (use finish(4) D(9,10) o in \<open>auto simp: lock_release_def\<close>)
next
  case (drop_ref pc k r)
  then show ?thesis using assms(2) refs_ok_drop by simp
qed (auto intro!: refs_ok_outside simp: reader_enter_def reader_exit_def writer_register_def writer_enter_def
    writer_cancel_def writer_exit_def notify_all_def fall_asleep_def stop_waiting_def Let_def split: if_splits)


lemma reachable_lock_ok: "lock_reachable s \<Longrightarrow> counters_ok s \<and> refs_ok s \<and> asleep_ok s"
proof (induction rule: lock_reachable.induct)
  case empty
  show ?case by (simp add: counters_ok_def refs_ok_def asleep_ok_def new_registry_def new_lock_def headcount_def tasks_def refcount_def)
next
  case (more s act t s')
  then show ?case by (auto intro: counters_step refs_step asleep_step)
qed

lemma counters_okD:
  assumes "counters_ok (r, pc)"
  shows "finite (tasks (\<lambda>p. p \<noteq> Idle) pc)" "lr_active_readers r = headcount in_shared pc"
    "lr_waiting_writers r = headcount waits_writer pc"
    "headcount ((=) Writer_active) pc = (if lr_writer_active r then 1 else 0)"
    "lr_writer_active r \<Longrightarrow> lr_active_readers r = 0"
  using assms by (simp_all add: counters_ok_def)

lemma headcount_zero: "finite (tasks (\<lambda>p. p \<noteq> Idle) pc) \<Longrightarrow> \<not> P Idle \<Longrightarrow> headcount P pc = 0 \<Longrightarrow> \<not> P (pc t)"
  using count_pos [of pc P t] by auto

section \<open>Properties\<close>

text \<open>
  Claim C16: mutual exclusion: in every reachable state at most one task holds a key's lock, even
  though tasks may have obtained the lock object at different times; and while a task is inside
  \<open>lock_all\<close> no other task is inside it and none is past shared admission.
\<close>

theorem keyed_lock_exclusion:
  assumes "lock_reachable (r, pc)"
  shows "(\<forall>t t' k a b. pc t = Holding k a \<longrightarrow> pc t' = Holding k b \<longrightarrow> t = t')
    \<and> (\<forall>t t'. pc t = Writer_active \<longrightarrow> t' \<noteq> t \<longrightarrow> pc t' \<noteq> Writer_active \<and> \<not> in_shared (pc t'))"
proof -
  from reachable_lock_ok [OF assms] have c: "counters_ok (r, pc)" and f: "refs_ok (r, pc)" by simp_all
  note C = counters_okD [OF c] and D = refs_okD [OF f]
  have "t = t'" if "pc t = Holding k a" "pc t' = Holding k b" for t t' k a b
  proof -
    have "a = b" using D(7) [OF that(1)] D(7) [OF that(2)] by simp
    then have "al_owner (lr_heap r a) = Some t" "al_owner (lr_heap r a) = Some t'"
      using D(8) [of a t] D(8) [of a t'] that by simp_all
    then show ?thesis by simp
  qed
  moreover have "pc t' \<noteq> Writer_active \<and> \<not> in_shared (pc t')" if w: "pc t = Writer_active" "t' \<noteq> t" for t t'
  proof
    have p: "0 < headcount ((=) Writer_active) pc" using count_pos [OF C(1), of "(=) Writer_active" t] w(1) by simp
    then have act: "lr_writer_active r" "headcount ((=) Writer_active) pc = 1" using C(4) by (simp_all split: if_splits)
    show "pc t' \<noteq> Writer_active" using count_one_unique [OF act(2), of t t'] w by auto
    have "headcount in_shared pc = 0" using C(2) C(5) [OF act(1)] by simp
    then show "\<not> in_shared (pc t')" by (rule headcount_zero [OF C(1), rotated]) simp
  qed
  ultimately show ?thesis by blast
qed

text \<open>
  The registry neither leaks nor loses locks, and its counters never underflow: a key has an
  entry exactly while some task references it and its reference count is the number of those
  tasks; leaving shared or exclusive admission never raises; and with every task gone the
  snapshot is empty.
\<close>

theorem lock_registry_balanced:
  assumes "lock_reachable (r, pc)"
  shows "(\<forall>k. lr_locks r k \<noteq> None \<longleftrightarrow> (\<exists>t. references k (pc t)))
    \<and> (\<forall>k. refcount k r = int (card {t. references k (pc t)}))
    \<and> (\<forall>t. in_shared (pc t) \<longrightarrow> (\<exists>r'. reader_exit r = Inr r'))
    \<and> (\<forall>t. pc t = Writer_active \<longrightarrow> (\<exists>r'. writer_exit r = Inr r'))
    \<and> ((\<forall>t. pc t = Idle) \<longrightarrow> lock_snapshot r = (0, 0, False, 0))"
proof -
  from reachable_lock_ok [OF assms] have c: "counters_ok (r, pc)" and f: "refs_ok (r, pc)" by simp_all
  note C = counters_okD [OF c] and D = refs_okD [OF f]
  have ex: "lr_locks r k \<noteq> None \<longleftrightarrow> (\<exists>t. references k (pc t))" for k using D(3) [of k] by (auto simp: tasks_def)
  have "\<exists>r'. reader_exit r = Inr r'" if "in_shared (pc t)" for t
    using count_pos [OF C(1), of in_shared t] that C(2) by (simp add: reader_exit_def Let_def)
  moreover have "\<exists>r'. writer_exit r = Inr r'" if "pc t = Writer_active" for t
    using count_pos [OF C(1), of "(=) Writer_active" t] that C(4) by (simp add: writer_exit_def split: if_splits)
  moreover have "lock_snapshot r = (0, 0, False, 0)" if "\<forall>t. pc t = Idle"
  proof -
    have "lr_locks r k = None" for k using ex [of k] that by simp
    then have "dom (lr_locks r) = {}" by auto
    then show ?thesis using C that
      by (simp add: lock_snapshot_def known_key_count_def headcount_def tasks_def split: if_splits)
  qed
  ultimately show ?thesis using ex D(2) by (simp add: headcount_def tasks_def)
qed

section \<open>Progress\<close>

text \<open>
  A run without new requests and cancellations. Between two notifications a task's phase only moves on,
  and every notification comes with a task that is done: the number of tasks, and below it the work
  left in their phases, fall with each step.
\<close>

inductive lock_run :: "nat \<Rightarrow> ('k, 't) lock_state \<Rightarrow> ('k, 't) lock_state \<Rightarrow> bool" where
  stay: "lock_run 0 s s"
| go: "lock_step Go t s s' \<Longrightarrow> lock_run n s' s'' \<Longrightarrow> lock_run (Suc n) s s''"

fun phase_work :: "bool \<Rightarrow> 'k phase \<Rightarrow> nat" where
  "phase_work asleep (Asleep k) = (if asleep then 1 else 9)" | "phase_work asleep Writer_asleep = (if asleep then 1 else 9)"
| "phase_work asleep (Wants k) = 8" | "phase_work asleep (Admitted k) = 7" | "phase_work asleep (Queued k a) = 6"
| "phase_work asleep (Holding k a) = 5" | "phase_work asleep (Leaving k) = 4" | "phase_work asleep Unreferenced = 3"
| "phase_work asleep Writer_waiting = 8" | "phase_work asleep Writer_active = 3" | "phase_work asleep Idle = 0"

lemma phase_work_le: "phase_work b p \<le> 9"
  by (cases p) simp_all

abbreviation busy :: "('t \<Rightarrow> 'k phase) \<Rightarrow> 't set" where
  "busy pc \<equiv> tasks (\<lambda>p. p \<noteq> Idle) pc"

definition lock_work :: "('k, 't) lock_state \<Rightarrow> nat" where
  "lock_work s = (case s of (r, pc) \<Rightarrow> 10 * card (busy pc) * card (busy pc) + (\<Sum>t\<in>busy pc. phase_work (t \<in> lr_asleep r) (pc t)))"

lemma work_le:
  "(\<Sum>t\<in>busy pc. phase_work (t \<in> lr_asleep r) (pc t)) \<le> 9 * card (busy pc)"
proof -
  have "(\<Sum>t\<in>busy pc. phase_work (t \<in> lr_asleep r) (pc t)) \<le> of_nat (card (busy pc)) * 9"
    by (rule sum_bounded_above) (rule phase_work_le)
  then show ?thesis by simp
qed

lemma work_moves:
  assumes "finite (busy pc)" "pc t \<noteq> Idle" "q \<noteq> Idle" "\<And>x. x \<noteq> t \<Longrightarrow> x \<in> lr_asleep r' \<longleftrightarrow> x \<in> lr_asleep r"
    and "phase_work (t \<in> lr_asleep r') q < phase_work (t \<in> lr_asleep r) (pc t)"
  shows "lock_work (r', pc(t := q)) < lock_work (r, pc)"
proof -
  have b: "busy (pc(t := q)) = busy pc" using assms(2,3) by (auto simp: tasks_upd)
  have "(\<Sum>x\<in>busy pc. phase_work (x \<in> lr_asleep r') ((pc(t := q)) x)) < (\<Sum>x\<in>busy pc. phase_work (x \<in> lr_asleep r) (pc x))"
    by (rule sum_strict_mono_ex1) (use assms in \<open>auto intro: bexI [of _ t]\<close>)
  then show ?thesis by (simp only: lock_work_def prod.case b)
qed

lemma work_done:
  assumes "finite (busy pc)" "pc t \<noteq> Idle"
  shows "lock_work (r', pc(t := Idle)) < lock_work (r, pc)"
proof -
  let ?b = "card (busy (pc(t := Idle)))"
  have "t \<in> busy pc" "busy (pc(t := Idle)) = busy pc - {t}" using assms(2) by (simp_all add: tasks_upd)
  then have "card (busy pc) = Suc ?b" using card_Suc_Diff1 [OF assms(1), of t] by (simp only:)
  moreover have "(\<Sum>x\<in>busy (pc(t := Idle)). phase_work (x \<in> lr_asleep r') ((pc(t := Idle)) x)) \<le> 9 * ?b"
    by (rule work_le)
  moreover have "x \<le> 9 * b \<Longrightarrow> 10 * b * b + x < 10 * Suc b * Suc b + y" for x y b :: nat by (simp add: algebra_simps)
  ultimately show ?thesis unfolding lock_work_def prod.case by (simp only:)
qed

lemma step_works:
  assumes "lock_step Go t (r, pc) (r', pc')" "finite (busy pc)"
  shows "lock_work (r', pc') < lock_work (r, pc)"
proof -
  have moves: "lock_work (x, pc(t := q)) < lock_work (r, pc)"
    if "pc t \<noteq> Idle" "q \<noteq> Idle" "lr_asleep x - {t} = lr_asleep r - {t}"
      "phase_work (t \<in> lr_asleep x) q < phase_work (t \<in> lr_asleep r) (pc t)" for x q
    using that(3) by (intro work_moves [OF assms(2) that(1,2) _ that(4)]) blast
  from assms(1) show ?thesis
  proof (cases rule: lock_step.cases)
    case (take_ref k a r'')
    then show ?thesis using acquire_counters(4) [of k r a r''] by (simp add: moves)
  qed (simp_all add: moves work_done [OF assms(2)] reader_enter_def writer_enter_def)
qed

lemma busy_finite: "lock_reachable (r, pc) \<Longrightarrow> finite (busy pc)"
  using reachable_lock_ok [of "(r, pc)"] counters_okD(1) [of r pc] by blast

lemma run_bounded: "lock_run n s s' \<Longrightarrow> lock_reachable s \<Longrightarrow> lock_reachable s' \<and> n + lock_work s' \<le> lock_work s"
proof (induction rule: lock_run.induct)
  case (go t s s' n s'')
  obtain r pc r' pc' where s: "s = (r, pc)" "s' = (r', pc')" by (metis surj_pair)
  from go.prems go.hyps(1) have "lock_reachable s'" by (rule lock_reachable.more)
  moreover have "lock_work s' < lock_work s"
    using step_works [OF go.hyps(1) [unfolded s] busy_finite [OF go.prems [unfolded s]]] by (simp only: s)
  ultimately show ?case using go.IH by simp
qed simp

text \<open>Who cannot go on is done: the sleepers' reasons end in a task that can.\<close>

lemma stuck_is_idle:
  assumes "lock_reachable (r, pc)" "\<And>t s'. \<not> lock_step Go t (r, pc) s'"
  shows "pc t0 = Idle"
proof -
  from reachable_lock_ok [OF assms(1)] have c: "counters_ok (r, pc)" and f: "refs_ok (r, pc)" and w: "asleep_ok (r, pc)" by simp_all
  note C = counters_okD [OF c] and D = refs_okD [OF f] and no = assms(2)
  have reader: "\<exists>r'. reader_exit r = Inr r'" if "in_shared (pc t)" for t
    using count_pos [OF C(1), of in_shared t] that C(2) by (simp add: reader_exit_def Let_def)
  have writer: "\<exists>r'. writer_exit r = Inr r'" if "pc t = Writer_active" for t
    using count_pos [OF C(1), of "(=) Writer_active" t] that C(4) by (simp add: writer_exit_def split: if_splits)
  have n1: "pc t \<noteq> Admitted k" "pc t \<noteq> Holding k a" "pc t \<noteq> Leaving k" "pc t \<noteq> Unreferenced" "pc t \<noteq> Writer_active"
    "pc t \<noteq> Wants k" "pc t \<noteq> Writer_waiting" for t k a
  proof -
    show "pc t \<noteq> Admitted k" using no lock_step.take_ref by (metis prod.collapse)
    show "pc t \<noteq> Holding k a" using no lock_step.finish by metis
    show "pc t \<noteq> Leaving k" using no lock_step.drop_ref by metis
    show "pc t \<noteq> Unreferenced" using no lock_step.leave reader [of t] by fastforce
    show "pc t \<noteq> Writer_active" using no lock_step.writer_out writer [of t] by metis
    show "pc t \<noteq> Wants k" using no lock_step.admit lock_step.sleep by metis
    show "pc t \<noteq> Writer_waiting" using no lock_step.writer_in lock_step.writer_sleep by metis
  qed
  have n2: "pc t \<noteq> Queued k a" for t k a
  proof
    assume q: "pc t = Queued k a"
    then have "t \<in> set (al_waiters (lr_heap r a))" using D(9) by simp
    then obtain x xs where w: "al_waiters (lr_heap r a) = x # xs" by (cases "al_waiters (lr_heap r a)") auto
    then obtain k' where "pc x = Queued k' a" using D(9) [of x a] by (auto simp: queued_at_def)
    moreover have "al_owner (lr_heap r a) = None"
      using D(8) [of a] n1(2) by (metis holding_at_def not_None_eq)
    ultimately show False using no lock_step.grant w by (metis list.distinct(1) list.sel(1) lock_serves_def)
  qed
  have asleep: "t \<in> lr_asleep r" if "pc t = Asleep k \<or> pc t = Writer_asleep" for t k
    using that no lock_step.wake lock_step.writer_wake by metis
  have sleeps: "(\<exists>k. pc t = Asleep k) \<and> \<not> reader_may_enter r \<or> pc t = Writer_asleep \<and> \<not> writer_may_enter r"
    if "t \<in> lr_asleep r" for t using w that by (simp add: asleep_ok_def)
  have "\<not> in_shared (pc t)" for t by (cases "pc t") (use n1 n2 in auto)
  then have out: "lr_active_readers r = 0" using C(2) by (simp add: headcount_def tasks_def)
  have inactive: "\<not> lr_writer_active r" using C(4) not_sym [OF n1(5)] by (auto simp: headcount_def tasks_def split: if_splits)
  from out inactive have "writer_may_enter r" by (simp add: writer_may_enter_def)
  then have w2: "pc t \<noteq> Writer_asleep" for t using asleep [of t] sleeps [of t] by auto
  then have "\<not> waits_writer (pc t)" for t by (cases "pc t") (use n1 in auto)
  then have "lr_waiting_writers r = 0" using C(3) by (simp add: headcount_def tasks_def)
  with inactive have free: "reader_may_enter r" by (simp add: reader_may_enter_def)
  have n3: "pc t \<noteq> Asleep k" for t k
  proof
    assume a: "pc t = Asleep k"
    then have "t \<in> lr_asleep r" using asleep by blast
    from sleeps [OF this] a free show False by simp
  qed
  show "pc t0 = Idle"
  proof (cases "pc t0")
    case (Wants k) then show ?thesis using n1(6) by blast
  next
    case (Asleep k) then show ?thesis using n3 by blast
  next
    case (Admitted k) then show ?thesis using n1(1) by blast
  next
    case (Queued k a) then show ?thesis using n2 by blast
  next
    case (Holding k a) then show ?thesis using n1(2) by blast
  next
    case (Leaving k) then show ?thesis using n1(3) by blast
  next
    case Unreferenced then show ?thesis using n1(4) by blast
  next
    case Writer_waiting then show ?thesis using n1(7) by blast
  next
    case Writer_asleep then show ?thesis using w2 by blast
  next
    case Writer_active then show ?thesis using n1(5) by blast
  qed
qed

text \<open>
  Claim C36: everyone is served, and writers first. From any reachable state with \<open>b\<close> tasks at work, a run
  in which nobody asks anew and nobody is cancelled, in whatever order the tasks take their turns, has at
  most \<open>10 b\<^sup>2 + 9 b\<close> steps and can only stop when every task has been inside and is done, so no wakeup is
  lost; and while a \<open>lock_all\<close> waits or runs, no step lets another task through shared admission.
\<close>

theorem lock_progress_and_preference:
  assumes "lock_reachable (r, pc)"
  shows "(\<forall>n r' pc'. lock_run n (r, pc) (r', pc') \<longrightarrow>
        n \<le> 10 * card {t. pc t \<noteq> Idle} * card {t. pc t \<noteq> Idle} + 9 * card {t. pc t \<noteq> Idle}
        \<and> ((\<exists>t s'. lock_step Go t (r', pc') s') \<or> (\<forall>t. pc' t = Idle)))
    \<and> (\<forall>t0. pc t0 = Writer_waiting \<or> pc t0 = Writer_asleep \<or> pc t0 = Writer_active \<longrightarrow>
        (\<forall>act t r' pc' x. lock_step act t (r, pc) (r', pc') \<longrightarrow> in_shared (pc' x) \<longrightarrow> in_shared (pc x)))"
proof (intro conjI allI impI)
  fix n r' pc' assume run: "lock_run n (r, pc) (r', pc')"
  from run_bounded [OF run assms] have re: "lock_reachable (r', pc')" and n: "n \<le> lock_work (r, pc)" by simp_all
  have "{t. pc t \<noteq> Idle} = busy pc" by (simp add: tasks_def)
  then show "n \<le> 10 * card {t. pc t \<noteq> Idle} * card {t. pc t \<noteq> Idle} + 9 * card {t. pc t \<noteq> Idle}"
    using n work_le [of r pc] by (simp add: lock_work_def)
  show "(\<exists>t s'. lock_step Go t (r', pc') s') \<or> (\<forall>t. pc' t = Idle)" using stuck_is_idle [OF re] by blast
next
  fix t0 act t r' pc' x
  from reachable_lock_ok [OF assms] have "counters_ok (r, pc)" by simp
  note C = counters_okD [OF this]
  assume w: "pc t0 = Writer_waiting \<or> pc t0 = Writer_asleep \<or> pc t0 = Writer_active"
    and st: "lock_step act t (r, pc) (r', pc')" and i: "in_shared (pc' x)"
  have "\<not> reader_may_enter r"
    using w count_pos [OF C(1), of waits_writer t0] count_pos [OF C(1), of "(=) Writer_active" t0] C(3,4)
    by (auto simp: reader_may_enter_def split: if_splits)
  with st i show "in_shared (pc x)" by (cases rule: lock_step.cases) (auto split: if_splits)
qed

text \<open>A run that takes a key: the witness of the three.\<close>

lemma reachable_holding:
  "\<exists>r a. lock_reachable (r :: (nat, nat) registry, (\<lambda>t. Idle)(0 := Holding 7 a))"
proof -
  let ?I = "\<lambda>t. Idle :: nat phase" and ?r = "new_registry :: (nat, nat) registry"
  let ?R = "reader_enter ?r"
  obtain a r' where ar: "acquire_ref 7 ?R = (a, r')" by fastforce
  have h: "al_owner (lr_heap r' a) = None" "al_waiters (lr_heap r' a) = []"
    using ar by (auto simp: acquire_ref_def reader_enter_def new_registry_def new_lock_def Let_def)
  have "lock_reachable (?r, ?I(0 := Wants 7))"
    by (rule lock_reachable.more [OF lock_reachable.empty lock_step.ask_key]) simp
  then have "lock_reachable (?R, ?I(0 := Admitted 7))"
    using lock_reachable.more [OF _ lock_step.admit [of "?I(0 := Wants 7)" 0 7 ?r]]
    by (simp add: reader_may_enter_def new_registry_def)
  then have "lock_reachable (on_lock a (lock_arrive 0) r', ?I(0 := Queued 7 a))"
    using lock_reachable.more [OF _ lock_step.take_ref [of "?I(0 := Admitted 7)" 0 7 ?R a r']] ar by simp
  then have "lock_reachable (on_lock a (lock_grant 0) (on_lock a (lock_arrive 0) r'), ?I(0 := Holding 7 a))"
    using lock_reachable.more [OF _ lock_step.grant [of "?I(0 := Queued 7 a)" 0 7 a "on_lock a (lock_arrive 0) r'"]] h
    by (simp add: on_lock_def lock_arrive_def lock_serves_def)
  then show ?thesis by blast
qed

abbreviation holding_seven :: "nat \<Rightarrow> nat \<Rightarrow> nat phase" where
  "holding_seven a \<equiv> (\<lambda>t. Idle)(0 := Holding 7 a)"

theorem keyed_lock_exclusion_witness:
  "\<exists>r :: (nat, nat) registry. \<exists>a. lock_reachable (r, holding_seven a) \<and> (\<forall>t b. holding_seven a t = Holding 7 b \<longrightarrow> t = 0)"
proof -
  obtain r :: "(nat, nat) registry" and a where h: "lock_reachable (r, holding_seven a)" using reachable_holding by blast
  have "holding_seven a 0 = Holding 7 a" by simp
  then have "\<forall>t b. holding_seven a t = Holding 7 b \<longrightarrow> t = 0" using keyed_lock_exclusion [OF h] by blast
  with h show ?thesis by blast
qed

theorem lock_registry_balanced_witness:
  "\<exists>r :: (nat, nat) registry. lr_locks r 7 \<noteq> None \<and> lr_locks r 8 = None \<and> (\<exists>r'. reader_exit r = Inr r')"
proof -
  obtain r :: "(nat, nat) registry" and a where h: "lock_reachable (r, holding_seven a)" using reachable_holding by blast
  note b = lock_registry_balanced [OF h]
  have k: "\<And>k. lr_locks r k \<noteq> None \<longleftrightarrow> (\<exists>t. references k (holding_seven a t))" using b by blast
  have "references 7 (holding_seven a 0)" "\<not> references 8 (holding_seven a t)" for t by simp_all
  then have "lr_locks r 7 \<noteq> None" "lr_locks r 8 = None" using k [of 7] k [of 8] by blast+
  moreover have "in_shared (holding_seven a 0)" by simp
  then have "\<exists>r'. reader_exit r = Inr r'" using b by blast
  ultimately show ?thesis by blast
qed

theorem lock_progress_and_preference_witness:
  "\<exists>r :: (nat, nat) registry. \<exists>a. lock_reachable (r, holding_seven a)
    \<and> (\<forall>n r' pc'. lock_run n (r, holding_seven a) (r', pc') \<longrightarrow> n \<le> 19
        \<and> ((\<exists>t s'. lock_step Go t (r', pc') s') \<or> (\<forall>t. pc' t = Idle)))"
proof -
  obtain r :: "(nat, nat) registry" and a where h: "lock_reachable (r, holding_seven a)" using reachable_holding by blast
  have "{t. holding_seven a t \<noteq> Idle} = {0}" by auto
  with lock_progress_and_preference [OF h] have "\<forall>n r' pc'. lock_run n (r, holding_seven a) (r', pc') \<longrightarrow> n \<le> 19
        \<and> ((\<exists>t s'. lock_step Go t (r', pc') s') \<or> (\<forall>t. pc' t = Idle))" by simp
  with h show ?thesis by blast
qed

end
