(* ===== verification/Native_Tpsl.thy ===== *)
theory Native_Tpsl
  imports Py_Decimal
begin

text \<open>
  Reading DeepCoin's protection rows: normalising a native TPSL row and attributing it to one
  expected leg (\<open>native_tpsl.py\<close>), and the named readers of trigger-order and position rows
  (\<open>deepcoin_trigger_rows.py\<close>).

  A row is a JSON object; list elements that are not objects, which the code skips, are left out.
  Ordering a NaN raises \<open>InvalidOperation\<close>, so the readers that compare with zero may raise.
\<close>

section \<open>Shared readers\<close>

text \<open>\<open>value not in (None, "")\<close>.\<close>

definition given :: "pyval \<Rightarrow> bool" where
  "given value \<longleftrightarrow> value \<noteq> VNone \<and> value \<noteq> VStr []"

definition native_normalize_side :: "string \<Rightarrow> string" where
  "native_normalize_side value =
     (let side = py_lower value in
      if side = ''buy'' then ''long'' else if side = ''sell'' then ''short'' else side)"

definition native_string :: "pyval \<Rightarrow> string option" where
  "native_string value = (if given value then Some (py_str value) else None)"

definition native_decimal :: "pyval \<Rightarrow> pydec option" where
  "native_decimal value = (if given value then py_decimal value else None)"

fun first_string :: "row \<Rightarrow> string list \<Rightarrow> string option" where
  "first_string payload [] = None"
| "first_string payload (key # keys) =
     (if given (row_get payload key) then Some (py_str (row_get payload key)) else first_string payload keys)"

text \<open>\<open>value > 0\<close> and \<open>value < 0\<close> on decimals.\<close>

definition dec_positive :: "pydec \<Rightarrow> bool result" where
  "dec_positive d = (case d of
     DFin x \<Rightarrow> Inr (0 < x) | DInf negative \<Rightarrow> Inr (\<not> negative) | DNaN \<Rightarrow> Inl InvalidOperation)"

definition dec_negative :: "pydec \<Rightarrow> bool result" where
  "dec_negative d = (case d of
     DFin x \<Rightarrow> Inr (x < 0) | DInf negative \<Rightarrow> Inr negative | DNaN \<Rightarrow> Inl InvalidOperation)"

text \<open>\<open>==\<close> on decimals: a NaN equals nothing.\<close>

definition dec_equal :: "pydec \<Rightarrow> pydec \<Rightarrow> bool" where
  "dec_equal a b \<longleftrightarrow> a = b \<and> a \<noteq> DNaN"

fun first_positive_decimal :: "row \<Rightarrow> string list \<Rightarrow> pydec option result" where
  "first_positive_decimal payload [] = Inr None"
| "first_positive_decimal payload (key # keys) =
     (case native_decimal (row_get payload key) of
        None \<Rightarrow> first_positive_decimal payload keys
      | Some d \<Rightarrow> rbind (dec_positive d) (\<lambda>positive.
          if positive then Inr (Some d) else first_positive_decimal payload keys))"

section \<open>The native TPSL order\<close>

record native_tpsl_expectation =
  ne_purpose :: string
  ne_trigger_price :: pydec
  ne_size :: pydec
  ne_ord_id :: "string option"

definition native_tpsl_expectation_post_init ::
    "string \<Rightarrow> pyval \<Rightarrow> pyval \<Rightarrow> pyval \<Rightarrow> native_tpsl_expectation result" where
  "native_tpsl_expectation_post_init purpose trigger_price size_value ord_id =
     (if purpose \<noteq> ''stop_loss'' \<and> purpose \<noteq> ''take_profit''
      then Inl (ValueError ''native_tpsl_expectation_purpose_invalid'')
      else case native_decimal trigger_price of
        None \<Rightarrow> Inl (ValueError ''native_tpsl_expectation_trigger_price_invalid'')
      | Some trigger \<Rightarrow> rbind (dec_positive trigger) (\<lambda>positive.
          if \<not> positive then Inl (ValueError ''native_tpsl_expectation_trigger_price_invalid'')
          else case native_decimal size_value of
            None \<Rightarrow> Inl (ValueError ''native_tpsl_expectation_size_invalid'')
          | Some sz \<Rightarrow> rbind (dec_negative sz) (\<lambda>negative.
              if negative then Inl (ValueError ''native_tpsl_expectation_size_invalid'')
              else Inr \<lparr>ne_purpose = purpose, ne_trigger_price = trigger, ne_size = sz,
                        ne_ord_id = native_string ord_id\<rparr>)))"

record native_tpsl_order =
  no_ord_id :: "string option"
  no_inst_id :: string
  no_pos_side :: string
  no_pos_id :: "string option"
  no_size :: "pydec option"
  no_created_time :: "string option"
  no_stop_loss_trigger_price :: "pydec option"
  no_take_profit_trigger_price :: "pydec option"
  no_raw :: row

record native_tpsl_match =
  nm_status :: string
  nm_order :: "native_tpsl_order option"

text \<open>The nonempty, stripped texts of some keys of a row.\<close>

definition given_texts :: "row \<Rightarrow> string list \<Rightarrow> string list" where
  "given_texts payload keys =
     List.map_filter (\<lambda>key. let value = row_get payload key in
       if value \<noteq> VNone \<and> py_strip (py_str value) \<noteq> [] then Some (py_strip (py_str value)) else None) keys"

definition protection_order_position_sides :: "row \<Rightarrow> string set" where
  "protection_order_position_sides payload =
     set (map native_normalize_side (given_texts payload [''posSide'', ''pos_side'']))"

definition native_tpsl_row_order_types :: "row \<Rightarrow> string set" where
  "native_tpsl_row_order_types payload =
     set (map py_upper (given_texts payload [''triggerOrderType'', ''trigger_order_type'']))"

definition is_protection_order_row :: "row \<Rightarrow> bool" where
  "is_protection_order_row payload =
     (let order_types = native_tpsl_row_order_types payload in
      card order_types \<noteq> 1 \<or> order_types = {''TPSL''})"

definition closing_side :: "string \<Rightarrow> string" where
  "closing_side position = (if position = ''long'' then ''sell'' else ''buy'')"

definition protection_order_sides_consistent :: "row \<Rightarrow> bool" where
  "protection_order_sides_consistent payload =
     (let positions = protection_order_position_sides payload;
          value = row_get payload ''side'';
          order_side = (if value = VNone then [] else py_lower (py_strip (py_str value)))
      in if 1 < card positions \<or> \<not> positions \<subseteq> {''long'', ''short''} then False
         else if order_side = [] then True
         else card positions = 1 \<and>
              order_side = closing_side (if ''long'' \<in> positions then ''long'' else ''short''))"

definition order_id_keys :: "string list" where
  "order_id_keys =
     [''OrderSysID'', ''ordId'', ''orderId'', ''order_id'', ''algoId'', ''triggerOrderId'', ''id'']"

definition row_claims_order_id :: "string \<Rightarrow> row \<Rightarrow> bool" where
  "row_claims_order_id order_id r =
     list_ex (\<lambda>key. row_get r key \<noteq> VNone \<and> py_strip (py_str (row_get r key)) = order_id) order_id_keys"

definition native_tpsl_order_id_is_unique :: "row list \<Rightarrow> string option \<Rightarrow> bool" where
  "native_tpsl_order_id_is_unique rows order_id =
     (case order_id of None \<Rightarrow> False
      | Some oid \<Rightarrow> oid \<noteq> [] \<and> length (filter (row_claims_order_id oid) rows) = 1)"

definition or_key :: "row \<Rightarrow> string \<Rightarrow> string \<Rightarrow> pyval" where
  "or_key payload a b = (if truthy (row_get payload a) then row_get payload a else row_get payload b)"

definition native_size_value :: "row \<Rightarrow> pyval" where
  "native_size_value payload =
     (if given (row_get payload ''sz'') then row_get payload ''sz''
      else if given (row_get payload ''size'') then row_get payload ''size''
      else row_get payload ''Volume'')"

definition normalize_native_tpsl :: "row \<Rightarrow> native_tpsl_order option result" where
  "normalize_native_tpsl payload =
     (if py_upper (str_or_empty (row_get payload ''triggerOrderType'')) \<noteq> ''TPSL'' then Inr None
      else
      rbind (first_positive_decimal payload
               [''SLTriggerPrice'', ''slTriggerPx'', ''slTriggerPrice'', ''closeSLTriggerPrice'']) (\<lambda>stop.
      rbind (first_positive_decimal payload
               [''TPTriggerPrice'', ''tpTriggerPx'', ''tpTriggerPrice'', ''closeTPTriggerPrice'']) (\<lambda>take_profit.
      Inr (Some \<lparr>
        no_ord_id = first_string payload order_id_keys,
        no_inst_id = py_upper (str_or_empty (or_key payload ''instId'' ''InstrumentID'')),
        no_pos_side = native_normalize_side (str_or_empty (or_key payload ''posSide'' ''PosiDirection'')),
        no_pos_id = first_string payload [''PositionID'', ''posId'', ''pos_id'', ''positionId''],
        no_size = native_decimal (native_size_value payload),
        no_created_time = first_string payload [''cTime'', ''uTime'', ''createdTime'', ''created_at'', ''CreateTime''],
        no_stop_loss_trigger_price = stop,
        no_take_profit_trigger_price = take_profit,
        no_raw = payload\<rparr>))))"

definition native_tpsl_take_profit_is_market :: "row \<Rightarrow> bool" where
  "native_tpsl_take_profit_is_market payload =
     (let supplied = filter given (map (row_get payload) [''tpOrdPx'', ''tpPrice''])
      in supplied \<noteq> [] \<and>
         list_all (\<lambda>value. native_decimal value = Some (DFin (- 1)) \<or> native_decimal value = Some (DFin 0)) supplied)"

definition native_leg_matches :: "native_tpsl_order \<Rightarrow> native_tpsl_expectation \<Rightarrow> bool" where
  "native_leg_matches order expected =
     (let actual_price = (if ne_purpose expected = ''stop_loss'' then no_stop_loss_trigger_price order
                          else no_take_profit_trigger_price order)
      in (case actual_price of None \<Rightarrow> False | Some p \<Rightarrow> dec_equal p (ne_trigger_price expected))
         \<and> (case no_size order of None \<Rightarrow> False | Some s \<Rightarrow> dec_equal s (ne_size expected)))"

definition exact_order_matches :: "row \<Rightarrow> native_tpsl_order \<Rightarrow> native_tpsl_expectation \<Rightarrow> bool" where
  "exact_order_matches position order expected =
     (let position_inst_id = py_upper (str_or_empty (row_get position ''instId''));
          position_side = native_normalize_side (str_or_empty (row_get position ''posSide''));
          position_pos_id = first_string position [''posId'', ''pos_id'', ''id'']
      in if position_inst_id = [] \<or> position_side = [] \<or> no_inst_id order = [] \<or> no_pos_side order = [] then False
         else if no_inst_id order \<noteq> position_inst_id \<or> no_pos_side order \<noteq> position_side then False
         else if position_pos_id \<noteq> None \<and> no_pos_id order \<noteq> None \<and> position_pos_id \<noteq> no_pos_id order then False
         else native_leg_matches order expected)"

definition match_native_tpsl_order ::
    "row \<Rightarrow> row list \<Rightarrow> native_tpsl_expectation \<Rightarrow> native_tpsl_match result" where
  "match_native_tpsl_order position orders expected =
     rbind (mapM normalize_native_tpsl orders) (\<lambda>maybe_orders.
       let normalized = List.map_filter (\<lambda>o'. o') maybe_orders
       in case ne_ord_id expected of
            None \<Rightarrow> Inr \<lparr>nm_status = ''not_found'', nm_order = None\<rparr>
          | Some oid \<Rightarrow>
              let exact = filter (\<lambda>order. no_ord_id order = Some oid) normalized
              in if 1 < length exact then Inr \<lparr>nm_status = ''ambiguous'', nm_order = None\<rparr>
                 else (case exact of
                     [] \<Rightarrow> Inr \<lparr>nm_status = ''not_found'', nm_order = None\<rparr>
                   | order # _ \<Rightarrow>
                       Inr \<lparr>nm_status = (if exact_order_matches position order expected
                                        then ''verified'' else ''mismatch''), nm_order = Some order\<rparr>))"

section \<open>Named readers of trigger rows\<close>

fun first_present_text :: "row \<Rightarrow> string list \<Rightarrow> string option" where
  "first_present_text r [] = None"
| "first_present_text r (key # keys) =
     (let value = row_get r key in
      if value = VNone then first_present_text r keys
      else let stripped = py_strip (py_str value)
           in if stripped \<noteq> [] then Some stripped else first_present_text r keys)"

definition stop_keys :: "string list" where "stop_keys = [''slTriggerPx'', ''slTriggerPrice'', ''stopLossPrice'']"
definition take_profit_keys :: "string list" where
  "take_profit_keys = [''tpTriggerPx'', ''tpTriggerPrice'', ''takeProfitPrice'']"
definition entry_attached_stop_keys :: "string list" where "entry_attached_stop_keys = [''closeSLTriggerPrice'']"
definition entry_attached_take_profit_keys :: "string list" where
  "entry_attached_take_profit_keys = [''closeTPTriggerPrice'']"
definition position_id_keys :: "string list" where "position_id_keys = [''posId'', ''pos_id'', ''id'']"
definition trigger_price_keys :: "string list" where "trigger_price_keys = [''triggerPx'', ''triggerPrice'']"
definition union_stop_keys :: "string list" where
  "union_stop_keys = [''slTriggerPx'', ''slTriggerPrice'', ''closeSLTriggerPrice'']"
definition union_take_profit_keys :: "string list" where
  "union_take_profit_keys = [''tpTriggerPx'', ''tpTriggerPrice'', ''closeTPTriggerPrice'']"

definition stop_trigger_price :: "row \<Rightarrow> string option" where
  "stop_trigger_price r = first_present_text r stop_keys"
definition take_profit_trigger_price :: "row \<Rightarrow> string option" where
  "take_profit_trigger_price r = first_present_text r take_profit_keys"
definition entry_attached_stop_trigger_price :: "row \<Rightarrow> string option" where
  "entry_attached_stop_trigger_price r = first_present_text r entry_attached_stop_keys"
definition entry_attached_take_profit_trigger_price :: "row \<Rightarrow> string option" where
  "entry_attached_take_profit_trigger_price r = first_present_text r entry_attached_take_profit_keys"
definition position_id_or_none :: "row \<Rightarrow> string option" where
  "position_id_or_none r = first_present_text r position_id_keys"
definition trigger_price :: "row \<Rightarrow> string option" where
  "trigger_price r = first_present_text r trigger_price_keys"
definition order_id_or_none :: "row \<Rightarrow> string option" where
  "order_id_or_none r = first_present_text r order_id_keys"

text \<open>
  \<open>float(text)\<close> up to what its callers ask of it: not a number, zero after rounding to a double
  (at most half the least subnormal), infinite after rounding, or the sign. A double's syntax is a
  decimal's, less the signalling and the numbered NaNs.
\<close>

datatype float_class = FZero | FPositive | FNegative | FInfinite | FNaN

definition plain_nan :: "string \<Rightarrow> bool" where
  "plain_nan s \<longleftrightarrow> py_lower s \<in> {''nan'', ''+nan'', ''-nan''}"

definition float_class_of :: "string \<Rightarrow> float_class option" where
  "float_class_of s = (case parse_decimal s of
       None \<Rightarrow> None
     | Some DNaN \<Rightarrow> if plain_nan (py_strip s) then Some FNaN else None
     | Some (DInf negative) \<Rightarrow> Some FInfinite
     | Some (DFin x) \<Rightarrow>
         if \<bar>x\<bar> * 2 ^ 1075 \<le> 1 then Some FZero
         else if 2 ^ 1024 - 2 ^ 970 \<le> \<bar>x\<bar> then Some FInfinite
         else if 0 < x then Some FPositive else Some FNegative)"

text \<open>\<open>_nonzero_number_or_none(value) is not None\<close>.\<close>

definition nonzero_number :: "pyval \<Rightarrow> bool" where
  "nonzero_number value = (case float_class_of (py_strip (py_str value)) of
     None \<Rightarrow> False | Some c \<Rightarrow> c \<noteq> FZero)"

definition any_trigger_price_including_entry_attached :: "row \<Rightarrow> string \<Rightarrow> bool \<Rightarrow> pyval" where
  "any_trigger_price_including_entry_attached r kind include_position_field =
     (let keys0 = (if kind = ''sl'' then union_stop_keys else union_take_profit_keys);
          keys = (if include_position_field then keys0 else tl keys0)
      in case filter nonzero_number (map (row_get r) keys) of [] \<Rightarrow> VNone | value # _ \<Rightarrow> value)"

definition take_profit_present_failing_closed :: "row \<Rightarrow> bool" where
  "take_profit_present_failing_closed r =
     list_ex (\<lambda>key. let value = row_get r key in
       given value \<and> (case float_class_of (py_strip (py_str value)) of
           None \<Rightarrow> True
         | Some c \<Rightarrow> c = FNaN \<or> c = FInfinite \<or> c = FPositive)) union_take_profit_keys"

section \<open>Properties\<close>

text \<open>The rows that normalise to an order with this id.\<close>

definition claims_id :: "string \<Rightarrow> row \<Rightarrow> bool" where
  "claims_id oid r \<longleftrightarrow> (\<exists>n. normalize_native_tpsl r = Inr (Some n) \<and> no_ord_id n = Some oid)"

lemma mapM_normalized:
  "mapM normalize_native_tpsl rows = Inr os \<Longrightarrow>
   length (filter (\<lambda>n. no_ord_id n = Some oid) (List.map_filter (\<lambda>x. x) os)) = length (filter (claims_id oid) rows)
   \<and> (\<forall>n\<in>set (List.map_filter (\<lambda>x. x) os). \<exists>r\<in>set rows. normalize_native_tpsl r = Inr (Some n))"
proof (induction rows arbitrary: os)
  case (Cons r rows)
  then obtain n os' where "normalize_native_tpsl r = Inr n" "mapM normalize_native_tpsl rows = Inr os'" "os = n # os'"
    by (auto simp: rbind_Inr_iff)
  with Cons.IH show ?case by (cases n) (auto simp: map_filter_def claims_id_def)
qed (simp add: map_filter_def)

text \<open>
  A native order is verified only when exactly one TPSL row carries the expected order id and that
  row is on the position's instrument and direction, does not name another position, and has
  the expected trigger price and size as numbers; two rows with the id are ambiguous, none is not
  found, and ownership is never inferred from anything but the id.
\<close>

theorem native_match_exact:
  assumes "match_native_tpsl_order position orders expected = Inr m"
  shows "(nm_status m = ''verified'' \<or> nm_status m = ''mismatch'' \<longleftrightarrow>
       (\<exists>oid. ne_ord_id expected = Some oid \<and> length (filter (claims_id oid) orders) = 1))
    \<and> (nm_status m = ''ambiguous'' \<longleftrightarrow> (\<exists>oid. ne_ord_id expected = Some oid \<and> 1 < length (filter (claims_id oid) orders)))
    \<and> (nm_status m = ''verified'' \<longrightarrow> (\<exists>r\<in>set orders. \<exists>n oid p s.
          normalize_native_tpsl r = Inr (Some n) \<and> nm_order m = Some n
        \<and> ne_ord_id expected = Some oid \<and> no_ord_id n = Some oid
        \<and> no_inst_id n = py_upper (str_or_empty (row_get position ''instId'')) \<and> no_inst_id n \<noteq> []
        \<and> no_pos_side n = native_normalize_side (str_or_empty (row_get position ''posSide'')) \<and> no_pos_side n \<noteq> []
        \<and> (no_pos_id n = None \<or> first_string position [''posId'', ''pos_id'', ''id''] \<in> {None, no_pos_id n})
        \<and> (if ne_purpose expected = ''stop_loss'' then no_stop_loss_trigger_price n else no_take_profit_trigger_price n) = Some p
        \<and> dec_equal p (ne_trigger_price expected)
        \<and> no_size n = Some s \<and> dec_equal s (ne_size expected)))"
proof -
  obtain os where os: "mapM normalize_native_tpsl orders = Inr os"
    using assms by (auto simp: match_native_tpsl_order_def rbind_Inr_iff)
  let ?norm = "List.map_filter (\<lambda>x. x) os"
  show ?thesis
  proof (cases "ne_ord_id expected")
    case None
    then show ?thesis using assms os by (auto simp: match_native_tpsl_order_def)
  next
    case (Some oid)
    define exact where "exact = filter (\<lambda>n. no_ord_id n = Some oid) ?norm"
    have len: "length exact = length (filter (claims_id oid) orders)"
      and mem: "\<And>n. n \<in> set exact \<Longrightarrow> no_ord_id n = Some oid \<and> (\<exists>r\<in>set orders. normalize_native_tpsl r = Inr (Some n))"
      using mapM_normalized [OF os, of oid] by (auto simp: exact_def)
    have m: "(if 1 < length exact then Inr \<lparr>nm_status = ''ambiguous'', nm_order = None\<rparr>
       else (case exact of [] \<Rightarrow> Inr \<lparr>nm_status = ''not_found'', nm_order = None\<rparr>
         | order # rest \<Rightarrow> Inr \<lparr>nm_status = (if exact_order_matches position order expected
              then ''verified'' else ''mismatch''), nm_order = Some order\<rparr>)) = (Inr m :: native_tpsl_match result)"
      using assms [unfolded match_native_tpsl_order_def os sum.case Some option.case Let_def, folded exact_def] .
    show ?thesis
    proof (cases exact)
      case Nil
      then show ?thesis using m len Some by auto
    next
      case (Cons n rest)
      show ?thesis
      proof (cases rest)
        case Nil
        with Cons m have st: "m = \<lparr>nm_status = (if exact_order_matches position n expected then ''verified'' else ''mismatch''), nm_order = Some n\<rparr>"
          by simp
        have one: "length (filter (claims_id oid) orders) = 1" using len Cons Nil by simp
        obtain r where r: "r \<in> set orders" "normalize_native_tpsl r = Inr (Some n)" "no_ord_id n = Some oid"
          using mem [of n] Cons by auto
        have "exact_order_matches position n expected \<Longrightarrow> \<exists>p s. no_inst_id n = py_upper (str_or_empty (row_get position ''instId'')) \<and> no_inst_id n \<noteq> []
        \<and> no_pos_side n = native_normalize_side (str_or_empty (row_get position ''posSide'')) \<and> no_pos_side n \<noteq> []
        \<and> (no_pos_id n = None \<or> first_string position [''posId'', ''pos_id'', ''id''] \<in> {None, no_pos_id n})
        \<and> (if ne_purpose expected = ''stop_loss'' then no_stop_loss_trigger_price n else no_take_profit_trigger_price n) = Some p
        \<and> dec_equal p (ne_trigger_price expected) \<and> no_size n = Some s \<and> dec_equal s (ne_size expected)"
          unfolding exact_order_matches_def native_leg_matches_def Let_def
          by (simp split: if_split_asm option.split_asm del: first_string.simps) blast+
        then show ?thesis using st one r Some by auto
      next
        case (Cons n' rest')
        then show ?thesis using m len \<open>exact = n # rest\<close> Some by auto
      qed
    qed
  qed
qed

definition expected_stop :: native_tpsl_expectation where
  "expected_stop = \<lparr>ne_purpose = ''stop_loss'', ne_trigger_price = DFin 90, ne_size = DFin 2, ne_ord_id = Some ''o1''\<rparr>"

definition resting_stop :: row where
  "resting_stop = [''triggerOrderType'' \<mapsto> VStr ''TPSL'', ''ordId'' \<mapsto> VStr ''o1'', ''instId'' \<mapsto> VStr ''BTC'',
     ''posSide'' \<mapsto> VStr ''long'', ''sz'' \<mapsto> VStr ''2.0'', ''slTriggerPx'' \<mapsto> VStr ''90.00'']"

definition long_position :: row where
  "long_position = [''instId'' \<mapsto> VStr ''BTC'', ''posSide'' \<mapsto> VStr ''long'', ''posId'' \<mapsto> VStr ''p1'']"

theorem native_match_exact_witness:
  "\<exists>m. match_native_tpsl_order long_position [resting_stop] expected_stop = Inr m \<and> nm_status m = ''verified''
     \<and> length (filter (claims_id ''o1'') [resting_stop]) = 1"
proof -
  have "(case match_native_tpsl_order long_position [resting_stop] expected_stop of Inl e \<Rightarrow> False | Inr m \<Rightarrow> nm_status m = ''verified'')"
    by code_simp
  then obtain m where m: "match_native_tpsl_order long_position [resting_stop] expected_stop = Inr m" "nm_status m = ''verified''"
    by (auto split: sum.splits)
  from native_match_exact [OF m(1)] m show ?thesis by (auto simp: expected_stop_def)
qed

end
