(* ===== verification/Protection_Authority.thy ===== *)
theory Protection_Authority
  imports Native_Tpsl
begin

text \<open>
  Which exchange protection orders belong to one exact position (\<open>protection_authority.py\<close>, with
  the ownership check of \<open>position_attribution.py\<close> it starts from).

  The database is the three tables the module reads, as lists of rows in the order a query answers
  them; a leg's \<open>request_json\<close> is given as what \<open>json.loads\<close> makes of it when that is an object.
  Whether a leg's stored evidence is authoritative (\<open>has_authoritative_persisted_position\<close>, which
  reads further JSON and tables) is the argument \<open>authoritative\<close>. Rows that are not objects, which
  the code skips, are left out; the cache of the signatures is not modelled.
\<close>

section \<open>Constants and data\<close>

definition stop_purposes :: "string list" where "stop_purposes = [''stop_loss'', ''backup_stop'']"
definition take_profit_purposes :: "string list" where "take_profit_purposes = [''take_profit'']"
definition active_ledger_statuses :: "string list" where
  "active_ledger_statuses = [''verified'', ''protected'', ''active'']"
definition adoption_evidence_source :: string where "adoption_evidence_source = ''exchange_adopted_by_tu''"
definition trade_unit_before_position :: string where "trade_unit_before_position = ''default''"
definition pending_entry_leg_statuses :: "string list" where
  "pending_entry_leg_statuses = [''pending'', ''submitted'', ''live'', ''partially_filled'']"
definition group_stop :: string where "group_stop = ''stop''"
definition group_take_profit :: string where "group_take_profit = ''take_profit''"

definition freeze_position_not_verified :: string where
  "freeze_position_not_verified = ''position_ownership_not_verified''"
definition freeze_pending_read_incomplete :: string where
  "freeze_pending_read_incomplete = ''pending_read_incomplete''"
definition freeze_order_unattributable :: string where
  "freeze_order_unattributable = ''protection_order_unattributable''"
definition freeze_order_identity_missing :: string where
  "freeze_order_identity_missing = ''protection_order_identity_missing''"
definition freeze_combined_tpsl_order :: string where
  "freeze_combined_tpsl_order = ''protection_order_combines_stop_and_take_profit''"
definition freeze_ledger_exchange_conflict :: string where
  "freeze_ledger_exchange_conflict = ''protection_order_ledger_exchange_conflict''"

type_synonym facts = "(string \<times> pyval) list"

record ledger_row =
  pl_venue :: string
  pl_status :: string
  pl_order_id :: pyval
  pl_pos_id :: pyval
  pl_purpose :: pyval
  pl_trigger_price :: pyval
  pl_size_text :: pyval

record ws_event_row =
  we_venue :: string
  we_channel :: string
  we_order_sys_id :: string
  we_trade_unit_id :: pyval

record entry_leg =
  el_id :: int
  el_venue :: string
  el_pos_id :: pyval
  el_purpose :: pyval
  el_status :: pyval
  el_attribution_status :: pyval
  el_execution_binding_id :: int
  el_strategy_instance_id :: pyval
  el_request :: "row option"

record protection_db =
  pd_ledger :: "ledger_row list"
  pd_events :: "ws_event_row list"
  pd_legs :: "entry_leg list"

record protection_order_ref =
  pr_order_id :: string
  pr_group :: string
  pr_purpose :: string
  pr_trigger_price :: "string option"
  pr_size_text :: "string option"
  pr_ledger_trigger_price :: "string option"
  pr_ledger_size_text :: "string option"
  pr_source :: string
  pr_row :: row

record protection_adoption =
  pd_order_id :: string
  pd_purpose :: string
  pd_trigger_price :: "string option"
  pd_size_text :: "string option"
  pd_evidence :: facts

record protection_authority =
  pa_status :: string
  pa_pos_id :: string
  pa_instrument_id :: string
  pa_side :: string
  pa_reason_code :: "string option"
  pa_execution_binding_id :: "int option"
  pa_execution_order_leg_id :: "int option"
  pa_strategy_instance_id :: "string option"
  pa_stop_orders :: "protection_order_ref list"
  pa_take_profit_orders :: "protection_order_ref list"
  pa_adoptions :: "protection_adoption list"
  pa_unattributable_order_ids :: "string list"
  pa_excluded_pending_entry_order_ids :: "string list"
  pa_evidence :: facts

definition authority_resolved :: "protection_authority \<Rightarrow> bool" where
  "authority_resolved a \<longleftrightarrow> pa_status a = ''resolved''"

definition authority_group :: "protection_authority \<Rightarrow> string \<Rightarrow> protection_order_ref list result" where
  "authority_group a grp =
     (if grp = group_stop then Inr (pa_stop_orders a)
      else if grp = group_take_profit then Inr (pa_take_profit_orders a)
      else Inl (ValueError ''protection_group_invalid''))"

definition authority_orders :: "protection_authority \<Rightarrow> protection_order_ref list" where
  "authority_orders a = pa_stop_orders a @ pa_take_profit_orders a"

definition authority_order_ids :: "protection_authority \<Rightarrow> string list" where
  "authority_order_ids a = map pr_order_id (authority_orders a)"

section \<open>Texts and the tables\<close>

definition dec_plain_text :: "pydec \<Rightarrow> string" where
  "dec_plain_text d = (case d of DFin x \<Rightarrow> decimal_text x
     | DInf negative \<Rightarrow> (if negative then ''-Infinity'' else ''Infinity'') | DNaN \<Rightarrow> ''NaN'')"

definition authority_text :: "pyval \<Rightarrow> string option" where
  "authority_text value =
     (if \<not> given value then None
      else case value of VDec d \<Rightarrow> Some (dec_plain_text d)
      | _ \<Rightarrow> (case py_decimal value of Some (DFin x) \<Rightarrow> Some (decimal_text x) | _ \<Rightarrow> Some (py_str value)))"

definition dec_text_option :: "pydec option \<Rightarrow> string option" where
  "dec_text_option d = map_option dec_plain_text d"

definition venue_key :: "pyval \<Rightarrow> string" where
  "venue_key venue = py_lower (if truthy venue then py_str venue else ''deepcoin'')"

definition active_ledger_rows_by_order_id :: "protection_db \<Rightarrow> pyval \<Rightarrow> string \<Rightarrow> ledger_row option" where
  "active_ledger_rows_by_order_id db venue =
     map_of (rev (filter (\<lambda>p. fst p \<noteq> []) (map (\<lambda>r. (py_strip (str_or_empty (pl_order_id r)), r))
       (filter (\<lambda>r. pl_venue r = venue_key venue \<and> pl_status r \<in> set active_ledger_statuses) (pd_ledger db)))))"

definition trade_unit_values :: "protection_db \<Rightarrow> pyval \<Rightarrow> string \<Rightarrow> string set" where
  "trade_unit_values db venue order_id =
     set (filter (\<lambda>t. t \<noteq> ''0'') (map (\<lambda>r. py_strip (py_str (we_trade_unit_id r)))
       (filter (\<lambda>r. we_venue r = venue_key venue \<and> we_channel r = ''TriggerOrder''
                    \<and> we_order_sys_id r = order_id \<and> given (we_trade_unit_id r)) (pd_events db))))"

definition sole_position_trade_unit :: "string set \<Rightarrow> string option" where
  "sole_position_trade_unit trade_units =
     (let positions = trade_units - {trade_unit_before_position}
      in if card positions \<noteq> 1 then None else Some (the_elem positions))"

definition leg_stop_signature :: "entry_leg \<Rightarrow> (string \<times> string \<times> string \<times> string) option" where
  "leg_stop_signature leg = (case el_request leg of None \<Rightarrow> None
     | Some request \<Rightarrow>
         let instrument = py_upper (py_strip (str_or_empty (row_get request ''instId'')));
             pos_side = py_lower (py_strip (str_or_empty (row_get request ''posSide'')))
         in (case (authority_text (row_get request ''sz''), authority_text (row_get request ''slTriggerPx'')) of
               (Some sz, Some stop) \<Rightarrow>
                 if instrument \<noteq> [] \<and> pos_side \<noteq> [] \<and> sz \<noteq> [] \<and> stop \<noteq> []
                 then Some (instrument, pos_side, sz, stop) else None
             | _ \<Rightarrow> None))"

definition resting_entry_legs :: "protection_db \<Rightarrow> pyval \<Rightarrow> entry_leg list" where
  "resting_entry_legs db venue =
     filter (\<lambda>l. el_venue l = venue_key venue \<and> el_purpose l = VStr ''entry''
       \<and> (\<exists>s\<in>set pending_entry_leg_statuses. el_status l = VStr s)) (pd_legs db)"

definition pending_entry_stop_signatures ::
    "protection_db \<Rightarrow> pyval \<Rightarrow> (string \<times> string \<times> string \<times> string) list" where
  "pending_entry_stop_signatures db venue = List.map_filter leg_stop_signature (resting_entry_legs db venue)"

definition text_or_empty :: "string option \<Rightarrow> string" where
  "text_or_empty t = (case t of None \<Rightarrow> [] | Some s \<Rightarrow> s)"

definition row_signature :: "native_tpsl_order \<Rightarrow> string \<times> string \<times> string \<times> string" where
  "row_signature normalized =
     (py_upper (no_inst_id normalized), py_lower (no_pos_side normalized),
      text_or_empty (dec_text_option (no_size normalized)),
      text_or_empty (dec_text_option (no_stop_loss_trigger_price normalized)))"

definition purpose_for :: "ledger_row option \<Rightarrow> string \<Rightarrow> string" where
  "purpose_for ledger grp =
     (let purpose = (case ledger of None \<Rightarrow> [] | Some l \<Rightarrow> py_lower (str_or_empty (pl_purpose l)))
      in if ledger \<noteq> None \<and> grp = group_stop \<and> purpose \<in> set stop_purposes then purpose
         else if ledger \<noteq> None \<and> grp = group_take_profit \<and> purpose \<in> set take_profit_purposes then purpose
         else if grp = group_stop then ''stop_loss'' else ''take_profit'')"

definition order_identity :: "row \<Rightarrow> string" where
  "order_identity r =
     (case filter given (map (row_get r) [''ordId'', ''orderId'', ''order_id'', ''algoId'', ''triggerOrderId'', ''id'']) of
        [] \<Rightarrow> [] | value # _ \<Rightarrow> py_strip (py_str value))"

text \<open>\<open>require_verified_position_ownership\<close>: the leg, or the error's text.\<close>

definition terminal_entry_leg_states :: "string list" where
  "terminal_entry_leg_states = [''cancelled'', ''manually_cancelled'', ''exchange_cancelled'', ''manually_closed'', ''closed'', ''expired'',
     ''invalidated'']"

definition require_verified_position_ownership ::
    "(entry_leg \<Rightarrow> bool) \<Rightarrow> protection_db \<Rightarrow> pyval \<Rightarrow> string \<Rightarrow> string + entry_leg" where
  "require_verified_position_ownership authoritative db venue pos_id =
     (case filter (\<lambda>l. el_venue l = venue_key venue \<and> el_pos_id l = VStr pos_id) (pd_legs db) of
        [leg] \<Rightarrow>
          (let state = (if truthy (el_attribution_status leg) then py_str (el_attribution_status leg) else ''unassigned'')
           in if state \<noteq> ''verified'' then Inl (''position_ownership_not_verified:'' @ state)
              else if \<not> authoritative leg then Inl ''position_ownership_evidence_not_authoritative''
              else if py_lower (str_or_empty (el_status leg)) \<in> set terminal_entry_leg_states
              then Inl ''position_ownership_terminal''
              else Inr leg)
      | _ \<Rightarrow> Inl ''position_ownership_not_unique'')"

section \<open>Resolving one position\<close>

text \<open>What the scan of the pending rows has found so far.\<close>

record authority_scan =
  sc_excluded :: "string list"
  sc_stop_orders :: "protection_order_ref list"
  sc_take_profit_orders :: "protection_order_ref list"
  sc_adoptions :: "protection_adoption list"
  sc_unattributable :: "string list"
  sc_considered :: nat

definition empty_scan :: authority_scan where
  "empty_scan = \<lparr>sc_excluded = [], sc_stop_orders = [], sc_take_profit_orders = [], sc_adoptions = [],
     sc_unattributable = [], sc_considered = 0\<rparr>"

datatype scan_outcome = Scanned authority_scan | Frozen_at string facts authority_scan

datatype row_owner = Resting_entry | Owner "string option" "string option"

definition row_owner_of ::
    "protection_db \<Rightarrow> pyval \<Rightarrow> ledger_row option \<Rightarrow> string \<Rightarrow> native_tpsl_order \<Rightarrow> row_owner" where
  "row_owner_of db venue ledger order_id normalized =
     (case ledger of
        Some l \<Rightarrow> Owner (Some (str_or_empty (pl_pos_id l))) (Some ''ledger'')
      | None \<Rightarrow>
          let trade_units = trade_unit_values db venue order_id in
          if trade_units = {trade_unit_before_position}
             \<and> row_signature normalized \<in> set (pending_entry_stop_signatures db venue)
          then Resting_entry
          else (case sole_position_trade_unit trade_units of
              Some p \<Rightarrow> Owner (Some p) (Some adoption_evidence_source)
            | None \<Rightarrow>
                let own = py_strip (text_or_empty (no_pos_id normalized))
                in if own = [] then Owner None None else Owner (Some own) (Some ''exchange_row_position_id'')))"

definition order_ref ::
    "row \<Rightarrow> native_tpsl_order \<Rightarrow> string \<Rightarrow> ledger_row option \<Rightarrow> string option \<Rightarrow> protection_order_ref" where
  "order_ref r normalized order_id ledger source =
     (let has_stop = (no_stop_loss_trigger_price normalized \<noteq> None);
          grp = (if has_stop then group_stop else group_take_profit)
      in \<lparr>pr_order_id = order_id, pr_group = grp, pr_purpose = purpose_for ledger grp,
          pr_trigger_price = dec_text_option (if has_stop then no_stop_loss_trigger_price normalized
                                              else no_take_profit_trigger_price normalized),
          pr_size_text = dec_text_option (no_size normalized),
          pr_ledger_trigger_price = (case ledger of None \<Rightarrow> None | Some l \<Rightarrow> authority_text (pl_trigger_price l)),
          pr_ledger_size_text = (case ledger of None \<Rightarrow> None | Some l \<Rightarrow> authority_text (pl_size_text l)),
          pr_source = (case source of None \<Rightarrow> ''ledger'' | Some s \<Rightarrow> if s = [] then ''ledger'' else s),
          pr_row = r\<rparr>)"

definition text_value :: "string option \<Rightarrow> pyval" where
  "text_value t = (case t of None \<Rightarrow> VNone | Some s \<Rightarrow> VStr s)"

definition adoption_of ::
    "protection_order_ref \<Rightarrow> string option \<Rightarrow> string \<Rightarrow> string \<Rightarrow> string \<Rightarrow> protection_adoption" where
  "adoption_of ref source pos_id instrument_id pos_side =
     \<lparr>pd_order_id = pr_order_id ref, pd_purpose = pr_purpose ref, pd_trigger_price = pr_trigger_price ref,
      pd_size_text = pr_size_text ref,
      pd_evidence = [(''source'', text_value source), (''pos_id'', VStr pos_id),
        (''instrument_id'', VStr instrument_id), (''pos_side'', VStr pos_side),
        (''trigger_order_type'', VStr ''TPSL'')]\<rparr>"

definition add_ref ::
    "protection_order_ref \<Rightarrow> protection_adoption option \<Rightarrow> authority_scan \<Rightarrow> authority_scan" where
  "add_ref ref adoption sc =
     (let sc1 = (case adoption of None \<Rightarrow> sc | Some a \<Rightarrow> sc\<lparr>sc_adoptions := sc_adoptions sc @ [a]\<rparr>)
      in if pr_group ref = group_stop then sc1\<lparr>sc_stop_orders := sc_stop_orders sc1 @ [ref]\<rparr>
         else sc1\<lparr>sc_take_profit_orders := sc_take_profit_orders sc1 @ [ref]\<rparr>)"

text \<open>A row whose owner is this position.\<close>

definition scan_owned_row ::
    "string \<Rightarrow> string \<Rightarrow> string \<Rightarrow> row \<Rightarrow> native_tpsl_order \<Rightarrow> string \<Rightarrow> ledger_row option \<Rightarrow> string option
     \<Rightarrow> authority_scan \<Rightarrow> scan_outcome" where
  "scan_owned_row pos_id instrument_id side r normalized order_id ledger source sc =
     (let exchange_pos_id = py_strip (text_or_empty (no_pos_id normalized));
          has_stop = (no_stop_loss_trigger_price normalized \<noteq> None);
          has_take_profit = (no_take_profit_trigger_price normalized \<noteq> None)
      in if ledger \<noteq> None \<and> exchange_pos_id \<noteq> [] \<and> exchange_pos_id \<noteq> pos_id
         then Frozen_at freeze_ledger_exchange_conflict
                [(''order_id'', VStr order_id), (''ledger_pos_id'', VStr pos_id),
                 (''exchange_pos_id'', VStr exchange_pos_id)] sc
         else if no_pos_side normalized \<noteq> [] \<and> side \<noteq> [] \<and> no_pos_side normalized \<noteq> side
         then Frozen_at freeze_ledger_exchange_conflict
                [(''order_id'', VStr order_id), (''detail'', VStr ''pos_side_mismatch''),
                 (''exchange_pos_side'', VStr (no_pos_side normalized))] sc
         else if has_stop \<and> has_take_profit
         then Frozen_at freeze_combined_tpsl_order [(''order_id'', VStr order_id)] sc
         else if \<not> has_stop \<and> \<not> has_take_profit then Scanned sc
         else
           let ref = order_ref r normalized order_id ledger source
           in Scanned (add_ref ref
                (if ledger = None
                 then Some (adoption_of ref source pos_id instrument_id (no_pos_side normalized)) else None) sc))"

definition scan_tpsl_row ::
    "protection_db \<Rightarrow> pyval \<Rightarrow> string \<Rightarrow> string \<Rightarrow> string \<Rightarrow> row \<Rightarrow> native_tpsl_order \<Rightarrow> authority_scan
     \<Rightarrow> scan_outcome" where
  "scan_tpsl_row db venue pos_id instrument_id side r normalized sc =
     (if no_inst_id normalized \<noteq> [] \<and> no_inst_id normalized \<noteq> instrument_id then Scanned sc
      else
      let order_id = py_strip (text_or_empty (no_ord_id normalized));
          sc1 = sc\<lparr>sc_considered := Suc (sc_considered sc)\<rparr>;
          ledger = active_ledger_rows_by_order_id db venue order_id
      in if order_id = []
         then Frozen_at freeze_order_identity_missing [(''instrument_id'', VStr instrument_id)] sc1
         else case row_owner_of db venue ledger order_id normalized of
             Resting_entry \<Rightarrow> Scanned (sc1\<lparr>sc_excluded := sc_excluded sc1 @ [order_id]\<rparr>)
           | Owner owner source \<Rightarrow>
               (case owner of
                  None \<Rightarrow>
                    let row_sides = protection_order_position_sides r
                    in if row_sides \<noteq> {} \<and> side \<noteq> [] \<and> side \<notin> row_sides then Scanned sc1
                       else Scanned (sc1\<lparr>sc_unattributable := sc_unattributable sc1 @ [order_id]\<rparr>)
                | Some o' \<Rightarrow>
                    if o' \<noteq> pos_id then Scanned sc1
                    else scan_owned_row pos_id instrument_id side r normalized order_id ledger source sc1))"

definition unidentified_marker :: string where
  "unidentified_marker = ''<unidentified>''"

definition scan_row ::
    "protection_db \<Rightarrow> pyval \<Rightarrow> string \<Rightarrow> string \<Rightarrow> string \<Rightarrow> row \<Rightarrow> authority_scan \<Rightarrow> scan_outcome result" where
  "scan_row db venue pos_id instrument_id side r sc =
     (let order_types = native_tpsl_row_order_types r in
      if order_types = {''CONDITIONAL''} then Inr (Scanned sc)
      else if order_types \<noteq> {''TPSL''} then
        (let identity = order_identity r in
         Inr (Scanned (sc\<lparr>sc_unattributable := sc_unattributable sc @
                [if identity = [] then unidentified_marker else identity]\<rparr>)))
      else rbind (normalize_native_tpsl r) (\<lambda>normalized. case normalized of
             None \<Rightarrow> Inr (Scanned sc)
           | Some n \<Rightarrow> Inr (scan_tpsl_row db venue pos_id instrument_id side r n sc)))"

fun scan_rows ::
    "protection_db \<Rightarrow> pyval \<Rightarrow> string \<Rightarrow> string \<Rightarrow> string \<Rightarrow> row list \<Rightarrow> authority_scan \<Rightarrow> scan_outcome result" where
  "scan_rows db venue pos_id instrument_id side [] sc = Inr (Scanned sc)"
| "scan_rows db venue pos_id instrument_id side (r # rows) sc =
     rbind (scan_row db venue pos_id instrument_id side r sc) (\<lambda>out. case out of
        Frozen_at reason evidence sc' \<Rightarrow> Inr out
      | Scanned sc' \<Rightarrow> scan_rows db venue pos_id instrument_id side rows sc')"

definition frozen_authority ::
    "string \<Rightarrow> string \<Rightarrow> string \<Rightarrow> string \<Rightarrow> string list \<Rightarrow> string list \<Rightarrow> facts \<Rightarrow> protection_authority" where
  "frozen_authority pos_id instrument_id side reason unattributable excluded evidence =
     \<lparr>pa_status = ''frozen'', pa_pos_id = pos_id, pa_instrument_id = instrument_id, pa_side = side,
      pa_reason_code = Some reason, pa_execution_binding_id = None, pa_execution_order_leg_id = None,
      pa_strategy_instance_id = None, pa_stop_orders = [], pa_take_profit_orders = [], pa_adoptions = [],
      pa_unattributable_order_ids = unattributable, pa_excluded_pending_entry_order_ids = excluded,
      pa_evidence = evidence\<rparr>"

definition resolved_authority ::
    "string \<Rightarrow> string \<Rightarrow> string \<Rightarrow> entry_leg \<Rightarrow> authority_scan \<Rightarrow> protection_authority" where
  "resolved_authority pos_id instrument_id side leg sc =
     \<lparr>pa_status = ''resolved'', pa_pos_id = pos_id, pa_instrument_id = instrument_id, pa_side = side,
      pa_reason_code = None, pa_execution_binding_id = Some (el_execution_binding_id leg),
      pa_execution_order_leg_id = Some (el_id leg),
      pa_strategy_instance_id = (let s = str_or_empty (el_strategy_instance_id leg) in if s = [] then None else Some s),
      pa_stop_orders = sc_stop_orders sc, pa_take_profit_orders = sc_take_profit_orders sc,
      pa_adoptions = sc_adoptions sc, pa_unattributable_order_ids = [],
      pa_excluded_pending_entry_order_ids = sc_excluded sc,
      pa_evidence = [(''pending_tpsl_rows_considered'', VInt (int (sc_considered sc)))]\<rparr>"

definition resolve_protection_authority ::
    "(entry_leg \<Rightarrow> bool) \<Rightarrow> protection_db \<Rightarrow> pyval \<Rightarrow> pyval \<Rightarrow> pyval \<Rightarrow> pyval \<Rightarrow> row list option
     \<Rightarrow> protection_authority result" where
  "resolve_protection_authority authoritative db venue pos_value instrument_value side_value pending_rows =
     (let pos_id = py_strip (str_or_empty pos_value);
          instrument_id = py_upper (py_strip (str_or_empty instrument_value));
          side = py_lower (py_strip (str_or_empty side_value))
      in case require_verified_position_ownership authoritative db venue pos_id of
           Inl detail \<Rightarrow> Inr (frozen_authority pos_id instrument_id side freeze_position_not_verified [] []
                             [(''detail'', VStr detail)])
         | Inr leg \<Rightarrow>
         (case pending_rows of
            None \<Rightarrow> Inr (frozen_authority pos_id instrument_id side freeze_pending_read_incomplete [] [] [])
          | Some rows \<Rightarrow>
              rbind (scan_rows db venue pos_id instrument_id side rows empty_scan) (\<lambda>out. case out of
                Frozen_at reason evidence sc \<Rightarrow>
                  Inr (frozen_authority pos_id instrument_id side reason [] (sc_excluded sc) evidence)
              | Scanned sc \<Rightarrow>
                  if sc_unattributable sc \<noteq> []
                  then Inr (frozen_authority pos_id instrument_id side freeze_order_unattributable
                         (sort (sc_unattributable sc)) (sc_excluded sc) [(''instrument_id'', VStr instrument_id)])
                  else Inr (resolved_authority pos_id instrument_id side leg sc))))"

section \<open>Before a cancel, and the ledger\<close>

definition cancel_target_not_resolved :: string where "cancel_target_not_resolved = ''protection_cancel_target_not_resolved''"
definition cancel_target_not_tpsl :: string where "cancel_target_not_tpsl = ''protection_cancel_target_not_tpsl''"
definition cancel_target_instrument_changed :: string where
  "cancel_target_instrument_changed = ''protection_cancel_target_instrument_changed''"
definition cancel_target_side_changed :: string where
  "cancel_target_side_changed = ''protection_cancel_target_side_changed''"
definition cancel_target_trigger_changed :: string where
  "cancel_target_trigger_changed = ''protection_cancel_target_trigger_changed''"
definition cancel_target_size_changed :: string where
  "cancel_target_size_changed = ''protection_cancel_target_size_changed''"
definition cancel_target_absent :: string where "cancel_target_absent = ''protection_cancel_target_absent''"

definition check_cancel_target ::
    "protection_authority \<Rightarrow> protection_order_ref \<Rightarrow> native_tpsl_order option \<Rightarrow> string option" where
  "check_cancel_target authority item normalized = (case normalized of
       None \<Rightarrow> Some cancel_target_not_tpsl
     | Some n \<Rightarrow>
         if no_inst_id n \<noteq> [] \<and> no_inst_id n \<noteq> pa_instrument_id authority
         then Some cancel_target_instrument_changed
         else if no_pos_side n \<noteq> [] \<and> pa_side authority \<noteq> [] \<and> no_pos_side n \<noteq> pa_side authority
         then Some cancel_target_side_changed
         else if dec_text_option (if pr_group item = group_stop then no_stop_loss_trigger_price n
                                  else no_take_profit_trigger_price n) \<noteq> pr_trigger_price item
         then Some cancel_target_trigger_changed
         else if dec_text_option (no_size n) \<noteq> pr_size_text item then Some cancel_target_size_changed
         else None)"

fun find_cancel_target ::
    "protection_authority \<Rightarrow> protection_order_ref \<Rightarrow> string \<Rightarrow> row list \<Rightarrow> string option result" where
  "find_cancel_target authority item order_id [] = Inr (Some cancel_target_absent)"
| "find_cancel_target authority item order_id (r # rows) =
     rbind (normalize_native_tpsl r) (\<lambda>normalized.
       if order_identity r \<noteq> order_id then find_cancel_target authority item order_id rows
       else Inr (check_cancel_target authority item normalized))"

text \<open>The code that answers it, \<open>None\<close> for yes.\<close>

definition evaluate_cancel_precheck ::
    "protection_authority \<Rightarrow> row list option \<Rightarrow> string \<Rightarrow> string option result" where
  "evaluate_cancel_precheck authority pending_rows order_id =
     (case map_of (rev (map (\<lambda>item. (pr_order_id item, item)) (authority_orders authority))) order_id of
        None \<Rightarrow> Inr (Some cancel_target_not_resolved)
      | Some item \<Rightarrow> (case pending_rows of
            None \<Rightarrow> Inr (Some freeze_pending_read_incomplete)
          | Some rows \<Rightarrow> find_cancel_target authority item order_id rows))"

definition order_drift :: "protection_order_ref \<Rightarrow> (string \<times> string) option" where
  "order_drift item =
     (if pr_ledger_trigger_price item = None then None
      else if pr_ledger_trigger_price item \<noteq> pr_trigger_price item then Some (pr_order_id item, ''trigger_price'')
      else if pr_ledger_size_text item \<noteq> pr_size_text item then Some (pr_order_id item, ''size'')
      else None)"

definition ledger_drift :: "protection_authority \<Rightarrow> string \<Rightarrow> string option" where
  "ledger_drift authority = map_of (rev (List.map_filter order_drift (authority_orders authority)))"

text \<open>\<open>adopt_protection_orders\<close>: the ledger upserts it makes, in order.\<close>

record ledger_upsert =
  lu_binding_id :: int
  lu_leg_id :: int
  lu_strategy_instance_id :: "string option"
  lu_pos_id :: string
  lu_instrument_id :: string
  lu_side :: string
  lu_status :: string
  lu_evidence_source :: string
  lu_adoption :: protection_adoption

definition adopt_protection_orders :: "protection_authority \<Rightarrow> ledger_upsert list result" where
  "adopt_protection_orders authority =
     (if \<not> authority_resolved authority then Inl (ValueError ''protection_authority_not_resolved'')
      else case (pa_execution_binding_id authority, pa_execution_order_leg_id authority) of
        (Some binding, Some leg) \<Rightarrow>
          Inr (map (\<lambda>adoption.
            \<lparr>lu_binding_id = binding, lu_leg_id = leg,
             lu_strategy_instance_id = pa_strategy_instance_id authority, lu_pos_id = pa_pos_id authority,
             lu_instrument_id = pa_instrument_id authority, lu_side = pa_side authority,
             lu_status = ''verified'', lu_evidence_source = adoption_evidence_source,
             lu_adoption = adoption\<rparr>) (pa_adoptions authority))
      | _ \<Rightarrow> Inl (ValueError ''protection_authority_incomplete''))"

section \<open>Readers of the pending table\<close>

text \<open>The rows the two readers look at: TPSL only, normalised, with their order id.\<close>

definition tpsl_identity :: "row \<Rightarrow> (string \<times> native_tpsl_order) option result" where
  "tpsl_identity r =
     (if native_tpsl_row_order_types r \<noteq> {''TPSL''} then Inr None
      else rbind (normalize_native_tpsl r) (\<lambda>normalized. Inr (case normalized of
          None \<Rightarrow> None
        | Some n \<Rightarrow> let order_id = py_strip (text_or_empty (no_ord_id n))
                    in if order_id = [] then None else Some (order_id, n))))"

definition resting_entry_attached_stop_order_ids :: "protection_db \<Rightarrow> pyval \<Rightarrow> row list \<Rightarrow> string set result" where
  "resting_entry_attached_stop_order_ids db venue rows =
     rbind (mapM tpsl_identity rows) (\<lambda>found. Inr (set (map fst (filter
       (\<lambda>(order_id, n). trade_unit_values db venue order_id = {trade_unit_before_position}
          \<and> row_signature n \<in> set (pending_entry_stop_signatures db venue))
       (List.map_filter (\<lambda>x. x) found)))))"

definition pending_row_trade_unit_pos_ids ::
    "protection_db \<Rightarrow> pyval \<Rightarrow> row list \<Rightarrow> (string \<Rightarrow> string option) result" where
  "pending_row_trade_unit_pos_ids db venue rows =
     rbind (mapM tpsl_identity rows) (\<lambda>found. Inr (map_of (rev (List.map_filter
       (\<lambda>(order_id, n). case sole_position_trade_unit (trade_unit_values db venue order_id) of
            None \<Rightarrow> None | Some p \<Rightarrow> if p = [] then None else Some (order_id, p))
       (List.map_filter (\<lambda>x. x) found)))))"

type_synonym signature = "string \<times> string \<times> string \<times> string"

fun collect_owners ::
    "entry_leg list \<Rightarrow> (signature \<Rightarrow> int option) \<times> signature set \<Rightarrow> (signature \<Rightarrow> int option) \<times> signature set" where
  "collect_owners [] acc = acc"
| "collect_owners (leg # legs) (owners, ambiguous) =
     (case leg_stop_signature leg of
        None \<Rightarrow> collect_owners legs (owners, ambiguous)
      | Some s \<Rightarrow>
          if owners s \<noteq> None \<and> owners s \<noteq> Some (el_id leg)
          then collect_owners legs (owners, insert s ambiguous)
          else collect_owners legs (owners(s \<mapsto> el_id leg), ambiguous))"

definition resting_entry_stop_owners :: "protection_db \<Rightarrow> pyval \<Rightarrow> signature \<Rightarrow> int option" where
  "resting_entry_stop_owners db venue =
     (let (owners, ambiguous) = collect_owners (resting_entry_legs db venue) (Map.empty, {})
      in (\<lambda>s. if s \<in> ambiguous then None else owners s))"

fun iter_group_order_ids :: "protection_authority \<Rightarrow> string list \<Rightarrow> string list result" where
  "iter_group_order_ids authority [] = Inr []"
| "iter_group_order_ids authority (grp # grps) =
     rbind (authority_group authority grp) (\<lambda>items.
     rbind (iter_group_order_ids authority grps) (\<lambda>rest. Inr (map pr_order_id items @ rest)))"

section \<open>What an order of the authority rests on\<close>

definition order_id_of :: "native_tpsl_order \<Rightarrow> string" where
  "order_id_of n = py_strip (text_or_empty (no_ord_id n))"

definition owner_of :: "protection_db \<Rightarrow> pyval \<Rightarrow> native_tpsl_order \<Rightarrow> row_owner" where
  "owner_of db venue n = row_owner_of db venue (active_ledger_rows_by_order_id db venue (order_id_of n)) (order_id_of n) n"

text \<open>The chain names this position for the row: a ledger row, the trade unit, or the row's own id.\<close>

definition proven_owner :: "protection_db \<Rightarrow> pyval \<Rightarrow> string \<Rightarrow> native_tpsl_order \<Rightarrow> bool" where
  "proven_owner db venue pos_id n \<longleftrightarrow>
     (case active_ledger_rows_by_order_id db venue (order_id_of n) of
        Some l \<Rightarrow> str_or_empty (pl_pos_id l) = pos_id
      | None \<Rightarrow> (case sole_position_trade_unit (trade_unit_values db venue (order_id_of n)) of
            Some p \<Rightarrow> p = pos_id
          | None \<Rightarrow> pos_id \<noteq> [] \<and> py_strip (text_or_empty (no_pos_id n)) = pos_id))"

lemma owner_proven: "owner_of db venue n = Owner (Some p) source \<Longrightarrow> proven_owner db venue p n"
  by (auto simp: owner_of_def row_owner_of_def proven_owner_def Let_def split: option.splits if_splits)

definition ref_of_row ::
    "protection_db \<Rightarrow> pyval \<Rightarrow> string \<Rightarrow> string \<Rightarrow> string \<Rightarrow> row \<Rightarrow> protection_order_ref \<Rightarrow> bool" where
  "ref_of_row db venue pos_id instrument_id side r ref \<longleftrightarrow>
     (\<exists>n. normalize_native_tpsl r = Inr (Some n) \<and> native_tpsl_row_order_types r = {''TPSL''}
        \<and> pr_row ref = r \<and> pr_order_id ref = order_id_of n \<and> order_id_of n \<noteq> []
        \<and> (no_inst_id n = [] \<or> no_inst_id n = instrument_id)
        \<and> (no_pos_side n = [] \<or> side = [] \<or> no_pos_side n = side)
        \<and> proven_owner db venue pos_id n
        \<and> (no_stop_loss_trigger_price n \<noteq> None \<longleftrightarrow> no_take_profit_trigger_price n = None)
        \<and> pr_group ref = (if no_stop_loss_trigger_price n \<noteq> None then group_stop else group_take_profit)
        \<and> pr_trigger_price ref = dec_text_option (if no_stop_loss_trigger_price n \<noteq> None
             then no_stop_loss_trigger_price n else no_take_profit_trigger_price n)
        \<and> pr_size_text ref = dec_text_option (no_size n))"

lemma owner_resting:
  "owner_of db venue n = Resting_entry \<Longrightarrow> active_ledger_rows_by_order_id db venue (order_id_of n) = None
     \<and> trade_unit_values db venue (order_id_of n) = {trade_unit_before_position}
     \<and> row_signature n \<in> set (pending_entry_stop_signatures db venue)"
  by (auto simp: owner_of_def row_owner_of_def Let_def split: option.splits if_splits)

lemma owner_nobody:
  "owner_of db venue n = Owner None source \<Longrightarrow> active_ledger_rows_by_order_id db venue (order_id_of n) = None
     \<and> sole_position_trade_unit (trade_unit_values db venue (order_id_of n)) = None
     \<and> py_strip (text_or_empty (no_pos_id n)) = []"
  by (auto simp: owner_of_def row_owner_of_def Let_def split: option.splits if_splits)

text \<open>
  What may become of a row: nothing of it is left unexplained. A row whose two type keys give no type, or
  two, has no place here. A row typed only by its second key, \<open>trigger_order_type\<close>, is not normalised and
  passes without a word, though it is as much a TPSL row as the others.
\<close>

definition row_accounted ::
    "protection_db \<Rightarrow> pyval \<Rightarrow> string \<Rightarrow> string \<Rightarrow> string \<Rightarrow> row \<Rightarrow> protection_order_ref list \<Rightarrow> string list \<Rightarrow> bool" where
  "row_accounted db venue pos_id instrument_id side r refs excluded \<longleftrightarrow>
     native_tpsl_row_order_types r = {''CONDITIONAL''}
     \<or> native_tpsl_row_order_types r = {''TPSL''} \<and>
        (py_upper (str_or_empty (row_get r ''triggerOrderType'')) \<noteq> ''TPSL''
         \<or> (\<exists>n. normalize_native_tpsl r = Inr (Some n) \<and>
          (no_inst_id n \<noteq> [] \<and> no_inst_id n \<noteq> instrument_id
           \<or> (\<exists>ref\<in>set refs. ref_of_row db venue pos_id instrument_id side r ref)
           \<or> order_id_of n \<in> set excluded \<and> active_ledger_rows_by_order_id db venue (order_id_of n) = None
              \<and> trade_unit_values db venue (order_id_of n) = {trade_unit_before_position}
              \<and> row_signature n \<in> set (pending_entry_stop_signatures db venue)
           \<or> (\<exists>p. proven_owner db venue p n \<and> p \<noteq> pos_id)
           \<or> active_ledger_rows_by_order_id db venue (order_id_of n) = None
              \<and> sole_position_trade_unit (trade_unit_values db venue (order_id_of n)) = None
              \<and> py_strip (text_or_empty (no_pos_id n)) = []
              \<and> protection_order_position_sides r \<noteq> {} \<and> side \<noteq> [] \<and> side \<notin> protection_order_position_sides r
           \<or> proven_owner db venue pos_id n \<and> no_stop_loss_trigger_price n = None \<and> no_take_profit_trigger_price n = None)))"

lemma accounted_tpsl:
  assumes "normalize_native_tpsl r = Inr (Some n)" "native_tpsl_row_order_types r = {''TPSL''}"
  shows "no_inst_id n \<noteq> [] \<and> no_inst_id n \<noteq> instrument_id \<Longrightarrow> row_accounted db venue pos_id instrument_id side r refs excluded"
    and "ref_of_row db venue pos_id instrument_id side r ref \<Longrightarrow> ref \<in> set refs \<Longrightarrow> row_accounted db venue pos_id instrument_id side r refs excluded"
    and "owner_of db venue n = Resting_entry \<Longrightarrow> order_id_of n \<in> set excluded \<Longrightarrow> row_accounted db venue pos_id instrument_id side r refs excluded"
    and "owner_of db venue n = Owner (Some p) source \<Longrightarrow> p \<noteq> pos_id \<Longrightarrow> row_accounted db venue pos_id instrument_id side r refs excluded"
    and "owner_of db venue n = Owner None source \<Longrightarrow> protection_order_position_sides r \<noteq> {} \<and> side \<noteq> [] \<and> side \<notin> protection_order_position_sides r
      \<Longrightarrow> row_accounted db venue pos_id instrument_id side r refs excluded"
    and "proven_owner db venue pos_id n \<Longrightarrow> no_stop_loss_trigger_price n = None \<and> no_take_profit_trigger_price n = None
      \<Longrightarrow> row_accounted db venue pos_id instrument_id side r refs excluded"
proof -
  have eq: "row_accounted db venue pos_id instrument_id side r refs excluded \<longleftrightarrow>
      py_upper (str_or_empty (row_get r ''triggerOrderType'')) \<noteq> ''TPSL''
         \<or> (no_inst_id n \<noteq> [] \<and> no_inst_id n \<noteq> instrument_id
           \<or> (\<exists>ref\<in>set refs. ref_of_row db venue pos_id instrument_id side r ref)
           \<or> order_id_of n \<in> set excluded \<and> active_ledger_rows_by_order_id db venue (order_id_of n) = None
              \<and> trade_unit_values db venue (order_id_of n) = {trade_unit_before_position}
              \<and> row_signature n \<in> set (pending_entry_stop_signatures db venue)
           \<or> (\<exists>p. proven_owner db venue p n \<and> p \<noteq> pos_id)
           \<or> active_ledger_rows_by_order_id db venue (order_id_of n) = None
              \<and> sole_position_trade_unit (trade_unit_values db venue (order_id_of n)) = None
              \<and> py_strip (text_or_empty (no_pos_id n)) = []
              \<and> protection_order_position_sides r \<noteq> {} \<and> side \<noteq> [] \<and> side \<notin> protection_order_position_sides r
           \<or> proven_owner db venue pos_id n \<and> no_stop_loss_trigger_price n = None \<and> no_take_profit_trigger_price n = None)"
    for refs excluded unfolding row_accounted_def assms by simp
  show "no_inst_id n \<noteq> [] \<and> no_inst_id n \<noteq> instrument_id \<Longrightarrow> row_accounted db venue pos_id instrument_id side r refs excluded"
    "ref_of_row db venue pos_id instrument_id side r ref \<Longrightarrow> ref \<in> set refs \<Longrightarrow> row_accounted db venue pos_id instrument_id side r refs excluded"
    "proven_owner db venue pos_id n \<Longrightarrow> no_stop_loss_trigger_price n = None \<and> no_take_profit_trigger_price n = None
      \<Longrightarrow> row_accounted db venue pos_id instrument_id side r refs excluded" unfolding eq by blast+
  show "row_accounted db venue pos_id instrument_id side r refs excluded"
    if "owner_of db venue n = Resting_entry" "order_id_of n \<in> set excluded"
    using owner_resting [OF that(1)] that(2) unfolding eq by blast
  show "row_accounted db venue pos_id instrument_id side r refs excluded"
    if "owner_of db venue n = Owner (Some p) source" "p \<noteq> pos_id"
    using owner_proven [OF that(1)] that(2) unfolding eq by blast
  show "row_accounted db venue pos_id instrument_id side r refs excluded"
    if "owner_of db venue n = Owner None source"
      "protection_order_position_sides r \<noteq> {} \<and> side \<noteq> [] \<and> side \<notin> protection_order_position_sides r"
    using owner_nobody [OF that(1)] that(2) unfolding eq by blast
qed

lemma normalize_none:
  assumes "normalize_native_tpsl r = Inr None"
  shows "py_upper (str_or_empty (row_get r ''triggerOrderType'')) \<noteq> ''TPSL''"
proof
  assume "py_upper (str_or_empty (row_get r ''triggerOrderType'')) = ''TPSL''"
  then have "\<not> py_upper (str_or_empty (row_get r ''triggerOrderType'')) \<noteq> ''TPSL''" by (simp only: not_not)
  note d = assms [unfolded normalize_native_tpsl_def if_not_P [OF this]]
  have some: "rbind x (\<lambda>a. rbind y (\<lambda>b. Inr (Some (f a b)))) \<noteq> Inr None" for x :: "'a result" and y :: "'b result" and f :: "'a \<Rightarrow> 'b \<Rightarrow> 'c"
    by (auto simp: rbind_Inr_iff)
  from d show False by (rule some [THEN notE])
qed

lemma accounted_alias:
  "normalize_native_tpsl r = Inr None \<Longrightarrow> native_tpsl_row_order_types r = {''TPSL''}
   \<Longrightarrow> row_accounted db venue pos_id instrument_id side r refs excluded"
  by (simp add: row_accounted_def normalize_none)

definition scan_orders :: "authority_scan \<Rightarrow> protection_order_ref list" where
  "scan_orders sc = sc_stop_orders sc @ sc_take_profit_orders sc"

text \<open>The scan only adds, and what one row adds is sound.\<close>

definition scan_extends :: "authority_scan \<Rightarrow> authority_scan \<Rightarrow> bool" where
  "scan_extends sc sc' \<longleftrightarrow> set (scan_orders sc) \<subseteq> set (scan_orders sc') \<and> set (sc_excluded sc) \<subseteq> set (sc_excluded sc')
     \<and> (sc_unattributable sc' = [] \<longrightarrow> sc_unattributable sc = [])"

lemma scan_extends_refl [simp]: "scan_extends sc sc"
  by (simp add: scan_extends_def)

lemma scan_extends_trans: "scan_extends a b \<Longrightarrow> scan_extends b c \<Longrightarrow> scan_extends a c"
  by (auto simp: scan_extends_def)

lemma accounted_mono:
  assumes "row_accounted db venue pos_id instrument_id side r (scan_orders sc) (sc_excluded sc)" "scan_extends sc sc'"
  shows "row_accounted db venue pos_id instrument_id side r (scan_orders sc') (sc_excluded sc')"
proof -
  from assms(2) have sub: "set (scan_orders sc) \<subseteq> set (scan_orders sc')" "set (sc_excluded sc) \<subseteq> set (sc_excluded sc')"
    by (simp_all add: scan_extends_def)
  from assms(1) show ?thesis unfolding row_accounted_def
    by (elim disj_forward conj_forward ex_forward) (assumption | use sub in blast)+
qed

lemma order_ref_simps [simp]:
  "pr_order_id (order_ref r n order_id ledger source) = order_id"
  "pr_group (order_ref r n order_id ledger source) = (if no_stop_loss_trigger_price n \<noteq> None then group_stop else group_take_profit)"
  "pr_trigger_price (order_ref r n order_id ledger source) = dec_text_option (if no_stop_loss_trigger_price n \<noteq> None
             then no_stop_loss_trigger_price n else no_take_profit_trigger_price n)"
  "pr_size_text (order_ref r n order_id ledger source) = dec_text_option (no_size n)"
  "pr_row (order_ref r n order_id ledger source) = r"
  by (simp_all add: order_ref_def Let_def)

lemma add_ref_simps [simp]:
  "set (scan_orders (add_ref ref a sc)) = insert ref (set (scan_orders sc))"
  "sc_excluded (add_ref ref a sc) = sc_excluded sc" "sc_unattributable (add_ref ref a sc) = sc_unattributable sc"
  by (auto simp: add_ref_def scan_orders_def Let_def split: option.splits)

lemma scan_update_simps [simp]:
  "scan_orders (sc\<lparr>sc_considered := k\<rparr>) = scan_orders sc" "scan_orders (sc\<lparr>sc_excluded := e\<rparr>) = scan_orders sc"
  "scan_orders (sc\<lparr>sc_unattributable := u\<rparr>) = scan_orders sc"
  by (simp_all add: scan_orders_def)

lemma scan_owned_row_ok:
  assumes "scan_owned_row pos_id instrument_id side r n order_id ledger source sc = Scanned sc'"
    and "normalize_native_tpsl r = Inr (Some n)" "native_tpsl_row_order_types r = {''TPSL''}"
    and "order_id = order_id_of n" "order_id \<noteq> []" "no_inst_id n = [] \<or> no_inst_id n = instrument_id"
    and "proven_owner db venue pos_id n"
  shows "scan_extends sc sc' \<and> (\<forall>ref\<in>set (scan_orders sc'). ref \<in> set (scan_orders sc) \<or> ref_of_row db venue pos_id instrument_id side r ref)
    \<and> row_accounted db venue pos_id instrument_id side r (scan_orders sc') (sc_excluded sc')"
proof (cases "no_stop_loss_trigger_price n = None \<and> no_take_profit_trigger_price n = None")
  case True
  then have "sc' = sc" using assms(1) by (auto simp: scan_owned_row_def Let_def split: if_splits)
  then show ?thesis using accounted_tpsl(6) [OF assms(2,3,7) True] by simp
next
  case False
  let ?ref = "order_ref r n order_id ledger source"
  define a where "a = (if ledger = None then Some (adoption_of ?ref source pos_id instrument_id (no_pos_side n)) else None)"
  have some: "no_stop_loss_trigger_price n \<noteq> None \<or> no_take_profit_trigger_price n \<noteq> None" using False by simp
  note d = assms(1) [unfolded scan_owned_row_def Let_def, folded a_def]
  from d have side: "no_pos_side n = [] \<or> side = [] \<or> no_pos_side n = side" by (simp split: if_split_asm)
  from d have one: "\<not> (no_stop_loss_trigger_price n \<noteq> None \<and> no_take_profit_trigger_price n \<noteq> None)"
    by (simp split: if_split_asm)
  from d False have sc': "sc' = add_ref ?ref a sc" by (simp split: if_split_asm)
  have xor: "no_stop_loss_trigger_price n \<noteq> None \<longleftrightarrow> no_take_profit_trigger_price n = None"
    using some one by (cases "no_stop_loss_trigger_price n") simp_all
  have ref: "ref_of_row db venue pos_id instrument_id side r ?ref"
    unfolding ref_of_row_def using assms(2-7) side xor by (intro exI [of _ n] conjI) simp_all
  have "row_accounted db venue pos_id instrument_id side r (scan_orders sc') (sc_excluded sc')"
    unfolding sc' add_ref_simps by (rule accounted_tpsl(2) [OF assms(2,3) ref]) (simp only: add_ref_simps insert_iff simp_thms)
  with ref show ?thesis unfolding sc' scan_extends_def by auto
qed

lemma scan_row_ok:
  assumes "scan_row db venue pos_id instrument_id side r sc = Inr (Scanned sc')"
  shows "scan_extends sc sc' \<and> (\<forall>ref\<in>set (scan_orders sc'). ref \<in> set (scan_orders sc) \<or> ref_of_row db venue pos_id instrument_id side r ref)
    \<and> (sc_unattributable sc' = [] \<longrightarrow> row_accounted db venue pos_id instrument_id side r (scan_orders sc') (sc_excluded sc'))"
proof -
  consider (entry) "native_tpsl_row_order_types r = {''CONDITIONAL''}" "sc' = sc"
    | (odd) x where "sc' = sc\<lparr>sc_unattributable := sc_unattributable sc @ [x]\<rparr>"
    | (none) "normalize_native_tpsl r = Inr None" "native_tpsl_row_order_types r = {''TPSL''}" "sc' = sc"
    | (tpsl) n where "normalize_native_tpsl r = Inr (Some n)" "native_tpsl_row_order_types r = {''TPSL''}"
        "scan_tpsl_row db venue pos_id instrument_id side r n sc = Scanned sc'"
  proof (cases "native_tpsl_row_order_types r = {''CONDITIONAL''}")
    case True
    then have "sc' = sc" using assms by (simp add: scan_row_def)
    with True show ?thesis by (rule entry)
  next
    case notentry: False
    show ?thesis
    proof (cases "native_tpsl_row_order_types r = {''TPSL''}")
      case False
      define x where "x = (if order_identity r = [] then unidentified_marker else order_identity r)"
      have "sc' = sc\<lparr>sc_unattributable := sc_unattributable sc @ [x]\<rparr>"
        using notentry False assms by (simp add: scan_row_def Let_def x_def)
      then show ?thesis by (rule odd)
    next
      case True
      then have c: "{''TPSL''} \<noteq> {''CONDITIONAL''}" by simp
      note d = assms [unfolded scan_row_def Let_def True if_not_P [OF c]]
      show ?thesis
      proof (cases "normalize_native_tpsl r")
        case (Inr x)
        then show ?thesis using d True none tpsl by (cases x) simp_all
      qed (use d in simp)
    qed
  qed
  then show ?thesis
  proof cases
    case entry
    then show ?thesis by (simp add: row_accounted_def)
  next
    case odd
    then show ?thesis by (simp add: scan_extends_def)
  next
    case none
    then show ?thesis using accounted_alias by simp
  next
    case tpsl
    let ?sc1 = "sc\<lparr>sc_considered := Suc (sc_considered sc)\<rparr>"
    have e1: "scan_extends sc ?sc1" by (simp add: scan_extends_def)
    show ?thesis
    proof (cases "no_inst_id n \<noteq> [] \<and> no_inst_id n \<noteq> instrument_id")
      case True
      then show ?thesis using tpsl(3) accounted_tpsl(1) [OF tpsl(1,2) True] by (simp add: scan_tpsl_row_def)
    next
      case False
      then have oid: "order_id_of n \<noteq> []"
        using tpsl(3) by (auto simp: scan_tpsl_row_def order_id_of_def Let_def split: if_splits)
      show ?thesis
      proof (cases "owner_of db venue n")
        case Resting_entry
        then have "sc' = ?sc1\<lparr>sc_excluded := sc_excluded ?sc1 @ [order_id_of n]\<rparr>"
          using tpsl(3) False oid by (simp add: scan_tpsl_row_def owner_of_def order_id_of_def Let_def)
        then show ?thesis using accounted_tpsl(3) [OF tpsl(1,2) Resting_entry] by (auto simp: scan_extends_def)
      next
        case (Owner owner source)
        show ?thesis
        proof (cases owner)
          case None
          then have "sc' = (if protection_order_position_sides r \<noteq> {} \<and> side \<noteq> [] \<and> side \<notin> protection_order_position_sides r
              then ?sc1 else ?sc1\<lparr>sc_unattributable := sc_unattributable ?sc1 @ [order_id_of n]\<rparr>)"
            using tpsl(3) False oid Owner by (auto simp: scan_tpsl_row_def owner_of_def order_id_of_def Let_def split: if_splits)
          then show ?thesis using accounted_tpsl(5) [OF tpsl(1,2) Owner [unfolded None]] by (auto simp: scan_extends_def)
        next
          case (Some p)
          show ?thesis
          proof (cases "p = pos_id")
            case True
            then have "scan_owned_row pos_id instrument_id side r n (order_id_of n)
                (active_ledger_rows_by_order_id db venue (order_id_of n)) source ?sc1 = Scanned sc'"
              using tpsl(3) False oid Owner Some by (simp add: scan_tpsl_row_def owner_of_def order_id_of_def Let_def)
            from scan_owned_row_ok [OF this tpsl(1,2) refl oid, of db venue] False owner_proven Owner Some True e1
            show ?thesis by (auto intro: scan_extends_trans)
          next
            case False
            then have "sc' = ?sc1" using tpsl(3) \<open>\<not> (no_inst_id n \<noteq> [] \<and> no_inst_id n \<noteq> instrument_id)\<close> oid Owner Some
              by (simp add: scan_tpsl_row_def owner_of_def order_id_of_def Let_def)
            then show ?thesis using accounted_tpsl(4) [OF tpsl(1,2) Owner [unfolded Some] False] by (auto simp: scan_extends_def)
          qed
        qed
      qed
    qed
  qed
qed

lemma scanned_case:
  "(case out of Scanned s \<Rightarrow> f s | Frozen_at a b c \<Rightarrow> Inr out) = Inr (Scanned s')
     \<longleftrightarrow> (\<exists>s. out = Scanned s \<and> f s = Inr (Scanned s'))"
  by (cases out) auto

lemma scan_rows_ok:
  "scan_rows db venue pos_id instrument_id side rows sc = Inr (Scanned sc') \<Longrightarrow> sc_unattributable sc' = [] \<Longrightarrow>
   scan_extends sc sc' \<and> (\<forall>ref\<in>set (scan_orders sc'). ref \<in> set (scan_orders sc) \<or> (\<exists>r\<in>set rows. ref_of_row db venue pos_id instrument_id side r ref))
    \<and> (\<forall>r\<in>set rows. row_accounted db venue pos_id instrument_id side r (scan_orders sc') (sc_excluded sc'))"
proof (induction rows arbitrary: sc)
  case (Cons r rows)
  from Cons.prems(1) obtain sc1 where s: "scan_row db venue pos_id instrument_id side r sc = Inr (Scanned sc1)"
    and rs: "scan_rows db venue pos_id instrument_id side rows sc1 = Inr (Scanned sc')"
    by (auto simp: rbind_Inr_iff scanned_case)
  note ih = Cons.IH [OF rs Cons.prems(2)]
  then have "sc_unattributable sc1 = []" using Cons.prems(2) by (simp add: scan_extends_def)
  with scan_row_ok [OF s] have h: "scan_extends sc sc1"
    "\<forall>ref\<in>set (scan_orders sc1). ref \<in> set (scan_orders sc) \<or> ref_of_row db venue pos_id instrument_id side r ref"
    "row_accounted db venue pos_id instrument_id side r (scan_orders sc1) (sc_excluded sc1)" by auto
  have "row_accounted db venue pos_id instrument_id side r (scan_orders sc') (sc_excluded sc')"
    using accounted_mono [OF h(3)] ih by blast
  with ih h(1,2) show ?case by (auto intro: scan_extends_trans)
qed simp


section \<open>Properties\<close>


text \<open>A position with one stop of ours in the ledger, one take profit placed by its trade unit, and a pending entry.\<close>

definition example_db :: protection_db where
  "example_db = \<lparr>pd_ledger = [\<lparr>pl_venue = ''deepcoin'', pl_status = ''verified'', pl_order_id = VStr ''o1'', pl_pos_id = VStr ''p1'',
       pl_purpose = VStr ''stop_loss'', pl_trigger_price = VStr ''90'', pl_size_text = VStr ''2''\<rparr>],
     pd_events = [\<lparr>we_venue = ''deepcoin'', we_channel = ''TriggerOrder'', we_order_sys_id = ''o2'', we_trade_unit_id = VStr ''p1''\<rparr>],
     pd_legs = [\<lparr>el_id = 7, el_venue = ''deepcoin'', el_pos_id = VStr ''p1'', el_purpose = VStr ''entry'', el_status = VStr ''filled'',
       el_attribution_status = VStr ''verified'', el_execution_binding_id = 3, el_strategy_instance_id = VNone, el_request = None\<rparr>]\<rparr>"

definition tpsl_row :: "string \<Rightarrow> string \<Rightarrow> string \<Rightarrow> row" where
  "tpsl_row oid key price = [''triggerOrderType'' \<mapsto> VStr ''TPSL'', ''ordId'' \<mapsto> VStr oid, ''instId'' \<mapsto> VStr ''BTC'',
     ''posSide'' \<mapsto> VStr ''long'', ''sz'' \<mapsto> VStr ''2'', key \<mapsto> VStr price]"

definition entry_row :: row where
  "entry_row = [''triggerOrderType'' \<mapsto> VStr ''Conditional'', ''ordId'' \<mapsto> VStr ''e1'', ''instId'' \<mapsto> VStr ''BTC'']"

definition example_rows :: "row list" where
  "example_rows = [tpsl_row ''o1'' ''slTriggerPrice'' ''90'', entry_row, tpsl_row ''o2'' ''tpTriggerPrice'' ''110'']"

definition example_authority :: "protection_authority result" where
  "example_authority = resolve_protection_authority (\<lambda>l. True) example_db (VStr ''deepcoin'') (VStr ''p1'') (VStr ''btc'') (VStr ''long'') (Some example_rows)"

lemma example_authority_eval:
  "(case example_authority of Inl e \<Rightarrow> False | Inr a \<Rightarrow> authority_resolved a \<and> authority_order_ids a = [''o1'', ''o2'']
     \<and> map pd_order_id (pa_adoptions a) = [''o2''])"
  by code_simp


text \<open>
  Claim C27: a cancel goes ahead only on an order the authority names, present in the fresh read, and
  there still a TPSL row of the same instrument and direction with the same trigger and size, all rows before it being of other orders;
  an unreadable list or an unknown or absent order never permits it.
\<close>

theorem cancel_precheck_sound:
  assumes "evaluate_cancel_precheck authority pending_rows order_id = Inr None"
  shows "\<exists>item rows before r after n. item \<in> set (authority_orders authority) \<and> pr_order_id item = order_id
    \<and> pending_rows = Some rows \<and> rows = before @ r # after \<and> order_identity r = order_id
    \<and> (\<forall>x\<in>set before. order_identity x \<noteq> order_id)
    \<and> normalize_native_tpsl r = Inr (Some n)
    \<and> (no_inst_id n = [] \<or> no_inst_id n = pa_instrument_id authority)
    \<and> (no_pos_side n = [] \<or> pa_side authority = [] \<or> no_pos_side n = pa_side authority)
    \<and> pr_trigger_price item = dec_text_option (if pr_group item = group_stop then no_stop_loss_trigger_price n else no_take_profit_trigger_price n)
    \<and> pr_size_text item = dec_text_option (no_size n)"
proof -
  from assms obtain item rows where
      m: "map_of (rev (map (\<lambda>item. (pr_order_id item, item)) (authority_orders authority))) order_id = Some item"
    and r: "pending_rows = Some rows" and f: "find_cancel_target authority item order_id rows = Inr None"
    by (auto simp: evaluate_cancel_precheck_def split: option.splits)
  have i: "item \<in> set (authority_orders authority)" "pr_order_id item = order_id"
    using map_of_SomeD [OF m] by auto
  have "\<exists>before r after n. rows = before @ r # after \<and> order_identity r = order_id
      \<and> (\<forall>x\<in>set before. order_identity x \<noteq> order_id) \<and> normalize_native_tpsl r = Inr n
      \<and> check_cancel_target authority item n = None"
    using f
  proof (induction rows)
    case (Cons r rows)
    then obtain n where n: "normalize_native_tpsl r = Inr n"
      "(if order_identity r \<noteq> order_id then find_cancel_target authority item order_id rows else Inr (check_cancel_target authority item n)) = Inr None"
      by (auto simp: rbind_Inr_iff)
    show ?case
    proof (cases "order_identity r = order_id")
      case True
      with n show ?thesis by (intro exI [of _ "[]"] exI [of _ r] exI [of _ rows] exI [of _ n]) simp
    next
      case False
      with n Cons.IH obtain before r' after n' where "rows = before @ r' # after" "order_identity r' = order_id"
        "\<forall>x\<in>set before. order_identity x \<noteq> order_id" "normalize_native_tpsl r' = Inr n'" "check_cancel_target authority item n' = None" by auto
      with False show ?thesis by (intro exI [of _ "r # before"] exI [of _ r'] exI [of _ after] exI [of _ n']) simp
    qed
  qed simp
  then obtain before r after n where b: "rows = before @ r # after" "order_identity r = order_id"
    "\<forall>x\<in>set before. order_identity x \<noteq> order_id" "normalize_native_tpsl r = Inr n" "check_cancel_target authority item n = None" by blast
  then obtain n' where "n = Some n'" by (cases n) (simp_all add: check_cancel_target_def)
  with b i r show ?thesis
    by (intro exI [of _ item] exI [of _ rows] exI [of _ before] exI [of _ r] exI [of _ after] exI [of _ n'])
      (simp add: check_cancel_target_def split: if_splits)
qed

theorem cancel_precheck_sound_witness:
  "\<exists>a item. example_authority = Inr a \<and> item \<in> set (authority_orders a) \<and> pr_order_id item = ''o1''
     \<and> evaluate_cancel_precheck a (Some example_rows) ''o1'' = Inr None
     \<and> evaluate_cancel_precheck a (Some [tpsl_row ''o1'' ''slTriggerPrice'' ''91'']) ''o1'' = Inr (Some cancel_target_trigger_changed)"
proof -
  have "(case example_authority of Inl e \<Rightarrow> False | Inr a \<Rightarrow> evaluate_cancel_precheck a (Some example_rows) ''o1'' = Inr None
     \<and> evaluate_cancel_precheck a (Some [tpsl_row ''o1'' ''slTriggerPrice'' ''91'']) ''o1'' = Inr (Some cancel_target_trigger_changed))"
    by code_simp
  then obtain a where a: "example_authority = Inr a" "evaluate_cancel_precheck a (Some example_rows) ''o1'' = Inr None"
    "evaluate_cancel_precheck a (Some [tpsl_row ''o1'' ''slTriggerPrice'' ''91'']) ''o1'' = Inr (Some cancel_target_trigger_changed)"
    by (auto split: sum.splits)
  from cancel_precheck_sound [OF a(2)] a show ?thesis by blast
qed

text \<open>
  What the claim's last case is about: the scan reads a row's type under two keys, the normaliser
  under one. A row typed TPSL under \<open>trigger_order_type\<close> alone neither joins the set nor freezes
  the position: it is passed over.
\<close>

lemma aliased_tpsl_row_is_passed_over:
  "scan_row db venue pos_id instrument_id side
     [''trigger_order_type'' \<mapsto> VStr ''TPSL'', ''ordId'' \<mapsto> VStr ''o9'', ''instId'' \<mapsto> VStr ''BTC'', ''slTriggerPrice'' \<mapsto> VStr ''90''] sc
   = Inr (Scanned sc)"
proof -
  let ?r = "[''trigger_order_type'' \<mapsto> VStr ''TPSL'', ''ordId'' \<mapsto> VStr ''o9'', ''instId'' \<mapsto> VStr ''BTC'', ''slTriggerPrice'' \<mapsto> VStr ''90''] :: row"
  have "native_tpsl_row_order_types ?r = {''TPSL''}" "(case normalize_native_tpsl ?r of Inr None \<Rightarrow> True | _ \<Rightarrow> False)"
    by code_simp+
  then show ?thesis by (auto simp: scan_row_def Let_def split: sum.splits option.splits)
qed

end
