(* ===== verification/TP_Consumption.thy ===== *)
theory TP_Consumption
  imports Protection_Authority Fill_Predicate Step_Grid
begin

text \<open>
  Consuming one exact owned take-profit stage (\<open>strategy_management_take_profit_consumption.py\<close>):
  which of a leg's resting take profits a management instruction cancels, whether its first
  stage has already filled, and what the later stages keep.

  The ledger rows are the dictionaries \<open>canonical_take_profit_evidence_rows\<close> makes of them; rows
  that are not dictionaries, which the code skips, are left out. A failing \<open>int(..)\<close> outside a
  \<open>try\<close> and a missing \<open>order_id\<close> key raise, as in the code.
\<close>

section \<open>Readers\<close>

definition history_ledger_statuses :: "string list" where
  "history_ledger_statuses = [''retired'', ''cancelled'', ''canceled'', ''superseded'']"
definition owned_ledger_statuses :: "string list" where
  "owned_ledger_statuses =
     [''verified'', ''protected'', ''active'', ''filled'', ''cancel_requested'', ''protection_missing'']"
definition refusal_unattributable_pending :: string where
  "refusal_unattributable_pending = ''take_profit_unattributable_pending_order''"

text \<open>\<open>row.get(a) or row.get(b) or ..\<close>: the last value when all are falsy.\<close>

fun or_keys :: "row \<Rightarrow> string list \<Rightarrow> pyval" where
  "or_keys r [] = VNone"
| "or_keys r [key] = row_get r key"
| "or_keys r (key # key' # keys) =
     (if truthy (row_get r key) then row_get r key else or_keys r (key' # keys))"

definition cons_decimal_or_none :: "pyval \<Rightarrow> rat option" where
  "cons_decimal_or_none value = finite_decimal value"

definition cons_positive_decimal :: "pyval \<Rightarrow> rat option" where
  "cons_positive_decimal value =
     (case cons_decimal_or_none value of None \<Rightarrow> None | Some x \<Rightarrow> if x \<le> 0 then None else Some x)"

definition cons_nonnegative_decimal :: "pyval \<Rightarrow> rat option" where
  "cons_nonnegative_decimal value =
     (case cons_decimal_or_none value of None \<Rightarrow> None | Some x \<Rightarrow> if x < 0 then None else Some x)"

definition cons_decimal_text :: "rat \<Rightarrow> string" where
  "cons_decimal_text value = decimal_text value"

definition same_decimal :: "pyval \<Rightarrow> pyval \<Rightarrow> bool" where
  "same_decimal left right =
     (cons_decimal_or_none left \<noteq> None \<and> cons_decimal_or_none left = cons_decimal_or_none right)"

definition cons_order_id :: "row \<Rightarrow> string option" where
  "cons_order_id r =
     (let value = or_keys r [''order_id'', ''ordId'', ''orderId''] in
      if given value then Some (py_str value) else None)"

definition fill_size :: "row \<Rightarrow> pyval" where
  "fill_size r = or_keys r [''fillSz'', ''fill_size'', ''sz'']"

definition terminal_state :: "row \<Rightarrow> string option" where
  "terminal_state r =
     (let state = py_lower (str_or_empty (or_keys r [''state'', ''status'', ''ordState''])) in
      if state \<in> {''filled'', ''success'', ''executed''} then Some ''filled''
      else if state \<in> {''cancelled'', ''canceled''} then Some ''cancelled''
      else if state \<in> {''expired'', ''failed'', ''rejected''} then Some ''expired''
      else None)"

definition terminal_no_fill :: "string \<Rightarrow> row list \<Rightarrow> bool" where
  "terminal_no_fill order_id ordinary_history =
     (let states = List.map_filter terminal_state (filter (\<lambda>r. cons_order_id r = Some order_id) ordinary_history)
      in states \<noteq> [] \<and> list_all (\<lambda>s. s = ''cancelled'' \<or> s = ''expired'') states)"

definition explicit_pos_id :: "row \<Rightarrow> string" where
  "explicit_pos_id r = py_strip (str_or_empty (or_keys r [''posId'', ''pos_id'', ''positionId'']))"

fun cons_trigger_price :: "row \<Rightarrow> string list \<Rightarrow> pyval" where
  "cons_trigger_price r [] = VNone"
| "cons_trigger_price r (key # keys) =
     (let value = row_get r key in
      if \<not> given value then cons_trigger_price r keys
      else case cons_decimal_or_none value of
          None \<Rightarrow> cons_trigger_price r keys
        | Some x \<Rightarrow> if x \<noteq> 0 then value else cons_trigger_price r keys)"

definition trigger_keys :: "string list" where
  "trigger_keys = [''tpTriggerPx'', ''tpTriggerPrice'', ''closeTPTriggerPrice'']"

definition take_profit_row_price :: "row \<Rightarrow> pyval" where
  "take_profit_row_price r = cons_trigger_price r trigger_keys"

text \<open>\<open>value not in (None, "", "0", 0)\<close>: a number equal to zero is 0.\<close>

definition trigger_set :: "pyval \<Rightarrow> bool" where
  "trigger_set value = (case value of VStr s \<Rightarrow> s \<noteq> [] \<and> s \<noteq> ''0'' | _ \<Rightarrow> truthy value)"

definition is_take_profit_row :: "row \<Rightarrow> bool" where
  "is_take_profit_row r =
     (py_upper (if truthy (row_get r ''triggerOrderType'') then py_str (row_get r ''triggerOrderType'') else ''TPSL'') = ''TPSL''
      \<and> list_ex (\<lambda>key. trigger_set (row_get r key)) trigger_keys)"

section \<open>The leg and its ledger rows\<close>

record consumption_target =
  ct_execution_binding_id :: int
  ct_execution_order_leg_id :: int
  ct_pos_id :: string
  ct_instrument_id :: string
  ct_side :: string

definition target_identity :: "row \<Rightarrow> consumption_target option result" where
  "target_identity value =
     (if list_ex (\<lambda>key. \<not> given (row_get value key))
           [''execution_binding_id'', ''execution_order_leg_id'', ''pos_id'', ''instrument_id'', ''side'']
      then Inr None
      else case (py_int (row_get value ''execution_binding_id''), py_int (row_get value ''execution_order_leg_id'')) of
        (Some binding, Some leg) \<Rightarrow>
          Inr (Some \<lparr>ct_execution_binding_id = binding, ct_execution_order_leg_id = leg,
            ct_pos_id = py_str (row_get value ''pos_id''),
            ct_instrument_id = py_upper (py_str (row_get value ''instrument_id'')),
            ct_side = py_lower (py_str (row_get value ''side''))\<rparr>)
      | _ \<Rightarrow> Inl (ValueError ''int''))"

definition authority_refusal :: "protection_authority option \<Rightarrow> consumption_target \<Rightarrow> string option" where
  "authority_refusal authority target = (case authority of
       None \<Rightarrow> Some ''take_profit_protection_authority_unavailable''
     | Some a \<Rightarrow>
         if \<not> authority_resolved a
         then Some (if pa_reason_code a = Some freeze_order_unattributable then refusal_unattributable_pending
                    else (case pa_reason_code a of None \<Rightarrow> ''take_profit_protection_authority_unavailable''
                          | Some c \<Rightarrow> if c = [] then ''take_profit_protection_authority_unavailable'' else c))
         else if pa_pos_id a \<noteq> ct_pos_id target \<or> py_upper (pa_instrument_id a) \<noteq> ct_instrument_id target
                 \<or> py_lower (pa_side a) \<noteq> ct_side target
         then Some ''take_profit_order_identity_conflict''
         else None)"

definition int_or_zero :: "pyval \<Rightarrow> int result" where
  "int_or_zero value =
     (if \<not> truthy value then Inr 0 else case py_int value of None \<Rightarrow> Inl (ValueError ''int'') | Some i \<Rightarrow> Inr i)"

definition str_or :: "pyval \<Rightarrow> string \<Rightarrow> string" where
  "str_or value fallback = (if truthy value then py_str value else fallback)"

definition ledger_owner_matches :: "row \<Rightarrow> consumption_target \<Rightarrow> bool result" where
  "ledger_owner_matches r target =
     rbind (int_or_zero (row_get r ''execution_binding_id'')) (\<lambda>binding.
       if binding \<noteq> ct_execution_binding_id target then Inr False
       else rbind (int_or_zero (row_get r ''execution_order_leg_id'')) (\<lambda>leg.
         Inr (leg = ct_execution_order_leg_id target
           \<and> str_or_empty (row_get r ''pos_id'') = ct_pos_id target
           \<and> py_upper (str_or (row_get r ''instrument_id'') (ct_instrument_id target)) = ct_instrument_id target
           \<and> py_lower (str_or (row_get r ''side'') (ct_side target)) = ct_side target
           \<and> py_lower (str_or_empty (row_get r ''status'')) \<in> set owned_ledger_statuses)))"

type_synonym owned_row = "row \<times> rat"

text \<open>The loop over the ledger: a refusal, or the owned rows with their sizes.\<close>

definition conflict :: string where "conflict = ''take_profit_order_identity_conflict''"

fun owned_ledger_rows :: "consumption_target \<Rightarrow> row list \<Rightarrow> (string + owned_row list) result" where
  "owned_ledger_rows target [] = Inr (Inr [])"
| "owned_ledger_rows target (r # rows) =
     (if py_lower (str_or (row_get r ''purpose'') ''take_profit'') \<notin> {''take_profit'', ''tp'', ''profit''}
      then owned_ledger_rows target rows
      else if py_lower (str_or_empty (row_get r ''status'')) \<in> set history_ledger_statuses
      then owned_ledger_rows target rows
      else rbind (ledger_owner_matches r target) (\<lambda>matches.
        if \<not> matches then Inr (Inl conflict)
        else case cons_positive_decimal (row_get r ''size_text'') of
            None \<Rightarrow> Inr (Inl conflict)
          | Some sz \<Rightarrow> rbind (owned_ledger_rows target rows) (\<lambda>rest.
              Inr (case rest of Inl c \<Rightarrow> Inl c | Inr owned \<Rightarrow> Inr ((r, sz) # owned)))))"

text \<open>The tuples \<open>_stage_sort_key\<close> sorts by: the numbered stages first, then by creation and price.\<close>

definition stage_sort_key :: "row \<Rightarrow> string \<Rightarrow> nat \<times> int \<times> string \<times> rat \<times> string" where
  "stage_sort_key r side =
     (case py_int (row_get r ''stage_index'') of
        Some stage \<Rightarrow> (0, stage, [], 0, py_str (row_get r ''order_id''))
      | None \<Rightarrow>
          let created = str_or_empty (row_get r ''created_at'');
              price = (case cons_decimal_or_none (row_get r ''trigger_price'') of None \<Rightarrow> 0 | Some p \<Rightarrow> p)
          in (1, 0, created, if side = ''long'' then price else - price, py_str (row_get r ''order_id'')))"

section \<open>The pending rows\<close>

definition distinct_ids :: "row list \<Rightarrow> bool" where
  "distinct_ids rows \<longleftrightarrow> list_all (\<lambda>r. cons_order_id r \<noteq> None) rows \<and> distinct (map cons_order_id rows)"

text \<open>The resting take profits of this position; \<open>None\<close> is the refusal.\<close>

fun own_pending_rows ::
    "string list \<Rightarrow> string list \<Rightarrow> (string \<Rightarrow> owned_row option) \<Rightarrow> row list \<Rightarrow> (string \<times> row) list option" where
  "own_pending_rows tp_ids order_ids owned_by_id [] = Some []"
| "own_pending_rows tp_ids order_ids owned_by_id (r # rows) =
     (case cons_order_id r of
        None \<Rightarrow> None
      | Some oid \<Rightarrow>
          if oid \<in> set tp_ids
          then map_option (\<lambda>rest. (oid, r) # rest) (own_pending_rows tp_ids order_ids owned_by_id rows)
          else if oid \<in> set order_ids then None
          else if owned_by_id oid \<noteq> None then None
          else own_pending_rows tp_ids order_ids owned_by_id rows)"

definition pending_row_agrees :: "consumption_target \<Rightarrow> (string \<Rightarrow> owned_row option) \<Rightarrow> string \<times> row \<Rightarrow> bool" where
  "pending_row_agrees target owned_by_id p =
     (case owned_by_id (fst p) of
        None \<Rightarrow> False
      | Some (ledger, sz) \<Rightarrow>
          let r = snd p in
          (explicit_pos_id r = [] \<or> explicit_pos_id r = ct_pos_id target)
          \<and> py_upper (str_or_empty (or_keys r [''instId'', ''instrument_id''])) = ct_instrument_id target
          \<and> protection_order_sides_consistent r
          \<and> protection_order_position_sides r = {ct_side target}
          \<and> same_decimal (or_keys r [''sz'', ''size'']) (VDec (DFin sz))
          \<and> same_decimal (take_profit_row_price r) (row_get ledger ''trigger_price''))"

section \<open>The plan\<close>

record retained_row =
  rr_order_id :: string
  rr_current_size :: string
  rr_desired_size :: string

record cancel_action =
  ca_order_id :: string
  ca_pos_id :: string
  ca_size :: string

record take_profit_consumption_plan =
  cp_cancel_order_ids :: "string list"
  cp_cancel_actions :: "cancel_action list"
  cp_proven_filled_quantity :: string
  cp_retained_rows :: "retained_row list"
  cp_resize_rows :: "retained_row list"
  cp_evidence_tier :: string
  cp_first_stage_consumed_by_fill :: bool
  cp_effective_target_remaining_size :: string
  cp_refusal_code :: "string option"

definition default_consumption_plan :: take_profit_consumption_plan where
  "default_consumption_plan =
     \<lparr>cp_cancel_order_ids = [], cp_cancel_actions = [], cp_proven_filled_quantity = ''0'',
      cp_retained_rows = [], cp_resize_rows = [], cp_evidence_tier = ''none'',
      cp_first_stage_consumed_by_fill = False, cp_effective_target_remaining_size = [],
      cp_refusal_code = None\<rparr>"

definition refusal :: "string \<Rightarrow> take_profit_consumption_plan" where
  "refusal code = default_consumption_plan\<lparr>cp_refusal_code := Some code\<rparr>"

text \<open>What is known of the first stage: resting, filled with a quantity, gone unfilled, or refused.\<close>

datatype first_stage =
    Stage_pending
  | Stage_filled string rat
  | Stage_gone
  | Stage_refused string

definition summed_fills :: "row list \<Rightarrow> rat option" where
  "summed_fills fills =
     (let sizes = map (\<lambda>r. cons_positive_decimal (fill_size r)) fills
      in if list_ex (\<lambda>x. x = None) sizes then None else Some (dsum (map the sizes)))"

definition filled_stage ::
    "consumption_target \<Rightarrow> string \<Rightarrow> rat \<Rightarrow> row list \<Rightarrow> take_profit_fill_verdict \<Rightarrow> first_stage" where
  "filled_stage target order_id first_size trade_fills verdict =
     (let exact_fills = filter (\<lambda>r. cons_order_id r = Some order_id) trade_fills in
      if list_ex (\<lambda>r. str_or_empty (or_keys r [''posId'', ''pos_id'']) \<noteq> ct_pos_id target) exact_fills
      then Stage_refused conflict
      else case (if exact_fills = [] then Some first_size else summed_fills exact_fills) of
          None \<Rightarrow> Stage_refused conflict
        | Some filled \<Rightarrow>
            if first_size < filled then Stage_refused conflict
            else Stage_filled (case fv_evidence_tier verdict of
                None \<Rightarrow> ''exact_terminal_fill'' | Some t \<Rightarrow> if t = [] then ''exact_terminal_fill'' else t) filled)"

definition first_stage_state ::
    "consumption_target \<Rightarrow> string list \<Rightarrow> string \<Rightarrow> rat \<Rightarrow> pyval list \<Rightarrow> row option list \<Rightarrow> row list \<Rightarrow> row list \<Rightarrow> bool
     \<Rightarrow> first_stage" where
  "first_stage_state target pending_ids order_id first_size recorded trigger_history ordinary_history trade_fills
      pending_snapshot_complete =
     (if order_id \<in> set pending_ids then Stage_pending
      else
      let verdict = take_profit_fill_proven (VStr order_id) recorded trigger_history pending_snapshot_complete None
      in if fv_proven verdict then filled_stage target order_id first_size trade_fills verdict
         else if terminal_no_fill order_id ordinary_history then Stage_gone
         else Stage_refused ''take_profit_terminal_state_unknown'')"

definition retained_of :: "owned_row \<Rightarrow> retained_row" where
  "retained_of owned = \<lparr>rr_order_id = py_str (row_get (fst owned) ''order_id''),
     rr_current_size = cons_decimal_text (snd owned), rr_desired_size = cons_decimal_text (snd owned)\<rparr>"

text \<open>\<open>Decimal(text)\<close> of a text the module printed itself.\<close>

definition amount_of_text :: "string \<Rightarrow> rat" where
  "amount_of_text t = (case finite_decimal (VStr t) of None \<Rightarrow> 0 | Some x \<Rightarrow> x)"

fun bound_retained :: "rat \<Rightarrow> retained_row list \<Rightarrow> string list \<times> retained_row list" where
  "bound_retained excess [] = ([], [])"
| "bound_retained excess (r # rows) =
     (let current = amount_of_text (rr_current_size r) in
      if current \<le> excess then
        (let (ids, kept) = bound_retained (dsub excess current) rows in (rr_order_id r # ids, kept))
      else if 0 < excess then
        (let (ids, kept) = bound_retained 0 rows in (rr_order_id r # ids, kept))
      else (let (ids, kept) = bound_retained excess rows in (ids, r # kept)))"

definition cancel_action_for ::
    "consumption_target \<Rightarrow> (string \<Rightarrow> owned_row option) \<Rightarrow> string \<Rightarrow> cancel_action" where
  "cancel_action_for target owned_by_id oid =
     \<lparr>ca_order_id = oid, ca_pos_id = ct_pos_id target,
      ca_size = (case owned_by_id oid of None \<Rightarrow> [] | Some (r, sz) \<Rightarrow> cons_decimal_text sz)\<rparr>"

text \<open>From the state of the first stage on.\<close>

definition effective_target :: "rat \<Rightarrow> pyval \<Rightarrow> first_stage \<Rightarrow> rat option" where
  "effective_target target_remaining live_position_size stage = (case stage of
       Stage_filled tier filled \<Rightarrow> cons_positive_decimal live_position_size
     | _ \<Rightarrow> Some target_remaining)"

definition finish_consumption ::
    "consumption_target \<Rightarrow> (string \<Rightarrow> owned_row option) \<Rightarrow> string list \<Rightarrow> string \<Rightarrow> owned_row list \<Rightarrow> rat \<Rightarrow> pyval
     \<Rightarrow> first_stage \<Rightarrow> take_profit_consumption_plan" where
  "finish_consumption target owned_by_id pending_ids first_order_id later target_remaining live_position_size stage =
     (case stage of Stage_refused code \<Rightarrow> refusal code
      | _ \<Rightarrow>
      if list_ex (\<lambda>owned. py_str (row_get (fst owned) ''order_id'') \<notin> set pending_ids) later
      then refusal ''take_profit_terminal_state_unknown''
      else case effective_target target_remaining live_position_size stage of
        None \<Rightarrow> refusal ''target_live_position_not_unique''
      | Some effective \<Rightarrow>
          let retained = map retained_of later;
              retained_total = dsum (map (\<lambda>r. amount_of_text (rr_desired_size r)) retained);
              excess = max 0 (dsub retained_total effective);
              (later_ids, bounded) = bound_retained excess retained;
              cancel_ids = (if stage = Stage_pending then first_order_id # later_ids else later_ids)
          in default_consumption_plan\<lparr>
               cp_cancel_order_ids := cancel_ids,
               cp_cancel_actions := map (cancel_action_for target owned_by_id) cancel_ids,
               cp_proven_filled_quantity := (case stage of Stage_filled tier filled \<Rightarrow> cons_decimal_text filled
                                             | _ \<Rightarrow> cons_decimal_text 0),
               cp_retained_rows := bounded,
               cp_evidence_tier := (case stage of Stage_filled tier filled \<Rightarrow> tier
                  | Stage_pending \<Rightarrow> ''exact_pending_owned_order'' | _ \<Rightarrow> ''exact_terminal_no_fill''),
               cp_first_stage_consumed_by_fill := (case stage of Stage_filled tier filled \<Rightarrow> True | _ \<Rightarrow> False),
               cp_effective_target_remaining_size := cons_decimal_text effective\<rparr>)"

text \<open>\<open>owned_by_id\<close>: a row without the key raises \<open>KeyError\<close>, a later row replaces an earlier one.\<close>

definition index_owned :: "owned_row list \<Rightarrow> (string \<Rightarrow> owned_row option) result" where
  "index_owned owned =
     (if list_ex (\<lambda>o'. fst o' ''order_id'' = None) owned then Inl (KeyError ''order_id'')
      else Inr (map_of (rev (map (\<lambda>o'. (py_str (row_get (fst o') ''order_id''), o')) owned))))"

definition plan_owned_consumption ::
    "consumption_target \<Rightarrow> protection_authority \<Rightarrow> row list \<Rightarrow> row option list \<Rightarrow> row list \<Rightarrow> row list
     \<Rightarrow> owned_row list \<Rightarrow> rat \<Rightarrow> bool \<Rightarrow> (string \<Rightarrow> pyval list) \<Rightarrow> pyval \<Rightarrow> take_profit_consumption_plan result" where
  "plan_owned_consumption target authority pending_orders trigger_history ordinary_history trade_fills
      owned target_remaining pending_snapshot_complete recorded_order_statuses live_position_size =
     (let owned_rows = py_sorted (\<lambda>o'. stage_sort_key (fst o') (ct_side target)) False owned;
          pending_tp_rows = filter is_take_profit_row pending_orders
      in if \<not> distinct_ids pending_tp_rows then Inr (refusal conflict)
         else rbind (index_owned owned_rows) (\<lambda>owned_by_id.
         case own_pending_rows (map pr_order_id (pa_take_profit_orders authority)) (authority_order_ids authority)
                owned_by_id pending_tp_rows of
           None \<Rightarrow> Inr (refusal conflict)
         | Some pending \<Rightarrow>
             if \<not> list_all (pending_row_agrees target owned_by_id) pending then Inr (refusal conflict)
             else (case owned_rows of
                 [] \<Rightarrow> Inr (default_consumption_plan\<lparr>cp_evidence_tier := ''no_take_profit_ledger_row'',
                         cp_effective_target_remaining_size := cons_decimal_text target_remaining\<rparr>)
               | first # later \<Rightarrow>
                   let first_order_id = py_str (row_get (fst first) ''order_id'')
                   in Inr (finish_consumption target owned_by_id (map fst pending) first_order_id later
                        target_remaining live_position_size
                        (first_stage_state target (map fst pending) first_order_id (snd first)
                          (recorded_order_statuses first_order_id) trigger_history ordinary_history trade_fills
                          pending_snapshot_complete)))))"

definition plan_take_profit_consumption ::
    "string option \<Rightarrow> row \<Rightarrow> row list \<Rightarrow> row option list \<Rightarrow> row list \<Rightarrow> row list \<Rightarrow> row list \<Rightarrow> pyval \<Rightarrow> pyval
     \<Rightarrow> protection_authority option \<Rightarrow> bool \<Rightarrow> (string \<Rightarrow> pyval list) \<Rightarrow> pyval \<Rightarrow> take_profit_consumption_plan result" where
  "plan_take_profit_consumption take_profit_consumption target_leg pending_orders trigger_history ordinary_history
      trade_fills protection_ledger trusted_start_size target_remaining_size protection_authority
      pending_snapshot_complete recorded_order_statuses live_position_size =
     (if take_profit_consumption \<noteq> Some ''consume_first_stage''
      then Inr (refusal ''take_profit_consumption_policy_missing'')
      else case (cons_positive_decimal trusted_start_size, cons_nonnegative_decimal target_remaining_size) of
        (Some trusted_start, Some target_remaining) \<Rightarrow>
          if trusted_start < target_remaining then Inr (refusal ''take_profit_consumption_size_invalid'')
          else rbind (target_identity target_leg) (\<lambda>maybe_target. case maybe_target of
              None \<Rightarrow> Inr (refusal conflict)
            | Some target \<Rightarrow>
                (case authority_refusal protection_authority target of
                   Some code \<Rightarrow> Inr (refusal code)
                 | None \<Rightarrow>
                     if \<not> distinct_ids protection_ledger then Inr (refusal conflict)
                     else rbind (owned_ledger_rows target protection_ledger) (\<lambda>outcome. case outcome of
                         Inl code \<Rightarrow> Inr (refusal code)
                       | Inr owned \<Rightarrow>
                           plan_owned_consumption target (the protection_authority) pending_orders trigger_history
                             ordinary_history trade_fills owned target_remaining pending_snapshot_complete
                             recorded_order_statuses live_position_size)))
      | _ \<Rightarrow> Inr (refusal ''take_profit_consumption_size_invalid''))"

section \<open>Lemmas\<close>

lemma refusal_simps [simp]:
  "cp_refusal_code (refusal c) = Some c" "cp_cancel_order_ids (refusal c) = []" "cp_retained_rows (refusal c) = []"
  "cp_cancel_actions (refusal c) = []" "\<not> cp_first_stage_consumed_by_fill (refusal c)"
  by (simp_all add: refusal_def default_consumption_plan_def)

lemma owned_row_added:
  "(case rest of Inl c \<Rightarrow> Inl c | Inr owned \<Rightarrow> Inr (x # owned)) = Inr ys \<longleftrightarrow> (\<exists>xs. rest = Inr xs \<and> ys = x # xs)"
  by (cases rest) auto

lemma owned_ledger_rows_Cons:
  assumes "owned_ledger_rows target (x # rows) = Inr (Inr owned)"
  shows "owned_ledger_rows target rows = Inr (Inr owned) \<or>
    (\<exists>s rest. ledger_owner_matches x target = Inr True \<and> cons_positive_decimal (row_get x ''size_text'') = Some s
      \<and> owned_ledger_rows target rows = Inr (Inr rest) \<and> owned = (x, s) # rest)"
  using assms by (auto simp: rbind_Inr_iff owned_row_added split: if_splits option.splits)

lemma owned_ledger_rows_sound:
  "owned_ledger_rows target rows = Inr (Inr owned) \<Longrightarrow> (r, sz) \<in> set owned \<Longrightarrow>
   r \<in> set rows \<and> ledger_owner_matches r target = Inr True \<and> cons_positive_decimal (row_get r ''size_text'') = Some sz"
proof (induction rows arbitrary: owned)
  case (Cons x rows)
  from owned_ledger_rows_Cons [OF Cons.prems(1)] Cons.prems(2) Cons.IH show ?case by auto
qed simp

lemma owned_ledger_rows_length: "owned_ledger_rows target rows = Inr (Inr owned) \<Longrightarrow> length owned \<le> length rows"
proof (induction rows arbitrary: owned)
  case (Cons x rows)
  from owned_ledger_rows_Cons [OF Cons.prems] Cons.IH show ?case by auto
qed simp

lemma own_pending_rows_sound:
  "own_pending_rows tp_ids order_ids m rows = Some pending \<Longrightarrow> (oid, r) \<in> set pending \<Longrightarrow>
   r \<in> set rows \<and> cons_order_id r = Some oid \<and> oid \<in> set tp_ids"
  by (induction rows arbitrary: pending) (auto split: option.splits if_splits)

lemma index_owned_sound:
  assumes "index_owned owned = Inr m" "m oid = Some (r, sz)"
  shows "(r, sz) \<in> set owned" "py_str (row_get r ''order_id'') = oid"
proof -
  from assms have "map_of (rev (map (\<lambda>o'. (py_str (row_get (fst o') ''order_id''), o')) owned)) oid = Some (r, sz)"
    by (auto simp: index_owned_def split: if_splits)
  from map_of_SomeD [OF this] show "(r, sz) \<in> set owned" "py_str (row_get r ''order_id'') = oid" by auto
qed

lemma bound_retained_ids: "set (fst (bound_retained e rows)) \<subseteq> rr_order_id ` set rows"
  by (induction e rows rule: bound_retained.induct) (auto simp: Let_def split: prod.splits if_splits)

lemma bound_retained_kept: "set (snd (bound_retained e rows)) \<subseteq> set rows"
  by (induction e rows rule: bound_retained.induct) (auto simp: Let_def split: prod.splits if_splits)

text \<open>What a plan without a refusal consists of.\<close>

lemma plan_owned_not_refused:
  assumes "plan_owned_consumption target a pending_orders th oh fills owned target_remaining snap recorded live = Inr p"
    and "cp_refusal_code p = None"
  obtains owned_by_id pending where
    "index_owned (py_sorted (\<lambda>o'. stage_sort_key (fst o') (ct_side target)) False owned) = Inr owned_by_id"
    "distinct_ids (filter is_take_profit_row pending_orders)"
    "own_pending_rows (map pr_order_id (pa_take_profit_orders a)) (authority_order_ids a) owned_by_id (filter is_take_profit_row pending_orders) = Some pending"
    "list_all (pending_row_agrees target owned_by_id) pending"
    "(case py_sorted (\<lambda>o'. stage_sort_key (fst o') (ct_side target)) False owned of
        [] \<Rightarrow> p = default_consumption_plan\<lparr>cp_evidence_tier := ''no_take_profit_ledger_row'',
                cp_effective_target_remaining_size := cons_decimal_text target_remaining\<rparr>
      | first # later \<Rightarrow> p = finish_consumption target owned_by_id (map fst pending) (py_str (row_get (fst first) ''order_id'')) later
            target_remaining live (first_stage_state target (map fst pending) (py_str (row_get (fst first) ''order_id'')) (snd first)
              (recorded (py_str (row_get (fst first) ''order_id''))) th oh fills snap))"
proof -
  let ?sorted = "py_sorted (\<lambda>o'. stage_sort_key (fst o') (ct_side target)) False owned"
  note d = assms(1) [unfolded plan_owned_consumption_def Let_def]
  from d assms(2) have distinct: "\<not> \<not> distinct_ids (filter is_take_profit_row pending_orders)" by (auto split: if_splits)
  note d = d [unfolded if_not_P [OF distinct]]
  from d obtain owned_by_id where m: "index_owned ?sorted = Inr owned_by_id" by (auto simp: rbind_Inr_iff)
  note d = d [unfolded m sum.case]
  from d assms(2) obtain pending where pending: "own_pending_rows (map pr_order_id (pa_take_profit_orders a)) (authority_order_ids a)
      owned_by_id (filter is_take_profit_row pending_orders) = Some pending"
    by (cases "own_pending_rows (map pr_order_id (pa_take_profit_orders a)) (authority_order_ids a)
      owned_by_id (filter is_take_profit_row pending_orders)") auto
  note d = d [unfolded pending option.case]
  from d assms(2) have agree: "\<not> \<not> list_all (pending_row_agrees target owned_by_id) pending" by (auto split: if_splits)
  note d = d [unfolded if_not_P [OF agree]]
  have last_case: "case ?sorted of
        [] \<Rightarrow> p = default_consumption_plan\<lparr>cp_evidence_tier := ''no_take_profit_ledger_row'',
                cp_effective_target_remaining_size := cons_decimal_text target_remaining\<rparr>
      | first # later \<Rightarrow> p = finish_consumption target owned_by_id (map fst pending) (py_str (row_get (fst first) ''order_id'')) later
            target_remaining live (first_stage_state target (map fst pending) (py_str (row_get (fst first) ''order_id'')) (snd first)
              (recorded (py_str (row_get (fst first) ''order_id''))) th oh fills snap)"
  proof (cases ?sorted)
    case Nil
    then show ?thesis using d unfolding Nil list.case by simp
  next
    case (Cons first later)
    then show ?thesis using d unfolding Cons list.case by simp
  qed
  from distinct agree show thesis by (intro that [OF m _ pending _ last_case]) simp_all
qed

lemma plan_not_refused:
  assumes "plan_take_profit_consumption policy leg pending_orders th oh fills ledger start tgt authority snap recorded live = Inr p"
    and "cp_refusal_code p = None"
  obtains target a owned target_remaining where "target_identity leg = Inr (Some target)" "authority = Some a" "authority_resolved a"
    "cons_nonnegative_decimal tgt = Some target_remaining"
    "owned_ledger_rows target ledger = Inr (Inr owned)"
    "plan_owned_consumption target a pending_orders th oh fills owned target_remaining snap recorded live = Inr p"
proof -
  have auth: "authority_refusal authority target = None \<Longrightarrow> \<exists>a. authority = Some a \<and> authority_resolved a" for target
    by (auto simp: authority_refusal_def split: option.splits if_splits)
  note d = assms(1) [unfolded plan_take_profit_consumption_def]
  from d assms(2) obtain start' target_remaining where pol: "\<not> policy \<noteq> Some ''consume_first_stage''"
    and sizes: "cons_positive_decimal start = Some start'" "cons_nonnegative_decimal tgt = Some target_remaining"
    "\<not> start' < target_remaining"
    by (auto split: if_splits option.splits)
  note d = d [unfolded if_not_P [OF pol] sizes prod.case option.case if_not_P [OF sizes(3)]]
  from d assms(2) obtain target where target: "target_identity leg = Inr (Some target)"
    by (auto simp: rbind_Inr_iff split: option.splits)
  note d = d [unfolded target sum.case option.case]
  from d assms(2) have none: "authority_refusal authority target = None" by (auto split: option.splits)
  from auth [OF this] obtain a where a: "authority = Some a" "authority_resolved a" by blast
  note d = d [unfolded none option.case]
  from d assms(2) have distinct: "\<not> \<not> distinct_ids ledger" by (auto split: if_splits)
  note d = d [unfolded if_not_P [OF distinct] a(1) option.sel]
  from d obtain outcome where outcome: "owned_ledger_rows target ledger = Inr outcome" by (auto simp: rbind_Inr_iff)
  note d = d [unfolded outcome sum.case]
  from d assms(2) obtain owned where owned: "outcome = Inr owned" by (cases outcome) auto
  show thesis using d target a sizes(2) outcome unfolding owned by (intro that) simp_all
qed

lemma finish_not_refused:
  assumes "cp_refusal_code (finish_consumption target m ids first later target_remaining live stage) = None"
  obtains effective later_ids bounded where "\<And>c. stage \<noteq> Stage_refused c"
    "\<And>o'. o' \<in> set later \<Longrightarrow> py_str (row_get (fst o') ''order_id'') \<in> set ids"
    "effective_target target_remaining live stage = Some effective"
    "bound_retained (max 0 (dsub (dsum (map (\<lambda>r. amount_of_text (rr_desired_size r)) (map retained_of later))) effective))
       (map retained_of later) = (later_ids, bounded)"
    "cp_cancel_order_ids (finish_consumption target m ids first later target_remaining live stage)
       = (if stage = Stage_pending then first # later_ids else later_ids)"
    "cp_retained_rows (finish_consumption target m ids first later target_remaining live stage) = bounded"
    "cp_effective_target_remaining_size (finish_consumption target m ids first later target_remaining live stage) = cons_decimal_text effective"
    "cp_first_stage_consumed_by_fill (finish_consumption target m ids first later target_remaining live stage) \<longleftrightarrow> (\<exists>tier filled. stage = Stage_filled tier filled)"
    "cp_cancel_actions (finish_consumption target m ids first later target_remaining live stage)
       = map (cancel_action_for target m) (if stage = Stage_pending then first # later_ids else later_ids)"
    "\<And>tier filled. stage = Stage_filled tier filled \<Longrightarrow>
       cp_proven_filled_quantity (finish_consumption target m ids first later target_remaining live stage) = cons_decimal_text filled"
proof -
  have nr: "stage \<noteq> Stage_refused c" for c using assms by (cases stage) (simp_all add: finish_consumption_def)
  have fin: "finish_consumption target m ids first later target_remaining live stage =
      (if list_ex (\<lambda>owned. py_str (row_get (fst owned) ''order_id'') \<notin> set ids) later
      then refusal ''take_profit_terminal_state_unknown''
      else case effective_target target_remaining live stage of
        None \<Rightarrow> refusal ''target_live_position_not_unique''
      | Some effective \<Rightarrow>
          let (later_ids, bounded) = bound_retained (max 0 (dsub (dsum (map (\<lambda>r. amount_of_text (rr_desired_size r)) (map retained_of later))) effective))
                (map retained_of later);
              cancel_ids = (if stage = Stage_pending then first # later_ids else later_ids)
          in default_consumption_plan\<lparr>
               cp_cancel_order_ids := cancel_ids,
               cp_cancel_actions := map (cancel_action_for target m) cancel_ids,
               cp_proven_filled_quantity := (case stage of Stage_filled tier filled \<Rightarrow> cons_decimal_text filled
                                             | _ \<Rightarrow> cons_decimal_text 0),
               cp_retained_rows := bounded,
               cp_evidence_tier := (case stage of Stage_filled tier filled \<Rightarrow> tier
                  | Stage_pending \<Rightarrow> ''exact_pending_owned_order'' | _ \<Rightarrow> ''exact_terminal_no_fill''),
               cp_first_stage_consumed_by_fill := (case stage of Stage_filled tier filled \<Rightarrow> True | _ \<Rightarrow> False),
               cp_effective_target_remaining_size := cons_decimal_text effective\<rparr>)"
    using nr by (cases stage) (simp_all only: finish_consumption_def first_stage.case Let_def, blast)
  from assms have later: "\<not> list_ex (\<lambda>owned. py_str (row_get (fst owned) ''order_id'') \<notin> set ids) later"
    unfolding fin by (auto split: if_splits)
  obtain effective where eff: "effective_target target_remaining live stage = Some effective"
    using assms later unfolding fin by (cases "effective_target target_remaining live stage") auto
  obtain later_ids bounded where b: "bound_retained (max 0 (dsub (dsum (map (\<lambda>r. amount_of_text (rr_desired_size r)) (map retained_of later))) effective))
       (map retained_of later) = (later_ids, bounded)" by fastforce
  note f = fin [unfolded if_not_P [OF later] eff option.case Let_def b prod.case]
  show thesis by (rule that [OF nr _ eff b]) (use later f in \<open>auto simp: list_ex_iff split: first_stage.splits\<close>)
qed

text \<open>What is kept fits: on the grid, cancelling for an excess leaves at most the total less the excess.\<close>

definition row_steps :: "rat \<Rightarrow> retained_row \<Rightarrow> int \<Rightarrow> bool" where
  "row_steps t r k \<longleftrightarrow> rr_current_size r = decimal_text (of_int k * t) \<and> rr_desired_size r = decimal_text (of_int k * t)"

lemma row_steps_amount:
  "row_steps t r k \<Longrightarrow> grid_step t \<Longrightarrow> small_count k \<Longrightarrow> amount_of_text (rr_current_size r) = of_int k * t"
  "row_steps t r k \<Longrightarrow> grid_step t \<Longrightarrow> small_count k \<Longrightarrow> amount_of_text (rr_desired_size r) = of_int k * t"
  by (simp_all add: row_steps_def amount_of_text_def dec_text_grid)

lemma desired_amounts:
  "list_all2 (row_steps t) rows ks \<Longrightarrow> grid_step t \<Longrightarrow> (\<And>k. k \<in> set ks \<Longrightarrow> small_count k) \<Longrightarrow>
   map (\<lambda>r. amount_of_text (rr_desired_size r)) rows = map (\<lambda>k. of_int k * t) ks"
  by (induction rule: list_all2_induct) (auto simp: row_steps_amount(2))

lemma bound_retained_fits:
  assumes "list_all2 (row_steps t) rows ks" "grid_step t" "\<And>k. k \<in> set ks \<Longrightarrow> 0 \<le> k \<and> small_count k"
    and "0 \<le> e" "small_count e" "e \<le> sum_list ks"
  shows "\<exists>ks'. list_all2 (row_steps t) (snd (bound_retained (of_int e * t) rows)) ks' \<and> set ks' \<subseteq> set ks
    \<and> sum_list ks' \<le> sum_list ks - e"
  using assms
proof (induction arbitrary: e rule: list_all2_induct)
  case Nil
  then show ?case by simp
next
  case (Cons r rows k ks)
  note t = grid_step_pos [OF Cons.prems(1)]
  have k: "0 \<le> k" "small_count k" using Cons.prems(2) by auto
  have IH: "0 \<le> e' \<Longrightarrow> small_count e' \<Longrightarrow> e' \<le> sum_list ks \<Longrightarrow> \<exists>ks'. list_all2 (row_steps t) (snd (bound_retained (of_int e' * t) rows)) ks'
      \<and> set ks' \<subseteq> set ks \<and> sum_list ks' \<le> sum_list ks - e'" for e'
    using Cons.prems(1,2) by (intro Cons.IH) auto
  have ks: "0 \<le> sum_list ks" using Cons.prems(2) by (intro sum_list_nonneg) auto
  note amount = row_steps_amount(1) [OF Cons.hyps(1) Cons.prems(1) k(2)]
  consider "k \<le> e" | "e < k" "0 < e" | "e < k" "e = 0" using Cons.prems(3) by linarith
  then show ?case
  proof cases
    case 1
    have s: "small_count (e - k)" using 1 k(1) Cons.prems(4) by (intro small_count_le [of "e - k" e]) auto
    have "snd (bound_retained (of_int e * t) (r # rows)) = snd (bound_retained (of_int (e - k) * t) rows)"
      using 1 t amount dsub_grid [OF Cons.prems(1) s] by (simp add: split: prod.splits)
    with IH [of "e - k"] 1 s Cons.prems(5) show ?thesis by fastforce
  next
    case 2
    have "snd (bound_retained (of_int e * t) (r # rows)) = snd (bound_retained (of_int 0 * t) rows)"
      using 2 t amount by (simp split: prod.splits)
    with IH [of 0] ks 2 show ?thesis by (fastforce simp: small_count_def)
  next
    case 3
    have "snd (bound_retained (of_int e * t) (r # rows)) = r # snd (bound_retained (of_int e * t) rows)"
      using 3 t amount by (simp add: mult_le_0_iff Let_def split: prod.splits)
    moreover obtain ks' where ks': "list_all2 (row_steps t) (snd (bound_retained (of_int e * t) rows)) ks'" "set ks' \<subseteq> set ks" "sum_list ks' \<le> sum_list ks"
      using IH [of 0] ks 3 by (auto simp: small_count_def)
    ultimately have "list_all2 (row_steps t) (snd (bound_retained (of_int e * t) (r # rows))) (k # ks')"
      using Cons.hyps(1) by simp
    with ks' 3 show ?thesis by (intro exI [of _ "k # ks'"]) auto
  qed
qed

lemma bound_retained_nothing:
  assumes "list_all2 (row_steps t) rows ks" "grid_step t" "\<And>k. k \<in> set ks \<Longrightarrow> 0 < k \<and> small_count k"
  shows "bound_retained 0 rows = ([], rows)"
  using assms
proof (induction rule: list_all2_induct)
  case (Cons r rows k ks)
  have "small_count k" "0 < k" using Cons.prems(2) by auto
  with grid_step_pos [OF Cons.prems(1)] row_steps_amount(1) [OF Cons.hyps(1) Cons.prems(1)]
  have "0 < amount_of_text (rr_current_size r)" by simp
  with Cons show ?case by simp
qed simp

lemma sum_desired:
  assumes "list_all2 (row_steps t) rows ks" "grid_step t" "\<And>k. k \<in> set ks \<Longrightarrow> small_count k"
  shows "sum_list (map (\<lambda>r. amount_of_text (rr_desired_size r)) rows) = of_int (sum_list ks) * t"
proof -
  have "sum_list (map (\<lambda>k. of_int k * t) ks) = of_int (sum_list ks) * t" by (induction ks) (simp_all add: distrib_right)
  then show ?thesis by (simp only: desired_amounts [OF assms])
qed

text \<open>The sizes of a ledger on the grid.\<close>

definition ledger_on_grid :: "rat \<Rightarrow> row list \<Rightarrow> bool" where
  "ledger_on_grid t rows \<longleftrightarrow> grid_step t \<and> length rows < 10 ^ 9
     \<and> (\<forall>r \<in> set rows. case cons_positive_decimal (row_get r ''size_text'') of None \<Rightarrow> True
          | Some x \<Rightarrow> x / t = of_int \<lfloor>x / t\<rfloor> \<and> x / t < 10 ^ 10)"

lemma owned_on_grid:
  assumes "ledger_on_grid t ledger" "owned_ledger_rows target ledger = Inr (Inr owned)" "(r, sz) \<in> set owned"
  obtains k where "0 < k" "k < 10 ^ 10" "sz = of_int k * t"
proof -
  from owned_ledger_rows_sound [OF assms(2,3)] have r: "r \<in> set ledger" "cons_positive_decimal (row_get r ''size_text'') = Some sz"
    by auto
  then have sz: "0 < sz" by (auto simp: cons_positive_decimal_def split: option.splits if_splits)
  from assms(1) r have t: "0 < t" "sz / t = of_int \<lfloor>sz / t\<rfloor>" "sz / t < 10 ^ 10" unfolding ledger_on_grid_def by force+
  then have eq: "sz = of_int \<lfloor>sz / t\<rfloor> * t" by (metis less_numeral_extra(3) nonzero_eq_divide_eq)
  have "0 < sz / t" using sz t(1) by simp
  with t(2) have "0 < (of_int \<lfloor>sz / t\<rfloor> :: rat)" by simp
  moreover have "(of_int \<lfloor>sz / t\<rfloor> :: rat) < of_int (10 ^ 10)" using t(2,3) by simp
  ultimately show thesis using that [OF _ _ eq] unfolding of_int_less_iff by simp
qed

lemma retained_on_grid:
  assumes "ledger_on_grid t ledger" "owned_ledger_rows target ledger = Inr (Inr owned)" "set later \<subseteq> set owned"
  obtains ks where "list_all2 (row_steps t) (map retained_of later) ks" "\<And>k. k \<in> set ks \<Longrightarrow> 0 < k \<and> k < 10 ^ 10" "length ks = length later"
proof -
  have "\<exists>ks. list_all2 (row_steps t) (map retained_of later) ks \<and> (\<forall>k \<in> set ks. 0 < k \<and> k < 10 ^ 10) \<and> length ks = length later"
    using assms(3)
  proof (induction later)
    case (Cons o' later)
    obtain r sz where o': "o' = (r, sz)" by (cases o')
    with Cons.prems have "(r, sz) \<in> set owned" by simp
    from owned_on_grid [OF assms(1,2) this] obtain k where k: "0 < k" "k < 10 ^ 10" "sz = of_int k * t" by blast
    from Cons obtain ks where "list_all2 (row_steps t) (map retained_of later) ks" "\<forall>k \<in> set ks. 0 < k \<and> k < 10 ^ 10" "length ks = length later"
      by auto
    moreover have "row_steps t (retained_of o') k" using k o' by (simp add: row_steps_def retained_of_def cons_decimal_text_def)
    ultimately show ?case using k by (intro exI [of _ "k # ks"]) auto
  qed simp
  with that show thesis by blast
qed

lemma sum_of_small:
  assumes "\<And>k. k \<in> set ks \<Longrightarrow> 0 < k \<and> k < (10 ^ 10 :: int)" "length ks < 10 ^ 9"
  shows "0 \<le> sum_list ks" "sum_list ks < 10 ^ 19"
proof -
  show "0 \<le> sum_list ks" using assms(1) by (intro sum_list_nonneg) (auto simp: less_imp_le)
  have "sum_list ks \<le> int (length ks) * 10 ^ 10" using assms(1)
  proof (induction ks)
    case (Cons k ks)
    then have "sum_list ks \<le> int (length ks) * 10 ^ 10" "k < 10 ^ 10" by auto
    then show ?case by (simp add: distrib_right)
  qed simp
  also have "\<dots> < 10 ^ 9 * 10 ^ 10" using assms(2) by simp
  finally show "sum_list ks < 10 ^ 19" by simp
qed

section \<open>The properties\<close>

text \<open>Every plan is either the refusal of a code, with nothing in it, or has no refusal code.\<close>

definition refusal_or_plan :: "take_profit_consumption_plan result \<Rightarrow> bool" where
  "refusal_or_plan x \<longleftrightarrow> (\<forall>p. x = Inr p \<longrightarrow> (\<exists>c. p = refusal c) \<or> cp_refusal_code p = None)"

lemma refusal_or_plan_Inr: "refusal_or_plan (Inr p) \<longleftrightarrow> (\<exists>c. p = refusal c) \<or> cp_refusal_code p = None"
  by (simp add: refusal_or_plan_def)

lemma refusal_or_plan_simps [simp]:
  "refusal_or_plan (Inl e)" "refusal_or_plan (Inr (refusal c))"
  "refusal_or_plan (Inr (default_consumption_plan\<lparr>cp_evidence_tier := tier, cp_effective_target_remaining_size := x\<rparr>))"
  "refusal_or_plan (Inr (finish_consumption target m ids first later target_remaining live stage))"
proof -
  have f: "(\<exists>c. finish_consumption target m ids first later target_remaining live stage = refusal c)
     \<or> cp_refusal_code (finish_consumption target m ids first later target_remaining live stage) = None"
    by (cases stage)
      (simp_all add: finish_consumption_def default_consumption_plan_def Let_def split: option.splits prod.splits, blast+)
  then show "refusal_or_plan (Inr (finish_consumption target m ids first later target_remaining live stage))"
    unfolding refusal_or_plan_Inr .
qed (auto simp: refusal_or_plan_def default_consumption_plan_def)

lemma plan_owned_refused:
  "refusal_or_plan (plan_owned_consumption target a pending_orders th oh fills owned target_remaining snap recorded live)"
  unfolding plan_owned_consumption_def Let_def
  by (simp del: py_sorted_Nil_iff split: option.split list.split sum.split)

lemma plan_refused:
  "refusal_or_plan (plan_take_profit_consumption policy leg pending_orders th oh fills ledger start tgt authority snap recorded live)"
  unfolding plan_take_profit_consumption_def
  by (simp add: plan_owned_refused split: option.split sum.split)

lemma own_pending_rows_owned:
  "own_pending_rows tp_ids order_ids m rows = Some pending \<Longrightarrow> r \<in> set rows \<Longrightarrow> cons_order_id r = Some oid \<Longrightarrow>
   m oid \<noteq> None \<Longrightarrow> oid \<in> fst ` set pending"
  by (induction rows arbitrary: pending) (force split: option.splits if_splits)+

lemma index_owned_total:
  assumes "index_owned owned = Inr m" "o' \<in> set owned"
  shows "m (py_str (row_get (fst o') ''order_id'')) \<noteq> None"
proof -
  from assms have m: "m = map_of (rev (map (\<lambda>o'. (py_str (row_get (fst o') ''order_id''), o')) owned))"
    by (auto simp: index_owned_def split: if_splits)
  from assms(2) show ?thesis unfolding m map_of_eq_None_iff by force
qed

lemma filled_stage_sound:
  "filled_stage target oid first_size fills verdict = Stage_filled tier filled \<Longrightarrow> filled \<le> first_size"
  by (auto simp: filled_stage_def Let_def split: if_splits option.splits)

lemma first_stage_filled:
  assumes "first_stage_state target pending_ids oid first_size recorded th oh fills snap = Stage_filled tier filled"
  shows "oid \<notin> set pending_ids" "fv_proven (take_profit_fill_proven (VStr oid) recorded th snap None)" "filled \<le> first_size"
  using assms by (auto simp: first_stage_state_def Let_def dest: filled_stage_sound split: if_splits)

lemma first_stage_pending:
  "first_stage_state target pending_ids oid first_size recorded th oh fills snap = Stage_pending \<Longrightarrow> oid \<in> set pending_ids"
  by (auto simp: first_stage_state_def filled_stage_def Let_def split: if_splits option.splits)

text \<open>Everything a plan without refusal was made from, in one elimination.\<close>

lemma plan_elim:
  assumes "plan_take_profit_consumption policy leg pending_orders th oh fills ledger start tgt authority snap recorded live = Inr p"
    and "cp_refusal_code p = None"
  obtains (empty) target target_remaining where "target_identity leg = Inr (Some target)"
      "cons_nonnegative_decimal tgt = Some target_remaining" "owned_ledger_rows target ledger = Inr (Inr [])"
      "p = default_consumption_plan\<lparr>cp_evidence_tier := ''no_take_profit_ledger_row'',
         cp_effective_target_remaining_size := cons_decimal_text target_remaining\<rparr>"
    | (stages) target a target_remaining owned first later m pending stage effective later_ids bounded where
      "target_identity leg = Inr (Some target)" "authority = Some a" "authority_resolved a"
      "cons_nonnegative_decimal tgt = Some target_remaining" "owned_ledger_rows target ledger = Inr (Inr owned)"
      "py_sorted (\<lambda>o'. stage_sort_key (fst o') (ct_side target)) False owned = first # later"
      "index_owned (first # later) = Inr m"
      "own_pending_rows (map pr_order_id (pa_take_profit_orders a)) (authority_order_ids a) m (filter is_take_profit_row pending_orders) = Some pending"
      "list_all (pending_row_agrees target m) pending"
      "stage = first_stage_state target (map fst pending) (py_str (row_get (fst first) ''order_id'')) (snd first)
         (recorded (py_str (row_get (fst first) ''order_id''))) th oh fills snap"
      "\<And>o'. o' \<in> set later \<Longrightarrow> py_str (row_get (fst o') ''order_id'') \<in> fst ` set pending"
      "effective_target target_remaining live stage = Some effective"
      "bound_retained (max 0 (dsub (dsum (map (\<lambda>r. amount_of_text (rr_desired_size r)) (map retained_of later))) effective))
         (map retained_of later) = (later_ids, bounded)"
      "cp_cancel_order_ids p = (if stage = Stage_pending then py_str (row_get (fst first) ''order_id'') # later_ids else later_ids)"
      "cp_retained_rows p = bounded"
      "cp_effective_target_remaining_size p = cons_decimal_text effective"
      "cp_first_stage_consumed_by_fill p \<longleftrightarrow> (\<exists>tier filled. stage = Stage_filled tier filled)"
      "map ca_order_id (cp_cancel_actions p) = cp_cancel_order_ids p"
      "\<And>tier filled. stage = Stage_filled tier filled \<Longrightarrow> cp_proven_filled_quantity p = cons_decimal_text filled"
proof (rule plan_not_refused [OF assms])
  fix target a owned target_remaining
  assume d: "target_identity leg = Inr (Some target)"
    "authority = Some a" "authority_resolved a" "cons_nonnegative_decimal tgt = Some target_remaining"
    "owned_ledger_rows target ledger = Inr (Inr owned)"
    and o: "plan_owned_consumption target a pending_orders th oh fills owned target_remaining snap recorded live = Inr p"
  show thesis
  proof (rule plan_owned_not_refused [OF o assms(2)])
    fix m pending
    assume e: "index_owned (py_sorted (\<lambda>o'. stage_sort_key (fst o') (ct_side target)) False owned) = Inr m"
      "own_pending_rows (map pr_order_id (pa_take_profit_orders a)) (authority_order_ids a) m (filter is_take_profit_row pending_orders) = Some pending"
      "list_all (pending_row_agrees target m) pending"
    assume c: "case py_sorted (\<lambda>o'. stage_sort_key (fst o') (ct_side target)) False owned of
          [] \<Rightarrow> p = default_consumption_plan\<lparr>cp_evidence_tier := ''no_take_profit_ledger_row'',
                  cp_effective_target_remaining_size := cons_decimal_text target_remaining\<rparr>
        | first # later \<Rightarrow> p = finish_consumption target m (map fst pending) (py_str (row_get (fst first) ''order_id'')) later
              target_remaining live (first_stage_state target (map fst pending) (py_str (row_get (fst first) ''order_id'')) (snd first)
                (recorded (py_str (row_get (fst first) ''order_id''))) th oh fills snap)"
    show thesis
    proof (cases "py_sorted (\<lambda>o'. stage_sort_key (fst o') (ct_side target)) False owned")
      case Nil
      then have "owned = []" by simp
      from empty [OF d(1) d(4) d(5) [unfolded this] c [unfolded Nil list.case]] show thesis .
    next
      case (Cons first later)
      let ?stage = "first_stage_state target (map fst pending) (py_str (row_get (fst first) ''order_id'')) (snd first)
                (recorded (py_str (row_get (fst first) ''order_id''))) th oh fills snap"
      note p = c [unfolded Cons list.case]
      show thesis
      proof (rule finish_not_refused [OF assms(2) [unfolded p]], goal_cases)
        case (1 effective later_ids bounded)
        note f = 1 [folded p]
        have ids: "o' \<in> set later \<Longrightarrow> py_str (row_get (fst o') ''order_id'') \<in> fst ` set pending" for o'
          using f(2) by simp
        have acts: "map ca_order_id (cp_cancel_actions p) = cp_cancel_order_ids p"
          unfolding f(9) f(5) by (simp add: cancel_action_for_def o_def)
        show thesis
          by (rule stages [OF d Cons e(1) [unfolded Cons] e(2,3) refl ids f(3-8) acts f(10)])
      qed
    qed
  qed
qed

text \<open>A plan rests on an authority for exactly this position.\<close>

lemma authority_refusal_None:
  assumes "authority_refusal (Some a) target = None"
  shows "authority_resolved a" "pa_pos_id a = ct_pos_id target" "py_upper (pa_instrument_id a) = ct_instrument_id target"
    "py_lower (pa_side a) = ct_side target"
  using assms by (auto simp: authority_refusal_def split: if_splits option.splits)

lemma plan_authority:
  assumes "plan_take_profit_consumption policy leg pending_orders th oh fills ledger start tgt authority snap recorded live = Inr p"
    and "cp_refusal_code p = None" "target_identity leg = Inr (Some target)"
  shows "authority_refusal authority target = None"
proof (cases "authority_refusal authority target")
  case (Some c)
  with assms show ?thesis unfolding plan_take_profit_consumption_def assms(3)
    by (auto split: if_splits option.splits)
qed

lemma target_identity_fields:
  assumes "target_identity leg = Inr (Some target)"
  shows "py_int (row_get leg ''execution_binding_id'') = Some (ct_execution_binding_id target)"
    "py_int (row_get leg ''execution_order_leg_id'') = Some (ct_execution_order_leg_id target)"
    "ct_pos_id target = py_str (row_get leg ''pos_id'')"
    "ct_instrument_id target = py_upper (py_str (row_get leg ''instrument_id''))"
    "ct_side target = py_lower (py_str (row_get leg ''side''))"
  using assms by (auto simp: target_identity_def split: if_splits option.splits)

lemma owned_ledger_rows_purpose:
  "owned_ledger_rows target rows = Inr (Inr owned) \<Longrightarrow> (r, sz) \<in> set owned \<Longrightarrow>
   py_lower (str_or (row_get r ''purpose'') ''take_profit'') \<in> {''take_profit'', ''tp'', ''profit''}"
proof (induction rows arbitrary: owned)
  case (Cons x rows)
  show ?case
  proof (cases "py_lower (str_or (row_get x ''purpose'') ''take_profit'') \<in> {''take_profit'', ''tp'', ''profit''}")
    case True
    from owned_ledger_rows_Cons [OF Cons.prems(1)] Cons.prems(2) Cons.IH True show ?thesis by auto
  next
    case False
    then show ?thesis using Cons.prems Cons.IH by simp
  qed
qed simp

text \<open>
  What every order the plan cancels has been matched with, each source of evidence spelt out: the leg,
  the authority resolved for its position, the ledger row of exactly this leg, and the row of the exchange.
\<close>

definition ledger_row_of_leg :: "row \<Rightarrow> row \<Rightarrow> string \<Rightarrow> rat \<Rightarrow> bool" where
  "ledger_row_of_leg leg r oid sz \<longleftrightarrow>
     (let instrument = py_upper (py_str (row_get leg ''instrument_id'')); side = py_lower (py_str (row_get leg ''side'')) in
      py_str (row_get r ''order_id'') = oid
      \<and> (\<exists>binding. py_int (row_get leg ''execution_binding_id'') = Some binding
          \<and> int_or_zero (row_get r ''execution_binding_id'') = Inr binding)
      \<and> (\<exists>leg_id. py_int (row_get leg ''execution_order_leg_id'') = Some leg_id
          \<and> int_or_zero (row_get r ''execution_order_leg_id'') = Inr leg_id)
      \<and> str_or_empty (row_get r ''pos_id'') = py_str (row_get leg ''pos_id'')
      \<and> py_upper (str_or (row_get r ''instrument_id'') instrument) = instrument
      \<and> py_lower (str_or (row_get r ''side'') side) = side
      \<and> py_lower (str_or (row_get r ''purpose'') ''take_profit'') \<in> {''take_profit'', ''tp'', ''profit''}
      \<and> py_lower (str_or_empty (row_get r ''status''))
          \<in> {''verified'', ''protected'', ''active'', ''filled'', ''cancel_requested'', ''protection_missing''}
      \<and> finite_decimal (row_get r ''size_text'') = Some sz \<and> 0 < sz)"

definition exchange_row_of_leg :: "row \<Rightarrow> row \<Rightarrow> row \<Rightarrow> string \<Rightarrow> rat \<Rightarrow> bool" where
  "exchange_row_of_leg leg ledger r oid sz \<longleftrightarrow>
     is_take_profit_row r \<and> cons_order_id r = Some oid
     \<and> (explicit_pos_id r = [] \<or> explicit_pos_id r = py_str (row_get leg ''pos_id''))
     \<and> py_upper (str_or_empty (or_keys r [''instId'', ''instrument_id''])) = py_upper (py_str (row_get leg ''instrument_id''))
     \<and> protection_order_sides_consistent r
     \<and> protection_order_position_sides r = {py_lower (py_str (row_get leg ''side''))}
     \<and> finite_decimal (or_keys r [''sz'', ''size'']) = Some sz
     \<and> (\<exists>price. finite_decimal (take_profit_row_price r) = Some price \<and> finite_decimal (row_get ledger ''trigger_price'') = Some price)"

definition cancel_is_owned ::
    "row \<Rightarrow> row list \<Rightarrow> row list \<Rightarrow> protection_authority option \<Rightarrow> string \<Rightarrow> bool" where
  "cancel_is_owned leg pending_orders ledger authority oid \<longleftrightarrow>
     (\<exists>a. authority = Some a \<and> authority_resolved a
        \<and> pa_pos_id a = py_str (row_get leg ''pos_id'')
        \<and> py_upper (pa_instrument_id a) = py_upper (py_str (row_get leg ''instrument_id''))
        \<and> py_lower (pa_side a) = py_lower (py_str (row_get leg ''side''))
        \<and> oid \<in> pr_order_id ` set (pa_take_profit_orders a))
     \<and> (\<exists>r \<in> set ledger. \<exists>pending_row \<in> set pending_orders. \<exists>sz.
        ledger_row_of_leg leg r oid sz \<and> exchange_row_of_leg leg r pending_row oid sz)"

lemma ledger_row_of_legI:
  assumes "target_identity leg = Inr (Some target)" "owned_ledger_rows target ledger = Inr (Inr owned)" "(r, sz) \<in> set owned"
  shows "ledger_row_of_leg leg r (py_str (row_get r ''order_id'')) sz"
proof -
  note t = target_identity_fields [OF assms(1)]
  from owned_ledger_rows_sound [OF assms(2,3)]
  have m: "ledger_owner_matches r target = Inr True" and z: "cons_positive_decimal (row_get r ''size_text'') = Some sz" by simp_all
  from z have "finite_decimal (row_get r ''size_text'') = Some sz" "0 < sz"
    by (auto simp: cons_positive_decimal_def cons_decimal_or_none_def split: option.splits if_splits)
  with m t owned_ledger_rows_purpose [OF assms(2,3)] show ?thesis
    by (auto simp: ledger_row_of_leg_def Let_def ledger_owner_matches_def rbind_Inr_iff owned_ledger_statuses_def split: if_splits)
qed

lemma exchange_row_of_legI:
  assumes "target_identity leg = Inr (Some target)" "pending_row_agrees target m (oid, r)" "m oid = Some (l, sz)"
    "is_take_profit_row r" "cons_order_id r = Some oid"
  shows "exchange_row_of_leg leg l r oid sz"
  using assms(2-5) target_identity_fields [OF assms(1)]
  by (auto simp: exchange_row_of_leg_def pending_row_agrees_def same_decimal_def cons_decimal_or_none_def)

text \<open>
  Claim C28: a take-profit order is cancelled for an instruction only when an authority resolved for
  exactly the leg's position, instrument and side names it as a take profit, the ledger has it as a live
  take-profit row of exactly this leg, and it rests on the exchange on that instrument and side with that
  row's size and trigger price. A refusal cancels nothing, keeps nothing and consumes no stage.
\<close>

theorem consumption_cancels_only_owned:
  assumes "plan_take_profit_consumption policy leg pending_orders th oh fills ledger start tgt authority snap recorded live = Inr p"
  shows "(cp_refusal_code p \<noteq> None \<longrightarrow> cp_cancel_order_ids p = [] \<and> cp_cancel_actions p = [] \<and> cp_retained_rows p = []
       \<and> \<not> cp_first_stage_consumed_by_fill p)
    \<and> map ca_order_id (cp_cancel_actions p) = cp_cancel_order_ids p
    \<and> (\<forall>oid \<in> set (cp_cancel_order_ids p). cancel_is_owned leg pending_orders ledger authority oid)"
proof (cases "cp_refusal_code p")
  case (Some c)
  then have "\<exists>c. p = refusal c" using plan_refused [of policy leg pending_orders th oh fills ledger start tgt authority snap recorded live]
    unfolding assms refusal_or_plan_Inr by auto
  then show ?thesis by auto
next
  case None
  show ?thesis
  proof (rule plan_elim [OF assms None], goal_cases)
    case 1
    then show ?case by (simp add: default_consumption_plan_def)
  next
    case (2 target a target_remaining owned first later m pending stage effective later_ids bounded)
    have owned: "set (first # later) = set owned" by (metis 2(6) set_py_sorted)
    have pending: "oid \<in> fst ` set pending" if "oid \<in> set (cp_cancel_order_ids p)" for oid
    proof -
      have "set later_ids \<subseteq> rr_order_id ` set (map retained_of later)" using bound_retained_ids 2(13) by (metis fst_conv)
      then have "set later_ids \<subseteq> fst ` set pending" using 2(11) by (auto simp: retained_of_def)
      then show ?thesis using that 2(10) first_stage_pending unfolding 2(14) by (auto split: if_splits dest!: first_stage_pending)
    qed
    note auth = authority_refusal_None [OF plan_authority [OF assms None 2(1), unfolded 2(2)]] target_identity_fields [OF 2(1)]
    have "cancel_is_owned leg pending_orders ledger authority oid" if c: "oid \<in> set (cp_cancel_order_ids p)" for oid
    proof -
      from pending [OF c] obtain r where r: "(oid, r) \<in> set pending" by auto
      from own_pending_rows_sound [OF 2(8) r] have row: "r \<in> set pending_orders" "is_take_profit_row r" "cons_order_id r = Some oid"
        "oid \<in> pr_order_id ` set (pa_take_profit_orders a)" by auto
      from 2(9) r have agrees: "pending_row_agrees target m (oid, r)" by (auto simp: list_all_iff)
      then obtain l sz where m: "m oid = Some (l, sz)" by (auto simp: pending_row_agrees_def split: option.splits)
      from index_owned_sound [OF 2(7) m] owned have l: "(l, sz) \<in> set owned" "py_str (row_get l ''order_id'') = oid" by auto
      have "l \<in> set ledger" using owned_ledger_rows_sound [OF 2(5) l(1)] by simp
      moreover note ledger_row_of_legI [OF 2(1,5) l(1), unfolded l(2)] exchange_row_of_legI [OF 2(1) agrees m row(2,3)]
      ultimately show ?thesis unfolding cancel_is_owned_def using 2(2) auth(1-4,7-9) row(1,4) by auto
    qed
    with 2(18) None show ?case by simp
  qed
qed

text \<open>
  Claim C29: a first take-profit stage is consumed by its fill only when it is the first of the leg's
  owned stages, its order no longer rests anywhere in the snapshot and is proven filled, by no more
  than its size; the plan then converges on the live position and does not cancel that order.
\<close>

theorem first_stage_consumed_only_if_filled:
  assumes "plan_take_profit_consumption policy leg pending_orders th oh fills ledger start tgt authority snap recorded live = Inr p"
    and "cp_first_stage_consumed_by_fill p"
  shows "\<exists>target owned first oid filled remaining. target_identity leg = Inr (Some target)
    \<and> owned_ledger_rows target ledger = Inr (Inr owned) \<and> first \<in> set owned
    \<and> (\<forall>o' \<in> set owned. stage_sort_key (fst first) (ct_side target) \<le> stage_sort_key (fst o') (ct_side target))
    \<and> oid = py_str (row_get (fst first) ''order_id'')
    \<and> (\<forall>r \<in> set pending_orders. is_take_profit_row r \<longrightarrow> cons_order_id r \<noteq> Some oid)
    \<and> fv_proven (take_profit_fill_proven (VStr oid) (recorded oid) th snap None)
    \<and> cp_proven_filled_quantity p = decimal_text filled \<and> filled \<le> snd first
    \<and> cons_positive_decimal live = Some remaining
    \<and> cp_effective_target_remaining_size p = decimal_text remaining
    \<and> oid \<notin> set (cp_cancel_order_ids p)"
proof -
  have nr: "cp_refusal_code p = None"
  proof (rule ccontr)
    assume "cp_refusal_code p \<noteq> None"
    then have "\<exists>c. p = refusal c" using plan_refused [of policy leg pending_orders th oh fills ledger start tgt authority snap recorded live]
      unfolding assms(1) refusal_or_plan_Inr by auto
    with assms(2) show False by auto
  qed
  show ?thesis
  proof (rule plan_elim [OF assms(1) nr], goal_cases)
    case 1
    with assms(2) show ?case by (simp add: default_consumption_plan_def)
  next
    case (2 target a target_remaining owned first later m pending stage effective later_ids bounded)
    let ?oid = "py_str (row_get (fst first) ''order_id'')"
    from 2(17) assms(2) obtain tier filled where st: "stage = Stage_filled tier filled" by blast
    note f = first_stage_filled [OF 2(10) [symmetric, unfolded st]]
    have owned: "set (first # later) = set owned" by (metis 2(6) set_py_sorted)
    have least: "stage_sort_key (fst first) (ct_side target) \<le> stage_sort_key (fst o') (ct_side target)" if "o' \<in> set owned" for o'
      using sorted_wrt_py_sorted [of False "\<lambda>o'. stage_sort_key (fst o') (ct_side target)" owned] that
      unfolding 2(6) owned [symmetric] by (auto simp: dir_le_def)
    have absent: "cons_order_id r \<noteq> Some ?oid" if "r \<in> set pending_orders" "is_take_profit_row r" for r
    proof
      assume "cons_order_id r = Some ?oid"
      with own_pending_rows_owned [OF 2(8) _ this] that index_owned_total [OF 2(7), of first] f(1) show False by simp
    qed
    have live: "cons_positive_decimal live = Some effective" using 2(12) by (simp add: st effective_target_def)
    have "set later_ids \<subseteq> rr_order_id ` set (map retained_of later)" using bound_retained_ids 2(13) by (metis fst_conv)
    then have "set later_ids \<subseteq> fst ` set pending" using 2(11) by (auto simp: retained_of_def)
    then have "?oid \<notin> set (cp_cancel_order_ids p)" using f(1) by (auto simp: 2(14) st)
    with 2(1,5,16,19) st least absent f live owned show ?case
      by (intro exI [of _ target] exI [of _ owned] exI [of _ first] exI [of _ ?oid] exI [of _ filled] exI [of _ effective])
        (auto simp: cons_decimal_text_def)
  qed
qed

lemma max_grid: "0 < t \<Longrightarrow> max 0 (of_int n * t) = (of_int (max 0 n) * t :: rat)"
  by (simp add: max_def zero_le_mult_iff)

text \<open>The plan's later stages against its effective target, as whole numbers of steps.\<close>

lemma bounded_on_grid:
  assumes "ledger_on_grid t ledger" "owned_ledger_rows target ledger = Inr (Inr owned)" "set later \<subseteq> set owned" "length later \<le> length owned"
    and "0 \<le> E" "E < 10 ^ 20"
    and "bound_retained (max 0 (dsub (dsum (map (\<lambda>r. amount_of_text (rr_desired_size r)) (map retained_of later))) (of_int E * t)))
         (map retained_of later) = (later_ids, bounded)"
  shows "sum_list (map (\<lambda>r. amount_of_text (rr_desired_size r)) bounded) \<le> of_int E * t"
    and "sum_list (map snd later) \<le> of_int E * t \<Longrightarrow> later_ids = [] \<and> bounded = map retained_of later"
proof -
  from assms(1) have t: "grid_step t" "length ledger < 10 ^ 9" by (simp_all add: ledger_on_grid_def)
  obtain ks where ks: "list_all2 (row_steps t) (map retained_of later) ks" "\<And>k. k \<in> set ks \<Longrightarrow> 0 < k \<and> k < 10 ^ 10"
    "length ks = length later" by (rule retained_on_grid [OF assms(1-3)]) blast
  have "length ks < 10 ^ 9" using ks(3) assms(4) owned_ledger_rows_length [OF assms(2)] t(2) by linarith
  note T = sum_of_small [OF ks(2) this]
  let ?T = "sum_list ks"
  have small: "small_count ?T" "small_count (?T - E)" "small_count (max 0 (?T - E))"
    using T assms(5,6) by (auto simp: small_count_def)
  have k: "small_count k" "0 \<le> k" if "k \<in> set ks" for k using ks(2) [OF that] by (simp_all add: small_count_def)
  have total: "dsum (map (\<lambda>r. amount_of_text (rr_desired_size r)) (map retained_of later)) = of_int ?T * t"
    using desired_amounts [OF ks(1) t(1) k(1)] dsum_grid [OF t(1) small(1)] k(2) by (simp only:)
  have e: "max 0 (dsub (of_int ?T * t) (of_int E * t)) = of_int (max 0 (?T - E)) * t"
    using dsub_grid [OF t(1) small(2)] max_grid [OF grid_step_pos [OF t(1)]] by (simp only:)
  note b = assms(7) [unfolded total e]
  have "\<exists>ks'. list_all2 (row_steps t) (snd (bound_retained (of_int (max 0 (?T - E)) * t) (map retained_of later))) ks'
      \<and> set ks' \<subseteq> set ks \<and> sum_list ks' \<le> ?T - max 0 (?T - E)"
    using k T(1) assms(5) small(3) by (intro bound_retained_fits [OF ks(1) t(1)]) auto
  then obtain ks' where ks': "list_all2 (row_steps t) bounded ks'" "set ks' \<subseteq> set ks" "sum_list ks' \<le> ?T - max 0 (?T - E)"
    unfolding b by auto
  have "sum_list (map (\<lambda>r. amount_of_text (rr_desired_size r)) bounded) = of_int (sum_list ks') * t"
    using ks'(2) k(1) by (intro sum_desired [OF ks'(1) t(1)]) auto
  also have "\<dots> \<le> of_int E * t" using ks'(3) grid_step_pos [OF t(1)] by (intro mult_right_mono) auto
  finally show "sum_list (map (\<lambda>r. amount_of_text (rr_desired_size r)) bounded) \<le> of_int E * t" .
  have sizes: "map snd later = map (\<lambda>k. of_int k * t) ks"
    using ks(1,2) assms(3)
  proof (induction later arbitrary: ks)
    case (Cons o' later)
    then obtain k ks1 where kk: "ks = k # ks1" "row_steps t (retained_of o') k" "list_all2 (row_steps t) (map retained_of later) ks1"
      by (auto simp: list_all2_Cons1)
    obtain r sz where o': "o' = (r, sz)" by (cases o')
    obtain j where j: "0 < j" "j < 10 ^ 10" "sz = of_int j * t"
      using owned_on_grid [OF assms(1,2), of r sz] Cons.prems(3) o' by auto
    have "finite_decimal (VStr (decimal_text (of_int j * t))) = finite_decimal (VStr (decimal_text (of_int k * t)))"
      using kk(2) o' j(3) by (simp add: row_steps_def retained_of_def cons_decimal_text_def)
    moreover have "small_count j" "small_count k" using j Cons.prems(2) [of k] kk(1) by (simp_all add: small_count_def)
    ultimately have "of_int j * t = of_int k * t" using dec_text_grid [OF t(1)] by simp
    moreover have "map snd later = map (\<lambda>k. of_int k * t) ks1"
      by (rule Cons.IH [OF kk(3)]) (use Cons.prems(2,3) kk(1) in auto)
    ultimately show ?case using o' j(3) kk(1) by simp
  qed simp
  assume "sum_list (map snd later) \<le> of_int E * t"
  moreover have "sum_list (map snd later) = of_int ?T * t"
    unfolding sizes by (induction ks) (simp_all add: distrib_right)
  ultimately have "(of_int ?T :: rat) \<le> of_int E" using grid_step_pos [OF t(1)] by (simp add: mult_le_cancel_right)
  then have "max 0 (?T - E) = 0" by simp
  with b bound_retained_nothing [OF ks(1) t(1)] ks(2) k(1) show "later_ids = [] \<and> bounded = map retained_of later" by simp
qed

definition size_on_grid :: "rat \<Rightarrow> rat option \<Rightarrow> bool" where
  "size_on_grid t amount \<longleftrightarrow> (case amount of None \<Rightarrow> True | Some x \<Rightarrow> 0 \<le> x \<and> x / t = of_int \<lfloor>x / t\<rfloor> \<and> x / t < 10 ^ 20)"

lemma size_on_gridE:
  assumes "size_on_grid t (Some x)" "0 < t"
  obtains n where "0 \<le> n" "n < 10 ^ 20" "x = of_int n * t"
proof -
  from assms have x: "0 \<le> x" "x / t = of_int \<lfloor>x / t\<rfloor>" "x / t < 10 ^ 20" by (auto simp: size_on_grid_def)
  then have eq: "x = of_int \<lfloor>x / t\<rfloor> * t" using assms(2) by (metis less_numeral_extra(3) nonzero_eq_divide_eq)
  have "0 \<le> \<lfloor>x / t\<rfloor>" using x(1) assms(2) by simp
  moreover have "(of_int \<lfloor>x / t\<rfloor> :: rat) < of_int (10 ^ 20)" using x(2,3) by simp
  ultimately show thesis using that [OF _ _ eq] unfolding of_int_less_iff by simp
qed

text \<open>
  After the first stage, the stages a plan keeps never sum to more than the size the leg
  converges on (the contract's target, or the live position when the first stage was consumed), and
  when all of them already fit none is cancelled. Sizes are multiples of the contract's step.
\<close>

theorem consumption_bounds_later_stages:
  assumes "plan_take_profit_consumption policy leg pending_orders th oh fills ledger start tgt authority snap recorded live = Inr p"
    and "cp_refusal_code p = None" and "ledger_on_grid t ledger"
    and "size_on_grid t (cons_nonnegative_decimal tgt)" and "size_on_grid t (cons_positive_decimal live)"
  shows "\<exists>target owned remaining. target_identity leg = Inr (Some target) \<and> owned_ledger_rows target ledger = Inr (Inr owned)
    \<and> cp_effective_target_remaining_size p = decimal_text remaining
    \<and> Some remaining = (if cp_first_stage_consumed_by_fill p then cons_positive_decimal live else cons_nonnegative_decimal tgt)
    \<and> sum_list (map (\<lambda>r. amount_of_text (rr_desired_size r)) (cp_retained_rows p)) \<le> remaining
    \<and> (let later = drop 1 (py_sorted (\<lambda>o'. stage_sort_key (fst o') (ct_side target)) False owned)
       in sum_list (map snd later) \<le> remaining \<longrightarrow> cp_retained_rows p = map retained_of later)"
proof (rule plan_elim [OF assms(1,2)], goal_cases)
  case (1 target target_remaining)
  from 1(2) have "0 \<le> target_remaining" by (auto simp: cons_nonnegative_decimal_def split: option.splits if_splits)
  with 1 show ?case
    by (intro exI [of _ target] exI [of _ "[]"] exI [of _ target_remaining])
      (auto simp: default_consumption_plan_def cons_decimal_text_def py_sorted_def)
next
  case (2 target a target_remaining owned first later m pending stage effective later_ids bounded)
  note t = grid_step_pos [of t] and g = assms(3) [unfolded ledger_on_grid_def]
  have eff: "Some effective = (if cp_first_stage_consumed_by_fill p then cons_positive_decimal live else cons_nonnegative_decimal tgt)"
    using 2(4,12) unfolding 2(17) by (cases stage) (simp_all add: effective_target_def)
  then have "size_on_grid t (Some effective)" using assms(4,5) by (auto split: if_splits)
  then obtain E where E: "0 \<le> E" "E < 10 ^ 20" "effective = of_int E * t" using size_on_gridE g t by blast
  have sub: "set later \<subseteq> set owned" "length later \<le> length owned"
    using set_py_sorted [of "\<lambda>o'. stage_sort_key (fst o') (ct_side target)" False owned]
      length_py_sorted [of "\<lambda>o'. stage_sort_key (fst o') (ct_side target)" False owned] unfolding 2(6) by auto
  note b = bounded_on_grid [OF assms(3) 2(5) sub E(1,2) 2(13) [unfolded E(3)]]
  show ?case
    by (intro exI [of _ target] exI [of _ owned] exI [of _ effective])
      (use 2(1,5,6,15,16) eff b E(3) in \<open>auto simp: cons_decimal_text_def\<close>)
qed

section \<open>A leg with two take-profit stages\<close>

definition example_leg :: row where
  "example_leg = [''execution_binding_id'' \<mapsto> VInt 3, ''execution_order_leg_id'' \<mapsto> VInt 7, ''pos_id'' \<mapsto> VStr ''p1'',
     ''instrument_id'' \<mapsto> VStr ''BTC'', ''side'' \<mapsto> VStr ''long'']"

definition stage_row :: "string \<Rightarrow> int \<Rightarrow> string \<Rightarrow> row" where
  "stage_row oid stage price = example_leg(''order_id'' \<mapsto> VStr oid, ''stage_index'' \<mapsto> VInt stage, ''status'' \<mapsto> VStr ''verified'',
     ''trigger_price'' \<mapsto> VStr price, ''size_text'' \<mapsto> VStr ''2'')"

definition example_stages :: "row list" where
  "example_stages = [stage_row ''o2'' 2 ''110'', stage_row ''o1'' 1 ''105'']"

definition example_ref :: "string \<Rightarrow> protection_order_ref" where
  "example_ref oid = \<lparr>pr_order_id = oid, pr_group = ''take_profit'', pr_purpose = ''take_profit'', pr_trigger_price = None,
     pr_size_text = None, pr_ledger_trigger_price = None, pr_ledger_size_text = None, pr_source = ''ledger'', pr_row = Map.empty\<rparr>"

definition example_protection :: "string list \<Rightarrow> protection_authority" where
  "example_protection ids = \<lparr>pa_status = ''resolved'', pa_pos_id = ''p1'', pa_instrument_id = ''BTC'', pa_side = ''long'',
     pa_reason_code = None, pa_execution_binding_id = Some 3, pa_execution_order_leg_id = Some 7, pa_strategy_instance_id = None,
     pa_stop_orders = [], pa_take_profit_orders = map example_ref ids, pa_adoptions = [], pa_unattributable_order_ids = [],
     pa_excluded_pending_entry_order_ids = [], pa_evidence = []\<rparr>"

text \<open>The first stage still rests: both stages are cancelled for a target of one contract.\<close>

definition resting_plan :: "take_profit_consumption_plan result" where
  "resting_plan = plan_take_profit_consumption (Some ''consume_first_stage'') example_leg
     [tpsl_row ''o1'' ''tpTriggerPrice'' ''105'', tpsl_row ''o2'' ''tpTriggerPrice'' ''110''] [] [] [] example_stages
     (VStr ''4'') (VStr ''1'') (Some (example_protection [''o1'', ''o2''])) True (\<lambda>oid. []) VNone"

text \<open>The first stage has filled: nothing is cancelled, the plan converges on the live position.\<close>

definition filled_statuses :: "string \<Rightarrow> pyval list" where
  "filled_statuses oid = (if oid = ''o1'' then [VStr ''filled''] else [])"

definition filled_plan :: "take_profit_consumption_plan result" where
  "filled_plan = plan_take_profit_consumption (Some ''consume_first_stage'') example_leg
     [tpsl_row ''o2'' ''tpTriggerPrice'' ''110''] [] [] [] example_stages
     (VStr ''4'') (VStr ''1'') (Some (example_protection [''o2''])) True filled_statuses (VStr ''2'')"

lemma resting_plan_eval:
  "(case resting_plan of Inl e \<Rightarrow> False | Inr p \<Rightarrow> cp_refusal_code p = None \<and> cp_cancel_order_ids p = [''o1'', ''o2'']
     \<and> cp_retained_rows p = [] \<and> \<not> cp_first_stage_consumed_by_fill p)"
  by code_simp

lemma filled_plan_eval:
  "(case filled_plan of Inl e \<Rightarrow> False | Inr p \<Rightarrow> cp_refusal_code p = None \<and> cp_cancel_order_ids p = []
     \<and> map rr_order_id (cp_retained_rows p) = [''o2''] \<and> cp_first_stage_consumed_by_fill p)"
  by code_simp

theorem consumption_cancels_only_owned_witness:
  "\<exists>p. resting_plan = Inr p \<and> cp_cancel_order_ids p = [''o1'', ''o2'']
    \<and> cancel_is_owned example_leg [tpsl_row ''o1'' ''tpTriggerPrice'' ''105'', tpsl_row ''o2'' ''tpTriggerPrice'' ''110'']
        example_stages (Some (example_protection [''o1'', ''o2''])) ''o2''"
proof -
  obtain p where p: "resting_plan = Inr p" "cp_cancel_order_ids p = [''o1'', ''o2'']"
    using resting_plan_eval by (auto split: sum.splits)
  from consumption_cancels_only_owned [OF p(1) [unfolded resting_plan_def]] p show ?thesis by auto
qed

theorem first_stage_consumed_only_if_filled_witness:
  "\<exists>p. filled_plan = Inr p \<and> cp_first_stage_consumed_by_fill p
    \<and> (\<exists>remaining. cons_positive_decimal (VStr ''2'') = Some remaining
        \<and> cp_effective_target_remaining_size p = decimal_text remaining)"
proof -
  obtain p where p: "filled_plan = Inr p" "cp_first_stage_consumed_by_fill p"
    using filled_plan_eval by (auto split: sum.splits)
  from first_stage_consumed_only_if_filled [OF p(1) [unfolded filled_plan_def] p(2)] p show ?thesis by blast
qed

lemma example_stages_on_grid: "ledger_on_grid 1 example_stages"
proof -
  have "list_all (\<lambda>r. cons_positive_decimal (row_get r ''size_text'') = Some 2) example_stages" by code_simp
  then show ?thesis by (simp add: ledger_on_grid_def list_all_iff) (simp add: example_stages_def)
qed

theorem consumption_bounds_later_stages_witness:
  "\<exists>p remaining. filled_plan = Inr p \<and> Some remaining = cons_positive_decimal (VStr ''2'')
    \<and> map rr_order_id (cp_retained_rows p) = [''o2'']
    \<and> sum_list (map (\<lambda>r. amount_of_text (rr_desired_size r)) (cp_retained_rows p)) \<le> remaining"
proof -
  obtain p where p: "filled_plan = Inr p" "cp_refusal_code p = None" "map rr_order_id (cp_retained_rows p) = [''o2'']"
    "cp_first_stage_consumed_by_fill p"
    using filled_plan_eval by (auto split: sum.splits)
  have sizes: "cons_nonnegative_decimal (VStr ''1'') = Some 1" "cons_positive_decimal (VStr ''2'') = Some 2" by code_simp+
  have g: "size_on_grid 1 (cons_nonnegative_decimal (VStr ''1''))" "size_on_grid 1 (cons_positive_decimal (VStr ''2''))"
    unfolding sizes by (simp_all add: size_on_grid_def)
  from consumption_bounds_later_stages [OF p(1) [unfolded filled_plan_def] p(2) example_stages_on_grid g] p(4)
  obtain remaining where "Some remaining = cons_positive_decimal (VStr ''2'')"
    "sum_list (map (\<lambda>r. amount_of_text (rr_desired_size r)) (cp_retained_rows p)) \<le> remaining" by (auto simp only: if_True)
  with p show ?thesis by (intro exI [of _ p] exI [of _ remaining] conjI)
qed

end
