(* ===== verification/Py_Json.thy ===== *)
theory Py_Json
  imports Py_Value
begin

text \<open>
  JSON as the modelled modules use it: the values, the canonical text
  \<open>json.dumps(value, ensure_ascii=False, sort_keys=True, separators=(",", ":"), allow_nan=False)\<close>
  and the reader of such texts.  A dictionary is its list of items, its keys strings; a float is its
  \<open>repr\<close>; \<open>JNonfinite\<close> and \<open>JOther\<close> stand for the values \<open>dumps\<close> refuses (a NaN or an infinity, an
  object of any other class).  A tuple is written as a list and read back as one.  Strings are ASCII.

  \<open>json_loads\<close> reads the texts \<open>json_dumps\<close> writes (no blanks between the tokens, no escapes beyond
  the ones it writes) and answers \<open>None\<close> on any other.
\<close>

datatype json =
    JNull
  | JBool bool
  | JInt int
  | JFloat string
  | JNonfinite
  | JOther
  | JStr string
  | JList "json list"
  | JTuple "json list"
  | JDict "(string \<times> json) list"

section \<open>Writing\<close>

definition hex_char :: "nat \<Rightarrow> char" where
  "hex_char n = (if n < 10 then char_of (48 + n) else char_of (87 + n))"

definition escape_char :: "char \<Rightarrow> string" where
  "escape_char c =
     (if c = CHR 0x22 then [CHR 0x5C, CHR 0x22] else if c = CHR 0x5C then [CHR 0x5C, CHR 0x5C]
      else if c = CHR 0x0A then [CHR 0x5C, CHR ''n''] else if c = CHR 0x0D then [CHR 0x5C, CHR ''r'']
      else if c = CHR 0x09 then [CHR 0x5C, CHR ''t''] else if c = CHR 0x0C then [CHR 0x5C, CHR ''f'']
      else if c = CHR 0x08 then [CHR 0x5C, CHR ''b'']
      else if char_code c < 32
      then [CHR 0x5C, CHR ''u'', CHR ''0'', CHR ''0'', hex_char (char_code c div 16), hex_char (char_code c mod 16)]
      else [c])"

definition quote_text :: "string \<Rightarrow> string" where
  "quote_text s = CHR 0x22 # concat (map escape_char s) @ [CHR 0x22]"

fun comma_sep :: "string list \<Rightarrow> string" where
  "comma_sep [] = []"
| "comma_sep [s] = s"
| "comma_sep (s # t # ss) = s @ CHR '','' # comma_sep (t # ss)"

fun json_text :: "json \<Rightarrow> string" where
  "json_text JNull = ''null''"
| "json_text (JBool b) = (if b then ''true'' else ''false'')"
| "json_text (JInt i) = int_text i"
| "json_text (JFloat s) = s"
| "json_text (JStr s) = quote_text s"
| "json_text (JList xs) = CHR ''['' # comma_sep (map json_text xs) @ '']''"
| "json_text (JTuple xs) = CHR ''['' # comma_sep (map json_text xs) @ '']''"
| "json_text (JDict kvs) =
     CHR ''{'' # comma_sep (map (\<lambda>(key, v). quote_text key @ CHR '':'' # json_text v) kvs) @ ''}''"
| "json_text JNonfinite = []"
| "json_text JOther = []"

text \<open>The dictionary items in key order, at every level.\<close>

fun sort_keys :: "json \<Rightarrow> json" where
  "sort_keys (JList xs) = JList (map sort_keys xs)"
| "sort_keys (JTuple xs) = JTuple (map sort_keys xs)"
| "sort_keys (JDict kvs) = JDict (sort_key fst (map (\<lambda>(key, v). (key, sort_keys v)) kvs))"
| "sort_keys v = v"

fun serialisable :: "json \<Rightarrow> bool" where
  "serialisable (JList xs) = list_all serialisable xs"
| "serialisable (JTuple xs) = list_all serialisable xs"
| "serialisable (JDict kvs) = list_all (\<lambda>(key, v). serialisable v) kvs"
| "serialisable JNonfinite = False"
| "serialisable JOther = False"
| "serialisable v = True"

definition json_dumps :: "json \<Rightarrow> string option" where
  "json_dumps v = (if serialisable v then Some (json_text (sort_keys v)) else None)"

section \<open>Reading\<close>

definition hex_val :: "char \<Rightarrow> nat" where
  "hex_val c = (if char_code c < 58 then char_code c - 48 else char_code c - 87)"

definition unescape_char :: "char \<Rightarrow> char option" where
  "unescape_char e =
     (if e = CHR 0x22 \<or> e = CHR 0x5C then Some e
      else if e = CHR ''n'' then Some (CHR 0x0A) else if e = CHR ''r'' then Some (CHR 0x0D)
      else if e = CHR ''t'' then Some (CHR 0x09) else if e = CHR ''f'' then Some (CHR 0x0C)
      else if e = CHR ''b'' then Some (CHR 0x08) else None)"

fun read_chars :: "string \<Rightarrow> (string \<times> string) option" where
  "read_chars [] = None"
| "read_chars (c # s) =
     (if c = CHR 0x22 then Some ([], s)
      else if c \<noteq> CHR 0x5C then map_option (\<lambda>(t, rest). (c # t, rest)) (read_chars s)
      else (case s of
          [] \<Rightarrow> None
        | e # u \<Rightarrow>
            if e = CHR ''u''
            then (case u of
                z # z' # h # l # v \<Rightarrow> map_option (\<lambda>(t, rest). (char_of (16 * hex_val h + hex_val l) # t, rest)) (read_chars v)
              | _ \<Rightarrow> None)
            else (case unescape_char e of
                None \<Rightarrow> None
              | Some x \<Rightarrow> map_option (\<lambda>(t, rest). (x # t, rest)) (read_chars u))))"

definition number_char :: "char \<Rightarrow> bool" where
  "number_char c \<longleftrightarrow> is_digit c \<or> c \<in> set ''+-.eE''"

text \<open>The \<open>repr\<close> of a finite float: a point or an exponent tells it from an integer.\<close>

definition float_text :: "string \<Rightarrow> bool" where
  "float_text s \<longleftrightarrow> s \<noteq> [] \<and> (is_digit (hd s) \<or> hd s = CHR ''-'') \<and> list_all number_char s \<and> list_ex (\<lambda>c. c \<in> set ''.eE'') s"

definition read_number :: "string \<Rightarrow> json option" where
  "read_number t = (if float_text t then Some (JFloat t) else map_option JInt (parse_int t))"

fun read_value :: "nat \<Rightarrow> string \<Rightarrow> (json \<times> string) option"
  and read_elements :: "nat \<Rightarrow> string \<Rightarrow> (json list \<times> string) option"
  and read_members :: "nat \<Rightarrow> string \<Rightarrow> ((string \<times> json) list \<times> string) option" where
  "read_value 0 s = None"
| "read_value (Suc n) s =
     (if take 4 s = ''null'' then Some (JNull, drop 4 s)
      else if take 4 s = ''true'' then Some (JBool True, drop 4 s)
      else if take 5 s = ''false'' then Some (JBool False, drop 5 s)
      else (case s of
          [] \<Rightarrow> None
        | c # r \<Rightarrow>
            if c = CHR 0x22 then map_option (\<lambda>(t, rest). (JStr t, rest)) (read_chars r)
            else if c = CHR ''['' then
              (if take 1 r = '']'' then Some (JList [], drop 1 r)
               else map_option (\<lambda>(xs, rest). (JList xs, rest)) (read_elements n r))
            else if c = CHR ''{'' then
              (if take 1 r = ''}'' then Some (JDict [], drop 1 r)
               else map_option (\<lambda>(kvs, rest). (JDict kvs, rest)) (read_members n r))
            else map_option (\<lambda>v. (v, dropWhile number_char s)) (read_number (takeWhile number_char s))))"
| "read_elements 0 s = None"
| "read_elements (Suc n) s =
     (case read_value n s of
        None \<Rightarrow> None
      | Some (v, r) \<Rightarrow>
          if take 1 r = '']'' then Some ([v], drop 1 r)
          else if take 1 r = '','' then map_option (\<lambda>(xs, rest). (v # xs, rest)) (read_elements n (drop 1 r))
          else None)"
| "read_members 0 s = None"
| "read_members (Suc n) s =
     (if take 1 s \<noteq> [CHR 0x22] then None
      else case read_chars (drop 1 s) of
        None \<Rightarrow> None
      | Some (key, r) \<Rightarrow>
          if take 1 r \<noteq> '':'' then None
          else (case read_value n (drop 1 r) of
              None \<Rightarrow> None
            | Some (v, r') \<Rightarrow>
                if take 1 r' = ''}'' then Some ([(key, v)], drop 1 r')
                else if take 1 r' = '','' then map_option (\<lambda>(kvs, rest). ((key, v) # kvs, rest)) (read_members n (drop 1 r'))
                else None))"

definition json_loads :: "string \<Rightarrow> json option" where
  "json_loads s = (case read_value (Suc (length s)) s of Some (v, []) \<Rightarrow> Some v | _ \<Rightarrow> None)"

section \<open>The round trip\<close>

text \<open>What a value reads back as: tuples become lists.\<close>

fun as_lists :: "json \<Rightarrow> json" where
  "as_lists (JList xs) = JList (map as_lists xs)"
| "as_lists (JTuple xs) = JList (map as_lists xs)"
| "as_lists (JDict kvs) = JDict (map (\<lambda>(key, v). (key, as_lists v)) kvs)"
| "as_lists v = v"

text \<open>Floats carry a text a float prints.\<close>

fun floats_ok :: "json \<Rightarrow> bool" where
  "floats_ok (JList xs) = list_all floats_ok xs"
| "floats_ok (JTuple xs) = list_all floats_ok xs"
| "floats_ok (JDict kvs) = list_all (\<lambda>(key, v). floats_ok v) kvs"
| "floats_ok (JFloat s) = float_text s"
| "floats_ok v = True"

lemma hex_val_hex_char: "n < 16 \<Longrightarrow> hex_val (hex_char n) = n"
  by (auto simp: hex_val_def hex_char_def char_code_def)

lemma read_escaped:
  "read_chars (escape_char c @ s) = map_option (\<lambda>(t, rest). (c # t, rest)) (read_chars s)"
proof (cases "char_code c < 32 \<and> c \<noteq> CHR 0x0A \<and> c \<noteq> CHR 0x0D \<and> c \<noteq> CHR 0x09 \<and> c \<noteq> CHR 0x0C \<and> c \<noteq> CHR 0x08")
  case True
  then have n: "char_code c < 32" by simp
  have "char_code c div 16 < 16" "char_code c mod 16 < 16" using n by simp_all
  then have "char_of (16 * hex_val (hex_char (char_code c div 16)) + hex_val (hex_char (char_code c mod 16))) = c"
    by (simp only: hex_val_hex_char mult_div_mod_eq) (simp add: char_code_def)
  moreover have "c \<noteq> CHR 0x22" "c \<noteq> CHR 0x5C" using n by (auto simp: char_code_def)
  then have "escape_char c = [CHR 0x5C, CHR ''u'', CHR ''0'', CHR ''0'', hex_char (char_code c div 16), hex_char (char_code c mod 16)]"
    using True unfolding escape_char_def by simp
  ultimately show ?thesis by simp
next
  case False
  then show ?thesis by (auto simp: escape_char_def unescape_char_def)
qed

lemma read_quoted: "read_chars (concat (map escape_char s) @ CHR 0x22 # rest) = Some (s, rest)"
  by (induction s) (simp_all add: read_escaped)

lemma read_quote_text: "read_chars (tl (quote_text s) @ rest) = Some (s, rest)"
  by (simp add: quote_text_def read_quoted)

text \<open>A text that follows a value ends its number.\<close>

definition stops :: "string \<Rightarrow> bool" where
  "stops s \<longleftrightarrow> s = [] \<or> \<not> number_char (hd s)"

lemma stops_simps [simp]: "stops []" "stops (CHR '','' # s)" "stops (CHR '']'' # s)" "stops (CHR ''}'' # s)"
  by (auto simp: stops_def number_char_def is_digit_def char_code_def)

lemma number_token:
  "list_all number_char t \<Longrightarrow> stops rest \<Longrightarrow> takeWhile number_char (t @ rest) = t \<and> dropWhile number_char (t @ rest) = rest"
  by (induction t) (auto simp: stops_def dropWhile_eq_self_iff takeWhile_eq_Nil_iff)

lemma int_text_number: "list_all number_char (int_text i)" "\<not> float_text (int_text i)" "int_text i \<noteq> []"
  "hd (int_text i) = CHR ''-'' \<or> is_digit (hd (int_text i))"
proof -
  have d: "c \<in> set (nat_digits n) \<Longrightarrow> c \<notin> set ''.eE-''" for c n
    using nat_digits_all_digit [of c n] by (auto simp: is_digit_def char_code_def)
  show "list_all number_char (int_text i)"
    using nat_digits_all_digit by (auto simp: int_text_def list_all_iff number_char_def)
  show "\<not> float_text (int_text i)"
    using d by (auto simp: int_text_def float_text_def list_ex_iff)
  show "int_text i \<noteq> []" by (simp add: int_text_def)
  show "hd (int_text i) = CHR ''-'' \<or> is_digit (hd (int_text i))"
    using nat_digits_all_digit [OF hd_in_set [OF nat_digits_not_Nil]] by (simp add: int_text_def)
qed

lemma parse_int_text: "parse_int (int_text i) = Some i"
proof -
  have ok: "s \<noteq> [] \<Longrightarrow> list_all is_digit s \<Longrightarrow> int_digits_ok s" for s
  proof (induction s rule: int_digits_ok.induct)
    case (3 c d s)
    then have "d \<noteq> CHR ''_''" by (auto simp: is_digit_def char_code_def)
    with 3 show ?case by simp
  qed auto
  have digits: "list_all is_digit (nat_digits n)" for n using nat_digits_all_digit by (auto simp: list_all_iff)
  have clean: "filter (\<lambda>c. c \<noteq> CHR ''_'') (nat_digits n) = nat_digits n" for n
    using nat_digits_all_digit [of "CHR ''_''" n] by (intro filter_True) (auto simp: is_digit_def char_code_def)
  have strip: "py_strip (int_text i) = int_text i"
  proof (rule py_strip_id)
    assume "int_text i \<noteq> []"
    have "\<not> is_space (last (int_text i))"
      using is_digit_not_space [OF nat_digits_all_digit [OF last_in_set [OF nat_digits_not_Nil]]]
      by (simp add: int_text_def)
    moreover have "\<not> is_space (hd (int_text i))"
    proof -
      have "\<not> is_space (CHR ''-'')" by code_simp
      then show ?thesis using int_text_number(4) [of i] is_digit_not_space by metis
    qed
    ultimately show "\<not> is_space (hd (int_text i)) \<and> \<not> is_space (last (int_text i))" by simp
  qed
  obtain c s where n: "nat_digits (nat i) = c # s" by (cases "nat_digits (nat i)") auto
  then have c: "is_digit c" using nat_digits_all_digit [of c "nat i"] by simp
  then have c: "c \<noteq> CHR ''-''" "c \<noteq> CHR ''+''" by (auto simp: is_digit_def char_code_def)
  have "int_digits_ok (nat_digits k)" for k using ok [OF nat_digits_not_Nil digits] .
  note k = this [of "nat i"] this [of "nat (- i)"]
  show ?thesis
  proof (cases "i < 0")
    case True
    then show ?thesis using k(2) clean [of "nat (- i)"] unfolding parse_int_def strip Let_def by (simp add: int_text_def)
  next
    case False
    then have "int_text i = c # s" by (simp add: int_text_def n)
    then show ?thesis using False c k(1) clean [of "nat i"] digits_val_nat_digits [of "nat i"]
      unfolding parse_int_def strip Let_def n by simp
  qed
qed

lemma read_number_text:
  "read_number (int_text i) = Some (JInt i)" "float_text s \<Longrightarrow> read_number s = Some (JFloat s)"
  by (simp_all add: read_number_def int_text_number(2) parse_int_text)


section \<open>Values\<close>

definition readable :: "json \<Rightarrow> bool" where
  "readable v \<longleftrightarrow> serialisable v \<and> floats_ok v"

lemma readable_simps [simp]:
  "readable (JList xs) \<longleftrightarrow> (\<forall>x \<in> set xs. readable x)" "readable (JTuple xs) \<longleftrightarrow> (\<forall>x \<in> set xs. readable x)"
  "readable (JDict kvs) \<longleftrightarrow> (\<forall>(key, v) \<in> set kvs. readable v)" "readable (JFloat s) \<longleftrightarrow> float_text s"
  "\<not> readable JNonfinite" "\<not> readable JOther"
  by (auto simp: readable_def list_all_iff)

lemma number_start:
  "hd s = CHR ''-'' \<or> is_digit (hd s) \<Longrightarrow> s \<noteq> [] \<Longrightarrow> \<exists>c r. s = c # r \<and> c \<notin> set ''ntf[]{}'' \<and> c \<noteq> CHR 0x22"
  by (cases s) (auto simp: is_digit_def char_code_def)

lemma text_start: "readable v \<Longrightarrow> \<exists>c r. json_text v = c # r \<and> c \<noteq> CHR '']'' \<and> c \<noteq> CHR ''}''"
proof (cases v)
  case (JInt i)
  then show ?thesis using number_start [OF int_text_number(4,3), of i] by auto
next
  case (JFloat t)
  assume "readable v"
  then have "hd t = CHR ''-'' \<or> is_digit (hd t)" "t \<noteq> []" using JFloat by (auto simp: float_text_def)
  then show ?thesis using number_start JFloat by fastforce
qed (auto simp: quote_text_def)

lemma read_number_value:
  assumes "list_all number_char t" "t \<noteq> []" "hd t = CHR ''-'' \<or> is_digit (hd t)" "read_number t = Some v" "stops rest" "0 < n"
  shows "read_value n (t @ rest) = Some (v, rest)"
proof -
  obtain m where n: "n = Suc m" using assms(6) by (cases n) auto
  obtain c r where t: "t = c # r" "c \<notin> set ''ntf[]{}''" "c \<noteq> CHR 0x22" using number_start [OF assms(3,2)] by blast
  have "take 4 (t @ rest) \<noteq> ''null''" "take 4 (t @ rest) \<noteq> ''true''" "take 5 (t @ rest) \<noteq> ''false''" using t by auto
  with t number_token [OF assms(1,5)] assms(4) show ?thesis by (simp add: n)
qed

section \<open>Reading back\<close>

lemma read_elements_text:
  assumes "\<And>x n rest. x \<in> set xs \<Longrightarrow> stops rest \<Longrightarrow> length (json_text x) < n \<Longrightarrow>
      read_value n (json_text x @ rest) = Some (as_lists x, rest)"
    and "xs \<noteq> []" "Suc (length (comma_sep (map json_text xs))) < n"
  shows "read_elements n (comma_sep (map json_text xs) @ CHR '']'' # rest) = Some (map as_lists xs, rest)"
  using assms
proof (induction xs arbitrary: n)
  case (Cons x xs)
  obtain m where n: "n = Suc m" using Cons.prems(3) by (cases n) auto
  show ?case
  proof (cases xs)
    case Nil
    have "read_value m (json_text x @ CHR '']'' # rest) = Some (as_lists x, CHR '']'' # rest)"
      using Cons.prems(1) [of x "CHR '']'' # rest" m] Cons.prems(3) by (simp add: Nil n)
    then show ?thesis by (simp add: Nil n)
  next
    case (Cons y ys)
    let ?more = "comma_sep (map json_text xs) @ CHR '']'' # rest"
    have split: "comma_sep (map json_text (x # xs)) = json_text x @ CHR '','' # comma_sep (map json_text xs)"
      by (simp add: Cons)
    have "read_value m (json_text x @ CHR '','' # ?more) = Some (as_lists x, CHR '','' # ?more)"
      using Cons.prems(1) [of x "CHR '','' # ?more" m] Cons.prems(3) unfolding split by (simp add: n)
    moreover have "read_elements m ?more = Some (map as_lists xs, rest)"
      using Cons.prems(3) unfolding split by (intro Cons.IH Cons.prems(1)) (simp_all add: n Cons)
    ultimately show ?thesis unfolding split by (simp add: n)
  qed
qed simp

definition member_text :: "string \<times> json \<Rightarrow> string" where
  "member_text kv = quote_text (fst kv) @ CHR '':'' # json_text (snd kv)"

lemma json_text_JDict: "json_text (JDict kvs) = CHR ''{'' # comma_sep (map member_text kvs) @ ''}''"
proof -
  have "map (\<lambda>(key, v). quote_text key @ CHR '':'' # json_text v) kvs = map member_text kvs"
    by (simp add: member_text_def split_def)
  then show ?thesis by (simp only: json_text.simps)
qed

lemma read_members_text:
  assumes "\<And>kv n rest. kv \<in> set kvs \<Longrightarrow> stops rest \<Longrightarrow> length (json_text (snd kv)) < n \<Longrightarrow>
      read_value n (json_text (snd kv) @ rest) = Some (as_lists (snd kv), rest)"
    and "kvs \<noteq> []" "Suc (length (comma_sep (map member_text kvs))) < n"
  shows "read_members n (comma_sep (map member_text kvs) @ CHR ''}'' # rest) = Some (map (\<lambda>(key, v). (key, as_lists v)) kvs, rest)"
  using assms
proof (induction kvs arbitrary: n)
  case (Cons kv kvs)
  obtain m where n: "n = Suc m" using Cons.prems(3) by (cases n) auto
  obtain key v where kv: "kv = (key, v)" by (cases kv)
  have key: "read_chars (concat (map escape_char key) @ CHR 0x22 # more) = Some (key, more)" for more by (rule read_quoted)
  show ?case
  proof (cases kvs)
    case Nil
    have "read_value m (json_text v @ CHR ''}'' # rest) = Some (as_lists v, CHR ''}'' # rest)"
      using Cons.prems(1) [of kv "CHR ''}'' # rest" m] Cons.prems(3) by (simp add: Nil n kv member_text_def)
    then show ?thesis by (simp add: Nil n kv member_text_def quote_text_def key)
  next
    case (Cons y ys)
    let ?more = "comma_sep (map member_text kvs) @ CHR ''}'' # rest"
    have split: "comma_sep (map member_text (kv # kvs)) = member_text kv @ CHR '','' # comma_sep (map member_text kvs)"
      by (simp add: Cons)
    have "read_value m (json_text v @ CHR '','' # ?more) = Some (as_lists v, CHR '','' # ?more)"
      using Cons.prems(1) [of kv "CHR '','' # ?more" m] Cons.prems(3) unfolding split by (simp add: n kv member_text_def)
    moreover have "read_members m ?more = Some (map (\<lambda>(key, v). (key, as_lists v)) kvs, rest)"
      using Cons.prems(3) unfolding split by (intro Cons.IH Cons.prems(1)) (simp_all add: n Cons)
    ultimately show ?thesis unfolding split by (simp add: n kv member_text_def quote_text_def key)
  qed
qed simp

lemma read_value_text:
  "readable v \<Longrightarrow> stops rest \<Longrightarrow> length (json_text v) < n \<Longrightarrow> read_value n (json_text v @ rest) = Some (as_lists v, rest)"
proof (induction v arbitrary: n rest)
  case (JInt i)
  then show ?case using read_number_value [OF int_text_number(1,3,4) read_number_text(1)] by simp
next
  case (JFloat s)
  then show ?case using read_number_value [of s "JFloat s" rest n] read_number_text(2) by (auto simp: float_text_def)
next
  case (JStr s)
  then obtain m where "n = Suc m" by (cases n) auto
  then show ?case by (simp add: quote_text_def read_quoted)
next
  case (JList xs)
  then obtain m where n: "n = Suc m" by (cases n) auto
  show ?case
  proof (cases "xs = []")
    case False
    obtain c r where h: "comma_sep (map json_text xs) = c # r" "c \<noteq> CHR '']''"
      using text_start [of "hd xs"] JList.prems(1) False by (cases xs; cases "tl xs") fastforce+
    have "read_elements m (comma_sep (map json_text xs) @ CHR '']'' # rest) = Some (map as_lists xs, rest)"
      using JList False by (intro read_elements_text) (auto simp: n)
    then show ?thesis by (simp add: n h)
  qed (simp add: n)
next
  case (JTuple xs)
  then obtain m where n: "n = Suc m" by (cases n) auto
  show ?case
  proof (cases "xs = []")
    case False
    obtain c r where h: "comma_sep (map json_text xs) = c # r" "c \<noteq> CHR '']''"
      using text_start [of "hd xs"] JTuple.prems(1) False by (cases xs; cases "tl xs") fastforce+
    have "read_elements m (comma_sep (map json_text xs) @ CHR '']'' # rest) = Some (map as_lists xs, rest)"
      using JTuple False by (intro read_elements_text) (auto simp: n)
    then show ?thesis by (simp add: n h)
  qed (simp add: n)
next
  case (JDict kvs)
  then obtain m where n: "n = Suc m" by (cases n) auto
  show ?case
  proof (cases "kvs = []")
    case False
    obtain r where h: "comma_sep (map member_text kvs) = CHR 0x22 # r"
      using False by (cases kvs; cases "tl kvs") (auto simp: member_text_def quote_text_def)
    have "read_members m (comma_sep (map member_text kvs) @ CHR ''}'' # rest) = Some (map (\<lambda>(key, v). (key, as_lists v)) kvs, rest)"
    proof (rule read_members_text [OF _ False])
      fix kv k more
      assume "kv \<in> set kvs" "stops more" "length (json_text (snd kv)) < k"
      then show "read_value k (json_text (snd kv) @ more) = Some (as_lists (snd kv), more)"
        using JDict.IH [of kv "snd kv"] JDict.prems(1) by (cases kv) (auto simp: snds.simps)
    next
      show "Suc (length (comma_sep (map member_text kvs))) < m" using JDict.prems(3) unfolding json_text_JDict by (simp add: n)
    qed
    then show ?thesis unfolding json_text_JDict by (simp add: n h)
  qed (simp add: n)
qed (auto simp: gr0_conv_Suc dest!: less_imp_Suc_add)

lemma sort_keys_readable: "readable (sort_keys v) \<longleftrightarrow> readable v"
proof (induction v)
  case (JDict kvs)
  have "readable (sort_keys (JDict kvs)) \<longleftrightarrow> (\<forall>(key, v) \<in> set kvs. readable (sort_keys v))"
    by auto
  also have "\<dots> \<longleftrightarrow> (\<forall>(key, v) \<in> set kvs. readable v)"
    using JDict.IH by (fastforce simp: snds.simps)
  finally show ?case by simp
qed auto

text \<open>The value a text stands for: tuples as lists, items in key order.\<close>

definition canonical_value :: "json \<Rightarrow> json" where
  "canonical_value v = as_lists (sort_keys v)"

lemma json_loads_dumps:
  assumes "json_dumps v = Some s" "floats_ok v"
  shows "json_loads s = Some (canonical_value v)"
proof -
  from assms have "s = json_text (sort_keys v)" "readable v"
    by (auto simp: json_dumps_def readable_def split: if_splits)
  then have s: "s = json_text (sort_keys v)" "readable (sort_keys v)" by (simp_all only: sort_keys_readable)
  from read_value_text [OF s(2), of "[]" "Suc (length s)"] show ?thesis
    by (simp add: json_loads_def s(1) canonical_value_def)
qed

lemma json_dumps_inj:
  "json_dumps v = Some s \<Longrightarrow> json_dumps w = Some s \<Longrightarrow> floats_ok v \<Longrightarrow> floats_ok w \<Longrightarrow> canonical_value v = canonical_value w"
  by (drule (1) json_loads_dumps, drule (1) json_loads_dumps) simp

text \<open>Conversely the text depends only on that value.\<close>

lemma json_text_as_lists: "json_text (as_lists v) = json_text v"
proof (induction v)
  case (JList xs)
  then have "map (json_text \<circ> as_lists) xs = map json_text xs" by simp
  then show ?case by (simp only: json_text.simps as_lists.simps map_map)
next
  case (JTuple xs)
  then have "map (json_text \<circ> as_lists) xs = map json_text xs" by simp
  then show ?case by (simp only: json_text.simps as_lists.simps map_map)
next
  case (JDict kvs)
  have "map member_text (map (\<lambda>(key, v). (key, as_lists v)) kvs) = map member_text kvs"
    using JDict by (auto simp: member_text_def snds.simps)
  then show ?case by (simp only: json_text_JDict as_lists.simps)
qed simp_all

lemma json_dumps_canonical:
  "json_dumps v = Some s \<Longrightarrow> s = json_text (canonical_value v)"
  by (auto simp: json_dumps_def canonical_value_def json_text_as_lists split: if_splits)

lemma example_round_trip:
  "json_dumps (JDict [(''b'', JTuple [JInt (- 12), JFloat ''1.5e-07'', JNull]), (''a'', JStr [CHR 0x22, CHR 0x0A])])
     = Some ([CHR ''{'', CHR 0x22, CHR ''a'', CHR 0x22, CHR '':'', CHR 0x22, CHR 0x5C, CHR 0x22, CHR 0x5C, CHR ''n'', CHR 0x22, CHR '','',
         CHR 0x22, CHR ''b'', CHR 0x22] @ '':[-12,1.5e-07,null]}'')"
  "json_loads (''[1,-2.5,true,{}]'') = Some (JList [JInt 1, JFloat ''-2.5'', JBool True, JDict []])"
  by code_simp+

end
