(* ===== verification/Worker_Commands.thy ===== *)
theory Worker_Commands
  imports Py_Json
begin

text \<open>
  The durable commands the web process hands to the worker (\<open>worker_command_jobs.py\<close>): their
  canonical request and fingerprint, and the life of a job on the table \<open>worker_command_jobs\<close>, from
  enqueued over claimed under a lease and executing to settled, or uncertain when the worker was lost
  after its side effect may have begun.

  A transaction is one function on the table, so the interleavings of the processes are the
  sequences of such functions, \<open>run_commands\<close>. \<open>sha\<close> is \<open>hashlib.sha256(..).hexdigest()\<close> and \<open>uuid n\<close>
  the hexadecimal digits of the \<open>n\<close>-th \<open>uuid4()\<close> drawn; a fresh row's id is the next one. Times are
  microseconds, and the second of \<open>max(1.0, ..)\<close> is a million of them. Strings are ASCII, so a text has
  as many bytes as characters. A dictionary with keys other than strings is not modelled.
\<close>

section \<open>The canonical request\<close>

definition worker_command_types :: "string list" where
  "worker_command_types =
     [''sync_deepcoin_execution'', ''close_bound_position'', ''recovery_live_submit'', ''process_next_trade_signal'']"
definition max_request_json_bytes :: nat where "max_request_json_bytes = 16384"
definition max_result_json_bytes :: nat where "max_result_json_bytes = 65536"
definition max_idempotency_key_chars :: nat where "max_idempotency_key_chars = 128"
definition max_error_summary_chars :: nat where "max_error_summary_chars = 512"
definition result_schema_version :: nat where "result_schema_version = 1"

definition secret_field_names :: "string list" where
  "secret_field_names =
     [''authorization'', ''header'', ''headers'', ''token'', ''api_key'', ''api_secret'', ''secret'', ''password'', ''passphrase'',
      ''session'', ''session_string'', ''cookie'', ''dc_access_key'', ''dc_access_sign'', ''dc_access_timestamp'', ''dc_access_passphrase'']"

definition normalized_key :: "string \<Rightarrow> string" where
  "normalized_key key = map (\<lambda>c. if c = CHR ''-'' then CHR ''_'' else c) (py_lower (py_strip key))"

definition ends_with :: "string \<Rightarrow> string \<Rightarrow> bool" where
  "ends_with suffix s \<longleftrightarrow> take (length suffix) (rev s) = rev suffix"

definition secret_key :: "string \<Rightarrow> bool" where
  "secret_key key \<longleftrightarrow>
     (let n = normalized_key key in
      n \<in> set secret_field_names \<or> ends_with ''_token'' n \<or> ends_with ''_secret'' n
      \<or> ends_with ''_password'' n \<or> ends_with ''_passphrase'' n)"

fun find_secret_path :: "json \<Rightarrow> string \<Rightarrow> string option"
  and find_secret_items :: "(string \<times> json) list \<Rightarrow> string \<Rightarrow> string option"
  and find_secret_elements :: "json list \<Rightarrow> nat \<Rightarrow> string \<Rightarrow> string option" where
  "find_secret_path (JDict kvs) path = find_secret_items kvs path"
| "find_secret_path (JList xs) path = find_secret_elements xs 0 path"
| "find_secret_path v path = None"
| "find_secret_items [] path = None"
| "find_secret_items ((key, child) # kvs) path =
     (if secret_key key then Some (path @ ''.'' @ key)
      else case find_secret_path child (path @ ''.'' @ key) of
          Some found \<Rightarrow> Some found
        | None \<Rightarrow> find_secret_items kvs path)"
| "find_secret_elements [] index path = None"
| "find_secret_elements (child # xs) index path =
     (case find_secret_path child (path @ ''['' @ nat_digits index @ '']'') of
        Some found \<Rightarrow> Some found
      | None \<Rightarrow> find_secret_elements xs (Suc index) path)"

definition canonical_worker_command_request :: "(string \<Rightarrow> string) \<Rightarrow> string \<Rightarrow> json \<Rightarrow> (string \<times> string) result" where
  "canonical_worker_command_request sha command_type request =
     (if command_type \<notin> set worker_command_types then Inl (WorkerCommandValidationError ''unsupported command_type'')
      else case request of
        JDict kvs \<Rightarrow>
          (case find_secret_path request ''request'' of
             Some path \<Rightarrow> Inl (WorkerCommandValidationError (''request contains forbidden secret field: '' @ path))
           | None \<Rightarrow>
          (case json_dumps request of
             None \<Rightarrow> Inl (WorkerCommandValidationError ''request_json is not canonical JSON'')
           | Some canonical_json \<Rightarrow>
               if max_request_json_bytes < length canonical_json
               then Inl (WorkerCommandValidationError ''request_json exceeds durable size limit'')
               else Inr (canonical_json, sha (command_type @ CHR 0x0A # canonical_json))))
      | _ \<Rightarrow> Inl (WorkerCommandValidationError ''request must be an object''))"

definition canonical_result_json :: "json \<Rightarrow> string result" where
  "canonical_result_json value =
     (case find_secret_path value ''result'' of
        Some path \<Rightarrow> Inl (WorkerCommandValidationError (''result contains forbidden secret field: '' @ path))
      | None \<Rightarrow>
     (case json_dumps value of
        None \<Rightarrow> Inl (WorkerCommandValidationError ''result_json is not canonical JSON'')
      | Some result_json \<Rightarrow>
          if max_result_json_bytes < length result_json
          then Inl (WorkerCommandValidationError ''result_json exceeds durable size limit'')
          else Inr result_json))"

definition validated_idempotency_key :: "pyval \<Rightarrow> string option result" where
  "validated_idempotency_key value = (case value of
       VNone \<Rightarrow> Inr None
     | VStr s \<Rightarrow>
         let normalized = py_strip s in
         if normalized = [] \<or> max_idempotency_key_chars < length normalized
         then Inl (WorkerCommandValidationError ''idempotency_key exceeds durable size limit'')
         else Inr (Some normalized)
     | _ \<Rightarrow> Inl (WorkerCommandValidationError ''idempotency_key must be a string''))"

section \<open>The table\<close>

datatype job_status = Pending | Claimed | Executing | Succeeded | Failed | Uncertain

fun status_text :: "job_status \<Rightarrow> string" where
  "status_text Pending = ''pending''"
| "status_text Claimed = ''claimed''"
| "status_text Executing = ''executing''"
| "status_text Succeeded = ''succeeded''"
| "status_text Failed = ''failed''"
| "status_text Uncertain = ''uncertain''"

record worker_command_job =
  jb_id :: nat
  jb_command_id :: string
  jb_command_type :: string
  jb_request_json :: string
  jb_request_fingerprint :: string
  jb_idempotency_key :: "string option"
  jb_status :: job_status
  jb_claim_token :: "string option"
  jb_claimed_at :: "int option"
  jb_lease_expires_at :: "int option"
  jb_attempt_count :: nat
  jb_side_effect_started_at :: "int option"
  jb_result_schema_version :: nat
  jb_http_status :: "int option"
  jb_result_json :: "string option"
  jb_error_code :: "string option"
  jb_error_summary :: "string option"
  jb_uncertain_at :: "int option"
  jb_created_at :: int
  jb_completed_at :: "int option"

record job_table =
  tb_jobs :: "worker_command_job list"
  tb_uuids :: nat

definition empty_table :: job_table where
  "empty_table = \<lparr>tb_jobs = [], tb_uuids = 0\<rparr>"

definition new_job :: "nat \<Rightarrow> string \<Rightarrow> string \<Rightarrow> string \<Rightarrow> string \<Rightarrow> string option \<Rightarrow> int \<Rightarrow> worker_command_job" where
  "new_job job_id command_id command_type canonical_json fingerprint idempotency_key created_at =
     \<lparr>jb_id = job_id, jb_command_id = command_id, jb_command_type = command_type, jb_request_json = canonical_json,
      jb_request_fingerprint = fingerprint, jb_idempotency_key = idempotency_key, jb_status = Pending,
      jb_claim_token = None, jb_claimed_at = None, jb_lease_expires_at = None, jb_attempt_count = 0,
      jb_side_effect_started_at = None, jb_result_schema_version = result_schema_version, jb_http_status = None,
      jb_result_json = None, jb_error_code = None, jb_error_summary = None, jb_uncertain_at = None,
      jb_created_at = created_at, jb_completed_at = None\<rparr>"

definition next_id :: "job_table \<Rightarrow> nat" where
  "next_id t = Suc (foldr (\<lambda>j m. max (jb_id j) m) (tb_jobs t) 0)"

text \<open>\<open>UPDATE .. WHERE ..\<close> and the number of rows it changed.\<close>

definition update_where ::
    "(worker_command_job \<Rightarrow> bool) \<Rightarrow> (worker_command_job \<Rightarrow> worker_command_job) \<Rightarrow> job_table \<Rightarrow> nat \<times> job_table" where
  "update_where p f t =
     (length (filter p (tb_jobs t)), t\<lparr>tb_jobs := map (\<lambda>j. if p j then f j else j) (tb_jobs t)\<rparr>)"

record worker_command_snapshot =
  sn_job_id :: nat
  sn_command_id :: string
  sn_command_type :: string
  sn_request :: json
  sn_request_fingerprint :: string
  sn_idempotency_key :: "string option"
  sn_status :: string
  sn_attempt_count :: nat
  sn_claim_token :: "string option"
  sn_http_status :: "int option"
  sn_result :: "json option"
  sn_error_code :: "string option"
  sn_error_summary :: "string option"
  sn_result_schema_version :: nat

record worker_command_claim =
  cl_job_id :: nat
  cl_command_id :: string
  cl_command_type :: string
  cl_request :: json
  cl_request_fingerprint :: string
  cl_attempt_count :: nat
  cl_claim_token :: string
  cl_claimed_at :: int
  cl_lease_expires_at :: int

definition loads :: "string \<Rightarrow> json result" where
  "loads s = (case json_loads s of None \<Rightarrow> Inl (ValueError ''json'') | Some v \<Rightarrow> Inr v)"

definition command_snapshot :: "worker_command_job \<Rightarrow> worker_command_snapshot result" where
  "command_snapshot row =
     rbind (loads (jb_request_json row)) (\<lambda>request.
     rbind (case jb_result_json row of None \<Rightarrow> Inr None | Some s \<Rightarrow> rbind (loads s) (\<lambda>v. Inr (Some v))) (\<lambda>result_value.
       Inr \<lparr>sn_job_id = jb_id row, sn_command_id = jb_command_id row, sn_command_type = jb_command_type row,
         sn_request = request, sn_request_fingerprint = jb_request_fingerprint row,
         sn_idempotency_key = jb_idempotency_key row, sn_status = status_text (jb_status row),
         sn_attempt_count = jb_attempt_count row, sn_claim_token = jb_claim_token row,
         sn_http_status = jb_http_status row, sn_result = result_value, sn_error_code = jb_error_code row,
         sn_error_summary = jb_error_summary row, sn_result_schema_version = jb_result_schema_version row\<rparr>))"

definition lease_end :: "int \<Rightarrow> int \<Rightarrow> int" where
  "lease_end now lease_for = now + max 1000000 lease_for"

section \<open>Enqueueing\<close>

text \<open>The row a caller's key already names.\<close>

definition existing_command :: "string \<Rightarrow> string option \<Rightarrow> job_table \<Rightarrow> worker_command_job option" where
  "existing_command command_type idempotency_key t = (case idempotency_key of
       None \<Rightarrow> None
     | Some key \<Rightarrow> find (\<lambda>j. jb_command_type j = command_type \<and> jb_idempotency_key j = Some key) (tb_jobs t))"

definition reattach :: "worker_command_job \<Rightarrow> string \<Rightarrow> worker_command_snapshot result" where
  "reattach existing fingerprint =
     (if jb_request_fingerprint existing \<noteq> fingerprint
      then Inl (WorkerCommandIdempotencyConflict (jb_command_id existing))
      else command_snapshot existing)"

definition add_job :: "worker_command_job \<Rightarrow> nat \<Rightarrow> job_table \<Rightarrow> job_table" where
  "add_job row drawn t = t\<lparr>tb_jobs := tb_jobs t @ [row], tb_uuids := tb_uuids t + drawn\<rparr>"

definition enqueue_worker_command ::
    "(string \<Rightarrow> string) \<Rightarrow> (nat \<Rightarrow> string) \<Rightarrow> string \<Rightarrow> json \<Rightarrow> pyval \<Rightarrow> int \<Rightarrow> job_table
     \<Rightarrow> worker_command_snapshot result \<times> job_table" where
  "enqueue_worker_command sha uuid command_type request idempotency_key now t =
     (case canonical_worker_command_request sha command_type request of
        Inl e \<Rightarrow> (Inl e, t)
      | Inr (canonical_json, fingerprint) \<Rightarrow>
     (case validated_idempotency_key idempotency_key of
        Inl e \<Rightarrow> (Inl e, t)
      | Inr key \<Rightarrow>
     (case existing_command command_type key t of
        Some existing \<Rightarrow> (reattach existing fingerprint, t)
      | None \<Rightarrow>
          let row = new_job (next_id t) (uuid (tb_uuids t)) command_type canonical_json fingerprint key now
          in (case command_snapshot row of
              Inl e \<Rightarrow> (Inl e, t)
            | Inr snapshot \<Rightarrow> (Inr snapshot, add_job row 1 t)))))"

definition begin_shadow_worker_command ::
    "(string \<Rightarrow> string) \<Rightarrow> (nat \<Rightarrow> string) \<Rightarrow> string \<Rightarrow> json \<Rightarrow> pyval \<Rightarrow> int \<Rightarrow> int \<Rightarrow> job_table
     \<Rightarrow> (worker_command_snapshot \<times> worker_command_claim option) result \<times> job_table" where
  "begin_shadow_worker_command sha uuid command_type request idempotency_key now lease_for t =
     (case canonical_worker_command_request sha command_type request of
        Inl e \<Rightarrow> (Inl e, t)
      | Inr (canonical_json, fingerprint) \<Rightarrow>
     (case validated_idempotency_key idempotency_key of
        Inl e \<Rightarrow> (Inl e, t)
      | Inr key \<Rightarrow>
     (case existing_command command_type key t of
        Some existing \<Rightarrow> (rbind (reattach existing fingerprint) (\<lambda>snapshot. Inr (snapshot, None)), t)
      | None \<Rightarrow>
          let token = uuid (tb_uuids t);
              row = (new_job (next_id t) (uuid (Suc (tb_uuids t))) command_type canonical_json fingerprint key now)
                \<lparr>jb_status := Executing, jb_claim_token := Some token, jb_claimed_at := Some now,
                 jb_lease_expires_at := Some (lease_end now lease_for), jb_attempt_count := 1,
                 jb_side_effect_started_at := Some now\<rparr>
          in (case (command_snapshot row, loads canonical_json) of
              (Inr snapshot, Inr request') \<Rightarrow>
                (Inr (snapshot, Some \<lparr>cl_job_id = jb_id row, cl_command_id = jb_command_id row,
                    cl_command_type = command_type, cl_request = request', cl_request_fingerprint = fingerprint,
                    cl_attempt_count = 1, cl_claim_token = token, cl_claimed_at = now,
                    cl_lease_expires_at = lease_end now lease_for\<rparr>),
                 add_job row 2 t)
            | (Inl e, _) \<Rightarrow> (Inl e, t)
            | (_, Inl e) \<Rightarrow> (Inl e, t)))))"

section \<open>Claiming\<close>

definition lease_expired :: "int \<Rightarrow> worker_command_job \<Rightarrow> bool" where
  "lease_expired now j \<longleftrightarrow> (case jb_lease_expires_at j of None \<Rightarrow> False | Some l \<Rightarrow> l \<le> now)"

definition claimable :: "int \<Rightarrow> string list option \<Rightarrow> worker_command_job \<Rightarrow> bool" where
  "claimable now allowed j \<longleftrightarrow>
     (jb_status j = Pending \<or> jb_status j = Claimed \<and> jb_side_effect_started_at j = None \<and> lease_expired now j)
     \<and> (case allowed of None \<Rightarrow> True | Some types \<Rightarrow> jb_command_type j \<in> set types)"

definition still_claimable :: "int \<Rightarrow> worker_command_job \<Rightarrow> worker_command_job \<Rightarrow> bool" where
  "still_claimable now row j \<longleftrightarrow> jb_id j = jb_id row
     \<and> (if jb_status row = Pending then jb_status j = Pending
        else jb_status j = Claimed \<and> jb_claim_token j = jb_claim_token row
          \<and> jb_side_effect_started_at j = None \<and> lease_expired now j)"

definition claimed_job :: "string \<Rightarrow> int \<Rightarrow> int \<Rightarrow> nat \<Rightarrow> worker_command_job \<Rightarrow> worker_command_job" where
  "claimed_job token now lease attempts j =
     j\<lparr>jb_status := Claimed, jb_claim_token := Some token, jb_claimed_at := Some now,
       jb_lease_expires_at := Some lease, jb_attempt_count := attempts\<rparr>"

fun claim_rows ::
    "(nat \<Rightarrow> string) \<Rightarrow> int \<Rightarrow> int \<Rightarrow> worker_command_job list \<Rightarrow> job_table \<Rightarrow> (worker_command_claim list \<times> job_table) result" where
  "claim_rows uuid now lease [] t = Inr ([], t)"
| "claim_rows uuid now lease (row # rows) t =
     (let token = uuid (tb_uuids t);
          attempts = Suc (jb_attempt_count row);
          (updated, t') = update_where (still_claimable now row) (claimed_job token now lease attempts)
            (t\<lparr>tb_uuids := Suc (tb_uuids t)\<rparr>)
      in if updated = 1 then
           rbind (loads (jb_request_json row)) (\<lambda>request.
           rbind (claim_rows uuid now lease rows t') (\<lambda>(claims, t'').
             Inr (\<lparr>cl_job_id = jb_id row, cl_command_id = jb_command_id row, cl_command_type = jb_command_type row,
                    cl_request = request, cl_request_fingerprint = jb_request_fingerprint row,
                    cl_attempt_count = attempts, cl_claim_token = token, cl_claimed_at = now,
                    cl_lease_expires_at = lease\<rparr> # claims, t'')))
         else claim_rows uuid now lease rows t')"

definition oldest_claimable :: "int \<Rightarrow> string list option \<Rightarrow> nat \<Rightarrow> job_table \<Rightarrow> worker_command_job list" where
  "oldest_claimable now allowed limit t =
     take limit (py_sorted (\<lambda>j. (jb_created_at j, jb_id j)) False (filter (claimable now allowed) (tb_jobs t)))"

definition claim_worker_commands ::
    "(nat \<Rightarrow> string) \<Rightarrow> int \<Rightarrow> int \<Rightarrow> int \<Rightarrow> string list option \<Rightarrow> job_table \<Rightarrow> worker_command_claim list result \<times> job_table" where
  "claim_worker_commands uuid now lease_for limit allowed t =
     (let claim_limit = nat (max 0 limit) in
      if claim_limit = 0 \<or> allowed = Some [] then (Inr [], t)
      else (case claim_rows uuid now (lease_end now lease_for) (oldest_claimable now allowed claim_limit t) t of
          Inl e \<Rightarrow> (Inl e, t)
        | Inr (claims, t') \<Rightarrow> (Inr claims, t')))"

section \<open>Executing and settling\<close>

definition get_worker_command :: "string \<Rightarrow> job_table \<Rightarrow> worker_command_snapshot option result" where
  "get_worker_command command_id t = (case find (\<lambda>j. jb_command_id j = command_id) (tb_jobs t) of
       None \<Rightarrow> Inr None
     | Some row \<Rightarrow> rbind (command_snapshot row) (\<lambda>s. Inr (Some s)))"

definition mark_worker_command_executing :: "worker_command_claim \<Rightarrow> int \<Rightarrow> job_table \<Rightarrow> bool \<times> job_table" where
  "mark_worker_command_executing claim now t =
     (let (updated, t') = update_where
            (\<lambda>j. jb_id j = cl_job_id claim \<and> jb_status j = Claimed \<and> jb_claim_token j = Some (cl_claim_token claim)
               \<and> jb_side_effect_started_at j = None)
            (\<lambda>j. j\<lparr>jb_status := Executing, jb_side_effect_started_at := Some now\<rparr>) t
      in (updated = 1, t'))"

definition settled_job ::
    "job_status \<Rightarrow> int \<Rightarrow> string \<Rightarrow> string option \<Rightarrow> string option \<Rightarrow> int \<Rightarrow> worker_command_job \<Rightarrow> worker_command_job" where
  "settled_job status http_status result_json error_code error_summary now j =
     j\<lparr>jb_status := status, jb_claim_token := None, jb_claimed_at := None, jb_lease_expires_at := None,
       jb_http_status := Some http_status, jb_result_json := Some result_json, jb_error_code := error_code,
       jb_error_summary := error_summary, jb_completed_at := Some now\<rparr>"

definition settle_worker_command ::
    "worker_command_claim \<Rightarrow> job_status \<Rightarrow> json \<Rightarrow> int \<Rightarrow> string option \<Rightarrow> string option \<Rightarrow> int \<Rightarrow> job_table
     \<Rightarrow> bool result \<times> job_table" where
  "settle_worker_command claim status result_value http_status error_code error_summary now t =
     (case canonical_result_json result_value of
        Inl e \<Rightarrow> (Inl e, t)
      | Inr result_json \<Rightarrow>
          if http_status < 100 \<or> 599 < http_status
          then (Inl (WorkerCommandValidationError ''http_status must be 100..599''), t)
          else
            let (updated, t') = update_where
                  (\<lambda>j. jb_id j = cl_job_id claim \<and> jb_status j = Executing \<and> jb_claim_token j = Some (cl_claim_token claim))
                  (settled_job status http_status result_json (map_option (take 128) error_code)
                    (map_option (take max_error_summary_chars) error_summary) now) t
            in (Inr (updated = 1), t'))"

definition settle_worker_command_succeeded ::
    "worker_command_claim \<Rightarrow> json \<Rightarrow> int \<Rightarrow> int \<Rightarrow> job_table \<Rightarrow> bool result \<times> job_table" where
  "settle_worker_command_succeeded claim result_value http_status now t =
     settle_worker_command claim Succeeded result_value http_status None None now t"

definition settle_worker_command_failed ::
    "worker_command_claim \<Rightarrow> json \<Rightarrow> int \<Rightarrow> string \<Rightarrow> string \<Rightarrow> int \<Rightarrow> job_table \<Rightarrow> bool result \<times> job_table" where
  "settle_worker_command_failed claim result_value http_status error_code error_summary now t =
     settle_worker_command claim Failed result_value http_status (Some error_code) (Some error_summary) now t"

definition uncertain_job :: "int \<Rightarrow> worker_command_job \<Rightarrow> worker_command_job" where
  "uncertain_job now j =
     j\<lparr>jb_status := Uncertain, jb_claim_token := None, jb_claimed_at := None, jb_lease_expires_at := None,
       jb_error_code := Some ''worker_lost_after_side_effect_boundary'',
       jb_error_summary := Some ''worker lease expired after durable execution boundary'',
       jb_uncertain_at := Some now\<rparr>"

definition mark_expired_executing_commands_uncertain :: "int \<Rightarrow> job_table \<Rightarrow> nat \<times> job_table" where
  "mark_expired_executing_commands_uncertain now t =
     update_where (\<lambda>j. jb_status j = Executing \<and> jb_side_effect_started_at j \<noteq> None \<and> lease_expired now j)
       (uncertain_job now) t"

section \<open>Sequences of transactions\<close>

datatype command_event =
    Begin_shadow string json pyval int int
  | Enqueue string json pyval int
  | Claim_batch int int int "string list option"
  | Mark_executing worker_command_claim int
  | Settle_succeeded worker_command_claim json int int
  | Settle_failed worker_command_claim json int string string int
  | Expire int

datatype command_outcome =
    Admission worker_command_snapshot "worker_command_claim option"
  | Enqueued worker_command_snapshot
  | Claims "worker_command_claim list"
  | Updated bool
  | Expired nat
  | Raised py_exc

definition outcome_of :: "('a \<Rightarrow> command_outcome) \<Rightarrow> 'a result \<times> job_table \<Rightarrow> command_outcome \<times> job_table" where
  "outcome_of f p = (case fst p of Inl e \<Rightarrow> (Raised e, snd p) | Inr x \<Rightarrow> (f x, snd p))"

fun command_step :: "(string \<Rightarrow> string) \<Rightarrow> (nat \<Rightarrow> string) \<Rightarrow> command_event \<Rightarrow> job_table \<Rightarrow> command_outcome \<times> job_table" where
  "command_step sha uuid (Begin_shadow ctype request key now lease) t =
     outcome_of (\<lambda>(s, c). Admission s c) (begin_shadow_worker_command sha uuid ctype request key now lease t)"
| "command_step sha uuid (Enqueue ctype request key now) t =
     outcome_of Enqueued (enqueue_worker_command sha uuid ctype request key now t)"
| "command_step sha uuid (Claim_batch now lease limit allowed) t =
     outcome_of Claims (claim_worker_commands uuid now lease limit allowed t)"
| "command_step sha uuid (Mark_executing claim now) t =
     (let (b, t') = mark_worker_command_executing claim now t in (Updated b, t'))"
| "command_step sha uuid (Settle_succeeded claim value http now) t =
     outcome_of Updated (settle_worker_command_succeeded claim value http now t)"
| "command_step sha uuid (Settle_failed claim value http code summary now) t =
     outcome_of Updated (settle_worker_command_failed claim value http code summary now t)"
| "command_step sha uuid (Expire now) t =
     (let (n, t') = mark_expired_executing_commands_uncertain now t in (Expired n, t'))"

fun run_commands ::
    "(string \<Rightarrow> string) \<Rightarrow> (nat \<Rightarrow> string) \<Rightarrow> command_event list \<Rightarrow> job_table
     \<Rightarrow> (command_event \<times> command_outcome) list \<times> job_table" where
  "run_commands sha uuid [] t = ([], t)"
| "run_commands sha uuid (ev # evs) t =
     (let (out, t') = command_step sha uuid ev t; (outs, t'') = run_commands sha uuid evs t' in ((ev, out) # outs, t''))"

section \<open>Reachable tables\<close>

text \<open>What a row carries in each state.\<close>

definition token_drawn :: "(nat \<Rightarrow> string) \<Rightarrow> nat \<Rightarrow> worker_command_job \<Rightarrow> bool" where
  "token_drawn uuid n j \<longleftrightarrow> (\<exists>m < n. jb_claim_token j = Some (uuid m))"

definition unclaimed :: "worker_command_job \<Rightarrow> bool" where
  "unclaimed j \<longleftrightarrow> jb_claim_token j = None \<and> jb_claimed_at j = None \<and> jb_lease_expires_at j = None"

definition job_ok :: "(nat \<Rightarrow> string) \<Rightarrow> nat \<Rightarrow> worker_command_job \<Rightarrow> bool" where
  "job_ok uuid n j \<longleftrightarrow>
     jb_command_type j \<in> set worker_command_types \<and> (\<exists>m < n. jb_command_id j = uuid m)
     \<and> (case jb_status j of
          Pending \<Rightarrow> unclaimed j \<and> jb_side_effect_started_at j = None \<and> jb_attempt_count j = 0
        | Claimed \<Rightarrow> token_drawn uuid n j \<and> jb_lease_expires_at j \<noteq> None \<and> jb_side_effect_started_at j = None
            \<and> 0 < jb_attempt_count j
        | Executing \<Rightarrow> token_drawn uuid n j \<and> jb_lease_expires_at j \<noteq> None \<and> jb_side_effect_started_at j \<noteq> None
            \<and> 0 < jb_attempt_count j
        | Uncertain \<Rightarrow> unclaimed j \<and> jb_side_effect_started_at j \<noteq> None \<and> jb_uncertain_at j \<noteq> None
        | _ \<Rightarrow> unclaimed j \<and> jb_side_effect_started_at j \<noteq> None \<and> jb_completed_at j \<noteq> None \<and> jb_result_json j \<noteq> None
            \<and> (\<exists>h. jb_http_status j = Some h \<and> 100 \<le> h \<and> h \<le> 599))"

text \<open>Rows are told apart by their id, and by each of the names that must be unique.\<close>

definition identifies :: "(worker_command_job \<Rightarrow> 'a option) \<Rightarrow> worker_command_job list \<Rightarrow> bool" where
  "identifies name jobs \<longleftrightarrow>
     (\<forall>j \<in> set jobs. \<forall>j' \<in> set jobs. \<forall>x. name j = Some x \<longrightarrow> name j' = Some x \<longrightarrow> jb_id j = jb_id j')"

lemma identifiesI:
  "(\<And>j j' x. j \<in> set jobs \<Longrightarrow> j' \<in> set jobs \<Longrightarrow> name j = Some x \<Longrightarrow> name j' = Some x \<Longrightarrow> jb_id j = jb_id j')
   \<Longrightarrow> identifies name jobs"
  unfolding identifies_def by blast

lemma identifiesD:
  "identifies name jobs \<Longrightarrow> j \<in> set jobs \<Longrightarrow> j' \<in> set jobs \<Longrightarrow> name j = Some x \<Longrightarrow> name j' = Some x \<Longrightarrow> jb_id j = jb_id j'"
  unfolding identifies_def by blast

definition idempotency_name :: "worker_command_job \<Rightarrow> (string \<times> string) option" where
  "idempotency_name j = map_option (Pair (jb_command_type j)) (jb_idempotency_key j)"

definition table_ok :: "(nat \<Rightarrow> string) \<Rightarrow> job_table \<Rightarrow> bool" where
  "table_ok uuid t \<longleftrightarrow> distinct (map jb_id (tb_jobs t)) \<and> list_all (job_ok uuid (tb_uuids t)) (tb_jobs t)
     \<and> identifies (\<lambda>j. Some (jb_command_id j)) (tb_jobs t) \<and> identifies jb_claim_token (tb_jobs t)
     \<and> identifies idempotency_name (tb_jobs t)"

lemma job_ok_mono: "job_ok uuid n j \<Longrightarrow> n \<le> n' \<Longrightarrow> job_ok uuid n' j"
  by (cases "jb_status j") (auto simp: job_ok_def token_drawn_def intro: less_le_trans)

lemma next_id_fresh: "j \<in> set (tb_jobs t) \<Longrightarrow> jb_id j < next_id t"
proof -
  have "j \<in> set js \<Longrightarrow> jb_id j \<le> foldr (\<lambda>j m. max (jb_id j) m) js 0" for js
    by (induction js) (auto simp: max_def)
  then show "j \<in> set (tb_jobs t) \<Longrightarrow> ?thesis" by (simp add: next_id_def less_Suc_eq_le)
qed

text \<open>A row's name never changes; its state moves as \<open>same_name\<close> with a new state.\<close>

definition same_name :: "worker_command_job \<Rightarrow> worker_command_job \<Rightarrow> bool" where
  "same_name j j' \<longleftrightarrow> jb_id j' = jb_id j \<and> jb_command_id j' = jb_command_id j \<and> jb_command_type j' = jb_command_type j
     \<and> jb_request_json j' = jb_request_json j \<and> jb_request_fingerprint j' = jb_request_fingerprint j
     \<and> jb_idempotency_key j' = jb_idempotency_key j \<and> jb_created_at j' = jb_created_at j"

lemma same_name_refl [simp]: "same_name j j"
  by (simp add: same_name_def)

lemma same_name_updates [simp]:
  "same_name j (claimed_job token now lease attempts j)" "same_name j (uncertain_job now j)"
  "same_name j (settled_job st http rj ec es now j)"
  "same_name j (j\<lparr>jb_status := st, jb_side_effect_started_at := side\<rparr>)"
  by (simp_all add: same_name_def claimed_job_def uncertain_job_def settled_job_def)

lemma same_name_id: "same_name j j' \<Longrightarrow> jb_id j' = jb_id j"
  by (simp add: same_name_def)

lemma identifies_map:
  assumes "identifies name js" "\<And>j. j \<in> set js \<Longrightarrow> name (g j) = name j \<and> jb_id (g j) = jb_id j"
  shows "identifies name (map g js)"
proof (rule identifiesI)
  fix j j' x
  assume "j \<in> set (map g js)" "j' \<in> set (map g js)" and n: "name j = Some x" "name j' = Some x"
  then obtain i i' where i: "j = g i" "i \<in> set js" "j' = g i'" "i' \<in> set js" by auto
  with n assms(2) [OF i(2)] assms(2) [OF i(4)] identifiesD [OF assms(1) i(2,4)] show "jb_id j = jb_id j'" by simp
qed

text \<open>Rows changed in place keep the table good when each is good and no token is given twice.\<close>

lemma table_ok_map:
  assumes "table_ok uuid t" "\<And>j. j \<in> set (tb_jobs t) \<Longrightarrow> same_name j (g j) \<and> job_ok uuid n (g j)"
    and "\<And>j j' x. j \<in> set (tb_jobs t) \<Longrightarrow> j' \<in> set (tb_jobs t) \<Longrightarrow> jb_claim_token (g j) = Some x \<Longrightarrow>
      jb_claim_token (g j') = Some x \<Longrightarrow> jb_id j = jb_id j'"
  shows "table_ok uuid \<lparr>tb_jobs = map g (tb_jobs t), tb_uuids = n\<rparr>"
proof -
  have "map jb_id (map g (tb_jobs t)) = map jb_id (tb_jobs t)" using assms(2) by (simp add: same_name_def)
  then have "distinct (map jb_id (map g (tb_jobs t)))" using assms(1) by (simp only: table_ok_def)
  moreover have "list_all (job_ok uuid n) (map g (tb_jobs t))" using assms(2) by (simp add: list_all_iff)
  moreover have "identifies (\<lambda>j. Some (jb_command_id j)) (map g (tb_jobs t))" "identifies idempotency_name (map g (tb_jobs t))"
  proof -
    have n: "jb_command_id (g j) = jb_command_id j \<and> idempotency_name (g j) = idempotency_name j \<and> jb_id (g j) = jb_id j"
      if "j \<in> set (tb_jobs t)" for j using assms(2) [OF that] by (simp add: same_name_def idempotency_name_def)
    show "identifies (\<lambda>j. Some (jb_command_id j)) (map g (tb_jobs t))"
      by (rule identifies_map) (use assms(1) in \<open>simp add: table_ok_def\<close>, use n in simp)
    show "identifies idempotency_name (map g (tb_jobs t))"
      by (rule identifies_map) (use assms(1) in \<open>simp add: table_ok_def\<close>, use n in simp)
  qed
  moreover have "identifies jb_claim_token (map g (tb_jobs t))"
  proof (rule identifiesI)
    fix j j' x
    assume "j \<in> set (map g (tb_jobs t))" "j' \<in> set (map g (tb_jobs t))" and n: "jb_claim_token j = Some x" "jb_claim_token j' = Some x"
    then obtain i i' where i: "j = g i" "i \<in> set (tb_jobs t)" "j' = g i'" "i' \<in> set (tb_jobs t)" by auto
    with n assms(2) [OF i(2)] assms(2) [OF i(4)] assms(3) [OF i(2,4)] show "jb_id j = jb_id j'" by (simp add: same_name_def)
  qed
  ultimately show ?thesis by (simp only: table_ok_def job_table.simps)
qed

lemma table_ok_update:
  assumes "table_ok uuid t" "\<And>j. j \<in> set (tb_jobs t) \<Longrightarrow> p j \<Longrightarrow> same_name j (f j) \<and> job_ok uuid (tb_uuids t) (f j)
      \<and> (jb_claim_token (f j) = jb_claim_token j \<or> jb_claim_token (f j) = None)"
  shows "table_ok uuid (snd (update_where p f t))"
proof -
  let ?g = "\<lambda>j. if p j then f j else j"
  have "table_ok uuid \<lparr>tb_jobs = map ?g (tb_jobs t), tb_uuids = tb_uuids t\<rparr>"
  proof (rule table_ok_map [OF assms(1)], goal_cases)
    case (1 j)
    then show ?case using assms by (auto simp: table_ok_def list_all_iff)
  next
    case (2 j j' x)
    have tok: "jb_claim_token j = Some x" if "j \<in> set (tb_jobs t)" "jb_claim_token (?g j) = Some x" for j
      using assms(2) [OF that(1)] that(2) by (cases "p j") auto
    from assms(1) have "identifies jb_claim_token (tb_jobs t)" by (simp add: table_ok_def)
    with 2(1,2) tok [OF 2(1,3)] tok [OF 2(2,4)] show ?case by (auto intro: identifiesD)
  qed
  moreover have "snd (update_where p f t) = \<lparr>tb_jobs = map ?g (tb_jobs t), tb_uuids = tb_uuids t\<rparr>"
    by (cases t) (simp add: update_where_def)
  ultimately show ?thesis by simp
qed

lemma table_ok_empty: "table_ok uuid empty_table"
  by (simp add: table_ok_def empty_table_def identifies_def)

lemma table_ok_add:
  assumes "table_ok uuid t" "jb_id row = next_id t" "job_ok uuid (tb_uuids t + drawn) row"
    and "\<And>j. j \<in> set (tb_jobs t) \<Longrightarrow> jb_command_id j \<noteq> jb_command_id row"
    and "\<And>j x. j \<in> set (tb_jobs t) \<Longrightarrow> jb_claim_token row = Some x \<Longrightarrow> jb_claim_token j \<noteq> Some x"
    and "\<And>j x. j \<in> set (tb_jobs t) \<Longrightarrow> idempotency_name row = Some x \<Longrightarrow> idempotency_name j \<noteq> Some x"
  shows "table_ok uuid (add_job row drawn t)"
proof -
  have named: "identifies name (tb_jobs t @ [row])"
    if "identifies name (tb_jobs t)" "\<And>j x. j \<in> set (tb_jobs t) \<Longrightarrow> name row = Some x \<Longrightarrow> name j \<noteq> Some x"
    for name :: "worker_command_job \<Rightarrow> 'b option"
    using that by (intro identifiesI) (auto dest: identifiesD)
  have "jb_id row \<notin> jb_id ` set (tb_jobs t)" using next_id_fresh [of _ t] assms(2) by force
  moreover have "list_all (job_ok uuid (tb_uuids t + drawn)) (tb_jobs t)"
    using assms(1) job_ok_mono [of uuid "tb_uuids t" _ "tb_uuids t + drawn"] by (auto simp: table_ok_def list_all_iff)
  moreover have "identifies (\<lambda>j. Some (jb_command_id j)) (tb_jobs t @ [row])"
    by (rule named) (use assms(1,4) in \<open>auto simp: table_ok_def\<close>)
  moreover have "identifies jb_claim_token (tb_jobs t @ [row])"
    by (rule named) (use assms(1) in \<open>simp add: table_ok_def\<close>, rule assms(5))
  moreover have "identifies idempotency_name (tb_jobs t @ [row])"
    by (rule named) (use assms(1) in \<open>simp add: table_ok_def\<close>, rule assms(6))
  ultimately show ?thesis using assms(1,3) by (simp add: table_ok_def add_job_def)
qed

lemma existing_command_None:
  assumes "existing_command ctype key t = None" "j \<in> set (tb_jobs t)" "jb_command_type row = ctype" "jb_idempotency_key row = key"
    and "idempotency_name row = Some x"
  shows "idempotency_name j \<noteq> Some x"
  using assms by (cases key) (auto simp: existing_command_def idempotency_name_def find_None_iff)

lemma existing_command_Some:
  assumes "existing_command ctype key t = Some j"
  shows "j \<in> set (tb_jobs t)" "jb_command_type j = ctype" "\<exists>k. key = Some k \<and> jb_idempotency_key j = Some k"
  using assms by (auto simp: existing_command_def find_Some_iff split: option.splits)

lemma job_drawn:
  assumes "table_ok uuid t" "j \<in> set (tb_jobs t)" "inj uuid" "tb_uuids t \<le> m"
  shows "jb_command_id j \<noteq> uuid m" "jb_claim_token j \<noteq> Some (uuid m)"
proof -
  from assms(1,2) have ok: "job_ok uuid (tb_uuids t) j" by (auto simp: table_ok_def list_all_iff)
  then show "jb_command_id j \<noteq> uuid m" using assms(3,4) by (auto simp: job_ok_def inj_eq)
  from ok show "jb_claim_token j \<noteq> Some (uuid m)"
    using assms(3,4) by (cases "jb_status j") (auto simp: job_ok_def token_drawn_def unclaimed_def inj_eq)
qed

section \<open>Enqueueing on a good table\<close>

text \<open>What enqueueing and the shadow admission do to the table: nothing, or one new row.\<close>

definition fresh_row :: "(nat \<Rightarrow> string) \<Rightarrow> string \<Rightarrow> nat \<Rightarrow> job_table \<Rightarrow> worker_command_job \<Rightarrow> bool" where
  "fresh_row uuid ctype drawn t row \<longleftrightarrow> jb_id row = next_id t \<and> jb_command_type row = ctype
     \<and> jb_command_id row = uuid (tb_uuids t + drawn - 1)
     \<and> existing_command ctype (jb_idempotency_key row) t = None
     \<and> (drawn = 1 \<and> jb_status row = Pending \<and> unclaimed row \<and> jb_side_effect_started_at row = None \<and> jb_attempt_count row = 0
       \<or> drawn = 2 \<and> jb_status row = Executing \<and> jb_claim_token row = Some (uuid (tb_uuids t))
         \<and> jb_lease_expires_at row \<noteq> None \<and> jb_side_effect_started_at row \<noteq> None \<and> jb_attempt_count row = 1)"

lemma fresh_row_ok:
  assumes "table_ok uuid t" "inj uuid" "fresh_row uuid ctype drawn t row" "ctype \<in> set worker_command_types"
  shows "table_ok uuid (add_job row drawn t)"
proof (rule table_ok_add [OF assms(1)])
  from assms(3) have f: "jb_id row = next_id t" "jb_command_type row = ctype" "jb_command_id row = uuid (tb_uuids t + drawn - 1)"
    "existing_command ctype (jb_idempotency_key row) t = None" "drawn = 1 \<or> drawn = 2" by (auto simp: fresh_row_def)
  then show "jb_id row = next_id t" by simp
  have "token_drawn uuid (tb_uuids t + drawn) row" if "jb_claim_token row = Some (uuid (tb_uuids t))"
    using that f(5) unfolding token_drawn_def by (intro exI [of _ "tb_uuids t"]) auto
  then show "job_ok uuid (tb_uuids t + drawn) row"
    using assms(3,4) by (auto simp: fresh_row_def job_ok_def)
  fix j assume j: "j \<in> set (tb_jobs t)"
  show "jb_command_id j \<noteq> jb_command_id row" using job_drawn(1) [OF assms(1) j assms(2), of "tb_uuids t + drawn - 1"] f(3,5) by auto
  fix x
  show "idempotency_name j \<noteq> Some x" if "idempotency_name row = Some x"
    for x using existing_command_None [OF f(4) j f(2) refl that] .
  show "jb_claim_token j \<noteq> Some x" if "jb_claim_token row = Some x" for x
    using assms(3) that job_drawn(2) [OF assms(1) j assms(2)] by (auto simp: fresh_row_def unclaimed_def)
qed

lemma canonical_request_type:
  "canonical_worker_command_request sha ctype request = Inr y \<Longrightarrow> ctype \<in> set worker_command_types"
  by (auto simp: canonical_worker_command_request_def split: if_splits)

lemma enqueue_effect:
  assumes "enqueue_worker_command sha uuid ctype request key now t = (r, t')"
  obtains (same) "t' = t" | (added) row snapshot where "r = Inr snapshot" "t' = add_job row 1 t" "fresh_row uuid ctype 1 t row"
    "ctype \<in> set worker_command_types" "command_snapshot row = Inr snapshot"
proof -
  show thesis
  proof (cases "canonical_worker_command_request sha ctype request")
    case (Inl e)
    then show ?thesis using assms same by (simp add: enqueue_worker_command_def)
  next
    case c: (Inr cf)
    obtain cj fp where cf: "cf = (cj, fp)" by (cases cf)
    show ?thesis
    proof (cases "validated_idempotency_key key")
      case (Inl e)
      then show ?thesis using assms same c cf by (simp add: enqueue_worker_command_def)
    next
      case k: (Inr nk)
      let ?row = "new_job (next_id t) (uuid (tb_uuids t)) ctype cj fp nk now"
      show ?thesis
      proof (cases "existing_command ctype nk t")
        case (Some j)
        then show ?thesis using assms same c cf k by (simp add: enqueue_worker_command_def)
      next
        case None
        show ?thesis
        proof (cases "command_snapshot ?row")
          case (Inl e)
          then show ?thesis using assms same c cf k None by (simp add: enqueue_worker_command_def Let_def)
        next
          case (Inr s)
          have "fresh_row uuid ctype 1 t ?row" using None by (simp add: fresh_row_def new_job_def unclaimed_def)
          with added [of s ?row] Inr assms c cf k None canonical_request_type [OF c]
          show ?thesis by (simp add: enqueue_worker_command_def Let_def)
        qed
      qed
    qed
  qed
qed

lemma shadow_effect:
  assumes "begin_shadow_worker_command sha uuid ctype request key now lease t = (r, t')"
  obtains (same) "t' = t" "\<And>s c. r = Inr (s, c) \<Longrightarrow> c = None"
    | (added) row snapshot claim where "r = Inr (snapshot, Some claim)" "t' = add_job row 2 t" "fresh_row uuid ctype 2 t row"
    "ctype \<in> set worker_command_types" "cl_job_id claim = next_id t" "cl_claim_token claim = uuid (tb_uuids t)"
proof -
  show thesis
  proof (cases "canonical_worker_command_request sha ctype request")
    case (Inl e)
    then show ?thesis using assms by (intro same) (auto simp: begin_shadow_worker_command_def)
  next
    case c: (Inr cf)
    obtain cj fp where cf: "cf = (cj, fp)" by (cases cf)
    show ?thesis
    proof (cases "validated_idempotency_key key")
      case (Inl e)
      then show ?thesis using assms c cf by (intro same) (auto simp: begin_shadow_worker_command_def)
    next
      case k: (Inr nk)
      let ?row = "(new_job (next_id t) (uuid (Suc (tb_uuids t))) ctype cj fp nk now)
                \<lparr>jb_status := Executing, jb_claim_token := Some (uuid (tb_uuids t)), jb_claimed_at := Some now,
                 jb_lease_expires_at := Some (lease_end now lease), jb_attempt_count := 1,
                 jb_side_effect_started_at := Some now\<rparr>"
      show ?thesis
      proof (cases "existing_command ctype nk t")
        case (Some j)
        then show ?thesis using assms c cf k by (intro same) (auto simp: begin_shadow_worker_command_def rbind_Inr_iff)
      next
        case None
        show ?thesis
        proof (cases "command_snapshot ?row")
          case (Inl e)
          then show ?thesis using assms c cf k None by (intro same) (auto simp: begin_shadow_worker_command_def Let_def)
        next
          case s: (Inr s)
          show ?thesis
          proof (cases "loads cj")
            case (Inl e)
            then show ?thesis using assms c cf k None s by (intro same) (auto simp: begin_shadow_worker_command_def Let_def)
          next
            case (Inr v)
            have "fresh_row uuid ctype 2 t ?row" using None by (simp add: fresh_row_def new_job_def)
            with Inr s assms c cf k None canonical_request_type [OF c] show ?thesis
              by (intro added [of s _ ?row]) (auto simp: begin_shadow_worker_command_def Let_def new_job_def)
          qed
        qed
      qed
    qed
  qed
qed

section \<open>Claiming on a good table\<close>

lemma update_count_le_1:
  assumes "distinct (map jb_id js)" "\<And>j. j \<in> set js \<Longrightarrow> p j \<Longrightarrow> jb_id j = k"
  shows "length (filter p js) \<le> 1"
proof -
  have "distinct (map jb_id (filter p js))" using assms(1) by (simp add: distinct_map_filter)
  then have "length (filter p js) = card (jb_id ` set (filter p js))" by (metis distinct_card length_map list.set_map)
  also have "\<dots> \<le> card {k}" using assms(2) by (intro card_mono) auto
  finally show ?thesis by simp
qed

lemma same_id_same_row: "distinct (map jb_id js) \<Longrightarrow> j \<in> set js \<Longrightarrow> j' \<in> set js \<Longrightarrow> jb_id j = jb_id j' \<Longrightarrow> j = j'"
  by (auto simp: distinct_map inj_on_def)

lemma update_count_1:
  assumes "distinct (map jb_id js)" "j \<in> set js" "p j" "\<And>j'. j' \<in> set js \<Longrightarrow> p j' \<Longrightarrow> jb_id j' = jb_id j"
  shows "length (filter p js) = 1"
proof -
  have "filter p js \<noteq> []" using assms(2,3) by (auto simp: filter_empty_conv)
  with update_count_le_1 [OF assms(1), of p "jb_id j"] assms(4) show ?thesis by (cases "filter p js") auto
qed

text \<open>The table after a batch: the rows of the batch are claimed with consecutive tokens.\<close>

fun claimed_in :: "(nat \<Rightarrow> string) \<Rightarrow> nat \<Rightarrow> int \<Rightarrow> int \<Rightarrow> worker_command_job list \<Rightarrow> worker_command_job \<Rightarrow> worker_command_job" where
  "claimed_in uuid n now lease [] j = j"
| "claimed_in uuid n now lease (row # rows) j =
     (if jb_id j = jb_id row then claimed_job (uuid n) now lease (Suc (jb_attempt_count row)) j
      else claimed_in uuid (Suc n) now lease rows j)"

lemma claimed_in_other: "jb_id j \<notin> jb_id ` set rows \<Longrightarrow> claimed_in uuid n now lease rows j = j"
  by (induction rows arbitrary: n) auto

definition claim_of :: "nat \<Rightarrow> (nat \<Rightarrow> string) \<Rightarrow> worker_command_job \<Rightarrow> worker_command_claim \<Rightarrow> bool" where
  "claim_of n uuid row c \<longleftrightarrow> cl_job_id c = jb_id row \<and> cl_command_id c = jb_command_id row \<and> cl_command_type c = jb_command_type row
     \<and> cl_attempt_count c = Suc (jb_attempt_count row) \<and> cl_claim_token c = uuid n
     \<and> loads (jb_request_json row) = Inr (cl_request c) \<and> cl_request_fingerprint c = jb_request_fingerprint row"

fun claims_of :: "nat \<Rightarrow> (nat \<Rightarrow> string) \<Rightarrow> worker_command_job list \<Rightarrow> worker_command_claim list \<Rightarrow> bool" where
  "claims_of n uuid [] cs \<longleftrightarrow> cs = []"
| "claims_of n uuid (row # rows) cs \<longleftrightarrow> (\<exists>c cs'. cs = c # cs' \<and> claim_of n uuid row c \<and> claims_of (Suc n) uuid rows cs')"

lemma claim_rows_effect:
  assumes "claim_rows uuid now lease rows t = Inr (cs, t')"
    and "distinct (map jb_id (tb_jobs t))" "distinct (map jb_id rows)" "set rows \<subseteq> set (tb_jobs t)"
    and "\<And>row. row \<in> set rows \<Longrightarrow> claimable now allowed row"
  shows "tb_jobs t' = map (claimed_in uuid (tb_uuids t) now lease rows) (tb_jobs t)
    \<and> tb_uuids t' = tb_uuids t + length rows \<and> claims_of (tb_uuids t) uuid rows cs"
  using assms
proof (induction rows arbitrary: t cs)
  case Nil
  then show ?case by (simp add: map_idI)
next
  case (Cons row rows)
  let ?p = "still_claimable now row" and ?f = "claimed_job (uuid (tb_uuids t)) now lease (Suc (jb_attempt_count row))"
  let ?t = "\<lparr>tb_jobs = map (\<lambda>j. if ?p j then ?f j else j) (tb_jobs t), tb_uuids = Suc (tb_uuids t)\<rparr>"
  have row: "row \<in> set (tb_jobs t)" using Cons.prems(4) by simp
  have "?p row" using Cons.prems(5) [of row] by (auto simp: still_claimable_def claimable_def)
  with row have "length (filter ?p (tb_jobs t)) = 1"
    by (intro update_count_1 [OF Cons.prems(2)]) (auto simp: still_claimable_def)
  then have u: "update_where ?p ?f (t\<lparr>tb_uuids := Suc (tb_uuids t)\<rparr>) = (1, ?t)"
    by (cases t) (simp add: update_where_def)
  have p: "?p j \<longleftrightarrow> jb_id j = jb_id row" if "j \<in> set (tb_jobs t)" for j
    using same_id_same_row [OF Cons.prems(2) that row] \<open>?p row\<close> by (auto simp: still_claimable_def)
  from Cons.prems(1) obtain request cs' where request: "loads (jb_request_json row) = Inr request"
    and rest: "claim_rows uuid now lease rows ?t = Inr (cs', t')"
    and c': "cs = \<lparr>cl_job_id = jb_id row, cl_command_id = jb_command_id row, cl_command_type = jb_command_type row,
           cl_request = request, cl_request_fingerprint = jb_request_fingerprint row,
           cl_attempt_count = Suc (jb_attempt_count row), cl_claim_token = uuid (tb_uuids t), cl_claimed_at = now,
           cl_lease_expires_at = lease\<rparr> # cs'"
    unfolding claim_rows.simps Let_def u prod.case if_P [OF refl] by (auto simp: rbind_Inr_iff)
  obtain c where c: "cs = c # cs'" "claim_of (tb_uuids t) uuid row c"
    by (rule that [OF c']) (simp add: claim_of_def request)
  have ids: "map jb_id (tb_jobs ?t) = map jb_id (tb_jobs t)" by (simp add: claimed_job_def)
  have "tb_jobs t' = map (claimed_in uuid (Suc (tb_uuids t)) now lease rows) (tb_jobs ?t)
      \<and> tb_uuids t' = Suc (tb_uuids t) + length rows \<and> claims_of (Suc (tb_uuids t)) uuid rows cs'"
  proof -
    have "set rows \<subseteq> set (tb_jobs ?t)"
    proof
      fix r assume r: "r \<in> set rows"
      then have "jb_id r \<in> jb_id ` set rows" by simp
      then have "jb_id r \<noteq> jb_id row" using Cons.prems(3) by auto
      with r have "r \<in> set (tb_jobs t)" "\<not> ?p r" using Cons.prems(4) p [of r] by auto
      then show "r \<in> set (tb_jobs ?t)" by (auto simp: image_iff intro!: bexI [of _ r])
    qed
    moreover have "distinct (map jb_id (tb_jobs ?t))" unfolding ids by (rule Cons.prems(2))
    ultimately show ?thesis using Cons.IH [OF rest] Cons.prems(3,5) by (simp del: map_map)
  qed
  moreover have "map (claimed_in uuid (Suc (tb_uuids t)) now lease rows) (tb_jobs ?t)
      = map (claimed_in uuid (tb_uuids t) now lease (row # rows)) (tb_jobs t)"
  proof -
    have "jb_id row \<notin> jb_id ` set rows" using Cons.prems(3) by simp
    then have "claimed_in uuid (Suc (tb_uuids t)) now lease rows (?f j) = ?f j" if "jb_id j = jb_id row" for j
      using that by (intro claimed_in_other) (simp add: claimed_job_def)
    with p show ?thesis by simp
  qed
  ultimately show ?case using c by simp
qed

section \<open>The life of one job\<close>

text \<open>
  The contract of the queue, without its table: a job is absent, waiting, claimed under a token,
  executing under the token of its last claim, or done; a claim may be replaced, execution never.
\<close>

datatype life = Absent | Waiting | Held string | Running string | Done job_status

inductive life_step :: "life \<Rightarrow> life \<Rightarrow> bool" where
  enqueued: "life_step Absent Waiting"
| admitted: "life_step Absent (Running token)"
| claimed: "life_step Waiting (Held token)"
| reclaimed: "life_step (Held token) (Held token')"
| started: "life_step (Held token) (Running token)"
| settled: "st \<in> {Succeeded, Failed, Uncertain} \<Longrightarrow> life_step (Running token) (Done st)"

definition life_of_job :: "worker_command_job \<Rightarrow> life" where
  "life_of_job j = (case jb_status j of
       Pending \<Rightarrow> Waiting
     | Claimed \<Rightarrow> Held (case jb_claim_token j of None \<Rightarrow> [] | Some x \<Rightarrow> x)
     | Executing \<Rightarrow> Running (case jb_claim_token j of None \<Rightarrow> [] | Some x \<Rightarrow> x)
     | st \<Rightarrow> Done st)"

definition life_of :: "nat \<Rightarrow> job_table \<Rightarrow> life" where
  "life_of i t = (case find (\<lambda>j. jb_id j = i) (tb_jobs t) of None \<Rightarrow> Absent | Some j \<Rightarrow> life_of_job j)"

lemma find_row:
  "distinct (map jb_id js) \<Longrightarrow> j \<in> set js \<Longrightarrow> find (\<lambda>j'. jb_id j' = jb_id j) js = Some j"
  by (auto simp: find_Some_iff distinct_conv_nth in_set_conv_nth)

lemma find_append: "find p (xs @ ys) = (case find p xs of None \<Rightarrow> find p ys | Some x \<Rightarrow> Some x)"
  by (induction xs) auto

lemma find_row_None: "find (\<lambda>j'. jb_id j' = i) js = None \<longleftrightarrow> i \<notin> jb_id ` set js"
  by (induction js) auto

lemma find_row_map:
  "(\<And>j. j \<in> set js \<Longrightarrow> jb_id (g j) = jb_id j) \<Longrightarrow> find (\<lambda>j'. jb_id j' = i) (map g js) = map_option g (find (\<lambda>j'. jb_id j' = i) js)"
  by (induction js) auto

text \<open>What one transaction does to a row that is there: nothing, or one step of the contract.\<close>

definition row_step :: "worker_command_job \<Rightarrow> worker_command_job \<Rightarrow> bool" where
  "row_step j j' \<longleftrightarrow> j' = j \<or> same_name j j' \<and> life_step (life_of_job j) (life_of_job j')
     \<and> (jb_side_effect_started_at j \<noteq> None \<longrightarrow> jb_side_effect_started_at j' = jb_side_effect_started_at j)"

definition table_step :: "job_table \<Rightarrow> job_table \<Rightarrow> (worker_command_job \<Rightarrow> worker_command_job) \<Rightarrow> worker_command_job list \<Rightarrow> bool" where
  "table_step t t' g added \<longleftrightarrow> tb_jobs t' = map g (tb_jobs t) @ added \<and> tb_uuids t \<le> tb_uuids t'
     \<and> (\<forall>j \<in> set (tb_jobs t). row_step j (g j))
     \<and> (\<forall>row \<in> set added. jb_id row = next_id t \<and> life_step Absent (life_of_job row)) \<and> length added \<le> 1"

lemma table_step_life:
  assumes "table_step t t' g added"
  shows "life_of i t' = life_of i t \<or> life_step (life_of i t) (life_of i t')"
proof -
  note d = assms [unfolded table_step_def]
  have id: "jb_id (g j) = jb_id j" if "j \<in> set (tb_jobs t)" for j
    using d that by (auto simp: row_step_def same_name_def)
  show ?thesis
  proof (cases "find (\<lambda>j. jb_id j = i) (tb_jobs t)")
    case (Some j)
    then have j: "j \<in> set (tb_jobs t)" by (auto simp: find_Some_iff)
    have "find (\<lambda>j. jb_id j = i) (tb_jobs t') = Some (g j)"
    proof -
      have "find (\<lambda>j. jb_id j = i) (map g (tb_jobs t)) = Some (g j)" using find_row_map [of "tb_jobs t" g i] id Some by simp
      then show ?thesis using d by (simp add: find_append)
    qed
    moreover have "row_step j (g j)" using d j by blast
    ultimately show ?thesis using Some by (auto simp: life_of_def row_step_def)
  next
    case None
    have old: "find (\<lambda>j. jb_id j = i) (map g (tb_jobs t)) = None" using find_row_map [of "tb_jobs t" g i] id None by simp
    have "find (\<lambda>j. jb_id j = i) (tb_jobs t') = find (\<lambda>j. jb_id j = i) added"
      using d old by (simp add: find_append)
    then have new: "life_of i t' = (case find (\<lambda>j. jb_id j = i) added of None \<Rightarrow> Absent | Some j \<Rightarrow> life_of_job j)"
      by (simp add: life_of_def)
    have absent: "life_of i t = Absent" by (simp add: life_of_def None)
    show ?thesis
    proof (cases "find (\<lambda>j. jb_id j = i) added")
      case (Some row)
      then have "row \<in> set added" by (auto simp: find_Some_iff)
      with d have "life_step Absent (life_of_job row)" by blast
      then show ?thesis by (simp add: new absent Some)
    qed (simp add: new absent)
  qed
qed

text \<open>Every transaction is such a step.\<close>

lemma table_step_update:
  assumes "\<And>j. j \<in> set (tb_jobs t) \<Longrightarrow> p j \<Longrightarrow> same_name j (f j) \<and> life_step (life_of_job j) (life_of_job (f j))
      \<and> (jb_side_effect_started_at j \<noteq> None \<longrightarrow> jb_side_effect_started_at (f j) = jb_side_effect_started_at j)"
  shows "table_step t (snd (update_where p f t)) (\<lambda>j. if p j then f j else j) []"
  using assms by (auto simp: table_step_def update_where_def row_step_def)

lemma table_step_same: "table_step t t (\<lambda>j. j) []"
  by (simp add: table_step_def row_step_def)

lemma table_step_added:
  assumes "fresh_row uuid ctype drawn t row"
  shows "table_step t (add_job row drawn t) (\<lambda>j. j) [row]"
  using assms by (auto simp: table_step_def row_step_def add_job_def fresh_row_def life_of_job_def intro: life_step.intros)

lemma table_step_marked: "table_step t (snd (mark_worker_command_executing claim now t)) 
   (\<lambda>j. if jb_id j = cl_job_id claim \<and> jb_status j = Claimed \<and> jb_claim_token j = Some (cl_claim_token claim)
               \<and> jb_side_effect_started_at j = None then j\<lparr>jb_status := Executing, jb_side_effect_started_at := Some now\<rparr> else j) []"
  unfolding mark_worker_command_executing_def Let_def split_def snd_conv
  by (rule table_step_update) (auto simp: life_of_job_def intro: life_step.intros)

lemma table_step_settled:
  assumes "st \<in> {Succeeded, Failed}"
  shows "\<exists>g. table_step t (snd (settle_worker_command claim st value http code summary now t)) g []"
proof -
  have "\<exists>g. table_step t (snd (update_where
      (\<lambda>j. jb_id j = cl_job_id claim \<and> jb_status j = Executing \<and> jb_claim_token j = Some (cl_claim_token claim))
      (settled_job st http rj c s now) t)) g []" for rj c s
    by (rule exI, rule table_step_update) (use assms in \<open>auto simp: life_of_job_def settled_job_def same_name_def intro: life_step.intros\<close>)
  moreover have "\<exists>g. table_step t t g []" using table_step_same by blast
  ultimately show ?thesis unfolding settle_worker_command_def Let_def split_def
    by (auto split: sum.split)
qed

lemma table_step_expired: "\<exists>g. table_step t (snd (mark_expired_executing_commands_uncertain now t)) g []"
  unfolding mark_expired_executing_commands_uncertain_def
  by (rule exI, rule table_step_update) (auto simp: life_of_job_def uncertain_job_def same_name_def intro: life_step.intros)

lemma claimed_in_cases:
  "claimed_in uuid n now lease rows j = j \<and> jb_id j \<notin> jb_id ` set rows
   \<or> (\<exists>i < length rows. jb_id j = jb_id (rows ! i)
        \<and> claimed_in uuid n now lease rows j = claimed_job (uuid (n + i)) now lease (Suc (jb_attempt_count (rows ! i))) j)"
proof (induction rows arbitrary: n)
  case (Cons row rows)
  show ?case
  proof (cases "jb_id j = jb_id row")
    case True
    then show ?thesis by (intro disjI2 exI [of _ 0]) simp
  next
    case False
    from Cons [of "Suc n"] show ?thesis
    proof (elim disjE exE conjE)
      fix i assume "i < length rows" "jb_id j = jb_id (rows ! i)"
        "claimed_in uuid (Suc n) now lease rows j = claimed_job (uuid (Suc n + i)) now lease (Suc (jb_attempt_count (rows ! i))) j"
      then show ?thesis using False by (intro disjI2 exI [of _ "Suc i"]) simp
    qed (use False in simp)
  qed
qed simp

lemma oldest_claimable_rows:
  assumes "distinct (map jb_id (tb_jobs t))"
  shows "set (oldest_claimable now allowed limit t) \<subseteq> set (tb_jobs t)"
    "distinct (map jb_id (oldest_claimable now allowed limit t))"
    "row \<in> set (oldest_claimable now allowed limit t) \<Longrightarrow> claimable now allowed row"
proof -
  let ?sorted = "py_sorted (\<lambda>j. (jb_created_at j, jb_id j)) False (filter (claimable now allowed) (tb_jobs t))"
  have sub: "set (oldest_claimable now allowed limit t) \<subseteq> set ?sorted"
    unfolding oldest_claimable_def by (rule set_take_subset)
  then show "set (oldest_claimable now allowed limit t) \<subseteq> set (tb_jobs t)" by auto
  show "row \<in> set (oldest_claimable now allowed limit t) \<Longrightarrow> claimable now allowed row" using sub by auto
  have "distinct (map jb_id (filter (claimable now allowed) (tb_jobs t)))" using assms by (simp add: distinct_map_filter)
  then have "distinct (filter (claimable now allowed) (tb_jobs t))" "inj_on jb_id (set (filter (claimable now allowed) (tb_jobs t)))"
    by (simp_all add: distinct_map)
  then have "distinct (map jb_id ?sorted)" unfolding distinct_map by simp
  then show "distinct (map jb_id (oldest_claimable now allowed limit t))"
    unfolding oldest_claimable_def by (simp add: take_map [symmetric] distinct_take)
qed

text \<open>A batch: nothing, or the oldest claimable rows under fresh tokens.\<close>

lemma claim_effect:
  assumes "claim_worker_commands uuid now lease_for limit allowed t = (r, t')" "distinct (map jb_id (tb_jobs t))"
  obtains (same) "t' = t" "\<And>cs. r = Inr cs \<Longrightarrow> cs = []"
    | (batch) rows cs where "rows = oldest_claimable now allowed (nat limit) t" "r = Inr cs" "claims_of (tb_uuids t) uuid rows cs"
      "tb_jobs t' = map (claimed_in uuid (tb_uuids t) now (lease_end now lease_for) rows) (tb_jobs t)"
      "tb_uuids t' = tb_uuids t + length rows"
proof (cases "nat (max 0 limit) = 0 \<or> allowed = Some []")
  case True
  then show thesis using assms(1) by (intro same) (auto simp: claim_worker_commands_def Let_def)
next
  case False
  have l: "nat (max 0 limit) = nat limit" by simp
  note o = oldest_claimable_rows [OF assms(2), where now = now and allowed = allowed and limit = "nat limit"]
  show thesis
  proof (cases "claim_rows uuid now (lease_end now lease_for) (oldest_claimable now allowed (nat limit) t) t")
    case (Inl e)
    then show thesis using assms(1) False unfolding claim_worker_commands_def Let_def l by (intro same) auto
  next
    case (Inr p)
    obtain cs t1 where p: "p = (cs, t1)" by (cases p)
    from claim_rows_effect [OF Inr [unfolded p] assms(2) o(2,1,3)]
    have e: "tb_jobs t1 = map (claimed_in uuid (tb_uuids t) now (lease_end now lease_for) (oldest_claimable now allowed (nat limit) t)) (tb_jobs t)"
      "tb_uuids t1 = tb_uuids t + length (oldest_claimable now allowed (nat limit) t)"
      "claims_of (tb_uuids t) uuid (oldest_claimable now allowed (nat limit) t) cs" by auto
    have "r = Inr cs" "t' = t1" using assms(1) False Inr p unfolding claim_worker_commands_def Let_def l by auto
    with e show thesis by (intro batch [OF refl]) simp_all
  qed
qed

lemma claimed_row_step:
  assumes "j \<in> set (tb_jobs t)" "distinct (map jb_id (tb_jobs t))" "set rows \<subseteq> set (tb_jobs t)"
    and "\<And>row. row \<in> set rows \<Longrightarrow> claimable now allowed row"
  shows "row_step j (claimed_in uuid n now lease rows j)"
proof -
  from claimed_in_cases [of uuid n now lease rows j] show ?thesis
  proof (elim disjE exE conjE)
    fix i assume i: "i < length rows" "jb_id j = jb_id (rows ! i)"
      "claimed_in uuid n now lease rows j = claimed_job (uuid (n + i)) now lease (Suc (jb_attempt_count (rows ! i))) j"
    have "rows ! i \<in> set (tb_jobs t)" using i(1) assms(3) by auto
    from same_id_same_row [OF assms(2,1) this i(2)] have "j = rows ! i" .
    then have "claimable now allowed j" using assms(4) i(1) by simp
    then show ?thesis unfolding i(3)
      by (auto simp: row_step_def life_of_job_def claimable_def claimed_job_def same_name_def intro: life_step.intros)
  qed (simp add: row_step_def)
qed

lemma table_step_claim:
  assumes "claim_worker_commands uuid now lease_for limit allowed t = (r, t')" "distinct (map jb_id (tb_jobs t))"
  shows "\<exists>g. table_step t t' g []"
  using assms
proof (cases rule: claim_effect)
  case same
  then show ?thesis using table_step_same by auto
next
  case (batch rows cs)
  note o = oldest_claimable_rows [OF assms(2), where now = now and allowed = allowed and limit = "nat limit", folded batch(1)]
  from claimed_row_step [OF _ assms(2) o(1,3)] batch(4,5)
  have "table_step t t' (claimed_in uuid (tb_uuids t) now (lease_end now lease_for) rows) []"
    by (simp add: table_step_def)
  then show ?thesis by blast
qed

lemma table_step_command:
  assumes "command_step sha uuid ev t = (out, t')" "distinct (map jb_id (tb_jobs t))"
  shows "\<exists>g added. table_step t t' g added"
proof (cases ev)
  case (Begin_shadow ctype request key now lease)
  obtain r t1 where b: "begin_shadow_worker_command sha uuid ctype request key now lease t = (r, t1)" by (metis surj_pair)
  then have "t' = t1" using assms(1) Begin_shadow by (auto simp: outcome_of_def split: sum.splits)
  with b show ?thesis by (cases rule: shadow_effect) (use table_step_same table_step_added in blast)+
next
  case (Enqueue ctype request key now)
  obtain r t1 where b: "enqueue_worker_command sha uuid ctype request key now t = (r, t1)" by (metis surj_pair)
  then have "t' = t1" using assms(1) Enqueue by (auto simp: outcome_of_def split: sum.splits)
  with b show ?thesis by (cases rule: enqueue_effect) (use table_step_same table_step_added in blast)+
next
  case (Claim_batch now lease limit allowed)
  obtain r t1 where b: "claim_worker_commands uuid now lease limit allowed t = (r, t1)" by (metis surj_pair)
  then have "t' = t1" using assms(1) Claim_batch by (auto simp: outcome_of_def split: sum.splits)
  with table_step_claim [OF b assms(2)] show ?thesis by blast
next
  case (Mark_executing claim now)
  with assms(1) have "t' = snd (mark_worker_command_executing claim now t)" by (simp add: split_def Let_def)
  with table_step_marked show ?thesis by blast
next
  case (Settle_succeeded claim v http now)
  with assms(1) have "t' = snd (settle_worker_command claim Succeeded v http None None now t)"
    by (auto simp: outcome_of_def settle_worker_command_succeeded_def split: sum.splits)
  with table_step_settled [of Succeeded] show ?thesis by blast
next
  case (Settle_failed claim v http code summary now)
  with assms(1) have "t' = snd (settle_worker_command claim Failed v http (Some code) (Some summary) now t)"
    by (auto simp: outcome_of_def settle_worker_command_failed_def split: sum.splits)
  with table_step_settled [of Failed] show ?thesis by blast
next
  case (Expire now)
  with assms(1) have "t' = snd (mark_expired_executing_commands_uncertain now t)" by (simp add: split_def Let_def)
  with table_step_expired show ?thesis by blast
qed

section \<open>Good tables stay good\<close>

lemma table_ok_claim:
  assumes "claim_worker_commands uuid now lease_for limit allowed t = (r, t')" "table_ok uuid t" "inj uuid"
  shows "table_ok uuid t'"
proof -
  from assms(2) have d: "distinct (map jb_id (tb_jobs t))" by (simp add: table_ok_def)
  from assms(1) d show ?thesis
  proof (cases rule: claim_effect)
    case same
    then show ?thesis using assms(2) by simp
  next
    case (batch rows cs)
    let ?n = "tb_uuids t" and ?lease = "lease_end now lease_for"
    let ?g = "claimed_in uuid ?n now ?lease rows"
    have changed: "?g j = j \<or> (\<exists>i < length rows. jb_id j = jb_id (rows ! i) \<and> jb_claim_token (?g j) = Some (uuid (?n + i))
        \<and> same_name j (?g j) \<and> (j \<in> set (tb_jobs t) \<longrightarrow> job_ok uuid (?n + length rows) (?g j)))" for j
    proof -
      from claimed_in_cases [of uuid ?n now ?lease rows j] show ?thesis
      proof (elim disjE exE conjE)
        fix i assume i: "i < length rows" "jb_id j = jb_id (rows ! i)"
          "?g j = claimed_job (uuid (?n + i)) now ?lease (Suc (jb_attempt_count (rows ! i))) j"
        note o = oldest_claimable_rows [OF d, where now = now and allowed = allowed and limit = "nat limit", folded batch(1)]
        have ok: "job_ok uuid (?n + length rows) (?g j)" if j: "j \<in> set (tb_jobs t)"
        proof -
          have "rows ! i \<in> set (tb_jobs t)" using i(1) o(1) by auto
          from same_id_same_row [OF d j this i(2)] have "claimable now allowed j" using o(3) i(1) by simp
          moreover have "job_ok uuid (?n + length rows) j"
            using assms(2) j by (auto simp: table_ok_def list_all_iff intro: job_ok_mono)
          moreover have "token_drawn uuid (?n + length rows) (?g j)"
            unfolding token_drawn_def i(3) claimed_job_def using i(1) by (intro exI [of _ "?n + i"]) simp
          ultimately show ?thesis unfolding i(3)
            by (auto simp: job_ok_def claimable_def claimed_job_def token_drawn_def)
        qed
        have "jb_claim_token (?g j) = Some (uuid (?n + i))" "same_name j (?g j)" using i(3) by (simp_all add: claimed_job_def same_name_def)
        with i ok show ?thesis by blast
      qed simp
    qed
    have old: "jb_claim_token j \<noteq> Some (uuid (?n + i))" if "j \<in> set (tb_jobs t)" for i j
      using job_drawn(2) [OF assms(2) that assms(3), of "?n + i"] by simp
    have "table_ok uuid \<lparr>tb_jobs = map ?g (tb_jobs t), tb_uuids = ?n + length rows\<rparr>"
    proof (rule table_ok_map [OF assms(2)])
      fix j assume j: "j \<in> set (tb_jobs t)"
      then have "job_ok uuid (?n + length rows) j" using assms(2) by (auto simp: table_ok_def list_all_iff intro: job_ok_mono)
      with changed [of j] j show "same_name j (?g j) \<and> job_ok uuid (?n + length rows) (?g j)" by auto
    next
      fix j j' x
      assume j: "j \<in> set (tb_jobs t)" "j' \<in> set (tb_jobs t)" and x: "jb_claim_token (?g j) = Some x" "jb_claim_token (?g j') = Some x"
      from assms(2) have i: "identifies jb_claim_token (tb_jobs t)" by (simp add: table_ok_def)
      from changed [of j] changed [of j'] show "jb_id j = jb_id j'"
      proof (elim disjE exE conjE)
        assume "?g j = j" "?g j' = j'"
        with x identifiesD [OF i j] show ?thesis by simp
      next
        fix k assume "?g j = j" "jb_claim_token (?g j') = Some (uuid (?n + k))"
        with x old [OF j(1), of k] show ?thesis by simp
      next
        fix k assume "?g j' = j'" "jb_claim_token (?g j) = Some (uuid (?n + k))"
        with x old [OF j(2), of k] show ?thesis by simp
      next
        fix k k' assume "jb_claim_token (?g j) = Some (uuid (?n + k))" "jb_claim_token (?g j') = Some (uuid (?n + k'))"
          and ids: "jb_id j = jb_id (rows ! k)" "jb_id j' = jb_id (rows ! k')"
        with x have "uuid (?n + k) = uuid (?n + k')" by simp
        with assms(3) have "k = k'" by (simp add: inj_eq)
        with ids show ?thesis by simp
      qed
    qed
    moreover have "t' = \<lparr>tb_jobs = map ?g (tb_jobs t), tb_uuids = ?n + length rows\<rparr>" using batch(4,5) by (cases t') simp
    ultimately show ?thesis by simp
  qed
qed

lemma table_ok_marked:
  assumes "table_ok uuid t"
  shows "table_ok uuid (snd (mark_worker_command_executing claim now t))"
  unfolding mark_worker_command_executing_def Let_def split_def snd_conv
proof (rule table_ok_update [OF assms])
  fix j
  assume "j \<in> set (tb_jobs t)" and p: "jb_id j = cl_job_id claim \<and> jb_status j = Claimed \<and> jb_claim_token j = Some (cl_claim_token claim)
     \<and> jb_side_effect_started_at j = None"
  then have "job_ok uuid (tb_uuids t) j" using assms by (auto simp: table_ok_def list_all_iff)
  with p show "same_name j (j\<lparr>jb_status := Executing, jb_side_effect_started_at := Some now\<rparr>)
     \<and> job_ok uuid (tb_uuids t) (j\<lparr>jb_status := Executing, jb_side_effect_started_at := Some now\<rparr>)
     \<and> (jb_claim_token (j\<lparr>jb_status := Executing, jb_side_effect_started_at := Some now\<rparr>) = jb_claim_token j
       \<or> jb_claim_token (j\<lparr>jb_status := Executing, jb_side_effect_started_at := Some now\<rparr>) = None)"
    by (auto simp: job_ok_def token_drawn_def)
qed

lemma table_ok_settled:
  assumes "table_ok uuid t" "st \<in> {Succeeded, Failed}"
  shows "table_ok uuid (snd (settle_worker_command claim st value http code summary now t))"
proof -
  have "table_ok uuid (snd (update_where
      (\<lambda>j. jb_id j = cl_job_id claim \<and> jb_status j = Executing \<and> jb_claim_token j = Some (cl_claim_token claim))
      (settled_job st http rj c s now) t))" if "\<not> (http < 100 \<or> 599 < http)" for rj c s
  proof (rule table_ok_update [OF assms(1)])
    fix j
    assume "j \<in> set (tb_jobs t)" and p: "jb_id j = cl_job_id claim \<and> jb_status j = Executing \<and> jb_claim_token j = Some (cl_claim_token claim)"
    then have "job_ok uuid (tb_uuids t) j" using assms(1) by (auto simp: table_ok_def list_all_iff)
    with p assms(2) that show "same_name j (settled_job st http rj c s now j) \<and> job_ok uuid (tb_uuids t) (settled_job st http rj c s now j)
       \<and> (jb_claim_token (settled_job st http rj c s now j) = jb_claim_token j \<or> jb_claim_token (settled_job st http rj c s now j) = None)"
      by (auto simp: job_ok_def settled_job_def unclaimed_def same_name_def)
  qed
  with assms(1) show ?thesis unfolding settle_worker_command_def Let_def split_def by (auto split: sum.split)
qed

lemma table_ok_expired:
  assumes "table_ok uuid t"
  shows "table_ok uuid (snd (mark_expired_executing_commands_uncertain now t))"
  unfolding mark_expired_executing_commands_uncertain_def
proof (rule table_ok_update [OF assms])
  fix j
  assume "j \<in> set (tb_jobs t)" and p: "jb_status j = Executing \<and> jb_side_effect_started_at j \<noteq> None \<and> lease_expired now j"
  then have "job_ok uuid (tb_uuids t) j" using assms by (auto simp: table_ok_def list_all_iff)
  with p show "same_name j (uncertain_job now j) \<and> job_ok uuid (tb_uuids t) (uncertain_job now j)
     \<and> (jb_claim_token (uncertain_job now j) = jb_claim_token j \<or> jb_claim_token (uncertain_job now j) = None)"
    by (auto simp: job_ok_def uncertain_job_def unclaimed_def same_name_def)
qed

end
