(* ===== verification/Worker_Runs.thy ===== *)
theory Worker_Runs
  imports Worker_Commands
begin

text \<open>
  The durable worker commands under any interleaving: every run of \<open>run_commands\<close> keeps the table
  good, the boundary of a job's side effect is crossed once, and a claim that was superseded does
  nothing any more. The model and the facts on single transactions are in \<open>Worker_Commands\<close>.
\<close>

section \<open>Runs\<close>

lemma table_ok_command:
  assumes "command_step sha uuid ev t = (out, t')" "table_ok uuid t" "inj uuid"
  shows "table_ok uuid t'"
proof (cases ev)
  case (Begin_shadow ctype request key now lease)
  obtain r t1 where b: "begin_shadow_worker_command sha uuid ctype request key now lease t = (r, t1)" by (metis surj_pair)
  then have "t' = t1" using assms(1) Begin_shadow by (auto simp: outcome_of_def split: sum.splits)
  with b show ?thesis by (cases rule: shadow_effect) (use assms(2) fresh_row_ok [OF assms(2,3)] in blast)+
next
  case (Enqueue ctype request key now)
  obtain r t1 where b: "enqueue_worker_command sha uuid ctype request key now t = (r, t1)" by (metis surj_pair)
  then have "t' = t1" using assms(1) Enqueue by (auto simp: outcome_of_def split: sum.splits)
  with b show ?thesis by (cases rule: enqueue_effect) (use assms(2) fresh_row_ok [OF assms(2,3)] in blast)+
next
  case (Claim_batch now lease limit allowed)
  obtain r t1 where b: "claim_worker_commands uuid now lease limit allowed t = (r, t1)" by (metis surj_pair)
  then have "t' = t1" using assms(1) Claim_batch by (auto simp: outcome_of_def split: sum.splits)
  with table_ok_claim [OF b assms(2,3)] show ?thesis by simp
next
  case (Mark_executing claim now)
  with assms(1) have "t' = snd (mark_worker_command_executing claim now t)" by (simp add: split_def Let_def)
  with table_ok_marked [OF assms(2)] show ?thesis by simp
next
  case (Settle_succeeded claim v http now)
  with assms(1) have "t' = snd (settle_worker_command claim Succeeded v http None None now t)"
    by (auto simp: outcome_of_def settle_worker_command_succeeded_def split: sum.splits)
  with table_ok_settled [OF assms(2), of Succeeded] show ?thesis by simp
next
  case (Settle_failed claim v http code summary now)
  with assms(1) have "t' = snd (settle_worker_command claim Failed v http (Some code) (Some summary) now t)"
    by (auto simp: outcome_of_def settle_worker_command_failed_def split: sum.splits)
  with table_ok_settled [OF assms(2), of Failed] show ?thesis by simp
next
  case (Expire now)
  with assms(1) have "t' = snd (mark_expired_executing_commands_uncertain now t)" by (simp add: split_def Let_def)
  with table_ok_expired [OF assms(2)] show ?thesis by simp
qed

lemma table_ok_ids: "table_ok uuid t \<Longrightarrow> distinct (map jb_id (tb_jobs t))"
  by (simp add: table_ok_def)

text \<open>Runs, split at an event.\<close>

lemma run_commands_Cons:
  "run_commands sha uuid (ev # evs) t = (outs, t'') \<longleftrightarrow>
   (\<exists>out t' outs'. command_step sha uuid ev t = (out, t') \<and> run_commands sha uuid evs t' = (outs', t'') \<and> outs = (ev, out) # outs')"
  by (auto simp: Let_def split: prod.splits)

declare run_commands.simps(2) [simp del]

lemma run_commands_ok:
  "run_commands sha uuid evs t = (outs, t') \<Longrightarrow> table_ok uuid t \<Longrightarrow> inj uuid \<Longrightarrow> table_ok uuid t'"
  by (induction evs arbitrary: t outs) (auto simp: run_commands_Cons dest: table_ok_command)

lemma run_commands_split:
  assumes "run_commands sha uuid evs t = (a @ (ev, out) # b, t3)" "table_ok uuid t" "inj uuid"
  obtains evs1 evs2 t1 t2 where "run_commands sha uuid evs1 t = (a, t1)" "command_step sha uuid ev t1 = (out, t2)"
    "run_commands sha uuid evs2 t2 = (b, t3)" "table_ok uuid t1" "table_ok uuid t2"
proof -
  have "\<exists>evs1 evs2 t1 t2. run_commands sha uuid evs1 t = (a, t1) \<and> command_step sha uuid ev t1 = (out, t2)
     \<and> run_commands sha uuid evs2 t2 = (b, t3)"
    using assms(1)
  proof (induction a arbitrary: evs t)
    case Nil
    then obtain e es where "evs = e # es" by (cases evs) auto
    with Nil show ?case by (intro exI [of _ "[]"] exI [of _ es]) (auto simp: run_commands_Cons)
  next
    case (Cons x a)
    then obtain e es where es: "evs = e # es" by (cases evs) auto
    with Cons.prems obtain out' t' where s: "command_step sha uuid e t = (out', t')" "x = (e, out')"
      "run_commands sha uuid es t' = (a @ (ev, out) # b, t3)" by (auto simp: run_commands_Cons)
    from Cons.IH [OF s(3)] obtain evs1 evs2 t1 t2 where "run_commands sha uuid evs1 t' = (a, t1)"
      "command_step sha uuid ev t1 = (out, t2)" "run_commands sha uuid evs2 t2 = (b, t3)" by blast
    with s show ?case by (intro exI [of _ "e # evs1"] exI [of _ evs2] exI [of _ t1] exI [of _ t2]) (auto simp: run_commands_Cons)
  qed
  then obtain evs1 evs2 t1 t2 where r: "run_commands sha uuid evs1 t = (a, t1)" "command_step sha uuid ev t1 = (out, t2)"
    "run_commands sha uuid evs2 t2 = (b, t3)" by blast
  from run_commands_ok [OF r(1) assms(2,3)] have ok: "table_ok uuid t1" .
  from r ok table_ok_command [OF r(2) ok assms(3)] show thesis by (rule that)
qed

section \<open>The side-effect boundary\<close>

definition crossed :: "nat \<Rightarrow> job_table \<Rightarrow> bool" where
  "crossed i t \<longleftrightarrow> (\<exists>j \<in> set (tb_jobs t). jb_id j = i \<and> jb_side_effect_started_at j \<noteq> None)"

text \<open>The event lets a caller begin the side effect of job \<open>i\<close>.\<close>

fun crosses :: "nat \<Rightarrow> command_event \<times> command_outcome \<Rightarrow> bool" where
  "crosses i (Mark_executing claim now, Updated b) \<longleftrightarrow> b \<and> cl_job_id claim = i"
| "crosses i (ev, Admission s (Some claim)) \<longleftrightarrow> cl_job_id claim = i"
| "crosses i _ \<longleftrightarrow> False"

text \<open>The event hands out a claim.\<close>

fun issues :: "command_event \<times> command_outcome \<Rightarrow> worker_command_claim \<Rightarrow> bool" where
  "issues (ev, Claims cs) claim \<longleftrightarrow> claim \<in> set cs"
| "issues (ev, Admission s (Some c)) claim \<longleftrightarrow> c = claim"
| "issues _ claim \<longleftrightarrow> False"

lemma crossed_mono:
  assumes "command_step sha uuid ev t = (out, t')" "distinct (map jb_id (tb_jobs t))" "crossed i t"
  shows "crossed i t'"
proof -
  from table_step_command [OF assms(1,2)] obtain g added where s: "table_step t t' g added" by blast
  from assms(3) obtain j where j: "j \<in> set (tb_jobs t)" "jb_id j = i" "jb_side_effect_started_at j \<noteq> None"
    by (auto simp: crossed_def)
  with s have "row_step j (g j)" "g j \<in> set (tb_jobs t')" by (auto simp: table_step_def)
  with j show ?thesis unfolding crossed_def by (intro bexI [of _ "g j"]) (auto simp: row_step_def same_name_def)
qed

lemma crossed_run:
  "run_commands sha uuid evs t = (outs, t') \<Longrightarrow> table_ok uuid t \<Longrightarrow> inj uuid \<Longrightarrow> crossed i t \<Longrightarrow> crossed i t'"
  by (induction evs arbitrary: t outs) (auto simp: run_commands_Cons dest: crossed_mono table_ok_command table_ok_ids)

lemma marked_row:
  assumes "mark_worker_command_executing claim now t = (True, t')"
  obtains j where "j \<in> set (tb_jobs t)" "jb_id j = cl_job_id claim" "jb_status j = Claimed"
    "jb_claim_token j = Some (cl_claim_token claim)" "jb_side_effect_started_at j = None"
    "j\<lparr>jb_status := Executing, jb_side_effect_started_at := Some now\<rparr> \<in> set (tb_jobs t')"
proof -
  let ?p = "\<lambda>j. jb_id j = cl_job_id claim \<and> jb_status j = Claimed \<and> jb_claim_token j = Some (cl_claim_token claim)
               \<and> jb_side_effect_started_at j = None"
  from assms have len: "length (filter ?p (tb_jobs t)) = 1" and t': "tb_jobs t' = map (\<lambda>j. if ?p j
        then j\<lparr>jb_status := Executing, jb_side_effect_started_at := Some now\<rparr> else j) (tb_jobs t)"
    by (auto simp: mark_worker_command_executing_def update_where_def)
  from len obtain j where "j \<in> set (filter ?p (tb_jobs t))" by (cases "filter ?p (tb_jobs t)") auto
  then have j: "j \<in> set (tb_jobs t)" "?p j" by auto
  then have "j\<lparr>jb_status := Executing, jb_side_effect_started_at := Some now\<rparr> \<in> set (tb_jobs t')"
    unfolding t' by (auto intro!: image_eqI [of _ _ j])
  with j show thesis by (intro that) auto
qed

lemma crosses_iff_crossed:
  assumes "command_step sha uuid ev t = (out, t')" "table_ok uuid t" "crosses i (ev, out)"
  shows "\<not> crossed i t \<and> crossed i t'"
proof (cases ev)
  case (Mark_executing claim now)
  from assms(1,3) Mark_executing have m: "mark_worker_command_executing claim now t = (True, t')" "cl_job_id claim = i"
    by (cases "mark_worker_command_executing claim now t"; auto)+
  from marked_row [OF m(1)] obtain j where j: "j \<in> set (tb_jobs t)" "jb_id j = i" "jb_side_effect_started_at j = None"
    "j\<lparr>jb_status := Executing, jb_side_effect_started_at := Some now\<rparr> \<in> set (tb_jobs t')" using m(2) by metis
  have "crossed i t'" unfolding crossed_def using j(2) by (intro bexI [OF _ j(4)]) simp
  moreover have "\<not> crossed i t"
    using same_id_same_row [OF table_ok_ids [OF assms(2)] _ j(1)] j(2,3) by (auto simp: crossed_def)
  ultimately show ?thesis by simp
next
  case (Begin_shadow ctype request key now lease)
  obtain r t1 where b: "begin_shadow_worker_command sha uuid ctype request key now lease t = (r, t1)" by (metis surj_pair)
  with assms(1) Begin_shadow have o: "t' = t1" "(out, t') = outcome_of (\<lambda>(s, c). Admission s c) (r, t1)"
    by (auto simp: outcome_of_def split: sum.splits)
  from b show ?thesis
  proof (cases rule: shadow_effect)
    case same
    with o assms(3) Begin_shadow show ?thesis by (cases r) (auto simp: outcome_of_def)
  next
    case (added row snapshot claim)
    with o assms(3) Begin_shadow have "i = next_id t" by (auto simp: outcome_of_def)
    moreover have "crossed (next_id t) t'"
      using added(2,3) o(1) by (auto simp: crossed_def add_job_def fresh_row_def)
    moreover have "\<not> crossed (next_id t) t" using next_id_fresh by (fastforce simp: crossed_def)
    ultimately show ?thesis by simp
  qed
next
  case (Claim_batch now lease limit allowed)
  with assms(1,3) show ?thesis by (auto simp: outcome_of_def split: sum.splits)
next
  case (Enqueue ctype request key now)
  with assms(1,3) show ?thesis by (auto simp: outcome_of_def split: sum.splits)
next
  case (Settle_succeeded claim v http now)
  with assms(1,3) show ?thesis by (auto simp: outcome_of_def split: sum.splits)
next
  case (Settle_failed claim v http code summary now)
  with assms(1,3) show ?thesis by (auto simp: outcome_of_def split: sum.splits)
next
  case (Expire now)
  with assms(1,3) show ?thesis by (auto simp: Let_def split: prod.splits)
qed

lemma claims_of_mem:
  "claims_of n uuid rows cs \<Longrightarrow> c \<in> set cs \<Longrightarrow> \<exists>i < length rows. claim_of (n + i) uuid (rows ! i) c"
proof (induction rows arbitrary: n cs)
  case (Cons row rows)
  then obtain c' cs' where cs: "cs = c' # cs'" "claim_of n uuid row c'" "claims_of (Suc n) uuid rows cs'" by auto
  show ?case
  proof (cases "c = c'")
    case True
    with cs show ?thesis by (intro exI [of _ 0]) simp
  next
    case False
    with cs Cons.prems(2) Cons.IH [OF cs(3)] obtain i where "i < length rows" "claim_of (Suc n + i) uuid (rows ! i) c" by auto
    then show ?thesis by (intro exI [of _ "Suc i"]) simp
  qed
qed simp

lemma claimed_in_nth:
  assumes "distinct (map jb_id rows)" "i < length rows"
  shows "claimed_in uuid n now lease rows (rows ! i) = claimed_job (uuid (n + i)) now lease (Suc (jb_attempt_count (rows ! i))) (rows ! i)"
proof -
  from claimed_in_cases [of uuid n now lease rows "rows ! i"] assms(2) obtain k where k: "k < length rows" "jb_id (rows ! i) = jb_id (rows ! k)"
    "claimed_in uuid n now lease rows (rows ! i) = claimed_job (uuid (n + k)) now lease (Suc (jb_attempt_count (rows ! k))) (rows ! i)"
    by auto
  with assms have "k = i" by (metis length_map nth_eq_iff_index_eq nth_map)
  with k(3) show ?thesis by simp
qed

lemma issued_claim:
  assumes "command_step sha uuid ev t = (out, t')" "table_ok uuid t" "issues (ev, out) c"
  shows "\<not> crossed (cl_job_id c) t" "\<exists>m. cl_claim_token c = uuid m \<and> tb_uuids t \<le> m \<and> m < tb_uuids t'"
    "\<exists>j \<in> set (tb_jobs t'). jb_id j = cl_job_id c \<and> jb_claim_token j = Some (cl_claim_token c)"
proof -
  note d = table_ok_ids [OF assms(2)]
  have "\<not> crossed (cl_job_id c) t \<and> (\<exists>m. cl_claim_token c = uuid m \<and> tb_uuids t \<le> m \<and> m < tb_uuids t')
    \<and> (\<exists>j \<in> set (tb_jobs t'). jb_id j = cl_job_id c \<and> jb_claim_token j = Some (cl_claim_token c))"
  proof (cases ev)
    case (Claim_batch now lease limit allowed)
    obtain r t1 where b: "claim_worker_commands uuid now lease limit allowed t = (r, t1)" by (metis surj_pair)
    with assms(1,3) Claim_batch obtain cs where cs: "r = Inr cs" "c \<in> set cs" "t' = t1" by (cases r) (auto simp: outcome_of_def)
    from b d show ?thesis
    proof (cases rule: claim_effect)
      case same
      with cs show ?thesis by auto
    next
      case (batch rows cs')
      note o = oldest_claimable_rows [OF d, where now = now and allowed = allowed and limit = "nat limit", folded batch(1)]
      from batch(2) cs(1,2) have "c \<in> set cs'" by simp
      from claims_of_mem [OF batch(3) this] obtain i where i: "i < length rows" "claim_of (tb_uuids t + i) uuid (rows ! i) c" by blast
      have row: "rows ! i \<in> set (tb_jobs t)" "claimable now allowed (rows ! i)" using i(1) o(1,3) by auto
      have "job_ok uuid (tb_uuids t) (rows ! i)" using assms(2) row(1) by (auto simp: table_ok_def list_all_iff)
      then have "jb_side_effect_started_at (rows ! i) = None" using row(2) by (auto simp: claimable_def job_ok_def)
      then have "\<not> crossed (jb_id (rows ! i)) t" using same_id_same_row [OF d _ row(1)] by (auto simp: crossed_def)
      moreover have "\<exists>j \<in> set (tb_jobs t'). jb_id j = jb_id (rows ! i) \<and> jb_claim_token j = Some (uuid (tb_uuids t + i))"
      proof (rule bexI)
        let ?j = "claimed_in uuid (tb_uuids t) now (lease_end now lease) rows (rows ! i)"
        show "?j \<in> set (tb_jobs t')" using row(1) by (simp add: cs(3) batch(4))
        show "jb_id ?j = jb_id (rows ! i) \<and> jb_claim_token ?j = Some (uuid (tb_uuids t + i))"
          unfolding claimed_in_nth [OF o(2) i(1)] by (simp add: claimed_job_def)
      qed
      ultimately show ?thesis using i cs(3) batch(5)
        by (auto simp: claim_of_def intro!: exI [of _ "tb_uuids t + i"])
    qed
  next
    case (Begin_shadow ctype request key now lease)
    obtain r t1 where b: "begin_shadow_worker_command sha uuid ctype request key now lease t = (r, t1)" by (metis surj_pair)
    with assms(1) Begin_shadow have o: "t' = t1" "(out, t') = outcome_of (\<lambda>(s, c). Admission s c) (r, t1)"
      by (auto simp: outcome_of_def split: sum.splits)
    from b show ?thesis
    proof (cases rule: shadow_effect)
      case same
      with o assms(3) Begin_shadow show ?thesis by (cases r) (auto simp: outcome_of_def)
    next
      case (added row snapshot claim)
      with o assms(3) Begin_shadow have "c = claim" by (auto simp: outcome_of_def)
      with added o(1) have "cl_job_id c = next_id t" "cl_claim_token c = uuid (tb_uuids t)" "row \<in> set (tb_jobs t')"
        "jb_id row = next_id t" "jb_claim_token row = Some (uuid (tb_uuids t))" "tb_uuids t' = tb_uuids t + 2"
        by (auto simp: add_job_def fresh_row_def)
      moreover have "\<not> crossed (next_id t) t" using next_id_fresh by (fastforce simp: crossed_def)
      ultimately show ?thesis by (auto intro!: exI [of _ "tb_uuids t"])
    qed
  next
    case (Enqueue ctype request key now)
    with assms(1,3) show ?thesis by (auto simp: outcome_of_def split: sum.splits)
  next
    case (Mark_executing claim now)
    with assms(1,3) show ?thesis by (auto simp: Let_def split: prod.splits)
  next
    case (Settle_succeeded claim v http now)
    with assms(1,3) show ?thesis by (auto simp: outcome_of_def split: sum.splits)
  next
    case (Settle_failed claim v http code summary now)
    with assms(1,3) show ?thesis by (auto simp: outcome_of_def split: sum.splits)
  next
    case (Expire now)
    with assms(1,3) show ?thesis by (auto simp: Let_def split: prod.splits)
  qed
  then show "\<not> crossed (cl_job_id c) t" "\<exists>m. cl_claim_token c = uuid m \<and> tb_uuids t \<le> m \<and> m < tb_uuids t'"
    "\<exists>j \<in> set (tb_jobs t'). jb_id j = cl_job_id c \<and> jb_claim_token j = Some (cl_claim_token c)" by blast+
qed

text \<open>A transaction gives a row its old token, none, or one not drawn before.\<close>

definition tokens_from :: "(nat \<Rightarrow> string) \<Rightarrow> job_table \<Rightarrow> job_table \<Rightarrow> bool" where
  "tokens_from uuid t t' \<longleftrightarrow> (\<forall>j' \<in> set (tb_jobs t'). \<forall>tok. jb_claim_token j' = Some tok \<longrightarrow>
     (\<exists>j \<in> set (tb_jobs t). jb_id j = jb_id j' \<and> jb_claim_token j = Some tok) \<or> (\<exists>m \<ge> tb_uuids t. tok = uuid m))"

lemma tokens_from_same: "tokens_from uuid t t"
  by (auto simp: tokens_from_def)

lemma tokens_from_update:
  assumes "\<And>j. p j \<Longrightarrow> jb_id (f j) = jb_id j \<and> (jb_claim_token (f j) = jb_claim_token j \<or> jb_claim_token (f j) = None)"
  shows "tokens_from uuid t (snd (update_where p f t))"
  unfolding tokens_from_def
proof (intro ballI allI impI disjI1)
  fix j' tok
  assume "j' \<in> set (tb_jobs (snd (update_where p f t)))" and tok: "jb_claim_token j' = Some tok"
  then obtain j where j: "j \<in> set (tb_jobs t)" "j' = (if p j then f j else j)" by (auto simp: update_where_def)
  with tok assms [of j] show "\<exists>j \<in> set (tb_jobs t). jb_id j = jb_id j' \<and> jb_claim_token j = Some tok"
    by (intro bexI [OF _ j(1)]) (auto split: if_splits)
qed

lemma tokens_from_added: "fresh_row uuid ctype drawn t row \<Longrightarrow> tokens_from uuid t (add_job row drawn t)"
  by (auto simp: tokens_from_def add_job_def fresh_row_def unclaimed_def)

lemma tokens_from_command:
  assumes "command_step sha uuid ev t = (out, t')" "table_ok uuid t"
  shows "tokens_from uuid t t'"
proof (cases ev)
  case (Begin_shadow ctype request key now lease)
  obtain r t1 where b: "begin_shadow_worker_command sha uuid ctype request key now lease t = (r, t1)" by (metis surj_pair)
  then have "t' = t1" using assms(1) Begin_shadow by (auto simp: outcome_of_def split: sum.splits)
  with b show ?thesis by (cases rule: shadow_effect) (use tokens_from_same tokens_from_added in blast)+
next
  case (Enqueue ctype request key now)
  obtain r t1 where b: "enqueue_worker_command sha uuid ctype request key now t = (r, t1)" by (metis surj_pair)
  then have "t' = t1" using assms(1) Enqueue by (auto simp: outcome_of_def split: sum.splits)
  with b show ?thesis by (cases rule: enqueue_effect) (use tokens_from_same tokens_from_added in blast)+
next
  case (Claim_batch now lease limit allowed)
  obtain r t1 where b: "claim_worker_commands uuid now lease limit allowed t = (r, t1)" by (metis surj_pair)
  then have t': "t' = t1" using assms(1) Claim_batch by (auto simp: outcome_of_def split: sum.splits)
  from b table_ok_ids [OF assms(2)] show ?thesis
  proof (cases rule: claim_effect)
    case same
    then show ?thesis using tokens_from_same t' by simp
  next
    case (batch rows cs)
    show ?thesis unfolding tokens_from_def
    proof (intro ballI allI impI)
      fix j' tok
      assume "j' \<in> set (tb_jobs t')" and tok: "jb_claim_token j' = Some tok"
      then obtain j where j: "j \<in> set (tb_jobs t)" "j' = claimed_in uuid (tb_uuids t) now (lease_end now lease) rows j"
        using batch(4) t' by auto
      from claimed_in_cases [of uuid "tb_uuids t" now "lease_end now lease" rows j] tok j(1)
      show "(\<exists>j \<in> set (tb_jobs t). jb_id j = jb_id j' \<and> jb_claim_token j = Some tok) \<or> (\<exists>m \<ge> tb_uuids t. tok = uuid m)"
        unfolding j(2) by (auto simp: claimed_job_def intro: le_add1)
    qed
  qed
next
  case (Mark_executing claim now)
  with assms(1) have "t' = snd (mark_worker_command_executing claim now t)" by (simp add: split_def Let_def)
  then show ?thesis unfolding mark_worker_command_executing_def Let_def split_def snd_conv
    by (simp add: tokens_from_update)
next
  case (Settle_succeeded claim v http now)
  with assms(1) have "t' = snd (settle_worker_command claim Succeeded v http None None now t)"
    by (auto simp: outcome_of_def settle_worker_command_succeeded_def split: sum.splits)
  then show ?thesis unfolding settle_worker_command_def Let_def split_def
    by (auto simp: tokens_from_same settled_job_def intro!: tokens_from_update split: sum.splits)
next
  case (Settle_failed claim v http code summary now)
  with assms(1) have "t' = snd (settle_worker_command claim Failed v http (Some code) (Some summary) now t)"
    by (auto simp: outcome_of_def settle_worker_command_failed_def split: sum.splits)
  then show ?thesis unfolding settle_worker_command_def Let_def split_def
    by (auto simp: tokens_from_same settled_job_def intro!: tokens_from_update split: sum.splits)
next
  case (Expire now)
  with assms(1) have "t' = snd (mark_expired_executing_commands_uncertain now t)" by (simp add: split_def Let_def)
  then show ?thesis unfolding mark_expired_executing_commands_uncertain_def
    by (simp add: tokens_from_update uncertain_job_def)
qed

text \<open>A claim whose token no row of its job carries any more, and none ever will.\<close>

definition superseded :: "(nat \<Rightarrow> string) \<Rightarrow> worker_command_claim \<Rightarrow> job_table \<Rightarrow> bool" where
  "superseded uuid c t \<longleftrightarrow> (\<exists>m < tb_uuids t. cl_claim_token c = uuid m)
     \<and> (\<forall>j \<in> set (tb_jobs t). jb_id j = cl_job_id c \<longrightarrow> jb_claim_token j \<noteq> Some (cl_claim_token c))"

lemma uuids_mono:
  assumes "command_step sha uuid ev t = (out, t')" "distinct (map jb_id (tb_jobs t))"
  shows "tb_uuids t \<le> tb_uuids t'"
  using table_step_command [OF assms] by (auto simp: table_step_def)

lemma superseded_command:
  assumes "command_step sha uuid ev t = (out, t')" "table_ok uuid t" "inj uuid" "superseded uuid c t"
  shows "superseded uuid c t'"
proof -
  from assms(4) obtain m where m: "m < tb_uuids t" "cl_claim_token c = uuid m" by (auto simp: superseded_def)
  have "jb_claim_token j \<noteq> Some (cl_claim_token c)" if "j \<in> set (tb_jobs t')" "jb_id j = cl_job_id c" for j
  proof
    assume tok: "jb_claim_token j = Some (cl_claim_token c)"
    with tokens_from_command [OF assms(1,2)] that(1)
    have "(\<exists>j0 \<in> set (tb_jobs t). jb_id j0 = jb_id j \<and> jb_claim_token j0 = Some (cl_claim_token c))
        \<or> (\<exists>n \<ge> tb_uuids t. cl_claim_token c = uuid n)" by (auto simp: tokens_from_def)
    with assms(4) that(2) show False using m assms(3) by (auto simp: superseded_def inj_eq)
  qed
  with m uuids_mono [OF assms(1) table_ok_ids [OF assms(2)]] show ?thesis unfolding superseded_def
    by (auto intro!: exI [of _ m])
qed

lemma superseded_run:
  "run_commands sha uuid evs t = (outs, t') \<Longrightarrow> table_ok uuid t \<Longrightarrow> inj uuid \<Longrightarrow> superseded uuid c t \<Longrightarrow> superseded uuid c t'"
  by (induction evs arbitrary: t outs) (auto simp: run_commands_Cons dest: superseded_command table_ok_command)

lemma drawn_run:
  "run_commands sha uuid evs t = (outs, t') \<Longrightarrow> table_ok uuid t \<Longrightarrow> inj uuid \<Longrightarrow> tb_uuids t \<le> tb_uuids t'"
proof (induction evs arbitrary: t outs)
  case (Cons ev evs)
  then obtain out t1 outs' where s: "command_step sha uuid ev t = (out, t1)" "run_commands sha uuid evs t1 = (outs', t')"
    by (auto simp: run_commands_Cons)
  from uuids_mono [OF s(1) table_ok_ids [OF Cons.prems(2)]] Cons.IH [OF s(2) table_ok_command [OF s(1) Cons.prems(2,3)] Cons.prems(3)]
  show ?case by simp
qed simp

text \<open>A claim of the job issued later supersedes the earlier one.\<close>

lemma later_claim_supersedes:
  assumes "command_step sha uuid ev t = (out, t')" "table_ok uuid t" "inj uuid" "issues (ev, out) c'" "cl_job_id c' = cl_job_id c"
    and "\<exists>m < tb_uuids t. cl_claim_token c = uuid m"
  shows "superseded uuid c t'"
proof -
  from issued_claim [OF assms(1,2,4)] obtain m' j' where m': "cl_claim_token c' = uuid m'" "tb_uuids t \<le> m'" "m' < tb_uuids t'"
    and j': "j' \<in> set (tb_jobs t')" "jb_id j' = cl_job_id c" "jb_claim_token j' = Some (uuid m')" using assms(5) by auto
  from assms(6) obtain m where m: "m < tb_uuids t" "cl_claim_token c = uuid m" by blast
  with m' assms(3) have "cl_claim_token c \<noteq> uuid m'" by (auto simp: inj_eq)
  moreover have "j = j'" if "j \<in> set (tb_jobs t')" "jb_id j = cl_job_id c" for j
    using same_id_same_row [OF table_ok_ids [OF table_ok_command [OF assms(1-3)]] that(1) j'(1)] that(2) j'(2) by simp
  ultimately show ?thesis using m m' j'(3) unfolding superseded_def by (auto intro!: exI [of _ m])
qed

text \<open>The transactions that act on a claim.\<close>

fun acts_on :: "command_event \<Rightarrow> worker_command_claim option" where
  "acts_on (Mark_executing c now) = Some c"
| "acts_on (Settle_succeeded c v http now) = Some c"
| "acts_on (Settle_failed c v http code summary now) = Some c"
| "acts_on _ = None"

lemma update_where_none: "(\<And>j. j \<in> set (tb_jobs t) \<Longrightarrow> \<not> p j) \<Longrightarrow> update_where p f t = (0, t)"
  by (cases t) (auto simp: update_where_def filter_empty_conv intro!: map_idI)

lemma superseded_fails:
  assumes "command_step sha uuid ev t = (out, t')" "superseded uuid c t" "acts_on ev = Some c"
  shows "t' = t \<and> (out = Updated False \<or> (\<exists>e. out = Raised e))"
proof -
  have none: "jb_claim_token j \<noteq> Some (cl_claim_token c)" if "j \<in> set (tb_jobs t)" "jb_id j = cl_job_id c" for j
    using assms(2) that by (auto simp: superseded_def)
  have mark: "mark_worker_command_executing c now t = (False, t)" for now
  proof -
    have "update_where (\<lambda>j. jb_id j = cl_job_id c \<and> jb_status j = Claimed \<and> jb_claim_token j = Some (cl_claim_token c)
        \<and> jb_side_effect_started_at j = None) f t = (0, t)" for f
      by (rule update_where_none) (use none in auto)
    then show ?thesis by (simp add: mark_worker_command_executing_def)
  qed
  have settle: "snd (settle_worker_command c st v http code summary now t) = t
      \<and> fst (settle_worker_command c st v http code summary now t) \<noteq> Inr True" for st v http code summary now
  proof -
    have "update_where (\<lambda>j. jb_id j = cl_job_id c \<and> jb_status j = Executing \<and> jb_claim_token j = Some (cl_claim_token c)) f t = (0, t)" for f
      by (rule update_where_none) (use none in auto)
    then show ?thesis unfolding settle_worker_command_def Let_def by (auto split: sum.split)
  qed
  show ?thesis
  proof (cases ev)
    case (Mark_executing c' now)
    with assms(1,3) mark show ?thesis by simp
  next
    case (Settle_succeeded c' v http now)
    with assms(1,3) settle [of Succeeded v http None None now] show ?thesis
      by (auto simp: outcome_of_def settle_worker_command_succeeded_def split: sum.splits)
  next
    case (Settle_failed c' v http code summary now)
    with assms(1,3) settle [of Failed v http "Some code" "Some summary" now] show ?thesis
      by (auto simp: outcome_of_def settle_worker_command_failed_def split: sum.splits)
  qed (use assms(3) in simp_all)
qed

section \<open>Properties\<close>

text \<open>
  Claim C3: over any interleaving of the transactions, from the empty table, at most one caller is
  ever let past the side-effect boundary of a job, and no claim of the job is handed out after that:
  an exchange call is never replayed.
\<close>

theorem side_effect_at_most_once:
  assumes "inj uuid" "run_commands sha uuid evs empty_table = (a @ x # b, t)" "crosses i x"
  shows "\<forall>y \<in> set b. \<not> crosses i y \<and> (\<forall>c. issues y c \<longrightarrow> cl_job_id c \<noteq> i)"
proof -
  obtain ev out where x: "x = (ev, out)" by (cases x)
  obtain evs1 evs2 t1 t2 where r: "run_commands sha uuid evs1 empty_table = (a, t1)"
    "command_step sha uuid ev t1 = (out, t2)" "run_commands sha uuid evs2 t2 = (b, t)" "table_ok uuid t1" "table_ok uuid t2"
    by (rule run_commands_split [OF assms(2) [unfolded x] table_ok_empty assms(1)])
  from crosses_iff_crossed [OF r(2,4)] assms(3) x have c: "crossed i t2" by simp
  show ?thesis
  proof
    fix y assume "y \<in> set b"
    then obtain b1 b2 where b: "b = b1 @ y # b2" by (auto simp: in_set_conv_decomp)
    obtain ev' out' where y: "y = (ev', out')" by (cases y)
    obtain evs3 evs4 t3 t4 where s: "run_commands sha uuid evs3 t2 = (b1, t3)" "command_step sha uuid ev' t3 = (out', t4)"
      "run_commands sha uuid evs4 t4 = (b2, t)" "table_ok uuid t3" "table_ok uuid t4"
      by (rule run_commands_split [OF r(3) [unfolded b y] r(5) assms(1)])
    from crossed_run [OF s(1) r(5) assms(1) c] have "crossed i t3" .
    then have "\<not> crosses i y" using crosses_iff_crossed [OF s(2,4), of i] y by blast
    moreover have "cl_job_id c \<noteq> i" if "issues y c" for c
      using issued_claim(1) [OF s(2,4), of c] that y \<open>crossed i t3\<close> by blast
    ultimately show "\<not> crosses i y \<and> (\<forall>c. issues y c \<longrightarrow> cl_job_id c \<noteq> i)" by blast
  qed
qed

text \<open>
  Claim C12: a worker that lost its job to a later claim is fenced off: whatever it then tries with its
  own claim changes nothing and does not report success.
\<close>

theorem stale_claim_is_fenced:
  assumes "inj uuid" "run_commands sha uuid evs empty_table = (a @ x # b @ y # d @ (ev, out) # rest, t)"
    and "issues x c" "issues y c'" "cl_job_id c' = cl_job_id c" "acts_on ev = Some c"
  shows "out = Updated False \<or> (\<exists>e. out = Raised e)"
proof -
  obtain ex ox where x: "x = (ex, ox)" by (cases x)
  obtain ey oy where y: "y = (ey, oy)" by (cases y)
  obtain evs1 evs2 t1 t2 where r: "run_commands sha uuid evs1 empty_table = (a, t1)" "command_step sha uuid ex t1 = (ox, t2)"
    "run_commands sha uuid evs2 t2 = (b @ y # d @ (ev, out) # rest, t)" "table_ok uuid t1" "table_ok uuid t2"
    by (rule run_commands_split [OF assms(2) [unfolded x] table_ok_empty assms(1)])
  from issued_claim(2) [OF r(2,4)] assms(3) x obtain m where m: "cl_claim_token c = uuid m" "m < tb_uuids t2" by blast
  obtain evs3 evs4 t3 t4 where s: "run_commands sha uuid evs3 t2 = (b, t3)" "command_step sha uuid ey t3 = (oy, t4)"
    "run_commands sha uuid evs4 t4 = (d @ (ev, out) # rest, t)" "table_ok uuid t3" "table_ok uuid t4"
    by (rule run_commands_split [OF r(3) [unfolded y] r(5) assms(1)])
  have "m < tb_uuids t3" using m(2) drawn_run [OF s(1) r(5) assms(1)] by simp
  with m(1) have drawn: "\<exists>m < tb_uuids t3. cl_claim_token c = uuid m" by blast
  have "superseded uuid c t4"
    by (rule later_claim_supersedes [OF s(2,4) assms(1) _ assms(5) drawn]) (use assms(4) y in simp)
  moreover obtain evs5 evs6 t5 t6 where u: "run_commands sha uuid evs5 t4 = (d, t5)" "command_step sha uuid ev t5 = (out, t6)"
    "run_commands sha uuid evs6 t6 = (rest, t)" "table_ok uuid t5" "table_ok uuid t6"
    by (rule run_commands_split [OF s(3,5) assms(1)])
  ultimately have "superseded uuid c t5" using superseded_run [OF u(1) s(5) assms(1)] by simp
  from superseded_fails [OF u(2) this assms(6)] show ?thesis by simp
qed

text \<open>An example run: two claims of the same job, the first of them after its lease ran out.\<close>

lemma nat_digits_inj: "inj nat_digits"
  by (rule inj_on_inverseI [where g = digits_val]) simp

definition example_claim :: "nat \<Rightarrow> int \<Rightarrow> worker_command_claim" where
  "example_claim attempt now =
     \<lparr>cl_job_id = 1, cl_command_id = ''0'', cl_command_type = ''close_bound_position'', cl_request = JDict [(''lot'', JInt 7)],
      cl_request_fingerprint = ''f'', cl_attempt_count = attempt, cl_claim_token = nat_digits attempt, cl_claimed_at = now,
      cl_lease_expires_at = now + 30000000\<rparr>"

definition example_events :: "command_event list" where
  "example_events =
     [Enqueue ''close_bound_position'' (JDict [(''lot'', JInt 7)]) (VStr '' key-1 '') 0,
      Claim_batch 1 30000000 20 None, Claim_batch 40000000 30000000 20 None,
      Mark_executing (example_claim 1 1) 40000001, Mark_executing (example_claim 2 40000000) 40000002,
      Mark_executing (example_claim 2 40000000) 40000003,
      Claim_batch 99000000 30000000 20 None, Expire 99000001]"

abbreviation "example_run \<equiv> run_commands (\<lambda>s. ''f'') nat_digits example_events empty_table"

lemma example_outcomes:
  "map snd (tl (fst example_run)) =
     [Claims [example_claim 1 1], Claims [example_claim 2 40000000], Updated False, Updated True, Updated False,
      Claims [], Expired 1]"
  "map fst (fst example_run) = example_events"
  by code_simp+


lemma split_at: "i < length (fst r) \<Longrightarrow> r = (take i (fst r) @ fst r ! i # drop (Suc i) (fst r), snd r)"
  by (simp add: id_take_nth_drop [symmetric])

lemma example_parts:
  "example_run = (take 4 (fst example_run) @ (Mark_executing (example_claim 2 40000000) 40000002, Updated True)
      # drop 5 (fst example_run), snd example_run)"
  "example_run = ([fst example_run ! 0] @ (Claim_batch 1 30000000 20 None, Claims [example_claim 1 1])
      # [] @ (Claim_batch 40000000 30000000 20 None, Claims [example_claim 2 40000000])
      # [] @ (Mark_executing (example_claim 1 1) 40000001, snd (fst example_run ! 3)) # drop 4 (fst example_run), snd example_run)"
  by code_simp+

theorem side_effect_at_most_once_witness: "\<not> crosses 1 (fst example_run ! 5) \<and> \<not> issues (fst example_run ! 6) (example_claim 3 99000000)"
proof -
  have m: "fst example_run ! 5 \<in> set (drop 5 (fst example_run))" "fst example_run ! 6 \<in> set (drop 5 (fst example_run))"
    by code_simp+
  have c: "crosses 1 (Mark_executing (example_claim 2 40000000) 40000002, Updated True)" by code_simp
  note s = side_effect_at_most_once [OF nat_digits_inj example_parts(1) c]
  have "cl_job_id (example_claim 3 99000000) = 1" by (simp add: example_claim_def)
  with bspec [OF s m(1)] bspec [OF s m(2)] show ?thesis by blast
qed

theorem stale_claim_is_fenced_witness: "snd (fst example_run ! 3) = Updated False \<or> (\<exists>e. snd (fst example_run ! 3) = Raised e)"
  by (rule stale_claim_is_fenced [OF nat_digits_inj example_parts(2), where c = "example_claim 1 1" and c' = "example_claim 2 40000000"])
    (simp_all add: example_claim_def)

section \<open>The table and its contract\<close>

lemma run_empty_ok: "inj uuid \<Longrightarrow> run_commands sha uuid evs empty_table = (outs, t) \<Longrightarrow> table_ok uuid t"
  by (rule run_commands_ok [OF _ table_ok_empty])

text \<open>
  After any sequence of transactions from the empty table, ids, command ids, claim tokens and
  the pair of type and idempotency key each name at most one row, and every row carries what its
  status says: a token and a lease while it is claimed or executing and none otherwise, the start of
  its side effect from executing on and not before, a result and a status in 100..599 once settled.
\<close>

theorem command_table_invariant:
  assumes "inj uuid" "run_commands sha uuid evs empty_table = (outs, t)"
  shows "table_ok uuid t"
  by (rule run_commands_ok [OF assms(2) table_ok_empty assms(1)])

theorem command_table_invariant_witness: "table_ok nat_digits (snd example_run)"
  by (rule command_table_invariant [OF nat_digits_inj]) (rule prod.collapse [symmetric])

text \<open>
  Claim C15: the table refines the queue's contract: seen through \<open>life_of\<close>, a transaction on a
  reachable table leaves each job where it is or moves it one step of the contract, in which a
  job that ran is never waiting or claimed again.
\<close>

theorem command_lifecycle_refines:
  assumes "inj uuid" "run_commands sha uuid evs empty_table = (outs, t)" "command_step sha uuid ev t = (out, t')"
  shows "life_of i t' = life_of i t \<or> life_step (life_of i t) (life_of i t')"
proof -
  obtain g added where "table_step t t' g added"
    using table_step_command [OF assms(3) table_ok_ids [OF run_empty_ok [OF assms(1,2)]]] by blast
  then show ?thesis by (rule table_step_life)
qed

theorem command_lifecycle_refines_witness:
  "life_of 1 (snd (command_step (\<lambda>s. ''f'') nat_digits (Expire 99000001) (snd example_run))) = life_of 1 (snd example_run)
   \<or> life_step (life_of 1 (snd example_run))
       (life_of 1 (snd (command_step (\<lambda>s. ''f'') nat_digits (Expire 99000001) (snd example_run))))"
  by (rule command_lifecycle_refines [OF nat_digits_inj prod.collapse [symmetric] prod.collapse [symmetric]])

section \<open>Idempotent submission\<close>

lemma row_persists:
  assumes "command_step sha uuid ev t = (out, t')" "table_ok uuid t" "j \<in> set (tb_jobs t)"
  shows "\<exists>j' \<in> set (tb_jobs t'). same_name j j'"
proof -
  obtain g added where "table_step t t' g added"
    using table_step_command [OF assms(1) table_ok_ids [OF assms(2)]] by blast
  with assms(3) have "row_step j (g j)" "g j \<in> set (tb_jobs t')" by (auto simp: table_step_def)
  then show ?thesis by (auto simp: row_step_def intro!: bexI [of _ "g j"])
qed

lemma same_name_trans: "same_name j j' \<Longrightarrow> same_name j' j'' \<Longrightarrow> same_name j j''"
  by (simp add: same_name_def)

lemma row_persists_run:
  assumes "run_commands sha uuid evs t = (outs, t')" "table_ok uuid t" "inj uuid" "j \<in> set (tb_jobs t)"
  shows "\<exists>j' \<in> set (tb_jobs t'). same_name j j'"
  using assms
proof (induction evs arbitrary: t outs j)
  case (Cons ev evs)
  then obtain out t1 outs' where s: "command_step sha uuid ev t = (out, t1)" "run_commands sha uuid evs t1 = (outs', t')"
    by (auto simp: run_commands_Cons)
  obtain j1 where j1: "j1 \<in> set (tb_jobs t1)" "same_name j j1" using row_persists [OF s(1) Cons.prems(2,4)] by blast
  obtain j2 where "j2 \<in> set (tb_jobs t')" "same_name j1 j2"
    using Cons.IH [OF s(2) table_ok_command [OF s(1) Cons.prems(2,3)] Cons.prems(3) j1(1)] by blast
  with j1(2) same_name_trans show ?case by blast
qed (auto intro: same_name_refl)

lemma identified_row:
  assumes "table_ok uuid t" "identifies name (tb_jobs t)" "j \<in> set (tb_jobs t)" "j' \<in> set (tb_jobs t)"
    and "name j = Some x" "name j' = Some x"
  shows "j = j'"
  using same_id_same_row [OF table_ok_ids [OF assms(1)] assms(3,4)] identifiesD [OF assms(2-6)] by blast

lemma find_identified:
  assumes "j \<in> set js" "p j" "\<And>j'. j' \<in> set js \<Longrightarrow> p j' \<Longrightarrow> j' = j"
  shows "find p js = Some j"
  using find_mem [of j js p] assms by blast

lemma get_named:
  assumes "table_ok uuid t" "j \<in> set (tb_jobs t)"
  shows "get_worker_command (jb_command_id j) t = rbind (command_snapshot j) (\<lambda>s. Inr (Some s))"
proof -
  have n: "identifies (\<lambda>j. Some (jb_command_id j)) (tb_jobs t)" using assms(1) by (simp add: table_ok_def)
  have "find (\<lambda>j'. jb_command_id j' = jb_command_id j) (tb_jobs t) = Some j"
    by (rule find_identified) (use assms(2) identified_row [OF assms(1) n _ assms(2)] in auto)
  then show ?thesis by (simp add: get_worker_command_def)
qed

lemma existing_named:
  assumes "table_ok uuid t" "j \<in> set (tb_jobs t)" "jb_idempotency_key j = Some key"
  shows "existing_command (jb_command_type j) (Some key) t = Some j"
proof -
  have n: "identifies idempotency_name (tb_jobs t)" using assms(1) by (simp add: table_ok_def)
  have "find (\<lambda>j'. jb_command_type j' = jb_command_type j \<and> jb_idempotency_key j' = Some key) (tb_jobs t) = Some j"
    by (rule find_identified)
      (use assms(2,3) identified_row [OF assms(1) n _ assms(2)] in \<open>auto simp: idempotency_name_def\<close>)
  then show ?thesis by (simp add: existing_command_def)
qed

lemma snapshot_names:
  "command_snapshot j = Inr s \<Longrightarrow> sn_command_id s = jb_command_id j \<and> sn_request_fingerprint s = jb_request_fingerprint j"
  by (auto simp: command_snapshot_def rbind_Inr_iff)

text \<open>The row a submission under a key leaves behind.\<close>

lemma enqueued_row:
  assumes "enqueue_worker_command sha uuid ctype request key now t = (Inr s, t')" "validated_idempotency_key key = Inr (Some k)"
    and "canonical_worker_command_request sha ctype request = Inr (cj, fp)"
  shows "\<exists>j \<in> set (tb_jobs t'). jb_command_type j = ctype \<and> jb_idempotency_key j = Some k \<and> jb_request_fingerprint j = fp
    \<and> jb_command_id j = sn_command_id s"
proof (cases "existing_command ctype (Some k) t")
  case (Some j)
  with assms have "t' = t" "jb_request_fingerprint j = fp" "command_snapshot j = Inr s"
    by (auto simp: enqueue_worker_command_def reattach_def split: if_splits)
  moreover from this have "sn_command_id s = jb_command_id j" by (simp add: snapshot_names)
  ultimately show ?thesis using existing_command_Some [OF Some] by auto
next
  case None
  let ?row = "new_job (next_id t) (uuid (tb_uuids t)) ctype cj fp (Some k) now"
  from None assms have "t' = add_job ?row 1 t" "command_snapshot ?row = Inr s"
    by (auto simp: enqueue_worker_command_def Let_def split: sum.splits)
  moreover from this have "sn_command_id s = uuid (tb_uuids t)" by (simp add: snapshot_names new_job_def)
  ultimately show ?thesis by (auto simp: add_job_def new_job_def)
qed

text \<open>
  Submitting again under a key never makes a second command, whatever happened in between:
  the same canonical request is answered with the command first made, as it now stands, and another
  one with the conflict that names it, and the table is unchanged.
\<close>

theorem enqueue_is_idempotent:
  assumes "inj uuid" "run_commands sha uuid evs empty_table = (outs, t)"
    and "enqueue_worker_command sha uuid ctype request key now t = (Inr s, t1)"
    and "run_commands sha uuid evs' t1 = (outs', t2)"
    and "validated_idempotency_key key = Inr (Some k)" "validated_idempotency_key key' = Inr (Some k)"
    and "canonical_worker_command_request sha ctype request = Inr (cj, fp)"
    and "canonical_worker_command_request sha ctype request' = Inr (cj', fp')"
  shows "enqueue_worker_command sha uuid ctype request' key' now' t2 =
    (if fp' = fp then rbind (get_worker_command (sn_command_id s) t2) (\<lambda>x. Inr (the x))
     else Inl (WorkerCommandIdempotencyConflict (sn_command_id s)), t2)"
proof -
  have ok1: "table_ok uuid t1"
    using table_ok_command [of sha uuid "Enqueue ctype request key now" t "Enqueued s" t1] assms(1,3) run_empty_ok [OF assms(1,2)]
    by (simp add: outcome_of_def)
  from enqueued_row [OF assms(3,5,7)] obtain j1 where j1: "j1 \<in> set (tb_jobs t1)" "jb_command_type j1 = ctype"
    "jb_idempotency_key j1 = Some k" "jb_request_fingerprint j1 = fp" "jb_command_id j1 = sn_command_id s" by blast
  from row_persists_run [OF assms(4) ok1 assms(1) j1(1)] obtain j where j: "j \<in> set (tb_jobs t2)" "same_name j1 j" by blast
  with j1 have n: "jb_command_type j = ctype" "jb_idempotency_key j = Some k" "jb_request_fingerprint j = fp"
    "jb_command_id j = sn_command_id s" by (simp_all add: same_name_def)
  have ok2: "table_ok uuid t2" by (rule run_commands_ok [OF assms(4) ok1 assms(1)])
  have "existing_command ctype (Some k) t2 = Some j" using existing_named [OF ok2 j(1) n(2)] n(1) by simp
  moreover have "get_worker_command (sn_command_id s) t2 = rbind (command_snapshot j) (\<lambda>s. Inr (Some s))"
    using get_named [OF ok2 j(1)] n(4) by simp
  ultimately show ?thesis using assms(6,8) n(3,4)
    by (cases "command_snapshot j") (auto simp: enqueue_worker_command_def reattach_def)
qed


definition example_table :: job_table where
  "example_table = snd (enqueue_worker_command (\<lambda>s. s) nat_digits ''close_bound_position'' (JDict [(''lot'', JInt 7)])
     (VStr '' key-1 '') 0 empty_table)"

definition example_snapshot :: worker_command_snapshot where
  "example_snapshot = (case fst (enqueue_worker_command (\<lambda>s. s) nat_digits ''close_bound_position'' (JDict [(''lot'', JInt 7)])
     (VStr '' key-1 '') 0 empty_table) of Inr s \<Rightarrow> s)"

theorem enqueue_is_idempotent_witness:
  "enqueue_worker_command (\<lambda>s. s) nat_digits ''close_bound_position'' (JDict [(''lot'', JInt 8)]) (VStr ''key-1'') 9
     (snd (run_commands (\<lambda>s. s) nat_digits (tl example_events) example_table))
   = (Inl (WorkerCommandIdempotencyConflict ''0''), snd (run_commands (\<lambda>s. s) nat_digits (tl example_events) example_table))"
proof -
  have e: "run_commands (\<lambda>s. s) nat_digits [] empty_table = ([], empty_table)" by simp
  have s: "enqueue_worker_command (\<lambda>s. s) nat_digits ''close_bound_position'' (JDict [(''lot'', JInt 7)]) (VStr '' key-1 '') 0
      empty_table = (Inr example_snapshot, example_table)" by code_simp
  have k: "validated_idempotency_key (VStr '' key-1 '') = Inr (Some ''key-1'')"
    "validated_idempotency_key (VStr ''key-1'') = Inr (Some ''key-1'')" by code_simp+
  let ?r = "\<lambda>n. canonical_worker_command_request (\<lambda>s. s) ''close_bound_position'' (JDict [(''lot'', JInt n)])"
  obtain cj fp where c: "?r 7 = Inr (cj, fp)" by (cases "?r 7") (code_simp, auto)
  obtain cj' fp' where c': "?r 8 = Inr (cj', fp')" by (cases "?r 8") (code_simp, auto)
  have "?r 7 \<noteq> ?r 8" by code_simp
  with c c' have "fp' \<noteq> fp" by (auto simp: canonical_worker_command_request_def split: option.splits if_splits)
  moreover have "sn_command_id example_snapshot = ''0''" by code_simp
  ultimately show ?thesis
    using enqueue_is_idempotent [OF nat_digits_inj e s prod.collapse [symmetric] k c c', of 9] by simp
qed

section \<open>Fair claiming\<close>

definition created_key :: "worker_command_job \<Rightarrow> int \<times> nat" where
  "created_key j = (jb_created_at j, jb_id j)"

lemma claims_of_ids: "claims_of n uuid rows cs \<Longrightarrow> map cl_job_id cs = map jb_id rows"
  by (induction rows arbitrary: n cs) (auto simp: claim_of_def)

lemma oldest_claimable_length:
  "length (oldest_claimable now allowed limit t) = min limit (length (filter (claimable now allowed) (tb_jobs t)))"
  by (simp add: oldest_claimable_def)

lemma oldest_claimable_oldest:
  assumes "j \<in> set (oldest_claimable now allowed limit t)" "k \<in> set (tb_jobs t)" "claimable now allowed k"
    and "k \<notin> set (oldest_claimable now allowed limit t)"
  shows "created_key j \<le> created_key k"
proof -
  let ?xs = "py_sorted created_key False (filter (claimable now allowed) (tb_jobs t))"
  have o: "oldest_claimable now allowed limit t = take limit ?xs"
    by (simp add: oldest_claimable_def created_key_def [abs_def])
  have "sorted_wrt (\<lambda>x y. created_key x \<le> created_key y) (take limit ?xs @ drop limit ?xs)"
    using sorted_wrt_py_sorted [of False created_key "filter (claimable now allowed) (tb_jobs t)"] by (simp add: dir_le_def)
  moreover have "k \<in> set ?xs" using assms(2,3) by simp
  then have "k \<in> set (take limit ?xs) \<union> set (drop limit ?xs)" by (metis append_take_drop_id set_append)
  ultimately show ?thesis using assms(1,4) unfolding o sorted_wrt_append by blast
qed

lemma claimed_row_held:
  assumes "claims_of n uuid rows cs" "distinct (map jb_id js)" "set rows \<subseteq> set js" "c \<in> set cs" "distinct (map jb_id rows)"
    and "tb_jobs t' = map (claimed_in uuid n now lease rows) js"
  shows "life_of (cl_job_id c) t' = Held (cl_claim_token c)"
proof -
  obtain i where i: "i < length rows" "claim_of (n + i) uuid (rows ! i) c" using claims_of_mem [OF assms(1,4)] by blast
  have row: "rows ! i \<in> set js" using assms(3) i(1) by auto
  have "claimed_in uuid n now lease rows (rows ! i) = claimed_job (uuid (n + i)) now lease (Suc (jb_attempt_count (rows ! i))) (rows ! i)"
    by (rule claimed_in_nth [OF assms(5) i(1)])
  moreover have "find (\<lambda>j. jb_id j = jb_id (rows ! i)) (tb_jobs t') = Some (claimed_in uuid n now lease rows (rows ! i))"
  proof -
    have "jb_id (claimed_in uuid n now lease rows j) = jb_id j" for j
      using claimed_in_cases [of uuid n now lease rows j] by (auto simp: claimed_job_def)
    then show ?thesis using find_row [OF assms(2) row] by (simp add: assms(6) find_row_map)
  qed
  ultimately show ?thesis using i(2) by (simp add: life_of_def life_of_job_def claim_of_def claimed_job_def)
qed

text \<open>
  A batch takes the oldest work there is: as many jobs as the limit and the claimable jobs
  allow, each of them waiting or abandoned before it ran and of an allowed type, none younger than a
  claimable job left behind; and each is held under its claim's token afterwards.
\<close>

theorem claim_takes_the_oldest:
  assumes "inj uuid" "run_commands sha uuid evs empty_table = (outs, t)"
    and "claim_worker_commands uuid now lease_for limit allowed t = (Inr cs, t')"
  shows "distinct (map cl_job_id cs)
    \<and> length cs = min (nat limit) (length (filter (claimable now allowed) (tb_jobs t)))
    \<and> (\<forall>c \<in> set cs. life_of (cl_job_id c) t' = Held (cl_claim_token c)
        \<and> (\<exists>j \<in> set (tb_jobs t). jb_id j = cl_job_id c \<and> claimable now allowed j
            \<and> (\<forall>k \<in> set (tb_jobs t). claimable now allowed k \<and> jb_id k \<notin> cl_job_id ` set cs \<longrightarrow> created_key j \<le> created_key k)))"
proof (cases "nat limit = 0 \<or> allowed = Some []")
  case True
  then have "cs = []" using assms(3) by (auto simp: claim_worker_commands_def Let_def split: if_splits)
  moreover have "filter (claimable now allowed) (tb_jobs t) = []" if "allowed = Some []"
    using that by (simp add: filter_empty_conv claimable_def)
  ultimately show ?thesis using True by auto
next
  case False
  have ids: "distinct (map jb_id (tb_jobs t))" by (rule table_ok_ids [OF run_empty_ok [OF assms(1,2)]])
  let ?rows = "oldest_claimable now allowed (nat limit) t"
  note o = oldest_claimable_rows [OF ids, where now = now and allowed = allowed and limit = "nat limit"]
  obtain t1 where r: "claim_rows uuid now (lease_end now lease_for) ?rows t = Inr (cs, t1)" "t' = t1"
  proof -
    have "nat (max 0 limit) = nat limit" by simp
    with assms(3) False show thesis unfolding claim_worker_commands_def Let_def by (auto split: sum.splits intro: that)
  qed
  from claim_rows_effect [OF r(1) ids o(2,1,3)]
  have e: "tb_jobs t' = map (claimed_in uuid (tb_uuids t) now (lease_end now lease_for) ?rows) (tb_jobs t)"
    "claims_of (tb_uuids t) uuid ?rows cs" using r(2) by auto
  from claims_of_ids [OF e(2)] have m: "map cl_job_id cs = map jb_id ?rows" .
  then have s: "cl_job_id ` set cs = jb_id ` set ?rows" by (metis list.set_map)
  have "length cs = length ?rows" using m by (metis length_map)
  then have len: "length cs = min (nat limit) (length (filter (claimable now allowed) (tb_jobs t)))"
    by (simp add: oldest_claimable_length)
  have "\<exists>j \<in> set (tb_jobs t). jb_id j = cl_job_id c \<and> claimable now allowed j
      \<and> (\<forall>k \<in> set (tb_jobs t). claimable now allowed k \<and> jb_id k \<notin> cl_job_id ` set cs \<longrightarrow> created_key j \<le> created_key k)"
    if c: "c \<in> set cs" for c
  proof -
    from c s obtain j where j: "j \<in> set ?rows" "jb_id j = cl_job_id c" by (metis imageE imageI)
    have "k \<notin> set ?rows" if "jb_id k \<notin> cl_job_id ` set cs" for k using that unfolding s by blast
    with o j oldest_claimable_oldest [OF j(1)] show ?thesis by (intro bexI [of _ j]) auto
  qed
  moreover have "life_of (cl_job_id c) t' = Held (cl_claim_token c)" if "c \<in> set cs" for c
    by (rule claimed_row_held [OF e(2) ids o(1) that o(2) e(1)])
  ultimately show ?thesis using len m o(2) by simp
qed


theorem claim_takes_the_oldest_witness:
  "length [example_claim 2 40000000] = min (nat 20) (length (filter (claimable 40000000 None)
      (tb_jobs (snd (run_commands (\<lambda>s. ''f'') nat_digits (take 2 example_events) empty_table)))))
   \<and> life_of 1 (snd (run_commands (\<lambda>s. ''f'') nat_digits (take 3 example_events) empty_table)) = Held ''2''"
proof -
  let ?t = "snd (run_commands (\<lambda>s. ''f'') nat_digits (take 2 example_events) empty_table)"
  let ?t' = "snd (run_commands (\<lambda>s. ''f'') nat_digits (take 3 example_events) empty_table)"
  have c: "claim_worker_commands nat_digits 40000000 30000000 20 None ?t = (Inr [example_claim 2 40000000], ?t')" by code_simp
  note f = claim_takes_the_oldest [OF nat_digits_inj prod.collapse [symmetric] c]
  have "example_claim 2 40000000 \<in> set [example_claim 2 40000000]" by simp
  from bspec [OF conjunct2 [OF conjunct2 [OF f]] this]
  have "life_of (cl_job_id (example_claim 2 40000000)) ?t' = Held (cl_claim_token (example_claim 2 40000000))" by (rule conjunct1)
  moreover have "cl_job_id (example_claim 2 40000000) = 1" "cl_claim_token (example_claim 2 40000000) = ''2''" by code_simp+
  ultimately have "life_of 1 ?t' = Held ''2''" by (simp only:)
  with conjunct1 [OF conjunct2 [OF f]] show ?thesis by (rule conjI)
qed


section \<open>The canonical request\<close>

text \<open>What a request is made of, as the scan for secrets walks it: through dictionaries and lists.\<close>

inductive inside :: "json \<Rightarrow> json \<Rightarrow> bool" where
  here: "inside v v"
| in_dict: "(key, c) \<in> set kvs \<Longrightarrow> inside w c \<Longrightarrow> inside w (JDict kvs)"
| in_list: "c \<in> set xs \<Longrightarrow> inside w c \<Longrightarrow> inside w (JList xs)"

lemma find_secret_items_None:
  "find_secret_items kvs path = None \<Longrightarrow> (key, c) \<in> set kvs \<Longrightarrow>
   \<not> secret_key key \<and> find_secret_path c (path @ ''.'' @ key) = None"
  by (induction kvs) (auto split: if_splits option.splits)

lemma find_secret_elements_None:
  "find_secret_elements xs n path = None \<Longrightarrow> c \<in> set xs \<Longrightarrow> \<exists>p. find_secret_path c p = None"
  by (induction xs arbitrary: n) (auto split: option.splits)

lemma find_secret_path_None:
  "inside w v \<Longrightarrow> find_secret_path v path = None \<Longrightarrow> w = JDict kvs \<Longrightarrow> (key, c) \<in> set kvs \<Longrightarrow> \<not> secret_key key"
proof (induction arbitrary: path rule: inside.induct)
  case (here v)
  then show ?case using find_secret_items_None by auto
next
  case (in_dict key' c' kvs' w)
  then show ?case using find_secret_items_None [of kvs' path key' c'] by auto
next
  case (in_list c' xs w)
  then show ?case using find_secret_elements_None [of xs 0 path c'] by auto
qed

lemma canonical_requestD:
  assumes "canonical_worker_command_request sha ctype request = Inr (cj, fp)"
  shows "json_dumps request = Some cj" "length cj \<le> max_request_json_bytes" "find_secret_path request ''request'' = None"
    "fp = sha (ctype @ CHR 0x0A # cj)" "ctype \<in> set worker_command_types" "\<exists>kvs. request = JDict kvs"
  using assms by (auto simp: canonical_worker_command_request_def split: if_splits json.splits option.splits)

text \<open>
  What the worker will read back from an accepted request is the request itself, its tuples
  as lists and its keys in order; it fits the column; and two requests of one type with the same text
  are the same request, whatever the order of their keys.
\<close>

theorem request_round_trip:
  assumes "canonical_worker_command_request sha ctype request = Inr (cj, fp)" "floats_ok request"
  shows "loads cj = Inr (canonical_value request) \<and> length cj \<le> 16384
    \<and> (canonical_value request' = canonical_value request \<and> serialisable request' \<and> find_secret_path request' ''request'' = None
        \<longrightarrow> canonical_worker_command_request sha ctype request' = Inr (cj, fp))"
proof (intro conjI impI)
  note r = canonical_requestD [OF assms(1)]
  show "loads cj = Inr (canonical_value request)" using json_loads_dumps [OF r(1) assms(2)] by (simp add: loads_def)
  show "length cj \<le> 16384" using r(2) by (simp add: max_request_json_bytes_def)
  assume a: "canonical_value request' = canonical_value request \<and> serialisable request' \<and> find_secret_path request' ''request'' = None"
  then obtain s where s: "json_dumps request' = Some s" by (simp add: json_dumps_def)
  from json_dumps_canonical [OF this] json_dumps_canonical [OF r(1)] a have "s = cj" by simp
  moreover obtain kvs where "request = JDict kvs" using r(6) by blast
  with a have "\<exists>kvs. request' = JDict kvs" by (cases request') (auto simp: canonical_value_def)
  ultimately show "canonical_worker_command_request sha ctype request' = Inr (cj, fp)"
    using s a r(2,4,5) by (auto simp: canonical_worker_command_request_def)
qed

text \<open>
  No dictionary of an accepted request, at any depth of dictionaries and lists, has a key
  that names a credential, in whatever case, with whatever blanks around it and dashes in it.
\<close>

theorem accepted_request_has_no_secret:
  assumes "canonical_worker_command_request sha ctype request = Inr (cj, fp)" "inside (JDict kvs) request" "(key, c) \<in> set kvs"
  shows "\<not> secret_key key \<and> normalized_key key \<notin> set secret_field_names"
  using find_secret_path_None [OF assms(2) canonical_requestD(3) [OF assms(1)] refl assms(3)] by (simp add: secret_key_def Let_def)

text \<open>A tuple is not walked, yet it is written out as a list: the stored text then carries the key.\<close>

lemma tuple_hides_a_secret:
  "find_secret_path (JDict [(''a'', JTuple [JDict [(''api_key'', JStr ''k'')]])]) ''request'' = None"
  "Option.bind (json_dumps (JDict [(''a'', JTuple [JDict [(''api_key'', JStr ''k'')]])])) json_loads
     = Some (JDict [(''a'', JList [JDict [(''api_key'', JStr ''k'')]])])"
  "find_secret_path (JDict [(''a'', JList [JDict [(''api_key'', JStr ''k'')]])]) ''request'' = Some ''request.a[0].api_key''"
  by code_simp+

definition example_request :: json where
  "example_request = JDict [(''lot'', JInt 7), (''at'', JTuple [JFloat ''1.5'', JNull])]"

lemma example_request_accepted:
  "\<exists>cj. canonical_worker_command_request (\<lambda>s. ''f'') ''close_bound_position'' example_request = Inr (cj, ''f'')"
proof -
  let ?r = "canonical_worker_command_request (\<lambda>s. ''f'') ''close_bound_position'' example_request"
  have "case ?r of Inl e \<Rightarrow> False | Inr (cj, fp) \<Rightarrow> fp = ''f''" by code_simp
  then show ?thesis by (auto split: sum.splits)
qed

theorem request_round_trip_witness:
  "\<exists>cj. loads cj = Inr (JDict [(''at'', JList [JFloat ''1.5'', JNull]), (''lot'', JInt 7)])
     \<and> canonical_worker_command_request (\<lambda>s. ''f'') ''close_bound_position''
         (JDict [(''at'', JList [JFloat ''1.5'', JNull]), (''lot'', JInt 7)]) = Inr (cj, ''f'')"
proof -
  obtain cj where c: "canonical_worker_command_request (\<lambda>s. ''f'') ''close_bound_position'' example_request = Inr (cj, ''f'')"
    using example_request_accepted by blast
  let ?r = "JDict [(''at'', JList [JFloat ''1.5'', JNull]), (''lot'', JInt 7)]"
  have f: "floats_ok example_request" by code_simp
  have e: "canonical_value example_request = ?r" "canonical_value ?r = canonical_value example_request" "serialisable ?r"
    "find_secret_path ?r ''request'' = None" by code_simp+
  note r = request_round_trip [OF c f, of ?r]
  from conjunct1 [OF r] e(1) have "loads cj = Inr ?r" by simp
  moreover from conjunct2 [OF conjunct2 [OF r]] e(2-4)
  have "canonical_worker_command_request (\<lambda>s. ''f'') ''close_bound_position'' ?r = Inr (cj, ''f'')" by blast
  ultimately show ?thesis by blast
qed

theorem accepted_request_has_no_secret_witness: "\<not> secret_key ''lot'' \<and> normalized_key ''lot'' \<notin> set secret_field_names"
proof -
  obtain cj where c: "canonical_worker_command_request (\<lambda>s. ''f'') ''close_bound_position'' example_request = Inr (cj, ''f'')"
    using example_request_accepted by blast
  have "inside example_request example_request" by (rule here)
  then show ?thesis
    using accepted_request_has_no_secret [OF c, of "[(''lot'', JInt 7), (''at'', JTuple [JFloat ''1.5'', JNull])]" "''lot''" "JInt 7"]
    by (simp add: example_request_def)
qed

end
