(* ===== verification/Py_Datetime.thy ===== *)
theory Py_Datetime
  imports Py_Value
begin

text \<open>
  Python's \<open>datetime\<close> as the modelled modules use it: the wall clock, in microseconds since
  1970-01-01 00:00 of its own zone, and the zone's offset, if it has one. Comparing a naive with an
  aware one raises, as it does in Python.
\<close>

record py_datetime =
  dt_wall :: int
  dt_offset :: "int option"

text \<open>\<open>value.astimezone(UTC).replace(tzinfo=None)\<close>, or the value itself when it is naive.\<close>

definition as_utc_naive :: "py_datetime \<Rightarrow> py_datetime" where
  "as_utc_naive d = (case dt_offset d of None \<Rightarrow> d | Some off \<Rightarrow> \<lparr>dt_wall = dt_wall d - off, dt_offset = None\<rparr>)"

definition datetime_less :: "py_datetime \<Rightarrow> py_datetime \<Rightarrow> bool result" where
  "datetime_less a b =
     (if (dt_offset a = None) \<noteq> (dt_offset b = None)
      then Inl (TypeError ''can't compare offset-naive and offset-aware datetimes'')
      else Inr (dt_wall (as_utc_naive a) < dt_wall (as_utc_naive b)))"

section \<open>\<open>isoformat\<close>\<close>

text \<open>The proleptic Gregorian date of a day, counted from 1970-01-01; the year begins in March inside.\<close>

definition civil_date :: "int \<Rightarrow> int \<times> int \<times> int" where
  "civil_date days =
     (let z = days + 719468;
          era = z div 146097;
          doe = z mod 146097;
          yoe = (doe - doe div 1460 + doe div 36524 - doe div 146096) div 365;
          doy = doe - (365 * yoe + yoe div 4 - yoe div 100);
          mp = (5 * doy + 2) div 153;
          month = (if mp < 10 then mp + 3 else mp - 9);
          year = yoe + era * 400 + (if month \<le> 2 then 1 else 0)
      in (year, month, doy - (153 * mp + 2) div 5 + 1))"

definition padded :: "nat \<Rightarrow> int \<Rightarrow> string" where
  "padded n i = (let ds = nat_digits (nat i) in replicate (n - length ds) (CHR ''0'') @ ds)"

definition clock_text :: "int \<Rightarrow> string" where
  "clock_text us =
     padded 2 (us div 3600000000) @ '':'' @ padded 2 (us div 60000000 mod 60) @ '':'' @ padded 2 (us div 1000000 mod 60)
     @ (if us mod 1000000 = 0 then [] else ''.'' @ padded 6 (us mod 1000000))"

definition offset_text :: "int \<Rightarrow> string" where
  "offset_text off =
     (let us = \<bar>off\<bar> in
      (if off < 0 then ''-'' else ''+'')
      @ (if us mod 60000000 = 0 then padded 2 (us div 3600000000) @ '':'' @ padded 2 (us div 60000000 mod 60)
         else clock_text us))"

definition isoformat :: "py_datetime \<Rightarrow> string" where
  "isoformat d =
     (let (year, month, day) = civil_date (dt_wall d div 86400000000) in
      padded 4 year @ ''-'' @ padded 2 month @ ''-'' @ padded 2 day @ ''T'' @ clock_text (dt_wall d mod 86400000000)
      @ (case dt_offset d of None \<Rightarrow> [] | Some off \<Rightarrow> offset_text off))"

lemma isoformat_examples:
  "isoformat \<lparr>dt_wall = 0, dt_offset = None\<rparr> = ''1970-01-01T00:00:00''"
  "isoformat \<lparr>dt_wall = 1709210096000000, dt_offset = Some 28800000000\<rparr> = ''2024-02-29T12:34:56+08:00''"
  "isoformat \<lparr>dt_wall = -1, dt_offset = Some (-1800000000)\<rparr> = ''1969-12-31T23:59:59.999999-00:30''"
  by code_simp+

text \<open>Comparison on one side of naive and aware is the order of the instants.\<close>

lemma as_utc_naive_offset [simp]: "dt_offset (as_utc_naive d) = None"
  by (cases "dt_offset d") (simp_all add: as_utc_naive_def)

lemma as_utc_naive_idem [simp]: "as_utc_naive (as_utc_naive d) = as_utc_naive d"
  using as_utc_naive_offset [of d] by (simp add: as_utc_naive_def [of "as_utc_naive d"])

section \<open>\<open>fromisoformat\<close>\<close>

text \<open>
  The extended format \<open>YYYY-MM-DD\<close>, then one separating character and a clock \<open>HH[:MM[:SS[.f..]]]\<close>
  with an optional offset, which is what the program writes; digits of a fraction beyond the sixth are
  dropped. The other spellings of ISO 8601 (basic format, week dates) are answered with \<open>None\<close>, the
  \<open>ValueError\<close>.
\<close>

definition read_digits :: "nat \<Rightarrow> string \<Rightarrow> (int \<times> string) option" where
  "read_digits n s = (if n \<le> length s \<and> list_all is_digit (take n s) then Some (int (digits_val (take n s)), drop n s) else None)"

definition read_char :: "char \<Rightarrow> string \<Rightarrow> string option" where
  "read_char c s = (case s of [] \<Rightarrow> None | x # r \<Rightarrow> if x = c then Some r else None)"

definition read_fraction :: "string \<Rightarrow> (int \<times> string) option" where
  "read_fraction s =
     (if s \<noteq> [] \<and> (hd s = CHR ''.'' \<or> hd s = CHR '','')
      then let ds = takeWhile is_digit (tl s); six = take 6 ds in
        if ds = [] then None
        else Some (int (digits_val six) * 10 ^ (6 - length six), drop (length ds) (tl s))
      else Some (0, s))"

text \<open>A clock, in microseconds, and the rest of the text.\<close>

definition read_clock :: "string \<Rightarrow> (int \<times> string) option" where
  "read_clock s = Option.bind (read_digits 2 s) (\<lambda>(h, r1).
     if 24 \<le> h then None
     else case read_char (CHR '':'') r1 of
       None \<Rightarrow> Some (h * 3600000000, r1)
     | Some r2 \<Rightarrow> Option.bind (read_digits 2 r2) (\<lambda>(m, r3).
         if 60 \<le> m then None
         else case read_char (CHR '':'') r3 of
           None \<Rightarrow> Some (h * 3600000000 + m * 60000000, r3)
         | Some r4 \<Rightarrow> Option.bind (read_digits 2 r4) (\<lambda>(sec, r5).
             if 60 \<le> sec then None
             else map_option (\<lambda>(us, r6). (h * 3600000000 + m * 60000000 + sec * 1000000 + us, r6)) (read_fraction r5))))"

definition read_offset :: "string \<Rightarrow> int option option" where
  "read_offset s =
     (case s of
        [] \<Rightarrow> Some None
      | c # r \<Rightarrow>
          if c = CHR ''Z'' \<and> r = [] then Some (Some 0)
          else if c = CHR ''+'' \<or> c = CHR ''-''
          then (case read_clock r of Some (us, []) \<Rightarrow> Some (Some (if c = CHR ''-'' then - us else us)) | _ \<Rightarrow> None)
          else None)"

definition days_in_month :: "int \<Rightarrow> int \<Rightarrow> int" where
  "days_in_month year month =
     (if month = 2 then (if year mod 4 = 0 \<and> (year mod 100 \<noteq> 0 \<or> year mod 400 = 0) then 29 else 28)
      else if month \<in> {4, 6, 9, 11} then 30 else 31)"

definition days_of_civil :: "int \<Rightarrow> int \<Rightarrow> int \<Rightarrow> int" where
  "days_of_civil year month day =
     (let y = (if month \<le> 2 then year - 1 else year);
          yoe = y mod 400;
          doy = (153 * ((month + 9) mod 12) + 2) div 5 + day - 1
      in y div 400 * 146097 + (yoe * 365 + yoe div 4 - yoe div 100 + doy) - 719468)"

definition from_isoformat :: "string \<Rightarrow> py_datetime option" where
  "from_isoformat s =
     Option.bind (read_digits 4 s) (\<lambda>(year, r1). Option.bind (read_char (CHR ''-'') r1) (\<lambda>r2.
     Option.bind (read_digits 2 r2) (\<lambda>(month, r3). Option.bind (read_char (CHR ''-'') r3) (\<lambda>r4.
     Option.bind (read_digits 2 r4) (\<lambda>(day, r5).
       if year < 1 \<or> month < 1 \<or> 12 < month \<or> day < 1 \<or> days_in_month year month < day then None
       else let midnight = days_of_civil year month day * 86400000000 in
         (case r5 of
            [] \<Rightarrow> Some \<lparr>dt_wall = midnight, dt_offset = None\<rparr>
          | separator # r6 \<Rightarrow> Option.bind (read_clock r6) (\<lambda>(us, r7).
              map_option (\<lambda>off. \<lparr>dt_wall = midnight + us, dt_offset = off\<rparr>) (read_offset r7))))))))"

text \<open>\<open>a - b\<close> in microseconds; a naive and an aware one have no difference.\<close>

definition datetime_minus :: "py_datetime \<Rightarrow> py_datetime \<Rightarrow> int result" where
  "datetime_minus a b =
     (if (dt_offset a = None) \<noteq> (dt_offset b = None)
      then Inl (TypeError ''can't subtract offset-naive and offset-aware datetimes'')
      else Inr (dt_wall (as_utc_naive a) - dt_wall (as_utc_naive b)))"

lemma from_isoformat_examples:
  "from_isoformat ''2024-02-29T12:34:56+08:00'' = Some \<lparr>dt_wall = 1709210096000000, dt_offset = Some 28800000000\<rparr>"
  "from_isoformat ''1969-12-31T23:59:59.999999-00:30'' = Some \<lparr>dt_wall = -1, dt_offset = Some (-1800000000)\<rparr>"
  "from_isoformat ''1970-01-01 00:00Z'' = Some \<lparr>dt_wall = 0, dt_offset = Some 0\<rparr>" "from_isoformat ''2023-02-29'' = None"
  "from_isoformat (isoformat \<lparr>dt_wall = 951782399000001, dt_offset = None\<rparr>) = Some \<lparr>dt_wall = 951782399000001, dt_offset = None\<rparr>"
  by code_simp+

end
