(* ===== verification/Protection_Assignment.thy ===== *)
theory Protection_Assignment
  imports Py_Decimal Py_Json Py_Datetime "HOL-Library.AList"
begin

text \<open>
  The account-wide assignment of anonymous protection orders to positions
  (\<open>trigger_protection_assignment.py\<close>): owners (our position legs) and candidates (resting protection
  orders) are joined by edges where their instrument, side, size and stop agree, and an order is
  assigned only along an edge that is the only one of both its ends.

  The texts of both dataclasses are strings, as they declare; \<open>created_at\<close> and its like are optional,
  since the code tests them. A dictionary is an association list in insertion order, assigning a key
  is \<open>AList.update\<close>. \<open>sha\<close> is \<open>hashlib.sha256(..).hexdigest()\<close>. The function raises where it looks up
  an order id it did not index (\<open>KeyError\<close>) or compares a naive with an aware time (\<open>TypeError\<close>).
\<close>

section \<open>Owners and candidates\<close>

record protection_owner =
  ow_leg_id :: int
  ow_binding_id :: int
  ow_pos_id :: string
  ow_instrument_id :: string
  ow_side :: string
  ow_size_text :: string
  ow_stop_price :: string
  ow_position_created_at :: "py_datetime option"
  ow_client_order_id :: "string option"
  ow_intent_id :: "int option"
  ow_intent_created_at :: "py_datetime option"
  ow_snapshot_observed_at :: "py_datetime option"
  ow_child_regular_order_id :: "string option"
  ow_child_exchange_created_at :: "py_datetime option"
  ow_child_exchange_created_at_raw :: "string option"
  ow_parent_trigger_order_id :: "string option"
  ow_request_fingerprint :: "string option"
  ow_owner_baseline_order_ids :: "string list"
  ow_owner_baseline_fingerprint :: "string option"
  ow_lineage_attestation_fingerprint :: "string option"
  ow_lineage_evidence_required :: bool
  ow_direct_identity_permitted :: bool

record protection_candidate =
  cd_order_id :: string
  cd_instrument_id :: string
  cd_side :: string
  cd_size_text :: string
  cd_stop_price :: string
  cd_created_at :: "py_datetime option"
  cd_order_id_aliases :: "string list"
  cd_instrument_id_aliases :: "string list"
  cd_side_aliases :: "string list"
  cd_size_aliases :: "string list"
  cd_stop_price_aliases :: "string list"
  cd_order_type_aliases :: "string list"
  cd_evidence_complete :: bool
  cd_explicit_pos_ids :: "string list"
  cd_explicit_parent_order_ids :: "string list"
  cd_explicit_client_order_ids :: "string list"
  cd_created_at_raw :: "string option"

record assignment_conflict =
  cf_reason_code :: string
  cf_owner_leg_ids :: "int list"
  cf_candidate_order_ids :: "string list"
  cf_evidence :: json

record assignment_result =
  ar_assignments :: "(int \<times> string) list"
  ar_evidence_by_leg :: "(int \<times> json) list"
  ar_exclusions :: "(string \<times> string) list"
  ar_conflicts :: "assignment_conflict list"
  ar_snapshot_fingerprint :: string

section \<open>Reading the texts\<close>

text \<open>\<open>tuple(sorted({str(value).strip() for value in values if str(value).strip()}))\<close>.\<close>

definition stripped_set :: "string list \<Rightarrow> string list" where
  "stripped_set values = sort (remdups (map py_strip (filter (\<lambda>v. py_strip v \<noteq> []) values)))"

definition explicit_pos_ids :: "protection_candidate \<Rightarrow> string list" where
  "explicit_pos_ids c = stripped_set (cd_explicit_pos_ids c)"

definition candidate_order_ids :: "protection_candidate \<Rightarrow> string list" where
  "candidate_order_ids c = stripped_set (if cd_order_id_aliases c = [] then [cd_order_id c] else cd_order_id_aliases c)"

definition explicit_parent_order_ids :: "protection_candidate \<Rightarrow> string list" where
  "explicit_parent_order_ids c = stripped_set (cd_explicit_parent_order_ids c)"

definition explicit_client_order_ids :: "protection_candidate \<Rightarrow> string list" where
  "explicit_client_order_ids c = stripped_set (cd_explicit_client_order_ids c)"

definition text_or_empty :: "string option \<Rightarrow> string" where
  "text_or_empty v = (case v of None \<Rightarrow> [] | Some s \<Rightarrow> s)"

definition datetime_text :: "py_datetime option \<Rightarrow> string" where
  "datetime_text v = (case v of None \<Rightarrow> [] | Some d \<Rightarrow> isoformat d)"

text \<open>\<open>str(Decimal(text))\<close>: the digits and the exponent are kept, so \<open>1.0\<close> and \<open>1.00\<close> differ.\<close>

definition scientific_text :: "string \<Rightarrow> int \<Rightarrow> string" where
  "scientific_text digits e =
     (let left = e + int (length digits);
          dot = (if e \<le> 0 \<and> - 6 < left then left else 1);
          body = (if dot \<le> 0 then ''0.'' @ replicate (nat (- dot)) (CHR ''0'') @ digits
            else if int (length digits) \<le> dot then digits @ replicate (nat dot - length digits) (CHR ''0'')
            else take (nat dot) digits @ ''.'' @ drop (nat dot) digits)
      in body @ (if left = dot then [] else ''E'' @ (if left < dot then [] else ''+'') @ int_text (left - dot)))"

definition special_text :: "string \<Rightarrow> string option" where
  "special_text s =
     (let t = py_lower s; payload = dropWhile (\<lambda>c. c = CHR ''0'') in
      if t = ''inf'' \<or> t = ''infinity'' then Some ''Infinity''
      else if take 3 t = ''nan'' \<and> list_all is_digit (drop 3 t) then Some (''NaN'' @ payload (drop 3 t))
      else if take 4 t = ''snan'' \<and> list_all is_digit (drop 4 t) then Some (''sNaN'' @ payload (drop 4 t))
      else None)"

definition canonical_number :: "string \<Rightarrow> string option" where
  "canonical_number s =
     (let t = filter (\<lambda>c. c \<noteq> CHR ''_'') (py_strip s);
          (sgn, body) = (case t of [] \<Rightarrow> ([], [])
            | c # r \<Rightarrow> if c = CHR ''-'' then (''-'', r) else if c = CHR ''+'' then ([], r) else ([], t));
          (i, r1) = split_digits body;
          (f, r2) = (case r1 of [] \<Rightarrow> ([], []) | c # r \<Rightarrow> if c = CHR ''.'' then split_digits r else ([], r1));
          digits = nat_digits (digits_val (i @ f))
      in map_option (\<lambda>u. sgn @ u)
        (if i = [] \<and> f = [] then special_text body
         else (case r2 of
             [] \<Rightarrow> Some (scientific_text digits (- int (length f)))
           | c # r \<Rightarrow> if c = CHR ''e'' \<or> c = CHR ''E''
               then map_option (\<lambda>e. scientific_text digits (e - int (length f))) (parse_exponent r) else None)))"

lemma canonical_number_examples:
  "canonical_number ''1.0'' = Some ''1.0''" "canonical_number '' -0.50 '' = Some ''-0.50''"
  "canonical_number ''1e3'' = Some ''1E+3''" "canonical_number ''12e-9'' = Some ''1.2E-8''"
  "canonical_number ''0.000001'' = Some ''0.000001''" "canonical_number ''1e-7'' = Some ''1E-7''"
  "canonical_number ''x'' = None" "canonical_number ''-Inf'' = Some ''-Infinity''" "canonical_number ''007'' = Some ''7''"
  by code_simp+

definition same_number :: "string \<Rightarrow> string \<Rightarrow> bool" where
  "same_number left right = (case (parse_decimal left, parse_decimal right) of
       (Some a, Some b) \<Rightarrow> a \<noteq> DNaN \<and> a = b
     | _ \<Rightarrow> False)"

definition normalize_side_alias :: "string \<Rightarrow> string" where
  "normalize_side_alias v =
     (let n = py_lower (py_strip v) in if n = ''buy'' then ''long'' else if n = ''sell'' then ''short'' else n)"

definition same_protection_signature :: "protection_owner \<Rightarrow> protection_candidate \<Rightarrow> bool" where
  "same_protection_signature o' c \<longleftrightarrow>
     py_upper (py_strip (ow_instrument_id o')) = py_upper (py_strip (cd_instrument_id c))
     \<and> py_lower (py_strip (ow_side o')) = py_lower (py_strip (cd_side c))
     \<and> same_number (ow_size_text o') (cd_size_text c) \<and> same_number (ow_stop_price o') (cd_stop_price c)"

definition nonblank :: "string list \<Rightarrow> string list" where
  "nonblank values = filter (\<lambda>v. py_strip v \<noteq> []) values"

definition candidate_shape_conflict :: "protection_candidate \<Rightarrow> string option" where
  "candidate_shape_conflict c =
     (let or_else = (\<lambda>aliases canonical. nonblank (if aliases = [] then [canonical] else aliases));
          texts = (\<lambda>normal aliases canonical. set (map normal (or_else aliases canonical)) \<noteq> {normal canonical});
          numbers = (\<lambda>aliases canonical. None \<in> set (map canonical_number (or_else aliases canonical))
            \<or> set (map canonical_number (or_else aliases canonical)) \<noteq> {canonical_number canonical})
      in if texts (\<lambda>v. py_upper (py_strip v)) (cd_instrument_id_aliases c) (cd_instrument_id c)
            \<or> texts normalize_side_alias (cd_side_aliases c) (cd_side c)
            \<or> numbers (cd_size_aliases c) (cd_size_text c)
            \<or> numbers (cd_stop_price_aliases c) (cd_stop_price c)
         then Some ''candidate_shape_alias_conflict'' else None)"

definition candidate_is_explicit_non_tpsl :: "protection_candidate \<Rightarrow> bool" where
  "candidate_is_explicit_non_tpsl c \<longleftrightarrow>
     (let order_types = remdups (map (\<lambda>v. py_upper (py_strip v)) (nonblank (cd_order_type_aliases c)))
      in length order_types = 1 \<and> order_types \<noteq> [''TPSL''])"

section \<open>The lineage of an order\<close>

definition attested :: "protection_owner \<Rightarrow> bool" where
  "attested o' \<longleftrightarrow> text_or_empty (ow_lineage_attestation_fingerprint o') \<noteq> []"

definition in_baseline :: "protection_owner \<Rightarrow> protection_candidate \<Rightarrow> bool" where
  "in_baseline o' c \<longleftrightarrow> cd_order_id c \<in> set (map py_strip (ow_owner_baseline_order_ids o'))"

definition lineage_edge_refusal :: "protection_owner \<Rightarrow> protection_candidate \<Rightarrow> string option" where
  "lineage_edge_refusal o' c =
     (if \<not> attested o' then Some ''lineage_attestation_missing''
      else if in_baseline o' c then Some ''candidate_in_owner_baseline''
      else case cd_created_at c of None \<Rightarrow> Some ''candidate_time_unavailable'' | Some created \<Rightarrow>
      (case ow_intent_created_at o' of None \<Rightarrow> Some ''intent_time_unavailable'' | Some intent \<Rightarrow>
      (case ow_child_exchange_created_at o' of None \<Rightarrow> Some ''child_time_unavailable'' | Some child \<Rightarrow>
      (case ow_snapshot_observed_at o' of None \<Rightarrow> Some ''snapshot_time_unavailable'' | Some snapshot \<Rightarrow>
        let child_raw = text_or_empty (ow_child_exchange_created_at_raw o');
            created_raw = text_or_empty (cd_created_at_raw c);
            candidate_time = as_utc_naive created
        in if child_raw = [] \<or> created_raw = [] \<or> py_strip created_raw \<noteq> py_strip child_raw
           then Some ''candidate_child_time_mismatch''
           else if candidate_time \<noteq> as_utc_naive child then Some ''candidate_child_time_mismatch''
           else if dt_wall candidate_time < dt_wall (as_utc_naive intent) then Some ''candidate_predates_submission_intent''
           else if dt_wall (as_utc_naive snapshot) < dt_wall candidate_time then Some ''candidate_after_snapshot''
           else None))))"

definition lineage_sequence_refusal :: "protection_owner \<Rightarrow> protection_candidate \<Rightarrow> string option" where
  "lineage_sequence_refusal o' c =
     (if \<not> ow_lineage_evidence_required o' then None
      else case cd_created_at c of None \<Rightarrow> Some ''candidate_time_unavailable'' | Some created \<Rightarrow>
      (case ow_intent_created_at o' of None \<Rightarrow> Some ''intent_time_unavailable'' | Some intent \<Rightarrow>
      (case ow_snapshot_observed_at o' of None \<Rightarrow> Some ''snapshot_time_unavailable'' | Some snapshot \<Rightarrow>
        if dt_wall (as_utc_naive created) < dt_wall (as_utc_naive intent) then Some ''candidate_predates_submission_intent''
        else if dt_wall (as_utc_naive snapshot) < dt_wall (as_utc_naive created) then Some ''candidate_after_snapshot''
        else None)))"

section \<open>The fingerprint of the snapshot\<close>

definition text_json :: "string option \<Rightarrow> json" where
  "text_json v = (case v of None \<Rightarrow> JNull | Some s \<Rightarrow> JStr s)"

definition texts_json :: "string list \<Rightarrow> json" where
  "texts_json values = JList (map JStr values)"

definition int_json :: "int option \<Rightarrow> json" where
  "int_json v = (case v of None \<Rightarrow> JNull | Some i \<Rightarrow> JInt i)"

definition candidate_fingerprint_payload :: "protection_candidate \<Rightarrow> json" where
  "candidate_fingerprint_payload c = JDict
     [(''order_id'', JStr (cd_order_id c)), (''instrument_id'', JStr (cd_instrument_id c)), (''side'', JStr (cd_side c)),
      (''size_text'', JStr (cd_size_text c)), (''stop_price'', JStr (cd_stop_price c)),
      (''created_at'', JStr (datetime_text (cd_created_at c))), (''order_id_aliases'', texts_json (cd_order_id_aliases c)),
      (''instrument_id_aliases'', texts_json (cd_instrument_id_aliases c)), (''side_aliases'', texts_json (cd_side_aliases c)),
      (''size_aliases'', texts_json (cd_size_aliases c)), (''stop_price_aliases'', texts_json (cd_stop_price_aliases c)),
      (''order_type_aliases'', texts_json (cd_order_type_aliases c)), (''evidence_complete'', JBool (cd_evidence_complete c)),
      (''explicit_pos_ids'', texts_json (explicit_pos_ids c)),
      (''explicit_parent_order_ids'', texts_json (explicit_parent_order_ids c)),
      (''explicit_client_order_ids'', texts_json (explicit_client_order_ids c)),
      (''created_at_raw'', text_json (cd_created_at_raw c))]"

definition owner_fingerprint_payload :: "protection_owner \<Rightarrow> json" where
  "owner_fingerprint_payload o' = JDict
     [(''leg_id'', JInt (ow_leg_id o')), (''binding_id'', JInt (ow_binding_id o')), (''pos_id'', JStr (ow_pos_id o')),
      (''instrument_id'', JStr (ow_instrument_id o')), (''side'', JStr (ow_side o')), (''size_text'', JStr (ow_size_text o')),
      (''stop_price'', JStr (ow_stop_price o')), (''position_created_at'', JStr (datetime_text (ow_position_created_at o'))),
      (''client_order_id'', text_json (ow_client_order_id o')), (''intent_id'', int_json (ow_intent_id o')),
      (''intent_created_at'', JStr (datetime_text (ow_intent_created_at o'))),
      (''child_regular_order_id'', text_json (ow_child_regular_order_id o')),
      (''child_exchange_created_at'', JStr (datetime_text (ow_child_exchange_created_at o'))),
      (''child_exchange_created_at_raw'', text_json (ow_child_exchange_created_at_raw o')),
      (''parent_trigger_order_id'', text_json (ow_parent_trigger_order_id o')),
      (''request_fingerprint'', text_json (ow_request_fingerprint o')),
      (''owner_baseline_order_ids'', texts_json (sort (ow_owner_baseline_order_ids o'))),
      (''owner_baseline_fingerprint'', text_json (ow_owner_baseline_fingerprint o')),
      (''lineage_attestation_fingerprint'', text_json (ow_lineage_attestation_fingerprint o')),
      (''lineage_evidence_required'', JBool (ow_lineage_evidence_required o')),
      (''direct_identity_permitted'', JBool (ow_direct_identity_permitted o'))]"

definition snapshot_fingerprint ::
    "(string \<Rightarrow> string) \<Rightarrow> protection_owner list \<Rightarrow> protection_candidate list \<Rightarrow> (string \<times> string) list \<Rightarrow> bool \<Rightarrow> string" where
  "snapshot_fingerprint sha owners candidates existing_order_owners snapshot_complete =
     sha (json_text (sort_keys (JDict
       [(''candidates'', JList (map candidate_fingerprint_payload candidates)),
        (''existing_order_owners'', JList (map (\<lambda>(order_id, pos_id). texts_json [order_id, pos_id]) (sort existing_order_owners))),
        (''owners'', JList (map owner_fingerprint_payload owners)),
        (''snapshot_complete'', JBool snapshot_complete)])))"

definition deduplicate_conflicts :: "assignment_conflict list \<Rightarrow> assignment_conflict list" where
  "deduplicate_conflicts conflicts =
     (let key = (\<lambda>c. json_text (sort_keys (JDict
            [(''candidate_order_ids'', texts_json (cf_candidate_order_ids c)), (''evidence'', cf_evidence c),
             (''owner_leg_ids'', JList (map JInt (cf_owner_leg_ids c))), (''reason_code'', JStr (cf_reason_code c))])))
      in map snd (sort_key fst (foldl (\<lambda>unique c. AList.update (key c) c unique) [] conflicts)))"

section \<open>The state of a run\<close>

record assignment_state =
  as_conflicts :: "assignment_conflict list"
  as_exclusions :: "(string \<times> string) list"
  as_satisfied :: "int list"
  as_by_order :: "(string \<times> protection_candidate) list"
  as_eligible :: "protection_candidate list"
  as_blocking :: "string list"
  as_unbounded :: "string list"
  as_edges :: "(int \<times> string) list"
  as_prefill :: "string list"
  as_mismatch :: "(string \<times> int) list"
  as_assignments :: "(int \<times> string) list"
  as_evidence :: "(int \<times> json) list"

definition initial_state :: assignment_state where
  "initial_state = \<lparr>as_conflicts = [], as_exclusions = [], as_satisfied = [], as_by_order = [], as_eligible = [],
     as_blocking = [], as_unbounded = [], as_edges = [], as_prefill = [], as_mismatch = [], as_assignments = [], as_evidence = []\<rparr>"

definition add_conflict :: "string \<Rightarrow> int list \<Rightarrow> string list \<Rightarrow> json \<Rightarrow> assignment_state \<Rightarrow> assignment_state" where
  "add_conflict reason legs orders evidence st = st\<lparr>as_conflicts := as_conflicts st @
     [\<lparr>cf_reason_code = reason, cf_owner_leg_ids = legs, cf_candidate_order_ids = orders, cf_evidence = evidence\<rparr>]\<rparr>"

abbreviation no_evidence :: json where "no_evidence \<equiv> JDict []"

definition exclude_order :: "string \<Rightarrow> string \<Rightarrow> assignment_state \<Rightarrow> assignment_state" where
  "exclude_order order_id reason st = st\<lparr>as_exclusions := AList.update order_id reason (as_exclusions st)\<rparr>"

text \<open>\<open>exclusions.setdefault(order_id, reason)\<close>.\<close>

definition exclude_default :: "string \<Rightarrow> string \<Rightarrow> assignment_state \<Rightarrow> assignment_state" where
  "exclude_default order_id reason st =
     (if map_of (as_exclusions st) order_id = None then exclude_order order_id reason st else st)"

definition add_edge :: "protection_owner \<Rightarrow> protection_candidate \<Rightarrow> assignment_state \<Rightarrow> assignment_state" where
  "add_edge o' c st = st\<lparr>as_edges := as_edges st @ [(ow_leg_id o', cd_order_id c)]\<rparr>"

definition edges_of_owner :: "assignment_state \<Rightarrow> int \<Rightarrow> string list" where
  "edges_of_owner st leg = map snd (filter (\<lambda>e. fst e = leg) (as_edges st))"

definition edges_of_candidate :: "assignment_state \<Rightarrow> string \<Rightarrow> int list" where
  "edges_of_candidate st order_id = map fst (filter (\<lambda>e. snd e = order_id) (as_edges st))"

text \<open>With an owner under the new authority an ambiguous order stops the whole assignment.\<close>

definition unbounded_order :: "bool \<Rightarrow> string \<Rightarrow> assignment_state \<Rightarrow> assignment_state" where
  "unbounded_order new_authority order_id st =
     (if new_authority then st\<lparr>as_unbounded := List.insert order_id (as_unbounded st)\<rparr> else st)"

definition refuse_candidate ::
    "bool \<Rightarrow> string \<Rightarrow> string \<Rightarrow> string list \<Rightarrow> json \<Rightarrow> assignment_state \<Rightarrow> assignment_state" where
  "refuse_candidate new_authority order_id reason orders evidence st =
     unbounded_order new_authority order_id (add_conflict reason [] orders evidence (exclude_order order_id reason st))"

section \<open>Indexing the candidates\<close>

definition order_count :: "protection_candidate list \<Rightarrow> string \<Rightarrow> nat" where
  "order_count candidates order_id = length (filter (\<lambda>c. order_id \<in> set (candidate_order_ids c)) candidates)"

text \<open>An order with one readable identity: what its owner, recorded before, makes of it.\<close>

definition scan_ownership ::
    "(string \<Rightarrow> protection_owner option) \<Rightarrow> (string \<times> string) list \<Rightarrow> string \<Rightarrow> protection_candidate
     \<Rightarrow> assignment_state \<Rightarrow> assignment_state" where
  "scan_ownership owners_by_pos existing_order_owners order_id c st =
     (let aliases = explicit_pos_ids c;
          immutable_owner = py_strip (text_or_empty (map_of existing_order_owners order_id))
      in if immutable_owner \<noteq> [] then
           (if aliases \<noteq> [] \<and> hd aliases \<noteq> immutable_owner then
              add_conflict ''immutable_owner_conflict'' [] [order_id]
                (JDict [(''immutable_pos_id'', JStr immutable_owner), (''explicit_pos_id'', JStr (hd aliases))])
                (exclude_order order_id ''immutable_owner_conflict'' st)
            else (case owners_by_pos immutable_owner of
                Some o' \<Rightarrow> (exclude_order order_id ''candidate_already_owned'' st)
                  \<lparr>as_satisfied := List.insert (ow_leg_id o') (as_satisfied st)\<rparr>
              | None \<Rightarrow> exclude_order order_id ''candidate_owned_by_other_position'' st))
         else if cd_created_at c = None then exclude_order order_id ''candidate_time_unavailable'' st
         else st\<lparr>as_eligible := as_eligible st @ [c]\<rparr>)"

definition scan_identified ::
    "bool \<Rightarrow> (string \<Rightarrow> protection_owner option) \<Rightarrow> (string \<times> string) list \<Rightarrow> string \<Rightarrow> protection_candidate
     \<Rightarrow> assignment_state \<Rightarrow> assignment_state" where
  "scan_identified new_authority owners_by_pos existing_order_owners order_id c st0 =
     (let st = st0\<lparr>as_by_order := AList.update order_id c (as_by_order st0)\<rparr>;
          aliases = explicit_pos_ids c; parents = explicit_parent_order_ids c; clients = explicit_client_order_ids c
      in if 1 < length aliases then
           refuse_candidate new_authority order_id ''candidate_pos_id_conflict'' [order_id]
             (JDict [(''explicit_pos_ids'', texts_json aliases)]) st
         else
           let st' = (if cd_evidence_complete c then st
              else (add_conflict ''candidate_evidence_incomplete'' [] [order_id] no_evidence
                  (exclude_order order_id ''candidate_evidence_incomplete'' st))
                \<lparr>as_blocking := List.insert order_id (as_blocking st)\<rparr>)
           in if 1 < length parents then
                refuse_candidate new_authority order_id ''candidate_parent_id_conflict'' [order_id]
                  (JDict [(''explicit_parent_order_ids'', texts_json parents)]) st'
              else if 1 < length clients then
                refuse_candidate new_authority order_id ''candidate_client_id_conflict'' [order_id]
                  (JDict [(''explicit_client_order_ids'', texts_json clients)]) st'
              else scan_ownership owners_by_pos existing_order_owners order_id c st')"

definition scan_candidate ::
    "bool \<Rightarrow> protection_candidate list \<Rightarrow> (string \<Rightarrow> protection_owner option) \<Rightarrow> (string \<times> string) list
     \<Rightarrow> protection_candidate \<Rightarrow> assignment_state \<Rightarrow> assignment_state" where
  "scan_candidate new_authority candidates owners_by_pos existing_order_owners c st =
     (if candidate_is_explicit_non_tpsl c then st
      else
        let order_id = py_strip (cd_order_id c); order_aliases = candidate_order_ids c
        in if order_id = [] \<or> order_count candidates order_id \<noteq> 1 then
             unbounded_order new_authority (if order_id = [] then ''<missing-order-id>'' else order_id)
               (add_conflict ''candidate_order_id_not_unique'' [] (if order_id = [] then [] else [order_id]) no_evidence st)
           else if order_aliases \<noteq> [order_id] then
             refuse_candidate new_authority order_id ''candidate_order_id_alias_conflict''
               (if order_aliases = [] then [order_id] else order_aliases)
               (JDict [(''order_id_aliases'', texts_json order_aliases)]) st
           else (case candidate_shape_conflict c of
               Some reason \<Rightarrow> refuse_candidate new_authority order_id reason [order_id] no_evidence st
             | None \<Rightarrow> scan_identified new_authority owners_by_pos existing_order_owners order_id c st))"

section \<open>Joining owners and candidates\<close>

definition edge_step :: "protection_owner \<Rightarrow> protection_candidate \<Rightarrow> assignment_state \<Rightarrow> assignment_state result" where
  "edge_step o' c st =
     (let order_id = cd_order_id c; aliases = explicit_pos_ids c; parents = explicit_parent_order_ids c;
          clients = explicit_client_order_ids c
      in if \<not> same_protection_signature o' c then Inr st
         else if ow_lineage_evidence_required o' \<and> \<not> attested o' \<and> \<not> ow_direct_identity_permitted o' then
           Inr (if aliases = [] \<and> parents = [] \<and> clients = [] then add_edge o' c st else st)
         else if in_baseline o' c then
           Inr (exclude_default order_id
             (if attested o' then ''candidate_in_owner_baseline'' else ''candidate_in_global_baseline'') st)
         else (case lineage_sequence_refusal o' c of
           Some reason \<Rightarrow> Inr (exclude_default order_id reason st)
         | None \<Rightarrow>
           if clients \<noteq> [] \<and> clients \<noteq> [py_strip (text_or_empty (ow_client_order_id o'))] then Inr st
           else if parents \<noteq> [] \<and> parents \<noteq> [py_strip (text_or_empty (ow_parent_trigger_order_id o'))] then
             Inr (st\<lparr>as_mismatch := List.insert (order_id, ow_leg_id o') (as_mismatch st)\<rparr>)
           else if aliases \<noteq> [] then
             Inr (if hd aliases \<noteq> py_strip (ow_pos_id o') then st else add_edge o' c st)
           else if ow_lineage_evidence_required o' \<and> \<not> attested o' then Inr (add_edge o' c st)
           else if attested o' then
             (case lineage_edge_refusal o' c of
                Some reason \<Rightarrow> Inr (add_conflict reason [ow_leg_id o'] [order_id] no_evidence (exclude_default order_id reason st))
              | None \<Rightarrow> Inr (add_edge o' c st))
           else (case (cd_created_at c, ow_position_created_at o') of
               (Some created, Some opened) \<Rightarrow>
                 rbind (datetime_less created opened) (\<lambda>before.
                   Inr (if before then st\<lparr>as_prefill := List.insert order_id (as_prefill st)\<rparr> else add_edge o' c st))
             | _ \<Rightarrow> Inl (TypeError ''None''))))"

fun edge_candidates :: "protection_owner \<Rightarrow> protection_candidate list \<Rightarrow> assignment_state \<Rightarrow> assignment_state result" where
  "edge_candidates o' [] st = Inr st"
| "edge_candidates o' (c # cs) st = rbind (edge_step o' c st) (edge_candidates o' cs)"

fun edge_owners :: "string list \<Rightarrow> protection_owner list \<Rightarrow> assignment_state \<Rightarrow> assignment_state result" where
  "edge_owners duplicate_pos_ids [] st = Inr st"
| "edge_owners duplicate_pos_ids (o' # os) st =
     (if py_strip (ow_pos_id o') \<in> set duplicate_pos_ids \<or> ow_leg_id o' \<in> set (as_satisfied st)
      then edge_owners duplicate_pos_ids os st
      else if ow_position_created_at o' = None
      then edge_owners duplicate_pos_ids os (add_conflict ''owner_time_unavailable'' [ow_leg_id o'] [] no_evidence st)
      else rbind (edge_candidates o' (as_eligible st) st) (edge_owners duplicate_pos_ids os))"

text \<open>Orders left without an edge because they came before the fill, or name another parent.\<close>

definition settle_prefill :: "assignment_state \<Rightarrow> assignment_state" where
  "settle_prefill st = foldl (\<lambda>st' order_id.
       if edges_of_candidate st' order_id = [] then exclude_order order_id ''candidate_predates_fill'' st' else st')
     st (sort (as_prefill st))"

definition settle_mismatch :: "assignment_state \<Rightarrow> assignment_state" where
  "settle_mismatch st = foldl (\<lambda>st' order_id.
       if edges_of_candidate st' order_id \<noteq> [] then st'
       else add_conflict ''candidate_parent_id_conflict'' (sort (map snd (filter (\<lambda>m. fst m = order_id) (as_mismatch st))))
         [order_id] no_evidence (exclude_order order_id ''candidate_parent_id_conflict'' st'))
     st (sort (remdups (map fst (as_mismatch st))))"

section \<open>Assigning\<close>

definition indexed_candidate :: "assignment_state \<Rightarrow> string \<Rightarrow> protection_candidate result" where
  "indexed_candidate st order_id = (case map_of (as_by_order st) order_id of
       None \<Rightarrow> Inl (KeyError order_id) | Some c \<Rightarrow> Inr c)"

definition match_kind :: "protection_owner \<Rightarrow> protection_candidate \<Rightarrow> string" where
  "match_kind o' c = (if explicit_pos_ids c \<noteq> [] then ''explicit_pos_id''
     else if attested o' then ''lineage_attested_attached_stop'' else ''mutual_unique'')"

definition assignment_evidence :: "string \<Rightarrow> protection_owner \<Rightarrow> protection_candidate \<Rightarrow> string \<Rightarrow> json" where
  "assignment_evidence fingerprint o' c order_id = JDict
     ([(''binding_id'', JInt (ow_binding_id o')), (''candidate_order_id'', JStr order_id),
       (''match_kind'', JStr (match_kind o' c)), (''pos_id'', JStr (ow_pos_id o')), (''snapshot_fingerprint'', JStr fingerprint)]
      @ (if match_kind o' c = ''lineage_attested_attached_stop'' then
          [(''intent_id'', int_json (ow_intent_id o')), (''parent_trigger_order_id'', text_json (ow_parent_trigger_order_id o')),
           (''child_regular_order_id'', text_json (ow_child_regular_order_id o')),
           (''child_exchange_created_at'', JStr (datetime_text (ow_child_exchange_created_at o'))),
           (''candidate_created_at'', JStr (datetime_text (cd_created_at c))),
           (''request_fingerprint'', text_json (ow_request_fingerprint o')),
           (''owner_baseline_fingerprint'', text_json (ow_owner_baseline_fingerprint o')),
           (''lineage_attestation_fingerprint'', text_json (ow_lineage_attestation_fingerprint o'))]
         else []))"

definition lineage_incomplete :: "protection_owner \<Rightarrow> string list \<Rightarrow> assignment_state \<Rightarrow> bool result" where
  "lineage_incomplete o' owner_edges st =
     (if ow_lineage_evidence_required o' \<and> \<not> attested o' then
        (if ow_direct_identity_permitted o' \<and> length owner_edges = 1
         then rbind (indexed_candidate st (hd owner_edges)) (\<lambda>c. Inr (explicit_pos_ids c \<noteq> [py_strip (ow_pos_id o')]))
         else Inr True)
      else Inr False)"

definition assign_owner :: "string \<Rightarrow> protection_owner \<Rightarrow> assignment_state \<Rightarrow> assignment_state result" where
  "assign_owner fingerprint o' st =
     (let leg = ow_leg_id o'; owner_edges = sort (edges_of_owner st leg) in
      if leg \<in> set (as_satisfied st) then Inr st
      else rbind (lineage_incomplete o' owner_edges st) (\<lambda>incomplete.
        if incomplete then Inr (add_conflict ''owner_lineage_evidence_incomplete'' [leg] owner_edges no_evidence st)
        else if length owner_edges \<noteq> 1 then
          Inr (if 1 < length owner_edges
               then add_conflict ''protection_assignment_not_mutual_unique'' [leg] owner_edges no_evidence st else st)
        else
          let order_id = hd owner_edges; candidate_edges = sort (edges_of_candidate st order_id) in
          if order_id \<in> set (as_blocking st) then Inr st
          else if candidate_edges \<noteq> [leg] then
            Inr (add_conflict ''protection_assignment_not_mutual_unique'' candidate_edges [order_id] no_evidence st)
          else rbind (indexed_candidate st order_id) (\<lambda>c.
            Inr (st\<lparr>as_assignments := AList.update leg order_id (as_assignments st),
                    as_evidence := AList.update leg (assignment_evidence fingerprint o' c order_id) (as_evidence st)\<rparr>))))"

fun assign_owners :: "string \<Rightarrow> protection_owner list \<Rightarrow> assignment_state \<Rightarrow> assignment_state result" where
  "assign_owners fingerprint [] st = Inr st"
| "assign_owners fingerprint (o' # os) st = rbind (assign_owner fingerprint o' st) (assign_owners fingerprint os)"

section \<open>The whole assignment\<close>

definition finish_assignment :: "string \<Rightarrow> assignment_state \<Rightarrow> assignment_result" where
  "finish_assignment fingerprint st =
     \<lparr>ar_assignments = sort_key fst (as_assignments st), ar_evidence_by_leg = sort_key fst (as_evidence st),
      ar_exclusions = sort_key fst (as_exclusions st), ar_conflicts = deduplicate_conflicts (as_conflicts st),
      ar_snapshot_fingerprint = fingerprint\<rparr>"

definition new_authority_present :: "protection_owner list \<Rightarrow> bool" where
  "new_authority_present owners \<longleftrightarrow> list_ex (\<lambda>o'. ow_lineage_evidence_required o' \<or> attested o') owners"

definition duplicate_pos_ids :: "protection_owner list \<Rightarrow> string list" where
  "duplicate_pos_ids owners =
     (let pos_ids = filter (\<lambda>p. p \<noteq> []) (map (\<lambda>o'. py_strip (ow_pos_id o')) owners)
      in sort (remdups (filter (\<lambda>p. length (filter (\<lambda>q. q = p) pos_ids) \<noteq> 1) pos_ids)))"

definition owners_by_pos :: "protection_owner list \<Rightarrow> string \<Rightarrow> protection_owner option" where
  "owners_by_pos owners = map_of (rev (map (\<lambda>o'. (py_strip (ow_pos_id o'), o'))
     (filter (\<lambda>o'. py_strip (ow_pos_id o') \<notin> set (duplicate_pos_ids owners)) owners)))"

definition duplicate_conflicts :: "protection_owner list \<Rightarrow> assignment_state \<Rightarrow> assignment_state" where
  "duplicate_conflicts owners st = foldl (\<lambda>st' pos_id.
       add_conflict ''owner_pos_id_not_unique''
         (sort (map ow_leg_id (filter (\<lambda>o'. py_strip (ow_pos_id o') = pos_id) owners))) []
         (JDict [(''pos_id'', JStr pos_id)]) st')
     st (duplicate_pos_ids owners)"

definition owner_sort_key :: "protection_owner \<Rightarrow> int \<times> string" where
  "owner_sort_key o' = (ow_leg_id o', ow_pos_id o')"

definition candidate_sort_key :: "protection_candidate \<Rightarrow> string \<times> string" where
  "candidate_sort_key c = (cd_order_id c, datetime_text (cd_created_at c))"

definition assign_trigger_protection_orders ::
    "(string \<Rightarrow> string) \<Rightarrow> protection_owner list \<Rightarrow> protection_candidate list \<Rightarrow> (string \<times> string) list \<Rightarrow> bool
     \<Rightarrow> assignment_result result" where
  "assign_trigger_protection_orders sha owners candidates existing_order_owners snapshot_complete =
     (let sorted_owners = sort_key owner_sort_key owners;
          sorted_candidates = sort_key candidate_sort_key candidates;
          fingerprint = snapshot_fingerprint sha sorted_owners sorted_candidates existing_order_owners snapshot_complete
      in if \<not> snapshot_complete then
           Inr (finish_assignment fingerprint
             (add_conflict ''snapshot_incomplete'' (map ow_leg_id sorted_owners) [] no_evidence initial_state))
         else
           let new_authority = new_authority_present sorted_owners;
               duplicates = duplicate_pos_ids sorted_owners;
               st0 = duplicate_conflicts sorted_owners initial_state
           in if duplicates \<noteq> [] \<and> new_authority then Inr (finish_assignment fingerprint st0)
              else
                let st1 = foldl (\<lambda>st c. scan_candidate new_authority sorted_candidates (owners_by_pos sorted_owners)
                        existing_order_owners c st) st0 sorted_candidates
                in if as_unbounded st1 \<noteq> [] then
                     Inr (finish_assignment fingerprint
                       (add_conflict ''candidate_evidence_unbounded'' (map ow_leg_id sorted_owners) (sort (as_unbounded st1))
                         no_evidence st1))
                   else
                     rbind (edge_owners duplicates sorted_owners st1) (\<lambda>st2.
                     rbind (assign_owners fingerprint sorted_owners (settle_mismatch (settle_prefill st2))) (\<lambda>st3.
                       Inr (finish_assignment fingerprint st3))))"

end
