(* ===== verification/Assignment_Soundness.thy ===== *)
theory Assignment_Soundness
  imports Protection_Assignment
begin

text \<open>
  What the assignment of protection orders guarantees (the model is \<open>Protection_Assignment\<close>): an order
  and a leg are joined only when each is the other's only choice, lineage is proven where it is
  required, an ambiguous snapshot assigns nothing, and the order of the rows plays no part.
\<close>

section \<open>What the scan leaves\<close>

lemmas state_defs = add_conflict_def exclude_order_def exclude_default_def unbounded_order_def refuse_candidate_def

text \<open>A candidate indexed under its order id: the only one that has it.\<close>

definition indexed_ok :: "protection_candidate list \<Rightarrow> string \<Rightarrow> protection_candidate \<Rightarrow> bool" where
  "indexed_ok candidates order_id c \<longleftrightarrow> c \<in> set candidates \<and> py_strip (cd_order_id c) = order_id
     \<and> candidate_order_ids c = [order_id] \<and> order_count candidates order_id = 1
     \<and> \<not> candidate_is_explicit_non_tpsl c \<and> candidate_shape_conflict c = None"

definition eligible_ok ::
    "protection_candidate list \<Rightarrow> (string \<times> string) list \<Rightarrow> string list \<Rightarrow> protection_candidate \<Rightarrow> bool" where
  "eligible_ok candidates existing_order_owners blocking c \<longleftrightarrow>
     indexed_ok candidates (py_strip (cd_order_id c)) c \<and> length (explicit_pos_ids c) \<le> 1
     \<and> py_strip (text_or_empty (map_of existing_order_owners (py_strip (cd_order_id c)))) = []
     \<and> cd_created_at c \<noteq> None \<and> (cd_evidence_complete c \<or> py_strip (cd_order_id c) \<in> set blocking)"

definition scan_ok :: "protection_candidate list \<Rightarrow> (string \<times> string) list \<Rightarrow> assignment_state \<Rightarrow> bool" where
  "scan_ok candidates existing_order_owners st \<longleftrightarrow>
     (\<forall>c \<in> set (as_eligible st). eligible_ok candidates existing_order_owners (as_blocking st) c)
     \<and> (\<forall>(order_id, c) \<in> set (as_by_order st). indexed_ok candidates order_id c)
     \<and> as_edges st = [] \<and> as_assignments st = []"

lemma eligible_ok_mono:
  "eligible_ok candidates existing_order_owners b c \<Longrightarrow> set b \<subseteq> set b' \<Longrightarrow> eligible_ok candidates existing_order_owners b' c"
  by (auto simp: eligible_ok_def)

lemma set_AList_update: "x \<in> set (AList.update k v xs) \<Longrightarrow> x = (k, v) \<or> x \<in> set xs"
  by (induction xs) (auto split: if_splits)

lemma scan_ok_simps [simp]:
  "scan_ok cs ex (add_conflict reason legs orders ev st) = scan_ok cs ex st"
  "scan_ok cs ex (exclude_order oid reason st) = scan_ok cs ex st"
  "scan_ok cs ex (exclude_default oid reason st) = scan_ok cs ex st"
  "scan_ok cs ex (unbounded_order b oid st) = scan_ok cs ex st"
  "scan_ok cs ex (refuse_candidate b oid reason orders ev st) = scan_ok cs ex st"
  "scan_ok cs ex (st\<lparr>as_satisfied := legs\<rparr>) = scan_ok cs ex st"
  by (simp_all add: scan_ok_def state_defs)

lemma scan_ok_block:
  "scan_ok cs ex st \<Longrightarrow> set (as_blocking st) \<subseteq> set b \<Longrightarrow> scan_ok cs ex (st\<lparr>as_blocking := b\<rparr>)"
  by (auto simp: scan_ok_def intro: eligible_ok_mono)

lemma scan_ownership_ok:
  assumes "scan_ok cs ex st" "indexed_ok cs order_id c" "length (explicit_pos_ids c) \<le> 1"
    and "cd_evidence_complete c \<or> order_id \<in> set (as_blocking st)"
  shows "scan_ok cs ex (scan_ownership owners_by_pos' ex order_id c st)"
proof -
  have oid: "py_strip (cd_order_id c) = order_id" using assms(2) by (simp add: indexed_ok_def)
  have "scan_ok cs ex (st\<lparr>as_eligible := as_eligible st @ [c]\<rparr>)"
    if "py_strip (text_or_empty (map_of ex order_id)) = []" "cd_created_at c \<noteq> None"
    using assms that by (auto simp: scan_ok_def eligible_ok_def oid)
  then show ?thesis using assms(1) by (auto simp: scan_ownership_def Let_def split: option.split)
qed

lemma scan_identified_ok:
  assumes "scan_ok cs ex st" "indexed_ok cs order_id c"
  shows "scan_ok cs ex (scan_identified new owners_by_pos' ex order_id c st)"
proof -
  let ?st = "st\<lparr>as_by_order := AList.update order_id c (as_by_order st)\<rparr>"
  let ?st' = "if cd_evidence_complete c then ?st
              else (add_conflict ''candidate_evidence_incomplete'' [] [order_id] no_evidence
                  (exclude_order order_id ''candidate_evidence_incomplete'' ?st))
                \<lparr>as_blocking := List.insert order_id (as_blocking ?st)\<rparr>"
  have st: "scan_ok cs ex ?st"
    using assms by (auto simp: scan_ok_def dest!: set_AList_update)
  let ?inner = "add_conflict ''candidate_evidence_incomplete'' [] [order_id] no_evidence
                  (exclude_order order_id ''candidate_evidence_incomplete'' ?st)"
  have "scan_ok cs ex (?inner\<lparr>as_blocking := List.insert order_id (as_blocking ?st)\<rparr>)"
    by (rule scan_ok_block) (use st in simp, auto simp: state_defs)
  with st have st': "scan_ok cs ex ?st'" by simp
  have "cd_evidence_complete c \<or> order_id \<in> set (as_blocking ?st')" by simp
  with scan_ownership_ok [OF st' assms(2)] st st' show ?thesis
    unfolding scan_identified_def Let_def by simp
qed

lemma scan_candidate_ok:
  assumes "scan_ok cs ex st" "c \<in> set cs"
  shows "scan_ok cs ex (scan_candidate new cs owners_by_pos' ex c st)"
  using assms scan_identified_ok [OF assms(1), of "py_strip (cd_order_id c)" c new owners_by_pos']
  by (auto simp: scan_candidate_def Let_def indexed_ok_def split: option.split)

lemma scan_candidates_ok:
  assumes "set xs \<subseteq> set cs" "scan_ok cs ex st"
  shows "scan_ok cs ex (foldl (\<lambda>st c. scan_candidate new cs owners_by_pos' ex c st) st xs)"
  using assms by (induction xs arbitrary: st) (simp_all add: scan_candidate_ok)

lemma scan_ok_initial: "scan_ok cs ex (duplicate_conflicts owners initial_state)"
proof -
  have "scan_ok cs ex (foldl (\<lambda>st' p. add_conflict r (f p) [] (e p) st') st ps)" if "scan_ok cs ex st" for st ps r f e
    using that by (induction ps arbitrary: st) simp_all
  note fold = this
  moreover have "scan_ok cs ex initial_state" by (simp add: scan_ok_def initial_state_def)
  ultimately show ?thesis unfolding duplicate_conflicts_def by (intro fold)
qed

lemma indexed_unique:
  assumes "indexed_ok cs order_id c" "indexed_ok cs order_id c'"
  shows "c = c'"
proof -
  let ?p = "\<lambda>c. order_id \<in> set (candidate_order_ids c)"
  have "c \<in> set (filter ?p cs)" "c' \<in> set (filter ?p cs)" "length (filter ?p cs) = 1"
    using assms by (auto simp: indexed_ok_def order_count_def)
  then show ?thesis by (cases "filter ?p cs") auto
qed

section \<open>What an edge means\<close>

definition edge_permitted :: "protection_owner \<Rightarrow> protection_candidate \<Rightarrow> bool" where
  "edge_permitted o' c \<longleftrightarrow> same_protection_signature o' c
     \<and> (explicit_pos_ids c = [] \<or> hd (explicit_pos_ids c) = py_strip (ow_pos_id o'))
     \<and> (ow_lineage_evidence_required o' \<and> \<not> attested o' \<and> \<not> ow_direct_identity_permitted o'
        \<or> \<not> in_baseline o' c \<and> lineage_sequence_refusal o' c = None
          \<and> (explicit_client_order_ids c = [] \<or> explicit_client_order_ids c = [py_strip (text_or_empty (ow_client_order_id o'))])
          \<and> (explicit_parent_order_ids c = [] \<or> explicit_parent_order_ids c = [py_strip (text_or_empty (ow_parent_trigger_order_id o'))])
          \<and> (explicit_pos_ids c = [] \<and> attested o' \<longrightarrow> lineage_edge_refusal o' c = None)
          \<and> (explicit_pos_ids c = [] \<and> \<not> attested o' \<and> \<not> ow_lineage_evidence_required o'
             \<longrightarrow> (\<exists>created opened. cd_created_at c = Some created \<and> ow_position_created_at o' = Some opened
                   \<and> datetime_less created opened = Inr False)))"

text \<open>The state of the joining phase: what the scan indexed stays, and every edge is permitted.\<close>

definition scanned_alike :: "assignment_state \<Rightarrow> assignment_state \<Rightarrow> bool" where
  "scanned_alike st st' \<longleftrightarrow> as_by_order st' = as_by_order st \<and> as_eligible st' = as_eligible st \<and> as_blocking st' = as_blocking st
     \<and> as_satisfied st' = as_satisfied st \<and> as_assignments st' = as_assignments st"

definition edges_ok :: "protection_owner list \<Rightarrow> assignment_state \<Rightarrow> bool" where
  "edges_ok owners st \<longleftrightarrow> (\<forall>(leg, order_id) \<in> set (as_edges st).
     \<exists>o' \<in> set owners. \<exists>c \<in> set (as_eligible st). ow_leg_id o' = leg \<and> cd_order_id c = order_id \<and> edge_permitted o' c)"

lemma scanned_alike_refl [simp]: "scanned_alike st st"
  by (simp add: scanned_alike_def)

lemma scanned_alike_trans: "scanned_alike st st' \<Longrightarrow> scanned_alike st' st'' \<Longrightarrow> scanned_alike st st''"
  by (simp add: scanned_alike_def)

lemma edge_state_simps [simp]:
  "scanned_alike st (add_conflict reason legs orders ev st') = scanned_alike st st'"
  "scanned_alike st (exclude_order oid reason st') = scanned_alike st st'"
  "scanned_alike st (exclude_default oid reason st') = scanned_alike st st'"
  "scanned_alike st (st'\<lparr>as_mismatch := ms\<rparr>) = scanned_alike st st'"
  "scanned_alike st (st'\<lparr>as_prefill := ps\<rparr>) = scanned_alike st st'"
  "scanned_alike st (add_edge o' c st') = scanned_alike st st'"
  "edges_ok owners (add_conflict reason legs orders ev st) = edges_ok owners st"
  "edges_ok owners (exclude_order oid reason st) = edges_ok owners st"
  "edges_ok owners (exclude_default oid reason st) = edges_ok owners st"
  "edges_ok owners (st\<lparr>as_mismatch := ms\<rparr>) = edges_ok owners st"
  "edges_ok owners (st\<lparr>as_prefill := ps\<rparr>) = edges_ok owners st"
  by (simp_all add: scanned_alike_def edges_ok_def state_defs add_edge_def)

lemma edges_ok_add:
  "edges_ok owners st \<Longrightarrow> o' \<in> set owners \<Longrightarrow> c \<in> set (as_eligible st) \<Longrightarrow> edge_permitted o' c \<Longrightarrow> edges_ok owners (add_edge o' c st)"
  by (auto simp: edges_ok_def add_edge_def)

lemma edge_step_ok:
  assumes "edge_step o' c st = Inr st'" "edges_ok owners st" "o' \<in> set owners" "c \<in> set (as_eligible st)"
  shows "edges_ok owners st' \<and> scanned_alike st st'"
proof -
  consider (edge) "st' = add_edge o' c st" "edge_permitted o' c" | (other) "edges_ok owners st'" "scanned_alike st st'"
    using assms(1,2) unfolding edge_step_def Let_def
    by (auto simp: edge_permitted_def split: if_splits option.splits sum.splits)
  then show ?thesis by cases (use assms edges_ok_add in auto)
qed

lemma edge_candidates_ok:
  assumes "edge_candidates o' cs st = Inr st'" "edges_ok owners st" "o' \<in> set owners" "set cs \<subseteq> set (as_eligible st)"
  shows "edges_ok owners st' \<and> scanned_alike st st'"
  using assms
proof (induction cs arbitrary: st)
  case (Cons c cs)
  from Cons.prems(1) obtain st1 where s: "edge_step o' c st = Inr st1" "edge_candidates o' cs st1 = Inr st'"
    by (auto split: sum.splits)
  from edge_step_ok [OF s(1) Cons.prems(2,3)] Cons.prems(4) have e: "edges_ok owners st1" "scanned_alike st st1" by auto
  with Cons.prems(4) have "set cs \<subseteq> set (as_eligible st1)" by (simp add: scanned_alike_def)
  with Cons.IH [OF s(2) e(1) Cons.prems(3)] e(2) scanned_alike_trans show ?case by blast
qed simp

lemma scanned_alike_conflict [simp]: "scanned_alike (add_conflict reason legs orders ev st) st' = scanned_alike st st'"
  by (simp add: scanned_alike_def add_conflict_def)

lemma edge_owners_ok:
  assumes "edge_owners dup os st = Inr st'" "edges_ok owners st" "set os \<subseteq> set owners"
  shows "edges_ok owners st' \<and> scanned_alike st st'"
  using assms
proof (induction os arbitrary: st)
  case (Cons o' os)
  show ?case
  proof (cases "py_strip (ow_pos_id o') \<in> set dup \<or> ow_leg_id o' \<in> set (as_satisfied st) \<or> ow_position_created_at o' = None")
    case True
    with Cons.prems Cons.IH [of st] Cons.IH [of "add_conflict ''owner_time_unavailable'' [ow_leg_id o'] [] no_evidence st"]
    show ?thesis by (auto split: if_splits)
  next
    case False
    with Cons.prems(1) obtain st1 where s: "edge_candidates o' (as_eligible st) st = Inr st1" "edge_owners dup os st1 = Inr st'"
      by (auto split: sum.splits)
    from edge_candidates_ok [OF s(1) Cons.prems(2)] Cons.prems(3) have e: "edges_ok owners st1" "scanned_alike st st1" by auto
    with Cons.IH [OF s(2) e(1)] Cons.prems(3) scanned_alike_trans show ?thesis by auto
  qed
qed simp

text \<open>Settling the orders without an edge changes neither the index nor the edges.\<close>

definition joined_alike :: "assignment_state \<Rightarrow> assignment_state \<Rightarrow> bool" where
  "joined_alike st st' \<longleftrightarrow> scanned_alike st st' \<and> as_edges st' = as_edges st"

lemma joined_alike_simps [simp]:
  "joined_alike st st"
  "joined_alike st (add_conflict reason legs orders ev st') = joined_alike st st'"
  "joined_alike st (exclude_order oid reason st') = joined_alike st st'"
  by (simp_all add: joined_alike_def) (simp_all add: state_defs)

lemma settle_alike: "joined_alike st (settle_mismatch (settle_prefill st))"
proof -
  have fold: "joined_alike st (foldl f st' xs)" if "joined_alike st st'" "\<And>s x. joined_alike st s \<Longrightarrow> joined_alike st (f s x)"
    for st' f and xs :: "string list"
    using that(1) by (induction xs arbitrary: st') (simp_all add: that(2))
  have "joined_alike st (settle_prefill st)" unfolding settle_prefill_def by (rule fold) simp_all
  then show ?thesis unfolding settle_mismatch_def by (rule fold) simp_all
qed

section \<open>What an assignment means\<close>

definition assigned_ok :: "protection_owner list \<Rightarrow> assignment_state \<Rightarrow> int \<Rightarrow> string \<Rightarrow> bool" where
  "assigned_ok owners st leg order_id \<longleftrightarrow> edges_of_owner st leg = [order_id] \<and> edges_of_candidate st order_id = [leg]
     \<and> order_id \<notin> set (as_blocking st) \<and> leg \<notin> set (as_satisfied st)
     \<and> (\<exists>c. indexed_candidate st order_id = Inr c
        \<and> (\<exists>o' \<in> set owners. ow_leg_id o' = leg
          \<and> (ow_lineage_evidence_required o' \<and> \<not> attested o' \<longrightarrow>
              ow_direct_identity_permitted o' \<and> explicit_pos_ids c = [py_strip (ow_pos_id o')])))"

lemma assigned_ok_alike: "joined_alike st st' \<Longrightarrow> assigned_ok owners st' leg order_id = assigned_ok owners st leg order_id"
  by (simp add: joined_alike_def scanned_alike_def assigned_ok_def edges_of_owner_def edges_of_candidate_def indexed_candidate_def)

definition same_but_assigned :: "assignment_state \<Rightarrow> assignment_state \<Rightarrow> bool" where
  "same_but_assigned st st' \<longleftrightarrow> joined_alike (st\<lparr>as_assignments := []\<rparr>) (st'\<lparr>as_assignments := []\<rparr>)"

lemma same_but_assigned_simps [simp]:
  "same_but_assigned st st"
  "same_but_assigned st (add_conflict reason legs orders ev st') = same_but_assigned st st'"
  "same_but_assigned st (st'\<lparr>as_assignments := as', as_evidence := evs\<rparr>) = same_but_assigned st st'"
  by (simp_all add: same_but_assigned_def joined_alike_def scanned_alike_def add_conflict_def)

lemma same_but_assigned_trans: "same_but_assigned st st' \<Longrightarrow> same_but_assigned st' st'' \<Longrightarrow> same_but_assigned st st''"
  by (simp add: same_but_assigned_def joined_alike_def scanned_alike_def)

lemma assigned_ok_assigned: "same_but_assigned st st' \<Longrightarrow> assigned_ok owners st' leg order_id = assigned_ok owners st leg order_id"
  by (simp add: same_but_assigned_def joined_alike_def scanned_alike_def assigned_ok_def edges_of_owner_def
      edges_of_candidate_def indexed_candidate_def)

lemma sort_single: "sort xs = [x] \<longleftrightarrow> xs = [x]"
  by (metis mset_sort mset_single_iff sort_key_simps(2) insort_key.simps(1) sort_key_simps(1))

lemma add_conflict_assignments [simp]: "as_assignments (add_conflict reason legs orders ev st) = as_assignments st"
  by (simp add: add_conflict_def)

lemma assign_owner_ok:
  assumes "assign_owner fp o' st = Inr st'" "o' \<in> set owners" "(leg, oid) \<in> set (as_assignments st')"
  shows "(leg, oid) \<in> set (as_assignments st) \<or> assigned_ok owners st leg oid"
proof -
  let ?edges = "sort (edges_of_owner st (ow_leg_id o'))"
  consider "as_assignments st' = as_assignments st"
    | (new) c where "as_assignments st' = AList.update (ow_leg_id o') (hd ?edges) (as_assignments st)"
      "lineage_incomplete o' ?edges st = Inr False" "length ?edges = 1" "ow_leg_id o' \<notin> set (as_satisfied st)"
      "hd ?edges \<notin> set (as_blocking st)" "sort (edges_of_candidate st (hd ?edges)) = [ow_leg_id o']"
      "indexed_candidate st (hd ?edges) = Inr c"
    using assms(1) unfolding assign_owner_def Let_def by (auto split: if_splits sum.splits)
  then show ?thesis
  proof cases
    case 1
    with assms(3) show ?thesis by simp
  next
    case new
    from set_AList_update [OF assms(3) [unfolded new(1)]] show ?thesis
    proof
      assume l: "(leg, oid) = (ow_leg_id o', hd ?edges)"
      from new(3) have "?edges = [hd ?edges]" by (cases ?edges) auto
      then have e: "edges_of_owner st leg = [oid]" using l by (simp add: sort_single)
      have c: "edges_of_candidate st oid = [leg]" using new(6) l by (simp add: sort_single)
      have "ow_lineage_evidence_required o' \<and> \<not> attested o' \<longrightarrow>
              ow_direct_identity_permitted o' \<and> explicit_pos_ids c = [py_strip (ow_pos_id o')]"
        using new(2,7) by (auto simp: lineage_incomplete_def split: if_splits)
      with e c new(4,5,7) assms(2) l show ?thesis by (auto simp: assigned_ok_def)
    qed simp
  qed
qed

lemma assign_owner_alike: "assign_owner fp o' st = Inr st' \<Longrightarrow> same_but_assigned st st'"
  unfolding assign_owner_def Let_def by (auto split: if_splits sum.splits)

lemma assign_owner_distinct:
  "assign_owner fp o' st = Inr st' \<Longrightarrow> distinct (map fst (as_assignments st)) \<Longrightarrow> distinct (map fst (as_assignments st'))"
  unfolding assign_owner_def Let_def by (auto split: if_splits sum.splits simp: distinct_update)

lemma assign_owners_ok:
  assumes "assign_owners fp os st = Inr st'" "set os \<subseteq> set owners"
    and "\<And>leg oid. (leg, oid) \<in> set (as_assignments st) \<Longrightarrow> assigned_ok owners st leg oid" "distinct (map fst (as_assignments st))"
  shows "(\<forall>(leg, oid) \<in> set (as_assignments st'). assigned_ok owners st leg oid) \<and> distinct (map fst (as_assignments st'))"
  using assms
proof (induction os arbitrary: st)
  case (Cons o' os)
  from Cons.prems(1) obtain st1 where s: "assign_owner fp o' st = Inr st1" "assign_owners fp os st1 = Inr st'"
    by (auto split: sum.splits)
  note a = assign_owner_alike [OF s(1)]
  have "(\<forall>(leg, oid) \<in> set (as_assignments st'). assigned_ok owners st1 leg oid) \<and> distinct (map fst (as_assignments st'))"
  proof (rule Cons.IH [OF s(2)])
    show "set os \<subseteq> set owners" using Cons.prems(2) by simp
    show "distinct (map fst (as_assignments st1))" by (rule assign_owner_distinct [OF s(1) Cons.prems(4)])
    fix leg oid assume "(leg, oid) \<in> set (as_assignments st1)"
    from assign_owner_ok [OF s(1) _ this, of owners] Cons.prems(2,3) show "assigned_ok owners st1 leg oid"
      using assigned_ok_assigned [OF a] by auto
  qed
  then show ?case using assigned_ok_assigned [OF a] by simp
qed auto

definition index_ok :: "protection_candidate list \<Rightarrow> (string \<times> string) list \<Rightarrow> assignment_state \<Rightarrow> bool" where
  "index_ok candidates existing_order_owners st \<longleftrightarrow>
     (\<forall>c \<in> set (as_eligible st). eligible_ok candidates existing_order_owners (as_blocking st) c)
     \<and> (\<forall>(order_id, c) \<in> set (as_by_order st). indexed_ok candidates order_id c)"

definition scan_all ::
    "protection_owner list \<Rightarrow> protection_candidate list \<Rightarrow> (string \<times> string) list \<Rightarrow> assignment_state" where
  "scan_all owners candidates existing_order_owners =
     foldl (\<lambda>st c. scan_candidate (new_authority_present owners) candidates (owners_by_pos owners) existing_order_owners c st)
       (duplicate_conflicts owners initial_state) candidates"

lemma assignments_elim:
  assumes "assign_trigger_protection_orders sha owners candidates ex snap = Inr r" "ar_assignments r \<noteq> []"
  obtains st where "snap"
    "\<not> (duplicate_pos_ids (sort_key owner_sort_key owners) \<noteq> [] \<and> new_authority_present (sort_key owner_sort_key owners))"
    "as_unbounded (scan_all (sort_key owner_sort_key owners) (sort_key candidate_sort_key candidates) ex) = []"
    "index_ok (sort_key candidate_sort_key candidates) ex st" "edges_ok owners st" "distinct (map fst (ar_assignments r))"
    "\<forall>(leg, oid) \<in> set (ar_assignments r). assigned_ok owners st leg oid"
proof -
  let ?os = "sort_key owner_sort_key owners" and ?cs = "sort_key candidate_sort_key candidates"
  let ?st1 = "scan_all ?os ?cs ex"
  have none: "ar_assignments (finish_assignment fp st) = sort_key fst (as_assignments st)" for fp st
    by (simp add: finish_assignment_def)
  have ok1: "scan_ok ?cs ex ?st1" unfolding scan_all_def by (rule scan_candidates_ok [OF subset_refl scan_ok_initial])
  have empty: "as_assignments (duplicate_conflicts ?os initial_state) = []" "as_assignments ?st1 = []" "as_edges ?st1 = []"
    "as_assignments initial_state = []"
    using scan_ok_initial [of ?cs ex ?os] ok1 by (simp_all add: scan_ok_def initial_state_def)
  obtain fp st2 st3 where c: "snap" "\<not> (duplicate_pos_ids ?os \<noteq> [] \<and> new_authority_present ?os)" "as_unbounded ?st1 = []"
    and e: "edge_owners (duplicate_pos_ids ?os) ?os ?st1 = Inr st2"
    and a: "assign_owners fp ?os (settle_mismatch (settle_prefill st2)) = Inr st3" and r: "r = finish_assignment fp st3"
    using assms unfolding assign_trigger_protection_orders_def Let_def scan_all_def [symmetric]
    by (auto simp: none empty split: if_splits sum.splits)
  have edges0: "edges_ok owners ?st1" by (simp add: edges_ok_def empty)
  from edge_owners_ok [OF e edges0] have e2: "edges_ok owners st2" "scanned_alike ?st1 st2" by auto
  let ?st = "settle_mismatch (settle_prefill st2)"
  have j: "joined_alike st2 ?st" by (rule settle_alike)
  have edges: "edges_ok owners ?st" using e2(1) j by (simp add: joined_alike_def scanned_alike_def edges_ok_def)
  have index: "index_ok ?cs ex ?st"
    using ok1 e2(2) j by (simp add: scan_ok_def index_ok_def joined_alike_def scanned_alike_def)
  have "as_assignments ?st = []" using j e2(2) empty by (simp add: joined_alike_def scanned_alike_def)
  then have fin: "(\<forall>(leg, oid) \<in> set (as_assignments st3). assigned_ok owners ?st leg oid) \<and> distinct (map fst (as_assignments st3))"
    by (intro assign_owners_ok [OF a]) simp_all
  have ar: "ar_assignments r = sort_key fst (as_assignments st3)" by (simp add: r none)
  have "distinct (map fst (ar_assignments r))" using fin by (simp add: ar distinct_map)
  with c index edges fin ar show thesis by (intro that [of ?st]) auto
qed

text \<open>An assigned order is the one its edge was drawn for.\<close>

lemma assigned_candidate:
  assumes "index_ok cs ex st" "edges_ok owners st" "assigned_ok owners st leg oid" "distinct (map ow_leg_id owners)"
  obtains o' c where "o' \<in> set owners" "ow_leg_id o' = leg" "cd_order_id c = oid" "py_strip oid = oid"
    "edge_permitted o' c" "eligible_ok cs ex (as_blocking st) c" "oid \<notin> set (as_blocking st)"
    "ow_lineage_evidence_required o' \<and> \<not> attested o' \<longrightarrow>
       ow_direct_identity_permitted o' \<and> explicit_pos_ids c = [py_strip (ow_pos_id o')]"
proof -
  from assms(3) obtain c0 o0 where i: "indexed_candidate st oid = Inr c0" "o0 \<in> set owners" "ow_leg_id o0 = leg"
    "ow_lineage_evidence_required o0 \<and> \<not> attested o0 \<longrightarrow>
       ow_direct_identity_permitted o0 \<and> explicit_pos_ids c0 = [py_strip (ow_pos_id o0)]"
    "edges_of_owner st leg = [oid]" "oid \<notin> set (as_blocking st)" by (auto simp: assigned_ok_def)
  have "(leg, oid) \<in> set (as_edges st)"
  proof -
    have "oid \<in> set (edges_of_owner st leg)" using i(5) by simp
    then show ?thesis by (auto simp: edges_of_owner_def)
  qed
  with assms(2) obtain o' c where o: "o' \<in> set owners" "c \<in> set (as_eligible st)" "ow_leg_id o' = leg" "cd_order_id c = oid"
    "edge_permitted o' c" by (auto simp: edges_ok_def)
  have "o0 = o'" using assms(4) i(2,3) o(1,3) by (auto simp: distinct_map inj_on_def)
  from i(1) have "(oid, c0) \<in> set (as_by_order st)" by (auto simp: indexed_candidate_def dest: map_of_SomeD split: option.splits)
  with assms(1) have c0: "indexed_ok cs oid c0" by (auto simp: index_ok_def)
  then have strip: "py_strip oid = oid" by (auto simp: indexed_ok_def)
  from assms(1) o(2) have c: "eligible_ok cs ex (as_blocking st) c" by (auto simp: index_ok_def)
  then have "indexed_ok cs oid c" using o(4) strip by (simp add: eligible_ok_def)
  with c0 have "c0 = c" by (metis indexed_unique)
  with i(4,6) \<open>o0 = o'\<close> o strip c show thesis by (intro that [of o' c]) auto
qed

section \<open>Properties\<close>

text \<open>
  Claim C5: an order is assigned to a position only from a complete snapshot, to one leg only, and
  one to a leg; it agrees with that leg on instrument, side, size and stop price; it is the only
  order of the snapshot that answers to its id, its evidence is complete, no position was recorded
  as its owner before, and if it names a position it names this one and no other.
\<close>

theorem assignment_mutually_unique:
  assumes "assign_trigger_protection_orders sha owners candidates existing snap = Inr r"
    and "(leg, oid) \<in> set (ar_assignments r)" "distinct (map ow_leg_id owners)"
  shows "snap \<and> distinct (map fst (ar_assignments r)) \<and> (\<forall>leg'. (leg', oid) \<in> set (ar_assignments r) \<longrightarrow> leg' = leg)
    \<and> (\<exists>o' \<in> set owners. \<exists>c \<in> set candidates. ow_leg_id o' = leg \<and> cd_order_id c = oid
        \<and> same_protection_signature o' c \<and> set (explicit_pos_ids c) \<subseteq> {py_strip (ow_pos_id o')}
        \<and> cd_evidence_complete c \<and> candidate_order_ids c = [oid] \<and> order_count candidates oid = 1
        \<and> candidate_shape_conflict c = None \<and> \<not> candidate_is_explicit_non_tpsl c
        \<and> py_strip (text_or_empty (map_of existing oid)) = [])"
proof -
  have "ar_assignments r \<noteq> []" using assms(2) by auto
  with assms(1) obtain st where st: "snap" "index_ok (sort_key candidate_sort_key candidates) existing st" "edges_ok owners st"
    "distinct (map fst (ar_assignments r))" "\<forall>(leg, oid) \<in> set (ar_assignments r). assigned_ok owners st leg oid"
    by (rule assignments_elim)
  then have ok: "\<And>leg oid. (leg, oid) \<in> set (ar_assignments r) \<Longrightarrow> assigned_ok owners st leg oid" by blast
  have uniq: "leg' = leg" if "(leg', oid) \<in> set (ar_assignments r)" for leg'
    using ok [OF that] ok [OF assms(2)] by (simp add: assigned_ok_def)
  obtain o' c where o: "o' \<in> set owners" "ow_leg_id o' = leg" "cd_order_id c = oid" "py_strip oid = oid"
    "edge_permitted o' c" "eligible_ok (sort_key candidate_sort_key candidates) existing (as_blocking st) c" "oid \<notin> set (as_blocking st)"
    by (rule assigned_candidate [OF st(2,3) ok [OF assms(2)] assms(3)])
  have count: "order_count (sort_key candidate_sort_key candidates) oid = order_count candidates oid"
    by (simp add: order_count_def filter_sort)
  have "set (explicit_pos_ids c) \<subseteq> {py_strip (ow_pos_id o')}"
    using o(5,6) by (cases "explicit_pos_ids c") (auto simp: edge_permitted_def eligible_ok_def)
  with o count have "c \<in> set candidates \<and> same_protection_signature o' c \<and> set (explicit_pos_ids c) \<subseteq> {py_strip (ow_pos_id o')}
        \<and> cd_evidence_complete c \<and> candidate_order_ids c = [oid] \<and> order_count candidates oid = 1
        \<and> candidate_shape_conflict c = None \<and> \<not> candidate_is_explicit_non_tpsl c
        \<and> py_strip (text_or_empty (map_of existing oid)) = []"
    by (auto simp: edge_permitted_def eligible_ok_def indexed_ok_def)
  with st uniq o(1-3) show ?thesis by blast
qed

text \<open>
  Claim C25: where an owner must prove the lineage of its protection, an order is assigned to it only
  if it was created between the submission of the entry and the snapshot and was not there before
  it; it either names the position, or the owner is attested and the order was created at the very
  moment the exchange gave for the child.
\<close>

theorem assignment_lineage_sound:
  assumes "assign_trigger_protection_orders sha owners candidates existing snap = Inr r"
    and "(leg, oid) \<in> set (ar_assignments r)" "distinct (map ow_leg_id owners)"
    and "o' \<in> set owners" "ow_leg_id o' = leg" "ow_lineage_evidence_required o'"
  shows "\<exists>c \<in> set candidates. \<exists>created intent seen. cd_order_id c = oid \<and> \<not> in_baseline o' c
    \<and> cd_created_at c = Some created \<and> ow_intent_created_at o' = Some intent \<and> ow_snapshot_observed_at o' = Some seen
    \<and> dt_wall (as_utc_naive intent) \<le> dt_wall (as_utc_naive created)
    \<and> dt_wall (as_utc_naive created) \<le> dt_wall (as_utc_naive seen)
    \<and> (explicit_pos_ids c = [py_strip (ow_pos_id o')] \<and> (attested o' \<or> ow_direct_identity_permitted o')
       \<or> explicit_pos_ids c = [] \<and> attested o'
         \<and> (\<exists>child. ow_child_exchange_created_at o' = Some child \<and> as_utc_naive created = as_utc_naive child))"
proof -
  have "ar_assignments r \<noteq> []" using assms(2) by auto
  with assms(1) obtain st where st: "index_ok (sort_key candidate_sort_key candidates) existing st" "edges_ok owners st"
    "\<forall>(leg, oid) \<in> set (ar_assignments r). assigned_ok owners st leg oid" by (rule assignments_elim)
  with assms(2) have ok: "assigned_ok owners st leg oid" by blast
  obtain o1 c where o: "o1 \<in> set owners" "ow_leg_id o1 = leg" "cd_order_id c = oid" "py_strip oid = oid"
    "edge_permitted o1 c" "eligible_ok (sort_key candidate_sort_key candidates) existing (as_blocking st) c" "oid \<notin> set (as_blocking st)"
    "ow_lineage_evidence_required o1 \<and> \<not> attested o1 \<longrightarrow>
       ow_direct_identity_permitted o1 \<and> explicit_pos_ids c = [py_strip (ow_pos_id o1)]"
    by (rule assigned_candidate [OF st(1,2) ok assms(3)])
  have "o1 = o'" using assms(3-5) o(1,2) by (auto simp: distinct_map inj_on_def)
  then have e: "\<not> in_baseline o' c" "lineage_sequence_refusal o' c = None"
    "explicit_pos_ids c = [] \<longrightarrow> attested o' \<and> lineage_edge_refusal o' c = None"
    "attested o' \<or> ow_direct_identity_permitted o'"
    using o(5,8) assms(6) by (auto simp: edge_permitted_def)
  have "explicit_pos_ids c = [] \<or> explicit_pos_ids c = [py_strip (ow_pos_id o')]"
    using o(5,6) \<open>o1 = o'\<close> by (cases "explicit_pos_ids c") (auto simp: edge_permitted_def eligible_ok_def)
  moreover have "c \<in> set candidates" using o(6) by (simp add: eligible_ok_def indexed_ok_def)
  moreover obtain created intent seen where t: "cd_created_at c = Some created" "ow_intent_created_at o' = Some intent"
    "ow_snapshot_observed_at o' = Some seen" "dt_wall (as_utc_naive intent) \<le> dt_wall (as_utc_naive created)"
    "dt_wall (as_utc_naive created) \<le> dt_wall (as_utc_naive seen)"
    using e(2) assms(6) by (auto simp: lineage_sequence_refusal_def split: option.splits if_splits)
  moreover have "\<exists>child. ow_child_exchange_created_at o' = Some child \<and> as_utc_naive created = as_utc_naive child"
    if "lineage_edge_refusal o' c = None"
    using that t by (auto simp: lineage_edge_refusal_def Let_def split: option.splits if_splits)
  ultimately show ?thesis using e o(3)
    by (intro bexI [of _ c] exI [of _ created] exI [of _ intent] exI [of _ seen]) auto
qed

section \<open>Failing closed\<close>

definition unambiguous :: "protection_candidate list \<Rightarrow> protection_candidate \<Rightarrow> bool" where
  "unambiguous candidates c \<longleftrightarrow> candidate_is_explicit_non_tpsl c
     \<or> indexed_ok candidates (py_strip (cd_order_id c)) c \<and> py_strip (cd_order_id c) \<noteq> []
       \<and> length (explicit_pos_ids c) \<le> 1 \<and> length (explicit_parent_order_ids c) \<le> 1 \<and> length (explicit_client_order_ids c) \<le> 1"

lemma unbounded_simps [simp]:
  "as_unbounded (add_conflict reason legs orders ev st) = as_unbounded st"
  "as_unbounded (exclude_order oid reason st) = as_unbounded st"
  "as_unbounded (refuse_candidate True oid reason orders ev st) \<noteq> []"
  "as_unbounded (unbounded_order True oid st) \<noteq> []"
  by (simp_all add: state_defs List.insert_def) (auto simp: state_defs)

lemma unbounded_ownership: "as_unbounded (scan_ownership obp ex oid c st) = as_unbounded st"
  by (simp add: scan_ownership_def Let_def split: option.split)

lemma scan_candidate_unambiguous:
  assumes "as_unbounded (scan_candidate True cs obp ex c st) = []" "c \<in> set cs"
  shows "as_unbounded st = [] \<and> unambiguous cs c"
  using assms unfolding scan_candidate_def scan_identified_def Let_def
  by (auto simp: unbounded_ownership unambiguous_def indexed_ok_def not_less split: if_splits option.splits)

lemma scan_all_unambiguous:
  assumes "as_unbounded (foldl (\<lambda>st c. scan_candidate True cs obp ex c st) st xs) = []" "set xs \<subseteq> set cs"
  shows "as_unbounded st = [] \<and> (\<forall>c \<in> set xs. unambiguous cs c)"
  using assms
proof (induction xs arbitrary: st)
  case (Cons c xs)
  then have "as_unbounded (scan_candidate True cs obp ex c st) = []" "\<forall>c \<in> set xs. unambiguous cs c" by auto
  with scan_candidate_unambiguous [of cs obp ex c st] Cons.prems(2) show ?case by auto
qed simp

lemma duplicate_pos_ids_Nil:
  assumes "duplicate_pos_ids owners = []"
  shows "distinct (filter (\<lambda>p. p \<noteq> []) (map (\<lambda>o'. py_strip (ow_pos_id o')) owners))"
proof -
  let ?ps = "filter (\<lambda>p. p \<noteq> []) (map (\<lambda>o'. py_strip (ow_pos_id o')) owners)"
  have "length (filter (\<lambda>q. q = p) ?ps) = 1" if "p \<in> set ?ps" for p
  proof -
    have "set (duplicate_pos_ids owners) = {}" using assms by simp
    with that show ?thesis by (auto simp: duplicate_pos_ids_def Let_def)
  qed
  moreover have "count (mset xs) p = length (filter (\<lambda>q. q = p) xs)" for xs :: "string list" and p
    by (induction xs) auto
  ultimately have "\<forall>p. count (mset ?ps) p = (if p \<in> set ?ps then 1 else 0)"
    by (metis count_eq_zero_iff set_mset_mset)
  then show ?thesis unfolding distinct_count_atmost_1 .
qed

text \<open>
  With an owner under the lineage rules, one ambiguous order or one position with two owners
  stops every assignment: where anything is assigned, no two legs share a position and every
  protection order of the snapshot has one id, one shape and at most one position, parent and client.
\<close>

theorem assignment_fails_closed:
  assumes "assign_trigger_protection_orders sha owners candidates existing snap = Inr r" "ar_assignments r \<noteq> []"
    and "o' \<in> set owners" "ow_lineage_evidence_required o' \<or> attested o'"
  shows "distinct (filter (\<lambda>p. p \<noteq> []) (map (\<lambda>o'. py_strip (ow_pos_id o')) owners))
    \<and> (\<forall>c \<in> set candidates. unambiguous candidates c)"
proof -
  let ?os = "sort_key owner_sort_key owners" and ?cs = "sort_key candidate_sort_key candidates"
  have new: "new_authority_present ?os" using assms(3,4) by (auto simp: new_authority_present_def list_ex_iff)
  from assms(1,2) obtain st where "\<not> (duplicate_pos_ids ?os \<noteq> [] \<and> new_authority_present ?os)" "as_unbounded (scan_all ?os ?cs existing) = []"
    by (rule assignments_elim)
  with new have d: "duplicate_pos_ids ?os = []" and u: "as_unbounded (scan_all ?os ?cs existing) = []" by simp_all
  from u have "as_unbounded (foldl (\<lambda>st c. scan_candidate True ?cs (owners_by_pos ?os) existing c st)
      (duplicate_conflicts ?os initial_state) ?cs) = []" by (simp add: scan_all_def new)
  from scan_all_unambiguous [OF this] have "\<forall>c \<in> set candidates. unambiguous ?cs c" by simp
  moreover have "unambiguous ?cs c = unambiguous candidates c" for c
    by (simp add: unambiguous_def indexed_ok_def order_count_def filter_sort)
  moreover have "mset (filter (\<lambda>p. p \<noteq> []) (map (\<lambda>o'. py_strip (ow_pos_id o')) ?os))
      = mset (filter (\<lambda>p. p \<noteq> []) (map (\<lambda>o'. py_strip (ow_pos_id o')) owners))" by simp
  then have "distinct (filter (\<lambda>p. p \<noteq> []) (map (\<lambda>o'. py_strip (ow_pos_id o')) owners))"
    using duplicate_pos_ids_Nil [OF d] by (metis mset_eq_imp_distinct_iff)
  ultimately show ?thesis by simp
qed

section \<open>The order of the rows\<close>

text \<open>Folding over rows sorted by a key, where rows of equal key commute, does not depend on how ties fell.\<close>

lemma foldl_past:
  assumes "\<And>y s. y \<in> set us \<Longrightarrow> f (f s y) x = f (f s x) y"
  shows "foldl f s (us @ x # vs) = foldl f s (x # us @ vs)"
  using assms by (induction us arbitrary: s) simp_all

lemma foldl_sorted_ties:
  fixes k :: "'a \<Rightarrow> 'k::linorder"
  assumes "mset xs = mset ys" "sorted (map k xs)" "sorted (map k ys)"
    and "\<And>x y s. x \<in> set xs \<Longrightarrow> y \<in> set xs \<Longrightarrow> k x = k y \<Longrightarrow> f (f s y) x = f (f s x) y"
  shows "foldl f s xs = foldl f s ys"
  using assms
proof (induction xs arbitrary: s ys)
  case (Cons x xs)
  have set: "set ys = set (x # xs)" using mset_eq_setD [OF Cons.prems(1)] by (rule sym)
  then obtain us vs where ys: "ys = us @ x # vs" using split_list [of x ys] by auto
  have tie: "k x = k y" if "y \<in> set us" for y
  proof (rule antisym)
    show "k y \<le> k x" using Cons.prems(3) that by (auto simp: ys sorted_append)
    have "y \<in> set (x # xs)" using set that by (auto simp: ys)
    then show "k x \<le> k y" using Cons.prems(2) by auto
  qed
  have "foldl f s ys = foldl f s (x # us @ vs)" unfolding ys
  proof (rule foldl_past)
    fix y s' assume y: "y \<in> set us"
    then have "y \<in> set (x # xs)" using set by (auto simp: ys)
    with tie [OF y] show "f (f s' y) x = f (f s' x) y" by (intro Cons.prems(4)) simp_all
  qed
  also have "\<dots> = foldl f (f s x) (us @ vs)" by simp
  also have "\<dots> = foldl f (f s x) xs"
  proof (rule sym, rule Cons.IH)
    show "mset xs = mset (us @ vs)" using Cons.prems(1) by (simp add: ys)
    show "sorted (map k xs)" using Cons.prems(2) by simp
    show "sorted (map k (us @ vs))" using Cons.prems(3) by (auto simp: ys sorted_append)
  qed (use Cons.prems(4) in simp)
  finally show ?case by simp
qed simp

text \<open>
  Orders are read with their own id among the ids they list, as \<open>entry_protection_ledger_repair.py\<close>
  builds them. Two rows that share id and creation time then both count for that id, and each is refused
  as not unique, whichever comes first.
\<close>

definition lists_own_id :: "protection_candidate \<Rightarrow> bool" where
  "lists_own_id c \<longleftrightarrow> py_strip (cd_order_id c) = [] \<or> py_strip (cd_order_id c) \<in> set (candidate_order_ids c)"

lemma order_count_two:
  assumes "x \<in> set cs" "y \<in> set cs" "x \<noteq> y" "oid \<in> set (candidate_order_ids x)" "oid \<in> set (candidate_order_ids y)"
  shows "order_count cs oid \<noteq> 1"
proof
  assume "order_count cs oid = 1"
  then obtain z where "filter (\<lambda>c. oid \<in> set (candidate_order_ids c)) cs = [z]"
    by (auto simp: order_count_def length_Suc_conv)
  then have "{c \<in> set cs. oid \<in> set (candidate_order_ids c)} = {z}" by (metis list.set(1,2) set_filter)
  then have "x = z" "y = z" using assms by blast+
  with assms(3) show False by simp
qed

lemma order_count_mset: "mset cs = mset cs' \<Longrightarrow> order_count cs = order_count cs'"
  by (rule ext) (metis order_count_def mset_filter size_mset)

text \<open>Of two rows with one key each is passed over or adds the same refusal, so their order is no matter.\<close>

lemma scan_ties_commute:
  assumes "x \<in> set cs" "y \<in> set cs" "lists_own_id x" "lists_own_id y" "candidate_sort_key x = candidate_sort_key y"
  shows "scan_candidate n cs obp ex x (scan_candidate n cs obp ex y st) = scan_candidate n cs obp ex y (scan_candidate n cs obp ex x st)"
proof (cases "x = y")
  case False
  have id: "cd_order_id x = cd_order_id y" using assms(5) by (simp add: candidate_sort_key_def)
  let ?oid = "py_strip (cd_order_id y)"
  let ?refuse = "\<lambda>st. unbounded_order n (if ?oid = [] then ''<missing-order-id>'' else ?oid)
    (add_conflict ''candidate_order_id_not_unique'' [] (if ?oid = [] then [] else [?oid]) no_evidence st)"
  have "?oid = [] \<or> order_count cs ?oid \<noteq> 1"
    using order_count_two [OF assms(1,2) False] assms(3,4) by (auto simp: lists_own_id_def id)
  then have r: "scan_candidate n cs obp ex c st = (if candidate_is_explicit_non_tpsl c then st else ?refuse st)"
    if "c = x \<or> c = y" for c st using that by (auto simp: scan_candidate_def id Let_def)
  show ?thesis by (simp add: r)
qed simp

text \<open>The fingerprint of the snapshot only goes into the evidence, and nothing reads that back.\<close>

definition drop_fingerprint :: "json \<Rightarrow> json" where
  "drop_fingerprint e = (case e of JDict kvs \<Rightarrow> JDict (filter (\<lambda>(key, v). key \<noteq> ''snapshot_fingerprint'') kvs) | _ \<Rightarrow> e)"

definition decisions :: "assignment_result \<Rightarrow> assignment_result" where
  "decisions r = r\<lparr>ar_evidence_by_leg := map (apsnd drop_fingerprint) (ar_evidence_by_leg r), ar_snapshot_fingerprint := []\<rparr>"

definition core :: "assignment_state \<Rightarrow> assignment_state" where
  "core st = st\<lparr>as_evidence := map (apsnd drop_fingerprint) (as_evidence st)\<rparr>"

lemma core_simps:
  assumes "core st = core st'"
  shows "as_conflicts st = as_conflicts st'" "as_exclusions st = as_exclusions st'" "as_satisfied st = as_satisfied st'"
    "as_by_order st = as_by_order st'" "as_blocking st = as_blocking st'" "as_edges st = as_edges st'"
    "as_assignments st = as_assignments st'"
    "map (apsnd drop_fingerprint) (as_evidence st) = map (apsnd drop_fingerprint) (as_evidence st')"
    "\<exists>E. st' = st\<lparr>as_evidence := E\<rparr>"
  using assms by (cases st; cases st'; auto simp: core_def)+

lemma map_update: "map (apsnd f) (AList.update k v xs) = AList.update k (f v) (map (apsnd f) xs)"
  by (induction xs) auto

lemma map_insort_key: "(\<And>y. k (g y) = k y) \<Longrightarrow> map g (insort_key k x xs) = insort_key k (g x) (map g xs)"
  by (induction xs) auto

lemma map_sort_key: "(\<And>y. k (g y) = k y) \<Longrightarrow> map g (sort_key k xs) = sort_key k (map g xs)"
  by (induction xs) (simp_all add: map_insort_key)

lemma drop_evidence: "drop_fingerprint (assignment_evidence fp o' c oid) = drop_fingerprint (assignment_evidence fp' o' c oid)"
  by (simp add: drop_fingerprint_def assignment_evidence_def)

lemma core_update:
  "core st = core st' \<Longrightarrow> core (add_conflict reason legs orders e st) = core (add_conflict reason legs orders e st')"
  "core st = core st' \<Longrightarrow> core (st\<lparr>as_assignments := a, as_evidence := AList.update leg (assignment_evidence fp o' c oid) (as_evidence st)\<rparr>)
     = core (st'\<lparr>as_assignments := a, as_evidence := AList.update leg (assignment_evidence fp' o' c oid) (as_evidence st')\<rparr>)"
  by (cases st; cases st'; simp add: core_def add_conflict_def map_update drop_evidence [of fp _ _ _ fp'])+

lemma assign_owner_core:
  assumes "core st = core st'"
  shows "map_sum id core (assign_owner fp o' st) = map_sum id core (assign_owner fp' o' st')"
proof -
  obtain E where st': "st' = st\<lparr>as_evidence := E\<rparr>" using core_simps(9) [OF assms] ..
  have eq: "edges_of_owner st' leg = edges_of_owner st leg" "edges_of_candidate st' oid = edges_of_candidate st oid"
    "lineage_incomplete o' es st' = lineage_incomplete o' es st" "indexed_candidate st' oid = indexed_candidate st oid"
    "as_satisfied st' = as_satisfied st" "as_blocking st' = as_blocking st" "as_assignments st' = as_assignments st" for leg oid es
    by (simp_all add: st' edges_of_owner_def edges_of_candidate_def lineage_incomplete_def indexed_candidate_def)
  note u = assms core_update(1) [OF assms] core_update(2) [where fp = fp and fp' = fp', OF assms]
  have split: "map_sum id core (rbind x f) = map_sum id core (rbind x f')" if "\<And>y. map_sum id core (f y) = map_sum id core (f' y)"
    for x :: "'a result" and f f' using that by (cases x) simp_all
  show ?thesis unfolding assign_owner_def eq Let_def
    by (intro if_cong split refl
        | simp only: if_distrib [of "map_sum id core"] if_distrib [of core] if_distrib [of Inr] map_sum.simps id_apply u cong: if_cong)+
qed

lemma assign_owners_core:
  "core st = core st' \<Longrightarrow> map_sum id core (assign_owners fp os st) = map_sum id core (assign_owners fp' os st')"
proof (induction os arbitrary: st st')
  case (Cons o' os)
  from assign_owner_core [OF Cons.prems, of fp o' fp'] show ?case
    by (cases "assign_owner fp o' st"; cases "assign_owner fp' o' st'") (auto simp: Cons.IH [unfolded id_def])
qed simp

lemma rbind_decisions:
  "(\<And>y. map_sum id decisions (f y) = map_sum id decisions (f' y)) \<Longrightarrow> map_sum id decisions (rbind x f) = map_sum id decisions (rbind x f')"
  by (cases x) simp_all

lemma finish_core: "core st = core st' \<Longrightarrow> decisions (finish_assignment fp st) = decisions (finish_assignment fp' st')"
  using core_simps [of st st'] by (simp add: decisions_def finish_assignment_def map_sort_key)

lemma assign_finish:
  "map_sum id decisions (rbind (assign_owners fp os st) (\<lambda>st'. Inr (finish_assignment fp st')))
   = map_sum id decisions (rbind (assign_owners fp' os st) (\<lambda>st'. Inr (finish_assignment fp' st')))"
proof -
  from assign_owners_core [OF refl, of fp os st fp'] show ?thesis
    by (cases "assign_owners fp os st"; cases "assign_owners fp' os st") (simp_all add: finish_core [of _ _ fp fp'])
qed

text \<open>
  Claim C37: the decisions do not depend on the order in which the legs, the orders and the recorded owners
  were read: assignments, exclusions, conflicts and errors are the same, and so is the evidence but for the
  fingerprint of the snapshot in it. Legs are told apart by their ids and positions, as rows of a table with a
  key are, recorded owners by their order, as keys of a dictionary; an order lists its own id. Orders that share an id and a creation time, whose order the
  sort does not fix, only change the fingerprint; without such orders the results are equal altogether.
\<close>

theorem assignment_order_independent:
  assumes "mset owners = mset owners'" "mset candidates = mset candidates'" "mset existing = mset existing'"
    and "inj_on owner_sort_key (set owners)" "distinct (map fst existing)" "\<forall>c\<in>set candidates. lists_own_id c"
  shows "map_sum id decisions (assign_trigger_protection_orders sha owners candidates existing snap)
      = map_sum id decisions (assign_trigger_protection_orders sha owners' candidates' existing' snap)
    \<and> (inj_on candidate_sort_key (set candidates) \<longrightarrow>
        assign_trigger_protection_orders sha owners candidates existing snap
      = assign_trigger_protection_orders sha owners' candidates' existing' snap)"
proof -
  have k: "sort_key f xs = sort_key f ys" if "mset xs = mset ys" "inj_on f (set xs)"
    for f :: "'a \<Rightarrow> 'k::linorder" and xs ys
    by (rule sort_key_inj_key_eq) (use that in simp_all)
  have "map_of existing = map_of existing'"
    by (rule map_of_inject_set [THEN iffD2])
      (use assms(3,5) in \<open>auto simp: distinct_map dest: mset_eq_setD mset_eq_imp_distinct_iff\<close>)
  then have own: "scan_ownership obp existing = scan_ownership obp existing'" for obp
    by (simp add: scan_ownership_def fun_eq_iff)
  have ident: "scan_identified n obp existing = scan_identified n obp existing'" for n obp
    unfolding scan_identified_def [abs_def] own ..
  let ?cs = "sort_key candidate_sort_key candidates" and ?cs' = "sort_key candidate_sort_key candidates'"
  have cs: "mset ?cs = mset ?cs'" using assms(2) by simp
  have count: "order_count ?cs = order_count ?cs'" using cs by (rule order_count_mset)
  have scan: "scan_candidate n ?cs obp existing = scan_candidate n ?cs' obp existing'" for n obp
    unfolding scan_candidate_def [abs_def] ident count ..
  have fold: "foldl (\<lambda>st c. scan_candidate n ?cs obp existing c st) st ?cs = foldl (\<lambda>st c. scan_candidate n ?cs' obp existing' c st) st ?cs'"
    for n obp st
    unfolding scan [symmetric]
  proof (rule foldl_sorted_ties [where k = candidate_sort_key])
    fix x y s assume "x \<in> set ?cs" "y \<in> set ?cs" "candidate_sort_key x = candidate_sort_key y"
    then show "scan_candidate n ?cs obp existing x (scan_candidate n ?cs obp existing y s)
        = scan_candidate n ?cs obp existing y (scan_candidate n ?cs obp existing x s)"
      using assms(6) by (intro scan_ties_commute) simp_all
  qed (use cs in simp_all)
  note d = assign_trigger_protection_orders_def [unfolded Let_def]
  have "map_sum id decisions (assign_trigger_protection_orders sha owners candidates existing snap)
      = map_sum id decisions (assign_trigger_protection_orders sha owners' candidates' existing' snap)"
    unfolding d k [OF assms(1,4)] fold if_distrib [of "map_sum id decisions"] map_sum.simps
    by (intro if_cong refl arg_cong [where f = Inr] finish_core rbind_decisions assign_finish)
  moreover have "assign_trigger_protection_orders sha owners candidates existing snap
      = assign_trigger_protection_orders sha owners' candidates' existing' snap" if "inj_on candidate_sort_key (set candidates)"
  proof -
    have "sort existing = sort existing'" by (rule k) (use assms(3) in simp_all)
    then have fp: "snapshot_fingerprint sha os cs existing b = snapshot_fingerprint sha os cs existing' b" for os cs b
      by (simp add: snapshot_fingerprint_def)
    show ?thesis unfolding d k [OF assms(1,4)] fold fp by (simp only: k [OF assms(2) that])
  qed
  ultimately show ?thesis by blast
qed

section \<open>An example\<close>

definition example_time :: "int \<Rightarrow> py_datetime option" where
  "example_time s = Some \<lparr>dt_wall = 1700000000000000 + s * 1000000, dt_offset = None\<rparr>"

text \<open>An attested owner whose stop is anonymous, and an owner of the older kind.\<close>

definition example_owner :: "int \<Rightarrow> string \<Rightarrow> bool \<Rightarrow> protection_owner" where
  "example_owner leg pos_id lineage =
     \<lparr>ow_leg_id = leg, ow_binding_id = 4, ow_pos_id = pos_id, ow_instrument_id = ''ETH-USDT-SWAP'', ow_side = ''long'',
      ow_size_text = ''3'', ow_stop_price = (if lineage then ''1800'' else ''1750.5''),
      ow_position_created_at = example_time 10, ow_client_order_id = None, ow_intent_id = Some 8,
      ow_intent_created_at = example_time 5, ow_snapshot_observed_at = example_time 60, ow_child_regular_order_id = None,
      ow_child_exchange_created_at = example_time 9, ow_child_exchange_created_at_raw = Some ''1700000009000'',
      ow_parent_trigger_order_id = None, ow_request_fingerprint = None, ow_owner_baseline_order_ids = [''old''],
      ow_owner_baseline_fingerprint = None, ow_lineage_attestation_fingerprint = (if lineage then Some ''proof'' else None),
      ow_lineage_evidence_required = lineage, ow_direct_identity_permitted = True\<rparr>"

definition example_candidate :: "string \<Rightarrow> string \<Rightarrow> string list \<Rightarrow> protection_candidate" where
  "example_candidate order_id stop pos_ids =
     \<lparr>cd_order_id = order_id, cd_instrument_id = ''eth-usdt-swap'', cd_side = ''long'', cd_size_text = ''3.0'', cd_stop_price = stop,
      cd_created_at = example_time 9, cd_order_id_aliases = [], cd_instrument_id_aliases = [], cd_side_aliases = [''buy''],
      cd_size_aliases = [], cd_stop_price_aliases = [], cd_order_type_aliases = [''tpsl''], cd_evidence_complete = True,
      cd_explicit_pos_ids = pos_ids, cd_explicit_parent_order_ids = [], cd_explicit_client_order_ids = [],
      cd_created_at_raw = Some ''1700000009000''\<rparr>"

definition example_owners :: "protection_owner list" where
  "example_owners = [example_owner 2 ''p2'' False, example_owner 1 ''p1'' True]"

definition example_candidates :: "protection_candidate list" where
  "example_candidates = [example_candidate ''o2'' ''1750.50'' [''p2''], example_candidate ''o1'' ''1800'' []]"

definition example_assignment :: "protection_candidate list \<Rightarrow> assignment_result result" where
  "example_assignment cs = assign_trigger_protection_orders (\<lambda>s. ''f'') example_owners cs [(''o9'', ''p9'')] True"

lemma example_assigned:
  "case example_assignment example_candidates of Inl e \<Rightarrow> False | Inr r \<Rightarrow> ar_assignments r = [(1, ''o1''), (2, ''o2'')]"
  by code_simp

text \<open>An order id with blanks around it is joined under the id as it came and indexed without them.\<close>

lemma blank_order_id_raises:
  "example_assignment [example_candidate '' o1'' ''1800'' []] = Inl (KeyError '' o1'')"
  by code_simp

lemma example_distinct: "distinct (map ow_leg_id example_owners)" "inj_on owner_sort_key (set example_owners)"
  by (simp_all add: example_owners_def example_owner_def owner_sort_key_def inj_on_def)

lemma example_assignment_ok:
  obtains r where "example_assignment example_candidates = Inr r" "(1, ''o1'') \<in> set (ar_assignments r)"
    "(2, ''o2'') \<in> set (ar_assignments r)"
  using example_assigned by (auto split: sum.splits)

theorem assignment_mutually_unique_witness:
  "\<exists>o' \<in> set example_owners. \<exists>c \<in> set example_candidates. ow_leg_id o' = 1 \<and> cd_order_id c = ''o1'' \<and> same_protection_signature o' c"
proof -
  obtain r where "example_assignment example_candidates = Inr r" "(1, ''o1'') \<in> set (ar_assignments r)" by (rule example_assignment_ok)
  from assignment_mutually_unique [OF this(1) [unfolded example_assignment_def] this(2) example_distinct(1)] show ?thesis by blast
qed

theorem assignment_lineage_sound_witness:
  "\<exists>c \<in> set example_candidates. cd_order_id c = ''o1'' \<and> \<not> in_baseline (example_owner 1 ''p1'' True) c"
proof -
  obtain r where r: "example_assignment example_candidates = Inr r" "(1, ''o1'') \<in> set (ar_assignments r)" by (rule example_assignment_ok)
  have "example_owner 1 ''p1'' True \<in> set example_owners" "ow_leg_id (example_owner 1 ''p1'' True) = 1"
    "ow_lineage_evidence_required (example_owner 1 ''p1'' True)"
    by (simp_all add: example_owners_def example_owner_def)
  from assignment_lineage_sound [OF r(1) [unfolded example_assignment_def] r(2) example_distinct(1) this] show ?thesis by blast
qed

theorem assignment_fails_closed_witness: "unambiguous example_candidates (example_candidate ''o1'' ''1800'' [])"
proof -
  obtain r where r: "example_assignment example_candidates = Inr r" "(1, ''o1'') \<in> set (ar_assignments r)" by (rule example_assignment_ok)
  then have "ar_assignments r \<noteq> []" by auto
  moreover have "example_owner 1 ''p1'' True \<in> set example_owners" "ow_lineage_evidence_required (example_owner 1 ''p1'' True)"
    by (simp_all add: example_owners_def example_owner_def)
  moreover have "example_candidate ''o1'' ''1800'' [] \<in> set example_candidates" by (simp add: example_candidates_def)
  ultimately show ?thesis
    using assignment_fails_closed [OF r(1) [unfolded example_assignment_def]] by blast
qed

text \<open>Two rows of one order, told apart only by their stops, are refused alike in either order.\<close>

definition tied_candidates :: "protection_candidate list" where
  "tied_candidates = [example_candidate ''o1'' ''1800'' [], example_candidate ''o1'' ''1750.50'' []]"

theorem assignment_order_independent_witness:
  "assign_trigger_protection_orders (\<lambda>s. ''f'') example_owners example_candidates [(''o9'', ''p9'')] True
     = assign_trigger_protection_orders (\<lambda>s. ''f'') (rev example_owners) (rev example_candidates) [(''o9'', ''p9'')] True
   \<and> map_sum id decisions (assign_trigger_protection_orders (\<lambda>s. s) example_owners tied_candidates [(''o9'', ''p9'')] True)
     = map_sum id decisions (assign_trigger_protection_orders (\<lambda>s. s) example_owners (rev tied_candidates) [(''o9'', ''p9'')] True)"
proof (rule conjI)
  have own: "\<forall>c\<in>set example_candidates. lists_own_id c" "\<forall>c\<in>set tied_candidates. lists_own_id c" by code_simp+
  have inj: "inj_on candidate_sort_key (set example_candidates)"
    by (simp add: example_candidates_def example_candidate_def candidate_sort_key_def inj_on_def)
  show "assign_trigger_protection_orders (\<lambda>s. ''f'') example_owners example_candidates [(''o9'', ''p9'')] True
     = assign_trigger_protection_orders (\<lambda>s. ''f'') (rev example_owners) (rev example_candidates) [(''o9'', ''p9'')] True"
    by (rule assignment_order_independent [OF _ _ _ example_distinct(2) _ own(1), THEN conjunct2, rule_format, OF _ _ _ _ inj]) simp_all
  show "map_sum id decisions (assign_trigger_protection_orders (\<lambda>s. s) example_owners tied_candidates [(''o9'', ''p9'')] True)
     = map_sum id decisions (assign_trigger_protection_orders (\<lambda>s. s) example_owners (rev tied_candidates) [(''o9'', ''p9'')] True)"
    by (rule assignment_order_independent [OF _ _ _ example_distinct(2) _ own(2), THEN conjunct1]) simp_all
qed

end
