(* ===== verification/Py_Object.thy ===== *)
theory Py_Object
  imports Py_Decimal
begin

text \<open>
  Values that may also be lists, tuples and dictionaries, for the modules that take \<open>Any\<close> and look
  inside: their \<open>repr\<close>, \<open>str\<close> and truth. Strings are ASCII; the keys of a dictionary are strings.
\<close>

datatype pyobj =
    Scalar pyval
  | PyList "pyobj list"
  | PyTuple "pyobj list"
  | PyDict "(string \<times> pyobj) list"

abbreviation PyNone :: pyobj where "PyNone \<equiv> Scalar VNone"
abbreviation PyStr :: "string \<Rightarrow> pyobj" where "PyStr s \<equiv> Scalar (VStr s)"
abbreviation PyDec :: "rat \<Rightarrow> pyobj" where "PyDec x \<equiv> Scalar (VDec (DFin x))"

definition hex_digit :: "nat \<Rightarrow> char" where
  "hex_digit n = (if n < 10 then char_of (48 + n) else char_of (87 + n))"

text \<open>\<open>repr\<close> of a string: double quotes only when it has a single one and no double one.\<close>

definition repr_char :: "char \<Rightarrow> char \<Rightarrow> string" where
  "repr_char q c =
     (if c = q \<or> c = CHR 0x5C then [CHR 0x5C, c]
      else if c = CHR 0x0A then [CHR 0x5C, CHR ''n''] else if c = CHR 0x0D then [CHR 0x5C, CHR ''r'']
      else if c = CHR 0x09 then [CHR 0x5C, CHR ''t'']
      else if char_code c < 32 \<or> char_code c = 127
      then [CHR 0x5C, CHR ''x'', hex_digit (char_code c div 16), hex_digit (char_code c mod 16)]
      else [c])"

definition repr_str :: "string \<Rightarrow> string" where
  "repr_str s =
     (let q = (if CHR 0x27 \<in> set s \<and> CHR 0x22 \<notin> set s then CHR 0x22 else CHR 0x27)
      in q # concat (map (repr_char q) s) @ [q])"

definition repr_value :: "pyval \<Rightarrow> string" where
  "repr_value v = (case v of
       VStr s \<Rightarrow> repr_str s
     | VDec d \<Rightarrow> ''Decimal('' @ [CHR 0x27] @ py_str v @ [CHR 0x27] @ '')''
     | _ \<Rightarrow> py_str v)"

fun join_items :: "string list \<Rightarrow> string" where
  "join_items [] = []"
| "join_items [s] = s"
| "join_items (s # t # ss) = s @ '', '' @ join_items (t # ss)"

fun repr_obj :: "pyobj \<Rightarrow> string" where
  "repr_obj (Scalar v) = repr_value v"
| "repr_obj (PyList xs) = ''['' @ join_items (map repr_obj xs) @ '']''"
| "repr_obj (PyTuple xs) = ''('' @ join_items (map repr_obj xs) @ (if length xs = 1 then '',)'' else '')'')"
| "repr_obj (PyDict kvs) = ''{'' @ join_items (map (\<lambda>(k, v). repr_str k @ '': '' @ repr_obj v) kvs) @ ''}''"

definition obj_str :: "pyobj \<Rightarrow> string" where
  "obj_str x = (case x of Scalar v \<Rightarrow> py_str v | _ \<Rightarrow> repr_obj x)"

definition obj_truthy :: "pyobj \<Rightarrow> bool" where
  "obj_truthy x = (case x of Scalar v \<Rightarrow> truthy v | PyList xs \<Rightarrow> xs \<noteq> [] | PyTuple xs \<Rightarrow> xs \<noteq> [] | PyDict kvs \<Rightarrow> kvs \<noteq> [])"

text \<open>\<open>str(x or "")\<close>, \<open>x in (None, "")\<close> and \<open>str(x or "").strip().lower()\<close>.\<close>

definition obj_str_or_empty :: "pyobj \<Rightarrow> string" where
  "obj_str_or_empty x = (if obj_truthy x then obj_str x else [])"

definition missing :: "pyobj \<Rightarrow> bool" where
  "missing x \<longleftrightarrow> x = PyNone \<or> x = PyStr []"

definition obj_lower :: "pyobj \<Rightarrow> string" where
  "obj_lower x = py_lower (py_strip (obj_str_or_empty x))"

text \<open>\<open>mapping.get(key)\<close>.\<close>

definition dict_get :: "(string \<times> pyobj) list \<Rightarrow> string \<Rightarrow> pyobj" where
  "dict_get kvs key = (case map_of kvs key of None \<Rightarrow> PyNone | Some v \<Rightarrow> v)"

lemma repr_examples:
  "repr_obj (PyList [PyStr ''long'', PyTuple [Scalar (VInt 3)], PyNone]) = ''['' @ repr_str ''long'' @ '', (3,), None]''"
  "repr_str ''a'' = [CHR 0x27, CHR ''a'', CHR 0x27]" "repr_str [CHR 0x27] = [CHR 0x22, CHR 0x27, CHR 0x22]"
  by code_simp+

end
