(* ===== verification/Entry_Geometry.thy ===== *)
theory Entry_Geometry
  imports Py_Object
begin

text \<open>
  The price geometry of a new entry (\<open>entry_price_geometry.py\<close>): the stop strictly on the loss side of
  every entry price and each take profit strictly on the profit side, in the prices after alignment to
  the tick; the check of a final order draft; and the check of a recognised candidate.

  The functions that read prices out of message text (\<open>extract_normalized_prices\<close> of another module and
  the regular expressions of this one) are gathered in the record \<open>text_reader\<close>, an argument of the
  candidate's check: nothing is assumed of them.
\<close>

section \<open>Reason codes and the result\<close>

definition stop_side_invalid :: string where "stop_side_invalid = ''entry_price_geometry_stop_side_invalid''"
definition take_profit_side_invalid :: string where "take_profit_side_invalid = ''entry_price_geometry_take_profit_side_invalid''"
definition equal_boundary :: string where "equal_boundary = ''entry_price_geometry_equal_boundary''"
definition ambiguous :: string where "ambiguous = ''entry_price_geometry_ambiguous''"
definition required_value_missing :: string where "required_value_missing = ''entry_price_geometry_required_value_missing''"
definition market_reference_stale :: string where "market_reference_stale = ''entry_price_geometry_market_reference_stale''"

datatype geometry_status = Valid | Invalid | Indeterminate

record geometry_result =
  ge_status :: geometry_status
  ge_reason_code :: "string option"
  ge_normalized_entry_prices :: "string list"
  ge_entry_min :: "string option"
  ge_entry_max :: "string option"
  ge_normalized_stop_loss :: "string option"
  ge_normalized_take_profit_prices :: "string list"
  ge_normalized_explicit_average_entry :: "string option"
  ge_offending_field :: "string option"
  ge_offending_value :: "string option"
  ge_reference_entry_required :: bool

definition geometry_passed :: "geometry_result \<Rightarrow> bool" where
  "geometry_passed r \<longleftrightarrow> ge_status r = Valid"

definition geometry_display :: "pyobj \<Rightarrow> string option" where
  "geometry_display x = (case x of
       Scalar VNone \<Rightarrow> None
     | Scalar (VDec d) \<Rightarrow> Some (py_str (VDec d))
     | _ \<Rightarrow> Some (take 128 (obj_str x)))"

definition display_price :: "rat \<Rightarrow> string" where
  "display_price x = (case geometry_display (PyDec x) of None \<Rightarrow> [] | Some s \<Rightarrow> s)"

text \<open>The prices a result carries: the entries, the stop, the take profits, the stated average.\<close>

record geometry_prices =
  gp_entries :: "rat list"
  gp_stop :: "rat option"
  gp_take_profits :: "rat list"
  gp_average :: "rat option"

definition no_prices :: geometry_prices where
  "no_prices = \<lparr>gp_entries = [], gp_stop = None, gp_take_profits = [], gp_average = None\<rparr>"

definition geometry_result_of ::
    "geometry_status \<Rightarrow> string option \<Rightarrow> geometry_prices \<Rightarrow> string option \<Rightarrow> pyobj \<Rightarrow> bool \<Rightarrow> geometry_result" where
  "geometry_result_of status reason p offending_field offending_value reference_entry_required =
     \<lparr>ge_status = status, ge_reason_code = reason, ge_normalized_entry_prices = map display_price (gp_entries p),
      ge_entry_min = (if gp_entries p = [] then None else Some (display_price (list_min (gp_entries p)))),
      ge_entry_max = (if gp_entries p = [] then None else Some (display_price (list_max (gp_entries p)))),
      ge_normalized_stop_loss = map_option display_price (gp_stop p),
      ge_normalized_take_profit_prices = map display_price (gp_take_profits p),
      ge_normalized_explicit_average_entry = map_option display_price (gp_average p),
      ge_offending_field = offending_field, ge_offending_value = geometry_display offending_value,
      ge_reference_entry_required = reference_entry_required\<rparr>"

definition indeterminate :: "string \<Rightarrow> string \<Rightarrow> pyobj \<Rightarrow> geometry_prices \<Rightarrow> geometry_result" where
  "indeterminate reason field value p = geometry_result_of Indeterminate (Some reason) p (Some field) value False"

definition invalid_geometry :: "string \<Rightarrow> string \<Rightarrow> rat \<Rightarrow> geometry_prices \<Rightarrow> geometry_result" where
  "invalid_geometry reason field value p = geometry_result_of Invalid (Some reason) p (Some field) (PyDec value) False"

section \<open>Reading values\<close>

definition geometry_positive :: "pyobj \<Rightarrow> rat option" where
  "geometry_positive x = (case x of
       Scalar (VBool b) \<Rightarrow> None
     | Scalar v \<Rightarrow> positive_value v
     | _ \<Rightarrow> None)"

definition normalize_value :: "rat option \<Rightarrow> pyobj \<Rightarrow> rat option" where
  "normalize_value tick x = (case geometry_positive x of
       None \<Rightarrow> None
     | Some parsed \<Rightarrow>
         let p = (case tick of None \<Rightarrow> parsed | Some t \<Rightarrow> dmul (to_integral_floor (ddiv parsed t)) t)
         in if 0 < p then Some p else None)"

fun normalize_values :: "rat option \<Rightarrow> pyobj list \<Rightarrow> rat list option" where
  "normalize_values tick [] = Some []"
| "normalize_values tick (x # xs) = (case normalize_value tick x of
       None \<Rightarrow> None
     | Some item \<Rightarrow> map_option (\<lambda>items. item # items) (normalize_values tick xs))"

definition bounded_iterable :: "pyobj \<Rightarrow> pyobj list option" where
  "bounded_iterable x = (case x of
       Scalar v \<Rightarrow> (if v = VNone then Some [] else None)
     | PyDict kvs \<Rightarrow> None
     | PyList xs \<Rightarrow> (if length xs \<le> 32 then Some xs else None)
     | PyTuple xs \<Rightarrow> (if length xs \<le> 32 then Some xs else None))"

text \<open>\<open>_positive_decimal(price_tick) if price_tick is not None else None\<close>, and the refusal of a bad one.\<close>

definition geometry_tick :: "pyobj \<Rightarrow> rat option option" where
  "geometry_tick price_tick =
     (if price_tick = PyNone then Some None else map_option Some (geometry_positive price_tick))"

section \<open>The relations\<close>

text \<open>The take profits against the boundary they must lie beyond, the first that does not deciding.\<close>

fun check_take_profits :: "bool \<Rightarrow> rat \<Rightarrow> geometry_prices \<Rightarrow> rat list \<Rightarrow> geometry_result option" where
  "check_take_profits long boundary p [] = None"
| "check_take_profits long boundary p (tp # tps) =
     (if tp = boundary then Some (invalid_geometry equal_boundary ''take_profit'' tp p)
      else if \<not> (if long then boundary < tp else tp < boundary)
      then Some (invalid_geometry take_profit_side_invalid ''take_profit'' tp p)
      else check_take_profits long boundary p tps)"

definition check_stop :: "bool \<Rightarrow> rat \<Rightarrow> geometry_prices \<Rightarrow> geometry_result option" where
  "check_stop long boundary p = (case gp_stop p of
       None \<Rightarrow> None
     | Some stop \<Rightarrow>
         if stop = boundary then Some (invalid_geometry equal_boundary ''stop_loss'' stop p)
         else if \<not> (if long then stop < boundary else boundary < stop)
         then Some (invalid_geometry stop_side_invalid ''stop_loss'' stop p) else None)"

definition check_relations :: "bool \<Rightarrow> geometry_prices \<Rightarrow> geometry_result" where
  "check_relations long p =
     (let low = list_min (gp_entries p); high = list_max (gp_entries p) in
      if (case gp_average p of None \<Rightarrow> False | Some a \<Rightarrow> \<not> (low \<le> a \<and> a \<le> high))
      then indeterminate ambiguous ''explicit_average_entry'' (case gp_average p of None \<Rightarrow> PyNone | Some a \<Rightarrow> PyDec a) p
      else case check_stop long (if long then low else high) p of
        Some r \<Rightarrow> r
      | None \<Rightarrow> (case check_take_profits long (if long then high else low) p (gp_take_profits p) of
          Some r \<Rightarrow> r
        | None \<Rightarrow> geometry_result_of Valid None p None PyNone False))"

definition read_average :: "bool \<Rightarrow> rat option \<Rightarrow> pyobj \<Rightarrow> geometry_prices \<Rightarrow> geometry_result" where
  "read_average long tick explicit_average p =
     (if missing explicit_average then check_relations long p
      else case normalize_value tick explicit_average of
        None \<Rightarrow> indeterminate ambiguous ''explicit_average_entry'' explicit_average p
      | Some a \<Rightarrow> check_relations long (p\<lparr>gp_average := Some a\<rparr>))"

definition validate_entry_price_geometry ::
    "pyobj \<Rightarrow> pyobj \<Rightarrow> pyobj \<Rightarrow> pyobj \<Rightarrow> pyobj \<Rightarrow> pyobj \<Rightarrow> bool \<Rightarrow> geometry_result" where
  "validate_entry_price_geometry side entry_prices stop_loss take_profit_prices explicit_average price_tick require_stop_loss =
     (let normalized_side = obj_lower side; long = (normalized_side = ''long'') in
      if \<not> is_long_or_short normalized_side then indeterminate ambiguous ''side'' side no_prices
      else case geometry_tick price_tick of
        None \<Rightarrow> indeterminate ambiguous ''price_tick'' price_tick no_prices
      | Some tick \<Rightarrow>
      (case bounded_iterable entry_prices of
        None \<Rightarrow> indeterminate ambiguous ''entry_prices'' entry_prices no_prices
      | Some [] \<Rightarrow> indeterminate required_value_missing ''entry_prices'' PyNone no_prices
      | Some raw_entries \<Rightarrow>
      (case normalize_values tick raw_entries of
        None \<Rightarrow> indeterminate ambiguous ''entry_prices'' entry_prices no_prices
      | Some entries \<Rightarrow>
      (case bounded_iterable take_profit_prices of
        None \<Rightarrow> indeterminate ambiguous ''take_profit'' take_profit_prices no_prices
      | Some raw_take_profits \<Rightarrow>
      (case normalize_values tick raw_take_profits of
        None \<Rightarrow> indeterminate ambiguous ''take_profit'' take_profit_prices no_prices
      | Some take_profits \<Rightarrow>
        let p = no_prices\<lparr>gp_entries := entries, gp_take_profits := take_profits\<rparr> in
        if missing stop_loss then
          (if require_stop_loss then indeterminate required_value_missing ''stop_loss'' PyNone p
           else read_average long tick explicit_average p)
        else (case normalize_value tick stop_loss of
            None \<Rightarrow> indeterminate ambiguous ''stop_loss'' stop_loss p
          | Some stop \<Rightarrow> read_average long tick explicit_average (p\<lparr>gp_stop := Some stop\<rparr>)))))))"

section \<open>A market entry without a price\<close>

definition reference_entry_protection_geometry :: "pyobj \<Rightarrow> pyobj \<Rightarrow> pyobj \<Rightarrow> pyobj \<Rightarrow> geometry_result" where
  "reference_entry_protection_geometry side stop_loss take_profit_prices price_tick =
     (let normalized_side = obj_lower side; long = (normalized_side = ''long'') in
      if \<not> is_long_or_short normalized_side then indeterminate ambiguous ''side'' side no_prices
      else case geometry_tick price_tick of
        None \<Rightarrow> indeterminate ambiguous ''price_tick'' price_tick no_prices
      | Some tick \<Rightarrow>
        if missing stop_loss then indeterminate required_value_missing ''stop_loss'' PyNone no_prices
        else (case normalize_value tick stop_loss of
          None \<Rightarrow> indeterminate ambiguous ''stop_loss'' stop_loss no_prices
        | Some stop \<Rightarrow>
        (case bounded_iterable take_profit_prices of
          None \<Rightarrow> indeterminate ambiguous ''take_profit'' take_profit_prices no_prices
        | Some raw_take_profits \<Rightarrow>
        (case normalize_values tick raw_take_profits of
          None \<Rightarrow> indeterminate ambiguous ''take_profit'' take_profit_prices no_prices
        | Some take_profits \<Rightarrow>
          let p = no_prices\<lparr>gp_stop := Some stop, gp_take_profits := take_profits\<rparr> in
          (case check_take_profits long stop p take_profits of
             Some r \<Rightarrow> r
           | None \<Rightarrow> geometry_result_of Valid None p None PyNone True)))))"

section \<open>The final order draft\<close>

definition leg_fields :: "pyobj \<Rightarrow> (string \<times> pyobj) list" where
  "leg_fields leg = (case leg of PyDict kvs \<Rightarrow> kvs | _ \<Rightarrow> [])"

definition is_mapping :: "pyobj \<Rightarrow> bool" where
  "is_mapping x = (case x of PyDict kvs \<Rightarrow> True | _ \<Rightarrow> False)"

definition leg_position_sides :: "pyobj list \<Rightarrow> string list" where
  "leg_position_sides legs = sort (remdups (map (\<lambda>leg. obj_lower (dict_get (leg_fields leg) ''position_side''))
     (filter (\<lambda>leg. \<not> missing (dict_get (leg_fields leg) ''position_side'')) legs)))"

text \<open>The side every leg states, or the refusal.\<close>

definition draft_position_side :: "pyobj list \<Rightarrow> pyobj \<Rightarrow> geometry_result + string" where
  "draft_position_side legs expected_position_side =
     (let expected_side = obj_lower expected_position_side;
          stated = leg_position_sides legs;
          unstated = list_ex (\<lambda>leg. missing (dict_get (leg_fields leg) ''position_side'')) legs;
          refusal = Inl (indeterminate ambiguous ''side'' (PyList (map PyStr stated)) no_prices)
      in if expected_position_side \<noteq> PyNone \<and> \<not> is_long_or_short expected_side
         then Inl (indeterminate ambiguous ''side'' expected_position_side no_prices)
         else if expected_side \<noteq> [] then
           (if unstated \<or> list_ex (\<lambda>v. v \<noteq> expected_side) stated then refusal else Inr expected_side)
         else if length stated \<noteq> 1 \<or> unstated then refusal
         else Inr (hd stated))"

text \<open>The first leg that does not open the side, and the sides the draft itself states.\<close>

fun check_open_sides :: "string \<Rightarrow> pyobj list \<Rightarrow> geometry_result option" where
  "check_open_sides expected [] = None"
| "check_open_sides expected (leg # legs) =
     (let leg_open_side = obj_lower (dict_get (leg_fields leg) ''side'') in
      if leg_open_side = [] \<or> leg_open_side \<noteq> expected
      then Some (indeterminate ambiguous ''side'' (PyStr leg_open_side) no_prices)
      else check_open_sides expected legs)"

definition draft_states :: "pyobj \<Rightarrow> string list \<Rightarrow> bool" where
  "draft_states x sides \<longleftrightarrow> missing x \<or> py_lower (py_strip (obj_str x)) \<in> set sides"

definition check_top_sides :: "(string \<times> pyobj) list \<Rightarrow> string \<Rightarrow> string \<Rightarrow> geometry_result option" where
  "check_top_sides draft position_side open_side =
     (let refuse = (\<lambda>x. Some (indeterminate ambiguous ''side'' x no_prices)) in
      if \<not> draft_states (dict_get draft ''position_side'') [position_side] then refuse (dict_get draft ''position_side'')
      else if \<not> draft_states (dict_get draft ''open_side'') [open_side] then refuse (dict_get draft ''open_side'')
      else if \<not> draft_states (dict_get draft ''side'') [position_side, open_side] then refuse (dict_get draft ''side'')
      else None)"

definition draft_prices :: "(string \<times> pyobj) list \<Rightarrow> pyobj list \<Rightarrow> string \<Rightarrow> geometry_result" where
  "draft_prices draft legs position_side =
     (let price = (\<lambda>leg. dict_get (leg_fields leg) ''price'');
          stated = dict_get draft ''take_profit_legs'';
          spec = leg_fields (dict_get draft ''contract_spec'')
      in case (if stated = PyNone then PyList [] else stated) of
          PyList take_profit_legs \<Rightarrow>
            if list_ex (\<lambda>leg. \<not> is_mapping leg) take_profit_legs then indeterminate ambiguous ''take_profit'' PyNone no_prices
            else if \<not> is_mapping (dict_get draft ''contract_spec'') \<or> dict_get spec ''price_tick'' = PyNone
            then indeterminate required_value_missing ''price_tick'' PyNone no_prices
            else validate_entry_price_geometry (PyStr position_side) (PyList (map price legs)) (dict_get draft ''stop_loss'')
              (PyList (map price take_profit_legs)) PyNone (dict_get spec ''price_tick'') True
        | _ \<Rightarrow> indeterminate ambiguous ''take_profit'' PyNone no_prices)"

definition validate_order_draft_price_geometry :: "pyobj \<Rightarrow> pyobj \<Rightarrow> geometry_result" where
  "validate_order_draft_price_geometry draft expected_position_side = (case draft of
       PyDict kvs \<Rightarrow>
         (case dict_get kvs ''order_legs'' of
            PyList (leg # rest) \<Rightarrow>
              let legs = leg # rest in
              if list_ex (\<lambda>leg. \<not> is_mapping leg) legs then indeterminate ambiguous ''order_legs'' PyNone no_prices
              else (case draft_position_side legs expected_position_side of
                  Inl r \<Rightarrow> r
                | Inr position_side \<Rightarrow>
                    if \<not> is_long_or_short position_side
                    then indeterminate ambiguous ''side'' (PyStr position_side) no_prices
                    else let open_side = (if position_side = ''long'' then ''buy'' else ''sell'') in
                      (case check_open_sides open_side legs of
                         Some r \<Rightarrow> r
                       | None \<Rightarrow> (case check_top_sides kvs position_side open_side of
                           Some r \<Rightarrow> r
                         | None \<Rightarrow> draft_prices kvs legs position_side)))
          | _ \<Rightarrow> indeterminate required_value_missing ''entry_prices'' PyNone no_prices)
     | _ \<Rightarrow> indeterminate required_value_missing ''order_draft'' PyNone no_prices)"

section \<open>The recognised candidate\<close>

text \<open>
  The readers of message text: \<open>proves_absolute field text\<close> is \<open>_proves_absolute_candidate_field\<close>,
  \<open>prices text\<close> is \<open>extract_normalized_prices\<close> at the candidate's symbol and reference price, a float by
  its \<open>repr\<close>.
\<close>

record text_reader =
  rd_pure_market_entry :: "pyobj \<Rightarrow> bool"
  rd_strip_entry_ordinals :: "pyobj \<Rightarrow> pyobj"
  rd_strip_take_profit_ordinals :: "pyobj \<Rightarrow> pyobj"
  rd_proves_absolute :: "string \<Rightarrow> pyobj \<Rightarrow> bool"
  rd_prices :: "pyobj \<Rightarrow> pyobj list"
  rd_explicit_average :: "pyobj \<Rightarrow> (pyobj list \<times> pyobj) option"

text \<open>The entry prices and the stated average a text gives, or its refusal.\<close>

definition read_entry_text :: "text_reader \<Rightarrow> pyobj \<Rightarrow> geometry_result + pyobj list \<times> pyobj" where
  "read_entry_text rd entry_text =
     (let normalized = rd_strip_entry_ordinals rd entry_text;
          refusal = Inl (indeterminate ambiguous ''entry_prices'' entry_text no_prices)
      in if \<not> rd_proves_absolute rd ''entry_prices'' normalized then refusal
         else let values = rd_prices rd normalized in
           (case rd_explicit_average rd normalized of
              Some (before, average) \<Rightarrow>
                if length values = 3 then Inr (before, average)
                else if 2 < length values then refusal else Inr (values, PyNone)
            | None \<Rightarrow> if 2 < length values then refusal else Inr (values, PyNone)))"

text \<open>The entry prices to judge: the text's, or the caller's where the text gives none.\<close>

definition candidate_entries :: "text_reader \<Rightarrow> pyobj \<Rightarrow> pyobj \<Rightarrow> bool \<Rightarrow> geometry_result + pyobj list \<times> pyobj" where
  "candidate_entries rd entry_text resolved_entry_prices reference_entry =
     (case (if reference_entry then Inr ([], PyNone) else read_entry_text rd entry_text) of
        Inl r \<Rightarrow> Inl r
      | Inr (read_values, average) \<Rightarrow>
          if read_values = [] \<and> resolved_entry_prices \<noteq> PyNone then
            (case bounded_iterable resolved_entry_prices of
               None \<Rightarrow> Inl (indeterminate ambiguous ''entry_prices'' resolved_entry_prices no_prices)
             | Some resolved \<Rightarrow> Inr (resolved, average))
          else Inr (read_values, average))"

definition candidate_protection ::
    "text_reader \<Rightarrow> pyobj \<Rightarrow> pyobj \<Rightarrow> (pyobj \<Rightarrow> pyobj \<Rightarrow> geometry_result) \<Rightarrow> geometry_result" where
  "candidate_protection rd stop_loss_text take_profit_text decide =
     (if \<not> rd_proves_absolute rd ''stop_loss'' stop_loss_text
      then indeterminate ambiguous ''stop_loss'' stop_loss_text no_prices
      else let stop_values = rd_prices rd stop_loss_text in
      if \<not> missing stop_loss_text \<and> length stop_values \<noteq> 1
      then indeterminate ambiguous ''stop_loss'' stop_loss_text no_prices
      else if \<not> rd_proves_absolute rd ''take_profit'' take_profit_text
      then indeterminate ambiguous ''take_profit'' take_profit_text no_prices
      else let take_profits = rd_prices rd (rd_strip_take_profit_ordinals rd take_profit_text) in
      if \<not> missing take_profit_text \<and> take_profits = []
      then indeterminate ambiguous ''take_profit'' take_profit_text no_prices
      else decide (if stop_values = [] then PyNone else hd stop_values) (PyList take_profits))"

definition validate_candidate_entry_price_geometry ::
    "text_reader \<Rightarrow> pyobj \<Rightarrow> pyobj \<Rightarrow> pyobj \<Rightarrow> pyobj \<Rightarrow> pyobj \<Rightarrow> pyobj \<Rightarrow> bool \<Rightarrow> geometry_result" where
  "validate_candidate_entry_price_geometry rd side entry_text stop_loss_text take_profit_text resolved_entry_prices
       price_tick allow_reference_entry =
     (let reference_entry = (allow_reference_entry \<and> rd_pure_market_entry rd entry_text) in
      case candidate_entries rd entry_text resolved_entry_prices reference_entry of
        Inl r \<Rightarrow> r
      | Inr (entry_values, average) \<Rightarrow>
          candidate_protection rd stop_loss_text take_profit_text (\<lambda>stop take_profits.
            if reference_entry \<and> resolved_entry_prices = PyNone
            then reference_entry_protection_geometry side stop take_profits price_tick
            else validate_entry_price_geometry side (PyList entry_values) stop take_profits average price_tick True))"

definition stale_market_reference_result :: "pyobj \<Rightarrow> geometry_result" where
  "stale_market_reference_result entry_text = indeterminate market_reference_stale ''entry_prices'' entry_text no_prices"

section \<open>When a geometry passes\<close>

definition loss_side :: "bool \<Rightarrow> rat \<Rightarrow> rat \<Rightarrow> bool" where
  "loss_side long x y \<longleftrightarrow> (if long then x < y else y < x)"

lemma indeterminate_fails [simp]: "\<not> geometry_passed (indeterminate reason field value p)"
  by (simp add: geometry_passed_def indeterminate_def geometry_result_of_def)

lemma invalid_fails [simp]: "\<not> geometry_passed (invalid_geometry reason field value p)"
  by (simp add: geometry_passed_def invalid_geometry_def geometry_result_of_def)

lemma valid_passes [simp]: "geometry_passed (geometry_result_of Valid reason p field value ref)"
  by (simp add: geometry_passed_def geometry_result_of_def)

lemma check_take_profits_None:
  "check_take_profits long boundary p tps = None \<longleftrightarrow> (\<forall>tp \<in> set tps. loss_side long boundary tp)"
  by (induction tps) (auto simp: loss_side_def)

lemma check_take_profits_Some: "check_take_profits long boundary p tps = Some r \<Longrightarrow> \<not> geometry_passed r"
  by (induction tps) (auto split: if_splits)

lemma check_stop_None: "check_stop long boundary p = None \<longleftrightarrow> (\<forall>s. gp_stop p = Some s \<longrightarrow> loss_side long s boundary)"
  by (auto simp: check_stop_def loss_side_def split: option.split)

lemma check_stop_Some: "check_stop long boundary p = Some r \<Longrightarrow> \<not> geometry_passed r"
  by (auto simp: check_stop_def split: option.splits if_splits)

lemma beyond_all_low:
  assumes "es \<noteq> []"
  shows "x < list_min es \<longleftrightarrow> (\<forall>e \<in> set es. x < e)" "list_max es < x \<longleftrightarrow> (\<forall>e \<in> set es. e < x)"
  using assms list_min_in [OF assms] list_max_in [OF assms] by (auto dest: list_min_le list_max_ge)

text \<open>Stop and take profits against every entry, and the stated average within the entries.\<close>

definition strict_geometry :: "bool \<Rightarrow> geometry_prices \<Rightarrow> bool" where
  "strict_geometry long p \<longleftrightarrow>
     (\<forall>e \<in> set (gp_entries p). (\<forall>s. gp_stop p = Some s \<longrightarrow> loss_side long s e) \<and> (\<forall>tp \<in> set (gp_take_profits p). loss_side long e tp))
     \<and> (\<forall>a. gp_average p = Some a \<longrightarrow> (\<exists>e \<in> set (gp_entries p). e \<le> a) \<and> (\<exists>e \<in> set (gp_entries p). a \<le> e))"

lemma within_entries:
  assumes "es \<noteq> []"
  shows "list_min es \<le> a \<longleftrightarrow> (\<exists>e \<in> set es. e \<le> a)" "a \<le> list_max es \<longleftrightarrow> (\<exists>e \<in> set es. a \<le> e)"
proof -
  show "list_min es \<le> a \<longleftrightarrow> (\<exists>e \<in> set es. e \<le> a)"
    using list_min_in [OF assms] by (auto dest: list_min_le)
  show "a \<le> list_max es \<longleftrightarrow> (\<exists>e \<in> set es. a \<le> e)"
    using list_max_in [OF assms] by (auto dest: list_max_ge)
qed

lemma check_relations_passes:
  assumes "gp_entries p \<noteq> []"
  shows "geometry_passed (check_relations long p) \<longleftrightarrow> strict_geometry long p"
proof -
  let ?low = "list_min (gp_entries p)" and ?high = "list_max (gp_entries p)"
  have a: "(case gp_average p of None \<Rightarrow> False | Some a \<Rightarrow> \<not> (?low \<le> a \<and> a \<le> ?high))
      \<longleftrightarrow> \<not> (\<forall>a. gp_average p = Some a \<longrightarrow> (\<exists>e \<in> set (gp_entries p). e \<le> a) \<and> (\<exists>e \<in> set (gp_entries p). a \<le> e))"
    by (simp add: within_entries [OF assms] split: option.split)
  have s: "check_stop long (if long then ?low else ?high) p = None
      \<longleftrightarrow> (\<forall>e \<in> set (gp_entries p). \<forall>s. gp_stop p = Some s \<longrightarrow> loss_side long s e)"
    using beyond_all_low [OF assms] by (auto simp: check_stop_None loss_side_def)
  have t: "check_take_profits long (if long then ?high else ?low) p (gp_take_profits p) = None
      \<longleftrightarrow> (\<forall>e \<in> set (gp_entries p). \<forall>tp \<in> set (gp_take_profits p). loss_side long e tp)"
    using beyond_all_low [OF assms] by (auto simp: check_take_profits_None loss_side_def)
  show ?thesis unfolding check_relations_def Let_def a strict_geometry_def
    using s t by (auto dest: check_stop_Some check_take_profits_Some split: option.split)
qed

text \<open>What the average's text adds.\<close>

lemma read_average_passes:
  assumes "gp_entries p \<noteq> []" "gp_average p = None"
  shows "geometry_passed (read_average long tick avg p) \<longleftrightarrow> strict_geometry long p
    \<and> (missing avg \<or> (\<exists>a. normalize_value tick avg = Some a \<and> (\<exists>e \<in> set (gp_entries p). e \<le> a) \<and> (\<exists>e \<in> set (gp_entries p). a \<le> e)))"
  using assms by (auto simp: read_average_def check_relations_passes strict_geometry_def split: option.split)

definition items_of :: "pyobj \<Rightarrow> pyobj list" where
  "items_of x = (case x of PyList xs \<Rightarrow> xs | PyTuple xs \<Rightarrow> xs | _ \<Rightarrow> [])"

lemma normalize_values_length: "normalize_values tick xs = Some ys \<Longrightarrow> length ys = length xs"
  by (induction xs arbitrary: ys) (auto split: option.splits)

section \<open>Properties\<close>

text \<open>
  Claim C23: the geometry passes exactly when the side and the tick are usable, every entry price and
  take profit reads as a positive price on the tick grid (at least one entry, at most 32 of each), the
  stop is one too, or absent where it may be, and the stop lies strictly on the loss side of every
  entry, every take profit strictly on the profit side of every entry, and a stated average within
  them.
\<close>

theorem entry_geometry_exact:
  "geometry_passed (validate_entry_price_geometry side entry_prices stop_loss take_profit_prices average price_tick require_stop)
   \<longleftrightarrow> (let long = (obj_lower side = ''long'') in is_long_or_short (obj_lower side)
     \<and> (\<exists>tick raw_entries entries raw_tps tps. geometry_tick price_tick = Some tick
       \<and> bounded_iterable entry_prices = Some raw_entries \<and> raw_entries \<noteq> [] \<and> normalize_values tick raw_entries = Some entries
       \<and> bounded_iterable take_profit_prices = Some raw_tps \<and> normalize_values tick raw_tps = Some tps
       \<and> (if missing stop_loss then \<not> require_stop
          else \<exists>s. normalize_value tick stop_loss = Some s \<and> (\<forall>e \<in> set entries. loss_side long s e))
       \<and> (\<forall>e \<in> set entries. \<forall>tp \<in> set tps. loss_side long e tp)
       \<and> (missing average \<or> (\<exists>a. normalize_value tick average = Some a
            \<and> (\<exists>e \<in> set entries. e \<le> a) \<and> (\<exists>e \<in> set entries. a \<le> e)))))"
proof (cases "is_long_or_short (obj_lower side) \<and> geometry_tick price_tick \<noteq> None \<and> bounded_iterable entry_prices \<noteq> None
    \<and> bounded_iterable take_profit_prices \<noteq> None")
  case False
  then show ?thesis unfolding validate_entry_price_geometry_def Let_def by (auto split: option.splits list.splits)
next
  case True
  then obtain tick raw_entries raw_tps where t: "is_long_or_short (obj_lower side)" "geometry_tick price_tick = Some tick"
    "bounded_iterable entry_prices = Some raw_entries" "bounded_iterable take_profit_prices = Some raw_tps" by blast
  show ?thesis
  proof (cases "raw_entries \<noteq> [] \<and> normalize_values tick raw_entries \<noteq> None \<and> normalize_values tick raw_tps \<noteq> None")
    case False
    with t show ?thesis unfolding validate_entry_price_geometry_def Let_def by (auto split: option.splits list.splits)
  next
    case True
    then obtain entries tps where n: "raw_entries \<noteq> []" "normalize_values tick raw_entries = Some entries"
      "normalize_values tick raw_tps = Some tps" by blast
    have ne: "entries \<noteq> []" using n(1) normalize_values_length [OF n(2)] by auto
    let ?long = "obj_lower side = ''long''"
    let ?p = "no_prices\<lparr>gp_entries := entries, gp_take_profits := tps\<rparr>"
    have v: "validate_entry_price_geometry side entry_prices stop_loss take_profit_prices average price_tick require_stop
        = (if missing stop_loss then
            (if require_stop then indeterminate required_value_missing ''stop_loss'' PyNone ?p else read_average ?long tick average ?p)
          else (case normalize_value tick stop_loss of
              None \<Rightarrow> indeterminate ambiguous ''stop_loss'' stop_loss ?p
            | Some stop \<Rightarrow> read_average ?long tick average (?p\<lparr>gp_stop := Some stop\<rparr>)))"
    proof -
      obtain e es where raw: "raw_entries = e # es" using n(1) by (cases raw_entries) auto
      have f: "(\<not> is_long_or_short (obj_lower side)) = False" using t(1) by simp
      show ?thesis
        by (simp only: validate_entry_price_geometry_def Let_def f if_False t(2,4) t(3) [unfolded raw]
            n(2) [unfolded raw] n(3) option.case list.case)
    qed
    have "geometry_passed (validate_entry_price_geometry side entry_prices stop_loss take_profit_prices average price_tick require_stop)
      \<longleftrightarrow> (if missing stop_loss then \<not> require_stop
          else \<exists>s. normalize_value tick stop_loss = Some s \<and> (\<forall>e \<in> set entries. loss_side ?long s e))
       \<and> (\<forall>e \<in> set entries. \<forall>tp \<in> set tps. loss_side ?long e tp)
       \<and> (missing average \<or> (\<exists>a. normalize_value tick average = Some a
            \<and> (\<exists>e \<in> set entries. e \<le> a) \<and> (\<exists>e \<in> set entries. a \<le> e)))"
      unfolding v using ne
      by (auto simp: read_average_passes strict_geometry_def no_prices_def split: option.split)
    with t n show ?thesis by (simp add: Let_def)
  qed
qed

lemma leg_position_sides_set:
  "\<not> list_ex (\<lambda>leg. missing (dict_get (leg_fields leg) ''position_side'')) legs \<Longrightarrow>
   set (leg_position_sides legs) = (\<lambda>leg. obj_lower (dict_get (leg_fields leg) ''position_side'')) ` set legs"
  by (auto simp: leg_position_sides_def list_ex_iff)

lemma draft_side_agreed:
  assumes "draft_position_side legs expected = Inr side" "is_long_or_short side"
  shows "(expected \<noteq> PyNone \<longrightarrow> side = obj_lower expected)
    \<and> (\<forall>leg \<in> set legs. obj_lower (dict_get (leg_fields leg) ''position_side'') = side)"
proof (cases "obj_lower expected = []")
  case True
  with assms have e: "expected = PyNone" "length (leg_position_sides legs) = 1" "side = hd (leg_position_sides legs)"
    "\<not> list_ex (\<lambda>leg. missing (dict_get (leg_fields leg) ''position_side'')) legs"
    by (auto simp: draft_position_side_def Let_def split: if_splits)
  then obtain s where "leg_position_sides legs = [s]" by (cases "leg_position_sides legs") auto
  with e leg_position_sides_set [OF e(4)] show ?thesis by auto
next
  case False
  with assms have e: "side = obj_lower expected" "list_all (\<lambda>v. v = side) (leg_position_sides legs)"
    "\<not> list_ex (\<lambda>leg. missing (dict_get (leg_fields leg) ''position_side'')) legs"
    by (auto simp: draft_position_side_def Let_def list_all_iff list_ex_iff split: if_splits)
  with leg_position_sides_set [OF e(3)] show ?thesis by (auto simp: list_all_iff)
qed

lemma check_open_sides_None:
  "check_open_sides expected legs = None \<Longrightarrow> \<forall>leg \<in> set legs. obj_lower (dict_get (leg_fields leg) ''side'') = expected"
  by (induction legs) (auto simp: Let_def split: if_splits)

lemma check_open_sides_Some: "check_open_sides expected legs = Some r \<Longrightarrow> \<not> geometry_passed r"
  by (induction legs) (auto simp: Let_def split: if_splits)

lemma check_top_sides_Some: "check_top_sides kvs side open_side = Some r \<Longrightarrow> \<not> geometry_passed r"
  by (auto simp: check_top_sides_def Let_def split: if_splits)

lemma draft_position_side_Inl: "draft_position_side legs expected = Inl r \<Longrightarrow> \<not> geometry_passed r"
  by (auto simp: draft_position_side_def Let_def split: if_splits)

lemma obj_lower_side: "is_long_or_short s \<Longrightarrow> obj_lower (PyStr s) = s"
  by (elim disjE) (simp_all, code_simp+)

lemma draft_prices_passes:
  assumes "geometry_passed (draft_prices kvs legs side)" "is_long_or_short side"
  obtains tick entries stop targets target_legs where
    "geometry_positive (dict_get (leg_fields (dict_get kvs ''contract_spec'')) ''price_tick'') = Some tick"
    "normalize_values (Some tick) (map (\<lambda>leg. dict_get (leg_fields leg) ''price'') legs) = Some entries"
    "normalize_value (Some tick) (dict_get kvs ''stop_loss'') = Some stop"
    "dict_get kvs ''take_profit_legs'' = PyList target_legs \<or> dict_get kvs ''take_profit_legs'' = PyNone \<and> target_legs = []"
    "normalize_values (Some tick) (map (\<lambda>leg. dict_get (leg_fields leg) ''price'') target_legs) = Some targets"
    "\<forall>e \<in> set entries. loss_side (side = ''long'') stop e \<and> (\<forall>tp \<in> set targets. loss_side (side = ''long'') e tp)"
proof -
  let ?stated = "dict_get kvs ''take_profit_legs''" and ?price = "\<lambda>leg. dict_get (leg_fields leg) ''price''"
  let ?tick = "dict_get (leg_fields (dict_get kvs ''contract_spec'')) ''price_tick''"
  obtain target_legs where t: "(if ?stated = PyNone then PyList [] else ?stated) = PyList target_legs"
    "?tick \<noteq> PyNone" and v: "geometry_passed (validate_entry_price_geometry (PyStr side) (PyList (map ?price legs)) (dict_get kvs ''stop_loss'')
      (PyList (map ?price target_legs)) PyNone ?tick True)"
    using assms(1) unfolding draft_prices_def Let_def by (auto split: pyobj.splits if_splits)
  from v obtain tick raw_entries entries raw_tps tps where g: "geometry_tick ?tick = Some tick"
    "bounded_iterable (PyList (map ?price legs)) = Some raw_entries" "normalize_values tick raw_entries = Some entries"
    "bounded_iterable (PyList (map ?price target_legs)) = Some raw_tps" "normalize_values tick raw_tps = Some tps"
    "\<not> missing (dict_get kvs ''stop_loss'')" "\<forall>e \<in> set entries. \<forall>tp \<in> set tps. loss_side (side = ''long'') e tp"
    and s: "\<exists>s. normalize_value tick (dict_get kvs ''stop_loss'') = Some s \<and> (\<forall>e \<in> set entries. loss_side (side = ''long'') s e)"
    unfolding entry_geometry_exact Let_def obj_lower_side [OF assms(2)] by (auto split: if_splits)
  from s obtain stop where stop: "normalize_value tick (dict_get kvs ''stop_loss'') = Some stop"
    "\<forall>e \<in> set entries. loss_side (side = ''long'') stop e" by blast
  from g(1) t(2) obtain tk where tk: "tick = Some tk" "geometry_positive ?tick = Some tk" by (auto simp: geometry_tick_def)
  have raw: "raw_entries = map ?price legs" "raw_tps = map ?price target_legs"
    using g(2,4) by (auto simp: bounded_iterable_def split: if_splits)
  show thesis
  proof (rule that [of tk entries stop target_legs tps])
    show "?stated = PyList target_legs \<or> ?stated = PyNone \<and> target_legs = []" using t(1) by (auto split: if_splits)
  qed (use tk g(3,5,7) stop raw in auto)
qed

text \<open>
  Claim C24: a draft that passes is one to place: every leg names one side, the one expected of it where
  one is, and opens it; and at the contract's tick the stop lies strictly on the loss side of every
  leg's price and every take profit strictly on the profit side of it.
\<close>

theorem order_draft_geometry_sound:
  assumes "geometry_passed (validate_order_draft_price_geometry draft expected)"
  shows "\<exists>kvs legs side tick entries stop targets. draft = PyDict kvs \<and> dict_get kvs ''order_legs'' = PyList legs \<and> legs \<noteq> []
    \<and> is_long_or_short side \<and> (expected \<noteq> PyNone \<longrightarrow> side = obj_lower expected)
    \<and> (\<forall>leg \<in> set legs. is_mapping leg \<and> obj_lower (dict_get (leg_fields leg) ''position_side'') = side
        \<and> obj_lower (dict_get (leg_fields leg) ''side'') = (if side = ''long'' then ''buy'' else ''sell''))
    \<and> geometry_positive (dict_get (leg_fields (dict_get kvs ''contract_spec'')) ''price_tick'') = Some tick
    \<and> normalize_values (Some tick) (map (\<lambda>leg. dict_get (leg_fields leg) ''price'') legs) = Some entries
    \<and> normalize_value (Some tick) (dict_get kvs ''stop_loss'') = Some stop
    \<and> normalize_values (Some tick) (map (\<lambda>leg. dict_get (leg_fields leg) ''price'') (items_of (dict_get kvs ''take_profit_legs''))) = Some targets
    \<and> (\<forall>e \<in> set entries. loss_side (side = ''long'') stop e \<and> (\<forall>tp \<in> set targets. loss_side (side = ''long'') e tp))"
proof -
  from assms obtain kvs leg rest where d: "draft = PyDict kvs" "dict_get kvs ''order_legs'' = PyList (leg # rest)"
    by (auto simp: validate_order_draft_price_geometry_def split: pyobj.splits list.splits)
  let ?legs = "leg # rest"
  let ?open = "\<lambda>side. if side = ''long'' then ''buy'' else ''sell''"
  from assms obtain side where s: "\<forall>leg \<in> set ?legs. is_mapping leg" "draft_position_side ?legs expected = Inr side"
    "is_long_or_short side" "check_open_sides (?open side) ?legs = None" "geometry_passed (draft_prices kvs ?legs side)"
    unfolding validate_order_draft_price_geometry_def d pyobj.case list.case Let_def list_ex_iff
    by (auto split: if_splits sum.splits option.splits
        simp del: check_open_sides.simps dest: draft_position_side_Inl check_open_sides_Some check_top_sides_Some)
  obtain tick entries stop targets target_legs where
    p: "geometry_positive (dict_get (leg_fields (dict_get kvs ''contract_spec'')) ''price_tick'') = Some tick"
    "normalize_values (Some tick) (map (\<lambda>leg. dict_get (leg_fields leg) ''price'') ?legs) = Some entries"
    "normalize_value (Some tick) (dict_get kvs ''stop_loss'') = Some stop"
    "dict_get kvs ''take_profit_legs'' = PyList target_legs \<or> dict_get kvs ''take_profit_legs'' = PyNone \<and> target_legs = []"
    "normalize_values (Some tick) (map (\<lambda>leg. dict_get (leg_fields leg) ''price'') target_legs) = Some targets"
    "\<forall>e \<in> set entries. loss_side (side = ''long'') stop e \<and> (\<forall>tp \<in> set targets. loss_side (side = ''long'') e tp)"
    by (rule draft_prices_passes [OF s(5,3)])
  have items: "items_of (dict_get kvs ''take_profit_legs'') = target_legs" using p(4) by (auto simp: items_of_def)
  have legs: "\<forall>leg \<in> set ?legs. is_mapping leg \<and> obj_lower (dict_get (leg_fields leg) ''position_side'') = side
        \<and> obj_lower (dict_get (leg_fields leg) ''side'') = ?open side"
    using s(1) draft_side_agreed [OF s(2,3)] check_open_sides_None [OF s(4)] by blast
  show ?thesis
    by (intro exI [of _ kvs] exI [of _ ?legs] exI [of _ side] exI [of _ tick] exI [of _ entries] exI [of _ stop] exI [of _ targets] conjI)
      (rule d, rule d, rule list.distinct, rule s, use draft_side_agreed [OF s(2,3)] in blast, rule legs, rule p, rule p, rule p,
       use items p(5) in simp, rule p)
qed


lemma candidate_protection_passes:
  assumes "geometry_passed (candidate_protection rd stop_text tp_text decide)"
  shows "geometry_passed (decide (if rd_prices rd stop_text = [] then PyNone else hd (rd_prices rd stop_text))
      (PyList (rd_prices rd (rd_strip_take_profit_ordinals rd tp_text))))"
  using assms by (auto simp: candidate_protection_def Let_def split: if_splits)

lemma bounded_list: "bounded_iterable (PyList xs) = Some ys \<longleftrightarrow> length xs \<le> 32 \<and> ys = xs"
  by (auto simp: bounded_iterable_def)

lemma missing_None [simp]: "missing PyNone"
  by (simp add: missing_def)

lemma reference_geometry_passes:
  assumes "geometry_passed (reference_entry_protection_geometry side stop_loss (PyList tps) price_tick)"
  shows "is_long_or_short (obj_lower side) \<and> \<not> missing stop_loss
    \<and> (\<exists>tick stop targets. geometry_tick price_tick = Some tick \<and> normalize_value tick stop_loss = Some stop
        \<and> normalize_values tick tps = Some targets \<and> (\<forall>tp \<in> set targets. loss_side (obj_lower side = ''long'') stop tp))"
  using assms unfolding reference_entry_protection_geometry_def Let_def
  by (auto simp: bounded_list check_take_profits_None dest: check_take_profits_Some split: if_splits option.splits)

text \<open>
  A candidate passes only with a stop and in strict geometry against entry prices that its
  text or the caller gave; or, where the caller allows it and the text names a market entry and no
  price, with every take profit strictly beyond the stop and the entry still owed.
\<close>

theorem candidate_geometry_sound:
  assumes "geometry_passed (validate_candidate_entry_price_geometry rd side entry_text stop_text tp_text resolved price_tick allow)"
  shows "is_long_or_short (obj_lower side) \<and> rd_prices rd stop_text \<noteq> []
    \<and> (\<exists>tick stop tps. geometry_tick price_tick = Some tick \<and> normalize_value tick (hd (rd_prices rd stop_text)) = Some stop
      \<and> normalize_values tick (rd_prices rd (rd_strip_take_profit_ordinals rd tp_text)) = Some tps
      \<and> (if allow \<and> rd_pure_market_entry rd entry_text \<and> resolved = PyNone
         then \<forall>tp \<in> set tps. loss_side (obj_lower side = ''long'') stop tp
         else \<exists>entry_values average entries.
           candidate_entries rd entry_text resolved (allow \<and> rd_pure_market_entry rd entry_text) = Inr (entry_values, average)
           \<and> entry_values \<noteq> [] \<and> normalize_values tick entry_values = Some entries
           \<and> (\<forall>e \<in> set entries. loss_side (obj_lower side = ''long'') stop e
             \<and> (\<forall>tp \<in> set tps. loss_side (obj_lower side = ''long'') e tp))))"
proof -
  let ?ref = "allow \<and> rd_pure_market_entry rd entry_text"
  let ?stop = "if rd_prices rd stop_text = [] then PyNone else hd (rd_prices rd stop_text)"
  let ?tps = "rd_prices rd (rd_strip_take_profit_ordinals rd tp_text)"
  have refusal: "\<not> geometry_passed r" if "candidate_entries rd entry_text resolved ?ref = Inl r" for r
    using that by (auto simp: candidate_entries_def read_entry_text_def Let_def split: if_splits option.splits sum.splits)
  from assms obtain vals average where c: "candidate_entries rd entry_text resolved ?ref = Inr (vals, average)" and p: "geometry_passed (candidate_protection rd stop_text tp_text (\<lambda>stop take_profits.
      if ?ref \<and> resolved = PyNone then reference_entry_protection_geometry side stop take_profits price_tick
      else validate_entry_price_geometry side (PyList vals) stop take_profits average price_tick True))"
    unfolding validate_candidate_entry_price_geometry_def Let_def
    by (auto split: sum.splits dest: refusal)
  from candidate_protection_passes [OF p] have d: "geometry_passed (if ?ref \<and> resolved = PyNone
      then reference_entry_protection_geometry side ?stop (PyList ?tps) price_tick
      else validate_entry_price_geometry side (PyList vals) ?stop (PyList ?tps) average price_tick True)" .
  show ?thesis
  proof (cases "?ref \<and> resolved = PyNone")
    case True
    with d have "geometry_passed (reference_entry_protection_geometry side ?stop (PyList ?tps) price_tick)" by simp
    from reference_geometry_passes [OF this] True show ?thesis by (auto split: if_splits)
  next
    case False
    with d have v: "geometry_passed (validate_entry_price_geometry side (PyList vals) ?stop (PyList ?tps) average price_tick True)"
      by (simp only: if_False)
    then obtain tick raw entries tps where e: "is_long_or_short (obj_lower side)" "geometry_tick price_tick = Some tick"
      "raw \<noteq> []" "normalize_values tick raw = Some entries" "normalize_values tick ?tps = Some tps" "\<not> missing ?stop"
      "\<exists>s. normalize_value tick ?stop = Some s \<and> (\<forall>e \<in> set entries. loss_side (obj_lower side = ''long'') s e)"
      "\<forall>e \<in> set entries. \<forall>tp \<in> set tps. loss_side (obj_lower side = ''long'') e tp"
      and r: "raw = vals" unfolding entry_geometry_exact Let_def bounded_list by (auto split: if_splits)
    from e(7) obtain stop where stop: "normalize_value tick ?stop = Some stop"
      "\<forall>e \<in> set entries. loss_side (obj_lower side = ''long'') stop e" by blast
    have F: "\<not> (allow \<and> rd_pure_market_entry rd entry_text \<and> resolved = PyNone)" using False by blast
    have ne: "rd_prices rd stop_text \<noteq> []" using e(6) by auto
    then have h: "?stop = hd (rd_prices rd stop_text)" by (rule if_not_P)
    have "\<forall>e \<in> set entries. loss_side (obj_lower side = ''long'') stop e \<and> (\<forall>tp \<in> set tps. loss_side (obj_lower side = ''long'') e tp)"
      using stop(2) e(8) by blast
    with c e(3,4) r have g: "\<exists>entry_values average entries. candidate_entries rd entry_text resolved ?ref = Inr (entry_values, average)
        \<and> entry_values \<noteq> [] \<and> normalize_values tick entry_values = Some entries
        \<and> (\<forall>e \<in> set entries. loss_side (obj_lower side = ''long'') stop e \<and> (\<forall>tp \<in> set tps. loss_side (obj_lower side = ''long'') e tp))"
      by blast
    show ?thesis unfolding if_not_P [OF F]
      by (intro conjI exI [of _ tick] exI [of _ stop] exI [of _ tps])
        (rule e(1), rule ne, rule e(2), rule stop(1) [unfolded h], rule e(5), rule g)
  qed
qed

definition example_draft_leg :: "string \<Rightarrow> pyobj" where
  "example_draft_leg price = PyDict [(''price'', Scalar (VFloat price)), (''side'', PyStr ''buy''), (''position_side'', PyStr ''long'')]"

definition example_draft :: pyobj where
  "example_draft = PyDict [(''order_legs'', PyList [example_draft_leg ''2000.07'', example_draft_leg ''1990.5'']), (''stop_loss'', Scalar (VFloat ''1950.0'')),
     (''take_profit_legs'', PyList [PyDict [(''price'', Scalar (VFloat ''2050.0''))]]), (''contract_spec'', PyDict [(''price_tick'', Scalar (VFloat ''0.1''))])]"

lemma example_draft_passes: "geometry_passed (validate_order_draft_price_geometry example_draft (PyStr ''LONG''))"
  unfolding geometry_passed_def by code_simp

theorem entry_geometry_exact_witness:
  "\<not> geometry_passed (validate_entry_price_geometry (PyStr ''short'') (PyList [Scalar (VInt 100)]) (Scalar (VInt 100)) PyNone PyNone PyNone True)"
proof
  assume "geometry_passed (validate_entry_price_geometry (PyStr ''short'') (PyList [Scalar (VInt 100)]) (Scalar (VInt 100)) PyNone PyNone PyNone True)"
  then obtain tick entries s where e: "normalize_values tick [Scalar (VInt 100)] = Some entries" "normalize_value tick (Scalar (VInt 100)) = Some s"
    "\<forall>e \<in> set entries. loss_side (obj_lower (PyStr ''short'') = ''long'') s e"
    unfolding entry_geometry_exact Let_def bounded_list by (auto simp: missing_def)
  from e(1,2) have "entries = [s]" by simp
  with e(3) show False by (simp add: loss_side_def)
qed

theorem order_draft_geometry_sound_witness:
  "\<exists>tick stop. normalize_value (Some tick) (Scalar (VFloat ''1950.0'')) = Some stop \<and> obj_lower (PyStr ''LONG'') = ''long''"
proof -
  from order_draft_geometry_sound [OF example_draft_passes] obtain kvs tick stop where
    "example_draft = PyDict kvs" "normalize_value (Some tick) (dict_get kvs ''stop_loss'') = Some stop" by metis
  moreover have "dict_get kvs ''stop_loss'' = Scalar (VFloat ''1950.0'')" if "example_draft = PyDict kvs" for kvs
    using that by (auto simp: example_draft_def dict_get_def)
  moreover have "obj_lower (PyStr ''LONG'') = ''long''" by code_simp
  ultimately show ?thesis by metis
qed

definition example_reader :: text_reader where
  "example_reader = \<lparr>rd_pure_market_entry = (\<lambda>x. False), rd_strip_entry_ordinals = (\<lambda>x. x), rd_strip_take_profit_ordinals = (\<lambda>x. x),
     rd_proves_absolute = (\<lambda>field x. True), rd_prices = (\<lambda>x. if x = PyNone then [] else [x]), rd_explicit_average = (\<lambda>x. None)\<rparr>"

lemma example_candidate_passes:
  "geometry_passed (validate_candidate_entry_price_geometry example_reader (PyStr ''short'') (PyStr ''100'') (PyStr ''110'') (PyStr ''90'')
     PyNone PyNone False)"
  unfolding geometry_passed_def by code_simp

theorem candidate_geometry_sound_witness:
  "\<exists>stop entries. normalize_value None (PyStr ''110'') = Some stop \<and> normalize_values None [PyStr ''100''] = Some entries
     \<and> loss_side False stop (hd entries)"
proof -
  have s: "(obj_lower (PyStr ''short'') = ''long'') = False" by code_simp
  have t: "geometry_tick PyNone = Some None" by (simp add: geometry_tick_def)
  have p: "rd_prices example_reader (PyStr ''110'') = [PyStr ''110'']" by (simp add: example_reader_def)
  have c: "candidate_entries example_reader (PyStr ''100'') PyNone False
      = Inr ([PyStr ''100''], PyNone)"
    by (simp add: candidate_entries_def read_entry_text_def example_reader_def)
  from candidate_geometry_sound [OF example_candidate_passes] obtain stop entries where
    e: "normalize_value None (PyStr ''110'') = Some stop" "normalize_values None [PyStr ''100''] = Some entries"
    "\<forall>e \<in> set entries. loss_side False stop e"
    by (auto simp: s t p c simp del: normalize_values.simps split: if_splits)
  moreover have "entries \<noteq> []" using normalize_values_length [OF e(2)] by auto
  ultimately show ?thesis by auto
qed

end
