(* ===== verification/Limit_Entry.thy ===== *)
theory Limit_Entry
  imports Py_Object
begin

text \<open>
  The ordinary order of a plain limit entry leg (\<open>deepcoin_limit_entry.py\<close>): the rule that keeps a leg
  with trigger semantics on the trigger-order path, and the payload of the legs that leave it. A leg
  and a draft are dictionaries, a payload its list of fields.
\<close>

definition limit_entry_payload_fields :: "string list" where
  "limit_entry_payload_fields =
     [''instId'', ''tdMode'', ''mrgPosition'', ''side'', ''posSide'', ''ordType'', ''px'', ''sz'', ''tpTriggerPx'', ''slTriggerPx'']"

definition forbidden_limit_entry_fields :: "string list" where
  "forbidden_limit_entry_fields =
     [''clOrdId'', ''isCrossMargin'', ''orderType'', ''price'', ''productGroup'', ''slOrdPx'', ''tag'', ''tpOrdPx'',
      ''triggerPrice'', ''triggerPxType'']"

definition trigger_semantic_tokens :: "string list" where
  "trigger_semantic_tokens =
     [''trigger'', ''condition'', ''breakout'', ''pullback'', ''activation'', ''price_source'', ''px_type'']"

definition price_key_tokens :: "string list" where
  "price_key_tokens = [''price'', ''px'']"

text \<open>\<open>token in text\<close>.\<close>

fun contains :: "string \<Rightarrow> string \<Rightarrow> bool" where
  "contains token [] = (token = [])"
| "contains token (c # s) = (take (length token) (c # s) = token \<or> contains token s)"

definition limit_decimal :: "pyobj \<Rightarrow> rat option" where
  "limit_decimal x = (case x of
       Scalar (VBool b) \<Rightarrow> None
     | Scalar v \<Rightarrow> finite_decimal v
     | _ \<Rightarrow> None)"

definition same_price :: "pyobj \<Rightarrow> pyobj \<Rightarrow> bool" where
  "same_price left right = (case (limit_decimal left, limit_decimal right) of
       (Some a, Some b) \<Rightarrow> a = b | _ \<Rightarrow> False)"

section \<open>Which legs stay on the trigger order\<close>

text \<open>\<open>value in (None, "", [], {}, 0)\<close>.\<close>

definition meaningless :: "pyobj \<Rightarrow> bool" where
  "meaningless x = (case x of
       Scalar v \<Rightarrow> \<not> truthy v
     | PyList xs \<Rightarrow> xs = [] | PyTuple xs \<Rightarrow> False | PyDict kvs \<Rightarrow> kvs = [])"

definition carries_trigger :: "pyobj \<Rightarrow> string \<times> pyobj \<Rightarrow> bool" where
  "carries_trigger price field =
     (let lowered = py_lower (fst field) in
      list_ex (\<lambda>token. contains token lowered) trigger_semantic_tokens
      \<and> \<not> meaningless (snd field)
      \<and> \<not> (list_ex (\<lambda>token. contains token lowered) price_key_tokens \<and> same_price (snd field) price))"

definition trigger_field :: "string \<Rightarrow> pyobj \<Rightarrow> (string \<times> pyobj) list \<Rightarrow> string option" where
  "trigger_field source_name price fields =
     map_option (\<lambda>field. source_name @ ''_field_'' @ py_lower (fst field) @ ''_carries_trigger_semantics'')
       (find (carries_trigger price) fields)"

definition limit_leg_requires_trigger_order :: "(string \<times> pyobj) list \<Rightarrow> pyobj \<Rightarrow> string option" where
  "limit_leg_requires_trigger_order leg draft =
     (let price = dict_get leg ''price'' in
      if py_lower (obj_str_or_empty (dict_get leg ''order_type'')) \<noteq> ''limit'' then Some ''not_a_plain_limit_leg''
      else if (case limit_decimal price of None \<Rightarrow> True | Some p \<Rightarrow> p \<le> 0) then Some ''leg_price_not_usable_as_limit_price''
      else (case trigger_field ''leg'' price leg of
          Some reason \<Rightarrow> Some reason
        | None \<Rightarrow> (case draft of
            PyDict fields \<Rightarrow> trigger_field ''draft'' price fields
          | _ \<Rightarrow> None)))"

section \<open>The payload\<close>

text \<open>\<open>isinstance(x, int | float) and not isinstance(x, bool) and x > 0\<close>.\<close>

definition positive_number :: "pyobj \<Rightarrow> bool" where
  "positive_number x = (case x of
       Scalar (VInt i) \<Rightarrow> 0 < i
     | Scalar (VFloat r) \<Rightarrow> (case parse_decimal r of
           Some (DFin v) \<Rightarrow> 0 < v | Some (DInf neg) \<Rightarrow> \<not> neg | _ \<Rightarrow> False)
     | _ \<Rightarrow> False)"

definition required_text :: "(string \<times> pyobj) list \<Rightarrow> string \<Rightarrow> string result" where
  "required_text fields key = (case map_of fields key of None \<Rightarrow> Inl (KeyError key) | Some x \<Rightarrow> Inr (obj_str x))"

definition limit_error :: "string \<Rightarrow> 'a result" where
  "limit_error reason = Inl (DeepcoinLimitEntryError reason)"

text \<open>The optional take profit, against the entry price.\<close>

definition with_take_profit :: "string \<Rightarrow> rat \<Rightarrow> pyobj \<Rightarrow> (string \<times> string) list \<Rightarrow> (string \<times> string) list result" where
  "with_take_profit position_side price take_profit payload = (case limit_decimal take_profit of
       None \<Rightarrow> if take_profit \<noteq> PyNone then limit_error ''invalid_take_profit_for_protection'' else Inr payload
     | Some tp \<Rightarrow>
         if tp \<le> 0 then limit_error ''invalid_take_profit_for_protection''
         else if position_side = ''long'' \<and> tp \<le> price \<or> position_side = ''short'' \<and> price \<le> tp
         then limit_error ''take_profit_on_wrong_side_of_entry''
         else Inr (payload @ [(''tpTriggerPx'', obj_str take_profit)]))"

definition check_fields :: "(string \<times> string) list \<Rightarrow> (string \<times> string) list result" where
  "check_fields payload =
     (let unexpected = filter (\<lambda>k. k \<notin> set limit_entry_payload_fields) (map fst payload) in
      if unexpected \<noteq> [] then limit_error (''unexpected_limit_entry_fields:'' @ concat (map (\<lambda>k. k @ '','') (butlast (sort unexpected))) @ last (sort unexpected)) else Inr payload)"

definition build_deepcoin_limit_entry_payload ::
    "(string \<times> pyobj) list \<Rightarrow> (string \<times> pyobj) list \<Rightarrow> string \<Rightarrow> string \<Rightarrow> pyobj \<Rightarrow> pyobj \<Rightarrow> (string \<times> string) list result" where
  "build_deepcoin_limit_entry_payload draft leg margin_mode position_mode stop_loss take_profit =
     (let quantity = dict_get leg ''quantity''; price = dict_get leg ''price'' in
      if \<not> positive_number quantity then limit_error ''non_positive_quantity''
      else if \<not> positive_number price then limit_error ''non_positive_price''
      else (case limit_decimal stop_loss of
        None \<Rightarrow> limit_error ''missing_stop_loss_for_protection''
      | Some stop \<Rightarrow>
        if stop \<le> 0 then limit_error ''missing_stop_loss_for_protection''
        else
        rbind (required_text leg ''position_side'') (\<lambda>raw_position_side.
        let position_side = py_lower raw_position_side in
        if \<not> is_long_or_short position_side then limit_error ''unsupported_position_side''
        else
        rbind (required_text leg ''side'') (\<lambda>raw_side.
        let side = py_lower raw_side in
        if side \<noteq> ''buy'' \<and> side \<noteq> ''sell'' then limit_error ''unsupported_side''
        else
        rbind (required_text draft ''instrument_id'') (\<lambda>instrument_id.
        let payload = [(''instId'', instrument_id), (''tdMode'', margin_mode), (''mrgPosition'', position_mode), (''side'', side),
              (''posSide'', position_side), (''ordType'', ''limit''), (''px'', obj_str price), (''sz'', obj_str quantity),
              (''slTriggerPx'', obj_str stop_loss)]
        in (case limit_decimal price of
            None \<Rightarrow> Inl (TypeError ''NoneType'')
          | Some price_value \<Rightarrow>
              if position_side = ''long'' \<and> price_value \<le> stop \<or> position_side = ''short'' \<and> stop \<le> price_value
              then limit_error ''stop_loss_on_wrong_side_of_entry''
              else rbind (with_take_profit position_side price_value take_profit payload) check_fields))))))"

section \<open>Properties\<close>

text \<open>
  A leg leaves the trigger order exactly when it is a limit leg with a positive price and
  neither it nor the draft has a field of a trigger concept with a value that means something, other
  than a price equal to the leg's.
\<close>

theorem limit_leg_migrates_exact:
  "limit_leg_requires_trigger_order leg draft = None \<longleftrightarrow>
     py_lower (obj_str_or_empty (dict_get leg ''order_type'')) = ''limit''
     \<and> (\<exists>p > 0. limit_decimal (dict_get leg ''price'') = Some p)
     \<and> (\<forall>(key, v) \<in> set leg \<union> set (case draft of PyDict fields \<Rightarrow> fields | _ \<Rightarrow> []).
          list_ex (\<lambda>token. contains token (py_lower key)) trigger_semantic_tokens \<and> \<not> meaningless v
          \<longrightarrow> list_ex (\<lambda>token. contains token (py_lower key)) price_key_tokens \<and> same_price v (dict_get leg ''price''))"
proof -
  have t: "trigger_field name price fields = None \<longleftrightarrow> (\<forall>(key, v) \<in> set fields.
      list_ex (\<lambda>token. contains token (py_lower key)) trigger_semantic_tokens \<and> \<not> meaningless v
      \<longrightarrow> list_ex (\<lambda>token. contains token (py_lower key)) price_key_tokens \<and> same_price v price)" for name price fields
    by (auto simp: trigger_field_def find_None_iff carries_trigger_def Let_def)
  have p: "(case limit_decimal price of None \<Rightarrow> True | Some p \<Rightarrow> p \<le> 0) \<longleftrightarrow> \<not> (\<exists>p > 0. limit_decimal price = Some p)" for price
    by (cases "limit_decimal price") (auto simp: not_le)
  show ?thesis
  proof (cases "py_lower (obj_str_or_empty (dict_get leg ''order_type'')) = ''limit'' \<and> (\<exists>p > 0. limit_decimal (dict_get leg ''price'') = Some p)")
    case False
    then show ?thesis unfolding limit_leg_requires_trigger_order_def Let_def p by auto
  next
    case True
    then have "limit_leg_requires_trigger_order leg draft = None \<longleftrightarrow> trigger_field ''leg'' (dict_get leg ''price'') leg = None
        \<and> trigger_field ''draft'' (dict_get leg ''price'') (case draft of PyDict fields \<Rightarrow> fields | _ \<Rightarrow> []) = None"
      unfolding limit_leg_requires_trigger_order_def Let_def p
      by (auto simp: trigger_field_def split: option.splits pyobj.splits)
    with True show ?thesis unfolding t by auto
  qed
qed

theorem limit_leg_migrates_exact_witness:
  fixes leg :: "(string \<times> pyobj) list"
  defines "leg \<equiv> [(''order_type'', PyStr ''LIMIT''), (''price'', Scalar (VFloat ''3000.5'')), (''trigger_price'', PyStr ''3000.50'')]"
  shows "limit_leg_requires_trigger_order leg PyNone = None \<and> same_price (PyStr ''3000.50'') (dict_get leg ''price'')"
proof -
  have none: "limit_leg_requires_trigger_order leg PyNone = None" unfolding leg_def by code_simp
  have mem: "(''trigger_price'', PyStr ''3000.50'') \<in> set leg" unfolding leg_def by simp
  have "list_ex (\<lambda>token. contains token (py_lower ''trigger_price'')) trigger_semantic_tokens \<and> \<not> meaningless (PyStr ''3000.50'')"
    by code_simp
  with limit_leg_migrates_exact [THEN iffD1, OF none] mem have "same_price (PyStr ''3000.50'') (dict_get leg ''price'')" by fastforce
  with none show ?thesis by simp
qed

text \<open>What an accepted payload is.\<close>

lemma with_take_profit_Inr:
  assumes "with_take_profit side price tp payload = Inr payload'"
  shows "payload' = payload \<and> tp = PyNone \<or> (\<exists>t. limit_decimal tp = Some t \<and> 0 < t \<and> payload' = payload @ [(''tpTriggerPx'', obj_str tp)]
    \<and> (side = ''long'' \<longrightarrow> price < t) \<and> (side = ''short'' \<longrightarrow> t < price))"
  using assms by (auto simp: with_take_profit_def limit_error_def not_le split: option.splits if_splits)

text \<open>
  An accepted payload carries each field once, exactly the fields of the ordinary order (the
  take profit only if there is one) and so never a client order id or a field of the trigger order;
  price and quantity are positive, the stop lies strictly on the loss side of the price and the take
  profit strictly on the profit side.
\<close>

theorem limit_entry_payload_sound:
  assumes "build_deepcoin_limit_entry_payload draft leg margin_mode position_mode stop_loss take_profit = Inr payload"
  shows "distinct (map fst payload) \<and> set (map fst payload) \<inter> set forbidden_limit_entry_fields = {}
    \<and> set (map fst payload) = set limit_entry_payload_fields - (if take_profit = PyNone then {''tpTriggerPx''} else {})
    \<and> (\<exists>price stop side position_side. map_of payload ''px'' = Some (obj_str (dict_get leg ''price''))
        \<and> map_of payload ''sz'' = Some (obj_str (dict_get leg ''quantity'')) \<and> map_of payload ''slTriggerPx'' = Some (obj_str stop_loss)
        \<and> map_of payload ''side'' = Some side \<and> side \<in> {''buy'', ''sell''}
        \<and> map_of payload ''posSide'' = Some position_side \<and> is_long_or_short position_side
        \<and> positive_number (dict_get leg ''quantity'') \<and> positive_number (dict_get leg ''price'')
        \<and> limit_decimal (dict_get leg ''price'') = Some price \<and> limit_decimal stop_loss = Some stop \<and> 0 < stop
        \<and> (if position_side = ''long'' then stop < price else price < stop)
        \<and> (take_profit \<noteq> PyNone \<longrightarrow> (\<exists>t. limit_decimal take_profit = Some t \<and> map_of payload ''tpTriggerPx'' = Some (obj_str take_profit)
            \<and> (if position_side = ''long'' then price < t else t < price))))"
proof -
  let ?price = "dict_get leg ''price''" and ?quantity = "dict_get leg ''quantity''"
  from assms obtain stop price raw_side raw_position_side instrument payload' where
    p: "positive_number ?quantity" "positive_number ?price" "limit_decimal stop_loss = Some stop" "0 < stop"
    "is_long_or_short (py_lower raw_position_side)" "py_lower raw_side \<in> {''buy'', ''sell''}" "limit_decimal ?price = Some price"
    "\<not> (py_lower raw_position_side = ''long'' \<and> price \<le> stop \<or> py_lower raw_position_side = ''short'' \<and> stop \<le> price)"
    and w: "with_take_profit (py_lower raw_position_side) price take_profit
      [(''instId'', instrument), (''tdMode'', margin_mode), (''mrgPosition'', position_mode), (''side'', py_lower raw_side),
       (''posSide'', py_lower raw_position_side), (''ordType'', ''limit''), (''px'', obj_str ?price), (''sz'', obj_str ?quantity),
       (''slTriggerPx'', obj_str stop_loss)] = Inr payload'" and c: "check_fields payload' = Inr payload"
    unfolding build_deepcoin_limit_entry_payload_def Let_def limit_error_def
    by (auto simp: not_le split: if_splits option.splits sum.splits)
  from c have "payload = payload'" by (auto simp: check_fields_def limit_error_def Let_def split: if_splits)
  with with_take_profit_Inr [OF w] show ?thesis
  proof (elim disjE conjE exE)
    assume "payload' = [(''instId'', instrument), (''tdMode'', margin_mode), (''mrgPosition'', position_mode), (''side'', py_lower raw_side),
       (''posSide'', py_lower raw_position_side), (''ordType'', ''limit''), (''px'', obj_str ?price), (''sz'', obj_str ?quantity),
       (''slTriggerPx'', obj_str stop_loss)]" "take_profit = PyNone"
    with p \<open>payload = payload'\<close> show ?thesis
      by (simp add: limit_entry_payload_fields_def forbidden_limit_entry_fields_def) auto
  next
    fix t
    assume t: "limit_decimal take_profit = Some t" "payload' = [(''instId'', instrument), (''tdMode'', margin_mode),
       (''mrgPosition'', position_mode), (''side'', py_lower raw_side), (''posSide'', py_lower raw_position_side), (''ordType'', ''limit''),
       (''px'', obj_str ?price), (''sz'', obj_str ?quantity), (''slTriggerPx'', obj_str stop_loss)] @ [(''tpTriggerPx'', obj_str take_profit)]"
      "py_lower raw_position_side = ''long'' \<longrightarrow> price < t" "py_lower raw_position_side = ''short'' \<longrightarrow> t < price"
    have "take_profit \<noteq> PyNone" using t(1) by (auto simp: limit_decimal_def finite_decimal_def py_decimal_def py_str_def parse_examples)
    with t p \<open>payload = payload'\<close> show ?thesis
      by (simp add: limit_entry_payload_fields_def forbidden_limit_entry_fields_def) auto
  qed
qed

theorem limit_entry_payload_sound_witness:
  "\<exists>payload. build_deepcoin_limit_entry_payload [(''instrument_id'', PyStr ''BTC-USDT-SWAP'')]
      [(''quantity'', Scalar (VInt 5)), (''price'', Scalar (VFloat ''3000.5'')), (''position_side'', PyStr ''SHORT''), (''side'', PyStr ''sell'')]
      ''cross'' ''merge'' (Scalar (VInt 3100)) (PyStr ''2900'') = Inr payload \<and> distinct (map fst payload)"
proof -
  let ?result = "build_deepcoin_limit_entry_payload [(''instrument_id'', PyStr ''BTC-USDT-SWAP'')]
      [(''quantity'', Scalar (VInt 5)), (''price'', Scalar (VFloat ''3000.5'')), (''position_side'', PyStr ''SHORT''), (''side'', PyStr ''sell'')]
      ''cross'' ''merge'' (Scalar (VInt 3100)) (PyStr ''2900'')"
  have "case ?result of Inl _ \<Rightarrow> False | Inr _ \<Rightarrow> True" by code_simp
  then obtain payload where "?result = Inr payload" by (auto split: sum.splits)
  with limit_entry_payload_sound [OF this] show ?thesis by blast
qed

end
