(* ===== verification/Entry_Risk.thy ===== *)
theory Entry_Risk
  imports Py_Decimal
begin

text \<open>
  What a revised entry does with the position it already has (\<open>entry_revision_risk.py\<close>): the loss at
  the stop against the budget of the strategy, and the quantity that brings it back under the budget.
\<close>

record entry_revision_risk_decision =
  rd_action :: string
  rd_filled_risk_usdt :: rat
  rd_target_risk_usdt :: rat
  rd_remaining_risk_usdt :: rat
  rd_target_quantity :: rat
  rd_reduce_quantity :: rat

definition risk_error :: "string \<Rightarrow> 'a result" where
  "risk_error reason = Inl (EntryRevisionRiskError reason)"

definition revision_decimal :: "pyval \<Rightarrow> rat result" where
  "revision_decimal v = (case finite_decimal v of None \<Rightarrow> risk_error ''entry_revision_risk_input_invalid'' | Some x \<Rightarrow> Inr x)"

text \<open>\<open>to_integral_value(rounding=ROUND_DOWN)\<close>.\<close>

definition to_integral_down :: "rat \<Rightarrow> rat" where
  "to_integral_down x = (if 0 \<le> x then of_int \<lfloor>x\<rfloor> else of_int \<lceil>x\<rceil>)"

text \<open>The decision once the inputs are numbers of the right sign.\<close>

definition risk_decision :: "rat \<Rightarrow> rat \<Rightarrow> rat \<Rightarrow> rat \<Rightarrow> entry_revision_risk_decision result" where
  "risk_decision quantity risk_per_quantity target step =
     (let filled_risk = dmul quantity risk_per_quantity in
      if filled_risk < target
      then Inr \<lparr>rd_action = ''retain_and_use_headroom'', rd_filled_risk_usdt = filled_risk, rd_target_risk_usdt = target,
        rd_remaining_risk_usdt = dsub target filled_risk, rd_target_quantity = quantity, rd_reduce_quantity = 0\<rparr>
      else if filled_risk = target
      then Inr \<lparr>rd_action = ''retain_at_target'', rd_filled_risk_usdt = filled_risk, rd_target_risk_usdt = target,
        rd_remaining_risk_usdt = 0, rd_target_quantity = quantity, rd_reduce_quantity = 0\<rparr>
      else
        let target_size = dmul (to_integral_down (ddiv (ddiv target risk_per_quantity) step)) step in
        if target_size \<le> 0 \<or> quantity \<le> target_size then risk_error ''entry_revision_target_size_not_executable''
        else Inr \<lparr>rd_action = ''reduce_to_target'', rd_filled_risk_usdt = filled_risk, rd_target_risk_usdt = target,
          rd_remaining_risk_usdt = 0, rd_target_quantity = target_size, rd_reduce_quantity = dsub quantity target_size\<rparr>)"

definition assess_revision_risk ::
    "pyval \<Rightarrow> pyval \<Rightarrow> pyval \<Rightarrow> pyval \<Rightarrow> string \<Rightarrow> pyval \<Rightarrow> pyval \<Rightarrow> entry_revision_risk_decision result" where
  "assess_revision_risk quantity average_entry stop_loss contract_value side target_risk_usdt quantity_step =
     rbind (revision_decimal quantity) (\<lambda>s. rbind (revision_decimal average_entry) (\<lambda>average.
     rbind (revision_decimal stop_loss) (\<lambda>stop. rbind (revision_decimal contract_value) (\<lambda>contract.
     rbind (revision_decimal target_risk_usdt) (\<lambda>target. rbind (revision_decimal quantity_step) (\<lambda>step.
     let normalized_side = py_lower side in
     if s \<le> 0 \<or> average \<le> 0 \<or> stop \<le> 0 \<or> contract \<le> 0 \<or> target \<le> 0 \<or> step \<le> 0 \<or> \<not> is_long_or_short normalized_side
     then risk_error ''entry_revision_risk_input_invalid''
     else if normalized_side = ''long'' \<and> average \<le> stop \<or> normalized_side = ''short'' \<and> stop \<le> average
     then risk_error ''entry_revision_stop_side_invalid''
     else risk_decision s (dmul \<bar>dsub average stop\<bar> contract) target step))))))"

section \<open>How far a rounded result is off\<close>

lemma dround_relative:
  assumes "0 < x"
  shows "dround x \<le> x * (1 + 1 / 10 ^ 27)" "x * (1 - 1 / 10 ^ 27) \<le> dround x"
proof -
  define s :: rat where "s = 10 powi (dexp x - 27)"
  have s: "0 < s" by (simp add: s_def)
  have e: "10 powi dexp x = 10 ^ 27 * s" using powi_diff_nat [of "dexp x - 27" "dexp x"] by (simp add: s_def)
  have "10 ^ 27 * s \<le> x" using dexp_bounds(1) [of x] assms by (simp add: e)
  then have le: "s \<le> x / 10 ^ 27" by (simp add: field_simps)
  let ?h = "of_int (half_even (x / s)) :: rat"
  have "?h \<le> of_int (\<lfloor>x / s\<rfloor> + 1)" "of_int \<lfloor>x / s\<rfloor> \<le> ?h"
    using half_even_bounds [of "x / s"] by (simp_all only: of_int_le_iff)
  then have h: "?h \<le> x / s + 1" "x / s - 1 \<le> ?h" by linarith+
  have d: "dround x = ?h * s" using assms by (simp add: dround_scaled s_def)
  have "?h * s \<le> (x / s + 1) * s" "(x / s - 1) * s \<le> ?h * s" using h s by (simp_all only: mult_right_mono less_imp_le)
  then have "dround x \<le> x + s" "x - s \<le> dround x" using s by (simp_all add: d distrib_right left_diff_distrib)
  with le show "dround x \<le> x * (1 + 1 / 10 ^ 27)" "x * (1 - 1 / 10 ^ 27) \<le> dround x"
    by (simp_all add: distrib_left right_diff_distrib)
qed

section \<open>Properties\<close>

lemma risk_decision_Inr:
  assumes "risk_decision q r t step = Inr d" "0 < q" "0 < r" "0 < t" "0 < step"
  shows "rd_filled_risk_usdt d = dmul q r \<and> rd_target_risk_usdt d = t
    \<and> (dmul q r \<le> t \<longrightarrow> rd_target_quantity d = q \<and> rd_reduce_quantity d = 0 \<and> rd_remaining_risk_usdt d = dsub t (dmul q r))
    \<and> (t < dmul q r \<longrightarrow> rd_remaining_risk_usdt d = 0 \<and> 0 < rd_target_quantity d \<and> rd_target_quantity d < q
        \<and> rd_reduce_quantity d = dsub q (rd_target_quantity d)
        \<and> rd_target_quantity d = dmul (of_int \<lfloor>ddiv (ddiv t r) step\<rfloor>) step)"
proof -
  have "0 \<le> ddiv (ddiv t r) step" using assms by (intro less_imp_le ddiv_pos)
  then have down: "to_integral_down (ddiv (ddiv t r) step) = of_int \<lfloor>ddiv (ddiv t r) step\<rfloor>" by (simp add: to_integral_down_def)
  show ?thesis
    using assms(1) unfolding risk_decision_def Let_def down
    by (auto simp: risk_error_def dsub_def not_le split: if_splits)
qed

text \<open>The quantity kept loses no more than the budget, and one more step would reach it.\<close>

lemma target_size_bounds:
  fixes t r step :: rat
  assumes "0 < r" "0 < t" "0 < step" and k: "k = \<lfloor>ddiv (ddiv t r) step\<rfloor>" "0 < k"
  shows "dmul (of_int k) step * r \<le> t * (1 + 1 / 10 ^ 27) ^ 3"
    "t * (1 - 1 / 10 ^ 27) ^ 2 \<le> (of_int k + 1) * step * r"
proof -
  let ?u = "1 + 1 / 10 ^ 27 :: rat" and ?l = "1 - 1 / 10 ^ 27 :: rat"
  have a: "ddiv t r \<le> t / r * ?u" "t / r * ?l \<le> ddiv t r" "0 < ddiv t r"
    using assms dround_relative [of "t / r"] by (simp_all add: ddiv_def)
  have b: "ddiv (ddiv t r) step \<le> ddiv t r / step * ?u" "ddiv t r / step * ?l \<le> ddiv (ddiv t r) step"
    using assms a(3) dround_relative [of "ddiv t r / step"] by (simp_all add: ddiv_def)
  have kb: "of_int k \<le> ddiv (ddiv t r) step" "ddiv (ddiv t r) step < of_int k + 1" unfolding k by linarith+
  have c: "dmul (of_int k) step \<le> of_int k * step * ?u"
    using assms dround_relative [of "of_int k * step"] by (simp add: dmul_def)
  have "of_int k * step \<le> ddiv t r * ?u" 
  proof -
    have "of_int k \<le> ddiv t r / step * ?u" using kb(1) b(1) by linarith
    then show ?thesis using assms(3) by (simp add: field_simps)
  qed
  also have "ddiv t r * ?u \<le> t / r * ?u * ?u" using a(1) by (rule mult_right_mono) simp
  finally have "of_int k * step * ?u \<le> t / r * ?u * ?u * ?u" by (rule mult_right_mono) simp
  with c have "dmul (of_int k) step \<le> t / r * ?u ^ 3" by (simp only: power3_eq_cube mult.assoc) 
  then have "dmul (of_int k) step * r \<le> t / r * ?u ^ 3 * r" using assms(1) by (intro mult_right_mono) simp_all
  then show "dmul (of_int k) step * r \<le> t * ?u ^ 3" using assms(1) by simp
  have "t / r * ?l * ?l \<le> ddiv t r * ?l" using a(2) by (rule mult_right_mono) simp
  also have "ddiv t r * ?l \<le> (of_int k + 1) * step"
  proof -
    have "ddiv t r / step * ?l \<le> of_int k + 1" using kb(2) b(2) by linarith
    then show ?thesis using assms(3) by (simp add: field_simps)
  qed
  finally have "t / r * ?l * ?l * r \<le> (of_int k + 1) * step * r" using assms(1) by (intro mult_right_mono) simp_all
  then show "t * ?l ^ 2 \<le> (of_int k + 1) * step * r" using assms(1) by (simp add: power2_eq_square mult.assoc)
qed

text \<open>
  Claim C38: whatever the assessment returns, the inputs were positive numbers with the stop strictly on
  the loss side of the average entry, and the position keeps a positive quantity, all of it exactly when
  its loss at the stop is within the budget. Otherwise it keeps a whole number of steps whose loss is
  within the budget, up to the relative error of three rounded operations, and one more step of which
  would reach the budget, up to that of two.
\<close>

theorem revision_risk_sound:
  assumes "assess_revision_risk quantity average_entry stop_loss contract_value side target_risk quantity_step = Inr d"
  shows "\<exists>s a st c t step r. finite_decimal quantity = Some s \<and> finite_decimal average_entry = Some a
    \<and> finite_decimal stop_loss = Some st \<and> finite_decimal contract_value = Some c
    \<and> finite_decimal target_risk = Some t \<and> finite_decimal quantity_step = Some step
    \<and> 0 < st \<and> 0 < step \<and> (if py_lower side = ''long'' then st < a else a < st) \<and> r = dmul \<bar>dsub a st\<bar> c \<and> 0 < r
    \<and> rd_filled_risk_usdt d = dmul s r \<and> rd_target_risk_usdt d = t
    \<and> 0 < rd_target_quantity d \<and> rd_target_quantity d \<le> s \<and> rd_reduce_quantity d = dsub s (rd_target_quantity d)
    \<and> (rd_target_quantity d = s \<longleftrightarrow> dmul s r \<le> t)
    \<and> (t < dmul s r \<longrightarrow> rd_target_quantity d * r \<le> t * (1 + 1 / 10 ^ 27) ^ 3
        \<and> (\<exists>k::int. rd_target_quantity d = dmul (of_int k) step \<and> t * (1 - 1 / 10 ^ 27) ^ 2 \<le> (of_int k + 1) * step * r))"
proof -
  from assms obtain s a st c t step where n: "finite_decimal quantity = Some s" "finite_decimal average_entry = Some a"
      "finite_decimal stop_loss = Some st" "finite_decimal contract_value = Some c"
      "finite_decimal target_risk = Some t" "finite_decimal quantity_step = Some step"
    and pos: "0 < s" "0 < a" "0 < st" "0 < c" "0 < t" "0 < step" "is_long_or_short (py_lower side)"
    and side: "if py_lower side = ''long'' then st < a else a < st"
    and d: "risk_decision s (dmul \<bar>dsub a st\<bar> c) t step = Inr d"
    unfolding assess_revision_risk_def revision_decimal_def risk_error_def Let_def
    by (auto simp: not_le split: option.splits if_splits)
  let ?r = "dmul \<bar>dsub a st\<bar> c" and ?k = "\<lfloor>ddiv (ddiv t (dmul \<bar>dsub a st\<bar> c)) step\<rfloor>"
  have "a - st \<noteq> 0" using side by (auto split: if_splits)
  then have r: "0 < ?r" using pos by (auto simp: dsub_def intro: dmul_pos)
  note D = risk_decision_Inr [OF d pos(1) r pos(5,6)]
  have kept: "0 < rd_target_quantity d \<and> rd_target_quantity d \<le> s \<and> rd_reduce_quantity d = dsub s (rd_target_quantity d)
      \<and> (rd_target_quantity d = s \<longleftrightarrow> dmul s ?r \<le> t)"
    using D pos(1) by (cases "dmul s ?r \<le> t") (auto simp: dsub_def not_le)
  have reduced: "rd_target_quantity d * ?r \<le> t * (1 + 1 / 10 ^ 27) ^ 3
      \<and> (\<exists>k::int. rd_target_quantity d = dmul (of_int k) step \<and> t * (1 - 1 / 10 ^ 27) ^ 2 \<le> (of_int k + 1) * step * ?r)"
    if "t < dmul s ?r"
  proof -
    from D that have q: "rd_target_quantity d = dmul (of_int ?k) step" "0 < rd_target_quantity d" by blast+
    then have "0 < of_int ?k * step" by (simp only: dmul_def ctx.rnd_pos_iff)
    then have "0 < ?k" using pos(6) by (simp only: zero_less_mult_iff of_int_0_less_iff) auto
    from target_size_bounds [OF r pos(5,6) refl this] q(1) show ?thesis by (metis (no_types))
  qed
  from D have f: "rd_filled_risk_usdt d = dmul s ?r \<and> rd_target_risk_usdt d = t" by blast
  show ?thesis
    using n pos(3,6) side r f kept reduced by blast
qed

theorem revision_risk_sound_witness:
  "\<exists>d. assess_revision_risk (VInt 30) (VStr ''3000'') (VFloat ''2900.0'') (VStr ''0.01'') ''Long'' (VInt 20) (VInt 1) = Inr d
     \<and> rd_target_quantity d = 20 \<and> 0 < rd_target_quantity d"
proof -
  have "case assess_revision_risk (VInt 30) (VStr ''3000'') (VFloat ''2900.0'') (VStr ''0.01'') ''Long'' (VInt 20) (VInt 1) of
      Inl _ \<Rightarrow> False | Inr d \<Rightarrow> rd_target_quantity d = 20" by code_simp
  then obtain d where d: "assess_revision_risk (VInt 30) (VStr ''3000'') (VFloat ''2900.0'') (VStr ''0.01'') ''Long'' (VInt 20) (VInt 1) = Inr d"
    "rd_target_quantity d = 20" by (auto split: sum.splits)
  with revision_risk_sound [OF d(1)] show ?thesis by blast
qed

end
