(* ===== verification/Json_Object.thy ===== *)
theory Json_Object
  imports Py_Json Py_Object
begin

text \<open>The passage between the values of the program and those of JSON.\<close>

fun json_of_obj :: "pyobj \<Rightarrow> json" where
  "json_of_obj (Scalar v) = (case v of
       VNone \<Rightarrow> JNull | VBool b \<Rightarrow> JBool b | VInt i \<Rightarrow> JInt i | VStr s \<Rightarrow> JStr s | VDec d \<Rightarrow> JOther
     | VFloat r \<Rightarrow> JFloat (if r = ''nan'' then ''NaN'' else if r = ''inf'' then ''Infinity'' else if r = ''-inf'' then ''-Infinity'' else r))"
| "json_of_obj (PyList xs) = JList (map json_of_obj xs)"
| "json_of_obj (PyTuple xs) = JTuple (map json_of_obj xs)"
| "json_of_obj (PyDict kvs) = JDict (map (\<lambda>(key, v). (key, json_of_obj v)) kvs)"

text \<open>What \<open>json.loads\<close> yields; its result has no tuple and no other object.\<close>

fun obj_of_json :: "json \<Rightarrow> pyobj" where
  "obj_of_json JNull = PyNone"
| "obj_of_json (JBool b) = Scalar (VBool b)"
| "obj_of_json (JInt i) = Scalar (VInt i)"
| "obj_of_json (JFloat s) = Scalar (VFloat s)"
| "obj_of_json (JStr s) = PyStr s"
| "obj_of_json (JList xs) = PyList (map obj_of_json xs)"
| "obj_of_json (JTuple xs) = PyTuple (map obj_of_json xs)"
| "obj_of_json (JDict kvs) = PyDict (map (\<lambda>(key, v). (key, obj_of_json v)) kvs)"
| "obj_of_json JNonfinite = PyNone"
| "obj_of_json JOther = PyNone"

text \<open>\<open>json.loads(text)\<close> as a dictionary, empty when it fails or yields anything else; of equal keys the last counts.\<close>

definition load_json_dict :: "string option \<Rightarrow> (string \<times> pyobj) list" where
  "load_json_dict value = (case value of
       None \<Rightarrow> []
     | Some s \<Rightarrow> if s = [] then [] else (case json_loads s of
           None \<Rightarrow> []
         | Some v \<Rightarrow> (case obj_of_json v of PyDict kvs \<Rightarrow> rev kvs | _ \<Rightarrow> [])))"

end
