(* ===== verification/Mgmt_Contract.thy ===== *)
theory Mgmt_Contract
  imports Json_Object
begin

text \<open>
  The contract of a management instruction (\<open>strategy_management_contracts.py\<close>): what the constructor
  checks and rewrites, the canonical text, and the reader of that text. The fields of the record hold
  what the caller passed, of whatever type: the dataclass does not check its annotations.
\<close>

section \<open>Membership and iteration\<close>

fun hashable :: "pyobj \<Rightarrow> bool" where
  "hashable (Scalar v) = True"
| "hashable (PyList xs) = False"
| "hashable (PyTuple xs) = list_all hashable xs"
| "hashable (PyDict kvs) = False"

text \<open>\<open>x in {..}\<close> over a set of strings and \<open>None\<close>.\<close>

definition in_str_set :: "pyobj \<Rightarrow> pyobj list \<Rightarrow> bool result" where
  "in_str_set x members = (if hashable x then Inr (x \<in> set members) else Inl (TypeError ''unhashable type''))"

text \<open>\<open>x == k\<close>, and the elements an iteration yields.\<close>

definition equals_int :: "pyobj \<Rightarrow> int \<Rightarrow> bool" where
  "equals_int x k = (case x of
       Scalar (VInt i) \<Rightarrow> i = k
     | Scalar (VBool b) \<Rightarrow> (if b then 1 else 0) = k
     | Scalar (VFloat r) \<Rightarrow> finite_decimal (VFloat r) = Some (of_int k)
     | Scalar (VDec d) \<Rightarrow> d = DFin (of_int k)
     | _ \<Rightarrow> False)"

definition iterate :: "pyobj \<Rightarrow> pyobj list result" where
  "iterate x = (case x of
       Scalar (VStr s) \<Rightarrow> Inr (map (\<lambda>c. PyStr [c]) s)
     | Scalar v \<Rightarrow> Inl (TypeError ''object is not iterable'')
     | PyList xs \<Rightarrow> Inr xs | PyTuple xs \<Rightarrow> Inr xs | PyDict kvs \<Rightarrow> Inr (map (\<lambda>(key, v). PyStr key) kvs))"

section \<open>The contract\<close>

definition composite_management_contract_version :: int where
  "composite_management_contract_version = 2"

definition allowed_components :: "string list" where
  "allowed_components =
     [''cancel_deferred_entries'', ''consume_take_profit_stage'', ''converge_partial_close'', ''replace_remaining_protection'']"

record management_contract =
  mc_version :: pyobj
  mc_target_lifecycle_id :: pyobj
  mc_strategy_instance_id :: pyobj
  mc_symbol :: pyobj
  mc_side :: pyobj
  mc_close_fraction :: pyobj
  mc_stop_mode :: pyobj
  mc_stop_price :: pyobj
  mc_stop_price_source :: pyobj
  mc_take_profit_consumption :: pyobj
  mc_cancel_deferred_entries :: pyobj
  mc_required_components :: pyobj
  mc_current_message_text :: pyobj

definition value_error :: "string \<Rightarrow> 'a result" where
  "value_error reason = Inl (ValueError reason)"

definition canonical_decimal :: "pyobj \<Rightarrow> string \<Rightarrow> rat result" where
  "canonical_decimal x field_name =
     (case (case x of Scalar v \<Rightarrow> finite_decimal v | _ \<Rightarrow> None) of
        None \<Rightarrow> value_error (field_name @ '' must be a finite decimal'')
      | Some d \<Rightarrow> Inr (dround d))"

text \<open>The components as the constructor keeps them.\<close>

definition contract_components :: "pyobj \<Rightarrow> string list result" where
  "contract_components x = rbind (iterate x) (\<lambda>xs.
     let components = map (\<lambda>value. py_strip (obj_str value)) xs;
         unknown = filter (\<lambda>c. c \<notin> set allowed_components) components
     in if [] \<in> set components then value_error ''required_components cannot contain empty values''
        else if \<not> distinct components then value_error ''duplicate required_components are forbidden''
        else if unknown \<noteq> [] then value_error (''unknown required_components: '' @ join_items (sort unknown))
        else Inr components)"

text \<open>The number is positive and, as a fraction, at most one; its text replaces what was passed.\<close>

definition contract_fraction :: "pyobj \<Rightarrow> pyobj result" where
  "contract_fraction x =
     (if x = PyNone then Inr PyNone
      else rbind (canonical_decimal x ''close_fraction'') (\<lambda>d.
        if d \<le> 0 \<or> 1 < d then value_error ''close_fraction must be in (0, 1]'' else Inr (PyStr (decimal_text d))))"

definition contract_stop_price :: "pyobj \<Rightarrow> pyobj result" where
  "contract_stop_price x =
     (if x = PyNone then Inr PyNone
      else rbind (canonical_decimal x ''stop_price'') (\<lambda>d.
        if d \<le> 0 then value_error ''stop_price must be positive'' else Inr (PyStr (decimal_text d))))"

definition contract_provenance :: "management_contract \<Rightarrow> pyobj \<Rightarrow> unit result" where
  "contract_provenance raw stop_price =
     (if mc_stop_mode raw = PyStr ''explicit_price''
      then if stop_price = PyNone then value_error ''explicit_price requires stop_price''
        else if mc_stop_price_source raw \<noteq> PyStr ''current_message_text'' \<or> py_strip (obj_str_or_empty (mc_current_message_text raw)) = []
        then value_error ''explicit stop requires current_message_text provenance''
        else Inr ()
      else if stop_price \<noteq> PyNone then value_error ''stop_price is only valid for explicit_price''
      else Inr ())"

text \<open>\<open>ManagementInstructionContract(..)\<close>, \<open>__post_init__\<close> included.\<close>

definition management_instruction_contract :: "management_contract \<Rightarrow> management_contract result" where
  "management_instruction_contract raw =
     (if \<not> equals_int (mc_version raw) composite_management_contract_version
      then value_error (''unsupported management contract version: '' @ obj_str (mc_version raw))
      else rbind (contract_components (mc_required_components raw)) (\<lambda>components.
        rbind (contract_fraction (mc_close_fraction raw)) (\<lambda>fraction.
        rbind (in_str_set (mc_stop_mode raw) [PyNone, PyStr ''explicit_price'', PyStr ''actual_entry_price'']) (\<lambda>known_mode.
        if \<not> known_mode then value_error (''unsupported stop_mode: '' @ obj_str (mc_stop_mode raw))
        else rbind (contract_stop_price (mc_stop_price raw)) (\<lambda>stop_price.
        rbind (contract_provenance raw stop_price) (\<lambda>_.
        rbind (in_str_set (mc_take_profit_consumption raw) [PyNone, PyStr ''consume_first_stage'']) (\<lambda>known_consumption.
        if \<not> known_consumption then value_error ''unsupported take_profit_consumption''
        else if (case mc_cancel_deferred_entries raw of Scalar (VBool b) \<Rightarrow> False | _ \<Rightarrow> True)
        then value_error ''cancel_deferred_entries must be boolean''
        else Inr (raw\<lparr>mc_required_components := PyTuple (map PyStr components), mc_close_fraction := fraction,
          mc_stop_price := stop_price\<rparr>))))))))"

section \<open>Text\<close>

definition contract_dict :: "management_contract \<Rightarrow> (string \<times> pyobj) list" where
  "contract_dict c =
     [(''version'', mc_version c), (''target_lifecycle_id'', mc_target_lifecycle_id c),
      (''strategy_instance_id'', mc_strategy_instance_id c), (''symbol'', mc_symbol c), (''side'', mc_side c),
      (''close_fraction'', mc_close_fraction c), (''stop_mode'', mc_stop_mode c), (''stop_price'', mc_stop_price c),
      (''stop_price_source'', mc_stop_price_source c), (''take_profit_consumption'', mc_take_profit_consumption c),
      (''cancel_deferred_entries'', mc_cancel_deferred_entries c), (''required_components'', mc_required_components c),
      (''current_message_text'', mc_current_message_text c)]"

definition contract_fields :: "string list" where
  "contract_fields =
     [''version'', ''target_lifecycle_id'', ''strategy_instance_id'', ''symbol'', ''side'', ''close_fraction'', ''stop_mode'',
      ''stop_price'', ''stop_price_source'', ''take_profit_consumption'', ''cancel_deferred_entries'', ''required_components'',
      ''current_message_text'']"

definition serialize_management_contract :: "management_contract \<Rightarrow> string result" where
  "serialize_management_contract c =
     (case json_dumps (json_of_obj (PyDict (contract_dict c))) of
        None \<Rightarrow> Inl (TypeError ''not JSON serializable'') | Some s \<Rightarrow> Inr s)"

definition management_contract_fingerprint :: "(string \<Rightarrow> string) \<Rightarrow> management_contract \<Rightarrow> string result" where
  "management_contract_fingerprint sha c = rbind (serialize_management_contract c) (\<lambda>s. Inr (sha s))"

text \<open>\<open>ManagementInstructionContract(**payload)\<close>: each field once, no other; of equal keys the last counts.\<close>

definition contract_of_payload :: "(string \<times> pyobj) list \<Rightarrow> management_contract result" where
  "contract_of_payload payload =
     (let field = dict_get (rev payload); components = field ''required_components'' in
      if set (map fst payload) \<noteq> set contract_fields then Inl (TypeError ''arguments'')
      else management_instruction_contract
        \<lparr>mc_version = field ''version'', mc_target_lifecycle_id = field ''target_lifecycle_id'',
         mc_strategy_instance_id = field ''strategy_instance_id'', mc_symbol = field ''symbol'', mc_side = field ''side'',
         mc_close_fraction = field ''close_fraction'', mc_stop_mode = field ''stop_mode'', mc_stop_price = field ''stop_price'',
         mc_stop_price_source = field ''stop_price_source'', mc_take_profit_consumption = field ''take_profit_consumption'',
         mc_cancel_deferred_entries = field ''cancel_deferred_entries'',
         mc_required_components = (case components of PyList xs \<Rightarrow> PyTuple xs | _ \<Rightarrow> components),
         mc_current_message_text = field ''current_message_text''\<rparr>)"

definition load_management_contract :: "string \<Rightarrow> management_contract result" where
  "load_management_contract value =
     (case json_loads value of
        None \<Rightarrow> value_error ''management contract must be valid JSON''
      | Some payload \<Rightarrow> (case obj_of_json payload of
            PyDict kvs \<Rightarrow> (case contract_of_payload kvs of
                Inl (TypeError _) \<Rightarrow> value_error ''management contract schema is invalid''
              | r \<Rightarrow> r)
          | _ \<Rightarrow> value_error ''management contract must be a JSON object''))"

section \<open>What a constructed contract holds\<close>

lemma in_str_set_Inr [simp]: "in_str_set x members = Inr b \<longleftrightarrow> hashable x \<and> b = (x \<in> set members)"
  by (auto simp: in_str_set_def)

lemma value_error_Inr [simp]: "value_error reason \<noteq> Inr x"
  by (simp add: value_error_def)

lemma contract_Inr:
  "management_instruction_contract raw = Inr c \<longleftrightarrow>
     (\<exists>components fraction stop_price b. equals_int (mc_version raw) composite_management_contract_version
        \<and> contract_components (mc_required_components raw) = Inr components
        \<and> contract_fraction (mc_close_fraction raw) = Inr fraction
        \<and> mc_stop_mode raw \<in> set [PyNone, PyStr ''explicit_price'', PyStr ''actual_entry_price'']
        \<and> contract_stop_price (mc_stop_price raw) = Inr stop_price \<and> contract_provenance raw stop_price = Inr ()
        \<and> mc_take_profit_consumption raw \<in> set [PyNone, PyStr ''consume_first_stage'']
        \<and> mc_cancel_deferred_entries raw = Scalar (VBool b)
        \<and> c = raw\<lparr>mc_required_components := PyTuple (map PyStr components), mc_close_fraction := fraction, mc_stop_price := stop_price\<rparr>)"
proof -
  have err: "(if P then value_error r else X) = Inr c \<longleftrightarrow> \<not> P \<and> X = Inr c" for P r and X :: "management_contract result"
    by simp
  have h: "hashable x" if "x \<in> set [PyNone, PyStr a]" for x a using that by auto
  have h': "hashable x" if "x \<in> set [PyNone, PyStr a, PyStr b]" for x a b using that by auto
  have unit_eq: "Ex P = P ()" for P :: "unit \<Rightarrow> bool" by (metis (full_types) old.unit.exhaust)
  have b: "(case x of Scalar (VBool b) \<Rightarrow> False | _ \<Rightarrow> True) \<longleftrightarrow> \<not> (\<exists>b. x = Scalar (VBool b))" for x
    by (auto split: pyobj.splits pyval.splits)
  show ?thesis
    unfolding management_instruction_contract_def
    by (simp only: rbind_Inr_iff err b in_str_set_Inr not_not sum.inject old.unit.exhaust unit_eq eq_commute [of _ c]) (insert h h', blast)
qed

lemma contract_components_Inr:
  "contract_components x = Inr components \<Longrightarrow> distinct components \<and> set components \<subseteq> set allowed_components
     \<and> (\<forall>c \<in> set components. py_strip c = c)"
  by (auto simp: contract_components_def rbind_Inr_iff Let_def filter_empty_conv split: if_splits)

lemma contract_components_again:
  assumes "contract_components x = Inr components"
  shows "contract_components (PyTuple (map PyStr components)) = Inr components"
proof -
  have "map (\<lambda>value. py_strip (obj_str value)) (map PyStr components) = components"
    using contract_components_Inr [OF assms] by (auto simp: obj_str_def intro: map_idI)
  moreover have "[] \<notin> set components" using contract_components_Inr [OF assms] by (auto simp: allowed_components_def)
  ultimately show ?thesis
    using contract_components_Inr [OF assms] unfolding contract_components_def iterate_def Let_def
    by (auto simp: filter_empty_conv)
qed

text \<open>A printed number prints again as itself.\<close>

lemma decimal_text_dround [simp]: "decimal_text (dround x) = decimal_text x"
  by (simp add: decimal_text_def)

lemma canonical_decimal_text [simp]: "canonical_decimal (PyStr (decimal_text x)) name = Inr (dround x)"
  by (simp add: canonical_decimal_def)

lemma canonical_decimal_fits: "canonical_decimal x name = Inr d \<Longrightarrow> dround d = d"
  by (auto simp: canonical_decimal_def split: option.splits)

lemma contract_fraction_Inr:
  "contract_fraction x = Inr y \<Longrightarrow> y = PyNone \<and> x = PyNone
     \<or> (\<exists>d. 0 < d \<and> d \<le> 1 \<and> dround d = d \<and> canonical_decimal x ''close_fraction'' = Inr d \<and> y = PyStr (decimal_text d))"
  by (auto simp: contract_fraction_def rbind_Inr_iff not_le not_less dest: canonical_decimal_fits split: if_splits)

lemma contract_stop_price_Inr:
  "contract_stop_price x = Inr y \<Longrightarrow> y = PyNone \<and> x = PyNone
     \<or> (\<exists>d. 0 < d \<and> dround d = d \<and> canonical_decimal x ''stop_price'' = Inr d \<and> y = PyStr (decimal_text d))"
  by (auto simp: contract_stop_price_def rbind_Inr_iff not_le dest: canonical_decimal_fits split: if_splits)

lemma contract_provenance_Inr:
  "contract_provenance raw stop_price = Inr () \<longleftrightarrow>
     (if mc_stop_mode raw = PyStr ''explicit_price''
      then stop_price \<noteq> PyNone \<and> mc_stop_price_source raw = PyStr ''current_message_text''
        \<and> py_strip (obj_str_or_empty (mc_current_message_text raw)) \<noteq> []
      else stop_price = PyNone)"
  by (auto simp: contract_provenance_def)

lemma contract_again:
  assumes "management_instruction_contract raw = Inr c"
  shows "management_instruction_contract c = Inr c"
proof -
  from assms obtain components fraction stop_price b where
    v: "equals_int (mc_version raw) composite_management_contract_version"
      "mc_stop_mode raw \<in> set [PyNone, PyStr ''explicit_price'', PyStr ''actual_entry_price'']"
      "mc_take_profit_consumption raw \<in> set [PyNone, PyStr ''consume_first_stage'']" "mc_cancel_deferred_entries raw = Scalar (VBool b)"
    and comp: "contract_components (mc_required_components raw) = Inr components"
    and f: "contract_fraction (mc_close_fraction raw) = Inr fraction"
    and s: "contract_stop_price (mc_stop_price raw) = Inr stop_price" and p: "contract_provenance raw stop_price = Inr ()"
    and c: "c = raw\<lparr>mc_required_components := PyTuple (map PyStr components), mc_close_fraction := fraction, mc_stop_price := stop_price\<rparr>"
    unfolding contract_Inr by blast
  have f': "contract_fraction fraction = Inr fraction"
    using contract_fraction_Inr [OF f] by (auto simp: contract_fraction_def)
  have s': "contract_stop_price stop_price = Inr stop_price"
    using contract_stop_price_Inr [OF s] by (auto simp: contract_stop_price_def)
  have p': "contract_provenance c stop_price = Inr ()" using p unfolding contract_provenance_Inr c by simp
  have fields: "mc_version c = mc_version raw" "mc_stop_mode c = mc_stop_mode raw" "mc_close_fraction c = fraction"
      "mc_stop_price c = stop_price" "mc_take_profit_consumption c = mc_take_profit_consumption raw"
      "mc_cancel_deferred_entries c = mc_cancel_deferred_entries raw" "mc_required_components c = PyTuple (map PyStr components)"
    by (simp_all add: c)
  have "c = c\<lparr>mc_required_components := PyTuple (map PyStr components), mc_close_fraction := fraction, mc_stop_price := stop_price\<rparr>"
    by (simp add: c)
  with v contract_components_again [OF comp] f' s' p' show ?thesis
    unfolding contract_Inr fields by blast
qed

text \<open>
  Claim C39: a contract the constructor accepts names known components, each once; its fraction is a
  number in (0, 1]; it has a stop price exactly when its stop mode is the explicit one, the price is
  positive, and the message it claims as origin has a text. Constructing it again changes nothing.
\<close>

theorem management_contract_sound:
  assumes "management_instruction_contract raw = Inr c"
  shows "(\<exists>components. mc_required_components c = PyTuple (map PyStr components) \<and> distinct components
        \<and> set components \<subseteq> set allowed_components)
    \<and> (mc_close_fraction c = PyNone \<or> (\<exists>x. 0 < x \<and> x \<le> 1 \<and> mc_close_fraction c = PyStr (decimal_text x)))
    \<and> (mc_stop_price c = PyNone \<longleftrightarrow> mc_stop_mode c \<noteq> PyStr ''explicit_price'')
    \<and> (mc_stop_price c = PyNone \<or> (\<exists>x. 0 < x \<and> mc_stop_price c = PyStr (decimal_text x)
          \<and> mc_stop_price_source c = PyStr ''current_message_text''
          \<and> py_strip (obj_str_or_empty (mc_current_message_text c)) \<noteq> []))
    \<and> management_instruction_contract c = Inr c"
proof -
  from assms obtain components fraction stop_price where
      comp: "contract_components (mc_required_components raw) = Inr components"
    and f: "contract_fraction (mc_close_fraction raw) = Inr fraction"
    and s: "contract_stop_price (mc_stop_price raw) = Inr stop_price" and p: "contract_provenance raw stop_price = Inr ()"
    and c: "c = raw\<lparr>mc_required_components := PyTuple (map PyStr components), mc_close_fraction := fraction, mc_stop_price := stop_price\<rparr>"
    unfolding contract_Inr by blast
  have fields: "mc_stop_mode c = mc_stop_mode raw" "mc_close_fraction c = fraction" "mc_stop_price c = stop_price"
      "mc_stop_price_source c = mc_stop_price_source raw" "mc_current_message_text c = mc_current_message_text raw"
      "mc_required_components c = PyTuple (map PyStr components)" by (simp_all add: c)
  show ?thesis
    using contract_components_Inr [OF comp] contract_fraction_Inr [OF f] contract_stop_price_Inr [OF s] p contract_again [OF assms]
    unfolding fields contract_provenance_Inr by (intro conjI) (auto split: if_splits)
qed

section \<open>The text and back\<close>

text \<open>A field of the annotated type: \<open>None\<close>, a truth value, an \<open>int\<close> or a string.\<close>

definition plain_scalar :: "pyobj \<Rightarrow> bool" where
  "plain_scalar x = (case x of Scalar VNone \<Rightarrow> True | Scalar (VBool b) \<Rightarrow> True | Scalar (VInt i) \<Rightarrow> True | Scalar (VStr s) \<Rightarrow> True | _ \<Rightarrow> False)"

lemma plain_scalar_json:
  "plain_scalar x \<Longrightarrow> readable (json_of_obj x) \<and> obj_of_json (canonical_value (json_of_obj x)) = x"
  by (auto simp: plain_scalar_def canonical_value_def readable_def split: pyobj.splits pyval.splits)

lemma tuple_json:
  "readable (json_of_obj (PyTuple (map PyStr ss)))"
  "obj_of_json (canonical_value (json_of_obj (PyTuple (map PyStr ss)))) = PyList (map PyStr ss)"
  by (auto simp: canonical_value_def comp_def readable_def [of "JStr s" for s])

text \<open>The items of a dictionary read back: the same keys, each once, with the values read back.\<close>

definition read_items :: "(string \<times> pyobj) list \<Rightarrow> (string \<times> pyobj) list" where
  "read_items kvs = map (\<lambda>(key, v). (key, obj_of_json v)) (case canonical_value (json_of_obj (PyDict kvs)) of JDict items \<Rightarrow> items | _ \<Rightarrow> [])"

lemma read_items_eq:
  "obj_of_json (canonical_value (json_of_obj (PyDict kvs))) = PyDict (read_items kvs)"
  "set (read_items kvs) = (\<lambda>(key, v). (key, obj_of_json (canonical_value (json_of_obj v)))) ` set kvs"
  "mset (map fst (read_items kvs)) = mset (map fst kvs)"
  by (simp_all add: read_items_def canonical_value_def comp_def case_prod_beta image_image image_mset.compositionality)

lemma dict_get_mem: "distinct (map fst kvs) \<Longrightarrow> (key, v) \<in> set kvs \<Longrightarrow> dict_get (rev kvs) key = v"
  by (simp add: dict_get_def rev_map [symmetric])

lemma dict_get_read_items:
  assumes "distinct (map fst kvs)" "(key, v) \<in> set kvs"
  shows "dict_get (rev (read_items kvs)) key = obj_of_json (canonical_value (json_of_obj v))"
proof (rule dict_get_mem)
  show "distinct (map fst (read_items kvs))"
    using mset_eq_imp_distinct_iff [OF read_items_eq(3) [of kvs]] assms(1) by simp
  show "(key, obj_of_json (canonical_value (json_of_obj v))) \<in> set (read_items kvs)"
    using assms(2) unfolding read_items_eq(2) by (force simp: image_iff)
qed

lemma contract_keys: "map fst (contract_dict c) = contract_fields" "distinct contract_fields"
  by (simp_all add: contract_dict_def contract_fields_def)

definition contract_typed :: "management_contract \<Rightarrow> bool" where
  "contract_typed c \<longleftrightarrow> list_all (\<lambda>(key, x). key = ''required_components'' \<or> plain_scalar x) (contract_dict c)"

text \<open>
  Claim C40: the canonical text of a contract whose fields have the annotated types loads as that
  contract.
\<close>

theorem management_contract_round_trip:
  assumes "management_instruction_contract raw = Inr c" "contract_typed c"
  shows "\<exists>s. serialize_management_contract c = Inr s \<and> load_management_contract s = Inr c"
proof -
  obtain components where comp: "mc_required_components c = PyTuple (map PyStr components)"
    using assms(1) unfolding contract_Inr by auto
  let ?json = "json_of_obj (PyDict (contract_dict c))"
  have plain: "plain_scalar x" if "(key, x) \<in> set (contract_dict c)" "key \<noteq> ''required_components''" for key x
    using assms(2) that by (auto simp: contract_typed_def list_all_iff)
  have rc: "x = PyTuple (map PyStr components)" if "(''required_components'', x) \<in> set (contract_dict c)" for x
    using that comp by (auto simp: contract_dict_def)
  have "readable (json_of_obj x)" if "(key, x) \<in> set (contract_dict c)" for key x
    using plain [OF that] rc [of x] that plain_scalar_json [of x] tuple_json(1) [of components]
    by (cases "key = ''required_components''") auto
  then have "readable ?json" by auto
  then obtain s where s: "json_dumps ?json = Some s" by (auto simp: json_dumps_def readable_def)
  have loads: "json_loads s = Some (canonical_value ?json)"
    using json_loads_dumps [OF s] \<open>readable ?json\<close> by (simp only: readable_def)
  let ?field = "dict_get (rev (read_items (contract_dict c)))"
  have d: "distinct (map fst (contract_dict c))" by (simp only: contract_keys)
  have get: "?field key = x" if "(key, x) \<in> set (contract_dict c)" "key \<noteq> ''required_components''" for key x
    using dict_get_read_items [OF d that(1)] plain_scalar_json [OF plain [OF that]] by simp
  have get_rc: "?field ''required_components'' = PyList (map PyStr components)"
    using dict_get_read_items [OF d, of "''required_components''" "PyTuple (map PyStr components)"] tuple_json(2) [of components] comp
    by (simp add: contract_dict_def)
  have keys: "set (map fst (read_items (contract_dict c))) = set contract_fields"
    using mset_eq_setD [OF read_items_eq(3) [of "contract_dict c"]] by (simp only: contract_keys)
  have fields: "?field ''version'' = mc_version c" "?field ''target_lifecycle_id'' = mc_target_lifecycle_id c"
      "?field ''strategy_instance_id'' = mc_strategy_instance_id c" "?field ''symbol'' = mc_symbol c" "?field ''side'' = mc_side c"
      "?field ''close_fraction'' = mc_close_fraction c" "?field ''stop_mode'' = mc_stop_mode c" "?field ''stop_price'' = mc_stop_price c"
      "?field ''stop_price_source'' = mc_stop_price_source c" "?field ''take_profit_consumption'' = mc_take_profit_consumption c"
      "?field ''cancel_deferred_entries'' = mc_cancel_deferred_entries c" "?field ''current_message_text'' = mc_current_message_text c"
    by (rule get; simp add: contract_dict_def)+
  have "contract_of_payload (read_items (contract_dict c)) = management_instruction_contract c"
    unfolding contract_of_payload_def Let_def keys fields get_rc
    by (simp only: simp_thms if_False pyobj.case comp [symmetric]) (cases c, simp)
  then have "load_management_contract s = Inr c"
    using contract_again [OF assms(1)] by (simp only: load_management_contract_def loads read_items_eq(1) option.case pyobj.case sum.case)
  then show ?thesis using s by (simp add: serialize_management_contract_def)
qed

text \<open>A contract with a fraction and an explicit stop, as recognition makes it.\<close>

definition example_contract :: management_contract where
  "example_contract = \<lparr>mc_version = Scalar (VInt 2), mc_target_lifecycle_id = Scalar (VInt 7), mc_strategy_instance_id = PyStr ''s1'',
     mc_symbol = PyStr ''BTC'', mc_side = PyStr ''long'', mc_close_fraction = PyStr ''0.50'', mc_stop_mode = PyStr ''explicit_price'',
     mc_stop_price = PyStr ''61000.0'', mc_stop_price_source = PyStr ''current_message_text'', mc_take_profit_consumption = PyNone,
     mc_cancel_deferred_entries = Scalar (VBool False),
     mc_required_components = PyList [PyStr '' converge_partial_close'', PyStr ''replace_remaining_protection''],
     mc_current_message_text = PyStr ''close half, stop 61000''\<rparr>"

lemma example_contract_accepted:
  "\<exists>c. management_instruction_contract example_contract = Inr c \<and> contract_typed c"
proof -
  have "case management_instruction_contract example_contract of Inl _ \<Rightarrow> False | Inr c \<Rightarrow> contract_typed c" by code_simp
  then show ?thesis by (auto split: sum.splits)
qed

theorem management_contract_sound_witness:
  "\<exists>c. management_instruction_contract example_contract = Inr c \<and> management_instruction_contract c = Inr c"
proof -
  from example_contract_accepted obtain c where c: "management_instruction_contract example_contract = Inr c" by blast
  with management_contract_sound [OF c] show ?thesis by blast
qed

theorem management_contract_round_trip_witness:
  "\<exists>c s. management_instruction_contract example_contract = Inr c \<and> serialize_management_contract c = Inr s
     \<and> load_management_contract s = Inr c"
proof -
  from example_contract_accepted obtain c where "management_instruction_contract example_contract = Inr c" "contract_typed c" by blast
  with management_contract_round_trip [OF this] show ?thesis by blast
qed

end
