(* ===== verification/Stop_Gate.thy ===== *)
theory Stop_Gate
  imports Mgmt_Contract Py_Datetime "HOL-Library.AList"
begin

text \<open>
  The gate every management stop passes (\<open>management_stop_price_gate.py\<close>): the judgement of one stop
  against the market, and the recheck of a frozen batch. The evidence is the dictionary the code
  builds, \<open>evidence[key] = value\<close> is \<open>AList.update\<close>. The age of a quote is the number of microseconds
  between two clocks over a million, which \<open>Decimal(str(age))\<close> gives for ages below thirty years.

  What the code reads elsewhere is an argument: the settings, the raw message's text and the binding of
  a batch (a session), the quote (the client) and the clock, one reading per judgement.
\<close>

definition implicit_stop_actions :: "string list" where
  "implicit_stop_actions = [''partial_then_break_even'', ''move_stop_to_break_even'', ''break_even_by_market'']"

type_synonym evidence = "(string \<times> pyobj) list"

record stop_gate_result =
  sg_reason_code :: "string option"
  sg_evidence :: evidence

record stop_settings =
  ss_max_management_stop_deviation_pct :: pyval
  ss_management_stop_quote_max_age_seconds :: pyval

definition gate_positive :: "pyobj \<Rightarrow> rat option" where
  "gate_positive x = (case x of Scalar v \<Rightarrow> positive_value v | _ \<Rightarrow> None)"

definition stop_action_conflicts :: "string \<Rightarrow> pyobj \<Rightarrow> pyobj \<Rightarrow> bool" where
  "stop_action_conflicts action stop_mode stop_price \<longleftrightarrow>
     action \<in> set implicit_stop_actions \<and> (stop_mode = PyStr ''explicit_price'' \<or> \<not> missing stop_price)"

definition optional_str :: "string option \<Rightarrow> pyobj" where
  "optional_str s = (case s of None \<Rightarrow> PyNone | Some t \<Rightarrow> PyStr t)"

definition gate_refuse :: "string \<Rightarrow> evidence \<Rightarrow> stop_gate_result" where
  "gate_refuse reason evidence = \<lparr>sg_reason_code = Some reason, sg_evidence = evidence\<rparr>"

definition gate_evidence ::
    "string \<Rightarrow> pyobj \<Rightarrow> pyobj \<Rightarrow> string option \<Rightarrow> pyobj list \<Rightarrow> stop_settings \<Rightarrow> py_datetime \<Rightarrow> evidence" where
  "gate_evidence action stop_mode stop_price side entry_prices settings now =
     [(''action'', PyStr action), (''stop_mode'', stop_mode), (''stop_price'', PyStr (obj_str stop_price)),
      (''side'', optional_str side), (''entry_prices'', PyList (map (\<lambda>p. PyStr (obj_str p)) entry_prices)),
      (''reference_price_source'', PyStr ''current_market_last''), (''reference_price'', PyNone),
      (''max_deviation_pct'', PyStr (py_str (ss_max_management_stop_deviation_pct settings))),
      (''checked_at'', PyStr (isoformat now))]"

text \<open>The age of the quote in seconds, minus one when its time cannot be used.\<close>

definition quote_age :: "py_datetime \<Rightarrow> evidence \<Rightarrow> rat" where
  "quote_age now quoted = (case from_isoformat (obj_str (dict_get quoted ''observed_at'')) of
       None \<Rightarrow> - 1
     | Some observed \<Rightarrow>
         if dt_offset observed = None then - 1
         else (case datetime_minus now observed of Inl _ \<Rightarrow> - 1 | Inr us \<Rightarrow> of_int us / 1000000))"

definition deviation_pct :: "rat \<Rightarrow> rat \<Rightarrow> rat" where
  "deviation_pct stop price = dmul (ddiv \<bar>dsub stop price\<bar> price) 100"

definition side_allows_stop :: "string option \<Rightarrow> rat \<Rightarrow> rat \<Rightarrow> bool" where
  "side_allows_stop side stop price \<longleftrightarrow>
     (side = Some ''long'' \<and> stop < price) \<or> (side = Some ''short'' \<and> price < stop)"

text \<open>The stop against the quote.\<close>

definition check_stop_quote ::
    "rat \<Rightarrow> rat \<Rightarrow> rat \<Rightarrow> string option \<Rightarrow> string \<Rightarrow> pyobj \<Rightarrow> py_datetime \<Rightarrow> evidence \<Rightarrow> stop_gate_result result" where
  "check_stop_quote stop limit age_limit side instrument_id quote now evidence =
     (let quoted = (case quote of PyDict kvs \<Rightarrow> kvs | _ \<Rightarrow> []);
          age = quote_age now quoted;
          unavailable = Inr (gate_refuse ''management_stop_reference_unavailable'' evidence)
      in case gate_positive (dict_get quoted ''price'') of
        None \<Rightarrow> unavailable
      | Some price \<Rightarrow>
          if dict_get quoted ''instrument_id'' \<noteq> PyStr instrument_id then unavailable
          else rbind (in_str_set (dict_get quoted ''price_field'') [PyStr ''last'', PyStr ''lastPx'']) (\<lambda>known.
            if \<not> known \<or> age < 0 \<or> age_limit < age then unavailable
            else let deviation = deviation_pct stop price;
                measured = AList.update ''deviation_pct'' (PyStr (plain_text deviation))
                  (AList.update ''price_field'' (dict_get quoted ''price_field'')
                  (AList.update ''quote_observed_at'' (dict_get quoted ''observed_at'')
                  (AList.update ''reference_price'' (PyStr (plain_text price)) evidence)))
              in Inr (if limit < deviation then gate_refuse ''management_stop_deviation_exceeded'' measured
                 else if \<not> side_allows_stop side stop price then gate_refuse ''management_stop_direction_invalid'' measured
                 else \<lparr>sg_reason_code = None, sg_evidence = measured\<rparr>)))"

definition validate_management_stop ::
    "string \<Rightarrow> pyobj \<Rightarrow> pyobj \<Rightarrow> pyobj \<Rightarrow> pyval \<Rightarrow> string option \<Rightarrow> pyobj list \<Rightarrow> string \<Rightarrow> pyobj \<Rightarrow> stop_settings \<Rightarrow> py_datetime
     \<Rightarrow> stop_gate_result result" where
  "validate_management_stop action stop_mode stop_price stop_price_source current_message_text side entry_prices
      instrument_id quote settings now =
     (let evidence = gate_evidence action stop_mode stop_price side entry_prices settings now in
      if stop_action_conflicts action stop_mode stop_price then Inr (gate_refuse ''management_stop_action_conflict'' evidence)
      else if stop_mode \<noteq> PyStr ''explicit_price''
      then Inr \<lparr>sg_reason_code = None,
        sg_evidence = AList.update ''reference_price_source''
          (if action \<in> set implicit_stop_actions then PyStr ''actual_entry_price'' else PyNone) evidence\<rparr>
      else if stop_price_source \<noteq> PyStr ''current_message_text'' \<or> py_strip (str_or_empty current_message_text) = []
      then Inr (gate_refuse ''management_stop_provenance_invalid'' evidence)
      else case gate_positive stop_price of
        None \<Rightarrow> Inr (gate_refuse ''management_stop_price_invalid'' evidence)
      | Some stop \<Rightarrow>
          (case (positive_value (ss_max_management_stop_deviation_pct settings),
                 positive_value (ss_management_stop_quote_max_age_seconds settings)) of
             (Some limit, Some age_limit) \<Rightarrow> check_stop_quote stop limit age_limit side instrument_id quote now evidence
           | _ \<Rightarrow> Inr (gate_refuse ''management_stop_configuration_invalid'' evidence)))"

section \<open>The recheck of a batch\<close>

record stop_leg =
  sl_planned_tpsl :: evidence
  sl_avg_entry_price :: pyobj

record stop_batch =
  sb_intent :: string
  sb_management_contract_json :: "string option"
  sb_legs :: "stop_leg list"

text \<open>What the batch's rows hold: the message's text, the side and symbol of the binding if there is one.\<close>

record stop_rows =
  sr_text :: pyval
  sr_binding :: "(pyval \<times> pyval) option"

type_synonym stop_target = "pyobj \<times> pyobj \<times> pyobj"

definition contract_target :: "string option \<Rightarrow> stop_target list result" where
  "contract_target management_contract_json =
     (let text = (case management_contract_json of None \<Rightarrow> ''{}'' | Some s \<Rightarrow> if s = [] then ''{}'' else s) in
      case json_loads text of
        None \<Rightarrow> Inl (ValueError ''json'')
      | Some payload \<Rightarrow>
          let contract = obj_of_json payload in
          if \<not> obj_truthy contract then Inr []
          else (case contract of
              PyDict kvs \<Rightarrow> let get = dict_get (rev kvs) in Inr [(get ''stop_mode'', get ''stop_price'', get ''stop_price_source'')]
            | _ \<Rightarrow> Inl (AttributeError ''get'')))"

definition leg_target :: "stop_leg \<Rightarrow> stop_target option" where
  "leg_target leg =
     (let stop = dict_get (sl_planned_tpsl leg) ''stop_loss_text'' in
      if missing stop then None
      else Some (PyStr ''explicit_price'', stop, dict_get (sl_planned_tpsl leg) ''stop_price_source''))"

text \<open>The judgements in order, each at its own reading of the clock; the first refusal ends them.\<close>

fun first_refusal :: "(stop_target \<Rightarrow> py_datetime \<Rightarrow> stop_gate_result result) \<Rightarrow> (nat \<Rightarrow> py_datetime) \<Rightarrow> nat \<Rightarrow> stop_target list
    \<Rightarrow> stop_gate_result option result" where
  "first_refusal judge clock n [] = Inr None"
| "first_refusal judge clock n (t # ts) = rbind (judge t (clock n)) (\<lambda>r.
     if sg_reason_code r \<noteq> None then Inr (Some r) else first_refusal judge clock (Suc n) ts)"

definition bound_side :: "stop_rows \<Rightarrow> string option" where
  "bound_side rows = map_option (\<lambda>(side, symbol). py_lower (py_str side)) (sr_binding rows)"

definition bound_instrument :: "stop_rows \<Rightarrow> string" where
  "bound_instrument rows =
     (case sr_binding rows of None \<Rightarrow> ''None'' | Some (side, symbol) \<Rightarrow> py_upper (py_str symbol)) @ ''-USDT-SWAP''"

definition judge_batch_stop ::
    "stop_batch \<Rightarrow> stop_rows \<Rightarrow> pyobj \<Rightarrow> stop_settings \<Rightarrow> stop_target \<Rightarrow> py_datetime \<Rightarrow> stop_gate_result result" where
  "judge_batch_stop batch rows quote settings target now =
     (case target of (mode, stop, source) \<Rightarrow>
        validate_management_stop (sb_intent batch) mode stop source (sr_text rows) (bound_side rows)
          (map sl_avg_entry_price (sb_legs batch)) (bound_instrument rows) quote settings now)"

definition conflict_result :: "stop_batch \<Rightarrow> stop_target \<Rightarrow> stop_gate_result" where
  "conflict_result batch target = (case target of (mode, stop, source) \<Rightarrow>
     gate_refuse ''management_stop_action_conflict''
       [(''action'', PyStr (sb_intent batch)), (''stop_mode'', mode), (''stop_price'', stop),
        (''reference_price_source'', PyStr ''not_used_semantic_conflict'')])"

definition validate_batch_stops ::
    "stop_batch \<Rightarrow> stop_rows \<Rightarrow> pyobj option \<Rightarrow> (string \<Rightarrow> pyobj) \<Rightarrow> stop_settings \<Rightarrow> (nat \<Rightarrow> py_datetime)
     \<Rightarrow> stop_gate_result option result" where
  "validate_batch_stops batch rows quote read_stop_quote settings clock =
     rbind (contract_target (sb_management_contract_json batch)) (\<lambda>contract_targets.
     let targets = contract_targets @ List.map_filter leg_target (sb_legs batch) in
     if targets = [] then Inr None
     else case find (\<lambda>(mode, stop, source). stop_action_conflicts (sb_intent batch) mode stop) targets of
       Some t \<Rightarrow> Inr (Some (conflict_result batch t))
     | None \<Rightarrow>
         if \<not> list_ex (\<lambda>(mode, stop, source). mode = PyStr ''explicit_price'') targets then Inr None
         else let used = (case quote of Some q \<Rightarrow> q | None \<Rightarrow> read_stop_quote (bound_instrument rows)) in
           first_refusal (judge_batch_stop batch rows used settings) clock 0 targets)"

section \<open>Properties\<close>

text \<open>What a usable quote is: its own instrument, a last price, and not too old.\<close>

definition quote_usable :: "pyobj \<Rightarrow> string \<Rightarrow> rat \<Rightarrow> py_datetime \<Rightarrow> rat \<Rightarrow> bool" where
  "quote_usable quote instrument_id age_limit now price \<longleftrightarrow>
     (\<exists>quoted. quote = PyDict quoted \<and> gate_positive (dict_get quoted ''price'') = Some price
        \<and> dict_get quoted ''instrument_id'' = PyStr instrument_id
        \<and> dict_get quoted ''price_field'' \<in> {PyStr ''last'', PyStr ''lastPx''}
        \<and> 0 \<le> quote_age now quoted \<and> quote_age now quoted \<le> age_limit)"

lemma gate_refuse_simps [simp]: "sg_reason_code (gate_refuse reason evidence) = Some reason"
  by (simp add: gate_refuse_def)

lemma check_stop_quote_passes:
  "(\<exists>r. check_stop_quote stop limit age_limit side instrument_id quote now evidence = Inr r \<and> sg_reason_code r = None)
     \<longleftrightarrow> (\<exists>price. quote_usable quote instrument_id age_limit now price \<and> deviation_pct stop price \<le> limit
          \<and> side_allows_stop side stop price)"
proof (cases "case quote of PyDict quoted \<Rightarrow> gate_positive (dict_get quoted ''price'') | _ \<Rightarrow> None")
  case None
  then show ?thesis
    by (auto simp: check_stop_quote_def quote_usable_def gate_positive_def dict_get_def positive_value_def
        finite_decimal_def py_decimal_def py_str_def parse_examples split: pyobj.splits)
next
  case (Some price)
  then obtain quoted where q: "quote = PyDict quoted" "gate_positive (dict_get quoted ''price'') = Some price"
    by (auto split: pyobj.splits)
  show ?thesis
  proof (cases "dict_get quoted ''instrument_id'' = PyStr instrument_id
      \<and> dict_get quoted ''price_field'' \<in> set [PyStr ''last'', PyStr ''lastPx'']
      \<and> 0 \<le> quote_age now quoted \<and> quote_age now quoted \<le> age_limit")
    case True
    then have k: "in_str_set (dict_get quoted ''price_field'') [PyStr ''last'', PyStr ''lastPx''] = Inr True" by auto
    define measured where "measured = AList.update ''deviation_pct'' (PyStr (plain_text (deviation_pct stop price)))
      (AList.update ''price_field'' (dict_get quoted ''price_field'') (AList.update ''quote_observed_at'' (dict_get quoted ''observed_at'')
      (AList.update ''reference_price'' (PyStr (plain_text price)) evidence)))"
    have "check_stop_quote stop limit age_limit side instrument_id quote now evidence
        = Inr (if limit < deviation_pct stop price then gate_refuse ''management_stop_deviation_exceeded'' measured
               else if \<not> side_allows_stop side stop price then gate_refuse ''management_stop_direction_invalid'' measured
               else \<lparr>sg_reason_code = None, sg_evidence = measured\<rparr>)"
      using True by (simp add: check_stop_quote_def Let_def q k not_less measured_def)
    moreover have "quote_usable quote instrument_id age_limit now p \<longleftrightarrow> p = price" for p
      using True q by (auto simp: quote_usable_def)
    ultimately show ?thesis by (auto simp: not_less)
  next
    case False
    then show ?thesis using q
      by (auto simp: check_stop_quote_def quote_usable_def Let_def rbind_Inr_iff split: if_splits)
  qed
qed

text \<open>What the gate asks of an explicit stop.\<close>

definition explicit_stop_ok ::
    "pyobj \<Rightarrow> pyobj \<Rightarrow> pyval \<Rightarrow> string option \<Rightarrow> string \<Rightarrow> pyobj \<Rightarrow> stop_settings \<Rightarrow> py_datetime \<Rightarrow> bool" where
  "explicit_stop_ok stop_price stop_price_source text side instrument_id quote settings now \<longleftrightarrow>
     stop_price_source = PyStr ''current_message_text'' \<and> py_strip (str_or_empty text) \<noteq> []
     \<and> (\<exists>stop limit age_limit price. gate_positive stop_price = Some stop
        \<and> positive_value (ss_max_management_stop_deviation_pct settings) = Some limit
        \<and> positive_value (ss_management_stop_quote_max_age_seconds settings) = Some age_limit
        \<and> quote_usable quote instrument_id age_limit now price \<and> deviation_pct stop price \<le> limit
        \<and> side_allows_stop side stop price)"

lemma gate_passes:
  "(\<exists>r. validate_management_stop action stop_mode stop_price stop_price_source text side entry_prices instrument_id quote settings now
       = Inr r \<and> sg_reason_code r = None)
     \<longleftrightarrow> \<not> stop_action_conflicts action stop_mode stop_price
       \<and> (stop_mode = PyStr ''explicit_price''
          \<longrightarrow> explicit_stop_ok stop_price stop_price_source text side instrument_id quote settings now)"
proof (cases "\<not> stop_action_conflicts action stop_mode stop_price \<and> stop_mode = PyStr ''explicit_price''
    \<and> stop_price_source = PyStr ''current_message_text'' \<and> py_strip (str_or_empty text) \<noteq> []")
  case True
  let ?limit = "positive_value (ss_max_management_stop_deviation_pct settings)"
  let ?age = "positive_value (ss_management_stop_quote_max_age_seconds settings)"
  show ?thesis
  proof (cases "gate_positive stop_price \<noteq> None \<and> ?limit \<noteq> None \<and> ?age \<noteq> None")
    case numbers: True
    then obtain stop limit age_limit where n: "gate_positive stop_price = Some stop" "?limit = Some limit" "?age = Some age_limit"
      by auto
    show ?thesis
      unfolding validate_management_stop_def explicit_stop_ok_def Let_def n option.case prod.case option.inject
      using True check_stop_quote_passes by simp
  next
    case False
    then have "\<not> explicit_stop_ok stop_price stop_price_source text side instrument_id quote settings now"
      unfolding explicit_stop_ok_def by auto
    moreover from False have "validate_management_stop action stop_mode stop_price stop_price_source text side entry_prices
        instrument_id quote settings now = Inr r \<Longrightarrow> sg_reason_code r \<noteq> None" for r
      unfolding validate_management_stop_def Let_def using True by (auto split: option.splits)
    ultimately show ?thesis using True by blast
  qed
next
  case False
  then show ?thesis
    unfolding validate_management_stop_def explicit_stop_ok_def Let_def
    by (cases "stop_action_conflicts action stop_mode stop_price"; cases "stop_mode = PyStr ''explicit_price''") auto
qed

text \<open>
  Claim C22: the gate lets a stop pass exactly when the action may carry it and, where it is an explicit
  price, the message is its origin, it is a positive number, the quote is a last price of the same
  instrument and not too old, the deviation is within the limit and the stop is on the side of the
  market that protects the position.
\<close>

theorem management_stop_gate_exact:
  "(\<exists>r. validate_management_stop action stop_mode stop_price stop_price_source text side entry_prices instrument_id quote settings now
       = Inr r \<and> sg_reason_code r = None)
     \<longleftrightarrow> \<not> (action \<in> set implicit_stop_actions \<and> (stop_mode = PyStr ''explicit_price'' \<or> \<not> missing stop_price))
       \<and> (stop_mode = PyStr ''explicit_price''
          \<longrightarrow> explicit_stop_ok stop_price stop_price_source text side instrument_id quote settings now)"
  using gate_passes unfolding stop_action_conflicts_def .

lemma first_refusal_None:
  "first_refusal judge clock n ts = Inr None \<Longrightarrow> i < length ts
     \<Longrightarrow> \<exists>r. judge (ts ! i) (clock (n + i)) = Inr r \<and> sg_reason_code r = None"
proof (induction ts arbitrary: n i)
  case (Cons t ts)
  then obtain r where r: "judge t (clock n) = Inr r" "sg_reason_code r = None" "first_refusal judge clock (Suc n) ts = Inr None"
    by (auto simp: rbind_Inr_iff split: if_splits)
  show ?case
  proof (cases i)
    case (Suc j)
    with Cons.IH [OF r(3), of j] Cons.prems show ?thesis by simp
  qed (use r in simp)
qed simp

text \<open>
  When the recheck of a batch finds nothing to refuse, the contract was read, and of all the
  stops it and the legs name none conflicts with the action and every explicit one satisfied the gate
  against the binding's own instrument and side, at the reading of the clock of its turn.
\<close>

theorem batch_stops_sound:
  assumes "validate_batch_stops batch rows quote read_stop_quote settings clock = Inr None"
  shows "\<exists>contract_targets. contract_target (sb_management_contract_json batch) = Inr contract_targets
    \<and> (let targets = contract_targets @ List.map_filter leg_target (sb_legs batch) in
        \<forall>i < length targets. case targets ! i of (mode, stop, source) \<Rightarrow>
          \<not> stop_action_conflicts (sb_intent batch) mode stop
          \<and> (mode = PyStr ''explicit_price'' \<longrightarrow> explicit_stop_ok stop source (sr_text rows) (bound_side rows) (bound_instrument rows)
              (case quote of Some q \<Rightarrow> q | None \<Rightarrow> read_stop_quote (bound_instrument rows)) settings (clock i)))"
proof -
  from assms obtain ct where ct: "contract_target (sb_management_contract_json batch) = Inr ct"
    unfolding validate_batch_stops_def rbind_Inr_iff by blast
  define ts where "ts = ct @ List.map_filter leg_target (sb_legs batch)"
  define q where "q = (case quote of Some q \<Rightarrow> q | None \<Rightarrow> read_stop_quote (bound_instrument rows))"
  have v: "(if ts = [] then Inr None
     else case find (\<lambda>(mode, stop, source). stop_action_conflicts (sb_intent batch) mode stop) ts of
       Some t \<Rightarrow> Inr (Some (conflict_result batch t))
     | None \<Rightarrow> if \<not> list_ex (\<lambda>(mode, stop, source). mode = PyStr ''explicit_price'') ts then Inr None
         else first_refusal (judge_batch_stop batch rows q settings) clock 0 ts) = Inr None"
    using assms unfolding validate_batch_stops_def Let_def ct sum.case ts_def q_def .
  have "case ts ! i of (mode, stop, source) \<Rightarrow> \<not> stop_action_conflicts (sb_intent batch) mode stop
          \<and> (mode = PyStr ''explicit_price'' \<longrightarrow>
              explicit_stop_ok stop source (sr_text rows) (bound_side rows) (bound_instrument rows) q settings (clock i))"
    if i: "i < length ts" for i
  proof -
    obtain mode stop source where t: "ts ! i = (mode, stop, source)" by (cases "ts ! i")
    have mem: "(mode, stop, source) \<in> set ts" using i t by (metis nth_mem)
    then have ne: "ts \<noteq> []" by auto
    have none: "find (\<lambda>(mode, stop, source). stop_action_conflicts (sb_intent batch) mode stop) ts = None"
      using v ne by (auto split: option.splits)
    then have nc: "\<not> stop_action_conflicts (sb_intent batch) mode stop"
      using mem by (auto simp: find_None_iff)
    have "explicit_stop_ok stop source (sr_text rows) (bound_side rows) (bound_instrument rows) q settings (clock i)"
      if "mode = PyStr ''explicit_price''"
    proof -
      have "list_ex (\<lambda>(mode, stop, source). mode = PyStr ''explicit_price'') ts" using mem that by (auto simp: list_ex_iff)
      then have "first_refusal (judge_batch_stop batch rows q settings) clock 0 ts = Inr None"
        using v ne unfolding none by simp
      from first_refusal_None [OF this i] that show ?thesis
        unfolding t judge_batch_stop_def prod.case gate_passes by simp
    qed
    with nc show ?thesis by (simp add: t)
  qed
  with ct show ?thesis unfolding ts_def q_def Let_def by blast
qed

text \<open>A long position, a fresh quote and a stop two percent under it.\<close>

definition example_quote :: pyobj where
  "example_quote = PyDict [(''price'', PyStr ''62000''), (''instrument_id'', PyStr ''BTC-USDT-SWAP''),
     (''price_field'', PyStr ''last''), (''observed_at'', PyStr ''2026-09-01T12:00:00+00:00'')]"

definition example_now :: py_datetime where
  "example_now = the (from_isoformat ''2026-09-01T20:00:12.5+08:00'')"

definition example_settings :: stop_settings where
  "example_settings = \<lparr>ss_max_management_stop_deviation_pct = VFloat ''10.0'', ss_management_stop_quote_max_age_seconds = VFloat ''30.0''\<rparr>"

definition example_batch :: stop_batch where
  "example_batch = \<lparr>sb_intent = ''adjust_stop_loss'', sb_management_contract_json = None,
     sb_legs = [\<lparr>sl_planned_tpsl = [(''stop_loss_text'', PyStr ''60760''), (''stop_price_source'', PyStr ''current_message_text'')],
       sl_avg_entry_price = PyStr ''61000''\<rparr>]\<rparr>"

definition example_stop_rows :: stop_rows where
  "example_stop_rows = \<lparr>sr_text = VStr ''stop 60760'', sr_binding = Some (VStr ''LONG'', VStr ''btc'')\<rparr>"

theorem management_stop_gate_exact_witness:
  "explicit_stop_ok (PyStr ''60760'') (PyStr ''current_message_text'') (VStr ''stop 60760'') (Some ''long'') ''BTC-USDT-SWAP''
     example_quote example_settings example_now"
proof -
  let ?result = "validate_management_stop ''adjust_stop_loss'' (PyStr ''explicit_price'') (PyStr ''60760'') (PyStr ''current_message_text'')
     (VStr ''stop 60760'') (Some ''long'') [PyStr ''61000''] ''BTC-USDT-SWAP'' example_quote example_settings example_now"
  have "case ?result of Inl _ \<Rightarrow> False | Inr r \<Rightarrow> sg_reason_code r = None" by code_simp
  then have "\<exists>r. ?result = Inr r \<and> sg_reason_code r = None" by (auto split: sum.splits)
  then show ?thesis unfolding management_stop_gate_exact by simp
qed

theorem batch_stops_sound_witness:
  "validate_batch_stops example_batch example_stop_rows None (\<lambda>_. example_quote) example_settings (\<lambda>_. example_now) = Inr None
     \<and> explicit_stop_ok (PyStr ''60760'') (PyStr ''current_message_text'') (sr_text example_stop_rows) (bound_side example_stop_rows)
        (bound_instrument example_stop_rows) example_quote example_settings example_now"
proof -
  have v: "validate_batch_stops example_batch example_stop_rows None (\<lambda>_. example_quote) example_settings (\<lambda>_. example_now) = Inr None"
    by code_simp
  have c: "contract_target (sb_management_contract_json example_batch) = Inr []"
    "List.map_filter leg_target (sb_legs example_batch)
       = [(PyStr ''explicit_price'', PyStr ''60760'', PyStr ''current_message_text'')]" by code_simp+
  from batch_stops_sound [OF v] v show ?thesis unfolding c by (simp add: Let_def)
qed

end
