(* ===== verification/Price_Disposal.thy ===== *)
theory Price_Disposal
  imports Stop_Gate Break_Even
begin

text \<open>
  What becomes of a number a break-even message happens to carry (\<open>management_price_plausibility.py\<close>):
  the part the market decides, which always takes the number out of the instruction, and the part that
  waits for the strategy's own price and may make the number the new reference. \<open>sha\<close> is
  \<open>hashlib.sha256(..).hexdigest()\<close>; a \<open>Decimal\<close> prints as the shortest positional text of its value.
\<close>

definition implausible_price_ratio :: rat where "implausible_price_ratio = 10"

definition implausible_magnitude :: string where "implausible_magnitude = ''implausible_magnitude''"
definition not_a_possible_stop :: string where "not_a_possible_stop = ''not_a_possible_stop''"
definition explicit_tighter_adopted :: string where "explicit_tighter_adopted = ''explicit_tighter_adopted''"
definition superseded_by_strategy_price :: string where "superseded_by_strategy_price = ''superseded_by_strategy_price''"
definition ignored_quote_unavailable :: string where "ignored_quote_unavailable = ''ignored_quote_unavailable''"
definition contract_stop_price_field :: string where "contract_stop_price_field = ''contract_stop_price''"
definition stop_loss_text_field :: string where "stop_loss_text_field = ''stop_loss_text''"

lemmas disposal_names = implausible_magnitude_def not_a_possible_stop_def explicit_tighter_adopted_def
  superseded_by_strategy_price_def ignored_quote_unavailable_def

record disposed_price =
  dp_field :: string
  dp_value :: string
  dp_reference_price :: "string option"
  dp_ratio :: string
  dp_disposition :: string

record pending_explicit_price =
  pe_field :: string
  pe_value :: string
  pe_source :: "string option"

record sanitized_prices =
  sp_stop_loss_text :: "string option"
  sp_stop_price_source :: "string option"
  sp_management_contract_json :: "string option"
  sp_management_contract_fingerprint :: "string option"
  sp_findings :: "disposed_price list"
  sp_reference_price :: "string option"
  sp_pending :: "pending_explicit_price list"

definition prices_changed :: "sanitized_prices \<Rightarrow> bool" where
  "prices_changed s \<longleftrightarrow> sp_findings s \<noteq> [] \<or> sp_pending s \<noteq> []"

definition implausible_findings :: "sanitized_prices \<Rightarrow> disposed_price list" where
  "implausible_findings s = filter (\<lambda>f. dp_disposition f = implausible_magnitude) (sp_findings s)"

definition disposed_findings :: "sanitized_prices \<Rightarrow> disposed_price list" where
  "disposed_findings s = filter (\<lambda>f. dp_disposition f \<noteq> implausible_magnitude) (sp_findings s)"

section \<open>Judging one price\<close>

definition disposal_positive :: "pyobj \<Rightarrow> rat option" where
  "disposal_positive x = (case x of
       Scalar (VDec d) \<Rightarrow> positive_value (VDec d)
     | _ \<Rightarrow> positive_value (VStr (py_strip (filter (\<lambda>c. c \<noteq> CHR '','') (obj_str x)))))"

definition quote_reference_price :: "pyobj \<Rightarrow> rat option result" where
  "quote_reference_price quote = (case quote of
       PyDict kvs \<Rightarrow> rbind (in_str_set (dict_get kvs ''price_field'') [PyStr ''last'', PyStr ''lastPx'']) (\<lambda>known.
         Inr (if known then disposal_positive (dict_get kvs ''price'') else None))
     | _ \<Rightarrow> Inr None)"

definition price_ratio :: "rat \<Rightarrow> rat \<Rightarrow> rat" where
  "price_ratio price reference = (if reference \<le> price then ddiv price reference else ddiv reference price)"

definition price_is_implausible :: "pyobj \<Rightarrow> rat option \<Rightarrow> bool" where
  "price_is_implausible value reference = (case (disposal_positive value, reference) of
       (Some price, Some r) \<Rightarrow> 0 < r \<and> implausible_price_ratio < price_ratio price r
     | _ \<Rightarrow> False)"

definition price_could_be_a_stop :: "pyobj \<Rightarrow> rat option \<Rightarrow> pyval \<Rightarrow> bool" where
  "price_could_be_a_stop value market side = (case (disposal_positive value, market) of
       (Some price, Some m) \<Rightarrow> is_long_or_short (norm_side side) \<and> (if norm_side side = ''long'' then price < m else m < price)
     | _ \<Rightarrow> False)"

definition price_is_tighter :: "pyobj \<Rightarrow> pyobj \<Rightarrow> pyval \<Rightarrow> bool" where
  "price_is_tighter value target side = (case (disposal_positive value, disposal_positive target) of
       (Some price, Some r) \<Rightarrow> is_long_or_short (norm_side side) \<and> (if norm_side side = ''long'' then r < price else price < r)
     | _ \<Rightarrow> False)"

text \<open>\<open>str(ratio.quantize(Decimal("0.01")))\<close>: two places, at most 28 digits in all.\<close>

definition quantized_text :: "rat \<Rightarrow> string result" where
  "quantized_text x =
     (let n = half_even (x * 100) in
      if 10 ^ 28 \<le> n then Inl InvalidOperation else Inr (int_text (n div 100) @ ''.'' @ padded 2 (n mod 100)))"

definition ratio_text :: "pyobj \<Rightarrow> rat option \<Rightarrow> string result" where
  "ratio_text value reference = (case (disposal_positive value, reference) of
       (Some price, Some r) \<Rightarrow> quantized_text (price_ratio price r)
     | _ \<Rightarrow> Inr ''unknown'')"

definition market_disposition :: "pyobj \<Rightarrow> rat option \<Rightarrow> pyval \<Rightarrow> string option" where
  "market_disposition value reference side =
     (if reference = None then Some ignored_quote_unavailable
      else if price_is_implausible value reference then Some implausible_magnitude
      else if price_could_be_a_stop value reference side then None
      else if disposal_positive value = None \<or> \<not> is_long_or_short (norm_side side) then Some superseded_by_strategy_price
      else Some not_a_possible_stop)"

section \<open>The part the market decides\<close>

definition judge_price ::
    "rat option \<Rightarrow> pyval \<Rightarrow> string \<Rightarrow> pyobj \<Rightarrow> pyobj \<Rightarrow> disposed_price list \<times> pending_explicit_price list
     \<Rightarrow> (disposed_price list \<times> pending_explicit_price list) result" where
  "judge_price reference side field value source st =
     (case market_disposition value reference side of
        None \<Rightarrow> Inr (fst st, snd st @ [\<lparr>pe_field = field, pe_value = obj_str value,
          pe_source = (if source = PyNone then None else Some (obj_str source))\<rparr>])
      | Some disposition \<Rightarrow> rbind (ratio_text value reference) (\<lambda>ratio.
          Inr (fst st @ [\<lparr>dp_field = field, dp_value = obj_str value, dp_reference_price = map_option plain_text reference,
            dp_ratio = ratio, dp_disposition = disposition\<rparr>], snd st)))"

definition loaded_contract :: "string option \<Rightarrow> management_contract option result" where
  "loaded_contract management_contract_json = (case management_contract_json of
       None \<Rightarrow> Inr None
     | Some json \<Rightarrow> if json = [] then Inr None
         else (case load_management_contract json of
             Inl (ValueError _) \<Rightarrow> Inr None | Inl e \<Rightarrow> Inl e | Inr c \<Rightarrow> Inr (Some c)))"

definition names_explicit_price :: "management_contract \<Rightarrow> bool" where
  "names_explicit_price c \<longleftrightarrow> mc_stop_mode c = PyStr ''explicit_price'' \<and> \<not> missing (mc_stop_price c)"

definition neutral_contract :: "management_contract \<Rightarrow> management_contract" where
  "neutral_contract c = c\<lparr>mc_stop_mode := PyStr ''actual_entry_price'', mc_stop_price := PyNone, mc_stop_price_source := PyNone\<rparr>"

type_synonym judged = "disposed_price list \<times> pending_explicit_price list"

text \<open>The contract's price, if it names one: judged, and the contract written as if it had none.\<close>

definition sanitize_contract ::
    "(string \<Rightarrow> string) \<Rightarrow> rat option \<Rightarrow> pyval \<Rightarrow> management_contract option \<Rightarrow> string option \<Rightarrow> string option
     \<Rightarrow> (judged \<times> string option \<times> string option) result" where
  "sanitize_contract sha reference side contract management_contract_json fingerprint = (case contract of
       None \<Rightarrow> Inr (([], []), management_contract_json, fingerprint)
     | Some c \<Rightarrow>
         if \<not> names_explicit_price c then Inr (([], []), management_contract_json, fingerprint)
         else rbind (judge_price reference side contract_stop_price_field (mc_stop_price c) (mc_stop_price_source c) ([], [])) (\<lambda>st.
           rbind (management_instruction_contract (neutral_contract c)) (\<lambda>neutralized.
           rbind (serialize_management_contract neutralized) (\<lambda>json.
           rbind (management_contract_fingerprint sha neutralized) (\<lambda>fp. Inr (st, Some json, Some fp))))))"

text \<open>The text's price, and the text and source that are left.\<close>

definition sanitize_text ::
    "rat option \<Rightarrow> pyval \<Rightarrow> string option \<Rightarrow> string option \<Rightarrow> judged \<Rightarrow> (judged \<times> string option \<times> string option) result" where
  "sanitize_text reference side stop_loss_text stop_price_source st =
     (if stop_loss_text = None \<or> stop_loss_text = Some [] then Inr (st, stop_loss_text, stop_price_source)
      else rbind (judge_price reference side stop_loss_text_field (optional_str stop_loss_text) (optional_str stop_price_source) st)
        (\<lambda>st'. Inr (st', None, None)))"

definition sanitize_management_prices ::
    "(string \<Rightarrow> string) \<Rightarrow> string option \<Rightarrow> string option \<Rightarrow> string option \<Rightarrow> string option \<Rightarrow> pyobj \<Rightarrow> pyval
     \<Rightarrow> sanitized_prices result" where
  "sanitize_management_prices sha stop_loss_text stop_price_source management_contract_json fingerprint quote side =
     rbind (quote_reference_price quote) (\<lambda>reference.
     rbind (loaded_contract management_contract_json) (\<lambda>contract.
     rbind (sanitize_contract sha reference side contract management_contract_json fingerprint) (\<lambda>(st, json, fp).
     rbind (sanitize_text reference side stop_loss_text stop_price_source st) (\<lambda>((findings, pending), text, source).
     Inr (if findings = [] \<and> pending = []
        then \<lparr>sp_stop_loss_text = stop_loss_text, sp_stop_price_source = stop_price_source,
          sp_management_contract_json = management_contract_json, sp_management_contract_fingerprint = fingerprint,
          sp_findings = [], sp_reference_price = None, sp_pending = []\<rparr>
        else \<lparr>sp_stop_loss_text = text, sp_stop_price_source = source, sp_management_contract_json = json,
          sp_management_contract_fingerprint = fp, sp_findings = findings, sp_reference_price = map_option plain_text reference,
          sp_pending = pending\<rparr>)))))"

section \<open>The part the strategy's price decides\<close>

text \<open>The validator answers \<open>None\<close> for a price that may be placed, or the reason it may not.\<close>

type_synonym price_validator = "string \<Rightarrow> string option \<Rightarrow> string option result"

definition pending_refusal :: "price_validator option \<Rightarrow> pending_explicit_price \<Rightarrow> string option result" where
  "pending_refusal validator candidate = (case validator of
       None \<Rightarrow> Inr (Some ''management_stop_validator_unavailable'')
     | Some validate \<Rightarrow> validate (pe_value candidate) (pe_source candidate))"

text \<open>One candidate: its disposition, and the price adopted so far.\<close>

definition settle_candidate ::
    "price_validator option \<Rightarrow> pyval \<Rightarrow> string option \<Rightarrow> pending_explicit_price \<Rightarrow> rat option \<Rightarrow> (string \<times> rat option) result" where
  "settle_candidate validator side target candidate adopted =
     (if price_is_tighter (PyStr (pe_value candidate)) (optional_str target) side
      then rbind (pending_refusal validator candidate) (\<lambda>refusal.
        if refusal \<noteq> None then Inr (superseded_by_strategy_price, adopted)
        else Inr (explicit_tighter_adopted,
          (case disposal_positive (PyStr (pe_value candidate)) of
             None \<Rightarrow> adopted
           | Some price \<Rightarrow> (case adopted of
                 None \<Rightarrow> Some price
               | Some a \<Rightarrow> if price_is_tighter (PyDec price) (PyDec a) side then Some price else adopted))))
      else Inr (superseded_by_strategy_price, adopted))"

fun settle_candidates ::
    "price_validator option \<Rightarrow> pyval \<Rightarrow> string option \<Rightarrow> string option \<Rightarrow> pending_explicit_price list \<Rightarrow> rat option
     \<Rightarrow> (disposed_price list \<times> rat option) result" where
  "settle_candidates validator side target reference_price [] adopted = Inr ([], adopted)"
| "settle_candidates validator side target reference_price (candidate # rest) adopted =
     rbind (settle_candidate validator side target candidate adopted) (\<lambda>(disposition, adopted').
     rbind (ratio_text (PyStr (pe_value candidate)) (disposal_positive (optional_str reference_price))) (\<lambda>ratio.
     rbind (settle_candidates validator side target reference_price rest adopted') (\<lambda>(findings, final).
     Inr (\<lparr>dp_field = pe_field candidate, dp_value = pe_value candidate, dp_reference_price = reference_price,
       dp_ratio = ratio, dp_disposition = disposition\<rparr> # findings, final))))"

definition dispose_pending_break_even_prices ::
    "sanitized_prices option \<Rightarrow> pyval \<Rightarrow> break_even_reference \<Rightarrow> price_validator option
     \<Rightarrow> (sanitized_prices option \<times> break_even_reference) result" where
  "dispose_pending_break_even_prices sanitized side reference validator = (case sanitized of
       None \<Rightarrow> Inr (None, reference)
     | Some s \<Rightarrow>
         if sp_pending s = [] then Inr (sanitized, reference)
         else rbind (settle_candidates validator side (br_price reference) (sp_reference_price s) (sp_pending s) None)
           (\<lambda>(findings, adopted).
             Inr (Some (s\<lparr>sp_findings := sp_findings s @ findings, sp_pending := []\<rparr>),
               case adopted of None \<Rightarrow> reference | Some price \<Rightarrow> adopted_break_even_reference reference (VDec (DFin price)))))"

text \<open>
  The validator the planner passes: the gate, asked as for an explicit stop adjustment; \<open>clock\<close> is the
  time at which it is asked.
\<close>

definition validate_explicit_price ::
    "pyval \<Rightarrow> string \<Rightarrow> pyobj list \<Rightarrow> string \<Rightarrow> pyobj \<Rightarrow> stop_settings
     \<Rightarrow> (string \<Rightarrow> string option \<Rightarrow> py_datetime) \<Rightarrow> price_validator" where
  "validate_explicit_price message_text side entry_prices instrument_id quote settings clock value source =
     rbind (validate_management_stop ''adjust_stop_loss'' (PyStr ''explicit_price'') (PyStr value) (optional_str source)
         message_text (Some side) entry_prices instrument_id quote settings (clock value source)) (\<lambda>r. Inr (sg_reason_code r))"

end
