(* ===== verification/Disposal_Soundness.thy ===== *)
theory Disposal_Soundness
  imports Price_Disposal
begin

text \<open>
  The facts of Price_Disposal: nothing of a named price is left in an implicit-stop instruction, the
  market's half always answers, the strategy's half adopts the tightest price the gate lets pass.
\<close>

section \<open>The judged prices\<close>

definition judged_prices :: "judged \<Rightarrow> (string \<times> string) multiset" where
  "judged_prices st = mset (map (\<lambda>f. (dp_field f, dp_value f)) (fst st)) + mset (map (\<lambda>p. (pe_field p, pe_value p)) (snd st))"

lemma judged_prices_empty [simp]: "judged_prices ([], []) = {#}" "judged_prices st = {#} \<longleftrightarrow> st = ([], [])"
  by (cases st; auto simp: judged_prices_def)+

lemma judge_price_Inr:
  "judge_price reference side field value source st = Inr st' \<Longrightarrow> judged_prices st' = add_mset (field, obj_str value) (judged_prices st)"
  by (auto simp: judge_price_def judged_prices_def rbind_Inr_iff split: option.splits)

text \<open>The stop a constructed contract names, and the contract without it.\<close>

lemma decimal_text_not_Nil [simp]: "decimal_text x \<noteq> []" "[] \<noteq> decimal_text x"
proof -
  have "parse_decimal [] = None" by code_simp
  then show "decimal_text x \<noteq> []" "[] \<noteq> decimal_text x" using parse_decimal_text [of x] by auto
qed

lemma names_explicit_price_iff:
  assumes "management_instruction_contract raw = Inr c"
  shows "names_explicit_price c \<longleftrightarrow> mc_stop_mode c = PyStr ''explicit_price''"
    and "\<not> names_explicit_price c \<Longrightarrow> mc_stop_price c = PyNone"
proof -
  from assms obtain fraction stop_price components where
      s: "contract_stop_price (mc_stop_price raw) = Inr stop_price" and p: "contract_provenance raw stop_price = Inr ()"
    and c: "c = raw\<lparr>mc_required_components := PyTuple (map PyStr components), mc_close_fraction := fraction, mc_stop_price := stop_price\<rparr>"
    unfolding contract_Inr by blast
  have "mc_stop_mode c = mc_stop_mode raw" "mc_stop_price c = stop_price" by (simp_all add: c)
  with p contract_stop_price_Inr [OF s]
  show "names_explicit_price c \<longleftrightarrow> mc_stop_mode c = PyStr ''explicit_price''" "\<not> names_explicit_price c \<Longrightarrow> mc_stop_price c = PyNone"
    by (auto simp: names_explicit_price_def contract_provenance_Inr missing_def split: if_splits)
qed

lemma neutral_contract_accepted:
  assumes "management_instruction_contract raw = Inr c"
  shows "management_instruction_contract (neutral_contract c) = Inr (neutral_contract c)"
proof -
  from contract_again [OF assms] obtain components fraction stop_price b where
    v: "equals_int (mc_version c) composite_management_contract_version"
      "mc_take_profit_consumption c \<in> set [PyNone, PyStr ''consume_first_stage'']" "mc_cancel_deferred_entries c = Scalar (VBool b)"
      "contract_components (mc_required_components c) = Inr components" "contract_fraction (mc_close_fraction c) = Inr fraction"
    and c: "c = c\<lparr>mc_required_components := PyTuple (map PyStr components), mc_close_fraction := fraction, mc_stop_price := stop_price\<rparr>"
    unfolding contract_Inr by blast
  let ?n = "neutral_contract c"
  have fields: "mc_version ?n = mc_version c" "mc_take_profit_consumption ?n = mc_take_profit_consumption c"
      "mc_cancel_deferred_entries ?n = mc_cancel_deferred_entries c" "mc_required_components ?n = mc_required_components c"
      "mc_close_fraction ?n = mc_close_fraction c" "mc_stop_mode ?n = PyStr ''actual_entry_price''" "mc_stop_price ?n = PyNone"
    by (simp_all add: neutral_contract_def)
  have rc: "mc_required_components c = PyTuple (map PyStr components)" "mc_close_fraction c = fraction"
    using arg_cong [OF c, of mc_required_components] arg_cong [OF c, of mc_close_fraction] by simp_all
  have n: "?n = ?n\<lparr>mc_required_components := PyTuple (map PyStr components), mc_close_fraction := fraction, mc_stop_price := PyNone\<rparr>"
    by (cases c) (use rc in \<open>simp add: neutral_contract_def\<close>)
  have "contract_stop_price PyNone = Inr PyNone" by (simp add: contract_stop_price_def)
  moreover have "contract_provenance ?n PyNone = Inr ()" unfolding contract_provenance_Inr fields by simp
  moreover have "PyStr ''actual_entry_price'' \<in> set [PyNone, PyStr ''explicit_price'', PyStr ''actual_entry_price'']" by simp
  ultimately show ?thesis using v n unfolding contract_Inr fields by blast
qed

lemma neutral_contract_typed: "contract_typed c \<Longrightarrow> contract_typed (neutral_contract c)"
  by (simp add: contract_typed_def contract_dict_def neutral_contract_def plain_scalar_def)

lemma load_constructed: "load_management_contract s = Inr c \<Longrightarrow> \<exists>raw. management_instruction_contract raw = Inr c"
  by (auto simp: load_management_contract_def contract_of_payload_def Let_def value_error_def
      split: option.splits pyobj.splits sum.splits py_exc.splits if_splits)

lemma loaded_contract_constructed:
  "loaded_contract json = Inr (Some c) \<Longrightarrow> \<exists>raw. management_instruction_contract raw = Inr c"
  by (auto simp: loaded_contract_def dest!: load_constructed split: option.splits if_splits sum.splits py_exc.splits)

section \<open>The part the market decides\<close>

definition supplied_prices :: "management_contract option \<Rightarrow> string option \<Rightarrow> (string \<times> string) list" where
  "supplied_prices contract stop_loss_text =
     (case contract of None \<Rightarrow> [] | Some c \<Rightarrow>
        if names_explicit_price c then [(contract_stop_price_field, obj_str (mc_stop_price c))] else [])
     @ (case stop_loss_text of None \<Rightarrow> [] | Some t \<Rightarrow> if t = [] then [] else [(stop_loss_text_field, t)])"

definition priceless :: "management_contract \<Rightarrow> management_contract" where
  "priceless c = (if names_explicit_price c then neutral_contract c else c)"

lemma sanitize_contract_Inr:
  assumes "sanitize_contract sha reference side contract mcj fp0 = Inr (st, json, fp)"
    and loaded: "loaded_contract mcj = Inr contract" and typed: "\<And>c. contract = Some c \<Longrightarrow> contract_typed c"
  shows "judged_prices st = mset (supplied_prices contract None) \<and> loaded_contract json = Inr (map_option priceless contract)
    \<and> (supplied_prices contract None = [] \<longrightarrow> st = ([], []) \<and> json = mcj \<and> fp = fp0)"
proof (cases "\<exists>c. contract = Some c \<and> names_explicit_price c")
  case True
  then obtain c where c: "contract = Some c" "names_explicit_price c" by blast
  from loaded_contract_constructed obtain raw where raw: "management_instruction_contract raw = Inr c" using loaded c(1) by blast
  note n = neutral_contract_accepted [OF raw]
  from assms(1) c n obtain body where
      j: "judge_price reference side contract_stop_price_field (mc_stop_price c) (mc_stop_price_source c) ([], []) = Inr st"
    and t: "serialize_management_contract (neutral_contract c) = Inr body" "json = Some body"
    by (auto simp: sanitize_contract_def rbind_Inr_iff)
  from management_contract_round_trip [OF n neutral_contract_typed [OF typed [OF c(1)]]] t(1)
  have l: "load_management_contract body = Inr (neutral_contract c)" by auto
  have "load_management_contract [] = value_error ''management contract must be valid JSON''" by code_simp
  with l have "body \<noteq> []" by auto
  with l t(2) have "loaded_contract json = Inr (Some (neutral_contract c))" by (simp add: loaded_contract_def)
  with judge_price_Inr [OF j] c show ?thesis by (simp add: supplied_prices_def priceless_def)
next
  case False
  then show ?thesis using assms(1) loaded
    by (cases contract) (auto simp: sanitize_contract_def supplied_prices_def priceless_def)
qed

lemma sanitize_text_Inr:
  "sanitize_text reference side text source st = Inr (st', text', source') \<Longrightarrow>
     judged_prices st' = judged_prices st + mset (supplied_prices None text) \<and> text' \<in> {None, Some []}
     \<and> (supplied_prices None text = [] \<longrightarrow> st' = st \<and> text' = text \<and> source' = source)"
  by (cases "text") (auto simp: sanitize_text_def supplied_prices_def rbind_Inr_iff optional_str_def obj_str_def
      dest!: judge_price_Inr split: if_splits)

text \<open>
  Claim C26: what is left of an implicit-stop instruction names no price. Its stop text is empty, its
  contract is the stored one with the explicit stop, if it had one, replaced by the actual entry price,
  and for no action does the gate find a conflict in it; every price that was supplied is judged exactly
  once, as a finding or as pending.
\<close>

theorem sanitized_names_no_price:
  assumes "sanitize_management_prices sha stop_loss_text stop_price_source mcj fingerprint quote side = Inr s"
    and "\<forall>c. loaded_contract mcj = Inr (Some c) \<longrightarrow> contract_typed c"
  shows "\<exists>contract. loaded_contract mcj = Inr contract
    \<and> loaded_contract (sp_management_contract_json s) = Inr (map_option priceless contract)
    \<and> sp_stop_loss_text s \<in> {None, Some []}
    \<and> judged_prices (sp_findings s, sp_pending s) = mset (supplied_prices contract stop_loss_text)
    \<and> (\<forall>c action. contract = Some c \<longrightarrow> \<not> stop_action_conflicts action (mc_stop_mode (priceless c)) (mc_stop_price (priceless c)))"
proof -
  from assms(1) obtain reference contract st json fp findings pending body source where
      l: "loaded_contract mcj = Inr contract"
    and sc: "sanitize_contract sha reference side contract mcj fingerprint = Inr (st, json, fp)"
    and tx: "sanitize_text reference side stop_loss_text stop_price_source st = Inr ((findings, pending), body, source)"
    and s: "s = (if findings = [] \<and> pending = []
        then \<lparr>sp_stop_loss_text = stop_loss_text, sp_stop_price_source = stop_price_source,
          sp_management_contract_json = mcj, sp_management_contract_fingerprint = fingerprint,
          sp_findings = [], sp_reference_price = None, sp_pending = []\<rparr>
        else \<lparr>sp_stop_loss_text = body, sp_stop_price_source = source, sp_management_contract_json = json,
          sp_management_contract_fingerprint = fp, sp_findings = findings, sp_reference_price = map_option plain_text reference,
          sp_pending = pending\<rparr>)"
    unfolding sanitize_management_prices_def rbind_Inr_iff by (auto simp: rbind_Inr_iff)
  note C = sanitize_contract_Inr [OF sc l] and T = sanitize_text_Inr [OF tx]
  have typed: "contract = Some c \<Longrightarrow> contract_typed c" for c using assms(2) l by simp
  have split: "supplied_prices contract stop_loss_text = supplied_prices contract None @ supplied_prices None stop_loss_text"
    by (simp add: supplied_prices_def)
  have all: "judged_prices (findings, pending) = mset (supplied_prices contract stop_loss_text)"
    using C [OF typed] T by (simp add: split)
  have s': "sp_stop_loss_text s = body \<and> sp_management_contract_json s = json \<and> sp_findings s = findings \<and> sp_pending s = pending"
  proof (cases "findings = [] \<and> pending = []")
    case True
    then have "supplied_prices contract stop_loss_text = []" using all by simp
    then show ?thesis using C [OF typed] T True by (simp add: s split)
  next
    case False
    then show ?thesis unfolding s if_not_P [OF False] by simp
  qed
  have "\<not> stop_action_conflicts action (mc_stop_mode (priceless c)) (mc_stop_price (priceless c))" if c: "contract = Some c" for c action
  proof -
    from loaded_contract_constructed l c obtain raw where "management_instruction_contract raw = Inr c" by blast
    from names_explicit_price_iff [OF this] show ?thesis
      by (cases "names_explicit_price c") (simp_all add: priceless_def neutral_contract_def stop_action_conflicts_def missing_def)
  qed
  then show ?thesis using l C [OF typed] T all s' by (intro exI [of _ contract]) simp
qed

section \<open>An answer for every price\<close>

text \<open>Which errors a computation may end with.\<close>

definition raises_only :: "(py_exc \<Rightarrow> bool) \<Rightarrow> 'a result \<Rightarrow> bool" where
  "raises_only P r \<longleftrightarrow> (\<forall>e. r = Inl e \<longrightarrow> P e)"

lemma raises_only_intros:
  "raises_only P (Inr x)" "P e \<Longrightarrow> raises_only P (Inl e)"
  "(c \<Longrightarrow> raises_only P r) \<Longrightarrow> (\<not> c \<Longrightarrow> raises_only P r') \<Longrightarrow> raises_only P (if c then r else r')"
  "raises_only P m \<Longrightarrow> (\<And>x. raises_only P (f x)) \<Longrightarrow> raises_only P (rbind m f)"
  by (auto simp: raises_only_def rbind_Inl_iff)

definition construction_error :: "py_exc \<Rightarrow> bool" where
  "construction_error e \<longleftrightarrow> (\<exists>m. e = ValueError m) \<or> (\<exists>m. e = TypeError m)"

lemma construction_errors:
  "raises_only construction_error (value_error m)" "raises_only construction_error (iterate x)"
  "raises_only construction_error (in_str_set x ms)" "raises_only construction_error (canonical_decimal x n)"
  by (auto simp: raises_only_def construction_error_def value_error_def iterate_def in_str_set_def canonical_decimal_def
      split: pyobj.splits pyval.splits option.splits if_splits)

lemma contract_error: "raises_only construction_error (management_instruction_contract raw)"
  unfolding management_instruction_contract_def contract_components_def contract_fraction_def contract_stop_price_def
    contract_provenance_def Let_def
  by (intro raises_only_intros construction_errors)

lemma loaded_contract_total: "\<exists>contract. loaded_contract mcj = Inr contract"
proof -
  have "load_management_contract s = Inl e \<Longrightarrow> \<exists>m. e = ValueError m" for s e
    using contract_error
    by (auto simp: load_management_contract_def contract_of_payload_def Let_def value_error_def raises_only_def construction_error_def
        split: option.splits pyobj.splits sum.splits py_exc.splits if_splits)
  then show ?thesis
    by (cases mcj) (auto simp: loaded_contract_def split: sum.splits py_exc.splits)
qed

lemma ratio_text_total:
  assumes "\<And>p r. disposal_positive value = Some p \<Longrightarrow> reference = Some r \<Longrightarrow> price_ratio p r \<le> 10 ^ 25"
  shows "\<exists>t. ratio_text value reference = Inr t"
proof (cases "disposal_positive value"; cases reference)
  fix p r assume v: "disposal_positive value = Some p" "reference = Some r"
  from assms [OF v] have "price_ratio p r * 100 \<le> of_int (10 ^ 27)" by simp
  then have "half_even (price_ratio p r * 100) \<le> 10 ^ 27" by (rule half_even_le)
  then show ?thesis by (simp add: ratio_text_def v quantized_text_def Let_def)
qed (simp_all add: ratio_text_def)

lemma judge_price_total:
  assumes "\<And>p r. disposal_positive value = Some p \<Longrightarrow> reference = Some r \<Longrightarrow> price_ratio p r \<le> 10 ^ 25"
  shows "\<exists>st'. judge_price reference side field value source st = Inr st'"
proof -
  obtain t where "ratio_text value reference = Inr t" using ratio_text_total [of "value" reference] assms by blast
  then show ?thesis by (simp add: judge_price_def split: option.split)
qed

lemma mc_stop_price_str:
  assumes "management_instruction_contract raw = Inr c" "names_explicit_price c"
  shows "mc_stop_price c = PyStr (obj_str (mc_stop_price c))"
proof -
  from assms(1) obtain stop_price where s: "contract_stop_price (mc_stop_price raw) = Inr stop_price" and c: "mc_stop_price c = stop_price"
    unfolding contract_Inr by auto
  from contract_stop_price_Inr [OF s] show ?thesis
    using assms(2) unfolding names_explicit_price_def missing_def c by (auto simp: obj_str_def)
qed

text \<open>
  The market's half always answers. With a contract whose fields have the annotated types and
  no price more than 10^25 times away from the quote it raises nothing, whatever the quote, the side and
  the prices are; a contract that does not load is no error either.
\<close>

theorem sanitize_always_answers:
  assumes "quote_reference_price quote = Inr reference"
    and "\<forall>c. loaded_contract mcj = Inr (Some c) \<longrightarrow> contract_typed c"
    and "\<forall>contract field v p r. loaded_contract mcj = Inr contract \<and> (field, v) \<in> set (supplied_prices contract stop_loss_text)
      \<and> disposal_positive (PyStr v) = Some p \<and> reference = Some r \<longrightarrow> price_ratio p r \<le> 10 ^ 25"
  shows "\<exists>s. sanitize_management_prices sha stop_loss_text stop_price_source mcj fingerprint quote side = Inr s"
proof -
  obtain contract where l: "loaded_contract mcj = Inr contract" using loaded_contract_total by blast
  have "\<exists>st json fp. sanitize_contract sha reference side contract mcj fingerprint = Inr (st, json, fp)"
  proof (cases "\<exists>c. contract = Some c \<and> names_explicit_price c")
    case True
    then obtain c where c: "contract = Some c" "names_explicit_price c" by blast
    from loaded_contract_constructed l c(1) obtain raw where raw: "management_instruction_contract raw = Inr c" by blast
    note n = neutral_contract_accepted [OF raw]
    have "(contract_stop_price_field, obj_str (mc_stop_price c)) \<in> set (supplied_prices contract stop_loss_text)"
      by (simp add: supplied_prices_def c)
    then have bound: "price_ratio p r \<le> 10 ^ 25"
      if "disposal_positive (PyStr (obj_str (mc_stop_price c))) = Some p" "reference = Some r" for p r
      using assms(3) [rule_format, of contract contract_stop_price_field "obj_str (mc_stop_price c)" p r] l that by simp
    have "price_ratio p r \<le> 10 ^ 25" if "disposal_positive (mc_stop_price c) = Some p" "reference = Some r" for p r
      by (rule bound [OF _ that(2)]) (simp only: mc_stop_price_str [OF raw c(2), symmetric] that(1))
    from judge_price_total [OF this] obtain st where
      j: "judge_price reference side contract_stop_price_field (mc_stop_price c) (mc_stop_price_source c) ([], []) = Inr st" by blast
    from assms(2) l c(1) have "contract_typed c" by simp
    from management_contract_round_trip [OF n neutral_contract_typed [OF this]] obtain json where
      "serialize_management_contract (neutral_contract c) = Inr json" by blast
    then show ?thesis using j n c by (simp add: sanitize_contract_def management_contract_fingerprint_def)
  next
    case False
    then show ?thesis by (cases contract) (auto simp: sanitize_contract_def)
  qed
  then obtain st json fp where sc: "sanitize_contract sha reference side contract mcj fingerprint = Inr (st, json, fp)" by blast
  have "\<exists>x. sanitize_text reference side stop_loss_text stop_price_source st = Inr x"
  proof (cases "stop_loss_text = None \<or> stop_loss_text = Some []")
    case False
    then obtain t where t: "stop_loss_text = Some t" "t \<noteq> []" by auto
    have m: "(stop_loss_text_field, t) \<in> set (supplied_prices contract stop_loss_text)" using t by (simp add: supplied_prices_def)
    have "price_ratio p r \<le> 10 ^ 25" if "disposal_positive (PyStr t) = Some p" "reference = Some r" for p r
      by (rule assms(3) [rule_format, of contract stop_loss_text_field t]) (intro conjI l m that)
    from judge_price_total [OF this, where side = side and field = stop_loss_text_field and source = "optional_str stop_price_source" and st = st] obtain st' where
      "judge_price reference side stop_loss_text_field (PyStr t) (optional_str stop_price_source) st = Inr st'" by blast
    then show ?thesis using t by (simp add: sanitize_text_def optional_str_def)
  qed (auto simp: sanitize_text_def)
  then show ?thesis
    unfolding sanitize_management_prices_def assms(1) l sc sum.case prod.case rbind_Inr_iff
    by (auto simp: rbind_Inr_iff split: prod.split)
qed

text \<open>Beyond that a price ends in an exception: its ratio no longer fits two places in 28 digits.\<close>

lemma huge_price_raises:
  "sanitize_management_prices (\<lambda>s. s) (Some ''1e27'') None None None
     (PyDict [(''price'', PyStr ''1''), (''price_field'', PyStr ''last'')]) (VStr ''long'') = Inl InvalidOperation"
proof -
  let ?v = "PyStr ''1e27''"
  have q: "quote_reference_price (PyDict [(''price'', PyStr ''1''), (''price_field'', PyStr ''last'')]) = Inr (Some 1)" by code_simp
  have v: "disposal_positive ?v = Some (of_int (10 ^ 27))" by code_simp
  have "fits 28 (of_int (10 ^ 27))" by (rule fits_of_int) simp
  then have "ddiv (of_int (10 ^ 27)) 1 = of_int (10 ^ 27)" unfolding ddiv_def div_by_1 by (rule dround_fits)
  then have r: "price_ratio (of_int (10 ^ 27)) 1 = of_int (10 ^ 27)" by (simp add: price_ratio_def)
  have h: "half_even (of_int (10 ^ 27) * 100) = 10 ^ 29" using half_even_of_int [of "10 ^ 29"] by simp
  have t: "ratio_text ?v (Some 1) = Inl InvalidOperation"
    unfolding ratio_text_def v option.case prod.case r quantized_text_def h Let_def by simp
  have "implausible_price_ratio < of_int (10 ^ 27)" by (simp add: implausible_price_ratio_def)
  then have "market_disposition ?v (Some 1) (VStr ''long'') = Some implausible_magnitude"
    unfolding market_disposition_def price_is_implausible_def v option.case prod.case r by simp
  then show ?thesis
    unfolding sanitize_management_prices_def q loaded_contract_def sanitize_contract_def sanitize_text_def judge_price_def optional_str_def
    by (simp add: t)
qed

section \<open>The part the strategy's price decides\<close>

definition acceptable :: "price_validator \<Rightarrow> pyval \<Rightarrow> string option \<Rightarrow> pending_explicit_price \<Rightarrow> rat \<Rightarrow> bool" where
  "acceptable validate side target candidate price \<longleftrightarrow>
     price_is_tighter (PyStr (pe_value candidate)) (optional_str target) side
     \<and> validate (pe_value candidate) (pe_source candidate) = Inr None
     \<and> disposal_positive (PyStr (pe_value candidate)) = Some price"

lemma tighter_positive: "price_is_tighter value target side \<Longrightarrow> \<exists>price. disposal_positive value = Some price \<and> 0 < price"
  by (auto simp: price_is_tighter_def disposal_positive_def split: option.splits pyobj.splits pyval.splits dest: positive_value_pos)

text \<open>Between two decimals, tighter is an order towards the market.\<close>

lemma tighter_decimals:
  "0 < p \<Longrightarrow> 0 < q \<Longrightarrow> price_is_tighter (PyDec p) (PyDec q) side \<longleftrightarrow>
     (if norm_side side = ''long'' then q < p else norm_side side = ''short'' \<and> p < q)"
  by (auto simp: price_is_tighter_def disposal_positive_def)

text \<open>\<open>best\<close> is what the loop has adopted: one of the acceptable prices, none of them tighter.\<close>

definition best_price :: "pyval \<Rightarrow> rat set \<Rightarrow> rat option \<Rightarrow> bool" where
  "best_price side prices best = (case best of
       None \<Rightarrow> prices = {}
     | Some p \<Rightarrow> p \<in> prices \<and> (\<forall>q \<in> prices. \<not> price_is_tighter (PyDec q) (PyDec p) side))"

lemma best_price_insert:
  assumes "best_price side prices best" "\<forall>q \<in> prices. 0 < q" "0 < p"
  shows "best_price side (insert p prices)
     (case best of None \<Rightarrow> Some p | Some a \<Rightarrow> if price_is_tighter (PyDec p) (PyDec a) side then Some p else best)"
proof (cases best)
  case (Some a)
  with assms have a: "a \<in> prices" "0 < a" "\<forall>q \<in> prices. \<not> price_is_tighter (PyDec q) (PyDec a) side"
    by (auto simp: best_price_def)
  show ?thesis
  proof (cases "price_is_tighter (PyDec p) (PyDec a) side")
    case True
    have "\<not> price_is_tighter (PyDec q) (PyDec p) side" if "q \<in> insert p prices" for q
      using True a(2,3) assms(2,3) that tighter_decimals [of p a side] tighter_decimals [of q p side] tighter_decimals [of q a side]
      by (auto split: if_splits)
    with True Some show ?thesis by (simp add: best_price_def)
  next
    case False
    with Some a show ?thesis by (simp add: best_price_def)
  qed
qed (use assms in \<open>auto simp: best_price_def tighter_decimals\<close>)

lemma settle_candidate_Inr:
  assumes "settle_candidate (Some validate) side target candidate best = Inr (disposition, best')"
    "best_price side prices best" "\<forall>q \<in> prices. 0 < q"
  shows "best_price side (prices \<union> Collect (acceptable validate side target candidate)) best'
    \<and> (\<forall>q \<in> Collect (acceptable validate side target candidate). 0 < q)
    \<and> disposition = (if \<exists>p. acceptable validate side target candidate p then explicit_tighter_adopted else superseded_by_strategy_price)"
proof (cases "price_is_tighter (PyStr (pe_value candidate)) (optional_str target) side
    \<and> validate (pe_value candidate) (pe_source candidate) = Inr None")
  case True
  from tighter_positive True obtain p where p: "disposal_positive (PyStr (pe_value candidate)) = Some p" "0 < p" by blast
  with True have A: "Collect (acceptable validate side target candidate) = {p}" by (auto simp: acceptable_def)
  have "disposition = explicit_tighter_adopted \<and> best' =
     (case best of None \<Rightarrow> Some p | Some a \<Rightarrow> if price_is_tighter (PyDec p) (PyDec a) side then Some p else best)"
    using assms(1) True p by (simp add: settle_candidate_def pending_refusal_def)
  with best_price_insert [OF assms(2,3) p(2)] A p show ?thesis by auto
next
  case False
  then have none: "\<not> acceptable validate side target candidate p" for p by (auto simp: acceptable_def)
  then have A: "Collect (acceptable validate side target candidate) = {}" by simp
  have "disposition = superseded_by_strategy_price \<and> best' = best"
    using assms(1) False by (auto simp: settle_candidate_def pending_refusal_def rbind_Inr_iff split: if_splits)
  then show ?thesis using assms(2) unfolding A by (simp add: none)
qed

definition disposition_of :: "price_validator \<Rightarrow> pyval \<Rightarrow> string option \<Rightarrow> pending_explicit_price \<Rightarrow> string" where
  "disposition_of validate side target candidate =
     (if \<exists>p. acceptable validate side target candidate p then explicit_tighter_adopted else superseded_by_strategy_price)"

lemma settle_candidates_Inr:
  assumes "settle_candidates (Some validate) side target reference_price candidates best = Inr (findings, final)"
    "best_price side prices best" "\<forall>q \<in> prices. 0 < q"
  shows "map (\<lambda>f. (dp_field f, dp_value f, dp_disposition f)) findings
      = map (\<lambda>c. (pe_field c, pe_value c, disposition_of validate side target c)) candidates
    \<and> best_price side (prices \<union> {p. \<exists>c \<in> set candidates. acceptable validate side target c p}) final"
  using assms
proof (induction candidates arbitrary: best findings prices)
  case (Cons c cs)
  then obtain disposition best' ratio findings' where
      c: "settle_candidate (Some validate) side target c best = Inr (disposition, best')"
    and r: "settle_candidates (Some validate) side target reference_price cs best' = Inr (findings', final)"
    and f: "findings = \<lparr>dp_field = pe_field c, dp_value = pe_value c, dp_reference_price = reference_price,
       dp_ratio = ratio, dp_disposition = disposition\<rparr> # findings'"
    by (auto simp: rbind_Inr_iff)
  note C = settle_candidate_Inr [OF c Cons.prems(2,3)]
  from C Cons.prems(3) have "\<forall>q \<in> prices \<union> Collect (acceptable validate side target c). 0 < q" by blast
  from Cons.IH [OF r _ this] C have R: "map (\<lambda>f. (dp_field f, dp_value f, dp_disposition f)) findings'
      = map (\<lambda>c. (pe_field c, pe_value c, disposition_of validate side target c)) cs
    \<and> best_price side (prices \<union> Collect (acceptable validate side target c)
        \<union> {p. \<exists>c \<in> set cs. acceptable validate side target c p}) final" by blast
  have "prices \<union> {p. \<exists>c \<in> set (c # cs). acceptable validate side target c p}
      = prices \<union> Collect (acceptable validate side target c) \<union> {p. \<exists>c \<in> set cs. acceptable validate side target c p}" by auto
  with R C show ?case by (simp add: f disposition_of_def)
qed (auto simp: best_price_def)

lemma dispose_Inr:
  assumes "dispose_pending_break_even_prices (Some s) side reference (Some validate) = Inr (s', reference')" "sp_pending s \<noteq> []"
  obtains findings adopted where
    "map (\<lambda>f. (dp_field f, dp_value f, dp_disposition f)) findings
      = map (\<lambda>c. (pe_field c, pe_value c, disposition_of validate side (br_price reference) c)) (sp_pending s)"
    "best_price side {p. \<exists>c \<in> set (sp_pending s). acceptable validate side (br_price reference) c p} adopted"
    "s' = Some (s\<lparr>sp_findings := sp_findings s @ findings, sp_pending := []\<rparr>)"
    "reference' = (case adopted of None \<Rightarrow> reference | Some p \<Rightarrow> adopted_break_even_reference reference (VDec (DFin p)))"
proof -
  from assms obtain findings adopted where
      c: "settle_candidates (Some validate) side (br_price reference) (sp_reference_price s) (sp_pending s) None = Inr (findings, adopted)"
    and r: "s' = Some (s\<lparr>sp_findings := sp_findings s @ findings, sp_pending := []\<rparr>)"
      "reference' = (case adopted of None \<Rightarrow> reference | Some p \<Rightarrow> adopted_break_even_reference reference (VDec (DFin p)))"
    by (auto simp: dispose_pending_break_even_prices_def rbind_Inr_iff)
  from settle_candidates_Inr [OF c, of "{}"] r show ?thesis by (intro that [of findings adopted]) (simp_all add: best_price_def)
qed

text \<open>
  When the strategy's price is known every pending number is settled, each as adopted exactly
  when it is strictly tighter than the strategy's price and the validator lets it pass. The reference
  stays the strategy's when none is; otherwise it becomes the tightest of them and remembers the price
  it replaced.
\<close>

theorem pending_prices_settled:
  assumes "dispose_pending_break_even_prices (Some s) side reference (Some validate) = Inr (s', reference')" "sp_pending s \<noteq> []"
  shows "\<exists>t. s' = Some t \<and> sp_pending t = []
    \<and> map (\<lambda>f. (dp_field f, dp_value f, dp_disposition f)) (sp_findings t)
       = map (\<lambda>f. (dp_field f, dp_value f, dp_disposition f)) (sp_findings s)
         @ map (\<lambda>c. (pe_field c, pe_value c, disposition_of validate side (br_price reference) c)) (sp_pending s)
    \<and> (if \<exists>c \<in> set (sp_pending s). \<exists>p. acceptable validate side (br_price reference) c p
       then \<exists>c \<in> set (sp_pending s). \<exists>p. acceptable validate side (br_price reference) c p
          \<and> reference' = adopted_break_even_reference reference (VDec (DFin p))
          \<and> \<not> (\<exists>d \<in> set (sp_pending s). \<exists>q. acceptable validate side (br_price reference) d q \<and> price_is_tighter (PyDec q) (PyDec p) side)
       else reference' = reference)"
proof -
  let ?A = "{p. \<exists>c \<in> set (sp_pending s). acceptable validate side (br_price reference) c p}"
  obtain findings adopted where
      f: "map (\<lambda>f. (dp_field f, dp_value f, dp_disposition f)) findings
      = map (\<lambda>c. (pe_field c, pe_value c, disposition_of validate side (br_price reference) c)) (sp_pending s)"
    and b: "best_price side ?A adopted" and s': "s' = Some (s\<lparr>sp_findings := sp_findings s @ findings, sp_pending := []\<rparr>)"
    and r: "reference' = (case adopted of None \<Rightarrow> reference | Some p \<Rightarrow> adopted_break_even_reference reference (VDec (DFin p)))"
    by (rule dispose_Inr [OF assms])
  show ?thesis
  proof (cases adopted)
    case None
    with b f s' r show ?thesis by (auto simp: best_price_def)
  next
    case (Some p)
    with b have "p \<in> ?A" "\<forall>q \<in> ?A. \<not> price_is_tighter (PyDec q) (PyDec p) side" by (auto simp: best_price_def)
    with Some f s' r show ?thesis by auto
  qed
qed

text \<open>A number that was read can be written.\<close>

lemma terminating_scaled: "terminating (of_int c * 10 powi e)"
proof -
  have "\<bar>c\<bar> < 10 ^ nat \<bar>c\<bar>"
  proof -
    have "nat \<bar>c\<bar> < 10 ^ nat \<bar>c\<bar>" by (rule power_gt_expt) simp
    then show ?thesis by (simp add: nat_less_iff)
  qed
  then have "fits (nat \<bar>c\<bar>) (of_int c * 10 powi e)" unfolding fits_def by blast
  then show ?thesis by (rule terminating_fits)
qed

lemma parse_unsigned_scaled:
  assumes "parse_unsigned s = Some x"
  shows "\<exists>c e. x = of_int c * 10 powi e"
proof -
  have s1: "\<exists>c e. (of_nat n * 10 powi k :: rat) = of_int c * 10 powi e" for n k
    by (intro exI [of _ "int n"] exI [of _ k]) simp
  have s2: "\<exists>c e. (of_nat n :: rat) = of_int c * 10 powi e" for n using s1 [of n 0] by simp
  have s3: "\<exists>c e. (of_nat n * 10 powi k * 10 powi l :: rat) = of_int c * 10 powi e" for n k l
    by (intro exI [of _ "int n"] exI [of _ "k + l"]) (simp add: power_int_add)
  from assms show ?thesis
    by (auto simp: parse_unsigned_def Let_def intro: s1 s2 s3 split: prod.splits list.splits if_splits)
qed

lemma parse_decimal_terminating:
  assumes "parse_decimal s = Some (DFin x)"
  shows "terminating x"
proof -
  obtain neg body where m: "map_option (\<lambda>d. if neg then negate_dec d else d)
      (case parse_unsigned body of Some y \<Rightarrow> Some (DFin y) | None \<Rightarrow> parse_special body) = Some (DFin x)"
    using assms by (simp add: parse_decimal_def Let_def case_prod_unfold)
  have "parse_special body \<noteq> Some (DFin y)" for y by (simp add: parse_special_def Let_def)
  with m obtain y where y: "parse_unsigned body = Some y" "x = (if neg then - y else y)"
    by (cases "parse_unsigned body"; cases neg) (auto simp: negate_dec_def split: pydec.splits, metis pydec.exhaust)
  from parse_unsigned_scaled [OF y(1)] obtain c e where "y = of_int c * 10 powi e" by blast
  then have "x = of_int (if neg then - c else c) * 10 powi e" using y(2) by simp
  then show ?thesis using terminating_scaled by simp
qed

lemma disposal_positive_terminating: "disposal_positive (PyStr s) = Some x \<Longrightarrow> terminating x"
  by (auto simp: disposal_positive_def positive_value_finite finite_decimal_def py_decimal_def
      split: option.splits pydec.splits dest: parse_decimal_terminating)

lemma adopted_price:
  assumes "disposal_positive (PyStr s) = Some p"
  shows "br_price (adopted_break_even_reference r (VDec (DFin p))) = Some (decimal_text p)"
proof -
  have "0 < p" using assms by (auto simp: disposal_positive_def dest: positive_value_pos)
  moreover note t = disposal_positive_terminating [OF assms]
  have "py_str (VDec (DFin p)) = plain_text p" by (simp add: py_str_def)
  then have "finite_decimal (VStr (py_strip (py_str (VDec (DFin p))))) = Some p"
    by (simp add: finite_decimal_def py_decimal_def py_strip_plain_text [OF t] parse_plain_text [OF t])
  ultimately show ?thesis
    by (simp add: adopted_break_even_reference_def reference_positive_decimal_def positive_value_def)
qed

text \<open>
  Claim C10: with the planner's validator, a break-even reference changes only to a number the message
  named which the gate itself would let pass as an explicit stop at the time it is asked, and which
  protects strictly more than the strategy's own price; the new reference prints that number.
\<close>

theorem adopted_reference_is_gated:
  assumes "dispose_pending_break_even_prices (Some s) side reference
      (Some (validate_explicit_price message_text stop_side entry_prices instrument_id quote settings clock)) = Inr (s', reference')"
    and "reference' \<noteq> reference"
  shows "\<exists>c \<in> set (sp_pending s). \<exists>p. disposal_positive (PyStr (pe_value c)) = Some p
    \<and> br_price reference' = Some (decimal_text p) \<and> br_source reference' = message_explicit_tighter
    \<and> price_is_tighter (PyStr (pe_value c)) (optional_str (br_price reference)) side
    \<and> explicit_stop_ok (PyStr (pe_value c)) (optional_str (pe_source c)) message_text (Some stop_side) instrument_id quote settings
        (clock (pe_value c) (pe_source c))"
proof -
  let ?validate = "validate_explicit_price message_text stop_side entry_prices instrument_id quote settings clock"
  have "sp_pending s \<noteq> []" using assms by (auto simp: dispose_pending_break_even_prices_def)
  then obtain adopted where "best_price side {p. \<exists>c \<in> set (sp_pending s). acceptable ?validate side (br_price reference) c p} adopted"
    "reference' = (case adopted of None \<Rightarrow> reference | Some p \<Rightarrow> adopted_break_even_reference reference (VDec (DFin p)))"
    by (rule dispose_Inr [OF assms(1)])
  with assms(2) obtain c p where c: "c \<in> set (sp_pending s)" "acceptable ?validate side (br_price reference) c p"
    and r: "reference' = adopted_break_even_reference reference (VDec (DFin p))"
    by (cases adopted) (auto simp: best_price_def)
  from c(2) have p: "disposal_positive (PyStr (pe_value c)) = Some p"
      "price_is_tighter (PyStr (pe_value c)) (optional_str (br_price reference)) side"
    and v: "?validate (pe_value c) (pe_source c) = Inr None" by (auto simp: acceptable_def)
  from v have "\<exists>g. validate_management_stop ''adjust_stop_loss'' (PyStr ''explicit_price'') (PyStr (pe_value c)) (optional_str (pe_source c))
         message_text (Some stop_side) entry_prices instrument_id quote settings (clock (pe_value c) (pe_source c)) = Inr g
       \<and> sg_reason_code g = None"
    by (auto simp: validate_explicit_price_def rbind_Inr_iff)
  then have "explicit_stop_ok (PyStr (pe_value c)) (optional_str (pe_source c)) message_text (Some stop_side) instrument_id quote settings
        (clock (pe_value c) (pe_source c))" unfolding gate_passes by blast
  with c(1) p adopted_price [OF p(1)] show ?thesis by (auto simp: r adopted_break_even_reference_def)
qed

section \<open>Concrete runs\<close>

text \<open>A break-even message on the long position that also names a price.\<close>

definition example_market :: pyobj where
  "example_market = PyDict [(''price'', PyStr ''64000''), (''instrument_id'', PyStr ''BTC-USDT-SWAP''),
     (''price_field'', PyStr ''last''), (''observed_at'', PyStr ''2026-09-01T12:00:00+00:00'')]"

definition example_reference :: break_even_reference where
  "example_reference = \<lparr>br_price = Some ''61000'', br_source = strategy_single_price,
     br_evidence = \<lparr>ev_side = ''long'', ev_entry_range_low = Some ''61000'', ev_entry_range_high = Some ''61000'',
       ev_open_entry_leg_indexes = [1], ev_superseded = None\<rparr>\<rparr>"

definition example_validator :: price_validator where
  "example_validator = validate_explicit_price (VStr ''half off, protect 62500'') ''long'' [PyStr ''61000''] ''BTC-USDT-SWAP''
     example_market example_settings (\<lambda>_ _. example_now)"

definition example_sanitized :: sanitized_prices where
  "example_sanitized = \<lparr>sp_stop_loss_text = None, sp_stop_price_source = None, sp_management_contract_json = None,
     sp_management_contract_fingerprint = None, sp_findings = [], sp_reference_price = Some ''64000'',
     sp_pending = [\<lparr>pe_field = stop_loss_text_field, pe_value = ''62,500'', pe_source = Some ''current_message_text''\<rparr>]\<rparr>"

lemma example_sanitize:
  "sanitize_management_prices (\<lambda>s. s) (Some ''62,500'') (Some ''current_message_text'') None None example_market (VStr ''LONG'')
     = Inr example_sanitized"
  by code_simp

theorem sanitized_names_no_price_witness:
  "judged_prices (sp_findings example_sanitized, sp_pending example_sanitized) = {#(stop_loss_text_field, ''62,500'')#}"
proof -
  have "loaded_contract None = Inr None" by (simp add: loaded_contract_def)
  with sanitized_names_no_price [OF example_sanitize] show ?thesis by (simp add: supplied_prices_def)
qed

theorem sanitize_always_answers_witness:
  "\<exists>s. sanitize_management_prices (\<lambda>s. s) (Some ''62,500'') (Some ''current_message_text'') None None example_market (VStr ''LONG'') = Inr s"
proof (rule sanitize_always_answers)
  show "quote_reference_price example_market = Inr (Some 64000)" by code_simp
  have n: "loaded_contract None = Inr None" by (simp add: loaded_contract_def)
  show "\<forall>c. loaded_contract None = Inr (Some c) \<longrightarrow> contract_typed c" by (simp add: n)
  have v: "disposal_positive (PyStr ''62,500'') = Some 62500" by code_simp
  have "price_ratio 62500 64000 \<le> 10 ^ 25" by code_simp
  then show "\<forall>contract field v p r. loaded_contract None = Inr contract \<and> (field, v) \<in> set (supplied_prices contract (Some ''62,500''))
      \<and> disposal_positive (PyStr v) = Some p \<and> Some 64000 = Some r \<longrightarrow> price_ratio p r \<le> 10 ^ 25"
    by (simp add: n supplied_prices_def v)
qed

text \<open>The gate reads a plain decimal, so the comma of the text keeps it from being adopted.\<close>

lemma example_comma_superseded:
  "\<exists>t. dispose_pending_break_even_prices (Some example_sanitized) (VStr ''LONG'') example_reference (Some example_validator)
     = Inr (Some t, example_reference) \<and> map dp_disposition (sp_findings t) = [superseded_by_strategy_price]"
proof -
  have "case dispose_pending_break_even_prices (Some example_sanitized) (VStr ''LONG'') example_reference (Some example_validator) of
      Inr (Some t, r) \<Rightarrow> r = example_reference \<and> map dp_disposition (sp_findings t) = [superseded_by_strategy_price] | _ \<Rightarrow> False" by code_simp
  then show ?thesis by (auto split: sum.splits option.splits)
qed

definition example_plain :: sanitized_prices where
  "example_plain = example_sanitized\<lparr>sp_pending :=
     [\<lparr>pe_field = stop_loss_text_field, pe_value = ''62500'', pe_source = Some ''current_message_text''\<rparr>]\<rparr>"

lemma example_adopted:
  "\<exists>s' r'. dispose_pending_break_even_prices (Some example_plain) (VStr ''LONG'') example_reference (Some example_validator) = Inr (s', r')
     \<and> r' \<noteq> example_reference \<and> sp_pending example_plain \<noteq> []"
proof -
  have "case dispose_pending_break_even_prices (Some example_plain) (VStr ''LONG'') example_reference (Some example_validator) of
      Inr (s', r') \<Rightarrow> br_price r' = Some ''62500'' \<and> br_price example_reference = Some ''61000'' \<and> sp_pending example_plain \<noteq> []
    | _ \<Rightarrow> False" by code_simp
  then show ?thesis by (auto split: sum.splits)
qed

theorem pending_prices_settled_witness:
  "\<exists>t r. dispose_pending_break_even_prices (Some example_plain) (VStr ''LONG'') example_reference (Some example_validator) = Inr (Some t, r)
     \<and> sp_pending t = []"
proof -
  from example_adopted obtain s' r' where d:
    "dispose_pending_break_even_prices (Some example_plain) (VStr ''LONG'') example_reference (Some example_validator) = Inr (s', r')"
    "sp_pending example_plain \<noteq> []" by blast
  from pending_prices_settled [OF this] d(1) show ?thesis by blast
qed

theorem adopted_reference_is_gated_witness:
  "\<exists>s' r'. dispose_pending_break_even_prices (Some example_plain) (VStr ''LONG'') example_reference (Some example_validator) = Inr (s', r')
     \<and> br_source r' = message_explicit_tighter"
proof -
  from example_adopted obtain s' r' where d:
    "dispose_pending_break_even_prices (Some example_plain) (VStr ''LONG'') example_reference (Some example_validator) = Inr (s', r')"
    "r' \<noteq> example_reference" by blast
  from adopted_reference_is_gated [OF d(1) [unfolded example_validator_def] d(2)] d(1) show ?thesis by blast
qed

end
