(* ===== verification/Mutation_Intents.thy ===== *)
theory Mutation_Intents
  imports Json_Object Py_Datetime
begin

text \<open>
  The durable record of an exact position write (\<open>position_mutation_intents.py\<close> on the table
  \<open>position_mutation_intents\<close>). The table is the list of its rows, which are never deleted; a row's id
  is its place. A reservation is two transactions, the lookup and the insertion, so that another
  writer can come between them; the insertion fails on the two unique indexes of the table.
\<close>

definition position_mutation_intent_statuses :: "string list" where
  "position_mutation_intent_statuses =
     [''reserved'', ''submitting'', ''submitted'', ''confirmed'', ''rejected'', ''recovery_required'', ''blocked'',
      ''prewrite_refused'']"

record position_mutation_intent =
  it_idempotency_key :: string
  it_venue :: string
  it_operation :: string
  it_strategy_instance_id :: string
  it_execution_binding_id :: int
  it_execution_order_leg_id :: int
  it_pos_id :: string
  it_order_id :: "string option"
  it_authority_fingerprint :: string
  it_request_fingerprint :: string
  it_status :: string
  it_request_json :: string
  it_response_json :: "string option"
  it_error_json :: "string option"
  it_reserved_at :: py_datetime
  it_submitted_at :: "py_datetime option"
  it_confirmed_at :: "py_datetime option"
  it_updated_at :: py_datetime

type_synonym intent_table = "position_mutation_intent list"

text \<open>What a caller reserves.\<close>

record reservation =
  rv_idempotency_key :: string
  rv_operation :: string
  rv_strategy_instance_id :: string
  rv_execution_binding_id :: int
  rv_execution_order_leg_id :: int
  rv_pos_id :: string
  rv_order_id :: "string option"
  rv_authority_fingerprint :: string
  rv_request_fingerprint :: string
  rv_request :: "(string \<times> pyobj) list"
  rv_venue :: string

type_synonym intent_identity = "string \<times> string \<times> int \<times> int \<times> string \<times> string option \<times> string \<times> string"

definition intent_identity :: "position_mutation_intent \<Rightarrow> intent_identity" where
  "intent_identity r =
     (it_operation r, it_strategy_instance_id r, it_execution_binding_id r, it_execution_order_leg_id r, it_pos_id r,
      it_order_id r, it_authority_fingerprint r, it_request_fingerprint r)"

definition reservation_identity :: "reservation \<Rightarrow> intent_identity" where
  "reservation_identity v =
     (rv_operation v, rv_strategy_instance_id v, rv_execution_binding_id v, rv_execution_order_leg_id v, rv_pos_id v,
      rv_order_id v, rv_authority_fingerprint v, rv_request_fingerprint v)"

definition reserved_venue :: "reservation \<Rightarrow> string" where
  "reserved_venue v = py_lower (if rv_venue v = [] then ''deepcoin'' else rv_venue v)"

definition filled :: "string option \<Rightarrow> bool" where
  "filled s \<longleftrightarrow> s \<noteq> None \<and> s \<noteq> Some []"

fun find_place :: "('a \<Rightarrow> bool) \<Rightarrow> 'a list \<Rightarrow> nat option" where
  "find_place P [] = None"
| "find_place P (x # xs) = (if P x then Some 0 else map_option Suc (find_place P xs))"

definition same_key :: "reservation \<Rightarrow> position_mutation_intent \<Rightarrow> bool" where
  "same_key v r \<longleftrightarrow> it_idempotency_key r = rv_idempotency_key v"

definition same_write :: "reservation \<Rightarrow> position_mutation_intent \<Rightarrow> bool" where
  "same_write v r \<longleftrightarrow> it_venue r = reserved_venue v \<and> it_operation r = rv_operation v \<and> it_order_id r = rv_order_id v
     \<and> it_request_fingerprint r = rv_request_fingerprint v"

definition intent_conflict :: "'a result" where
  "intent_conflict = Inl (PositionMutationIntentError ''position_mutation_intent_conflict'')"

text \<open>The existing row must be the same write; a confirmed one may have learnt its order id since.\<close>

definition existing_identity :: "reservation \<Rightarrow> position_mutation_intent \<Rightarrow> intent_identity" where
  "existing_identity v r =
     (if it_status r = ''confirmed'' \<and> rv_order_id v = None \<and> filled (it_order_id r)
      then intent_identity (r\<lparr>it_order_id := None\<rparr>) else intent_identity r)"

definition reserve_lookup :: "reservation \<Rightarrow> intent_table \<Rightarrow> nat option result" where
  "reserve_lookup v t = (case find_place (same_key v) t of
       Some i \<Rightarrow> if existing_identity v (t ! i) \<noteq> reservation_identity v then intent_conflict else Inr (Some i)
     | None \<Rightarrow>
         if filled (rv_order_id v)
         then (case find_place (same_write v) t of
             Some i \<Rightarrow> if intent_identity (t ! i) \<noteq> reservation_identity v then intent_conflict else Inr (Some i)
           | None \<Rightarrow> Inr None)
         else Inr None)"

definition new_intent :: "reservation \<Rightarrow> string \<Rightarrow> py_datetime \<Rightarrow> position_mutation_intent" where
  "new_intent v request_json now =
     \<lparr>it_idempotency_key = rv_idempotency_key v, it_venue = reserved_venue v, it_operation = rv_operation v,
      it_strategy_instance_id = rv_strategy_instance_id v, it_execution_binding_id = rv_execution_binding_id v,
      it_execution_order_leg_id = rv_execution_order_leg_id v, it_pos_id = rv_pos_id v, it_order_id = rv_order_id v,
      it_authority_fingerprint = rv_authority_fingerprint v, it_request_fingerprint = rv_request_fingerprint v,
      it_status = ''reserved'', it_request_json = request_json, it_response_json = None, it_error_json = None,
      it_reserved_at = now, it_submitted_at = None, it_confirmed_at = None, it_updated_at = now\<rparr>"

text \<open>The unique indexes: the key; and venue, operation, order id and request where there is an order id.\<close>

definition violates_unique :: "reservation \<Rightarrow> intent_table \<Rightarrow> bool" where
  "violates_unique v t \<longleftrightarrow> list_ex (same_key v) t \<or> filled (rv_order_id v) \<and> list_ex (same_write v) t"

definition reserve_insert :: "reservation \<Rightarrow> py_datetime \<Rightarrow> intent_table \<Rightarrow> nat result \<times> intent_table" where
  "reserve_insert v now t = (case json_dumps (json_of_obj (PyDict (rv_request v))) of
       None \<Rightarrow> (Inl (TypeError ''not JSON serializable''), t)
     | Some request_json \<Rightarrow>
         if \<not> violates_unique v t then (Inr (length t), t @ [new_intent v request_json now])
         else (case find_place (\<lambda>r. same_key v r \<or> same_write v r) t of
             None \<Rightarrow> (Inl IntegrityError, t)
           | Some i \<Rightarrow> if intent_identity (t ! i) \<noteq> reservation_identity v then (intent_conflict, t) else (Inr i, t)))"

section \<open>Compare and set\<close>

definition transitioned_intent ::
    "string \<Rightarrow> py_datetime \<Rightarrow> string option \<Rightarrow> string option \<Rightarrow> position_mutation_intent \<Rightarrow> position_mutation_intent" where
  "transitioned_intent new_status now response_json error_json r = r\<lparr>
     it_status := new_status, it_updated_at := now,
     it_submitted_at := (if new_status = ''submitted'' then Some now else it_submitted_at r),
     it_confirmed_at := (if new_status = ''confirmed'' then Some now else it_confirmed_at r),
     it_response_json := (if response_json = None then it_response_json r else response_json),
     it_error_json := (if error_json = None then it_error_json r else error_json)\<rparr>"

definition dumps_field :: "(string \<times> pyobj) list option \<Rightarrow> string option result" where
  "dumps_field value = (case value of
       None \<Rightarrow> Inr None
     | Some kvs \<Rightarrow> (case json_dumps (json_of_obj (PyDict kvs)) of
           None \<Rightarrow> Inl (TypeError ''not JSON serializable'') | Some s \<Rightarrow> Inr (Some s)))"

definition transition_position_mutation_intent ::
    "nat \<Rightarrow> string list \<Rightarrow> string \<Rightarrow> py_datetime \<Rightarrow> (string \<times> pyobj) list option \<Rightarrow> (string \<times> pyobj) list option \<Rightarrow> intent_table
     \<Rightarrow> bool result \<times> intent_table" where
  "transition_position_mutation_intent i expected_statuses new_status now response error t =
     (if new_status \<notin> set position_mutation_intent_statuses
      then (Inl (PositionMutationIntentError ''position_mutation_status_invalid''), t)
      else (case (dumps_field response, dumps_field error) of
          (Inr response_json, Inr error_json) \<Rightarrow>
            if i < length t \<and> it_status (t ! i) \<in> set expected_statuses
            then (Inr True, t[i := transitioned_intent new_status now response_json error_json (t ! i)])
            else (Inr False, t)
        | (Inl e, _) \<Rightarrow> (Inl e, t)
        | (_, Inl e) \<Rightarrow> (Inl e, t)))"

section \<open>Facts\<close>

lemma find_place_Some: "find_place P xs = Some i \<Longrightarrow> i < length xs \<and> P (xs ! i)"
  by (induction xs arbitrary: i) (auto split: if_splits)

lemma find_place_None: "find_place P xs = None \<longleftrightarrow> (\<forall>x \<in> set xs. \<not> P x)"
  by (induction xs) auto

text \<open>The unique indexes, as an invariant of the table.\<close>

definition unique_intents :: "intent_table \<Rightarrow> bool" where
  "unique_intents t \<longleftrightarrow> distinct (map it_idempotency_key t)
     \<and> distinct (map (\<lambda>r. (it_venue r, it_operation r, it_order_id r, it_request_fingerprint r)) (filter (\<lambda>r. filled (it_order_id r)) t))"

lemma reserve_insert_cases:
  assumes "reserve_insert v now t = (r, t')"
  obtains (raised) e where "r = Inl e" "t' = t"
  | (found) i where "r = Inr i" "t' = t" "i < length t" "intent_identity (t ! i) = reservation_identity v"
  | (inserted) json where "r = Inr (length t)" "t' = t @ [new_intent v json now]" "\<not> violates_unique v t"
proof (cases "json_dumps (json_of_obj (PyDict (rv_request v)))")
  case None
  from assms [unfolded reserve_insert_def None option.case] show ?thesis
    by (intro raised [of "TypeError ''not JSON serializable''"]) simp_all
next
  case (Some json)
  note d = assms [unfolded reserve_insert_def Some option.case]
  show ?thesis
  proof (cases "violates_unique v t")
    case False
    with d show ?thesis by (intro inserted [of json]) simp_all
  next
    case True
    show ?thesis
    proof (cases "find_place (\<lambda>r. same_key v r \<or> same_write v r) t")
      case None
      with d True show ?thesis by (intro raised [of IntegrityError]) simp_all
    next
      case (Some i)
      show ?thesis
      proof (cases "intent_identity (t ! i) = reservation_identity v")
        case same: True
        with d True Some find_place_Some [OF Some] show ?thesis by (intro found [of i]) simp_all
      next
        case False
        with d True Some show ?thesis
          by (intro raised [of "PositionMutationIntentError ''position_mutation_intent_conflict''"]) (simp_all add: intent_conflict_def)
      qed
    qed
  qed
qed

lemma new_intent_simps [simp]:
  "it_idempotency_key (new_intent v json now) = rv_idempotency_key v" "it_venue (new_intent v json now) = reserved_venue v"
  "it_operation (new_intent v json now) = rv_operation v" "it_order_id (new_intent v json now) = rv_order_id v"
  "it_request_fingerprint (new_intent v json now) = rv_request_fingerprint v" "it_status (new_intent v json now) = ''reserved''"
  "intent_identity (new_intent v json now) = reservation_identity v"
  "it_pos_id (new_intent v json now) = rv_pos_id v" "it_execution_order_leg_id (new_intent v json now) = rv_execution_order_leg_id v"
  by (simp_all add: new_intent_def intent_identity_def reservation_identity_def)

lemma unique_intents_insert:
  assumes "unique_intents t" "\<not> violates_unique v t"
  shows "unique_intents (t @ [new_intent v json now])"
proof -
  let ?key = "\<lambda>r. (it_venue r, it_operation r, it_order_id r, it_request_fingerprint r)"
  have k: "rv_idempotency_key v \<notin> set (map it_idempotency_key t)"
    using assms(2) by (auto simp: violates_unique_def list_ex_iff same_key_def)
  have w: "?key (new_intent v json now) \<notin> set (map ?key (filter (\<lambda>r. filled (it_order_id r)) t))" if "filled (rv_order_id v)"
  proof
    assume "?key (new_intent v json now) \<in> set (map ?key (filter (\<lambda>r. filled (it_order_id r)) t))"
    then obtain r where "r \<in> set t" "?key (new_intent v json now) = ?key r" by auto
    then have "same_write v r" by (simp add: same_write_def)
    with \<open>r \<in> set t\<close> that assms(2) show False by (auto simp: violates_unique_def list_ex_iff)
  qed
  show ?thesis
    using assms(1) k w unfolding unique_intents_def map_append filter_append distinct_append
    by (cases "filled (rv_order_id v)") simp_all
qed

text \<open>The row a lookup answers with is the same write, its order id apart.\<close>

lemma existing_identity_order: "\<exists>order_id. existing_identity v r = intent_identity (r\<lparr>it_order_id := order_id\<rparr>)"
  by (cases r) (auto simp: existing_identity_def intent_identity_def)

lemma reserve_lookup_Some:
  assumes "reserve_lookup v t = Inr (Some i)"
  shows "i < length t \<and> (\<exists>order_id. intent_identity ((t ! i)\<lparr>it_order_id := order_id\<rparr>) = reservation_identity v)"
proof (cases "find_place (same_key v) t")
  case (Some j)
  with assms have "j = i" "existing_identity v (t ! i) = reservation_identity v"
    by (simp_all add: reserve_lookup_def intent_conflict_def split: if_splits)
  with find_place_Some [OF Some] existing_identity_order [of v "t ! i"] show ?thesis by metis
next
  case None
  with assms have f: "find_place (same_write v) t = Some i" "intent_identity (t ! i) = reservation_identity v"
    by (simp_all add: reserve_lookup_def intent_conflict_def split: if_splits option.splits)
  have "(t ! i)\<lparr>it_order_id := it_order_id (t ! i)\<rparr> = t ! i" by simp
  with find_place_Some [OF f(1)] f(2) show ?thesis by metis
qed

text \<open>A transition changes at most one row, and of it neither its identity nor its keys.\<close>

lemma transition_cases:
  assumes "transition_position_mutation_intent i expected new_status now response error t = (r, t')"
  obtains (raised) e where "r = Inl e" "t' = t"
  | (missed) "r = Inr False" "t' = t"
  | (moved) response_json error_json where "r = Inr True" "i < length t" "it_status (t ! i) \<in> set expected"
      "t' = t[i := transitioned_intent new_status now response_json error_json (t ! i)]"
proof (cases "new_status \<in> set position_mutation_intent_statuses")
  case True
  note d = assms [unfolded transition_position_mutation_intent_def if_not_P [OF not_not [THEN iffD2, OF True]]]
  show ?thesis
  proof (cases "dumps_field response")
    case (Inl e)
    with d show ?thesis by (intro raised [of e]) (simp_all split: sum.splits)
  next
    case response: (Inr response_json)
    show ?thesis
    proof (cases "dumps_field error")
      case (Inl e)
      with d response show ?thesis by (intro raised [of e]) simp_all
    next
      case (Inr error_json)
      note d = d [unfolded response Inr prod.case sum.case]
      show ?thesis
      proof (cases "i < length t \<and> it_status (t ! i) \<in> set expected")
        case m: True
        with d show ?thesis by (intro moved [of response_json error_json]) simp_all
      next
        case False
        from d [unfolded if_not_P [OF False]] show ?thesis by (intro missed) simp_all
      qed
    qed
  qed
next
  case False
  with assms show ?thesis
    by (intro raised [of "PositionMutationIntentError ''position_mutation_status_invalid''"])
      (simp_all add: transition_position_mutation_intent_def)
qed

lemma transitioned_simps [simp]:
  "it_status (transitioned_intent s now a b r) = s" "it_operation (transitioned_intent s now a b r) = it_operation r"
  "intent_identity (transitioned_intent s now a b r) = intent_identity r"
  "it_idempotency_key (transitioned_intent s now a b r) = it_idempotency_key r" "it_venue (transitioned_intent s now a b r) = it_venue r"
  "it_order_id (transitioned_intent s now a b r) = it_order_id r"
  "it_request_fingerprint (transitioned_intent s now a b r) = it_request_fingerprint r"
  "it_pos_id (transitioned_intent s now a b r) = it_pos_id r"
  "it_execution_order_leg_id (transitioned_intent s now a b r) = it_execution_order_leg_id r"
  by (simp_all add: transitioned_intent_def intent_identity_def)

end
