(* ===== verification/Mutation_Authority.thy ===== *)
theory Mutation_Authority
  imports Json_Object Native_Tpsl
begin

text \<open>
  The exact authority a position write is made under (\<open>position_mutation_authority.py\<close>): the facts it
  carries, the owner check of a protection order, the fingerprint of a live position, and its
  construction from the verified entry leg, the binding and the live row. \<open>sha\<close> is
  \<open>hashlib.sha256(..).hexdigest()\<close>. The leg \<open>require_verified_position_ownership\<close> finds and the economics
  \<open>canonical_live_position_economics\<close> reads (\<open>position_attribution.py\<close>) are arguments, or the message of
  the \<open>PositionAttributionError\<close> they raise.
\<close>

record position_mutation_authority =
  au_venue :: string
  au_strategy_instance_id :: string
  au_execution_binding_id :: int
  au_execution_order_leg_id :: int
  au_pos_id :: string
  au_instrument_id :: string
  au_side :: string
  au_position_fingerprint :: string
  au_protection_fingerprint :: "string option"

record protection_order_owner =
  oo_venue :: string
  oo_order_id :: string
  oo_strategy_instance_id :: string
  oo_execution_binding_id :: int
  oo_execution_order_leg_id :: int
  oo_pos_id :: string
  oo_instrument_id :: string
  oo_side :: string

text \<open>The rows of \<open>execution_bindings\<close> and \<open>execution_order_legs\<close>, as far as they are read.\<close>

record binding_row =
  bd_id :: int
  bd_symbol :: pyval
  bd_venue :: pyval
  bd_strategy_instance_id :: pyval
  bd_side :: pyval
  bd_status :: pyval
  bd_margin_mode :: pyval
  bd_position_mode :: pyval

record order_leg_row =
  lg_id :: int
  lg_execution_binding_id :: int
  lg_strategy_instance_id :: pyval
  lg_venue :: pyval
  lg_pos_id :: pyval
  lg_attribution_status :: pyval
  lg_purpose :: pyval

definition authority_error :: "string \<Rightarrow> 'a result" where
  "authority_error reason = Inl (PositionMutationAuthorityError reason)"

definition require_order_owned_by_authority :: "position_mutation_authority \<Rightarrow> protection_order_owner option \<Rightarrow> unit result" where
  "require_order_owned_by_authority authority owner = (case owner of
       None \<Rightarrow> authority_error ''order_owner_missing''
     | Some w \<Rightarrow>
         if (py_lower (oo_venue w), oo_strategy_instance_id w, oo_execution_binding_id w, oo_execution_order_leg_id w,
             oo_pos_id w, py_upper (oo_instrument_id w), py_lower (oo_side w))
            \<noteq> (py_lower (au_venue authority), au_strategy_instance_id authority, au_execution_binding_id authority,
             au_execution_order_leg_id authority, au_pos_id authority, py_upper (au_instrument_id authority), py_lower (au_side authority))
         then authority_error ''order_owner_mismatch'' else Inr ())"

text \<open>\<open>_canonical_decimal\<close>: the shortest text of a finite number, nothing otherwise.\<close>

definition canonical_text :: "pyval \<Rightarrow> string" where
  "canonical_text v = (case finite_decimal v of None \<Rightarrow> [] | Some x \<Rightarrow> decimal_text x)"

definition str_items :: "(string \<times> string) list \<Rightarrow> (string \<times> pyobj) list" where
  "str_items kvs = map (\<lambda>(key, s). (key, PyStr s)) kvs"

text \<open>\<open>sha256(json.dumps(value, ensure_ascii=False, sort_keys=True, separators=(",", ":")))\<close>.\<close>

definition fingerprint_of :: "(string \<Rightarrow> string) \<Rightarrow> (string \<times> pyobj) list \<Rightarrow> string result" where
  "fingerprint_of sha kvs = (case json_dumps (json_of_obj (PyDict kvs)) of
       None \<Rightarrow> Inl (TypeError ''not JSON serializable'') | Some s \<Rightarrow> Inr (sha s))"

definition str_fingerprint :: "(string \<Rightarrow> string) \<Rightarrow> (string \<times> string) list \<Rightarrow> string" where
  "str_fingerprint sha kvs = sha (json_text (sort_keys (json_of_obj (PyDict (str_items kvs)))))"

definition position_authority_fingerprint :: "(string \<Rightarrow> string) \<Rightarrow> row \<Rightarrow> string" where
  "position_authority_fingerprint sha position = str_fingerprint sha
     [(''avg_price'', canonical_text (row_get position ''avgPx'')),
      (''instrument_id'', py_upper (str_or_empty (row_get position ''instId''))),
      (''margin_mode'', py_lower (str_or_empty (or_key position ''mgnMode'' ''marginMode''))),
      (''pos_id'', str_or_empty (row_get position ''posId'')),
      (''position_mode'', py_lower (str_or_empty (or_key position ''mrgPosition'' ''positionMode''))),
      (''side'', py_lower (str_or_empty (or_key position ''posSide'' ''side''))),
      (''size'', canonical_text (row_get position ''pos''))]"

definition binding_live :: "binding_row \<Rightarrow> bool" where
  "binding_live binding \<longleftrightarrow> py_lower (str_or_empty (bd_status binding)) \<in> {''active'', ''open'', ''partial''}"

definition starts_with :: "string \<Rightarrow> string \<Rightarrow> bool" where
  "starts_with s prefix \<longleftrightarrow> take (length prefix) s = prefix"

definition build_position_mutation_authority ::
    "(string \<Rightarrow> string) \<Rightarrow> (string + order_leg_row) \<Rightarrow> (int \<Rightarrow> binding_row option) \<Rightarrow> (string \<Rightarrow> string \<Rightarrow> (string + (string \<times> string)))
     \<Rightarrow> string \<Rightarrow> string \<Rightarrow> row \<Rightarrow> position_mutation_authority result" where
  "build_position_mutation_authority sha ownership bindings economics venue pos_id live_position =
     (case ownership of
        Inl message \<Rightarrow> authority_error message
      | Inr leg \<Rightarrow>
          if str_or_empty (lg_purpose leg) \<noteq> ''entry'' then authority_error ''position_owner_not_entry_leg''
          else (case bindings (lg_execution_binding_id leg) of
              None \<Rightarrow> authority_error ''execution_binding_missing''
            | Some binding \<Rightarrow>
                let instrument_id = py_upper (str_or_empty (row_get live_position ''instId''));
                    side = py_lower (str_or_empty (or_key live_position ''posSide'' ''side''));
                    live_pos_id = str_or_empty (row_get live_position ''posId'')
                in (case economics instrument_id side of
                    Inl message \<Rightarrow> authority_error message
                  | Inr (margin_mode, position_mode) \<Rightarrow>
                      if live_pos_id \<noteq> pos_id \<or> \<not> starts_with instrument_id (py_upper (py_str (bd_symbol binding)) @ ''-'')
                        \<or> side \<noteq> py_lower (str_or_empty (bd_side binding)) \<or> py_lower (str_or_empty (bd_venue binding)) \<noteq> py_lower venue
                        \<or> str_or_empty (bd_strategy_instance_id binding) \<noteq> str_or_empty (lg_strategy_instance_id leg)
                        \<or> \<not> binding_live binding \<or> margin_mode \<noteq> py_lower (str_or_empty (bd_margin_mode binding))
                        \<or> position_mode \<noteq> py_lower (str_or_empty (bd_position_mode binding))
                      then authority_error ''live_position_binding_mismatch''
                      else Inr \<lparr>au_venue = py_lower venue,
                        au_strategy_instance_id = str_or_empty (bd_strategy_instance_id binding),
                        au_execution_binding_id = bd_id binding, au_execution_order_leg_id = lg_id leg, au_pos_id = live_pos_id,
                        au_instrument_id = instrument_id, au_side = side,
                        au_position_fingerprint = position_authority_fingerprint sha live_position,
                        au_protection_fingerprint = None\<rparr>)))"

end
