(* ===== verification/Mutation_Gateway.thy ===== *)
theory Mutation_Gateway
  imports Mutation_Intents Mutation_Authority
begin

text \<open>
  The gateway every exact position write goes through (\<open>position_mutation_gateway.py\<close>): cancelling an
  owned protection order, setting one, closing a position. A call is what the three methods share
  after they have built their payload; it runs as a sequence of steps, each one transaction on the
  intents or one exchange with the outside, whose answers \<open>answer\<close> holds: the clock, whether the
  caller's hook raises, what the checks before the write read, and how the exchange answers the write.
  Any other process may run between two steps, and a process may die at each of them.
\<close>

section \<open>What the checks read\<close>

record protection_row =
  pt_venue :: string
  pt_order_id :: string
  pt_strategy_instance_id :: pyval
  pt_execution_binding_id :: int
  pt_execution_order_leg_id :: int
  pt_pos_id :: string
  pt_instrument_id :: string
  pt_side :: string
  pt_purpose :: pyval
  pt_trigger_price :: pyval
  pt_size_text :: pyval
  pt_status :: pyval

record live_facts =
  lf_binding :: "binding_row option"
  lf_leg :: "order_leg_row option"
  lf_ownership :: "string + order_leg_row"
  lf_protection :: "protection_row option"
  lf_positions :: "row list"
  lf_live_gate :: bool

text \<open>The binding, the leg and the verified owner of the position agree with the authority.\<close>

definition binding_matches :: "position_mutation_authority \<Rightarrow> binding_row \<Rightarrow> bool" where
  "binding_matches authority binding \<longleftrightarrow>
     py_lower (str_or_empty (bd_venue binding)) = py_lower (au_venue authority)
     \<and> str_or_empty (bd_strategy_instance_id binding) = au_strategy_instance_id authority
     \<and> py_lower (str_or_empty (bd_side binding)) = py_lower (au_side authority)
     \<and> starts_with (py_upper (au_instrument_id authority)) (py_upper (py_str (bd_symbol binding)) @ ''-'')
     \<and> binding_live binding"

definition leg_matches :: "position_mutation_authority \<Rightarrow> order_leg_row \<Rightarrow> bool" where
  "leg_matches authority leg \<longleftrightarrow>
     lg_execution_binding_id leg = au_execution_binding_id authority
     \<and> str_or_empty (lg_strategy_instance_id leg) = au_strategy_instance_id authority
     \<and> py_lower (str_or_empty (lg_venue leg)) = py_lower (au_venue authority)
     \<and> str_or_empty (lg_pos_id leg) = au_pos_id authority
     \<and> py_lower (str_or_empty (lg_attribution_status leg)) = ''verified''"

definition binding_reason :: "position_mutation_authority \<Rightarrow> live_facts \<Rightarrow> string option" where
  "binding_reason authority facts = (case lf_binding facts of
       None \<Rightarrow> Some ''execution_binding_missing''
     | Some binding \<Rightarrow>
         if \<not> binding_matches authority binding then Some ''execution_binding_mismatch''
         else (case lf_leg facts of
             None \<Rightarrow> Some ''execution_order_leg_missing''
           | Some leg \<Rightarrow>
               if \<not> leg_matches authority leg then Some ''execution_order_leg_mismatch''
               else (case lf_ownership facts of
                   Inl message \<Rightarrow> Some message
                 | Inr owner \<Rightarrow>
                     if lg_id owner \<noteq> au_execution_order_leg_id authority \<or> lg_purpose owner \<noteq> VStr ''entry''
                     then Some ''execution_order_leg_mismatch'' else None)))"

definition protection_fingerprint :: "(string \<Rightarrow> string) \<Rightarrow> protection_row \<Rightarrow> string" where
  "protection_fingerprint sha r = sha (json_text (sort_keys (json_of_obj (PyDict
     [(''venue'', PyStr (py_lower (pt_venue r))), (''order_id'', PyStr (pt_order_id r)),
      (''strategy_instance_id'', PyStr (str_or_empty (pt_strategy_instance_id r))),
      (''execution_binding_id'', Scalar (VInt (pt_execution_binding_id r))),
      (''execution_order_leg_id'', Scalar (VInt (pt_execution_order_leg_id r))), (''pos_id'', PyStr (pt_pos_id r)),
      (''instrument_id'', PyStr (py_upper (pt_instrument_id r))), (''side'', PyStr (py_lower (pt_side r))),
      (''purpose'', PyStr (str_or_empty (pt_purpose r))), (''trigger_price'', PyStr (str_or_empty (pt_trigger_price r))),
      (''size_text'', PyStr (str_or_empty (pt_size_text r))), (''status'', PyStr (py_lower (str_or_empty (pt_status r))))]))))"

definition owner_of_protection :: "protection_row \<Rightarrow> protection_order_owner" where
  "owner_of_protection r = \<lparr>oo_venue = pt_venue r, oo_order_id = pt_order_id r,
     oo_strategy_instance_id = str_or_empty (pt_strategy_instance_id r), oo_execution_binding_id = pt_execution_binding_id r,
     oo_execution_order_leg_id = pt_execution_order_leg_id r, oo_pos_id = pt_pos_id r, oo_instrument_id = pt_instrument_id r,
     oo_side = pt_side r\<rparr>"

text \<open>The ledger row of the order to cancel, \<open>lf_protection\<close>, must be active, unchanged and owned.\<close>

definition protection_reason :: "(string \<Rightarrow> string) \<Rightarrow> position_mutation_authority \<Rightarrow> protection_row option \<Rightarrow> string option" where
  "protection_reason sha authority protection =
     (let owned = (case require_order_owned_by_authority authority (map_option owner_of_protection protection) of
            Inl (PositionMutationAuthorityError message) \<Rightarrow> Some message | _ \<Rightarrow> None)
      in case protection of
          None \<Rightarrow> owned
        | Some r \<Rightarrow>
            if py_lower (str_or_empty (pt_status r)) \<noteq> ''verified''
              \<or> pt_purpose r \<notin> {VStr ''stop_loss'', VStr ''backup_stop'', VStr ''take_profit''}
            then Some ''protection_order_not_active''
            else if au_protection_fingerprint authority \<noteq> None
              \<and> au_protection_fingerprint authority \<noteq> Some (protection_fingerprint sha r)
            then Some ''protection_fingerprint_changed''
            else owned)"

definition position_reason :: "(string \<Rightarrow> string) \<Rightarrow> position_mutation_authority \<Rightarrow> live_facts \<Rightarrow> string option" where
  "position_reason sha authority facts =
     (case filter (\<lambda>r. str_or_empty (row_get r ''posId'') = au_pos_id authority) (lf_positions facts) of
        [r] \<Rightarrow>
          if position_authority_fingerprint sha r \<noteq> au_position_fingerprint authority then Some ''position_fingerprint_changed''
          else if \<not> lf_live_gate facts then Some ''live_execution_disabled''
          else None
      | _ \<Rightarrow> Some ''position_not_unique'')"

section \<open>Calls\<close>

record gateway_call =
  gc_authority :: position_mutation_authority
  gc_reservation :: reservation
  gc_retry :: "row option"
  gc_before_submit :: bool
  gc_block :: "string option"

abbreviation gc_operation :: "gateway_call \<Rightarrow> string" where "gc_operation c \<equiv> rv_operation (gc_reservation c)"

definition prewrite_reason :: "(string \<Rightarrow> string) \<Rightarrow> gateway_call \<Rightarrow> live_facts \<Rightarrow> string option" where
  "prewrite_reason sha call facts = (case binding_reason (gc_authority call) facts of
       Some reason \<Rightarrow> Some reason
     | None \<Rightarrow> (case (if gc_operation call = ''cancel_position_sltp''
             then protection_reason sha (gc_authority call) (lf_protection facts) else None) of
           Some reason \<Rightarrow> Some reason
         | None \<Rightarrow> position_reason sha (gc_authority call) facts))"

definition authority_fingerprint :: "(string \<Rightarrow> string) \<Rightarrow> position_mutation_authority \<Rightarrow> string" where
  "authority_fingerprint sha a = sha (json_text (sort_keys (json_of_obj (PyDict
     [(''venue'', PyStr (py_lower (au_venue a))), (''strategy_instance_id'', PyStr (au_strategy_instance_id a)),
      (''execution_binding_id'', Scalar (VInt (au_execution_binding_id a))),
      (''execution_order_leg_id'', Scalar (VInt (au_execution_order_leg_id a))), (''pos_id'', PyStr (au_pos_id a)),
      (''instrument_id'', PyStr (py_upper (au_instrument_id a))), (''side'', PyStr (py_lower (au_side a))),
      (''position_fingerprint'', PyStr (au_position_fingerprint a)),
      (''protection_fingerprint'', (case au_protection_fingerprint a of None \<Rightarrow> PyNone | Some s \<Rightarrow> PyStr s))]))))"

definition reservation_of ::
    "(string \<Rightarrow> string) \<Rightarrow> position_mutation_authority \<Rightarrow> string \<Rightarrow> string option \<Rightarrow> (string \<times> pyobj) list \<Rightarrow> (string \<times> pyobj) list
     \<Rightarrow> string \<Rightarrow> reservation result" where
  "reservation_of sha a operation order_id payload request idempotency_key =
     rbind (fingerprint_of sha payload) (\<lambda>fp. Inr \<lparr>rv_idempotency_key = idempotency_key, rv_operation = operation,
       rv_strategy_instance_id = au_strategy_instance_id a, rv_execution_binding_id = au_execution_binding_id a,
       rv_execution_order_leg_id = au_execution_order_leg_id a, rv_pos_id = au_pos_id a, rv_order_id = order_id,
       rv_authority_fingerprint = authority_fingerprint sha a, rv_request_fingerprint = fp, rv_request = request,
       rv_venue = au_venue a\<rparr>)"

definition cancel_owned_position_sltp ::
    "(string \<Rightarrow> string) \<Rightarrow> position_mutation_authority \<Rightarrow> string \<Rightarrow> string \<Rightarrow> bool \<Rightarrow> row option \<Rightarrow> gateway_call result" where
  "cancel_owned_position_sltp sha authority order_id idempotency_key before_submit retry_pending_order =
     (let payload = str_items [(''instType'', ''SWAP''), (''instId'', au_instrument_id authority), (''ordId'', order_id)] in
      rbind (reservation_of sha authority ''cancel_position_sltp'' (Some order_id) payload payload idempotency_key) (\<lambda>v.
        Inr \<lparr>gc_authority = authority, gc_reservation = v, gc_retry = retry_pending_order, gc_before_submit = before_submit,
          gc_block = None\<rparr>))"

text \<open>\<open>facts\<close> is what \<open>_load_verified_binding\<close> reads when the call begins.\<close>

definition verified_binding :: "position_mutation_authority \<Rightarrow> live_facts \<Rightarrow> string + binding_row" where
  "verified_binding authority facts = (case (binding_reason authority facts, lf_binding facts) of
       (None, Some binding) \<Rightarrow> Inr binding
     | (Some reason, _) \<Rightarrow> Inl (if reason = [] then ''execution_binding_missing'' else reason)
     | (None, None) \<Rightarrow> Inl ''execution_binding_missing'')"

definition allowed_request_options :: "string list" where
  "allowed_request_options = [''tpTriggerPxType'', ''tpOrdPx'', ''slTriggerPxType'', ''slOrdPx'']"

definition sltp_trigger_field :: "string \<Rightarrow> string option" where
  "sltp_trigger_field purpose =
     (if purpose = ''stop_loss'' then Some ''slTriggerPx'' else if purpose = ''take_profit'' then Some ''tpTriggerPx'' else None)"

definition set_exact_position_sltp ::
    "(string \<Rightarrow> string) \<Rightarrow> position_mutation_authority \<Rightarrow> string \<Rightarrow> string option \<Rightarrow> string \<Rightarrow> string option \<Rightarrow> string
     \<Rightarrow> (string \<times> pyobj) list \<Rightarrow> live_facts \<Rightarrow> gateway_call result" where
  "set_exact_position_sltp sha authority purpose ledger_purpose trigger sz idempotency_key request_options facts =
     (case sltp_trigger_field purpose of
        None \<Rightarrow> Inl (ValueError ''position_sltp_purpose_invalid'')
      | Some trigger_field \<Rightarrow>
          let verified = verified_binding authority facts;
              (side, position_mode, margin_mode) = (case verified of
                  Inl _ \<Rightarrow> (au_side authority, [], [])
                | Inr b \<Rightarrow> (py_lower (au_side authority), py_lower (py_str (bd_position_mode b)), py_lower (py_str (bd_margin_mode b))));
              base = str_items ([(''instType'', ''SWAP''), (''instId'', au_instrument_id authority), (''posSide'', side),
                (''mrgPosition'', position_mode), (''posId'', au_pos_id authority), (''tdMode'', margin_mode),
                (trigger_field, trigger)] @ (case sz of None \<Rightarrow> [] | Some s \<Rightarrow> [(''sz'', s)]))
          in (case verified of
              Inl reason \<Rightarrow>
                rbind (reservation_of sha authority ''set_position_sltp'' None base base idempotency_key) (\<lambda>v.
                  Inr \<lparr>gc_authority = authority, gc_reservation = v, gc_retry = None, gc_before_submit = False, gc_block = Some reason\<rparr>)
            | Inr b \<Rightarrow>
                let payload = base @ filter (\<lambda>(key, x). key \<in> set allowed_request_options \<and> \<not> missing x) request_options;
                    lp = (case ledger_purpose of None \<Rightarrow> purpose | Some l \<Rightarrow> if l = [] then purpose else l)
                in rbind (reservation_of sha authority ''set_position_sltp'' None payload
                     (payload @ [(''_ledger_purpose'', PyStr lp)]) idempotency_key) (\<lambda>v.
                  Inr \<lparr>gc_authority = authority, gc_reservation = v, gc_retry = None, gc_before_submit = False, gc_block = None\<rparr>)))"

definition close_exact_position ::
    "(string \<Rightarrow> string) \<Rightarrow> position_mutation_authority \<Rightarrow> string \<Rightarrow> string option \<Rightarrow> string \<Rightarrow> bool \<Rightarrow> live_facts \<Rightarrow> gateway_call result" where
  "close_exact_position sha authority sz client_order_id idempotency_key before_submit facts =
     (let op = ''close_position'' in
      case verified_binding authority facts of
        Inl reason \<Rightarrow>
          let payload = str_items [(''instId'', au_instrument_id authority), (''tdMode'', []), (''side'', []),
                (''posSide'', au_side authority), (''ordType'', ''market''), (''sz'', sz), (''mrgPosition'', []),
                (''closePosId'', au_pos_id authority)]
                @ [(''clOrdId'', case client_order_id of None \<Rightarrow> PyNone | Some c \<Rightarrow> PyStr c)]
          in rbind (reservation_of sha authority op None payload payload idempotency_key) (\<lambda>v.
            Inr \<lparr>gc_authority = authority, gc_reservation = v, gc_retry = None, gc_before_submit = False, gc_block = Some reason\<rparr>)
      | Inr b \<Rightarrow>
          let payload = str_items ([(''instId'', au_instrument_id authority), (''tdMode'', py_lower (py_str (bd_margin_mode b))),
                (''side'', if py_lower (au_side authority) = ''long'' then ''sell'' else ''buy''),
                (''posSide'', py_lower (au_side authority)), (''ordType'', ''market''), (''sz'', sz),
                (''mrgPosition'', py_lower (py_str (bd_position_mode b))), (''closePosId'', au_pos_id authority)]
                @ (case client_order_id of None \<Rightarrow> [] | Some c \<Rightarrow> if c = [] then [] else [(''clOrdId'', c)]))
          in rbind (reservation_of sha authority op None payload payload idempotency_key) (\<lambda>v.
            Inr \<lparr>gc_authority = authority, gc_reservation = v, gc_retry = None, gc_before_submit = before_submit, gc_block = None\<rparr>))"

section \<open>Running a call\<close>

datatype write_outcome = Accepted "(string \<times> pyobj) list" | Definitely_rejected string | Outcome_unknown string

record gateway_result =
  gr_status :: string
  gr_reason :: "string option"
  gr_intent_id :: nat
  gr_response :: "(string \<times> pyobj) list option"

record answer =
  an_now :: py_datetime
  an_hook :: "py_exc option"
  an_facts :: "live_facts result"
  an_outcome :: write_outcome

text \<open>Where a call stands; the number is the intent's id.\<close>

datatype pc =
    Lookup | Insert
  | Start nat | Rearm nat gateway_result | Recheck nat
  | Check nat | Hook nat | Validate nat
  | Block nat string
  | Submit nat live_facts | Write nat live_facts | Finish nat write_outcome
  | Report nat
  | Done gateway_result | Raised py_exc | Dead

definition intent_result :: "intent_table \<Rightarrow> nat \<Rightarrow> gateway_result result" where
  "intent_result t i =
     (if i < length t
      then let r = t ! i; error = load_json_dict (it_error_json r); response = load_json_dict (it_response_json r);
          reason = dict_get error ''reason''
        in Inr \<lparr>gr_status = it_status r, gr_reason = (if obj_truthy reason then Some (obj_str reason) else None),
          gr_intent_id = i, gr_response = (if response = [] then None else Some response)\<rparr>
      else Inl (RuntimeError ''position_mutation_intent_missing''))"

definition report :: "intent_table \<Rightarrow> nat \<Rightarrow> pc" where
  "report t i = (case intent_result t i of Inl e \<Rightarrow> Raised e | Inr r \<Rightarrow> Done r)"

text \<open>\<open>str(row.get(a) or row.get(b) or row.get(c) or "")\<close>.\<close>

definition first_key_text :: "row \<Rightarrow> string list \<Rightarrow> string" where
  "first_key_text r keys = (case find (\<lambda>key. truthy (row_get r key)) keys of None \<Rightarrow> [] | Some key \<Rightarrow> py_str (row_get r key))"

definition pending_cancel_retry_matches_authority :: "row \<Rightarrow> position_mutation_authority \<Rightarrow> string \<Rightarrow> bool" where
  "pending_cancel_retry_matches_authority r authority order_id =
     (let explicit_pos_id = py_strip (first_key_text r [''posId'', ''pos_id'', ''positionId'']) in
      first_key_text r [''ordId'', ''orderId'', ''order_id''] = order_id
      \<and> (explicit_pos_id = [] \<or> explicit_pos_id = au_pos_id authority)
      \<and> py_upper (first_key_text r [''instId'', ''instrument_id'']) = py_upper (au_instrument_id authority)
      \<and> protection_order_position_sides r = {py_lower (au_side authority)}
      \<and> protection_order_sides_consistent r
      \<and> py_upper (if truthy (row_get r ''triggerOrderType'') then py_str (row_get r ''triggerOrderType'') else ''TPSL'') = ''TPSL'')"

definition unresolved_statuses :: "string list" where
  "unresolved_statuses = [''reserved'', ''submitting'', ''submitted'', ''recovery_required'']"

definition has_other_unresolved_close :: "intent_table \<Rightarrow> string \<Rightarrow> int \<Rightarrow> nat \<Rightarrow> bool" where
  "has_other_unresolved_close t pos_id leg_id exclude =
     list_ex (\<lambda>j. it_pos_id (t ! j) = pos_id \<and> it_execution_order_leg_id (t ! j) = leg_id
        \<and> it_operation (t ! j) = ''close_position'' \<and> j \<noteq> exclude \<and> it_status (t ! j) \<in> set unresolved_statuses) [0..<length t]"

text \<open>A transition and what follows when it moved the row, when it did not, and when it raised.\<close>

definition after_transition :: "bool result \<times> intent_table \<Rightarrow> pc \<Rightarrow> pc \<Rightarrow> pc \<times> intent_table" where
  "after_transition rt moved missed = (case rt of (r, t) \<Rightarrow>
     (case r of Inl e \<Rightarrow> Raised e | Inr True \<Rightarrow> moved | Inr False \<Rightarrow> missed, t))"

definition start_call :: "gateway_call \<Rightarrow> intent_table \<Rightarrow> nat \<Rightarrow> pc" where
  "start_call call t i = (case intent_result t i of
       Inl e \<Rightarrow> Raised e
     | Inr current \<Rightarrow>
         (case gc_block call of
            Some reason \<Rightarrow> if gr_status current = ''reserved'' then Block i reason else Done current
          | None \<Rightarrow>
              if gr_status current = ''rejected'' \<and> gc_operation call = ''cancel_position_sltp'' \<and> gc_retry call \<noteq> None
              then if pending_cancel_retry_matches_authority (the (gc_retry call)) (gc_authority call) (the (rv_order_id (gc_reservation call)))
                then Rearm i current else Done current
              else if gr_status current = ''reserved'' then Check i else Done current))"

text \<open>How the exchange's answer is recorded: the new status, its receipt or its reason, and the result.\<close>

definition finish_call :: "nat \<Rightarrow> write_outcome \<Rightarrow> string \<times> (string \<times> pyobj) list option \<times> (string \<times> pyobj) list option \<times> gateway_result" where
  "finish_call i outcome = (case outcome of
       Accepted response \<Rightarrow> (''submitted'', Some response, None,
         \<lparr>gr_status = ''submitted'', gr_reason = None, gr_intent_id = i, gr_response = Some response\<rparr>)
     | Definitely_rejected message \<Rightarrow> (''rejected'', None, Some [(''reason'', PyStr message)],
         \<lparr>gr_status = ''rejected'', gr_reason = Some message, gr_intent_id = i, gr_response = None\<rparr>)
     | Outcome_unknown message \<Rightarrow> (''recovery_required'', None, Some [(''reason'', PyStr message)],
         \<lparr>gr_status = ''recovery_required'', gr_reason = Some message, gr_intent_id = i, gr_response = None\<rparr>))"

text \<open>One step: where the call goes, what the table becomes, and the write it made, if it made one.\<close>

definition gateway_step ::
    "(string \<Rightarrow> string) \<Rightarrow> gateway_call \<Rightarrow> answer \<Rightarrow> pc \<Rightarrow> intent_table
     \<Rightarrow> (pc \<times> intent_table) \<times> (nat \<times> live_facts \<times> write_outcome) option" where
  "gateway_step sha call ans pc t = (let v = gc_reservation call; now = an_now ans in
     case pc of
       Lookup \<Rightarrow> ((case reserve_lookup v t of Inl e \<Rightarrow> Raised e | Inr None \<Rightarrow> Insert | Inr (Some i) \<Rightarrow> Start i, t), None)
     | Insert \<Rightarrow> (case reserve_insert v now t of (r, t') \<Rightarrow> ((case r of Inl e \<Rightarrow> Raised e | Inr i \<Rightarrow> Start i, t'), None))
     | Start i \<Rightarrow> ((start_call call t i, t), None)
     | Rearm i current \<Rightarrow> (after_transition (transition_position_mutation_intent i [''rejected''] ''reserved'' now None None t)
           (Recheck i) (Done current), None)
     | Recheck i \<Rightarrow> ((if i < length t \<and> it_status (t ! i) = ''reserved'' then Check i else report t i, t), None)
     | Check i \<Rightarrow> ((if gc_operation call = ''close_position''
             \<and> has_other_unresolved_close t (au_pos_id (gc_authority call)) (au_execution_order_leg_id (gc_authority call)) i
           then Block i ''position_mutation_unresolved'' else Hook i, t), None)
     | Hook i \<Rightarrow> ((case (if gc_before_submit call then an_hook ans else None) of Some e \<Rightarrow> Raised e | None \<Rightarrow> Validate i, t), None)
     | Validate i \<Rightarrow> ((case an_facts ans of
           Inl e \<Rightarrow> Raised e
         | Inr facts \<Rightarrow> (case prewrite_reason sha call facts of Some reason \<Rightarrow> Block i reason | None \<Rightarrow> Submit i facts), t), None)
     | Block i reason \<Rightarrow> (after_transition
           (transition_position_mutation_intent i [''reserved''] ''blocked'' now None (Some [(''reason'', PyStr reason)]) t)
           (Done \<lparr>gr_status = ''blocked'', gr_reason = Some reason, gr_intent_id = i, gr_response = None\<rparr>) (Report i), None)
     | Submit i facts \<Rightarrow> (after_transition
           (transition_position_mutation_intent i [''reserved''] ''submitting'' now None None t) (Write i facts) (Report i), None)
     | Write i facts \<Rightarrow> ((Finish i (an_outcome ans), t), Some (i, facts, an_outcome ans))
     | Finish i outcome \<Rightarrow> (case finish_call i outcome of (status, response, error, result) \<Rightarrow>
         (after_transition (transition_position_mutation_intent i [''submitting''] status now response error t)
           (Done result) (Report i), None))
     | Report i \<Rightarrow> ((report t i, t), None)
     | _ \<Rightarrow> ((pc, t), None))"

section \<open>What the caller is told\<close>

definition never_submitted_intent_statuses :: "string list" where
  "never_submitted_intent_statuses = [''reserved'', ''blocked'', ''prewrite_refused'']"

definition require_submitted_response :: "gateway_result \<Rightarrow> (string \<times> pyobj) list result" where
  "require_submitted_response result =
     (if gr_status result \<in> {''submitted'', ''confirmed''} \<and> gr_response result \<noteq> None then Inr (the (gr_response result))
      else let reason = (case gr_reason result of
              Some r \<Rightarrow> if r = [] then ''position_mutation_'' @ gr_status result else r
            | None \<Rightarrow> ''position_mutation_'' @ gr_status result)
        in if gr_status result = ''rejected'' then Inl (DeepcoinDefiniteRejection reason)
           else if gr_status result \<in> set never_submitted_intent_statuses then authority_error reason
           else Inl (DeepcoinRequestOutcomeUnknown reason))"

end
