(* ===== verification/Gateway_Runs.thy ===== *)
theory Gateway_Runs
  imports Mutation_Gateway
begin

text \<open>
  The gateway under any interleaving: any number of processes, each running one call, may take turns at
  every step and die at any of them, while the reconciliation of the exchange's readback confirms,
  rejects or blocks intents beside them. Whatever happens, an intent is written to the exchange at most
  once, apart from cancels the exchange definitely rejected, and only after every check passed.
\<close>

section \<open>The world\<close>

record exchange_write =
  ew_process :: nat
  ew_intent :: nat
  ew_facts :: live_facts
  ew_outcome :: write_outcome

record world =
  wd_table :: intent_table
  wd_pc :: "nat \<Rightarrow> pc"
  wd_writes :: "exchange_write list"

definition initial_world :: world where
  "initial_world = \<lparr>wd_table = [], wd_pc = (\<lambda>_. Lookup), wd_writes = []\<rparr>"

text \<open>What the reconciliation writes into a row it confirms or rejects from the exchange's readback.\<close>

definition confirmed_row :: "string \<Rightarrow> string option \<Rightarrow> py_datetime \<Rightarrow> position_mutation_intent \<Rightarrow> position_mutation_intent" where
  "confirmed_row order_id response_json now r = r\<lparr>it_order_id := Some order_id, it_response_json := response_json,
     it_status := ''confirmed'', it_confirmed_at := Some now, it_updated_at := now\<rparr>"

definition rejected_row :: "string \<Rightarrow> string option \<Rightarrow> py_datetime \<Rightarrow> position_mutation_intent \<Rightarrow> position_mutation_intent" where
  "rejected_row order_id response_json now r = r\<lparr>it_status := ''rejected'', it_order_id := Some order_id,
     it_response_json := response_json, it_confirmed_at := Some now, it_updated_at := now\<rparr>"

text \<open>
  A step of the world. The reconciliation does not compare the status it read, so its confirmation may
  land at any later moment, and which rows it acts on is left open; it rejects only closes.
\<close>

inductive world_step :: "(string \<Rightarrow> string) \<Rightarrow> (nat \<Rightarrow> gateway_call) \<Rightarrow> world \<Rightarrow> world \<Rightarrow> bool" for sha calls where
  process: "gateway_step sha (calls p) ans (wd_pc w p) (wd_table w) = ((pc', t'), write) \<Longrightarrow>
    world_step sha calls w \<lparr>wd_table = t', wd_pc = (wd_pc w)(p := pc'),
      wd_writes = wd_writes w @ (case write of None \<Rightarrow> []
        | Some (i, facts, outcome) \<Rightarrow> [\<lparr>ew_process = p, ew_intent = i, ew_facts = facts, ew_outcome = outcome\<rparr>])\<rparr>"
| crash: "world_step sha calls w (w\<lparr>wd_pc := (wd_pc w)(p := Dead)\<rparr>)"
| confirm: "i < length (wd_table w) \<Longrightarrow>
    world_step sha calls w (w\<lparr>wd_table := (wd_table w)[i := confirmed_row order_id response_json now (wd_table w ! i)]\<rparr>)"
| reject: "i < length (wd_table w) \<Longrightarrow> it_operation (wd_table w ! i) = ''close_position'' \<Longrightarrow>
    world_step sha calls w (w\<lparr>wd_table := (wd_table w)[i := rejected_row order_id response_json now (wd_table w ! i)]\<rparr>)"
| block: "transition_position_mutation_intent i [''reserved''] ''blocked'' now None error (wd_table w) = (r, t') \<Longrightarrow>
    world_step sha calls w (w\<lparr>wd_table := t'\<rparr>)"

inductive reachable_world :: "(string \<Rightarrow> string) \<Rightarrow> (nat \<Rightarrow> gateway_call) \<Rightarrow> world \<Rightarrow> bool" for sha calls where
  initially: "reachable_world sha calls initial_world"
| later: "reachable_world sha calls w \<Longrightarrow> world_step sha calls w w' \<Longrightarrow> reachable_world sha calls w'"

section \<open>The invariant\<close>

fun intent_of :: "pc \<Rightarrow> nat option" where
  "intent_of (Start i) = Some i" | "intent_of (Rearm i r) = Some i" | "intent_of (Recheck i) = Some i"
| "intent_of (Check i) = Some i" | "intent_of (Hook i) = Some i" | "intent_of (Validate i) = Some i"
| "intent_of (Block i reason) = Some i" | "intent_of (Submit i facts) = Some i" | "intent_of (Write i facts) = Some i"
| "intent_of (Finish i outcome) = Some i" | "intent_of (Report i) = Some i" | "intent_of _ = None"

fun in_flight :: "pc \<Rightarrow> nat option" where
  "in_flight (Write i facts) = Some i" | "in_flight (Finish i outcome) = Some i" | "in_flight _ = None"

text \<open>The row is the one the call reserved, whatever has become of its order id.\<close>

definition row_of_call :: "gateway_call \<Rightarrow> position_mutation_intent \<Rightarrow> bool" where
  "row_of_call call r \<longleftrightarrow> (\<exists>order_id. intent_identity (r\<lparr>it_order_id := order_id\<rparr>) = reservation_identity (gc_reservation call))"

definition definitely_rejected :: "write_outcome \<Rightarrow> bool" where
  "definitely_rejected outcome \<longleftrightarrow> (\<exists>message. outcome = Definitely_rejected message)"

text \<open>The statuses from which a write may still follow; a rejected cancel may be armed again.\<close>

definition may_write :: "position_mutation_intent \<Rightarrow> bool" where
  "may_write r \<longleftrightarrow> it_status r \<in> set never_submitted_intent_statuses
     \<or> it_status r = ''rejected'' \<and> it_operation r = ''cancel_position_sltp''"

text \<open>The writes that count: all but the definitely rejected cancels.\<close>

definition counts :: "intent_table \<Rightarrow> nat \<Rightarrow> exchange_write \<Rightarrow> bool" where
  "counts t i x \<longleftrightarrow> ew_intent x = i \<and> \<not> (it_operation (t ! i) = ''cancel_position_sltp'' \<and> definitely_rejected (ew_outcome x))"

definition counted :: "world \<Rightarrow> nat \<Rightarrow> exchange_write list" where
  "counted w i = filter (counts (wd_table w) i) (wd_writes w)"

definition world_ok :: "(nat \<Rightarrow> gateway_call) \<Rightarrow> world \<Rightarrow> bool" where
  "world_ok calls w \<longleftrightarrow>
     (\<forall>p i. intent_of (wd_pc w p) = Some i \<longrightarrow> i < length (wd_table w) \<and> row_of_call (calls p) (wd_table w ! i))
     \<and> (\<forall>p q i. in_flight (wd_pc w p) = Some i \<and> in_flight (wd_pc w q) = Some i \<longrightarrow> p = q)
     \<and> (\<forall>p i. in_flight (wd_pc w p) = Some i \<longrightarrow> \<not> may_write (wd_table w ! i))
     \<and> (\<forall>i < length (wd_table w). may_write (wd_table w ! i) \<longrightarrow> counted w i = [])
     \<and> (\<forall>p i facts. wd_pc w p = Write i facts \<longrightarrow> counted w i = [])
     \<and> (\<forall>p i outcome. wd_pc w p = Finish i outcome \<longrightarrow> definitely_rejected outcome
          \<longrightarrow> it_operation (wd_table w ! i) = ''cancel_position_sltp'' \<longrightarrow> counted w i = [])
     \<and> (\<forall>i. length (counted w i) \<le> 1)
     \<and> (\<forall>x \<in> set (wd_writes w). ew_intent x < length (wd_table w))
     \<and> distinct (map it_idempotency_key (wd_table w))"

lemma in_flight_intent: "in_flight pc = Some i \<Longrightarrow> intent_of pc = Some i"
  by (cases pc) auto

text \<open>Replacing a row by one of the same call and key changes which writes count for no intent.\<close>

definition same_row :: "position_mutation_intent \<Rightarrow> position_mutation_intent \<Rightarrow> bool" where
  "same_row r r' \<longleftrightarrow> it_idempotency_key r' = it_idempotency_key r
     \<and> (\<exists>order_id. intent_identity r' = intent_identity (r\<lparr>it_order_id := order_id\<rparr>))"

lemma same_row_simps:
  assumes "same_row r r'"
  shows "it_operation r' = it_operation r" "it_pos_id r' = it_pos_id r" "it_execution_order_leg_id r' = it_execution_order_leg_id r"
    "row_of_call call r' = row_of_call call r"
  using assms by (auto simp: same_row_def row_of_call_def intent_identity_def)

lemma same_row_transitioned [simp]: "same_row r (transitioned_intent s now a b r)"
  by (auto simp: same_row_def intent_identity_def transitioned_intent_def intro: exI [of _ "it_order_id r"])

lemma same_row_reconciled [simp]:
  "same_row r (confirmed_row order_id json now r)" "same_row r (rejected_row order_id json now r)"
  by (auto simp: same_row_def intent_identity_def confirmed_row_def rejected_row_def)

lemma operation_update:
  assumes "same_row (t ! i) r'"
  shows "it_operation (t[i := r'] ! j) = it_operation (t ! j)"
proof (cases "i < length t")
  case True
  then show ?thesis using same_row_simps(1) [OF assms] by (cases "j = i") simp_all
next
  case False
  then show ?thesis by (simp add: list_update_beyond)
qed

lemma counted_update:
  assumes "same_row (wd_table w ! i) r'"
  shows "counted \<lparr>wd_table = (wd_table w)[i := r'], wd_pc = pcs, wd_writes = wd_writes w\<rparr> j = counted w j"
  unfolding counted_def counts_def by (simp add: operation_update [OF assms])

lemma keys_update:
  assumes "same_row (t ! i) r'"
  shows "map it_idempotency_key (t[i := r']) = map it_idempotency_key t"
proof (cases "i < length t")
  case True
  have "it_idempotency_key r' = it_idempotency_key (t ! i)" using assms by (simp add: same_row_def)
  also have "\<dots> = map it_idempotency_key t ! i" using True by simp
  finally show ?thesis by (simp only: map_update list_update_id)
next
  case False
  then show ?thesis by (simp add: list_update_beyond)
qed

text \<open>The invariant, fact by fact.\<close>

lemma world_okD:
  assumes "world_ok calls w"
  shows at_row: "intent_of (wd_pc w p) = Some i \<Longrightarrow> i < length (wd_table w) \<and> row_of_call (calls p) (wd_table w ! i)"
    and one_flight: "in_flight (wd_pc w p) = Some i \<Longrightarrow> in_flight (wd_pc w q) = Some i \<Longrightarrow> p = q"
    and flight_closed: "in_flight (wd_pc w p) = Some i \<Longrightarrow> \<not> may_write (wd_table w ! i)"
    and open_unwritten: "i < length (wd_table w) \<Longrightarrow> may_write (wd_table w ! i) \<Longrightarrow> counted w i = []"
    and write_unwritten: "wd_pc w p = Write i facts \<Longrightarrow> counted w i = []"
    and rejected_unwritten: "wd_pc w p = Finish i outcome \<Longrightarrow> definitely_rejected outcome
          \<Longrightarrow> it_operation (wd_table w ! i) = ''cancel_position_sltp'' \<Longrightarrow> counted w i = []"
    and counted_once: "length (counted w i) \<le> 1"
    and written_rows: "x \<in> set (wd_writes w) \<Longrightarrow> ew_intent x < length (wd_table w)"
    and distinct_keys: "distinct (map it_idempotency_key (wd_table w))"
  using assms unfolding world_ok_def by blast+

lemma world_okI:
  assumes "\<And>p i. intent_of (wd_pc w p) = Some i \<Longrightarrow> i < length (wd_table w) \<and> row_of_call (calls p) (wd_table w ! i)"
    and "\<And>p q i. in_flight (wd_pc w p) = Some i \<Longrightarrow> in_flight (wd_pc w q) = Some i \<Longrightarrow> p = q"
    and "\<And>p i. in_flight (wd_pc w p) = Some i \<Longrightarrow> \<not> may_write (wd_table w ! i)"
    and "\<And>i. i < length (wd_table w) \<Longrightarrow> may_write (wd_table w ! i) \<Longrightarrow> counted w i = []"
    and "\<And>p i facts. wd_pc w p = Write i facts \<Longrightarrow> counted w i = []"
    and "\<And>p i outcome. wd_pc w p = Finish i outcome \<Longrightarrow> definitely_rejected outcome
          \<Longrightarrow> it_operation (wd_table w ! i) = ''cancel_position_sltp'' \<Longrightarrow> counted w i = []"
    and "\<And>i. length (counted w i) \<le> 1"
    and "\<And>x. x \<in> set (wd_writes w) \<Longrightarrow> ew_intent x < length (wd_table w)"
    and "distinct (map it_idempotency_key (wd_table w))"
  shows "world_ok calls w"
  unfolding world_ok_def using assms by (intro conjI allI impI ballI) blast+

text \<open>A step of process \<open>p\<close> that replaces at most one row and writes nothing.\<close>

lemma world_ok_update:
  assumes ok: "world_ok calls w" and r': "same_row (wd_table w ! i) r'" "i < length (wd_table w)"
    and pc': "\<And>j. intent_of pc' = Some j \<Longrightarrow> j < length (wd_table w) \<and> row_of_call (calls p) (wd_table w ! j)"
    and opens: "may_write r' \<Longrightarrow> counted w i = [] \<and> (\<forall>q. q \<noteq> p \<longrightarrow> in_flight (wd_pc w q) \<noteq> Some i) \<and> in_flight pc' \<noteq> Some i"
    and flies: "\<And>j. in_flight pc' = Some j \<Longrightarrow> pc' = wd_pc w p
        \<or> j = i \<and> counted w i = [] \<and> (\<forall>q. q \<noteq> p \<longrightarrow> in_flight (wd_pc w q) \<noteq> Some i) \<and> (\<exists>facts. pc' = Write i facts)"
  shows "world_ok calls \<lparr>wd_table = (wd_table w)[i := r'], wd_pc = (wd_pc w)(p := pc'), wd_writes = wd_writes w\<rparr>"
    (is "world_ok calls ?w")
proof (rule world_okI)
  have row: "row_of_call c (wd_table ?w ! j) = row_of_call c (wd_table w ! j)" if "j < length (wd_table w)" for c j
    using same_row_simps(4) [OF r'(1), of c] that by (simp add: nth_list_update r'(2))
  have op: "it_operation (wd_table ?w ! j) = it_operation (wd_table w ! j)" for j
    using operation_update [OF r'(1), of j] by simp
  have cnt: "counted ?w j = counted w j" for j by (rule counted_update [OF r'(1)])
  note D = world_okD [OF ok]
  show "j < length (wd_table ?w) \<and> row_of_call (calls q) (wd_table ?w ! j)" if "intent_of (wd_pc ?w q) = Some j" for q j
  proof -
    have "j < length (wd_table w) \<and> row_of_call (calls q) (wd_table w ! j)"
      using that D(1) [of q j] pc' [of j] by (cases "q = p") simp_all
    then show ?thesis using row [of j "calls q"] by simp
  qed
  show "q = q'" if "in_flight (wd_pc ?w q) = Some j" "in_flight (wd_pc ?w q') = Some j" for q q' j
    using that D(2) [of q j q'] flies [of j] by (cases "q = p"; cases "q' = p") auto
  show "\<not> may_write (wd_table ?w ! j)" if "in_flight (wd_pc ?w q) = Some j" for q j
  proof (cases "j = i")
    case True
    then show ?thesis using that opens r'(2) by (cases "q = p") auto
  next
    case False
    with that flies [of j] have "in_flight (wd_pc w q) = Some j" by (cases "q = p") auto
    with False D(3) [of q j] show ?thesis by simp
  qed
  show "counted ?w j = []" if "j < length (wd_table ?w)" "may_write (wd_table ?w ! j)" for j
    using that D(4) [of j] opens r'(2) unfolding cnt by (cases "j = i") simp_all
  show "counted ?w j = []" if "wd_pc ?w q = Write j facts" for q j facts
    using that D(5) [of q j facts] flies [of j] unfolding cnt by (cases "q = p") auto
  show "counted ?w j = []" if "wd_pc ?w q = Finish j outcome" "definitely_rejected outcome"
      "it_operation (wd_table ?w ! j) = ''cancel_position_sltp''" for q j outcome
    using that D(6) [of q j outcome] flies [of j] unfolding cnt op by (cases "q = p") auto
  show "length (counted ?w j) \<le> 1" for j unfolding cnt by (rule D(7))
  show "ew_intent x < length (wd_table ?w)" if "x \<in> set (wd_writes ?w)" for x using that D(8) [of x] by simp
  show "distinct (map it_idempotency_key (wd_table ?w))" using D(9) keys_update [OF r'(1)] by simp
qed

text \<open>A step that only moves process \<open>p\<close>.\<close>

lemma world_ok_pc:
  assumes ok: "world_ok calls w"
    and pc': "\<And>j. intent_of pc' = Some j \<Longrightarrow> j < length (wd_table w) \<and> row_of_call (calls p) (wd_table w ! j)" "in_flight pc' = None"
  shows "world_ok calls \<lparr>wd_table = wd_table w, wd_pc = (wd_pc w)(p := pc'), wd_writes = wd_writes w\<rparr>" (is "world_ok calls ?w")
proof (rule world_okI)
  note D = world_okD [OF ok]
  have cnt: "counted ?w j = counted w j" for j by (simp add: counted_def)
  have fl: "in_flight (wd_pc ?w q) = Some j \<Longrightarrow> in_flight (wd_pc w q) = Some j \<and> q \<noteq> p" for q j
    using pc'(2) by (cases "q = p") simp_all
  show "j < length (wd_table ?w) \<and> row_of_call (calls q) (wd_table ?w ! j)" if "intent_of (wd_pc ?w q) = Some j" for q j
    using that D(1) [of q j] pc'(1) [of j] by (cases "q = p") simp_all
  show "q = q'" if "in_flight (wd_pc ?w q) = Some j" "in_flight (wd_pc ?w q') = Some j" for q q' j
    using fl [OF that(1)] fl [OF that(2)] D(2) by blast
  show "\<not> may_write (wd_table ?w ! j)" if "in_flight (wd_pc ?w q) = Some j" for q j using fl [OF that] D(3) [of q j] by simp
  show "counted ?w j = []" if "j < length (wd_table ?w)" "may_write (wd_table ?w ! j)" for j using that D(4) [of j] unfolding cnt by simp
  have old_pc: "wd_pc w q = pc" if "wd_pc ?w q = pc" "in_flight pc \<noteq> None" for q pc
    using that fl [of q "the (in_flight pc)"] by (cases "q = p") auto
  show "counted ?w j = []" if "wd_pc ?w q = Write j facts" for q j facts
    using D(5) [OF old_pc [OF that]] unfolding cnt by simp
  show "counted ?w j = []" if "wd_pc ?w q = Finish j outcome" "definitely_rejected outcome"
      "it_operation (wd_table ?w ! j) = ''cancel_position_sltp''" for q j outcome
    using D(6) [OF old_pc [OF that(1)] that(2)] that(3) unfolding cnt by simp
  show "length (counted ?w j) \<le> 1" for j unfolding cnt by (rule D(7))
  show "ew_intent x < length (wd_table ?w)" if "x \<in> set (wd_writes ?w)" for x using that D(8) [of x] by simp
  show "distinct (map it_idempotency_key (wd_table ?w))" using D(9) by simp
qed

text \<open>An insertion.\<close>

lemma world_ok_insert:
  assumes ok: "world_ok calls w" and new: "\<not> violates_unique (gc_reservation (calls p)) (wd_table w)"
  shows "world_ok calls \<lparr>wd_table = wd_table w @ [new_intent (gc_reservation (calls p)) json now],
    wd_pc = (wd_pc w)(p := Start (length (wd_table w))), wd_writes = wd_writes w\<rparr>" (is "world_ok calls ?w")
proof (rule world_okI)
  let ?n = "length (wd_table w)"
  note D = world_okD [OF ok]
  have old: "j < ?n \<Longrightarrow> wd_table ?w ! j = wd_table w ! j" for j by (simp add: nth_append)
  have cnt: "counted ?w j = counted w j" for j
    unfolding counted_def using D(8) old by (auto simp: counts_def intro!: filter_cong)
  have fl: "in_flight (wd_pc ?w q) = Some j \<Longrightarrow> in_flight (wd_pc w q) = Some j \<and> q \<noteq> p \<and> j < ?n" for q j
    using D(1) [of q j] in_flight_intent [of "wd_pc w q" j] by (cases "q = p") auto
  have mine: "row_of_call (calls p) (new_intent (gc_reservation (calls p)) json now)"
    by (auto simp: row_of_call_def new_intent_def intent_identity_def reservation_identity_def)
  show "j < length (wd_table ?w) \<and> row_of_call (calls q) (wd_table ?w ! j)" if "intent_of (wd_pc ?w q) = Some j" for q j
    using that D(1) [of q j] mine old [of j] by (cases "q = p") auto
  show "q = q'" if "in_flight (wd_pc ?w q) = Some j" "in_flight (wd_pc ?w q') = Some j" for q q' j
    using fl [OF that(1)] fl [OF that(2)] D(2) by blast
  show "\<not> may_write (wd_table ?w ! j)" if "in_flight (wd_pc ?w q) = Some j" for q j
    using fl [OF that] D(3) [of q j] old [of j] by simp
  show "counted ?w j = []" if "j < length (wd_table ?w)" "may_write (wd_table ?w ! j)" for j
  proof (cases "j < ?n")
    case True
    then show ?thesis using that D(4) [of j] old [of j] unfolding cnt by simp
  next
    case False
    then show ?thesis using D(8) unfolding cnt by (fastforce simp: counted_def counts_def filter_empty_conv)
  qed
  have old_pc: "wd_pc w q = pc" if "wd_pc ?w q = pc" "in_flight pc \<noteq> None" for q pc
    using that fl [of q "the (in_flight pc)"] by (cases "q = p") auto
  show "counted ?w j = []" if "wd_pc ?w q = Write j facts" for q j facts
    using D(5) [OF old_pc [OF that]] unfolding cnt by simp
  show "counted ?w j = []" if "wd_pc ?w q = Finish j outcome" "definitely_rejected outcome"
      "it_operation (wd_table ?w ! j) = ''cancel_position_sltp''" for q j outcome
  proof -
    have pc: "wd_pc w q = Finish j outcome" using old_pc [OF that(1)] by simp
    then have "j < ?n" using D(1) [of q j] by simp
    then show ?thesis using D(6) [OF pc that(2)] that(3) old [of j] unfolding cnt by simp
  qed
  show "length (counted ?w j) \<le> 1" for j unfolding cnt by (rule D(7))
  show "ew_intent x < length (wd_table ?w)" if "x \<in> set (wd_writes ?w)" for x using that D(8) [of x] by simp
  show "distinct (map it_idempotency_key (wd_table ?w))"
    using D(9) new by (auto simp: violates_unique_def list_ex_iff same_key_def)
qed

text \<open>A write.\<close>

lemma world_ok_write:
  assumes ok: "world_ok calls w" and pc: "wd_pc w p = Write i facts"
    and x: "ew_intent x = i" "ew_outcome x = outcome"
  shows "world_ok calls \<lparr>wd_table = wd_table w, wd_pc = (wd_pc w)(p := Finish i outcome), wd_writes = wd_writes w @ [x]\<rparr>"
    (is "world_ok calls ?w")
proof (rule world_okI)
  note D = world_okD [OF ok]
  have cnt: "counted ?w j = counted w j @ (if counts (wd_table w) j x then [x] else [])" for j by (simp add: counted_def)
  have other: "counted ?w j = counted w j" if "j \<noteq> i" for j using that x(1) by (simp add: cnt counts_def)
  have i: "intent_of (wd_pc w p) = Some i" "in_flight (wd_pc w p) = Some i" by (simp_all add: pc)
  have fl: "in_flight (wd_pc ?w q) = Some j \<longleftrightarrow> in_flight (wd_pc w q) = Some j" for q j using pc by (cases "q = p") simp_all
  show "j < length (wd_table ?w) \<and> row_of_call (calls q) (wd_table ?w ! j)" if "intent_of (wd_pc ?w q) = Some j" for q j
    using that D(1) [of q j] D(1) [OF i(1)] by (cases "q = p") simp_all
  show "q = q'" if "in_flight (wd_pc ?w q) = Some j" "in_flight (wd_pc ?w q') = Some j" for q q' j
    using that D(2) unfolding fl by blast
  show "\<not> may_write (wd_table ?w ! j)" if "in_flight (wd_pc ?w q) = Some j" for q j using that D(3) [of q j] unfolding fl by simp
  show "counted ?w j = []" if "j < length (wd_table ?w)" "may_write (wd_table ?w ! j)" for j
  proof -
    have "j \<noteq> i" using that D(3) [OF i(2)] by auto
    then show ?thesis using that D(4) [of j] other by simp
  qed
  show "counted ?w j = []" if "wd_pc ?w q = Write j facts'" for q j facts'
  proof -
    have q: "q \<noteq> p" "wd_pc w q = Write j facts'" using that by (cases "q = p"; simp)+
    then have "j \<noteq> i" using D(2) [OF _ i(2), of q] by auto
    then show ?thesis using q D(5) [of q j facts'] other by simp
  qed
  show "counted ?w j = []" if a: "wd_pc ?w q = Finish j outcome'" "definitely_rejected outcome'"
      "it_operation (wd_table ?w ! j) = ''cancel_position_sltp''" for q j outcome'
  proof (cases "q = p")
    case True
    then have "j = i" "outcome' = outcome" using a(1) by simp_all
    then show ?thesis using a(2,3) x D(5) [OF pc] by (simp add: cnt counts_def)
  next
    case False
    then have q: "wd_pc w q = Finish j outcome'" using a(1) by simp
    then have "j \<noteq> i" using D(2) [OF _ i(2), of q] False by auto
    then show ?thesis using q a D(6) [of q j outcome'] other by simp
  qed
  show "length (counted ?w j) \<le> 1" for j
  proof (cases "j = i")
    case True
    then show ?thesis using D(5) [OF pc] by (simp add: cnt)
  next
    case False
    then show ?thesis using other [of j] D(7) [of j] by simp
  qed
  show "ew_intent y < length (wd_table ?w)" if "y \<in> set (wd_writes ?w)" for y using that D(8) [of y] D(1) [OF i(1)] x(1) by auto
  show "distinct (map it_idempotency_key (wd_table ?w))" using D(9) by simp
qed

section \<open>Every step keeps the invariant\<close>

lemma after_transition_cases:
  assumes "after_transition (transition_position_mutation_intent i expected new_status now response error t) moved missed = (pc', t')"
  obtains (stayed) "t' = t" "pc' = missed \<or> (\<exists>e. pc' = Raised e)"
  | (went) a b where "i < length t" "it_status (t ! i) \<in> set expected" "pc' = moved"
      "t' = t[i := transitioned_intent new_status now a b (t ! i)]"
proof -
  obtain r u where u: "transition_position_mutation_intent i expected new_status now response error t = (r, u)" by (metis surj_pair)
  from u show ?thesis
  proof (cases rule: transition_cases)
    case (raised e)
    then show ?thesis using assms u by (intro stayed) (auto simp: after_transition_def)
  next
    case missed
    then show ?thesis using assms u by (intro stayed) (simp_all add: after_transition_def)
  next
    case (moved a b)
    then show ?thesis using assms u by (intro went [of a b]) (simp_all add: after_transition_def)
  qed
qed

text \<open>The steps that only read.\<close>

definition reads_only :: "pc \<Rightarrow> bool" where
  "reads_only pc \<longleftrightarrow> (case pc of
       Insert \<Rightarrow> False | Rearm i r \<Rightarrow> False | Block i reason \<Rightarrow> False | Submit i facts \<Rightarrow> False | Write i facts \<Rightarrow> False
     | Finish i outcome \<Rightarrow> False | _ \<Rightarrow> True)"

lemma report_pc: "intent_of (report t i) = None" "in_flight (report t i) = None" "report t i \<noteq> Write j facts"
  by (auto simp: report_def split: sum.splits)

lemma start_call_pc: "intent_of (start_call call t i) \<in> {None, Some i}" "in_flight (start_call call t i) = None"
  by (auto simp: start_call_def Let_def split: sum.splits option.splits)

lemma reads_only_step:
  assumes "gateway_step sha call ans pc t = ((pc', t'), write)" "reads_only pc"
  shows "t' = t" "write = None" "in_flight pc' = None"
    "intent_of pc' = Some j \<Longrightarrow> intent_of pc = Some j \<or> j < length t \<and> row_of_call call (t ! j)"
proof -
  have *: "t' = t \<and> write = None \<and> in_flight pc' = None
      \<and> (intent_of pc' = Some j \<longrightarrow> intent_of pc = Some j \<or> j < length t \<and> row_of_call call (t ! j))" for j
  proof (cases pc)
    case Lookup
    with assms(1) show ?thesis
      by (auto simp: gateway_step_def Let_def row_of_call_def dest: reserve_lookup_Some split: sum.splits option.splits)
  next
    case (Start i)
    with assms(1) start_call_pc [of call t i] show ?thesis by (auto simp: gateway_step_def Let_def)
  next
    case (Recheck i)
    with assms(1) report_pc [of t i] show ?thesis by (auto simp: gateway_step_def Let_def split: if_splits)
  next
    case (Report i)
    with assms(1) report_pc [of t i] show ?thesis by (auto simp: gateway_step_def Let_def)
  next
    case (Validate i)
    with assms(1) show ?thesis by (auto simp: gateway_step_def Let_def split: sum.splits option.splits)
  next
    case (Hook i)
    with assms(1) show ?thesis by (auto simp: gateway_step_def Let_def split: option.splits if_splits)
  next
    case (Check i)
    with assms(1) show ?thesis by (auto simp: gateway_step_def Let_def split: if_splits)
  qed (use assms in \<open>auto simp: reads_only_def gateway_step_def Let_def\<close>)
  from * show "t' = t" "write = None" "in_flight pc' = None" by blast+
  from * show "intent_of pc' = Some j \<Longrightarrow> intent_of pc = Some j \<or> j < length t \<and> row_of_call call (t ! j)" by blast
qed

text \<open>A process that leaves the flight, or only loses a transition, moves nothing but itself.\<close>

lemma world_ok_stay:
  assumes "world_ok calls w" "pc' = Report i \<or> pc' = Done r \<or> (\<exists>e. pc' = Raised e)" "intent_of (wd_pc w p) = Some i"
  shows "world_ok calls \<lparr>wd_table = wd_table w, wd_pc = (wd_pc w)(p := pc'), wd_writes = wd_writes w\<rparr>"
  using assms(2) world_okD(1) [OF assms(1,3)] by (intro world_ok_pc [OF assms(1)]) auto

lemma no_flight:
  assumes "world_ok calls w" "may_write (wd_table w ! i)"
  shows "in_flight (wd_pc w q) \<noteq> Some i"
  using world_okD(3) [OF assms(1)] assms(2) by blast

text \<open>A process moves an open row on: to the write, out of the way, or back to the start.\<close>

lemma world_ok_open:
  assumes ok: "world_ok calls w" and p: "intent_of (wd_pc w p) = Some i" and opened: "may_write (wd_table w ! i)"
    and r': "same_row (wd_table w ! i) r'"
    and pc': "pc' = Write i facts \<and> \<not> may_write r' \<or> pc' = Recheck i \<or> intent_of pc' = None"
  shows "world_ok calls \<lparr>wd_table = (wd_table w)[i := r'], wd_pc = (wd_pc w)(p := pc'), wd_writes = wd_writes w\<rparr>"
proof (rule world_ok_update [OF ok r'])
  show i: "i < length (wd_table w)" using world_okD(1) [OF ok p] by simp
  have none: "in_flight pc' = None \<or> pc' = Write i facts \<and> \<not> may_write r'"
    using pc' in_flight_intent by (cases "in_flight pc'") fastforce+
  show "j < length (wd_table w) \<and> row_of_call (calls p) (wd_table w ! j)" if "intent_of pc' = Some j" for j
    using that pc' world_okD(1) [OF ok p] by auto
  show "counted w i = [] \<and> (\<forall>q. q \<noteq> p \<longrightarrow> in_flight (wd_pc w q) \<noteq> Some i) \<and> in_flight pc' \<noteq> Some i" if "may_write r'"
    using that none no_flight [OF ok opened] world_okD(4) [OF ok i opened] by auto
  show "pc' = wd_pc w p \<or> j = i \<and> counted w i = [] \<and> (\<forall>q. q \<noteq> p \<longrightarrow> in_flight (wd_pc w q) \<noteq> Some i) \<and> (\<exists>facts. pc' = Write i facts)"
    if "in_flight pc' = Some j" for j
    using that none no_flight [OF ok opened] world_okD(4) [OF ok i opened] by auto
qed

lemma may_write_status:
  "it_status r = ''reserved'' \<Longrightarrow> may_write r"
  "it_status r = ''rejected'' \<Longrightarrow> it_operation r = ''cancel_position_sltp'' \<Longrightarrow> may_write r"
  "it_status r \<in> {''submitting'', ''submitted'', ''recovery_required'', ''confirmed''} \<Longrightarrow> \<not> may_write r"
  by (auto simp: may_write_def never_submitted_intent_statuses_def)

text \<open>The process that wrote records the answer.\<close>

lemma world_ok_finish:
  assumes ok: "world_ok calls w" and p: "wd_pc w p = Finish i outcome" and f: "finish_call i outcome = (status, response, error, result)"
  shows "world_ok calls \<lparr>wd_table = (wd_table w)[i := transitioned_intent status now a b (wd_table w ! i)],
    wd_pc = (wd_pc w)(p := Done result), wd_writes = wd_writes w\<rparr>"
proof (rule world_ok_update [OF ok same_row_transitioned])
  let ?r = "transitioned_intent status now a b (wd_table w ! i)"
  have i: "intent_of (wd_pc w p) = Some i" "in_flight (wd_pc w p) = Some i" by (simp_all add: p)
  show "i < length (wd_table w)" using world_okD(1) [OF ok i(1)] by simp
  show "counted w i = [] \<and> (\<forall>q. q \<noteq> p \<longrightarrow> in_flight (wd_pc w q) \<noteq> Some i) \<and> in_flight (Done result) \<noteq> Some i" if "may_write ?r"
  proof -
    have "definitely_rejected outcome" "it_operation (wd_table w ! i) = ''cancel_position_sltp''"
      using f that by (auto simp: finish_call_def definitely_rejected_def may_write_def never_submitted_intent_statuses_def
          split: write_outcome.splits)
    with world_okD(6) [OF ok p] world_okD(2) [OF ok i(2)] show ?thesis by auto
  qed
qed simp_all

text \<open>An action of the reconciliation.\<close>

lemma world_ok_env:
  assumes ok: "world_ok calls w" and i: "i < length (wd_table w)" and r': "same_row (wd_table w ! i) r'"
    and opens: "may_write r' \<Longrightarrow> may_write (wd_table w ! i)"
  shows "world_ok calls (w\<lparr>wd_table := (wd_table w)[i := r']\<rparr>)"
proof -
  have w: "w\<lparr>wd_table := (wd_table w)[i := r']\<rparr>
      = \<lparr>wd_table = (wd_table w)[i := r'], wd_pc = (wd_pc w)(0 := wd_pc w 0), wd_writes = wd_writes w\<rparr>" by simp
  show ?thesis
    unfolding w using no_flight [OF ok opens] world_okD(4) [OF ok i opens]
    by (intro world_ok_update [OF ok r' i] world_okD(1) [OF ok]) auto
qed

text \<open>Only a cancel arms its intent again.\<close>

definition rearms_cancels :: "(nat \<Rightarrow> gateway_call) \<Rightarrow> world \<Rightarrow> bool" where
  "rearms_cancels calls w \<longleftrightarrow> (\<forall>p i r. wd_pc w p = Rearm i r \<longrightarrow> gc_operation (calls p) = ''cancel_position_sltp'')"

lemma row_of_call_operation: "row_of_call call r \<Longrightarrow> it_operation r = gc_operation call"
  by (auto simp: row_of_call_def intent_identity_def reservation_identity_def)

lemma world_ok_process:
  assumes ok: "world_ok calls w" and rearms: "rearms_cancels calls w" and g: "gateway_step sha (calls p) ans (wd_pc w p) (wd_table w) = ((pc', t'), write)"
  shows "world_ok calls \<lparr>wd_table = t', wd_pc = (wd_pc w)(p := pc'), wd_writes = wd_writes w @ (case write of None \<Rightarrow> []
        | Some (i, facts, outcome) \<Rightarrow> [\<lparr>ew_process = p, ew_intent = i, ew_facts = facts, ew_outcome = outcome\<rparr>])\<rparr>"
proof (cases "reads_only (wd_pc w p)")
  case True
  note R = reads_only_step [OF g True]
  show ?thesis
    unfolding R(1,2) option.case append_Nil2
    using R(3,4) world_okD(1) [OF ok] by (intro world_ok_pc [OF ok]) blast+
next
  case False
  then consider (Insert) "wd_pc w p = Insert" | (Rearm) i r where "wd_pc w p = Rearm i r"
    | (Block) i reason where "wd_pc w p = Block i reason" | (Submit) i facts where "wd_pc w p = Submit i facts"
    | (Write) i facts where "wd_pc w p = Write i facts" | (Finish) i outcome where "wd_pc w p = Finish i outcome"
    unfolding reads_only_def by (cases "wd_pc w p") auto
  then show ?thesis
  proof cases
    case Insert
    obtain r u where u: "reserve_insert (gc_reservation (calls p)) (an_now ans) (wd_table w) = (r, u)" by (metis surj_pair)
    with g Insert have s: "pc' = (case r of Inl e \<Rightarrow> Raised e | Inr i \<Rightarrow> Start i)" "t' = u" "write = None"
      by (simp_all add: gateway_step_def Let_def)
    from u show ?thesis
    proof (cases rule: reserve_insert_cases)
      case (raised e)
      with s show ?thesis by (auto intro: world_ok_pc [OF ok])
    next
      case (found i)
      have "(wd_table w ! i)\<lparr>it_order_id := it_order_id (wd_table w ! i)\<rparr> = wd_table w ! i" by simp
      with found(4) have "row_of_call (calls p) (wd_table w ! i)" unfolding row_of_call_def by metis
      with found s show ?thesis by (auto intro: world_ok_pc [OF ok])
    next
      case (inserted json)
      with s world_ok_insert [OF ok inserted(3)] show ?thesis by simp
    qed
  next
    case (Rearm i r)
    have p: "intent_of (wd_pc w p) = Some i" by (simp add: Rearm)
    from g Rearm have a: "after_transition (transition_position_mutation_intent i [''rejected''] ''reserved'' (an_now ans) None None (wd_table w))
        (Recheck i) (Done r) = (pc', t')" "write = None" by (simp_all add: gateway_step_def Let_def)
    from a(1) show ?thesis
    proof (cases rule: after_transition_cases)
      case stayed
      with world_ok_stay [OF ok _ p, of pc'] a(2) show ?thesis by auto
    next
      case (went x y)
      have "it_operation (wd_table w ! i) = ''cancel_position_sltp''"
        using row_of_call_operation world_okD(1) [OF ok p] rearms Rearm by (auto simp: rearms_cancels_def)
      then have "may_write (wd_table w ! i)" using went(2) may_write_status(2) by simp
      with went world_ok_open [OF ok p _ same_row_transitioned, of pc'] a(2) show ?thesis by simp
    qed
  next
    case (Block i reason)
    have p: "intent_of (wd_pc w p) = Some i" by (simp add: Block)
    from g Block have a: "after_transition
        (transition_position_mutation_intent i [''reserved''] ''blocked'' (an_now ans) None (Some [(''reason'', PyStr reason)]) (wd_table w))
        (Done \<lparr>gr_status = ''blocked'', gr_reason = Some reason, gr_intent_id = i, gr_response = None\<rparr>) (Report i) = (pc', t')"
      "write = None" by (simp_all add: gateway_step_def Let_def)
    from a(1) show ?thesis
    proof (cases rule: after_transition_cases)
      case stayed
      with world_ok_stay [OF ok _ p, of pc'] a(2) show ?thesis by auto
    next
      case (went x y)
      with world_ok_open [OF ok p may_write_status(1) same_row_transitioned, of pc'] a(2) show ?thesis by simp
    qed
  next
    case (Submit i facts)
    have p: "intent_of (wd_pc w p) = Some i" by (simp add: Submit)
    from g Submit have a: "after_transition
        (transition_position_mutation_intent i [''reserved''] ''submitting'' (an_now ans) None None (wd_table w))
        (Write i facts) (Report i) = (pc', t')" "write = None" by (simp_all add: gateway_step_def Let_def)
    from a(1) show ?thesis
    proof (cases rule: after_transition_cases)
      case stayed
      with world_ok_stay [OF ok _ p, of pc'] a(2) show ?thesis by auto
    next
      case (went x y)
      with world_ok_open [OF ok p may_write_status(1) same_row_transitioned, of pc' facts] a(2) may_write_status(3) show ?thesis by simp
    qed
  next
    case (Write i facts)
    with g have "pc' = Finish i (an_outcome ans)" "t' = wd_table w" "write = Some (i, facts, an_outcome ans)"
      by (simp_all add: gateway_step_def Let_def)
    with world_ok_write [OF ok Write] show ?thesis by simp
  next
    case (Finish i outcome)
    have p: "intent_of (wd_pc w p) = Some i" by (simp add: Finish)
    obtain status response error result where f: "finish_call i outcome = (status, response, error, result)" by (metis surj_pair)
    with g Finish have a: "after_transition
        (transition_position_mutation_intent i [''submitting''] status (an_now ans) response error (wd_table w)) (Done result) (Report i)
        = (pc', t')" "write = None" by (simp_all add: gateway_step_def Let_def split: prod.splits)
    from a(1) show ?thesis
    proof (cases rule: after_transition_cases)
      case stayed
      with world_ok_stay [OF ok _ p, of pc'] a(2) show ?thesis by auto
    next
      case (went x y)
      with world_ok_finish [OF ok Finish f] a(2) show ?thesis by simp
    qed
  qed
qed

end
