(* ===== verification/Gateway_Soundness.thy ===== *)
theory Gateway_Soundness
  imports Gateway_Runs
begin

text \<open>
  What the gateway guarantees in every world its processes can reach: at most one write per key, no
  write behind a "nothing was submitted", no write without its checks; and that a call ends.
\<close>

lemma step_to_rearm:
  assumes "gateway_step sha call ans pc t = ((Rearm i r, t'), write)"
  shows "gc_operation call = ''cancel_position_sltp'' \<or> pc = Rearm i r"
proof -
  have report: "report u j \<noteq> Rearm i r" for u j by (auto simp: report_def split: sum.splits)
  have after: "after_transition rt moved missed = (Rearm i r, t'') \<Longrightarrow> moved = Rearm i r \<or> missed = Rearm i r" for rt moved missed t''
    by (auto simp: after_transition_def split: prod.splits sum.splits bool.splits)
  have start: "start_call call u j = Rearm i r \<Longrightarrow> gc_operation call = ''cancel_position_sltp''" for u j
    by (auto simp: start_call_def Let_def split: sum.splits option.splits if_splits)
  show ?thesis
    using assms report report [symmetric] start
    by (cases pc) (auto simp: gateway_step_def Let_def finish_call_def dest!: after
        split: sum.splits option.splits if_splits prod.splits write_outcome.splits)
qed

lemma reconciled_no_write:
  "\<not> may_write (confirmed_row order_id json now r)"
  "it_operation r = ''close_position'' \<Longrightarrow> \<not> may_write (rejected_row order_id json now r)"
  by (simp_all add: may_write_def confirmed_row_def rejected_row_def never_submitted_intent_statuses_def)

lemma world_ok_step:
  assumes "world_step sha calls w w'" "world_ok calls w \<and> rearms_cancels calls w"
  shows "world_ok calls w' \<and> rearms_cancels calls w'"
  using assms
proof (cases rule: world_step.cases)
  case (process p ans pc' t' wr)
  have "rearms_cancels calls w'"
    using assms(2) step_to_rearm [of sha "calls p" ans "wd_pc w p" "wd_table w"] process
    by (auto simp: rearms_cancels_def)
  with world_ok_process [where calls = calls and w = w and p = p, OF _ _ process(2)] assms(2) process(1) show ?thesis by simp
next
  case (crash p)
  have "w' = \<lparr>wd_table = wd_table w, wd_pc = (wd_pc w)(p := Dead), wd_writes = wd_writes w\<rparr>" by (simp add: crash)
  with world_ok_pc [of calls w Dead p] assms(2) show ?thesis by (simp add: rearms_cancels_def)
next
  case (confirm i order_id json now)
  have "world_ok calls w'"
    unfolding confirm(1)
  proof (rule world_ok_env)
    show "i < length (wd_table w)" using confirm by blast
  qed (use assms(2) in \<open>simp_all add: reconciled_no_write\<close>)
  then show ?thesis using assms(2) confirm by (simp add: rearms_cancels_def)
next
  case (reject i order_id json now)
  have "world_ok calls w'"
    unfolding reject(1)
  proof (rule world_ok_env)
    show "i < length (wd_table w)" using reject by blast
  qed (use assms(2) reject(3) in \<open>simp_all add: reconciled_no_write\<close>)
  then show ?thesis using assms(2) reject by (simp add: rearms_cancels_def)
next
  case (block i now error r t')
  from block(2) have "world_ok calls w'"
  proof (cases rule: transition_cases)
    case (moved a b)
    have "world_ok calls (w\<lparr>wd_table := (wd_table w)[i := transitioned_intent ''blocked'' now a b (wd_table w ! i)]\<rparr>)"
      using assms(2) moved may_write_status(1) by (intro world_ok_env) simp_all
    then show ?thesis using moved block(1) by simp
  qed (use assms(2) block(1) in simp_all)
  then show ?thesis using assms(2) block(1) by (simp add: rearms_cancels_def)
qed

lemma reachable_world_ok: "reachable_world sha calls w \<Longrightarrow> world_ok calls w \<and> rearms_cancels calls w"
proof (induction rule: reachable_world.induct)
  case initially
  have "world_ok calls initial_world" by (rule world_okI) (simp_all add: initial_world_def counted_def)
  then show ?case by (simp add: rearms_cancels_def initial_world_def)
next
  case (later w w')
  then show ?case using world_ok_step by blast
qed

section \<open>At most one write\<close>

text \<open>
  Claim C1: whatever the processes, their deaths and the reconciliation do, the exchange is written to
  at most once for one idempotency key, not counting cancels it definitely rejected.
\<close>

theorem one_write_per_key:
  assumes "reachable_world sha calls w"
  shows "length (filter (\<lambda>x. it_idempotency_key (wd_table w ! ew_intent x) = key
      \<and> \<not> (it_operation (wd_table w ! ew_intent x) = ''cancel_position_sltp'' \<and> definitely_rejected (ew_outcome x))) (wd_writes w)) \<le> 1"
proof -
  from reachable_world_ok [OF assms] have ok: "world_ok calls w" by blast
  show ?thesis
  proof (cases "\<exists>i < length (wd_table w). it_idempotency_key (wd_table w ! i) = key")
    case True
    then obtain i where i: "i < length (wd_table w)" "it_idempotency_key (wd_table w ! i) = key" by blast
    have only: "ew_intent x = i" if "x \<in> set (wd_writes w)" "it_idempotency_key (wd_table w ! ew_intent x) = key" for x
    proof -
      have "ew_intent x < length (wd_table w)" using world_okD(8) [OF ok that(1)] .
      then show ?thesis using nth_eq_iff_index_eq [OF world_okD(9) [OF ok], of "ew_intent x" i] i that(2) by simp
    qed
    have "filter (\<lambda>x. it_idempotency_key (wd_table w ! ew_intent x) = key
      \<and> \<not> (it_operation (wd_table w ! ew_intent x) = ''cancel_position_sltp'' \<and> definitely_rejected (ew_outcome x))) (wd_writes w)
      = counted w i"
      unfolding counted_def counts_def using only i(2) by (intro filter_cong) auto
    then show ?thesis using world_okD(7) [OF ok] by simp
  next
    case False
    then have none: "\<not> it_idempotency_key (wd_table w ! ew_intent x) = key" if "x \<in> set (wd_writes w)" for x
      using world_okD(8) [OF ok that] by blast
    then have "filter (\<lambda>x. it_idempotency_key (wd_table w ! ew_intent x) = key
      \<and> \<not> (it_operation (wd_table w ! ew_intent x) = ''cancel_position_sltp'' \<and> definitely_rejected (ew_outcome x))) (wd_writes w) = []"
      by (simp add: filter_empty_conv)
    then show ?thesis by simp
  qed
qed

section \<open>What "never submitted" means\<close>

lemma done_status:
  assumes "gateway_step sha call ans pc t = ((Done r, t'), write)" "\<And>q. pc \<noteq> Done q" "gr_status r \<in> set never_submitted_intent_statuses"
    and rearm: "\<And>i q. pc = Rearm i q \<Longrightarrow> gr_status q = ''rejected''"
  shows "write = None \<and> gr_intent_id r < length t' \<and> it_status (t' ! gr_intent_id r) = gr_status r"
proof -
  have ir: "intent_result u i = Inr q \<Longrightarrow> gr_intent_id q = i \<and> i < length u \<and> gr_status q = it_status (u ! i)" for u i q
    by (auto simp: intent_result_def Let_def split: if_splits)
  have rep: "report u i = Done q \<Longrightarrow> gr_intent_id q = i \<and> i < length u \<and> gr_status q = it_status (u ! i)" for u i q
    by (auto simp: report_def dest: ir split: sum.splits)
  have st: "start_call call u i = Done q \<Longrightarrow> gr_intent_id q = i \<and> i < length u \<and> gr_status q = it_status (u ! i)" for u i q
    by (auto simp: start_call_def Let_def dest: ir split: sum.splits option.splits if_splits)
  show ?thesis
  proof (cases pc)
    case (Start i)
    with assms(1) st [of t i r] show ?thesis by (auto simp: gateway_step_def Let_def)
  next
    case (Recheck i)
    with assms(1) rep [of t i r] show ?thesis by (auto simp: gateway_step_def Let_def split: if_splits)
  next
    case (Report i)
    with assms(1) rep [of t i r] show ?thesis by (auto simp: gateway_step_def Let_def)
  next
    case (Rearm i q)
    with assms(1) have a: "after_transition (transition_position_mutation_intent i [''rejected''] ''reserved'' (an_now ans) None None t)
        (Recheck i) (Done q) = (Done r, t')" by (simp add: gateway_step_def Let_def)
    then have "r = q" by (cases rule: after_transition_cases) auto
    with rearm [OF Rearm] assms(3) show ?thesis by (simp add: never_submitted_intent_statuses_def)
  next
    case (Block i reason)
    with assms(1) have a: "after_transition
        (transition_position_mutation_intent i [''reserved''] ''blocked'' (an_now ans) None (Some [(''reason'', PyStr reason)]) t)
        (Done \<lparr>gr_status = ''blocked'', gr_reason = Some reason, gr_intent_id = i, gr_response = None\<rparr>) (Report i) = (Done r, t')"
      "write = None" by (simp_all add: gateway_step_def Let_def)
    from a(1) show ?thesis using a(2) by (cases rule: after_transition_cases) auto
  next
    case (Submit i facts)
    with assms(1) have a: "after_transition (transition_position_mutation_intent i [''reserved''] ''submitting'' (an_now ans) None None t)
        (Write i facts) (Report i) = (Done r, t')" by (simp add: gateway_step_def Let_def)
    then show ?thesis by (cases rule: after_transition_cases) auto
  next
    case (Finish i outcome)
    obtain status response error result where f: "finish_call i outcome = (status, response, error, result)" by (metis surj_pair)
    with Finish assms(1) have a: "after_transition
        (transition_position_mutation_intent i [''submitting''] status (an_now ans) response error t) (Done result) (Report i)
        = (Done r, t')" by (simp add: gateway_step_def Let_def split: prod.splits)
    then have "r = result" by (cases rule: after_transition_cases) auto
    with f assms(3) show ?thesis by (auto simp: finish_call_def never_submitted_intent_statuses_def split: write_outcome.splits)
  next
    case (Done q)
    with assms(2) show ?thesis by blast
  qed (use assms(1) in \<open>auto simp: gateway_step_def Let_def split: sum.splits option.splits if_splits prod.splits\<close>)
qed

lemma rearm_holds_rejected:
  assumes "reachable_world sha calls w" "wd_pc w p = Rearm i q"
  shows "gr_status q = ''rejected''"
  using assms
proof (induction arbitrary: p i q rule: reachable_world.induct)
  case (later w w')
  have start: "start_call call u j = Rearm i q \<Longrightarrow> gr_status q = ''rejected''" for call u j
    by (auto simp: start_call_def Let_def split: sum.splits option.splits if_splits)
  have report: "report u j \<noteq> Rearm i q" for u j by (auto simp: report_def split: sum.splits)
  have after: "after_transition rt moved missed = (Rearm i q, t'') \<Longrightarrow> moved = Rearm i q \<or> missed = Rearm i q" for rt moved missed t''
    by (auto simp: after_transition_def split: prod.splits sum.splits bool.splits)
  have step: "gr_status q = ''rejected'' \<or> pc = Rearm i q" if "gateway_step sha call ans pc t = ((Rearm i q, t'), wr)" for call ans pc t t' wr
    using that start report report [symmetric]
    by (cases pc) (auto simp: gateway_step_def Let_def finish_call_def dest!: after
        split: sum.splits option.splits if_splits prod.splits write_outcome.splits)
  from later.hyps(2) show ?case
  proof (cases rule: world_step.cases)
    case (process r ans pc' t' wr)
    then show ?thesis using later.IH later.prems step [of "calls r" ans "wd_pc w r" "wd_table w"] by (cases "p = r") auto
  next
    case (crash r)
    then show ?thesis using later.IH later.prems by (cases "p = r") auto
  qed (use later in auto)
qed (simp add: initial_world_def)

text \<open>
  Claim C11: when a call ends with the error that nothing was submitted, the exchange has not been
  written to for its intent, apart from cancels it definitely rejected.
\<close>

theorem never_submitted_is_definite:
  assumes "reachable_world sha calls w" "\<And>q. wd_pc w p \<noteq> Done q"
    and "gateway_step sha (calls p) ans (wd_pc w p) (wd_table w) = ((Done r, t'), write)"
    and "require_submitted_response r = Inl (PositionMutationAuthorityError message)"
  shows "write = None \<and> (\<forall>x \<in> set (wd_writes w). ew_intent x = gr_intent_id r \<longrightarrow>
      it_operation (t' ! ew_intent x) = ''cancel_position_sltp'' \<and> definitely_rejected (ew_outcome x))"
proof -
  have never: "gr_status r \<in> set never_submitted_intent_statuses"
    using assms(4) by (auto simp: require_submitted_response_def authority_error_def Let_def split: if_splits)
  from done_status [OF assms(3,2) never] rearm_holds_rejected [OF assms(1)]
  have d: "write = None" "gr_intent_id r < length t'" "it_status (t' ! gr_intent_id r) = gr_status r" by blast+
  let ?w = "\<lparr>wd_table = t', wd_pc = (wd_pc w)(p := Done r), wd_writes = wd_writes w\<rparr>"
  from reachable_world_ok [OF assms(1)] have ok: "world_ok calls w" and rearms: "rearms_cancels calls w" by blast+
  from world_ok_process [where calls = calls and w = w and p = p, OF ok rearms assms(3)] d(1) have "world_ok calls ?w" by simp
  moreover have "may_write (wd_table ?w ! gr_intent_id r)" using d(3) never by (simp add: may_write_def)
  ultimately have "counted ?w (gr_intent_id r) = []" using world_okD(4) d(2) by (metis world.select_convs(1))
  then show ?thesis using d(1) by (auto simp: counted_def counts_def filter_empty_conv)
qed

section \<open>Only authorized writes\<close>

definition checked :: "(string \<Rightarrow> string) \<Rightarrow> gateway_call \<Rightarrow> pc \<Rightarrow> bool" where
  "checked sha call pc \<longleftrightarrow> (\<forall>i facts. pc = Submit i facts \<or> pc = Write i facts \<longrightarrow> prewrite_reason sha call facts = None)"

lemma same_row_refl: "same_row r r"
  using same_row_simps(4) unfolding same_row_def intent_identity_def by (auto intro: exI [of _ "it_order_id r"])

lemma checked_moves:
  assumes "after_transition (transition_position_mutation_intent i expected s now a b t) moved missed = (pc', t')"
    "checked sha call moved" "checked sha call missed"
  shows "checked sha call pc'"
  using assms(1) by (cases rule: after_transition_cases) (use assms(2,3) in \<open>auto simp: checked_def\<close>)

lemma checked_simps [simp]:
  "checked sha call (Recheck i)" "checked sha call (Done r)" "checked sha call (Raised e)" "checked sha call (Report i)"
  "checked sha call Insert" "checked sha call (Start i)" "checked sha call (Check i)" "checked sha call (Hook i)"
  "checked sha call (Validate i)" "checked sha call (Block i reason)" "checked sha call (Finish i outcome)"
  "checked sha call (Write i facts) \<longleftrightarrow> prewrite_reason sha call facts = None"
  "checked sha call (Submit i facts) \<longleftrightarrow> prewrite_reason sha call facts = None"
  "checked sha call (report t i)" "checked sha call (start_call call' t i)"
  by (auto simp: checked_def report_def start_call_def Let_def split: sum.splits option.splits if_splits)

lemma checked_step:
  assumes "gateway_step sha call ans pc t = ((pc', t'), wr)" "checked sha call pc"
  shows "checked sha call pc'"
proof (cases pc)
  case (Rearm i r)
  with assms(1) have "after_transition (transition_position_mutation_intent i [''rejected''] ''reserved'' (an_now ans) None None t)
      (Recheck i) (Done r) = (pc', t')" by (simp add: gateway_step_def Let_def)
  then show ?thesis by (rule checked_moves) simp_all
next
  case (Block i reason)
  with assms(1) have "after_transition
      (transition_position_mutation_intent i [''reserved''] ''blocked'' (an_now ans) None (Some [(''reason'', PyStr reason)]) t)
      (Done \<lparr>gr_status = ''blocked'', gr_reason = Some reason, gr_intent_id = i, gr_response = None\<rparr>) (Report i) = (pc', t')"
    by (simp add: gateway_step_def Let_def)
  then show ?thesis by (rule checked_moves) simp_all
next
  case (Submit i facts)
  with assms(1) have "after_transition (transition_position_mutation_intent i [''reserved''] ''submitting'' (an_now ans) None None t)
      (Write i facts) (Report i) = (pc', t')" by (simp add: gateway_step_def Let_def)
  then show ?thesis by (rule checked_moves) (use assms(2) Submit in simp_all)
next
  case (Finish i outcome)
  obtain status response error result where f: "finish_call i outcome = (status, response, error, result)" by (metis surj_pair)
  with Finish assms(1) have "after_transition
      (transition_position_mutation_intent i [''submitting''] status (an_now ans) response error t) (Done result) (Report i)
      = (pc', t')" by (simp add: gateway_step_def Let_def)
  then show ?thesis by (rule checked_moves) simp_all
qed (use assms in \<open>auto simp: gateway_step_def Let_def split: sum.splits option.splits prod.splits\<close>)

lemma table_step:
  assumes "gateway_step sha call ans pc t = ((pc', t'), wr)" "i < length t"
  shows "i < length t' \<and> same_row (t ! i) (t' ! i)"
proof -
  have tr: "i < length t' \<and> same_row (t ! i) (t' ! i)"
    if "after_transition (transition_position_mutation_intent j expected s now a b t) moved missed = (q, t')"
    for j expected s now a b moved missed q
    using that
    by (cases rule: after_transition_cases) (use assms(2) same_row_refl in \<open>simp_all add: nth_list_update\<close>)
  show ?thesis
  proof (cases pc)
    case Insert
    obtain r u where u: "reserve_insert (gc_reservation call) (an_now ans) t = (r, u)" by (metis surj_pair)
    with assms(1) Insert have "t' = u" by (simp add: gateway_step_def Let_def)
    from u show ?thesis
      by (cases rule: reserve_insert_cases) (use assms(2) \<open>t' = u\<close> same_row_refl in \<open>simp_all add: nth_append\<close>)
  next
    case (Rearm j r)
    with assms(1) show ?thesis by (intro tr) (auto simp: gateway_step_def Let_def)
  next
    case (Block j reason)
    with assms(1) show ?thesis by (intro tr) (auto simp: gateway_step_def Let_def)
  next
    case (Submit j facts)
    with assms(1) show ?thesis by (intro tr) (auto simp: gateway_step_def Let_def)
  next
    case (Finish j outcome)
    obtain status response error result where "finish_call j outcome = (status, response, error, result)" by (metis surj_pair)
    with assms(1) Finish show ?thesis by (intro tr) (auto simp: gateway_step_def Let_def)
  qed (use assms same_row_refl in \<open>simp_all add: gateway_step_def Let_def\<close>)
qed

lemma world_table_step:
  assumes "world_step sha calls w w'" "i < length (wd_table w)"
  shows "i < length (wd_table w') \<and> same_row (wd_table w ! i) (wd_table w' ! i)"
proof -
  note refl = same_row_refl
  from assms(1) show ?thesis
  proof (cases rule: world_step.cases)
    case (process p ans pc' t' wr)
    with table_step [OF process(2) assms(2)] show ?thesis by simp
  next
    case (block j now error r t')
    from block(2) show ?thesis by (cases rule: transition_cases) (use block(1) assms(2) refl in \<open>auto simp: nth_list_update\<close>)
  qed (use assms(2) refl in \<open>auto simp: nth_list_update\<close>)
qed

text \<open>What every state of the world has: the calls about to write were checked, and so was every write.\<close>

definition writes_ok :: "(string \<Rightarrow> string) \<Rightarrow> (nat \<Rightarrow> gateway_call) \<Rightarrow> world \<Rightarrow> bool" where
  "writes_ok sha calls w \<longleftrightarrow> (\<forall>p. checked sha (calls p) (wd_pc w p))
     \<and> (\<forall>x \<in> set (wd_writes w). prewrite_reason sha (calls (ew_process x)) (ew_facts x) = None
          \<and> ew_intent x < length (wd_table w) \<and> row_of_call (calls (ew_process x)) (wd_table w ! ew_intent x))"

lemma write_step:
  assumes "gateway_step sha call ans pc t = ((pc', t'), Some (i, facts, outcome))"
  shows "pc = Write i facts \<and> outcome = an_outcome ans"
  using assms by (cases pc) (auto simp: gateway_step_def Let_def split: prod.splits)

lemma writes_ok_step:
  assumes "world_step sha calls w w'" "writes_ok sha calls w" "world_ok calls w"
  shows "writes_ok sha calls w'"
proof -
  have old: "prewrite_reason sha (calls (ew_process x)) (ew_facts x) = None
          \<and> ew_intent x < length (wd_table w') \<and> row_of_call (calls (ew_process x)) (wd_table w' ! ew_intent x)"
    if "x \<in> set (wd_writes w)" for x
  proof -
    from assms(2) that have x: "prewrite_reason sha (calls (ew_process x)) (ew_facts x) = None"
      "ew_intent x < length (wd_table w)" "row_of_call (calls (ew_process x)) (wd_table w ! ew_intent x)"
      unfolding writes_ok_def by blast+
    from world_table_step [OF assms(1) x(2)] have t: "ew_intent x < length (wd_table w')"
      "same_row (wd_table w ! ew_intent x) (wd_table w' ! ew_intent x)" by blast+
    with x same_row_simps(4) [OF t(2)] show ?thesis by blast
  qed
  have pcs: "checked sha (calls p) (wd_pc w p)" for p using assms(2) unfolding writes_ok_def by blast
  from assms(1) show ?thesis
  proof (cases rule: world_step.cases)
    case (process p ans pc' t' wr)
    have "checked sha (calls q) (wd_pc w' q)" for q
      using pcs checked_step [OF process(2) pcs] process(1) by simp
    moreover have "prewrite_reason sha (calls (ew_process x)) (ew_facts x) = None
        \<and> ew_intent x < length (wd_table w') \<and> row_of_call (calls (ew_process x)) (wd_table w' ! ew_intent x)"
      if x: "x \<in> set (wd_writes w')" for x
    proof (cases "x \<in> set (wd_writes w)")
      case True
      then show ?thesis by (rule old)
    next
      case False
      with x process(1) obtain i facts outcome where wr: "wr = Some (i, facts, outcome)"
        and xx: "x = \<lparr>ew_process = p, ew_intent = i, ew_facts = facts, ew_outcome = outcome\<rparr>"
        by (auto split: option.splits)
      from write_step [OF process(2) [unfolded wr]] have pc: "wd_pc w p = Write i facts" by blast
      from pcs [of p] pc have c: "prewrite_reason sha (calls p) facts = None" by (auto simp: checked_def)
      have i: "i < length (wd_table w) \<and> row_of_call (calls p) (wd_table w ! i)"
        using world_okD(1) [OF assms(3), of p i] pc by simp
      from world_table_step [OF assms(1), of i] i have t: "i < length (wd_table w')" "same_row (wd_table w ! i) (wd_table w' ! i)"
        by blast+
      with i c same_row_simps(4) [OF t(2)] show ?thesis by (simp add: xx)
    qed
    ultimately show ?thesis unfolding writes_ok_def by blast
  next
    case (crash p)
    have "checked sha (calls q) (wd_pc w' q)" for q using pcs by (simp add: crash checked_def)
    with old show ?thesis unfolding writes_ok_def by (simp add: crash)
  qed (use pcs old in \<open>simp_all add: writes_ok_def\<close>)
qed

lemma reachable_writes_ok: "reachable_world sha calls w \<Longrightarrow> writes_ok sha calls w"
proof (induction rule: reachable_world.induct)
  case initially
  then show ?case by (simp add: writes_ok_def initial_world_def checked_def)
next
  case (later w w')
  then show ?case using writes_ok_step reachable_world_ok by blast
qed

text \<open>
  What must have been read before a write, independently of the checks: a live binding of the authority's
  venue, strategy, side and symbol; its leg, attributed to this position and verified; the same leg as the
  verified owner of the position, an entry; exactly one live position of that id, unchanged since the
  authority was built; and live execution. For a cancel also the ledger row of the order: verified, a
  protection, unchanged, and of the authority's strategy, binding, leg, position, instrument and side.
\<close>

definition position_authorized :: "(string \<Rightarrow> string) \<Rightarrow> position_mutation_authority \<Rightarrow> live_facts \<Rightarrow> bool" where
  "position_authorized sha a facts \<longleftrightarrow>
     (\<exists>binding. lf_binding facts = Some binding
        \<and> py_lower (str_or_empty (bd_venue binding)) = py_lower (au_venue a)
        \<and> str_or_empty (bd_strategy_instance_id binding) = au_strategy_instance_id a
        \<and> py_lower (str_or_empty (bd_side binding)) = py_lower (au_side a)
        \<and> (\<exists>suffix. py_upper (au_instrument_id a) = py_upper (py_str (bd_symbol binding)) @ ''-'' @ suffix)
        \<and> py_lower (str_or_empty (bd_status binding)) \<in> {''active'', ''open'', ''partial''})
     \<and> (\<exists>leg. lf_leg facts = Some leg
        \<and> lg_execution_binding_id leg = au_execution_binding_id a
        \<and> str_or_empty (lg_strategy_instance_id leg) = au_strategy_instance_id a
        \<and> py_lower (str_or_empty (lg_venue leg)) = py_lower (au_venue a)
        \<and> str_or_empty (lg_pos_id leg) = au_pos_id a
        \<and> py_lower (str_or_empty (lg_attribution_status leg)) = ''verified'')
     \<and> (\<exists>owner. lf_ownership facts = Inr owner \<and> lg_id owner = au_execution_order_leg_id a \<and> lg_purpose owner = VStr ''entry'')
     \<and> (\<exists>r. filter (\<lambda>r. str_or_empty (row_get r ''posId'') = au_pos_id a) (lf_positions facts) = [r]
        \<and> position_authority_fingerprint sha r = au_position_fingerprint a)
     \<and> lf_live_gate facts"

definition cancel_authorized :: "(string \<Rightarrow> string) \<Rightarrow> position_mutation_authority \<Rightarrow> live_facts \<Rightarrow> bool" where
  "cancel_authorized sha a facts \<longleftrightarrow> (\<exists>order. lf_protection facts = Some order
     \<and> py_lower (str_or_empty (pt_status order)) = ''verified''
     \<and> pt_purpose order \<in> {VStr ''stop_loss'', VStr ''backup_stop'', VStr ''take_profit''}
     \<and> (au_protection_fingerprint a = None \<or> au_protection_fingerprint a = Some (protection_fingerprint sha order))
     \<and> py_lower (pt_venue order) = py_lower (au_venue a)
     \<and> str_or_empty (pt_strategy_instance_id order) = au_strategy_instance_id a
     \<and> pt_execution_binding_id order = au_execution_binding_id a
     \<and> pt_execution_order_leg_id order = au_execution_order_leg_id a
     \<and> pt_pos_id order = au_pos_id a
     \<and> py_upper (pt_instrument_id order) = py_upper (au_instrument_id a)
     \<and> py_lower (pt_side order) = py_lower (au_side a))"

lemma starts_with_append: "starts_with s prefix \<Longrightarrow> \<exists>suffix. s = prefix @ suffix"
  unfolding starts_with_def by (metis append_take_drop_id)

lemma protection_reason_None:
  assumes "protection_reason sha a protection = None"
  obtains order where "protection = Some order" "py_lower (str_or_empty (pt_status order)) = ''verified''"
    "pt_purpose order \<in> {VStr ''stop_loss'', VStr ''backup_stop'', VStr ''take_profit''}"
    "au_protection_fingerprint a = None \<or> au_protection_fingerprint a = Some (protection_fingerprint sha order)"
    "require_order_owned_by_authority a (Some (owner_of_protection order)) = Inr ()"
proof (cases protection)
  case None
  with assms show ?thesis by (simp add: protection_reason_def require_order_owned_by_authority_def authority_error_def)
next
  case (Some order)
  have "require_order_owned_by_authority a (Some (owner_of_protection order)) = Inr ()"
    using assms unfolding Some protection_reason_def Let_def
    by (auto simp: require_order_owned_by_authority_def authority_error_def Let_def split: if_splits)
  with assms Some show ?thesis
    by (intro that) (auto simp: protection_reason_def Let_def split: if_splits)
qed

lemma prewrite_None:
  assumes "prewrite_reason sha call facts = None"
  shows "position_authorized sha (gc_authority call) facts"
    and "gc_operation call = ''cancel_position_sltp'' \<Longrightarrow> cancel_authorized sha (gc_authority call) facts"
proof -
  from assms have b: "binding_reason (gc_authority call) facts = None"
    and p: "gc_operation call = ''cancel_position_sltp'' \<Longrightarrow> protection_reason sha (gc_authority call) (lf_protection facts) = None"
    and q: "position_reason sha (gc_authority call) facts = None"
    by (auto simp: prewrite_reason_def split: option.splits if_splits)
  from b obtain binding leg owner where 1: "lf_binding facts = Some binding" "binding_matches (gc_authority call) binding"
    "lf_leg facts = Some leg" "leg_matches (gc_authority call) leg" "lf_ownership facts = Inr owner"
    "lg_id owner = au_execution_order_leg_id (gc_authority call)" "lg_purpose owner = VStr ''entry''"
    by (auto simp: binding_reason_def split: option.splits if_splits sum.splits)
  from q obtain r where 2: "filter (\<lambda>r. str_or_empty (row_get r ''posId'') = au_pos_id (gc_authority call)) (lf_positions facts) = [r]"
    "position_authority_fingerprint sha r = au_position_fingerprint (gc_authority call)" "lf_live_gate facts"
    unfolding position_reason_def by (auto split: list.splits if_splits)
  from 1 2 show "position_authorized sha (gc_authority call) facts"
    by (auto simp: position_authorized_def binding_matches_def leg_matches_def binding_live_def dest: starts_with_append)
  assume c: "gc_operation call = ''cancel_position_sltp''"
  obtain order where o': "lf_protection facts = Some order" "py_lower (str_or_empty (pt_status order)) = ''verified''"
    "pt_purpose order \<in> {VStr ''stop_loss'', VStr ''backup_stop'', VStr ''take_profit''}"
    "au_protection_fingerprint (gc_authority call) = None
      \<or> au_protection_fingerprint (gc_authority call) = Some (protection_fingerprint sha order)"
    "require_order_owned_by_authority (gc_authority call) (Some (owner_of_protection order)) = Inr ()"
    using protection_reason_None [OF p [OF c]] by blast
  from o'(5) have "(py_lower (pt_venue order), str_or_empty (pt_strategy_instance_id order), pt_execution_binding_id order,
      pt_execution_order_leg_id order, pt_pos_id order, py_upper (pt_instrument_id order), py_lower (pt_side order))
    = (py_lower (au_venue (gc_authority call)), au_strategy_instance_id (gc_authority call), au_execution_binding_id (gc_authority call),
       au_execution_order_leg_id (gc_authority call), au_pos_id (gc_authority call), py_upper (au_instrument_id (gc_authority call)),
       py_lower (au_side (gc_authority call)))"
    by (auto simp: require_order_owned_by_authority_def owner_of_protection_def authority_error_def split: if_splits)
  with o'(1-4) show "cancel_authorized sha (gc_authority call) facts" unfolding cancel_authorized_def prod.inject by blast
qed

text \<open>
  Claim C4: whatever the interleaving, every write that reached the exchange was made by the call whose
  intent it is, after the checks of that call found, for its authority: a live binding and its leg, the
  position verified as owned by that leg, exactly one live position of that id whose fingerprint is
  unchanged, and live execution enabled; a cancel also found its order's ledger row verified, a protection,
  unchanged where a fingerprint was taken, and owned by exactly this leg and position.
\<close>

theorem writes_are_authorized:
  assumes "reachable_world sha calls w" "x \<in> set (wd_writes w)" "call = calls (ew_process x)" "facts = ew_facts x"
  shows "row_of_call call (wd_table w ! ew_intent x)
    \<and> position_authorized sha (gc_authority call) facts
    \<and> (gc_operation call = ''cancel_position_sltp'' \<longrightarrow> cancel_authorized sha (gc_authority call) facts)"
proof -
  from reachable_writes_ok [OF assms(1)] assms(2)
  have "prewrite_reason sha (calls (ew_process x)) (ew_facts x) = None \<and> row_of_call (calls (ew_process x)) (wd_table w ! ew_intent x)"
    unfolding writes_ok_def by blast
  then have c: "prewrite_reason sha call facts = None" and r: "row_of_call call (wd_table w ! ew_intent x)"
    by (simp_all add: assms(3,4))
  from r prewrite_None [OF c] show ?thesis by blast
qed

section \<open>A call ends\<close>

text \<open>A call alone with its turns: before each of them the other processes may have changed the table.\<close>

fun run_call :: "(string \<Rightarrow> string) \<Rightarrow> gateway_call \<Rightarrow> (answer \<times> (intent_table \<Rightarrow> intent_table)) list \<Rightarrow> pc \<Rightarrow> intent_table
    \<Rightarrow> pc \<times> intent_table \<times> (nat \<times> live_facts \<times> write_outcome) list" where
  "run_call sha call [] pc t = (pc, t, [])"
| "run_call sha call ((ans, others) # turns) pc t = (case gateway_step sha call ans pc (others t) of ((pc', t'), wr) \<Rightarrow>
     (case run_call sha call turns pc' t' of (pc'', t'', ws) \<Rightarrow> (pc'', t'', (case wr of None \<Rightarrow> ws | Some x \<Rightarrow> x # ws))))"

text \<open>How many steps a call still needs at most.\<close>

fun pc_rank :: "pc \<Rightarrow> nat" where
  "pc_rank Lookup = 12" | "pc_rank Insert = 11" | "pc_rank (Start i) = 10" | "pc_rank (Rearm i r) = 9"
| "pc_rank (Recheck i) = 8" | "pc_rank (Check i) = 7" | "pc_rank (Hook i) = 6" | "pc_rank (Validate i) = 5"
| "pc_rank (Submit i facts) = 4" | "pc_rank (Write i facts) = 3" | "pc_rank (Finish i outcome) = 2"
| "pc_rank (Block i reason) = 2" | "pc_rank (Report i) = 1" | "pc_rank (Done r) = 0" | "pc_rank (Raised e) = 0"
| "pc_rank Dead = 0"

lemma rank_moves:
  assumes "after_transition rt moved missed = (pc', t')" "pc_rank moved < n" "pc_rank missed < n" "moved \<noteq> Dead" "missed \<noteq> Dead"
  shows "pc_rank pc' < n \<and> pc' \<noteq> Dead"
  using assms by (auto simp: after_transition_def split: prod.splits sum.splits bool.splits)

lemma rank_report: "pc_rank (report t i) = 0 \<and> report t i \<noteq> Dead"
  by (auto simp: report_def split: sum.splits)

lemma rank_start: "pc_rank (start_call call t i) < 10 \<and> start_call call t i \<noteq> Dead"
  by (auto simp: start_call_def Let_def split: sum.splits option.splits)

lemma rank_step:
  assumes "gateway_step sha call ans pc t = ((pc', t'), wr)" "0 < pc_rank pc"
  shows "pc_rank pc' < pc_rank pc \<and> pc' \<noteq> Dead"
proof (cases pc)
  case (Start i)
  with assms rank_start [of call t i] show ?thesis by (auto simp: gateway_step_def Let_def)
next
  case (Recheck i)
  with assms rank_report [of t i] show ?thesis by (auto simp: gateway_step_def Let_def split: if_splits)
next
  case (Report i)
  with assms rank_report [of t i] show ?thesis by (auto simp: gateway_step_def Let_def)
next
  case (Rearm i r)
  with assms(1) show ?thesis by (auto simp: gateway_step_def Let_def dest!: rank_moves [where n = 9])
next
  case (Block i reason)
  with assms(1) show ?thesis by (auto simp: gateway_step_def Let_def dest!: rank_moves [where n = 2])
next
  case (Submit i facts)
  with assms(1) show ?thesis by (auto simp: gateway_step_def Let_def dest!: rank_moves [where n = 4])
next
  case (Finish i outcome)
  with assms(1) show ?thesis
    by (auto simp: gateway_step_def finish_call_def Let_def dest!: rank_moves [where n = 2] split: write_outcome.splits)
qed (use assms in \<open>auto simp: gateway_step_def Let_def split: sum.splits option.splits prod.splits if_splits\<close>)

lemma ended_step:
  assumes "pc_rank pc = 0"
  shows "gateway_step sha call ans pc t = ((pc, t), None)"
  using assms by (cases pc) (simp_all add: gateway_step_def Let_def)

lemma run_call_ends:
  assumes "run_call sha call turns pc t = (pc', t', ws)" "pc_rank pc \<le> length turns" "pc \<noteq> Dead"
  shows "pc_rank pc' = 0 \<and> pc' \<noteq> Dead \<and> length ws \<le> (if pc_rank pc \<le> 2 then 0 else 1)"
  using assms
proof (induction sha call turns pc t arbitrary: ws rule: run_call.induct)
  case (1 sha call pc t)
  then show ?case by auto
next
  case (2 sha call ans others turns pc t)
  obtain pc1 t1 wr where g: "gateway_step sha call ans pc (others t) = ((pc1, t1), wr)" by (metis surj_pair)
  obtain ws1 where r: "run_call sha call turns pc1 t1 = (pc', t', ws1)" and ws: "ws = (case wr of None \<Rightarrow> ws1 | Some x \<Rightarrow> x # ws1)"
    using 2(2) g by (auto split: prod.splits)
  show ?case
  proof (cases "pc_rank pc = 0")
    case True
    from ended_step [OF True] g have "pc1 = pc" "wr = None" by auto
    with 2(1) [of "(pc1, t1)" wr pc1 t1, OF g [symmetric] refl r] g 2(4) True ws show ?thesis by simp
  next
    case False
    from rank_step [OF g] False have n: "pc_rank pc1 < pc_rank pc" "pc1 \<noteq> Dead" by simp_all
    with 2(1) [OF g [symmetric] refl r] 2(3)
    have ih: "pc_rank pc' = 0 \<and> pc' \<noteq> Dead \<and> length ws1 \<le> (if pc_rank pc1 \<le> 2 then 0 else 1)" by simp
    show ?thesis
    proof (cases wr)
      case None
      with ih ws n show ?thesis by (simp split: if_splits)
    next
      case (Some x)
      obtain i facts outcome where "x = (i, facts, outcome)" by (metis surj_pair)
      with g Some write_step have "pc = Write i facts" by blast
      with n ih ws Some show ?thesis by (simp split: if_splits)
    qed
  qed
qed

text \<open>
  Claim C19: a call that is not killed ends after at most twelve of its own steps, with a result or an
  exception, and has written to the exchange at most once, whatever the exchange answers and however the
  other processes change the intents between its steps.
\<close>

theorem gateway_call_ends:
  assumes "run_call sha call turns Lookup t = (pc, t', ws)" "12 \<le> length turns"
  shows "((\<exists>r. pc = Done r) \<or> (\<exists>e. pc = Raised e)) \<and> length ws \<le> 1"
  using run_call_ends [OF assms(1)] assms(2) by (cases pc) simp_all

section \<open>Examples\<close>

text \<open>A call running alone is a way the world can go.\<close>

abbreviation written_by :: "nat \<Rightarrow> nat \<times> live_facts \<times> write_outcome \<Rightarrow> exchange_write" where
  "written_by p \<equiv> \<lambda>(i, facts, outcome). \<lparr>ew_process = p, ew_intent = i, ew_facts = facts, ew_outcome = outcome\<rparr>"

lemma run_reaches:
  assumes "reachable_world sha calls w" "run_call sha (calls p) (map (\<lambda>a. (a, \<lambda>t. t)) answers) (wd_pc w p) (wd_table w) = (pc', t', ws)"
  shows "reachable_world sha calls \<lparr>wd_table = t', wd_pc = (wd_pc w)(p := pc'), wd_writes = wd_writes w @ map (written_by p) ws\<rparr>"
  using assms
proof (induction answers arbitrary: w ws)
  case Nil
  then have "pc' = wd_pc w p" "t' = wd_table w" "ws = []" by simp_all
  moreover have "(wd_pc w)(p := wd_pc w p) = wd_pc w" by (rule fun_upd_triv)
  ultimately show ?case using Nil(1) by (cases w) simp
next
  case (Cons a answers)
  obtain pc1 t1 wr where g: "gateway_step sha (calls p) a (wd_pc w p) (wd_table w) = ((pc1, t1), wr)" by (metis surj_pair)
  obtain ws1 where r: "run_call sha (calls p) (map (\<lambda>a. (a, \<lambda>t. t)) answers) pc1 t1 = (pc', t', ws1)"
    and ws: "ws = (case wr of None \<Rightarrow> ws1 | Some x \<Rightarrow> x # ws1)"
    using Cons.prems(2) g by (auto split: prod.splits)
  let ?w = "\<lparr>wd_table = t1, wd_pc = (wd_pc w)(p := pc1), wd_writes = wd_writes w @ (case wr of None \<Rightarrow> []
      | Some (i, facts, outcome) \<Rightarrow> [\<lparr>ew_process = p, ew_intent = i, ew_facts = facts, ew_outcome = outcome\<rparr>])\<rparr>"
  have "reachable_world sha calls ?w" by (rule later [OF Cons.prems(1) process [where calls = calls and w = w and p = p, OF g]])
  from Cons.IH [OF this, of ws1, unfolded world.select_convs fun_upd_upd fun_upd_same] r ws show ?case by (auto split: option.splits prod.splits)
qed

definition gateway_authority :: position_mutation_authority where
  "gateway_authority = \<lparr>au_venue = ''deepcoin'', au_strategy_instance_id = ''s1'', au_execution_binding_id = 3,
     au_execution_order_leg_id = 7, au_pos_id = ''p1'', au_instrument_id = ''BTC-USDT-SWAP'', au_side = ''long'',
     au_position_fingerprint = ''h'', au_protection_fingerprint = None\<rparr>"

definition example_order_leg :: order_leg_row where
  "example_order_leg = \<lparr>lg_id = 7, lg_execution_binding_id = 3, lg_strategy_instance_id = VStr ''s1'', lg_venue = VStr ''deepcoin'',
     lg_pos_id = VStr ''p1'', lg_attribution_status = VStr ''verified'', lg_purpose = VStr ''entry''\<rparr>"

definition example_facts :: "bool \<Rightarrow> live_facts" where
  "example_facts live = \<lparr>lf_binding = Some \<lparr>bd_id = 3, bd_symbol = VStr ''BTC'', bd_venue = VStr ''deepcoin'',
       bd_strategy_instance_id = VStr ''s1'', bd_side = VStr ''long'', bd_status = VStr ''active'', bd_margin_mode = VStr ''cross'',
       bd_position_mode = VStr ''merge''\<rparr>,
     lf_leg = Some example_order_leg, lf_ownership = Inr example_order_leg, lf_protection = None,
     lf_positions = [[''posId'' \<mapsto> VStr ''p1'']], lf_live_gate = live\<rparr>"

definition example_call :: gateway_call where
  "example_call = (case close_exact_position (\<lambda>s. ''h'') gateway_authority ''2'' None ''k1'' False (example_facts True) of
     Inr call \<Rightarrow> call)"

definition example_answer :: "bool \<Rightarrow> answer" where
  "example_answer live = \<lparr>an_now = \<lparr>dt_wall = 0, dt_offset = None\<rparr>, an_hook = None, an_facts = Inr (example_facts live),
     an_outcome = Accepted [(''ordId'', PyStr ''o1'')]\<rparr>"

definition example_run :: "bool \<Rightarrow> nat \<Rightarrow> pc \<times> intent_table \<times> (nat \<times> live_facts \<times> write_outcome) list" where
  "example_run live n = run_call (\<lambda>s. ''h'') example_call (map (\<lambda>a. (a, \<lambda>t. t)) (replicate n (example_answer live))) Lookup []"

lemma example_submitted:
  "case example_run True 12 of (pc, t, ws) \<Rightarrow> map it_status t = [''submitted''] \<and> map fst ws = [0]
     \<and> (case pc of Done r \<Rightarrow> gr_status r = ''submitted'' | _ \<Rightarrow> False)"
  by code_simp

lemma example_stopped:
  "case example_run False 6 of (pc, t, ws) \<Rightarrow> map it_status t = [''reserved''] \<and> ws = []
     \<and> (case pc of Block i reason \<Rightarrow> i = 0 \<and> reason = ''live_execution_disabled'' | _ \<Rightarrow> False)"
  by code_simp

text \<open>The worlds the two runs lead to: a submitted close, and one about to be blocked.\<close>

definition example_world :: "bool \<Rightarrow> nat \<Rightarrow> world" where
  "example_world live n = (case example_run live n of (pc, t, ws) \<Rightarrow>
     \<lparr>wd_table = t, wd_pc = (\<lambda>_. Lookup)(0 := pc), wd_writes = map (written_by 0) ws\<rparr>)"

lemma example_reachable: "reachable_world (\<lambda>s. ''h'') (\<lambda>p. example_call) (example_world live n)"
proof -
  obtain pc t ws where r: "example_run live n = (pc, t, ws)" by (metis surj_pair)
  from r have "run_call (\<lambda>s. ''h'') example_call (map (\<lambda>a. (a, \<lambda>t. t)) (replicate n (example_answer live)))
      (wd_pc initial_world 0) (wd_table initial_world) = (pc, t, ws)"
    by (simp add: example_run_def initial_world_def)
  from run_reaches [where p = 0 and calls = "\<lambda>p. example_call", OF reachable_world.initially this]
  show ?thesis by (simp add: example_world_def r initial_world_def)
qed

lemma one_write_per_key_witness:
  "\<exists>w. reachable_world (\<lambda>s. ''h'') (\<lambda>p. example_call) w \<and> length (wd_writes w) = 1 \<and>
     length (filter (\<lambda>x. it_idempotency_key (wd_table w ! ew_intent x) = ''k1''
      \<and> \<not> (it_operation (wd_table w ! ew_intent x) = ''cancel_position_sltp'' \<and> definitely_rejected (ew_outcome x))) (wd_writes w)) \<le> 1"
proof (intro exI conjI)
  show "length (wd_writes (example_world True 12)) = 1" by code_simp
qed (rule example_reachable, rule one_write_per_key [OF example_reachable])

text \<open>A cancel of the position's stop, whose ledger row is verified.\<close>

definition cancel_call :: gateway_call where
  "cancel_call = (case cancel_owned_position_sltp (\<lambda>s. ''h'') gateway_authority ''o9'' ''k2'' False None of Inr call \<Rightarrow> call)"

definition cancel_facts :: live_facts where
  "cancel_facts = (example_facts True)\<lparr>lf_protection := Some \<lparr>pt_venue = ''deepcoin'', pt_order_id = ''o9'',
     pt_strategy_instance_id = VStr ''s1'', pt_execution_binding_id = 3, pt_execution_order_leg_id = 7, pt_pos_id = ''p1'',
     pt_instrument_id = ''BTC-USDT-SWAP'', pt_side = ''long'', pt_purpose = VStr ''stop_loss'', pt_trigger_price = VStr ''90'',
     pt_size_text = VStr ''2'', pt_status = VStr ''verified''\<rparr>\<rparr>"

definition cancel_run :: "pc \<times> intent_table \<times> (nat \<times> live_facts \<times> write_outcome) list" where
  "cancel_run = run_call (\<lambda>s. ''h'') cancel_call
     (map (\<lambda>a. (a, \<lambda>t. t)) (replicate 12 ((example_answer True)\<lparr>an_facts := Inr cancel_facts\<rparr>))) Lookup []"

definition cancel_world :: world where
  "cancel_world = (case cancel_run of (pc, t, ws) \<Rightarrow>
     \<lparr>wd_table = t, wd_pc = (\<lambda>_. Lookup)(0 := pc), wd_writes = map (written_by 0) ws\<rparr>)"

lemma cancel_reachable: "reachable_world (\<lambda>s. ''h'') (\<lambda>p. cancel_call) cancel_world"
proof -
  obtain pc t ws where r: "cancel_run = (pc, t, ws)" by (metis surj_pair)
  from r have "run_call (\<lambda>s. ''h'') cancel_call (map (\<lambda>a. (a, \<lambda>t. t)) (replicate 12 ((example_answer True)\<lparr>an_facts := Inr cancel_facts\<rparr>)))
      (wd_pc initial_world 0) (wd_table initial_world) = (pc, t, ws)"
    by (simp add: cancel_run_def initial_world_def)
  from run_reaches [where p = 0 and calls = "\<lambda>p. cancel_call", OF reachable_world.initially this]
  show ?thesis by (simp add: cancel_world_def r initial_world_def)
qed

lemma writes_are_authorized_witness:
  "(\<exists>x. x \<in> set (wd_writes (example_world True 12)) \<and> row_of_call example_call (wd_table (example_world True 12) ! ew_intent x)
     \<and> lf_live_gate (ew_facts x))
   \<and> (\<exists>x. x \<in> set (wd_writes cancel_world) \<and> cancel_authorized (\<lambda>s. ''h'') gateway_authority (ew_facts x))"
proof (rule conjI)
  have "length (wd_writes (example_world True 12)) = 1" by code_simp
  then obtain x where x: "x \<in> set (wd_writes (example_world True 12))" by (metis length_greater_0_conv list.set_sel(1) zero_less_one)
  with writes_are_authorized [OF example_reachable x refl refl]
  show "\<exists>x. x \<in> set (wd_writes (example_world True 12)) \<and> row_of_call example_call (wd_table (example_world True 12) ! ew_intent x)
     \<and> lf_live_gate (ew_facts x)" unfolding position_authorized_def by blast
  have "length (wd_writes cancel_world) = 1" by code_simp
  then obtain y where y: "y \<in> set (wd_writes cancel_world)" by (metis length_greater_0_conv list.set_sel(1) zero_less_one)
  have "gc_operation cancel_call = ''cancel_position_sltp''" "gc_authority cancel_call = gateway_authority" by code_simp+
  with writes_are_authorized [OF cancel_reachable y refl refl] y
  show "\<exists>x. x \<in> set (wd_writes cancel_world) \<and> cancel_authorized (\<lambda>s. ''h'') gateway_authority (ew_facts x)" by auto
qed

lemma never_submitted_is_definite_witness:
  "\<exists>r t'. gateway_step (\<lambda>s. ''h'') example_call (example_answer False) (wd_pc (example_world False 6) 0) (wd_table (example_world False 6))
        = ((Done r, t'), None)
     \<and> require_submitted_response r = Inl (PositionMutationAuthorityError ''live_execution_disabled'')
     \<and> (\<forall>x \<in> set (wd_writes (example_world False 6)). ew_intent x = gr_intent_id r \<longrightarrow>
         it_operation (t' ! ew_intent x) = ''cancel_position_sltp'' \<and> definitely_rejected (ew_outcome x))"
proof -
  let ?w = "example_world False 6"
  let ?r = "\<lparr>gr_status = ''blocked'', gr_reason = Some ''live_execution_disabled'', gr_intent_id = 0, gr_response = None\<rparr>"
  have pc: "wd_pc ?w 0 = Block 0 ''live_execution_disabled''"
    using example_stopped by (auto simp: example_world_def split: prod.splits pc.splits)
  have moved: "case transition_position_mutation_intent 0 [''reserved''] ''blocked'' (an_now (example_answer False)) None
      (Some [(''reason'', PyStr ''live_execution_disabled'')]) (wd_table ?w) of (r, t') \<Rightarrow> (case r of Inl e \<Rightarrow> False | Inr b \<Rightarrow> b)"
    by code_simp
  then obtain t' where t': "transition_position_mutation_intent 0 [''reserved''] ''blocked'' (an_now (example_answer False)) None
      (Some [(''reason'', PyStr ''live_execution_disabled'')]) (wd_table ?w) = (Inr True, t')"
    by (auto split: prod.splits sum.splits)
  have g: "gateway_step (\<lambda>s. ''h'') example_call (example_answer False) (wd_pc ?w 0) (wd_table ?w) = ((Done ?r, t'), None)"
    by (simp add: pc gateway_step_def Let_def t' after_transition_def)
  have r: "require_submitted_response ?r = Inl (PositionMutationAuthorityError ''live_execution_disabled'')"
    by (simp add: require_submitted_response_def never_submitted_intent_statuses_def authority_error_def)
  from never_submitted_is_definite [OF example_reachable _ g r] g r pc show ?thesis by auto
qed

lemma gateway_call_ends_witness:
  "\<exists>pc t ws. example_run True 12 = (pc, t, ws) \<and> (\<exists>r. pc = Done r) \<and> length ws \<le> 1"
proof -
  obtain pc t ws where r: "example_run True 12 = (pc, t, ws)" by (metis surj_pair)
  have "((\<exists>r. pc = Done r) \<or> (\<exists>e. pc = Raised e)) \<and> length ws \<le> 1"
    by (rule gateway_call_ends [OF r [unfolded example_run_def]]) simp
  moreover from example_submitted r have "\<exists>r. pc = Done r" by (auto split: pc.splits)
  ultimately show ?thesis using r by blast
qed

end
