(* ===== verification/Gateway_Reconcile.thy ===== *)
theory Gateway_Reconcile
  imports Gateway_Soundness
begin

text \<open>
  How open intents are settled from the exchange's readback
  (\<open>reconcile_submitted_position_mutation_intents\<close> in \<open>position_mutation_gateway.py\<close>, with
  \<open>upsert_protection_ledger_row\<close> of \<open>protection_ledger.py\<close>). A snapshot is what the caller read: \<open>None\<close>
  when it has no list, and in a list an element that is no mapping is \<open>None\<close>. The protection ledger is
  the list of its rows; of a row the times and the evidence are not kept. A receipt is printed without
  the blanks \<open>json.dumps\<close> puts after its separators by default; it is only read back. Where settling gives
  an intent an order id that another intent of the same request already has, the table's unique index
  makes the code's flush raise and undo the reconciliation; here the id is set.
\<close>

section \<open>Reading a row\<close>

type_synonym snapshot = "row option list option"

record readback =
  rb_pending :: snapshot
  rb_history :: snapshot
  rb_fills :: snapshot

definition snapshot_rows :: "snapshot \<Rightarrow> row list" where
  "snapshot_rows s = (case s of None \<Rightarrow> [] | Some xs \<Rightarrow> List.map_filter (\<lambda>x. x) xs)"

definition readback_order_id :: "row \<Rightarrow> string" where
  "readback_order_id r = first_key_text r [''ordId'', ''orderId'', ''order_id'']"

definition first_order_status :: "row \<Rightarrow> string" where
  "first_order_status r = py_lower (first_key_text r [''state'', ''status'', ''ordStatus'', ''orderStatus''])"

definition close_terminal_status :: "row \<Rightarrow> string option" where
  "close_terminal_status r =
     (let status = first_order_status r in
      if status \<in> {''filled'', ''fully_filled'', ''completed'', ''complete'', ''closed'', ''success'', ''succeeded''} then Some ''confirmed''
      else if status \<in> {''rejected'', ''failed'', ''cancelled'', ''canceled'', ''expired''} then Some ''rejected''
      else None)"

definition decimal_values_equal :: "string option \<Rightarrow> string option \<Rightarrow> bool" where
  "decimal_values_equal left right = (case (left, right) of
       (Some a, Some b) \<Rightarrow> (case (finite_decimal (VStr a), finite_decimal (VStr b)) of
           (Some x, Some y) \<Rightarrow> x = y | _ \<Rightarrow> False)
     | _ \<Rightarrow> False)"

definition agrees :: "(string \<Rightarrow> string) \<Rightarrow> pyval \<Rightarrow> pyobj \<Rightarrow> bool" where
  "agrees norm_text observed expected \<longleftrightarrow>
     \<not> given observed \<or> missing expected \<or> norm_text (py_str observed) = norm_text (obj_str expected)"

definition close_readback_matches_request :: "row \<Rightarrow> (string \<times> pyobj) list \<Rightarrow> bool" where
  "close_readback_matches_request r request \<longleftrightarrow>
     agrees py_upper (row_get r ''instId'') (dict_get request ''instId'')
     \<and> agrees py_lower (row_get r ''posSide'') (dict_get request ''posSide'')
     \<and> agrees (\<lambda>s. s) (or_key r ''closePosId'' ''posId'') (dict_get request ''closePosId'')
     \<and> (\<not> given (or_key r ''sz'' ''size'') \<or> missing (dict_get request ''sz'')
        \<or> decimal_values_equal (Some (py_str (or_key r ''sz'' ''size''))) (Some (obj_str (dict_get request ''sz''))))"

definition sltp_trigger_keys :: "string \<Rightarrow> string list" where
  "sltp_trigger_keys purpose =
     (if purpose = ''stop_loss'' then [''slTriggerPx'', ''slTriggerPrice'', ''triggerPrice'']
      else [''tpTriggerPx'', ''tpTriggerPrice'', ''triggerPrice''])"

text \<open>The row is the order: its id, nothing it states against the position, the trigger and the size.\<close>

definition sltp_row_matches ::
    "string \<Rightarrow> string \<Rightarrow> string \<Rightarrow> string \<Rightarrow> string \<Rightarrow> string \<Rightarrow> string option \<Rightarrow> row \<Rightarrow> bool" where
  "sltp_row_matches order_id instrument_id side pos_id purpose trigger_px sz r \<longleftrightarrow>
     readback_order_id r = order_id
     \<and> py_upper (str_or_empty (row_get r ''instId'')) \<in> {[], py_upper instrument_id}
     \<and> py_lower (str_or_empty (row_get r ''posSide'')) \<in> {[], py_lower side}
     \<and> first_key_text r [''posId'', ''pos_id''] \<in> {[], pos_id}
     \<and> decimal_values_equal (first_string r (sltp_trigger_keys purpose)) (Some trigger_px)
     \<and> (sz = None \<or> decimal_values_equal (Some (py_str (or_key r ''sz'' ''size''))) sz)"

definition set_position_sltp_readback_matches ::
    "row list \<Rightarrow> string \<Rightarrow> string \<Rightarrow> string \<Rightarrow> string \<Rightarrow> string \<Rightarrow> string \<Rightarrow> string option \<Rightarrow> bool" where
  "set_position_sltp_readback_matches rows order_id instrument_id side pos_id purpose trigger_px sz =
     list_ex (sltp_row_matches order_id instrument_id side pos_id purpose trigger_px sz) rows"

text \<open>The first key of a mapping with a value, and the order id of a response.\<close>

definition mapping_order_id :: "(string \<times> pyobj) list \<Rightarrow> string option" where
  "mapping_order_id kvs = map_option (\<lambda>key. obj_str (dict_get kvs key))
     (find (\<lambda>key. \<not> missing (dict_get kvs key)) [''ordId'', ''orderId'', ''order_id'', ''orderSysID''])"

definition candidate_order_id :: "pyobj \<Rightarrow> string option" where
  "candidate_order_id x = (case x of
       Scalar (VStr s) \<Rightarrow> if py_strip s = [] then None else Some (py_strip s)
     | PyDict kvs \<Rightarrow> mapping_order_id kvs
     | _ \<Rightarrow> None)"

definition response_order_id :: "(string \<times> pyobj) list \<Rightarrow> string option" where
  "response_order_id response =
     (let data = dict_get response ''data'';
          candidates = (case data of PyList xs \<Rightarrow> xs | _ \<Rightarrow> [data]) @ [PyDict response]
      in case List.map_filter candidate_order_id candidates of [] \<Rightarrow> None | o' # _ \<Rightarrow> Some o')"

section \<open>One intent\<close>

definition close_rows :: "string \<Rightarrow> readback \<Rightarrow> row list" where
  "close_rows status rb =
     (if status = ''confirmed'' then snapshot_rows (rb_fills rb) else [])
     @ filter (\<lambda>r. close_terminal_status r = Some status) (snapshot_rows (rb_history rb))"

text \<open>The purpose the order has on the exchange, and the request's field of its trigger.\<close>

definition exchange_purpose :: "string \<Rightarrow> string" where
  "exchange_purpose purpose = (if purpose \<in> {''stop_loss'', ''backup_stop''} then ''stop_loss'' else ''take_profit'')"

definition trigger_field_of :: "string \<Rightarrow> string" where
  "trigger_field_of purpose = (if purpose = ''stop_loss'' then ''slTriggerPx'' else ''tpTriggerPx'')"

definition request_size :: "(string \<times> pyobj) list \<Rightarrow> string option" where
  "request_size request = map_option obj_str (map_of request ''sz'')"

definition intent_matches ::
    "position_mutation_intent \<Rightarrow> (string \<times> pyobj) list \<Rightarrow> string \<Rightarrow> string \<Rightarrow> string \<Rightarrow> row list \<Rightarrow> bool" where
  "intent_matches r request order_id purpose trigger_px rows =
     set_position_sltp_readback_matches rows order_id (obj_str_or_empty (dict_get request ''instId''))
       (obj_str_or_empty (dict_get request ''posSide'')) (it_pos_id r) purpose trigger_px (request_size request)"

definition the_only :: "string list \<Rightarrow> string" where
  "the_only xs = (case remdups xs of [x] \<Rightarrow> x | _ \<Rightarrow> [])"

definition close_order_id :: "readback \<Rightarrow> (string \<times> pyobj) list \<Rightarrow> string" where
  "close_order_id rb request =
     the_only (filter (\<lambda>o'. o' \<noteq> []) (map readback_order_id
       (filter (\<lambda>r. first_key_text r [''clOrdId'', ''clientOrderId'', ''client_order_id''] = obj_str (dict_get request ''clOrdId'')
          \<and> close_readback_matches_request r request)
        (close_rows ''confirmed'' rb @ close_rows ''rejected'' rb))))"

definition sltp_order_id :: "readback \<Rightarrow> position_mutation_intent \<Rightarrow> (string \<times> pyobj) list \<Rightarrow> string" where
  "sltp_order_id rb r request =
     (let stated = obj_str_or_empty (dict_get request ''_ledger_purpose'');
          purpose = exchange_purpose (if stated \<noteq> [] then stated
            else if \<not> missing (dict_get request ''slTriggerPx'') then ''stop_loss'' else ''take_profit'');
          trigger_px = obj_str_or_empty (dict_get request (trigger_field_of purpose))
      in the_only (filter (\<lambda>o'. o' \<noteq> []) (map readback_order_id
           (filter (\<lambda>x. intent_matches r request (readback_order_id x) purpose trigger_px [x]) (snapshot_rows (rb_pending rb))))))"

definition intent_order_id :: "readback \<Rightarrow> position_mutation_intent \<Rightarrow> string" where
  "intent_order_id rb r =
     (let request = load_json_dict (Some (it_request_json r));
          own = (case it_order_id r of Some o' \<Rightarrow> o' | None \<Rightarrow> []);
          known = (if own \<noteq> [] then own
            else case response_order_id (load_json_dict (it_response_json r)) of Some o' \<Rightarrow> o' | None \<Rightarrow> [])
      in if known \<noteq> [] then known
         else if it_operation r = ''close_position''
         then (if obj_truthy (dict_get request ''clOrdId'') then close_order_id rb request else [])
         else if it_operation r = ''set_position_sltp'' then sltp_order_id rb r request
         else [])"

datatype settlement =
    Untouched
  | Confirm_cancel string
  | Confirm_close string
  | Confirm_partial string
  | Reject_close string string
  | Confirm_sltp string string string string

definition settle_close :: "readback \<Rightarrow> (string \<times> pyobj) list \<Rightarrow> string \<Rightarrow> settlement" where
  "settle_close rb request order_id =
     (let confirmed = filter (\<lambda>r. readback_order_id r = order_id) (close_rows ''confirmed'' rb);
          rejected = filter (\<lambda>r. readback_order_id r = order_id) (close_rows ''rejected'' rb)
      in if confirmed \<noteq> [] \<and> rejected \<noteq> []
         then (if list_ex (\<lambda>r. close_readback_matches_request r request) confirmed then Confirm_partial order_id else Untouched)
         else if rejected \<noteq> [] then Reject_close order_id (first_order_status (hd rejected))
         else if confirmed \<noteq> [] then Confirm_close order_id else Untouched)"

definition settle_sltp ::
    "(int \<Rightarrow> binding_row option) \<Rightarrow> readback \<Rightarrow> position_mutation_intent \<Rightarrow> (string \<times> pyobj) list \<Rightarrow> string \<Rightarrow> settlement result" where
  "settle_sltp bindings rb r request order_id =
     (let stated = obj_str_or_empty (dict_get request ''_ledger_purpose'');
          purpose = (if stated \<noteq> [] then stated
            else if \<not> missing (dict_get request ''slTriggerPx'') then ''stop_loss''
            else if \<not> missing (dict_get request ''tpTriggerPx'') then ''take_profit'' else [])
      in if purpose = [] then Inr Untouched
         else (case map_of request (trigger_field_of (exchange_purpose purpose)) of
             None \<Rightarrow> Inl (KeyError (trigger_field_of (exchange_purpose purpose)))
           | Some px \<Rightarrow>
               if \<not> intent_matches r request order_id (exchange_purpose purpose) (obj_str px) (snapshot_rows (rb_pending rb))
               then Inr Untouched
               else (case bindings (it_execution_binding_id r) of
                   None \<Rightarrow> Inr Untouched
                 | Some binding \<Rightarrow>
                     let side = dict_get request ''posSide'' in
                     Inr (Confirm_sltp order_id purpose (obj_str px)
                       (if obj_truthy side then obj_str side else py_str (bd_side binding))))))"

definition settle_intent ::
    "(int \<Rightarrow> binding_row option) \<Rightarrow> readback \<Rightarrow> position_mutation_intent \<Rightarrow> settlement result" where
  "settle_intent bindings rb r =
     (let request = load_json_dict (Some (it_request_json r)); order_id = intent_order_id rb r in
      if order_id = [] then Inr Untouched
      else if it_operation r = ''cancel_position_sltp''
      then Inr (if rb_pending rb = None \<or> list_ex (\<lambda>x. readback_order_id x = order_id) (snapshot_rows (rb_pending rb))
         then Untouched else Confirm_cancel order_id)
      else if it_operation r = ''close_position'' then Inr (settle_close rb request order_id)
      else settle_sltp bindings rb r request order_id)"

section \<open>The ledger\<close>

definition ledger_owner :: "protection_row \<Rightarrow> int \<times> int \<times> pyval \<times> string \<times> string \<times> string" where
  "ledger_owner row =
     (pt_execution_binding_id row, pt_execution_order_leg_id row, pt_strategy_instance_id row,
      py_strip (pt_pos_id row), py_upper (pt_instrument_id row), py_lower (pt_side row))"

definition ledger_place :: "string \<Rightarrow> string \<Rightarrow> protection_row list \<Rightarrow> nat option" where
  "ledger_place venue order_id = find_place (\<lambda>row. pt_venue row = venue \<and> pt_order_id row = order_id)"

text \<open>\<open>new\<close> is the row as the caller asks for it, its venue, order id and side not yet normalised.\<close>

definition upsert_protection_ledger_row :: "protection_row \<Rightarrow> protection_row list \<Rightarrow> protection_row list result" where
  "upsert_protection_ledger_row new ledger =
     (let order_id = py_strip (pt_order_id new);
          venue = py_lower (if pt_venue new = [] then ''deepcoin'' else pt_venue new);
          written = new\<lparr>pt_order_id := order_id, pt_venue := venue, pt_instrument_id := py_upper (pt_instrument_id new),
            pt_side := py_lower (pt_side new)\<rparr>
      in if order_id = [] then Inr ledger
         else (case ledger_place venue order_id ledger of
             None \<Rightarrow> Inr (ledger @ [written])
           | Some k \<Rightarrow>
               if ledger_owner (ledger ! k) \<noteq> ledger_owner new then Inl (ValueError ''protection_ledger_owner_conflict'')
               else Inr (ledger[k := written])))"

definition cancel_ledger_row :: "string \<Rightarrow> string \<Rightarrow> protection_row list \<Rightarrow> protection_row list" where
  "cancel_ledger_row venue order_id ledger = (case ledger_place venue order_id ledger of
       None \<Rightarrow> ledger | Some k \<Rightarrow> ledger[k := (ledger ! k)\<lparr>pt_status := VStr ''cancelled''\<rparr>])"

section \<open>The reconciliation\<close>

definition confirm_receipt :: "string \<Rightarrow> string" where
  "confirm_receipt order_id = json_text (JDict [(''code'', JStr ''0''), (''data'', JDict [(''ordId'', JStr order_id)]),
     (''reconciled_from_exchange_readback'', JBool True)])"

definition status_receipt :: "string \<Rightarrow> string \<Rightarrow> string" where
  "status_receipt order_id status = json_text (JDict [(''ordId'', JStr order_id),
     (''reconciled_from_exchange_readback'', JBool True), (''status'', JStr status)])"

definition confirm_intent :: "string \<Rightarrow> py_datetime \<Rightarrow> position_mutation_intent \<Rightarrow> position_mutation_intent" where
  "confirm_intent order_id now r =
     confirmed_row order_id (if filled (it_response_json r) then it_response_json r else Some (confirm_receipt order_id)) now r"

definition apply_settlement ::
    "py_datetime \<Rightarrow> settlement \<Rightarrow> position_mutation_intent \<Rightarrow> protection_row list
     \<Rightarrow> (position_mutation_intent \<times> protection_row list) result" where
  "apply_settlement now d r ledger = (case d of
       Untouched \<Rightarrow> Inr (r, ledger)
     | Confirm_cancel o' \<Rightarrow> Inr (confirm_intent o' now r, cancel_ledger_row (it_venue r) o' ledger)
     | Confirm_close o' \<Rightarrow> Inr (confirm_intent o' now r, ledger)
     | Confirm_partial o' \<Rightarrow> Inr (confirmed_row o' (Some (status_receipt o' ''partially_filled_terminal'')) now r, ledger)
     | Reject_close o' status \<Rightarrow> Inr (rejected_row o' (Some (status_receipt o' status)) now r, ledger)
     | Confirm_sltp o' purpose px side \<Rightarrow>
         (let request = load_json_dict (Some (it_request_json r)) in
          rbind (upsert_protection_ledger_row
              \<lparr>pt_venue = it_venue r, pt_order_id = o', pt_strategy_instance_id = VStr (it_strategy_instance_id r),
               pt_execution_binding_id = it_execution_binding_id r, pt_execution_order_leg_id = it_execution_order_leg_id r,
               pt_pos_id = it_pos_id r, pt_instrument_id = obj_str_or_empty (dict_get request ''instId''), pt_side = side,
               pt_purpose = VStr purpose, pt_trigger_price = VStr px,
               pt_size_text = (case request_size request of None \<Rightarrow> VNone | Some s \<Rightarrow> VStr s), pt_status = VStr ''verified''\<rparr>
              ledger)
            (\<lambda>ledger'. Inr (confirm_intent o' now r, ledger'))))"

definition open_for_readback :: "position_mutation_intent \<Rightarrow> bool" where
  "open_for_readback r \<longleftrightarrow>
     it_operation r \<in> {''set_position_sltp'', ''cancel_position_sltp'', ''close_position''}
     \<and> it_status r \<in> {''submitting'', ''submitted'', ''recovery_required''}"

text \<open>The loop over the open intents in the order of their ids; \<open>n\<close> counts what was settled.\<close>

fun reconcile_intents ::
    "(int \<Rightarrow> binding_row option) \<Rightarrow> readback \<Rightarrow> py_datetime \<Rightarrow> intent_table \<Rightarrow> protection_row list
     \<Rightarrow> (intent_table \<times> protection_row list \<times> nat) result" where
  "reconcile_intents bindings rb now [] ledger = Inr ([], ledger, 0)"
| "reconcile_intents bindings rb now (r # rs) ledger =
     (if open_for_readback r then
        rbind (settle_intent bindings rb r) (\<lambda>d.
        rbind (apply_settlement now d r ledger) (\<lambda>(r', ledger').
        rbind (reconcile_intents bindings rb now rs ledger') (\<lambda>(rs', ledger'', n).
        Inr (r' # rs', ledger'', (if d = Untouched then n else Suc n)))))
      else rbind (reconcile_intents bindings rb now rs ledger) (\<lambda>(rs', ledger', n). Inr (r # rs', ledger', n)))"

text \<open>One transaction: an error leaves the table and the ledger as they were.\<close>

definition reconcile_submitted_position_mutation_intents ::
    "(int \<Rightarrow> binding_row option) \<Rightarrow> readback \<Rightarrow> py_datetime \<Rightarrow> intent_table \<Rightarrow> protection_row list
     \<Rightarrow> nat result \<times> intent_table \<times> protection_row list" where
  "reconcile_submitted_position_mutation_intents bindings rb now t ledger =
     (case reconcile_intents bindings rb now t ledger of
        Inl e \<Rightarrow> (Inl e, t, ledger)
      | Inr (t', ledger', n) \<Rightarrow> (Inr n, t', ledger'))"

section \<open>What a settled intent rests on\<close>

definition settled_row :: "py_datetime \<Rightarrow> settlement \<Rightarrow> position_mutation_intent \<Rightarrow> position_mutation_intent" where
  "settled_row now d r = (case d of
       Untouched \<Rightarrow> r
     | Confirm_cancel o' \<Rightarrow> confirm_intent o' now r | Confirm_close o' \<Rightarrow> confirm_intent o' now r
     | Confirm_partial o' \<Rightarrow> confirmed_row o' (Some (status_receipt o' ''partially_filled_terminal'')) now r
     | Reject_close o' status \<Rightarrow> rejected_row o' (Some (status_receipt o' status)) now r
     | Confirm_sltp o' purpose px side \<Rightarrow> confirm_intent o' now r)"

lemma apply_settlement_row:
  assumes "apply_settlement now d r ledger = Inr (r', ledger')"
  shows "r' = settled_row now d r"
  using assms by (auto simp: apply_settlement_def settled_row_def Let_def rbind_Inr_iff split: settlement.splits)

lemma reconcile_intents_nth:
  assumes "reconcile_intents bindings rb now t ledger = Inr (t', ledger', n)"
  shows "length t' = length t \<and> (\<forall>i < length t. t' ! i = t ! i
      \<or> open_for_readback (t ! i) \<and> (\<exists>d. settle_intent bindings rb (t ! i) = Inr d \<and> d \<noteq> Untouched \<and> t' ! i = settled_row now d (t ! i)))"
  using assms
proof (induction bindings rb now t ledger arbitrary: t' ledger' n rule: reconcile_intents.induct)
  case (1 bindings rb now ledger)
  then show ?case by simp
next
  case (2 bindings rb now r rs ledger)
  show ?case
  proof (cases "open_for_readback r")
    case True
    with 2(3) obtain d r' l1 rs' l2 m where d: "settle_intent bindings rb r = Inr d" and a: "apply_settlement now d r ledger = Inr (r', l1)"
      and rs: "reconcile_intents bindings rb now rs l1 = Inr (rs', l2, m)" and t': "t' = r' # rs'"
      by (auto simp: rbind_Inr_iff)
    have ih: "length rs' = length rs \<and> (\<forall>i < length rs. rs' ! i = rs ! i
      \<or> open_for_readback (rs ! i) \<and> (\<exists>d. settle_intent bindings rb (rs ! i) = Inr d \<and> d \<noteq> Untouched \<and> rs' ! i = settled_row now d (rs ! i)))"
      using 2(1) [OF True d a refl rs] by blast
    have "r' = settled_row now d r" by (rule apply_settlement_row [OF a])
    then have "r' = r \<or> open_for_readback r \<and> (\<exists>d. settle_intent bindings rb r = Inr d \<and> d \<noteq> Untouched \<and> r' = settled_row now d r)"
      using True d by (cases "d = Untouched") (auto simp: settled_row_def)
    then show ?thesis using ih by (auto simp: t' nth_Cons split: nat.splits)
  next
    case False
    with 2(3) obtain rs' l2 m where rs: "reconcile_intents bindings rb now rs ledger = Inr (rs', l2, m)" and t': "t' = r # rs'"
      by (auto simp: rbind_Inr_iff)
    have ih: "length rs' = length rs \<and> (\<forall>i < length rs. rs' ! i = rs ! i
      \<or> open_for_readback (rs ! i) \<and> (\<exists>d. settle_intent bindings rb (rs ! i) = Inr d \<and> d \<noteq> Untouched \<and> rs' ! i = settled_row now d (rs ! i)))"
      using 2(2) [OF False rs] by blast
    then show ?thesis by (auto simp: t' nth_Cons split: nat.splits)
  qed
qed

text \<open>What the readback must show for an intent to become \<open>status\<close> with the order \<open>o'\<close>.\<close>

definition readback_evidence :: "readback \<Rightarrow> position_mutation_intent \<Rightarrow> string \<Rightarrow> string \<Rightarrow> bool" where
  "readback_evidence rb r o' status \<longleftrightarrow>
     (let request = load_json_dict (Some (it_request_json r)); pending = set (snapshot_rows (rb_pending rb));
          confirmed = {x \<in> set (close_rows ''confirmed'' rb). readback_order_id x = o'};
          rejected = {x \<in> set (close_rows ''rejected'' rb). readback_order_id x = o'}
      in if it_operation r = ''cancel_position_sltp''
         then status = ''confirmed'' \<and> rb_pending rb \<noteq> None \<and> (\<forall>x \<in> pending. readback_order_id x \<noteq> o')
         else if it_operation r = ''close_position''
         then status = ''rejected'' \<and> rejected \<noteq> {} \<and> confirmed = {}
           \<or> status = ''confirmed'' \<and> (\<exists>x \<in> confirmed. rejected = {} \<or> close_readback_matches_request x request)
         else status = ''confirmed'' \<and> (\<exists>x \<in> pending. \<exists>purpose px. map_of request (trigger_field_of purpose) = Some px
           \<and> sltp_row_matches o' (obj_str_or_empty (dict_get request ''instId'')) (obj_str_or_empty (dict_get request ''posSide''))
               (it_pos_id r) purpose (obj_str px) (request_size request) x))"

lemma settled_close:
  assumes "settle_close rb request o' = d" "it_operation r = ''close_position''" "d \<noteq> Untouched"
    "request = load_json_dict (Some (it_request_json r))"
  shows "it_order_id (settled_row now d r) = Some o' \<and> readback_evidence rb r o' (it_status (settled_row now d r))"
  using assms
  by (auto simp: settle_close_def Let_def readback_evidence_def settled_row_def confirm_intent_def confirmed_row_def rejected_row_def
      filter_empty_conv list_ex_iff split: if_splits)

lemma settled_sltp:
  assumes "settle_sltp bindings rb r request o' = Inr d" "it_operation r = ''set_position_sltp''" "d \<noteq> Untouched"
    "request = load_json_dict (Some (it_request_json r))"
  shows "it_order_id (settled_row now d r) = Some o' \<and> readback_evidence rb r o' (it_status (settled_row now d r))"
proof -
  from assms(1,3) obtain purpose px side where d: "d = Confirm_sltp o' purpose (obj_str px) side"
    and px: "map_of request (trigger_field_of (exchange_purpose purpose)) = Some px"
    and m: "intent_matches r request o' (exchange_purpose purpose) (obj_str px) (snapshot_rows (rb_pending rb))"
    by (auto simp: settle_sltp_def Let_def split: if_splits option.splits)
  from m px show ?thesis
    by (auto simp: d settled_row_def confirm_intent_def confirmed_row_def readback_evidence_def Let_def assms(2) assms(4) [symmetric]
        intent_matches_def set_position_sltp_readback_matches_def list_ex_iff)
qed

lemma settle_intent_evidence:
  assumes "settle_intent bindings rb r = Inr d" "d \<noteq> Untouched" "open_for_readback r"
  shows "it_order_id (settled_row now d r) = Some (intent_order_id rb r) \<and> intent_order_id rb r \<noteq> []
    \<and> readback_evidence rb r (intent_order_id rb r) (it_status (settled_row now d r))"
proof -
  let ?o = "intent_order_id rb r" and ?request = "load_json_dict (Some (it_request_json r))"
  have o: "?o \<noteq> []" using assms(1,2) by (auto simp: settle_intent_def Let_def)
  from assms(3) consider "it_operation r = ''cancel_position_sltp''" | "it_operation r = ''close_position''"
    | "it_operation r = ''set_position_sltp''" by (auto simp: open_for_readback_def)
  then show ?thesis
  proof cases
    case 1
    with assms(1,2) o have "d = Confirm_cancel ?o" "rb_pending rb \<noteq> None"
      "\<not> list_ex (\<lambda>x. readback_order_id x = ?o) (snapshot_rows (rb_pending rb))"
      by (auto simp: settle_intent_def Let_def split: if_splits)
    with 1 o show ?thesis
      by (auto simp: readback_evidence_def Let_def settled_row_def confirm_intent_def confirmed_row_def list_ex_iff)
  next
    case 2
    with assms(1) o have "settle_close rb ?request ?o = d" by (simp add: settle_intent_def Let_def)
    from settled_close [OF this 2 assms(2) refl] o show ?thesis by blast
  next
    case 3
    with assms(1) o have "settle_sltp bindings rb r ?request ?o = Inr d" by (simp add: settle_intent_def Let_def)
    from settled_sltp [OF this 3 assms(2) refl] o show ?thesis by blast
  qed
qed

text \<open>
  Claim C9: the reconciliation settles only intents whose write may have happened, each at the order its
  intent or its receipt names or the readback alone identifies, and only on the readback's evidence: a
  cancel when a complete list of pending orders lacks the order, a close when a fill or a terminal order
  row shows it (of contradicting rows, one that agrees with the request), a protection order when a
  pending row has its trigger, its size and nothing that contradicts its position.
\<close>

theorem reconciliation_needs_evidence:
  assumes "reconcile_submitted_position_mutation_intents bindings rb now t ledger = (Inr n, t', ledger')"
    and "i < length t" "t' ! i \<noteq> t ! i"
  shows "it_status (t ! i) \<in> {''submitting'', ''submitted'', ''recovery_required''}
    \<and> it_order_id (t' ! i) = Some (intent_order_id rb (t ! i)) \<and> intent_order_id rb (t ! i) \<noteq> []
    \<and> (filled (it_order_id (t ! i)) \<longrightarrow> it_order_id (t' ! i) = it_order_id (t ! i))
    \<and> readback_evidence rb (t ! i) (intent_order_id rb (t ! i)) (it_status (t' ! i))"
proof -
  from assms(1) have "reconcile_intents bindings rb now t ledger = Inr (t', ledger', n)"
    by (auto simp: reconcile_submitted_position_mutation_intents_def split: sum.splits)
  from reconcile_intents_nth [OF this] assms(2,3) obtain d where d: "open_for_readback (t ! i)"
    "settle_intent bindings rb (t ! i) = Inr d" "d \<noteq> Untouched" "t' ! i = settled_row now d (t ! i)" by blast
  have "filled (it_order_id (t ! i)) \<Longrightarrow> it_order_id (t ! i) = Some (intent_order_id rb (t ! i))"
    by (cases "it_order_id (t ! i)") (auto simp: filled_def intent_order_id_def Let_def)
  with settle_intent_evidence [OF d(2,3,1), of now] d(1,4) show ?thesis by (auto simp: open_for_readback_def)
qed

section \<open>The reconciliation in the world\<close>

lemma reachable_rows:
  assumes "reachable_world sha calls w" "length t' = length (wd_table w)"
    and "\<And>i. i < length (wd_table w) \<Longrightarrow> t' ! i = wd_table w ! i
      \<or> (\<exists>order_id json. t' ! i = confirmed_row order_id json now (wd_table w ! i))
      \<or> it_operation (wd_table w ! i) = ''close_position'' \<and> (\<exists>order_id json. t' ! i = rejected_row order_id json now (wd_table w ! i))"
  shows "reachable_world sha calls (w\<lparr>wd_table := t'\<rparr>)"
proof -
  let ?t = "wd_table w"
  have "reachable_world sha calls (w\<lparr>wd_table := take k t' @ drop k ?t\<rparr>)" if "k \<le> length ?t" for k
    using that
  proof (induction k)
    case 0
    then show ?case using assms(1) by simp
  next
    case (Suc k)
    let ?w = "w\<lparr>wd_table := take k t' @ drop k ?t\<rparr>"
    from Suc have r: "reachable_world sha calls ?w" and k: "k < length ?t" by simp_all
    have at: "(take k t' @ drop k ?t) ! k = ?t ! k" using k assms(2) by (simp add: nth_append)
    have next': "(take k t' @ drop k ?t)[k := t' ! k] = take (Suc k) t' @ drop (Suc k) ?t"
      using k assms(2) by (simp add: list_update_append take_Suc_conv_app_nth Cons_nth_drop_Suc [symmetric])
    have same: "(take k t' @ drop k ?t)[k := ?t ! k] = take k t' @ drop k ?t" using at by (metis list_update_id)
    from assms(3) [OF k] consider (same) "t' ! k = ?t ! k"
      | (confirmed) o' json where "t' ! k = confirmed_row o' json now (?t ! k)"
      | (rejected) o' json where "it_operation (?t ! k) = ''close_position''" "t' ! k = rejected_row o' json now (?t ! k)" by blast
    then show ?case
    proof cases
      case same
      then show ?thesis using r next' \<open>(take k t' @ drop k ?t)[k := ?t ! k] = take k t' @ drop k ?t\<close> by simp
    next
      case confirmed
      have "world_step sha calls ?w (?w\<lparr>wd_table := (wd_table ?w)[k := confirmed_row o' json now (wd_table ?w ! k)]\<rparr>)"
        by (rule world_step.confirm) (use k assms(2) in simp)
      from later [OF r this] show ?thesis using confirmed at next' by simp
    next
      case rejected
      have "world_step sha calls ?w (?w\<lparr>wd_table := (wd_table ?w)[k := rejected_row o' json now (wd_table ?w ! k)]\<rparr>)"
        by (rule world_step.reject) (use k assms(2) rejected(1) at in simp_all)
      from later [OF r this] show ?thesis using rejected at next' by simp
    qed
  qed
  from this [of "length ?t"] show ?thesis using assms(2) by simp
qed

text \<open>
  Claim C13: a run of the reconciliation is a run of the world's own steps, so every guarantee of the
  gateway holds with it.
\<close>

theorem reconciliation_refines_world:
  assumes "reachable_world sha calls w"
    and "reconcile_submitted_position_mutation_intents bindings rb now (wd_table w) ledger = (r, t', ledger')"
  shows "reachable_world sha calls (w\<lparr>wd_table := t'\<rparr>)"
proof (cases r)
  case (Inl e)
  with assms(2) have "t' = wd_table w" by (auto simp: reconcile_submitted_position_mutation_intents_def split: sum.splits)
  then show ?thesis using assms(1) by simp
next
  case (Inr n)
  with assms(2) have "reconcile_intents bindings rb now (wd_table w) ledger = Inr (t', ledger', n)"
    by (auto simp: reconcile_submitted_position_mutation_intents_def split: sum.splits)
  from reconcile_intents_nth [OF this] have len: "length t' = length (wd_table w)"
    and nth: "\<And>i. i < length (wd_table w) \<Longrightarrow> t' ! i = wd_table w ! i \<or> open_for_readback (wd_table w ! i)
      \<and> (\<exists>d. settle_intent bindings rb (wd_table w ! i) = Inr d \<and> d \<noteq> Untouched \<and> t' ! i = settled_row now d (wd_table w ! i))" by blast+
  have reject: "it_operation x = ''close_position''" if "settle_intent bindings rb x = Inr (Reject_close o' status)" for x o' status
    using that by (auto simp: settle_intent_def settle_sltp_def Let_def split: if_splits option.splits)
  show ?thesis
  proof (rule reachable_rows [OF assms(1) len])
    fix i assume "i < length (wd_table w)"
    from nth [OF this] consider "t' ! i = wd_table w ! i"
      | d where "settle_intent bindings rb (wd_table w ! i) = Inr d" "t' ! i = settled_row now d (wd_table w ! i)" by blast
    then show "t' ! i = wd_table w ! i
      \<or> (\<exists>order_id json. t' ! i = confirmed_row order_id json now (wd_table w ! i))
      \<or> it_operation (wd_table w ! i) = ''close_position'' \<and> (\<exists>order_id json. t' ! i = rejected_row order_id json now (wd_table w ! i))"
    proof cases
      case (2 d)
      with reject show ?thesis by (cases d) (auto simp: settled_row_def confirm_intent_def)
    qed simp
  qed
qed

section \<open>The ledger's owners\<close>

lemma upper_char_idem: "upper_char (upper_char c) = upper_char c"
  by (auto simp: upper_char_def Let_def char_code_def)

lemma py_upper_idem [simp]: "py_upper (py_upper s) = py_upper s"
  by (simp add: py_upper_def upper_char_idem)

text \<open>What no operation changes of a ledger: its keys stay unique and every row its key and owner.\<close>

definition ledger_key :: "protection_row \<Rightarrow> string \<times> string" where
  "ledger_key row = (pt_venue row, pt_order_id row)"

definition ledger_extends :: "protection_row list \<Rightarrow> protection_row list \<Rightarrow> bool" where
  "ledger_extends ledger ledger' \<longleftrightarrow> length ledger \<le> length ledger'
     \<and> (\<forall>k < length ledger. ledger_key (ledger' ! k) = ledger_key (ledger ! k) \<and> ledger_owner (ledger' ! k) = ledger_owner (ledger ! k))
     \<and> (distinct (map ledger_key ledger) \<longrightarrow> distinct (map ledger_key ledger'))"

lemma ledger_extends_refl: "ledger_extends ledger ledger"
  by (simp add: ledger_extends_def)

lemma ledger_extends_trans: "ledger_extends a b \<Longrightarrow> ledger_extends b c \<Longrightarrow> ledger_extends a c"
  unfolding ledger_extends_def by (metis le_trans order.strict_trans2)

lemma ledger_extends_update:
  assumes "k < length ledger" "ledger_key new = ledger_key (ledger ! k)" "ledger_owner new = ledger_owner (ledger ! k)"
  shows "ledger_extends ledger (ledger[k := new])"
proof -
  have "map ledger_key (ledger[k := new]) = map ledger_key ledger"
    using assms(1,2) by (simp add: map_update) (metis list_update_id nth_map)
  then show ?thesis using assms by (simp add: ledger_extends_def nth_list_update)
qed

lemma ledger_extends_upsert:
  assumes "upsert_protection_ledger_row new ledger = Inr ledger'"
  shows "ledger_extends ledger ledger'"
proof (cases "py_strip (pt_order_id new) = []")
  case True
  with assms show ?thesis by (simp add: upsert_protection_ledger_row_def Let_def ledger_extends_refl)
next
  case False
  define venue where "venue = py_lower (if pt_venue new = [] then ''deepcoin'' else pt_venue new)"
  define written where "written = new\<lparr>pt_order_id := py_strip (pt_order_id new), pt_venue := venue,
    pt_instrument_id := py_upper (pt_instrument_id new), pt_side := py_lower (pt_side new)\<rparr>"
  have owner: "ledger_owner written = ledger_owner new" by (simp add: ledger_owner_def written_def)
  have key: "ledger_key written = (venue, py_strip (pt_order_id new))" by (simp add: ledger_key_def written_def)
  note u = assms [unfolded upsert_protection_ledger_row_def Let_def if_not_P [OF False], folded venue_def, folded written_def]
  show ?thesis
  proof (cases "ledger_place venue (py_strip (pt_order_id new)) ledger")
    case None
    then have "ledger_key written \<notin> set (map ledger_key ledger)"
      unfolding key by (auto simp: ledger_place_def find_place_None ledger_key_def)
    with u None show ?thesis by (auto simp: ledger_extends_def nth_append)
  next
    case (Some k)
    with u have "ledger' = ledger[k := written]" "ledger_owner (ledger ! k) = ledger_owner new"
      by (auto split: if_splits)
    moreover from find_place_Some [OF Some [unfolded ledger_place_def]]
    have "k < length ledger" "ledger_key (ledger ! k) = ledger_key written" unfolding key by (simp_all add: ledger_key_def)
    ultimately show ?thesis using owner by (simp add: ledger_extends_update)
  qed
qed

lemma ledger_extends_cancel: "ledger_extends ledger (cancel_ledger_row venue order_id ledger)"
  by (auto simp: cancel_ledger_row_def ledger_place_def ledger_key_def ledger_owner_def
      intro: ledger_extends_refl ledger_extends_update dest: find_place_Some split: option.splits)

lemma ledger_extends_settlement:
  assumes "apply_settlement now d r ledger = Inr (r', ledger')"
  shows "ledger_extends ledger ledger'"
  using assms
  by (auto simp: apply_settlement_def Let_def rbind_Inr_iff ledger_extends_refl ledger_extends_cancel
      intro: ledger_extends_upsert split: settlement.splits)

lemma ledger_extends_reconcile:
  "reconcile_intents bindings rb now t ledger = Inr (t', ledger', n) \<Longrightarrow> ledger_extends ledger ledger'"
proof (induction bindings rb now t ledger arbitrary: t' ledger' n rule: reconcile_intents.induct)
  case (1 bindings rb now ledger)
  then show ?case by (simp add: ledger_extends_refl)
next
  case (2 bindings rb now r rs ledger)
  show ?case
  proof (cases "open_for_readback r")
    case True
    with 2(3) obtain d r' l1 rs' m where d: "settle_intent bindings rb r = Inr d" and a: "apply_settlement now d r ledger = Inr (r', l1)"
      and rs: "reconcile_intents bindings rb now rs l1 = Inr (rs', ledger', m)"
      by (auto simp: rbind_Inr_iff)
    from ledger_extends_trans [OF ledger_extends_settlement [OF a] 2(1) [OF True d a refl rs]] show ?thesis .
  next
    case False
    with 2(3) obtain rs' m where "reconcile_intents bindings rb now rs ledger = Inr (rs', ledger', m)"
      by (auto simp: rbind_Inr_iff)
    from 2(2) [OF False this] show ?thesis .
  qed
qed

text \<open>
  Claim C18: no reconciliation gives an order of the protection ledger to another owner: every row keeps
  its venue and order id, and its binding, leg, strategy, position, instrument and side; and no two rows
  come to be about one order.
\<close>

theorem ledger_owner_never_changes:
  assumes "reconcile_submitted_position_mutation_intents bindings rb now t ledger = (r, t', ledger')"
  shows "length ledger \<le> length ledger'
    \<and> (\<forall>k < length ledger. pt_venue (ledger' ! k) = pt_venue (ledger ! k) \<and> pt_order_id (ledger' ! k) = pt_order_id (ledger ! k)
        \<and> ledger_owner (ledger' ! k) = ledger_owner (ledger ! k))
    \<and> (distinct (map ledger_key ledger) \<longrightarrow> distinct (map ledger_key ledger'))"
proof -
  have "ledger_extends ledger ledger'"
    using assms ledger_extends_reconcile ledger_extends_refl
    by (auto simp: reconcile_submitted_position_mutation_intents_def split: sum.splits)
  then show ?thesis by (simp add: ledger_extends_def ledger_key_def)
qed

section \<open>Examples\<close>

text \<open>The submitted close of the gateway's example, and a fill of its order.\<close>

definition example_table_submitted :: intent_table where
  "example_table_submitted = wd_table (example_world True 12)"

definition example_readback :: readback where
  "example_readback = \<lparr>rb_pending = None, rb_history = Some [None], rb_fills = Some [Some [''ordId'' \<mapsto> VStr ''o1'']]\<rparr>"

definition example_ledger :: "protection_row list" where
  "example_ledger = [\<lparr>pt_venue = ''deepcoin'', pt_order_id = ''o7'', pt_strategy_instance_id = VStr ''s1'', pt_execution_binding_id = 3,
     pt_execution_order_leg_id = 7, pt_pos_id = ''p1'', pt_instrument_id = ''BTC-USDT-SWAP'', pt_side = ''long'',
     pt_purpose = VStr ''stop_loss'', pt_trigger_price = VStr ''60000'', pt_size_text = VNone, pt_status = VStr ''verified''\<rparr>]"

definition example_reconciled :: "nat result \<times> intent_table \<times> protection_row list" where
  "example_reconciled = reconcile_submitted_position_mutation_intents (\<lambda>_. None) example_readback \<lparr>dt_wall = 5, dt_offset = None\<rparr>
     example_table_submitted example_ledger"

lemma example_settled:
  "case example_reconciled of (r, t', ledger') \<Rightarrow>
     (case r of Inl e \<Rightarrow> False | Inr n \<Rightarrow> n = 1) \<and> map it_status t' = [''confirmed''] \<and> map it_status example_table_submitted = [''submitted'']"
  by code_simp

lemma reconciliation_needs_evidence_witness:
  "\<exists>n t' ledger'. example_reconciled = (Inr n, t', ledger') \<and> it_status (t' ! 0) = ''confirmed''
    \<and> readback_evidence example_readback (example_table_submitted ! 0) (intent_order_id example_readback (example_table_submitted ! 0))
       (it_status (t' ! 0))"
proof -
  obtain n t' ledger' where r: "example_reconciled = (Inr n, t', ledger')"
    using example_settled by (auto split: sum.splits)
  from example_settled [unfolded r prod.case] have s: "map it_status t' = [''confirmed'']" "map it_status example_table_submitted = [''submitted'']" by simp_all
  from s have c: "it_status (t' ! 0) = ''confirmed''" "0 < length example_table_submitted" by auto
  have "map it_status example_table_submitted ! 0 = ''submitted''" unfolding s(2) by simp
  then have "it_status (example_table_submitted ! 0) = ''submitted''" by (simp only: nth_map [OF c(2)])
  with c(1) have "t' ! 0 \<noteq> example_table_submitted ! 0" by auto
  note c = c this
  from reconciliation_needs_evidence [OF r [unfolded example_reconciled_def] c(2,3)] r c(1) show ?thesis by blast
qed

lemma reconciliation_refines_world_witness:
  "\<exists>w. reachable_world (\<lambda>s. ''h'') (\<lambda>p. example_call) w \<and> map it_status (wd_table w) = [''confirmed'']"
proof -
  obtain r t' ledger' where r: "example_reconciled = (r, t', ledger')" by (metis surj_pair)
  from example_settled [unfolded r prod.case] have s: "map it_status t' = [''confirmed'']" by simp
  from reconciliation_refines_world [OF example_reachable r [unfolded example_reconciled_def example_table_submitted_def]] s
  show ?thesis by (metis (no_types) world.select_convs(1) world.surjective world.update_convs(1))
qed

lemma ledger_owner_never_changes_witness:
  "\<exists>r t' ledger'. example_reconciled = (r, t', ledger') \<and> ledger_owner (ledger' ! 0) = ledger_owner (example_ledger ! 0)"
proof -
  obtain r t' ledger' where r: "example_reconciled = (r, t', ledger')" by (metis surj_pair)
  have "0 < length example_ledger" by (simp add: example_ledger_def)
  with ledger_owner_never_changes [OF r [unfolded example_reconciled_def]] r show ?thesis by blast
qed

end
