(* ===== verification/Gateway_Adapters.thy ===== *)
theory Gateway_Adapters
  imports Gateway_Reconcile
begin

text \<open>
  What the rest of the program calls of \<open>position_mutation_gateway.py\<close>: the adapters that build the
  authority afresh, make one call of the gateway and turn its result into a response or an exception;
  the one that sets a protection order can also insist on reading the order back. \<open>turns\<close> are the turns
  of the call, what the other processes do between them included; \<open>positions\<close> is what the client lists,
  \<open>pending\<close> the pending trigger orders it lists afterwards, or \<open>None\<close> where that raises. Filing the order read
  back is one transaction after the call; that other processes change the tables between the two, and that
  its commit violates an index, is not modelled.
\<close>

type_synonym turns = "(answer \<times> (intent_table \<Rightarrow> intent_table)) list"

section \<open>The authority\<close>

record authority_source =
  as_ownership :: "string + order_leg_row"
  as_bindings :: "int \<Rightarrow> binding_row option"
  as_economics :: "string \<Rightarrow> string \<Rightarrow> string + string \<times> string"
  as_positions :: "row list result"

definition build_fresh_authority :: "(string \<Rightarrow> string) \<Rightarrow> authority_source \<Rightarrow> string \<Rightarrow> position_mutation_authority result" where
  "build_fresh_authority sha src pos_id = rbind (as_positions src) (\<lambda>positions.
     case filter (\<lambda>r. str_or_empty (row_get r ''posId'') = pos_id) positions of
       [] \<Rightarrow> authority_error ''target_live_position_missing''
     | [r] \<Rightarrow> build_position_mutation_authority sha (as_ownership src) (as_bindings src) (as_economics src) ''deepcoin'' pos_id r
     | _ \<Rightarrow> authority_error ''target_live_position_not_unique'')"

section \<open>One call\<close>

definition run_exact :: "(string \<Rightarrow> string) \<Rightarrow> gateway_call result \<Rightarrow> turns \<Rightarrow> intent_table \<Rightarrow> gateway_result result \<times> intent_table" where
  "run_exact sha call turns t = (case call of
       Inl e \<Rightarrow> (Inl e, t)
     | Inr c \<Rightarrow> (case run_call sha c turns Lookup t of (pc, t', ws) \<Rightarrow>
         ((case pc of Done r \<Rightarrow> Inr r | Raised e \<Rightarrow> Inl e | _ \<Rightarrow> Inl (RuntimeError ''unfinished'')), t')))"

definition submitted_response :: "gateway_result result \<times> intent_table \<Rightarrow> (string \<times> pyobj) list result \<times> intent_table" where
  "submitted_response rt = (rbind (fst rt) require_submitted_response, snd rt)"

definition cancel_exact_position_sltp ::
    "(string \<Rightarrow> string) \<Rightarrow> authority_source \<Rightarrow> string \<Rightarrow> string \<Rightarrow> string \<Rightarrow> turns \<Rightarrow> intent_table
     \<Rightarrow> (string \<times> pyobj) list result \<times> intent_table" where
  "cancel_exact_position_sltp sha src pos_id order_id idempotency_key turns t =
     (case build_fresh_authority sha src pos_id of
        Inl e \<Rightarrow> (Inl e, t)
      | Inr authority \<Rightarrow>
          submitted_response (run_exact sha (cancel_owned_position_sltp sha authority order_id idempotency_key False None) turns t))"

definition close_exact_position_adapter ::
    "(string \<Rightarrow> string) \<Rightarrow> authority_source \<Rightarrow> string \<Rightarrow> string \<Rightarrow> string option \<Rightarrow> string \<Rightarrow> live_facts \<Rightarrow> turns \<Rightarrow> intent_table
     \<Rightarrow> (string \<times> pyobj) list result \<times> intent_table" where
  "close_exact_position_adapter sha src pos_id sz client_order_id idempotency_key facts turns t =
     (case build_fresh_authority sha src pos_id of
        Inl e \<Rightarrow> (Inl e, t)
      | Inr authority \<Rightarrow>
          submitted_response (run_exact sha (close_exact_position sha authority sz client_order_id idempotency_key False facts) turns t))"

section \<open>Setting a protection order and reading it back\<close>

definition unknown_outcome :: "string \<Rightarrow> 'a result" where
  "unknown_outcome reason = Inl (DeepcoinRequestOutcomeUnknown reason)"

definition payload_purpose :: "(string \<times> pyobj) list \<Rightarrow> string result" where
  "payload_purpose payload =
     (if \<not> missing (dict_get payload ''slTriggerPx'') then Inr ''stop_loss''
      else if \<not> missing (dict_get payload ''tpTriggerPx'') then Inr ''take_profit''
      else authority_error ''position_sltp_trigger_missing'')"

definition filed_purpose :: "string option \<Rightarrow> string \<Rightarrow> string" where
  "filed_purpose ledger_purpose purpose = (case ledger_purpose of Some (c # cs) \<Rightarrow> c # cs | _ \<Rightarrow> purpose)"

definition payload_trigger :: "(string \<times> pyobj) list \<Rightarrow> string \<Rightarrow> string" where
  "payload_trigger payload purpose = obj_str (dict_get payload (trigger_field_of purpose))"

text \<open>The ledger's row of an order a confirmed intent stands for.\<close>

definition confirmed_ledger_agrees ::
    "position_mutation_authority \<Rightarrow> string \<Rightarrow> (string \<times> pyobj) list \<Rightarrow> string \<Rightarrow> protection_row \<Rightarrow> bool" where
  "confirmed_ledger_agrees authority filed payload purpose row \<longleftrightarrow>
     pt_status row = VStr ''verified''
     \<and> pt_execution_binding_id row = au_execution_binding_id authority
     \<and> pt_execution_order_leg_id row = au_execution_order_leg_id authority
     \<and> pt_pos_id row = au_pos_id authority \<and> pt_purpose row = VStr filed
     \<and> decimal_values_equal (Some (py_str (pt_trigger_price row))) (Some (payload_trigger payload purpose))
     \<and> (case request_size payload of None \<Rightarrow> True
        | Some sz \<Rightarrow> decimal_values_equal (Some (py_str (pt_size_text row))) (Some sz))"

definition filed_row :: "position_mutation_authority \<Rightarrow> string \<Rightarrow> (string \<times> pyobj) list \<Rightarrow> string \<Rightarrow> string \<Rightarrow> protection_row" where
  "filed_row authority filed payload purpose order_id =
     \<lparr>pt_venue = au_venue authority, pt_order_id = order_id, pt_strategy_instance_id = VStr (au_strategy_instance_id authority),
      pt_execution_binding_id = au_execution_binding_id authority, pt_execution_order_leg_id = au_execution_order_leg_id authority,
      pt_pos_id = au_pos_id authority, pt_instrument_id = au_instrument_id authority, pt_side = au_side authority,
      pt_purpose = VStr filed, pt_trigger_price = VStr (payload_trigger payload purpose),
      pt_size_text = (case request_size payload of None \<Rightarrow> VNone | Some s \<Rightarrow> VStr s), pt_status = VStr ''verified''\<rparr>"

text \<open>The order was read back: check the ledger of a confirmed intent, or file the order and confirm.\<close>

definition file_readback ::
    "(int \<Rightarrow> binding_row option) \<Rightarrow> position_mutation_authority \<Rightarrow> string \<Rightarrow> (string \<times> pyobj) list \<Rightarrow> string \<Rightarrow> string
     \<Rightarrow> (string \<times> pyobj) list \<Rightarrow> gateway_result \<Rightarrow> py_datetime \<Rightarrow> intent_table \<Rightarrow> protection_row list
     \<Rightarrow> (string \<times> pyobj) list result \<times> intent_table \<times> protection_row list" where
  "file_readback bindings authority filed payload purpose order_id response result now t ledger =
     (let i = gr_intent_id result in
      if gr_status result = ''confirmed'' then
        (case ledger_place (au_venue authority) order_id ledger of
           None \<Rightarrow> (unknown_outcome ''position_sltp_confirmed_ledger_mismatch'', t, ledger)
         | Some k \<Rightarrow>
             if confirmed_ledger_agrees authority filed payload purpose (ledger ! k) then (Inr response, t, ledger)
             else (unknown_outcome ''position_sltp_confirmed_ledger_mismatch'', t, ledger))
      else if \<not> i < length t \<or> it_status (t ! i) \<noteq> ''submitted'' \<or> bindings (au_execution_binding_id authority) = None
      then (unknown_outcome ''position_sltp_readback_persistence_state_changed'', t, ledger)
      else (case (upsert_protection_ledger_row (filed_row authority filed payload purpose order_id) ledger,
                  json_dumps (json_of_obj (PyDict response))) of
          (Inr ledger', Some json) \<Rightarrow>
            (Inr response, t[i := confirm_intent order_id now ((t ! i)\<lparr>it_response_json := Some json\<rparr>)], ledger')
        | _ \<Rightarrow> (unknown_outcome ''position_sltp_readback_ledger_persistence_failed'', t, ledger)))"

definition read_back ::
    "(int \<Rightarrow> binding_row option) \<Rightarrow> position_mutation_authority \<Rightarrow> string \<Rightarrow> (string \<times> pyobj) list \<Rightarrow> string
     \<Rightarrow> (string \<times> pyobj) list \<Rightarrow> gateway_result \<Rightarrow> snapshot option \<Rightarrow> py_datetime \<Rightarrow> intent_table \<Rightarrow> protection_row list
     \<Rightarrow> (string \<times> pyobj) list result \<times> intent_table \<times> protection_row list" where
  "read_back bindings authority filed payload purpose response result pending now t ledger =
     (case response_order_id response of
        None \<Rightarrow> (unknown_outcome ''position_sltp_response_missing_order_id'', t, ledger)
      | Some order_id \<Rightarrow>
          if order_id = [] then (unknown_outcome ''position_sltp_response_missing_order_id'', t, ledger)
          else (case pending of
              None \<Rightarrow> (unknown_outcome ''position_sltp_readback_unavailable'', t, ledger)
            | Some rows \<Rightarrow>
                if \<not> set_position_sltp_readback_matches (snapshot_rows rows) order_id (au_instrument_id authority) (au_side authority)
                    (au_pos_id authority) purpose (payload_trigger payload purpose) (request_size payload)
                then (unknown_outcome ''position_sltp_pending_readback'', t, ledger)
                else file_readback bindings authority filed payload purpose order_id response result now t ledger))"

definition submit_exact_position_sltp ::
    "(string \<Rightarrow> string) \<Rightarrow> authority_source \<Rightarrow> string \<Rightarrow> (string \<times> pyobj) list \<Rightarrow> string \<Rightarrow> bool \<Rightarrow> string option \<Rightarrow> live_facts
     \<Rightarrow> turns \<Rightarrow> snapshot option \<Rightarrow> py_datetime \<Rightarrow> intent_table \<Rightarrow> protection_row list
     \<Rightarrow> (string \<times> pyobj) list result \<times> intent_table \<times> protection_row list" where
  "submit_exact_position_sltp sha src pos_id payload idempotency_key require_readback ledger_purpose facts turns pending now t ledger =
     (case build_fresh_authority sha src pos_id of
        Inl e \<Rightarrow> (Inl e, t, ledger)
      | Inr authority \<Rightarrow> (case payload_purpose payload of
          Inl e \<Rightarrow> (Inl e, t, ledger)
        | Inr purpose \<Rightarrow>
            let filed = filed_purpose ledger_purpose purpose in
            (case run_exact sha (set_exact_position_sltp sha authority purpose (Some filed) (payload_trigger payload purpose)
                (request_size payload) idempotency_key payload facts) turns t of (result, t') \<Rightarrow>
              (case result of
                 Inl e \<Rightarrow> (Inl e, t', ledger)
               | Inr r \<Rightarrow> (case require_submitted_response r of
                   Inl e \<Rightarrow> (Inl e, t', ledger)
                 | Inr response \<Rightarrow>
                     if \<not> require_readback then (Inr response, t', ledger)
                     else read_back (as_bindings src) authority filed payload purpose response r pending now t' ledger)))))"

definition exact_position_write_gate :: "string + order_leg_row \<Rightarrow> bool" where
  "exact_position_write_gate ownership \<longleftrightarrow> (case ownership of Inl _ \<Rightarrow> False | Inr _ \<Rightarrow> True)"

section \<open>A response after a readback\<close>

lemma written_row_in_ledger:
  assumes "upsert_protection_ledger_row new ledger = Inr ledger'" "py_strip (pt_order_id new) \<noteq> []"
  shows "\<exists>row \<in> set ledger'. pt_order_id row = py_strip (pt_order_id new) \<and> pt_status row = pt_status new
    \<and> pt_purpose row = pt_purpose new \<and> pt_execution_binding_id row = pt_execution_binding_id new
    \<and> pt_execution_order_leg_id row = pt_execution_order_leg_id new \<and> pt_pos_id row = pt_pos_id new"
proof -
  define written where "written = new\<lparr>pt_order_id := py_strip (pt_order_id new),
    pt_venue := py_lower (if pt_venue new = [] then ''deepcoin'' else pt_venue new),
    pt_instrument_id := py_upper (pt_instrument_id new), pt_side := py_lower (pt_side new)\<rparr>"
  have "written \<in> set ledger'"
    using assms(1) [unfolded upsert_protection_ledger_row_def Let_def if_not_P [OF assms(2)], folded written_def]
    by (auto simp: ledger_place_def intro: set_update_memI dest!: find_place_Some split: option.splits if_splits)
  then show ?thesis by (intro bexI [of _ written]) (simp_all add: written_def)
qed

lemma file_readback_cases:
  assumes "file_readback bindings authority filed payload purpose order_id response result now t ledger = (Inr response', t', ledger')"
    "py_strip order_id \<noteq> []"
  shows "response' = response
    \<and> (gr_status result = ''confirmed'' \<or> gr_intent_id result < length t' \<and> it_status (t' ! gr_intent_id result) = ''confirmed'')
    \<and> (\<exists>row \<in> set ledger'. pt_order_id row \<in> {order_id, py_strip order_id} \<and> pt_status row = VStr ''verified''
        \<and> pt_purpose row = VStr filed \<and> pt_execution_binding_id row = au_execution_binding_id authority
        \<and> pt_execution_order_leg_id row = au_execution_order_leg_id authority \<and> pt_pos_id row = au_pos_id authority)"
proof (cases "gr_status result = ''confirmed''")
  case True
  with assms(1) obtain k where k: "ledger_place (au_venue authority) order_id ledger = Some k"
    and a: "confirmed_ledger_agrees authority filed payload purpose (ledger ! k)" and r: "response' = response" "ledger' = ledger"
    by (auto simp: file_readback_def Let_def unknown_outcome_def split: option.splits if_splits)
  from find_place_Some [OF k [unfolded ledger_place_def]] have "ledger ! k \<in> set ledger'" "pt_order_id (ledger ! k) = order_id"
    by (simp_all add: r)
  with a r True show ?thesis by (auto simp: confirmed_ledger_agrees_def)
next
  case False
  note f = assms(1) [unfolded file_readback_def Let_def if_not_P [OF False]]
  from f obtain json where i: "gr_intent_id result < length t" and r: "response' = response"
    and u: "upsert_protection_ledger_row (filed_row authority filed payload purpose order_id) ledger = Inr ledger'"
    and t': "t' = t[gr_intent_id result := confirm_intent order_id now ((t ! gr_intent_id result)\<lparr>it_response_json := Some json\<rparr>)]"
    by (auto simp: unknown_outcome_def split: if_splits sum.splits option.splits)
  from written_row_in_ledger [OF u] assms(2)
  have row: "\<exists>row \<in> set ledger'. pt_order_id row = py_strip order_id \<and> pt_status row = VStr ''verified''
    \<and> pt_purpose row = VStr filed \<and> pt_execution_binding_id row = au_execution_binding_id authority
    \<and> pt_execution_order_leg_id row = au_execution_order_leg_id authority \<and> pt_pos_id row = au_pos_id authority"
    by (simp add: filed_row_def)
  have "it_status (t' ! gr_intent_id result) = ''confirmed''" using i by (simp add: t' confirm_intent_def confirmed_row_def)
  with r row i show ?thesis by (auto simp: t')
qed

text \<open>
  Claim C14: an adapter told to read its protection order back answers with a response only after a
  pending order of the exchange showed that order, with its trigger, its size and nothing against its
  position, and the order then stands verified in the ledger under the authority's binding, leg and
  position, its intent confirmed.
\<close>

theorem readback_response_is_proven:
  assumes "submit_exact_position_sltp sha src pos_id payload key True ledger_purpose facts turns pending now t ledger
      = (Inr response, t', ledger')"
  shows "\<exists>authority purpose order_id rows r.
     build_fresh_authority sha src pos_id = Inr authority \<and> payload_purpose payload = Inr purpose
     \<and> response_order_id response = Some order_id \<and> order_id \<noteq> []
     \<and> pending = Some rows \<and> r \<in> set (snapshot_rows rows)
     \<and> sltp_row_matches order_id (au_instrument_id authority) (au_side authority) (au_pos_id authority) purpose
         (payload_trigger payload purpose) (request_size payload) r
     \<and> (py_strip order_id \<noteq> [] \<longrightarrow> (\<exists>row \<in> set ledger'. pt_order_id row \<in> {order_id, py_strip order_id}
         \<and> pt_status row = VStr ''verified'' \<and> pt_purpose row = VStr (filed_purpose ledger_purpose purpose)
         \<and> pt_execution_binding_id row = au_execution_binding_id authority
         \<and> pt_execution_order_leg_id row = au_execution_order_leg_id authority \<and> pt_pos_id row = au_pos_id authority))"
proof -
  from assms obtain authority where a: "build_fresh_authority sha src pos_id = Inr authority"
    by (cases "build_fresh_authority sha src pos_id") (auto simp: submit_exact_position_sltp_def)
  from assms a obtain purpose where p: "payload_purpose payload = Inr purpose"
    by (cases "payload_purpose payload") (auto simp: submit_exact_position_sltp_def)
  let ?filed = "filed_purpose ledger_purpose purpose"
  obtain result t1 where run: "run_exact sha (set_exact_position_sltp sha authority purpose (Some ?filed)
      (payload_trigger payload purpose) (request_size payload) key payload facts) turns t = (result, t1)" by (metis surj_pair)
  from assms obtain r0 response0 where r0: "require_submitted_response r0 = Inr response0"
    and b: "read_back (as_bindings src) authority ?filed payload purpose response0 r0 pending now t1 ledger = (Inr response, t', ledger')"
    by (auto simp: submit_exact_position_sltp_def a p run Let_def split: sum.splits)
  from b obtain order_id rows where o: "response_order_id response0 = Some order_id" "order_id \<noteq> []" "pending = Some rows"
    and m: "set_position_sltp_readback_matches (snapshot_rows rows) order_id (au_instrument_id authority) (au_side authority)
        (au_pos_id authority) purpose (payload_trigger payload purpose) (request_size payload)"
    and f: "file_readback (as_bindings src) authority ?filed payload purpose order_id response0 r0 now t1 ledger
        = (Inr response, t', ledger')"
    by (auto simp: read_back_def unknown_outcome_def split: option.splits if_splits)
  from m obtain r where r: "r \<in> set (snapshot_rows rows)" "sltp_row_matches order_id (au_instrument_id authority) (au_side authority)
      (au_pos_id authority) purpose (payload_trigger payload purpose) (request_size payload) r"
    by (auto simp: set_position_sltp_readback_matches_def list_ex_iff)
  have "response = response0"
    using f by (auto simp: file_readback_def Let_def unknown_outcome_def split: if_splits option.splits sum.splits)
  with a p o r file_readback_cases [OF f] show ?thesis by blast
qed

section \<open>An example\<close>

definition example_source :: authority_source where
  "example_source = \<lparr>as_ownership = Inr example_order_leg, as_bindings = (\<lambda>i. if i = 3 then lf_binding (example_facts True) else None),
     as_economics = (\<lambda>instrument_id side. Inr (''cross'', ''merge'')),
     as_positions = Inr [[''posId'' \<mapsto> VStr ''p1'', ''instId'' \<mapsto> VStr ''BTC-USDT-SWAP'', ''posSide'' \<mapsto> VStr ''long'']]\<rparr>"

definition example_pending :: snapshot where
  "example_pending = Some [Some [''ordId'' \<mapsto> VStr ''o1'', ''posSide'' \<mapsto> VStr ''long'', ''slTriggerPx'' \<mapsto> VStr ''60000.0'']]"

definition example_submission :: "(string \<times> pyobj) list result \<times> intent_table \<times> protection_row list" where
  "example_submission = submit_exact_position_sltp (\<lambda>s. ''h'') example_source ''p1''
     [(''instId'', PyStr ''BTC-USDT-SWAP''), (''slTriggerPx'', PyStr ''60000'')] ''k2'' True (Some ''backup_stop'') (example_facts True)
     (map (\<lambda>a. (a, \<lambda>t. t)) (replicate 12 (example_answer True))) (Some example_pending) \<lparr>dt_wall = 9, dt_offset = None\<rparr> [] []"

lemma example_submission_accepted:
  "case example_submission of (r, t', ledger') \<Rightarrow> (case r of Inl e \<Rightarrow> False | Inr response \<Rightarrow> response_order_id response = Some ''o1'')
     \<and> map it_status t' = [''confirmed''] \<and> map pt_order_id ledger' = [''o1'']"
  by code_simp

lemma readback_response_is_proven_witness:
  "\<exists>response t' ledger'. example_submission = (Inr response, t', ledger')
     \<and> (\<exists>row \<in> set ledger'. pt_order_id row = ''o1'' \<and> pt_status row = VStr ''verified'')"
proof -
  obtain q t' ledger' where e: "example_submission = (q, t', ledger')" by (metis surj_pair)
  note a = example_submission_accepted [unfolded e prod.case]
  then obtain response where q: "q = Inr response" and o: "response_order_id response = Some ''o1''" by (auto split: sum.splits)
  have strip: "py_strip ''o1'' = ''o1''" by code_simp
  from readback_response_is_proven [OF e [unfolded example_submission_def q]] o strip
  have "\<exists>row \<in> set ledger'. pt_order_id row = ''o1'' \<and> pt_status row = VStr ''verified''" by auto
  with e q show ?thesis by blast
qed

end
