(* ===== verification/Py_Float.thy ===== *)
theory Py_Float
  imports Py_Decimal
begin

text \<open>
  Python's floats: the value of a finite one as a rational, each operation the exact result rounded to
  53 binary digits, half to even. Text is where decimal and binary meet: \<open>repr\<close> is the shortest decimal
  that reads back, the format \<open>g\<close> keeps six digits. Both are instances of one rounding, to \<open>p\<close> digits
  in base \<open>b\<close>.

  Not modelled: infinities and NaNs, and the bounds of the exponent (no overflow, no gradual underflow).
\<close>

section \<open>Rounding to a number of digits in a base\<close>

definition base_exp :: "nat \<Rightarrow> rat \<Rightarrow> int" where
  "base_exp b x = (let (n, d) = quotient_of \<bar>x\<bar>;
                       e = int (floorlog b (nat n)) - int (floorlog b (nat d))
                   in if of_nat b powi e \<le> \<bar>x\<bar> then e else e - 1)"

definition round_to :: "nat \<Rightarrow> nat \<Rightarrow> rat \<Rightarrow> rat" where
  "round_to b p x = (if x = 0 then 0
     else let s = base_exp b x - (int p - 1) in of_int (half_even (x / of_nat b powi s)) * of_nat b powi s)"

lemma floorlog_base:
  assumes "0 < (n::int)" "1 < b"
  shows "(of_nat b :: rat) powi (int (floorlog b (nat n)) - 1) \<le> of_int n"
    and "of_int n < (of_nat b :: rat) powi int (floorlog b (nat n))"
proof -
  have l: "b ^ (floorlog b (nat n) - 1) \<le> nat n" "nat n < b ^ floorlog b (nat n)"
    using assms floorlog_bounds [of "nat n" b] by auto
  have "floorlog b (nat n) \<noteq> 0" using assms by (simp add: floorlog_eq_zero_iff)
  then obtain k where k: "floorlog b (nat n) = Suc k" by (cases "floorlog b (nat n)") auto
  have "int (b ^ k) \<le> n" using l(1) assms k by (simp add: le_nat_iff)
  then have "rat_of_int (int (b ^ k)) \<le> of_int n" by (rule of_int_le_iff [THEN iffD2])
  then show "(of_nat b :: rat) powi (int (floorlog b (nat n)) - 1) \<le> of_int n" by (simp add: k)
  have "n < int (b ^ Suc k)" using l(2) assms k by (simp add: nat_less_iff)
  then have "rat_of_int n < of_int (int (b ^ Suc k))" by (rule of_int_less_iff [THEN iffD2])
  then show "of_int n < (of_nat b :: rat) powi int (floorlog b (nat n))"
    by (simp only: k power_int_of_nat) simp
qed

lemma base_exp_bounds:
  assumes "x \<noteq> 0" "1 < b"
  shows "of_nat b powi base_exp b x \<le> \<bar>x\<bar>" "\<bar>x\<bar> < of_nat b powi (base_exp b x + 1)"
proof -
  have b0: "(of_nat b :: rat) \<noteq> 0" "0 < (of_nat b :: rat) powi e" for e using assms(2) by simp_all
  obtain n d where q: "quotient_of \<bar>x\<bar> = (n, d)" by fastforce
  have d: "0 < d" using q by (rule quotient_of_denom_pos)
  have x: "\<bar>x\<bar> = of_int n / of_int d" using q by (rule quotient_of_div)
  have n: "0 < n" using assms(1) d x
    by (metis of_int_0_less_iff zero_less_abs_iff zero_less_divide_iff not_less_iff_gr_or_eq)
  let ?a = "floorlog b (nat n)" and ?c = "floorlog b (nat d)" and ?b = "of_nat b :: rat"
  note nr = floorlog_base [OF n assms(2)] and dr = floorlog_base [OF d assms(2)]
  let ?e = "int ?a - int ?c"
  have hi: "\<bar>x\<bar> < ?b powi (?e + 1)"
  proof -
    have "of_int n < ?b powi (?e + 1) * ?b powi (int ?c - 1)"
      using nr(2) b0(1) by (simp flip: power_int_add)
    also have "\<dots> \<le> ?b powi (?e + 1) * of_int d" using dr(1) b0(2) by (intro mult_left_mono) simp_all
    finally show ?thesis using d by (simp add: x divide_less_eq)
  qed
  have lo: "?b powi (?e - 1) \<le> \<bar>x\<bar>"
  proof -
    have "?b powi (?e - 1) * of_int d \<le> ?b powi (?e - 1) * ?b powi int ?c"
      using dr(2) b0(2) by (intro mult_left_mono) simp_all
    also have "\<dots> = ?b powi (int ?a - 1)" using b0(1) by (simp del: power_int_of_nat flip: power_int_add)
    also have "\<dots> \<le> of_int n" by (rule nr(1))
    finally show ?thesis using d by (simp add: x le_divide_eq)
  qed
  have e: "base_exp b x = (if ?b powi ?e \<le> \<bar>x\<bar> then ?e else ?e - 1)"
    by (simp add: base_exp_def q)
  show "?b powi base_exp b x \<le> \<bar>x\<bar>" using lo by (simp add: e)
  show "\<bar>x\<bar> < ?b powi (base_exp b x + 1)" using hi by (auto simp: e)
qed

lemma half_even_error: "\<bar>of_int (half_even x) - x\<bar> \<le> 1 / 2"
proof -
  have "0 \<le> x - of_int \<lfloor>x\<rfloor>" "x - of_int \<lfloor>x\<rfloor> < 1" by linarith+
  then show ?thesis by (auto simp: half_even_def Let_def abs_le_iff)
qed

text \<open>The relative error is at most half a unit of the last digit.\<close>

lemma round_to_error:
  assumes "1 < b" "0 < p"
  shows "\<bar>round_to b p x - x\<bar> \<le> \<bar>x\<bar> / (2 * of_nat b ^ (p - 1))"
proof (cases "x = 0")
  case False
  define s :: rat where "s = of_nat b powi (base_exp b x - (int p - 1))"
  have s: "0 < s" using assms(1) by (simp add: s_def)
  have "of_nat b powi base_exp b x = of_nat b powi (int (p - 1)) * s"
    using assms by (simp add: s_def power_int_add [symmetric] of_nat_diff del: power_int_of_nat)
  then have le: "of_nat b ^ (p - 1) * s \<le> \<bar>x\<bar>" using base_exp_bounds(1) [OF False assms(1)] by simp
  have "round_to b p x - x = (of_int (half_even (x / s)) - x / s) * s"
    using False s by (simp add: round_to_def Let_def s_def [symmetric] left_diff_distrib)
  then have "\<bar>round_to b p x - x\<bar> = \<bar>of_int (half_even (x / s)) - x / s\<bar> * s" using s by (simp add: abs_mult)
  also have "\<dots> \<le> 1 / 2 * s" using half_even_error [of "x / s"] s by (intro mult_right_mono) simp_all
  also have "\<dots> \<le> \<bar>x\<bar> / (2 * of_nat b ^ (p - 1))" using le assms(1) by (simp add: field_simps)
  finally show ?thesis .
qed (simp add: round_to_def)

lemma round_to_0 [simp]: "round_to b p 0 = 0"
  by (simp add: round_to_def)

lemma base_exp_minus [simp]: "base_exp b (- x) = base_exp b x"
  by (simp add: base_exp_def)

lemma round_to_minus: "round_to b p (- x) = - round_to b p x"
  by (simp add: round_to_def Let_def half_even_minus)

lemma round_to_pos:
  assumes "0 < x" "1 < b" "0 < p"
  shows "0 < round_to b p x"
proof -
  have "of_nat b ^ (p - 1) \<ge> (1 :: rat)" using assms(2) by simp
  then have "x / (2 * of_nat b ^ (p - 1)) \<le> x / 2" using assms by (intro divide_left_mono) auto
  with round_to_error [OF assms(2,3), of x] assms(1) show ?thesis by (simp add: abs_le_iff)
qed

section \<open>Rounding is a context\<close>

text \<open>Representable with \<open>p\<close> digits in base \<open>b\<close>.\<close>

definition has_digits :: "nat \<Rightarrow> nat \<Rightarrow> rat \<Rightarrow> bool" where
  "has_digits b p x \<longleftrightarrow> (\<exists>c e. x = of_int c * of_nat b powi e \<and> \<bar>c\<bar> < int b ^ p)"

definition last_place :: "nat \<Rightarrow> nat \<Rightarrow> rat \<Rightarrow> int" where
  "last_place b p x = base_exp b x - (int p - 1)"

locale digit_format =
  fixes b p :: nat
  assumes base: "1 < b" and prec: "0 < p"
begin

lemma powi_base [simp]: "0 < (of_nat b :: rat) powi e" "(of_nat b :: rat) powi e \<noteq> 0"
  using base by simp_all

lemma powi_base_less: "(of_nat b :: rat) powi m < of_nat b powi n \<longleftrightarrow> m < n"
proof
  assume l: "(of_nat b :: rat) powi m < of_nat b powi n"
  show "m < n"
  proof (rule ccontr)
    assume "\<not> m < n"
    then have "(of_nat b :: rat) powi n \<le> of_nat b powi m" using base by (intro power_int_increasing) simp_all
    with l show False by simp
  qed
next
  assume "m < n"
  then show "(of_nat b :: rat) powi m < of_nat b powi n" using base by (intro power_int_strict_increasing) simp_all
qed

lemma powi_base_le: "(of_nat b :: rat) powi m \<le> of_nat b powi n \<longleftrightarrow> m \<le> n"
  by (simp only: not_less [symmetric] powi_base_less)

lemma powi_shift: "m \<le> n \<Longrightarrow> (of_nat b :: rat) powi n = of_int (int b ^ nat (n - m)) * of_nat b powi m"
  using power_int_add [of "of_nat b :: rat" "n - m" m] base by (simp add: power_int_def)

lemma base_exp_unique:
  assumes "of_nat b powi e \<le> x" "x < of_nat b powi (e + 1)"
  shows "base_exp b x = e"
proof -
  have x: "0 < x" using assms(1) by (rule less_le_trans [OF powi_base(1)])
  then have "of_nat b powi base_exp b x \<le> x" "x < of_nat b powi (base_exp b x + 1)"
    using base_exp_bounds [of x b] base by simp_all
  with assms have "of_nat b powi e < (of_nat b powi (base_exp b x + 1) :: rat)"
    "of_nat b powi base_exp b x < (of_nat b powi (e + 1) :: rat)" by linarith+
  then show ?thesis by (simp add: powi_base_less)
qed

lemma round_scaled: "x \<noteq> 0 \<Longrightarrow> round_to b p x = of_int (half_even (x / of_nat b powi last_place b p x)) * of_nat b powi last_place b p x"
  by (simp add: round_to_def Let_def last_place_def)

lemma last_place_powi: "(of_nat b :: rat) powi base_exp b x = of_int (int b ^ (p - 1)) * of_nat b powi last_place b p x"
  "(of_nat b :: rat) powi (base_exp b x + 1) = of_int (int b ^ p) * of_nat b powi last_place b p x"
  using powi_shift [of "last_place b p x" "base_exp b x"] powi_shift [of "last_place b p x" "base_exp b x + 1"] prec
  by (simp_all add: last_place_def nat_diff_distrib)

lemma round_bounds:
  assumes "0 < x"
  shows "of_nat b powi base_exp b x \<le> round_to b p x" "round_to b p x \<le> of_nat b powi (base_exp b x + 1)"
proof -
  have l: "of_nat b powi base_exp b x \<le> x" "x < of_nat b powi (base_exp b x + 1)"
    using base_exp_bounds [of x b] base assms by simp_all
  have "of_int (int b ^ (p - 1)) \<le> x / of_nat b powi last_place b p x" using l(1) by (simp add: last_place_powi le_divide_eq)
  then have "int b ^ (p - 1) \<le> half_even (x / of_nat b powi last_place b p x)" by (rule half_even_ge)
  then have lo: "(of_int (int b ^ (p - 1)) :: rat) \<le> of_int (half_even (x / of_nat b powi last_place b p x))"
    by (simp only: of_int_le_iff)
  have "x / of_nat b powi last_place b p x \<le> of_int (int b ^ p)" using l(2) by (simp add: last_place_powi divide_le_eq)
  then have "half_even (x / of_nat b powi last_place b p x) \<le> int b ^ p" by (rule half_even_le)
  then have hi: "(of_int (half_even (x / of_nat b powi last_place b p x)) :: rat) \<le> of_int (int b ^ p)"
    by (simp only: of_int_le_iff)
  have nz: "x \<noteq> 0" using assms by simp
  show "of_nat b powi base_exp b x \<le> round_to b p x"
    unfolding last_place_powi round_scaled [OF nz] by (rule mult_right_mono [OF lo]) simp
  show "round_to b p x \<le> of_nat b powi (base_exp b x + 1)"
    unfolding last_place_powi round_scaled [OF nz] by (rule mult_right_mono [OF hi]) simp
qed

lemma round_has_digits: "has_digits b p x \<Longrightarrow> round_to b p x = x"
proof (cases "x = 0")
  case False
  assume "has_digits b p x"
  then obtain c e where x: "x = of_int c * of_nat b powi e" and c: "\<bar>c\<bar> < int b ^ p" by (auto simp: has_digits_def)
  have "\<bar>x\<bar> = of_int \<bar>c\<bar> * of_nat b powi e" by (simp add: x abs_mult)
  also have "\<dots> < of_int (int b ^ p) * of_nat b powi e"
    using c by (intro mult_strict_right_mono) (simp_all only: of_int_less_iff powi_base)
  also have "\<dots> = of_nat b powi (int p + e)" using powi_shift [of e "int p + e"] by simp
  finally have "of_nat b powi base_exp b x < (of_nat b powi (int p + e) :: rat)"
    using base_exp_bounds(1) [OF False base] by linarith
  then have e: "last_place b p x \<le> e" by (simp add: powi_base_less last_place_def)
  have "x = of_int (c * int b ^ nat (e - last_place b p x)) * of_nat b powi last_place b p x"
    using powi_shift [OF e] x by simp
  then have "x / of_nat b powi last_place b p x = of_int (c * int b ^ nat (e - last_place b p x))"
    by (metis nonzero_mult_div_cancel_right powi_base(2))
  then have "of_int (half_even (x / of_nat b powi last_place b p x)) = x / of_nat b powi last_place b p x" by (simp only: half_even_of_int)
  then show ?thesis using powi_base(2) [of "last_place b p x"] unfolding round_scaled [OF False] by simp
qed simp

lemma powi_has_digits: "has_digits b p (of_nat b powi e)"
  unfolding has_digits_def using base prec by (intro exI [of _ 1] exI [of _ e]) simp

lemma has_digits_minus: "has_digits b p x \<Longrightarrow> has_digits b p (- x)"
  by (force simp: has_digits_def intro: exI [of _ "- c" for c])

lemma has_digits_round_pos:
  assumes "0 < x"
  shows "has_digits b p (round_to b p x)"
proof -
  let ?c = "half_even (x / of_nat b powi last_place b p x)"
  have r: "round_to b p x = of_int ?c * of_nat b powi last_place b p x" using assms by (simp add: round_scaled)
  have pos: "0 < round_to b p x" using round_bounds(1) [OF assms] by (rule less_le_trans [OF powi_base(1)])
  then have c: "0 < ?c" unfolding r by (metis powi_base(1) zero_less_mult_pos2 of_int_0_less_iff)
  have "of_int ?c * of_nat b powi last_place b p x \<le> of_int (int b ^ p) * (of_nat b powi last_place b p x :: rat)"
    using round_bounds(2) [OF assms] unfolding r last_place_powi .
  then have le: "?c \<le> int b ^ p" by (simp only: mult_le_cancel_right_pos [OF powi_base(1)] of_int_le_iff)
  show ?thesis
  proof (cases "?c = int b ^ p")
    case True
    then have "round_to b p x = of_nat b powi (base_exp b x + 1)" by (simp only: r last_place_powi)
    then show ?thesis by (simp add: powi_has_digits)
  next
    case False
    with le c have "\<bar>?c\<bar> < int b ^ p" by linarith
    with r show ?thesis by (auto simp: has_digits_def)
  qed
qed

lemma has_digits_round: "has_digits b p (round_to b p x)"
proof -
  consider "0 < x" | "x = 0" | "0 < - x" by linarith
  then show ?thesis
  proof cases
    case 2
    then show ?thesis unfolding has_digits_def using base by (intro exI [of _ 0]) simp
  next
    case 3
    show ?thesis using has_digits_minus [OF has_digits_round_pos [OF 3]] by (simp add: round_to_minus)
  qed (rule has_digits_round_pos)
qed

lemma round_mono_pos:
  assumes "0 < x" "x \<le> y"
  shows "round_to b p x \<le> round_to b p y"
proof -
  have bx: "of_nat b powi base_exp b x \<le> x" and by': "y < of_nat b powi (base_exp b y + 1)"
    using base_exp_bounds [of x b] base_exp_bounds [of y b] base assms by simp_all
  have "of_nat b powi base_exp b x < (of_nat b powi (base_exp b y + 1) :: rat)" using bx by' assms(2) by linarith
  then have le: "base_exp b x \<le> base_exp b y" by (simp add: powi_base_less)
  show ?thesis
  proof (cases "base_exp b x = base_exp b y")
    case True
    then have u: "last_place b p x = last_place b p y" by (simp add: last_place_def)
    have "half_even (x / of_nat b powi last_place b p y) \<le> half_even (y / of_nat b powi last_place b p y)"
      using assms(2) powi_base(1) [of "last_place b p y"] by (intro half_even_mono divide_right_mono) simp_all
    then have "(of_int (half_even (x / of_nat b powi last_place b p y)) :: rat) \<le> of_int (half_even (y / of_nat b powi last_place b p y))"
      by (simp only: of_int_le_iff)
    then have "of_int (half_even (x / of_nat b powi last_place b p y)) * of_nat b powi last_place b p y
        \<le> of_int (half_even (y / of_nat b powi last_place b p y)) * (of_nat b powi last_place b p y :: rat)"
      using powi_base(1) [of "last_place b p y"] by (intro mult_right_mono) simp_all
    then show ?thesis using assms by (simp add: round_scaled u)
  next
    case False
    with le have "base_exp b x + 1 \<le> base_exp b y" by linarith
    then have "(of_nat b powi (base_exp b x + 1) :: rat) \<le> of_nat b powi base_exp b y" by (simp add: powi_base_le)
    with round_bounds(2) [of x] round_bounds(1) [of y] assms show ?thesis by linarith
  qed
qed

sublocale decimal_context "round_to b p" "has_digits b p"
proof unfold_locales
  show "round_to b p x \<le> round_to b p y" if le: "x \<le> y" for x y
  proof -
    have pos: "0 < round_to b p z" if "0 < z" for z using round_bounds(1) [OF that] powi_base(1) by (rule less_le_trans [rotated])
    consider "0 < x" | "x \<le> 0" "0 \<le> y" | "y < 0" using le by linarith
    then show ?thesis
    proof cases
      case 1
      then show ?thesis using le by (rule round_mono_pos)
    next
      case 2
      have "0 \<le> round_to b p y" using 2(2) pos [of y] by (cases "y = 0") auto
      moreover have "round_to b p x \<le> 0" using 2(1) pos [of "- x"] by (cases "x = 0") (auto simp: round_to_minus)
      ultimately show ?thesis by linarith
    next
      case 3
      with le have "round_to b p (- y) \<le> round_to b p (- x)" by (intro round_mono_pos) auto
      then show ?thesis by (simp add: round_to_minus)
    qed
  qed
  show "round_to b p x = x" if "has_digits b p x" for x using that by (rule round_has_digits)
  show "has_digits b p (round_to b p x)" for x by (rule has_digits_round)
  show "has_digits b p 0" using base by (auto simp: has_digits_def intro!: exI [of _ 0])
  show "round_to b p (- x) = - round_to b p x" for x by (rule round_to_minus)
  show "0 < round_to b p x" if "0 < x" for x using that base prec by (rule round_to_pos)
qed

end

section \<open>Evaluation\<close>

text \<open>The same on the numerator and the denominator, so that no fraction is reduced on the way.\<close>

definition half_div :: "int \<Rightarrow> int \<Rightarrow> int" where
  "half_div m k = (let q = m div k; r = m mod k in
     if 2 * r < k then q else if k < 2 * r then q + 1 else if even q then q else q + 1)"

lemma half_even_div:
  assumes "0 < k"
  shows "half_even (of_int m / of_int k) = half_div m k"
proof -
  have f: "\<lfloor>of_int m / (of_int k :: rat)\<rfloor> = m div k" by (rule floor_divide_of_int_eq)
  have "(of_int m :: rat) = of_int (m div k) * of_int k + of_int (m mod k)"
    by (metis div_mult_mod_eq of_int_add of_int_mult)
  then have r: "of_int m / of_int k - of_int (m div k) = (of_int (m mod k) / of_int k :: rat)"
    using assms by (simp add: field_simps)
  have "(of_int (m mod k) / of_int k < (1 / 2 :: rat)) = (of_int (2 * (m mod k)) < (of_int k :: rat))"
    "((1 / 2 :: rat) < of_int (m mod k) / of_int k) = (of_int k < (of_int (2 * (m mod k)) :: rat))"
    using assms by (simp_all add: field_simps)
  then show ?thesis unfolding half_even_def half_div_def Let_def f r by (simp only: of_int_less_iff)
qed

definition base_le :: "nat \<Rightarrow> int \<Rightarrow> int \<Rightarrow> int \<Rightarrow> bool" where
  "base_le b e n d = (if 0 \<le> e then d * int b ^ nat e \<le> n else d \<le> n * int b ^ nat (- e))"

lemma base_le:
  assumes "0 < d" "0 < b"
  shows "of_nat b powi e \<le> (of_int n / of_int d :: rat) \<longleftrightarrow> base_le b e n d"
proof (cases "0 \<le> e")
  case True
  have "of_nat b powi e = (of_int (int b ^ nat e) :: rat)" using True by (simp add: power_int_def)
  then have "of_nat b powi e \<le> (of_int n / of_int d :: rat) \<longleftrightarrow> (of_int (d * int b ^ nat e) :: rat) \<le> of_int n"
    using assms by (simp add: field_simps)
  then show ?thesis using True by (simp only: base_le_def of_int_le_iff if_True)
next
  case False
  define m where "m = int b ^ nat (- e)"
  have m: "0 < m" using assms(2) by (simp add: m_def)
  have p: "of_nat b powi e = (1 / of_int m :: rat)" using False by (simp add: m_def power_int_def field_simps)
  have "1 / of_int m \<le> (of_int n / of_int d :: rat) \<longleftrightarrow> (of_int d :: rat) \<le> of_int (n * m)"
    using assms(1) m by (simp add: divide_le_eq le_divide_eq mult.commute)
  then show ?thesis using False by (simp only: p base_le_def m_def of_int_le_iff if_False)
qed

text \<open>The number of digits, on integers.\<close>

function int_digits :: "int \<Rightarrow> int \<Rightarrow> int" where
  "int_digits b n = (if 1 < b \<and> 0 < n then 1 + int_digits b (n div b) else 0)"
  by auto
termination
proof (relation "measure (\<lambda>(b, n). nat n)")
  fix b n :: int
  assume "1 < b \<and> 0 < n"
  then show "((b, n div b), (b, n)) \<in> measure (\<lambda>(b, n). nat n)"
    by (simp add: int_div_less_self nat_less_eq_zless)
qed simp

declare int_digits.simps [simp del]

lemma int_digits:
  assumes "0 \<le> n" "1 < b"
  shows "int_digits (int b) n = int (floorlog b (nat n))"
  using assms
proof (induction "int b" n rule: int_digits.induct)
  case (1 n)
  show ?case
  proof (cases "n = 0")
    case True
    then show ?thesis by (simp add: int_digits.simps floorlog_def)
  next
    case False
    then have n: "0 < n" "0 < nat n" using "1.prems" by simp_all
    have d: "nat n div b = nat (n div int b)" using "1.prems"(1) by (simp add: nat_div_distrib)
    have f: "floorlog b (nat n) = Suc (floorlog b (nat n div b))"
      using compute_floorlog [of b "nat n"] n "1.prems"(2) by simp
    have "int_digits (int b) n = 1 + int_digits (int b) (n div int b)"
      using n "1.prems"(2) by (subst int_digits.simps) simp
    also have "int_digits (int b) (n div int b) = int (floorlog b (nat (n div int b)))"
      using n "1.prems"(2) by (intro "1.hyps") (simp_all add: pos_imp_zdiv_nonneg_iff)
    finally show ?thesis by (simp add: f d)
  qed
qed

lemma base_exp_code [code]:
  "base_exp b x = (let (n, d) = quotient_of x in
     if b \<le> 1 then (let e = int (floorlog b (nat \<bar>n\<bar>)) - int (floorlog b (nat d))
                    in if of_nat b powi e \<le> \<bar>x\<bar> then e else e - 1)
     else let e = int_digits (int b) \<bar>n\<bar> - int_digits (int b) d
          in if base_le b e \<bar>n\<bar> d then e else e - 1)"
proof -
  obtain n d where q: "quotient_of x = (n, d)" by fastforce
  have d: "0 < d" and x: "x = of_int n / of_int d" and cop: "coprime n d"
    using q quotient_of_denom_pos quotient_of_div quotient_of_coprime by blast+
  have ax: "\<bar>x\<bar> = of_int \<bar>n\<bar> / of_int d" using d by (simp add: x)
  have "coprime \<bar>n\<bar> d" using cop by simp
  then have qa: "quotient_of \<bar>x\<bar> = (\<bar>n\<bar>, d)"
    using d unfolding ax Fract_of_int_quotient [symmetric] by (simp add: quotient_of_Fract Rat.normalize_stable)
  have l: "of_nat b powi e \<le> \<bar>x\<bar> \<longleftrightarrow> base_le b e \<bar>n\<bar> d" if "\<not> b \<le> 1" for e
    unfolding ax using base_le [OF d, of b e "\<bar>n\<bar>"] that by simp
  have i: "int_digits (int b) \<bar>n\<bar> = int (floorlog b (nat \<bar>n\<bar>))" "int_digits (int b) d = int (floorlog b (nat d))"
    if "\<not> b \<le> 1" using that d by (simp_all add: int_digits)
  show ?thesis unfolding base_exp_def qa q Let_def prod.case using l i by simp
qed

text \<open>A fraction in lowest terms, so that what follows computes with small numbers.\<close>

definition lowest_terms :: "int \<Rightarrow> int \<Rightarrow> rat" where
  "lowest_terms n d = (let g = gcd n d in Rat.Fract (n div g) (d div g))"

lemma lowest_terms: "0 < d \<Longrightarrow> lowest_terms n d = of_int n / of_int d"
proof -
  assume d: "0 < d"
  have g: "gcd n d \<noteq> 0" using d by simp
  have "(of_int n :: rat) = of_int (n div gcd n d) * of_int (gcd n d)" "(of_int d :: rat) = of_int (d div gcd n d) * of_int (gcd n d)"
    by (simp_all flip: of_int_mult)
  then have "(of_int n :: rat) / of_int d
      = (of_int (n div gcd n d) * of_int (gcd n d)) / (of_int (d div gcd n d) * of_int (gcd n d))" by simp
  then show ?thesis using g unfolding lowest_terms_def Let_def Fract_of_int_quotient by simp
qed

lemma round_to_code [code]:
  "round_to b p x = (let (n, d) = quotient_of x in
     if n = 0 then 0
     else if b = 0 then (let s = base_exp b x - (int p - 1) in of_int (half_even (x / of_nat b powi s)) * of_nat b powi s)
     else let s = base_exp b x - (int p - 1) in
       if 0 \<le> s then of_int (half_div n (d * int b ^ nat s) * int b ^ nat s)
       else lowest_terms (half_div (n * int b ^ nat (- s)) d) (int b ^ nat (- s)))"
proof -
  obtain n d where q: "quotient_of x = (n, d)" by fastforce
  have d: "0 < d" and x: "x = of_int n / of_int d" using q quotient_of_denom_pos quotient_of_div by blast+
  define s where "s = base_exp b x - (int p - 1)"
  show ?thesis
  proof (cases "n = 0 \<or> b = 0")
    case True
    have "x = 0 \<longleftrightarrow> n = 0" using d by (simp add: x)
    with True show ?thesis unfolding round_to_def q Let_def prod.case by auto
  next
    case False
    then have nz: "x \<noteq> 0" "0 < int b" using d by (auto simp: x)
    show ?thesis
    proof (cases "0 \<le> s")
      case True
      have p: "of_nat b powi s = (of_int (int b ^ nat s) :: rat)" using True by (simp add: power_int_def)
      have "x / of_nat b powi s = of_int n / of_int (d * int b ^ nat s)" unfolding p x by simp
      moreover have "0 < d * int b ^ nat s" using d nz(2) by simp
      ultimately have "half_even (x / of_nat b powi s) = half_div n (d * int b ^ nat s)" by (simp only: half_even_div)
      then have "of_int (half_even (x / of_nat b powi s)) * of_nat b powi s = (of_int (half_div n (d * int b ^ nat s) * int b ^ nat s) :: rat)"
        unfolding p by simp
      then show ?thesis using False True nz(1) by (simp add: q round_to_def Let_def s_def [symmetric])
    next
      case neg: False
      have p: "of_nat b powi s = (1 / of_int (int b ^ nat (- s)) :: rat)" using neg by (simp add: power_int_def field_simps)
      have "x / of_nat b powi s = of_int (n * int b ^ nat (- s)) / of_int d" unfolding p x by simp
      then have "half_even (x / of_nat b powi s) = half_div (n * int b ^ nat (- s)) d" using d by (simp only: half_even_div)
      then have "of_int (half_even (x / of_nat b powi s)) * of_nat b powi s
          = lowest_terms (half_div (n * int b ^ nat (- s)) d) (int b ^ nat (- s))"
        unfolding p using nz(2) by (simp add: lowest_terms)
      then show ?thesis using False neg nz(1) by (simp add: q round_to_def Let_def s_def [symmetric])
    qed
  qed
qed

section \<open>Floats\<close>

definition fround :: "rat \<Rightarrow> rat" where "fround = round_to 2 53"

interpretation bin: digit_format 2 53
  by unfold_locales simp_all

interpretation six: digit_format 10 6
  by unfold_locales simp_all

interpretation flt: decimal_context fround "has_digits 2 53"
  unfolding fround_def by (rule bin.decimal_context_axioms)

text \<open>Evaluation again: a number with at most 53 binary digits, few of them fractional, is returned as it is.\<close>

lemma fround_code [code]:
  "fround x = (let (n, d) = quotient_of x in
     if (d = 1 \<or> d = 2 \<or> d = 4 \<or> d = 8) \<and> \<bar>n\<bar> < 9007199254740992 then Rat.Fract n d else round_to 2 53 x)"
proof -
  obtain n d where q: "quotient_of x = (n, d)" by fastforce
  have x: "x = of_int n / of_int d" using q by (rule quotient_of_div)
  have "fround x = x" if d: "d = 1 \<or> d = 2 \<or> d = 4 \<or> d = 8" and n: "\<bar>n\<bar> < 9007199254740992"
  proof (rule flt.rnd_exact)
    have k: "of_int n / of_int d = (of_int n * 2 powi (- int k) :: rat)" if "d = 2 ^ k" for k
      using that by (simp add: power_int_minus divide_inverse)
    have "\<exists>k. d = 2 ^ k" using d by (auto intro: exI [of _ 0] exI [of _ 1] exI [of _ 2] exI [of _ 3])
    then obtain k where "d = 2 ^ k" by blast
    then have "x = of_int n * of_nat 2 powi (- int k)" using k x by simp
    then show "has_digits 2 53 x" unfolding has_digits_def using n
      by (intro exI [of _ n] exI [of _ "- int k"]) simp
  qed
  then show ?thesis unfolding q Let_def prod.case Fract_of_int_quotient x [symmetric] by (simp add: fround_def)
qed

definition fadd :: "rat \<Rightarrow> rat \<Rightarrow> rat" where "fadd x y = fround (x + y)"
definition fsub :: "rat \<Rightarrow> rat \<Rightarrow> rat" where "fsub x y = fround (x - y)"
definition fmul :: "rat \<Rightarrow> rat \<Rightarrow> rat" where "fmul x y = fround (x * y)"
definition fdiv :: "rat \<Rightarrow> rat \<Rightarrow> rat" where "fdiv x y = fround (x / y)"

text \<open>\<open>Decimal(str(x))\<close>: the shortest decimal that reads back as \<open>x\<close>.\<close>

definition float_decimal :: "rat \<Rightarrow> rat" where
  "float_decimal x = (case find (\<lambda>n. fround (round_to 10 n x) = x) [1..<18] of
       None \<Rightarrow> round_to 10 17 x | Some n \<Rightarrow> round_to 10 n x)"

text \<open>\<open>float(f"{x:g}")\<close>: six significant digits.\<close>

definition general_format :: "rat \<Rightarrow> rat" where
  "general_format x = fround (round_to 10 6 x)"

text \<open>How far an operation may be off, relative to its exact result.\<close>

definition float_eps :: rat where "float_eps = 1 / 2 ^ 53"

lemma float_eps_simps [simp]: "0 < float_eps" "0 \<le> float_eps" "float_eps \<le> 1 / 2"
  by (simp_all add: float_eps_def)

lemma fround_error: "\<bar>fround x - x\<bar> \<le> \<bar>x\<bar> * float_eps"
  using round_to_error [of 2 53 x] by (simp add: fround_def float_eps_def)

lemma fround_bounds:
  assumes "0 \<le> x"
  shows "fround x \<le> x * (1 + float_eps)" "x * (1 - float_eps) \<le> fround x"
  using fround_error [of x] assms by (simp_all add: abs_le_iff algebra_simps)

lemma float_decimal_error: "\<bar>float_decimal x - x\<bar> \<le> \<bar>x\<bar> * (2 * float_eps)"
proof (cases "find (\<lambda>n. fround (round_to 10 n x) = x) [1..<18]")
  case None
  have "\<bar>round_to 10 17 x - x\<bar> \<le> \<bar>x\<bar> / (2 * 10 ^ 16)" using round_to_error [of 10 17 x] by simp
  also have "\<dots> \<le> \<bar>x\<bar> * (2 * float_eps)" using mult_left_mono [of "1 / (2 * 10 ^ 16)" "2 * float_eps" "\<bar>x\<bar>"] by (simp add: float_eps_def)
  finally show ?thesis unfolding float_decimal_def None option.case .
next
  case (Some n)
  let ?r = "round_to 10 n x"
  from Some have x: "fround ?r = x" by (auto simp: find_Some_iff)
  have e: "\<bar>x - ?r\<bar> \<le> \<bar>?r\<bar> * float_eps" using fround_error [of ?r] by (simp add: x)
  have "\<bar>?r\<bar> \<le> \<bar>x\<bar> + \<bar>x - ?r\<bar>" by linarith
  also have "\<dots> \<le> \<bar>x\<bar> + \<bar>?r\<bar> * (1 / 2)" using e mult_left_mono [OF float_eps_simps(3), of "\<bar>?r\<bar>"] by linarith
  finally have "\<bar>?r\<bar> \<le> 2 * \<bar>x\<bar>" by linarith
  then have "\<bar>?r\<bar> * float_eps \<le> 2 * \<bar>x\<bar> * float_eps" by (rule mult_right_mono) simp
  also have "2 * \<bar>x\<bar> * float_eps = \<bar>x\<bar> * (2 * float_eps)" by simp
  finally have "\<bar>x - ?r\<bar> \<le> \<bar>x\<bar> * (2 * float_eps)" using e by linarith
  then show ?thesis unfolding float_decimal_def Some option.case by (simp only: abs_minus_commute)
qed

lemma float_decimal_bounds:
  assumes "0 \<le> x"
  shows "float_decimal x \<le> x * (1 + 2 * float_eps)" "x * (1 - 2 * float_eps) \<le> float_decimal x"
  using float_decimal_error [of x] assms by (simp_all add: abs_le_iff algebra_simps)

lemma float_decimal_0 [simp]: "float_decimal 0 = 0"
  using float_decimal_error [of 0] by simp

lemma float_decimal_pos:
  assumes "0 < x"
  shows "0 < float_decimal x"
proof -
  have "0 < x * (1 - 2 * float_eps)" using assms by (simp add: float_eps_def)
  with float_decimal_bounds(2) [of x] assms show ?thesis by linarith
qed

section \<open>Seventeen digits read back\<close>

lemma half_even_near:
  assumes "\<bar>x - of_int k\<bar> < 1 / 2"
  shows "half_even x = k"
proof -
  have "\<bar>of_int (half_even x) - x\<bar> \<le> 1 / 2" by (rule half_even_error)
  then have "\<bar>of_int (half_even x) - (of_int k :: rat)\<bar> < 1" using assms by linarith
  then have "\<bar>of_int (half_even x - k)\<bar> < (1 :: rat)" by simp
  then have "of_int \<bar>half_even x - k\<bar> < (of_int 1 :: rat)" by (simp only: of_int_abs of_int_1)
  then have "\<bar>half_even x - k\<bar> < 1" by (simp only: of_int_less_iff)
  then show ?thesis by linarith
qed

text \<open>A number within a quarter of a unit (relatively) of a float rounds to it.\<close>

lemma fround_near_pos:
  assumes "0 < x" "has_digits 2 53 x" "\<bar>r - x\<bar> < x / 2 ^ 54"
  shows "fround r = x"
proof -
  define s where "s = last_place 2 53 x"
  define u :: rat where "u = 2 powi s"
  have u: "0 < u" by (simp add: u_def)
  have lo: "2 ^ 52 * u \<le> x" and hi: "x < 2 ^ 53 * u"
    using base_exp_bounds [of x 2] assms(1) bin.last_place_powi [of x] by (simp_all add: u_def s_def)
  have "round_to 2 53 x = x" using assms(2) by (rule bin.round_has_digits)
  then obtain c where c: "x = of_int c * u"
    using bin.round_scaled [of x] assms(1) unfolding u_def s_def by (metis less_irrefl of_nat_numeral)
  have "of_int (2 ^ 52) \<le> (of_int c :: rat)" "of_int c < (of_int (2 ^ 53) :: rat)" using lo hi u unfolding c by simp_all
  then have cb: "2 ^ 52 \<le> c" "c < 2 ^ 53" by (simp_all only: of_int_le_iff of_int_less_iff)
  have near: "\<bar>r / u - of_int c\<bar> < of_int c / 2 ^ 54"
  proof -
    have "r / u - of_int c = (r - x) / u" using u by (simp add: c field_simps)
    then have "\<bar>r / u - of_int c\<bar> = \<bar>r - x\<bar> / u" using u by simp
    also have "\<dots> < (x / 2 ^ 54) / u" using assms(3) u by (rule divide_strict_right_mono)
    also have "\<dots> = of_int c / 2 ^ 54" using u by (simp add: c)
    finally show ?thesis .
  qed
  have r: "r = (r / u) * u" using u by simp
  have "of_int c \<le> (of_int (2 ^ 53) :: rat)" using cb(2) by (simp only: of_int_le_iff)
  then have half: "\<bar>r / u - of_int c\<bar> < 1 / 2" using near by simp
  show ?thesis
  proof (cases "2 ^ 52 \<le> r / u")
    case True
    have "of_int c + 1 \<le> (2 ^ 53 :: rat)"
      using cb(2) of_int_le_iff [of "c + 1" "2 ^ 53", where ?'a = rat] by simp
    then have "r / u < 2 ^ 53" using half by linarith
    then have b: "2 powi (s + 52) \<le> r" "r < 2 powi (s + 53)"
      using True u by (simp_all add: u_def power_int_add le_divide_eq divide_less_eq mult.commute)
    then have "last_place 2 53 r = s" using bin.base_exp_unique [of "s + 52" r] by (simp add: last_place_def add.commute)
    moreover have "half_even (r / u) = c" using half by (rule half_even_near)
    moreover have "0 < r" using b(1) by (rule less_le_trans [rotated]) simp
    ultimately show ?thesis by (simp add: fround_def bin.round_scaled c u_def)
  next
    case False
    then have "of_int c < (2 ^ 52 + 1 :: rat)" using half by linarith
    then have "c < 2 ^ 52 + 1" using of_int_less_iff [of c "2 ^ 52 + 1", where ?'a = rat] by simp
    with cb(1) have c52: "c = 2 ^ 52" by linarith
    have near52: "2 ^ 51 \<le> y" if "\<bar>y - 2 ^ 52\<bar> < 1 / 2" for y :: rat
      using that by (simp add: abs_if split: if_splits)
    have "\<bar>r / u - 2 ^ 52\<bar> < 1 / 2" using half unfolding c52 by simp
    then have "2 ^ 51 \<le> r / u" by (rule near52)
    moreover have "r / u < 2 ^ 52" using False by (simp only: not_le)
    ultimately have q: "2 ^ 51 \<le> r / u" "r / u < 2 ^ 52" by simp_all
    then have b: "2 powi (s + 51) \<le> r" "r < 2 powi (s + 52)"
      using u by (simp_all add: u_def power_int_add le_divide_eq divide_less_eq mult.commute)
    then have l: "last_place 2 53 r = s - 1" using bin.base_exp_unique [of "s + 51" r] by (simp add: last_place_def add.commute)
    have v: "(2::rat) powi (s - 1) = u / 2" by (simp add: u_def power_int_diff)
    have "r / (u / 2) - of_int (2 ^ 53) = 2 * (r / u - of_int c)" by (simp add: c52)
    then have "\<bar>r / (u / 2) - of_int (2 ^ 53)\<bar> = 2 * \<bar>r / u - of_int c\<bar>" by (simp only: abs_mult abs_numeral)
    also have "\<dots> < 1 / 2" using near by (simp add: c52)
    finally have "half_even (r / (u / 2)) = 2 ^ 53" by (rule half_even_near)
    moreover have "0 < r" using b(1) by (rule less_le_trans [rotated]) simp
    ultimately show ?thesis by (simp add: fround_def bin.round_scaled l v c c52)
  qed
qed

lemma fround_near:
  assumes "has_digits 2 53 x" "\<bar>r - x\<bar> < \<bar>x\<bar> / 2 ^ 54"
  shows "fround r = x"
proof -
  consider "0 < x" | "x = 0" | "x < 0" by linarith
  then show ?thesis
  proof cases
    case 1
    then show ?thesis using assms by (intro fround_near_pos) simp_all
  next
    case 3
    have "has_digits 2 53 (- x)" "\<bar>- r - (- x)\<bar> < - x / 2 ^ 54"
      using assms 3 by (simp_all add: bin.has_digits_minus abs_minus_commute)
    then have "fround (- r) = - x" using 3 by (intro fround_near_pos) simp_all
    then show ?thesis by (simp add: flt.rnd_minus)
  qed (use assms(2) in simp)
qed

lemma float_decimal_reads_back:
  assumes "has_digits 2 53 x"
  shows "fround (float_decimal x) = x"
proof (cases "find (\<lambda>n. fround (round_to 10 n x) = x) [1..<18]")
  case None
  have "fround (round_to 10 17 x) = x"
  proof (cases "x = 0")
    case False
    have "\<bar>round_to 10 17 x - x\<bar> \<le> \<bar>x\<bar> / (2 * 10 ^ 16)" using round_to_error [of 10 17 x] by simp
    also have "\<dots> < \<bar>x\<bar> / 2 ^ 54" using False by (intro divide_strict_left_mono) simp_all
    finally show ?thesis by (rule fround_near [OF assms])
  qed simp
  then show ?thesis unfolding float_decimal_def None option.case .
next
  case (Some n)
  then have "fround (round_to 10 n x) = x" by (auto simp: find_Some_iff)
  then show ?thesis unfolding float_decimal_def Some option.case .
qed

end
