(* ===== verification/Price_Normalization.thy ===== *)
theory Price_Normalization
  imports Py_Object Py_Float
begin

text \<open>
  Prices in message text (\<open>price_normalization.py\<close>): every number of a text, expanded when it is
  written short (5.89 for 58900), either by the character for ten thousand, by a reference price, or
  by the band the symbol trades in. A string is its UTF-8 bytes, of which only that character and
  ASCII matter here; a float is its value as in \<open>Py_Float\<close>.
\<close>

section \<open>Reading floats\<close>

text \<open>\<open>float(v)\<close>; \<open>None\<close> is its \<open>TypeError\<close> or \<open>ValueError\<close>. Infinities and NaNs are not modelled.\<close>

definition py_float :: "pyobj \<Rightarrow> rat option" where
  "py_float v = (case v of
       Scalar (VBool b) \<Rightarrow> Some (if b then 1 else 0)
     | Scalar VNone \<Rightarrow> None
     | Scalar s \<Rightarrow> map_option fround (finite_decimal s)
     | _ \<Rightarrow> None)"

definition positive_float :: "pyobj \<Rightarrow> rat option" where
  "positive_float v = (case py_float v of None \<Rightarrow> None | Some x \<Rightarrow> if 0 < x then Some x else None)"

section \<open>Shorthand\<close>

text \<open>\<open>s.replace(old, "")\<close>, for a non-empty \<open>old\<close>.\<close>

function erase :: "string \<Rightarrow> string \<Rightarrow> string" where
  "erase old [] = []"
| "erase old (c # s) = (if old \<noteq> [] \<and> take (length old) (c # s) = old then erase old (drop (length old) (c # s))
                        else c # erase old s)"
  by pat_completeness auto
termination by (relation "measure (\<lambda>(old, s). length s)") auto

definition symbol_price_band :: "pyobj \<Rightarrow> (rat \<times> rat) option" where
  "symbol_price_band symbol =
     (let normalized = erase ''USDT'' (erase ''-USDT'' (py_upper (obj_str_or_empty symbol)))
      in if normalized = ''BTC'' then Some (10000, 200000)
         else if normalized = ''ETH'' then Some (500, 20000) else None)"

text \<open>\<open>min(xs, key=..)\<close>: the first of the smallest.\<close>

fun first_min :: "('a \<Rightarrow> 'k::linorder) \<Rightarrow> 'a \<Rightarrow> 'a list \<Rightarrow> 'a" where
  "first_min key x [] = x"
| "first_min key x (y # ys) = first_min key (if key y < key x then y else x) ys"

definition normalize_against_reference :: "rat \<Rightarrow> rat \<Rightarrow> rat" where
  "normalize_against_reference price reference =
     (if fmul reference (fround (1 / 5)) \<le> price then price
      else first_min (\<lambda>item. fdiv \<bar>fsub item reference\<bar> reference) (fmul price 1)
             (map (fmul price) [10, 100, 1000, 10000]))"

text \<open>The loop \<open>while normalized < lower: normalized *= 10\<close>, entered with a positive number.\<close>

lemma fmul_ten: "0 < x \<Longrightarrow> 5 * x \<le> fmul x 10"
proof -
  assume x: "0 < x"
  then have "x * 10 * (1 - float_eps) \<le> fmul x 10" unfolding fmul_def by (intro fround_bounds) simp
  moreover have "x * 10 * (1 / 2) \<le> x * 10 * (1 - float_eps)"
    using x float_eps_simps(3) by (intro mult_left_mono) linarith+
  ultimately show ?thesis by linarith
qed

function expand_to :: "rat \<Rightarrow> rat \<Rightarrow> rat" where
  "expand_to lower x = (if 0 < x \<and> x < lower then expand_to lower (fmul x 10) else x)"
  by auto
termination
proof (relation "measure (\<lambda>(lower, x). nat \<lfloor>2 * lower / x\<rfloor>)")
  fix lower x :: rat
  assume l: "0 < x \<and> x < lower"
  then have "2 * lower / fmul x 10 \<le> 2 * lower / (5 * x)" using fmul_ten [of x] by (intro divide_left_mono) simp_all
  also have "\<dots> = (2 * lower / x) / 5" by simp
  finally have a: "2 * lower / fmul x 10 \<le> (2 * lower / x) / 5" .
  have b: "2 < 2 * lower / x" using l by (simp add: less_divide_eq)
  have "u + 1 \<le> v" if "u \<le> v / 5" "2 < v" for u v :: rat using that by linarith
  from this [OF a b] have "2 * lower / fmul x 10 + 1 \<le> 2 * lower / x" .
  then have "\<lfloor>2 * lower / fmul x 10\<rfloor> + 1 \<le> \<lfloor>2 * lower / x\<rfloor>"
    by (metis floor_mono floor_add_int of_int_1)
  moreover have "2 \<le> \<lfloor>2 * lower / x\<rfloor>" using b by linarith
  ultimately show "((lower, fmul x 10), (lower, x)) \<in> measure (\<lambda>(lower, x). nat \<lfloor>2 * lower / x\<rfloor>)" by simp
qed simp

declare expand_to.simps [simp del]

definition normalize_price_value :: "rat \<Rightarrow> pyobj \<Rightarrow> pyobj \<Rightarrow> rat" where
  "normalize_price_value price symbol reference_price =
     (if price \<le> 0 then price
      else case positive_float reference_price of
        Some reference \<Rightarrow> normalize_against_reference price reference
      | None \<Rightarrow> (case symbol_price_band symbol of
          None \<Rightarrow> price
        | Some (lower, upper) \<Rightarrow>
            (let normalized = expand_to lower price in if normalized \<le> upper then normalized else price)))"

section \<open>The numbers of a text\<close>

text \<open>
  The pattern: digits, groups of a comma and three digits, and a fraction. All three are greedy and
  none ever gives back what it took, so its second alternative is never tried.
\<close>

fun take_groups :: "string \<Rightarrow> string \<times> string" where
  "take_groups (c # x # y # z # s) =
     (if c = CHR '','' \<and> is_digit x \<and> is_digit y \<and> is_digit z
      then (let (g, r) = take_groups s in (c # x # y # z # g, r)) else ([], c # x # y # z # s))"
| "take_groups s = ([], s)"

definition take_fraction :: "string \<Rightarrow> string \<times> string" where
  "take_fraction s = (case s of
       c # r \<Rightarrow> if c = CHR ''.'' \<and> takeWhile is_digit r \<noteq> [] then (c # takeWhile is_digit r, dropWhile is_digit r) else ([], s)
     | [] \<Rightarrow> ([], s))"

definition match_price :: "string \<Rightarrow> string \<times> string" where
  "match_price s =
     (let (g, r) = take_groups (dropWhile is_digit s); (f, r') = take_fraction r
      in (takeWhile is_digit s @ g @ f, r'))"

lemma take_groups_append: "take_groups s = (g, r) \<Longrightarrow> s = g @ r"
  by (induction s arbitrary: g r rule: take_groups.induct) (auto split: if_splits prod.splits)

lemma take_fraction_append: "take_fraction s = (f, r) \<Longrightarrow> s = f @ r"
  by (auto simp: take_fraction_def split: list.splits if_splits)

lemma match_price_append:
  assumes "match_price s = (m, r)"
  shows "s = m @ r"
proof -
  obtain g u where g: "take_groups (dropWhile is_digit s) = (g, u)" by fastforce
  obtain f v where f: "take_fraction u = (f, v)" by fastforce
  have "s = takeWhile is_digit s @ g @ f @ v"
    using take_groups_append [OF g] take_fraction_append [OF f] takeWhile_dropWhile_id [of is_digit s] by simp
  moreover have "m = takeWhile is_digit s @ g @ f" "r = v" using assms by (simp_all add: match_price_def g f)
  ultimately show ?thesis by simp
qed

lemma match_price_nonempty: "is_digit c \<Longrightarrow> match_price (c # s) = (m, r) \<Longrightarrow> m \<noteq> []"
  by (auto simp: match_price_def split: prod.splits)

text \<open>\<open>finditer\<close>: every match, with the text after it.\<close>

function find_prices :: "string \<Rightarrow> (string \<times> string) list" where
  "find_prices [] = []"
| "find_prices (c # s) = (if is_digit c then match_price (c # s) # find_prices (snd (match_price (c # s))) else find_prices s)"
  by pat_completeness auto
termination
proof (relation "measure length")
  fix c s
  assume c: "is_digit c"
  obtain m r where m: "match_price (c # s) = (m, r)" by fastforce
  have "length (c # s) = length m + length r" using match_price_append [OF m] by (metis length_append)
  moreover have "0 < length m" using match_price_nonempty [OF c m] by simp
  ultimately show "(snd (match_price (c # s)), c # s) \<in> measure length" by (simp add: m)
qed simp_all

text \<open>\<open>float(raw_number.replace(",", ""))\<close>, the character for ten thousand, and one match.\<close>

definition number_value :: "string \<Rightarrow> rat option" where
  "number_value raw = py_float (PyStr (erase '','' raw))"

definition ten_thousand :: string where
  "ten_thousand = [CHR 0xE4, CHR 0xB8, CHR 0x87]"

definition matched_price :: "pyobj \<Rightarrow> pyobj \<Rightarrow> string \<times> string \<Rightarrow> rat list" where
  "matched_price symbol reference_price = (\<lambda>(raw, rest). case number_value raw of
       None \<Rightarrow> []
     | Some x \<Rightarrow>
         (let price = (if take 3 rest = ten_thousand then fmul x 10000
                       else normalize_price_value x symbol reference_price)
          in if 0 < price then [general_format price] else []))"

definition extract_normalized_prices :: "pyobj \<Rightarrow> pyobj \<Rightarrow> pyobj \<Rightarrow> rat list" where
  "extract_normalized_prices txt symbol reference_price =
     (if missing txt then [] else concat (map (matched_price symbol reference_price) (find_prices (obj_str txt))))"

section \<open>Lemmas\<close>

text \<open>A price read from text is a positive float.\<close>

lemma has_digits_fround [simp]: "has_digits 2 53 (fround x)"
  by (rule flt.exact_rnd)

lemma general_format_pos [simp]: "0 < general_format x \<longleftrightarrow> 0 < x"
  by (simp add: general_format_def)

lemma extracted_prices:
  assumes "p \<in> set (extract_normalized_prices txt symbol reference)"
  shows "0 < p" "has_digits 2 53 p"
  using assms
  by (auto simp: extract_normalized_prices_def matched_price_def general_format_def Let_def split: if_splits option.splits)

end
