(* ===== verification/Order_Ids.thy ===== *)
theory Order_Ids
  imports Py_Object
begin

text \<open>
  The names of entry orders: the short codes of the channels (\<open>kol_codes.py\<close>) and the client order
  ids and strategy keys built from them (\<open>build_strategy_instance_id\<close>, \<open>build_client_order_id\<close> of
  \<open>execution_bindings.py\<close>). The hash \<open>sha1\<close> (text to hexadecimal digest) is an argument; what it is
  relied on for is \<open>hex_digest\<close>: forty hexadecimal digits. The mapping in the configuration file comes
  parsed, as the list of its items.
\<close>

section \<open>Codes\<close>

definition is_alnum :: "char \<Rightarrow> bool" where
  "is_alnum c = (let n = char_code c in is_digit c \<or> (65 \<le> n \<and> n \<le> 90) \<or> (97 \<le> n \<and> n \<le> 122))"

definition py_isalnum :: "string \<Rightarrow> bool" where
  "py_isalnum s \<longleftrightarrow> s \<noteq> [] \<and> list_all is_alnum s"

definition is_kol_code :: "string \<Rightarrow> bool" where
  "is_kol_code code \<longleftrightarrow> 1 \<le> length code \<and> length code \<le> 8
     \<and> list_all (\<lambda>c. is_alnum c \<and> upper_char c = c) code"

definition normalize_kol_code :: "pyobj \<Rightarrow> string result" where
  "normalize_kol_code v =
     (let code = py_upper (filter is_alnum (obj_str_or_empty v))
      in if is_kol_code code then Inr code else Inl (ValueError ''kol code must be 1-8 alphanumeric characters''))"

text \<open>The loop over the items: a code may not name two chats; a later item of one chat replaces the earlier.\<close>

fun load_codes :: "(pyval \<times> pyobj) list \<Rightarrow> (string \<Rightarrow> int option) \<Rightarrow> (int \<Rightarrow> string option) \<Rightarrow> (int \<Rightarrow> string option) result" where
  "load_codes [] used res = Inr res"
| "load_codes ((raw_chat_id, raw_code) # items) used res =
     (case py_int raw_chat_id of
        None \<Rightarrow> Inl (ValueError ''chat id'')
      | Some chat_id \<Rightarrow> rbind (normalize_kol_code raw_code) (\<lambda>code.
          if used code \<noteq> None \<and> used code \<noteq> Some chat_id then Inl (ValueError ''duplicate kol code'')
          else load_codes items (used(code \<mapsto> chat_id)) (res(chat_id \<mapsto> code))))"

definition load_kol_code_map :: "(pyval \<times> pyobj) list \<Rightarrow> (int \<Rightarrow> string option) result" where
  "load_kol_code_map items = load_codes items (\<lambda>c. None) (\<lambda>i. None)"

definition resolve_kol_code :: "(pyval \<times> pyobj) list \<Rightarrow> int option \<Rightarrow> pyobj \<Rightarrow> string option result" where
  "resolve_kol_code items chat_id explicit_code =
     (if obj_truthy explicit_code then rbind (normalize_kol_code explicit_code) (\<lambda>c. Inr (Some c))
      else case chat_id of
        None \<Rightarrow> Inr None
      | Some i \<Rightarrow> rbind (load_kol_code_map items) (\<lambda>m. Inr (m i)))"

section \<open>Strategy keys and client order ids\<close>

definition build_strategy_instance_id :: "string \<Rightarrow> int \<Rightarrow> int \<Rightarrow> string \<Rightarrow> string \<Rightarrow> string" where
  "build_strategy_instance_id venue chat_id message_id symbol side =
     py_lower venue @ '':'' @ int_text chat_id @ '':'' @ int_text message_id @ '':'' @ py_upper symbol @ '':'' @ py_lower side"

definition client_order_purpose_code :: "string \<Rightarrow> string" where
  "client_order_purpose_code purpose =
     (let p = py_lower purpose in
      if p = ''entry'' then ''E'' else if p = ''exit'' then ''X'' else if p = ''take_profit'' then ''T''
      else if p = ''stop_loss'' then ''S'' else ''O'')"

definition readable_client_id :: "string \<Rightarrow> int \<Rightarrow> string \<Rightarrow> int \<Rightarrow> string" where
  "readable_client_id kol_code message_id purpose leg_index =
     ''TK'' @ take 8 (py_upper kol_code) @ int_text message_id @ client_order_purpose_code purpose @ int_text leg_index"

definition build_client_order_id ::
    "(string \<Rightarrow> string) \<Rightarrow> string \<Rightarrow> int \<Rightarrow> string \<Rightarrow> string option \<Rightarrow> int option \<Rightarrow> string" where
  "build_client_order_id sha1 strategy_instance_id leg_index purpose kol_code message_id =
     (let raw = strategy_instance_id @ '':'' @ purpose @ '':'' @ int_text leg_index in
      case (kol_code, message_id) of
        (Some code, Some mid) \<Rightarrow>
          if code \<noteq> [] \<and> mid \<noteq> 0 then
            (let candidate = readable_client_id code mid purpose leg_index in
             if py_isalnum candidate \<and> length candidate \<le> 20 then candidate
             else let digest = py_upper (take 4 (sha1 raw));
                      pc = client_order_purpose_code purpose;
                      available = max 2 (20 - length (''TK'' @ pc @ int_text leg_index @ digest))
                  in take 20 (''TK'' @ take available (py_upper code) @ pc @ int_text leg_index @ digest))
          else take 20 (''TK'' @ py_upper (take 14 (sha1 raw)) @ int_text leg_index)
      | _ \<Rightarrow> take 20 (''TK'' @ py_upper (take 14 (sha1 raw)) @ int_text leg_index))"

section \<open>Lemmas\<close>

definition hex_digest :: "(string \<Rightarrow> string) \<Rightarrow> bool" where
  "hex_digest sha1 \<longleftrightarrow> (\<forall>s. length (sha1 s) = 40 \<and> list_all is_alnum (sha1 s))"

lemma normalize_kol_code_ok: "normalize_kol_code v = Inr code \<Longrightarrow> is_kol_code code"
  by (auto simp: normalize_kol_code_def Let_def split: if_splits)

lemma load_codes_ok:
  assumes "load_codes items used res = Inr m" "\<And>i c. res i = Some c \<Longrightarrow> is_kol_code c" "m i = Some c"
  shows "is_kol_code c"
  using assms
proof (induction items used res arbitrary: i c rule: load_codes.induct)
  case (2 raw_chat_id raw_code items used res)
  from "2.prems"(1) obtain chat_id code where c: "py_int raw_chat_id = Some chat_id" "normalize_kol_code raw_code = Inr code"
    "\<not> (used code \<noteq> None \<and> used code \<noteq> Some chat_id)"
    "load_codes items (used(code \<mapsto> chat_id)) (res(chat_id \<mapsto> code)) = Inr m"
    by (auto simp: rbind_Inr_iff split: option.splits if_splits)
  show ?case
    by (rule "2.IH" [OF c(1-3), OF c(4)])
      (use "2.prems"(2,3) normalize_kol_code_ok [OF c(2)] in \<open>auto split: if_splits\<close>)
qed auto

lemma resolve_kol_code_ok: "resolve_kol_code items chat_id v = Inr (Some code) \<Longrightarrow> is_kol_code code"
  by (auto simp: resolve_kol_code_def load_kol_code_map_def rbind_Inr_iff split: if_splits option.splits
      dest: normalize_kol_code_ok load_codes_ok)

lemma length_py_upper [simp]: "length (py_upper s) = length s"
  by (simp add: py_upper_def)

lemma is_alnum_upper [simp]: "is_alnum (upper_char c) = is_alnum c"
  by (auto simp: is_alnum_def is_digit_def upper_char_def char_code_def Let_def)

lemma list_all_py_upper [simp]: "list_all is_alnum (py_upper s) = list_all is_alnum s"
  by (simp add: py_upper_def list_all_iff)

lemma purpose_code_single: "\<exists>c. client_order_purpose_code p = [c] \<and> is_alnum c"
  by (auto simp: client_order_purpose_code_def Let_def is_alnum_def is_digit_def char_code_def)

lemma int_text_digit:
  assumes "0 \<le> i" "i < 10"
  shows "int_text i = [digit_char (nat i)]"
  using assms by (simp add: int_text_def nat_digits.simps)

lemma is_alnum_digit: "is_digit c \<Longrightarrow> is_alnum c"
  by (simp add: is_alnum_def Let_def)

lemma digit_char_inj: "m < 10 \<Longrightarrow> n < 10 \<Longrightarrow> digit_char m = digit_char n \<Longrightarrow> m = n"
  by (metis digit_val_digit_char)

text \<open>The three forms of an id: readable, a code with a digest, a digest.\<close>

definition has_source :: "string option \<Rightarrow> int option \<Rightarrow> bool" where
  "has_source kol mid \<longleftrightarrow> (\<exists>c m. kol = Some c \<and> mid = Some m \<and> c \<noteq> [] \<and> m \<noteq> 0)"

definition readable_ok :: "string \<Rightarrow> int \<Rightarrow> string \<Rightarrow> int \<Rightarrow> bool" where
  "readable_ok c m purpose i \<longleftrightarrow> py_isalnum (readable_client_id c m purpose i) \<and> length (readable_client_id c m purpose i) \<le> 20"

abbreviation id_digest :: "(string \<Rightarrow> string) \<Rightarrow> nat \<Rightarrow> string \<Rightarrow> string \<Rightarrow> int \<Rightarrow> string" where
  "id_digest sha1 n sid purpose i \<equiv> py_upper (take n (sha1 (sid @ '':'' @ purpose @ '':'' @ int_text i)))"

lemma id_digest:
  assumes "hex_digest sha1" "n \<le> 40"
  shows "length (id_digest sha1 n sid purpose i) = n" "list_all is_alnum (id_digest sha1 n sid purpose i)"
  using assms unfolding list_all_py_upper by (auto simp: hex_digest_def list_all_iff dest: in_set_takeD)

lemma client_id_hashed:
  assumes "\<not> has_source kol mid" "hex_digest sha1" "0 \<le> i" "i < 10"
  shows "build_client_order_id sha1 sid i purpose kol mid = ''TK'' @ id_digest sha1 14 sid purpose i @ [digit_char (nat i)]"
  using assms(1) id_digest(1) [OF assms(2), of 14 sid purpose i]
  by (auto simp: build_client_order_id_def has_source_def Let_def int_text_digit [OF assms(3,4)] split: option.splits)

lemma client_id_readable:
  assumes "c \<noteq> []" "m \<noteq> 0" "readable_ok c m purpose i"
  shows "build_client_order_id sha1 sid i purpose (Some c) (Some m) = readable_client_id c m purpose i"
  using assms by (simp add: build_client_order_id_def readable_ok_def)

lemma client_id_coded:
  assumes "c \<noteq> []" "m \<noteq> 0" "\<not> readable_ok c m purpose i" "hex_digest sha1" "0 \<le> i" "i < 10" "is_kol_code c"
  shows "build_client_order_id sha1 sid i purpose (Some c) (Some m)
       = ''TK'' @ c @ client_order_purpose_code purpose @ digit_char (nat i) # id_digest sha1 4 sid purpose i"
proof -
  obtain pc where pc: "client_order_purpose_code purpose = [pc]" using purpose_code_single by blast
  have kc: "length c \<le> 8" "py_upper c = c"
    using assms(7) by (auto simp: is_kol_code_def py_upper_def list_all_iff map_idI)
  show ?thesis
    using assms(1-3) id_digest(1) [OF assms(4), of 4 sid purpose i] kc
    by (auto simp: build_client_order_id_def readable_ok_def Let_def int_text_digit [OF assms(5,6)] pc)
qed

lemma client_id_short:
  assumes "hex_digest sha1" "0 \<le> i" "i < 10" "\<And>c. kol = Some c \<Longrightarrow> is_kol_code c"
  shows "length (build_client_order_id sha1 sid i purpose kol mid) \<le> 20
    \<and> py_isalnum (build_client_order_id sha1 sid i purpose kol mid)"
proof (cases "has_source kol mid")
  case False
  have tk: "is_alnum CHR ''T''" "is_alnum CHR ''K''" by (simp_all add: is_alnum_def is_digit_def char_code_def)
  show ?thesis using id_digest [OF assms(1), of 14 sid purpose i] assms(2,3)
    by (simp add: client_id_hashed [OF False assms(1-3)] py_isalnum_def is_alnum_digit tk del: list_all_py_upper)
next
  case True
  then obtain c m where c: "kol = Some c" "mid = Some m" "c \<noteq> []" "m \<noteq> 0" by (auto simp: has_source_def)
  have k: "is_kol_code c" using assms(4) c(1) by simp
  obtain pc where pc: "client_order_purpose_code purpose = [pc]" "is_alnum pc" using purpose_code_single by blast
  have tk: "is_alnum CHR ''T''" "is_alnum CHR ''K''" by (simp_all add: is_alnum_def is_digit_def char_code_def)
  show ?thesis
  proof (cases "readable_ok c m purpose i")
    case True
    then show ?thesis by (simp add: c client_id_readable) (simp add: readable_ok_def)
  next
    case False
    have "length c \<le> 8" "list_all is_alnum c" using k by (auto simp: is_kol_code_def list_all_iff)
    then show ?thesis using id_digest [OF assms(1), of 4 sid purpose i] assms(2,3)
      by (simp add: c client_id_coded [OF c(3,4) False assms(1-3) k] py_isalnum_def is_alnum_digit tk pc del: list_all_py_upper)
  qed
qed

lemma client_id_distinct:
  assumes h: "hex_digest sha1" and i: "0 \<le> i" "i < 10" and j: "0 \<le> j" "j < 10"
    and k: "\<And>c. kol = Some c \<Longrightarrow> is_kol_code c"
    and eq: "build_client_order_id sha1 sid i purpose kol mid = build_client_order_id sha1 sid j purpose kol mid"
  shows "i = j"
proof -
  have inj: "i = j" if "digit_char (nat i) = digit_char (nat j)"
    using digit_char_inj [OF _ _ that] i j by (simp add: eq_nat_nat_iff)
  show ?thesis
  proof (cases "has_source kol mid")
    case False
    then show ?thesis
      using eq id_digest(1) [OF h, of 14 sid purpose i] id_digest(1) [OF h, of 14 sid purpose j] inj
      by (simp add: client_id_hashed h i j)
  next
    case True
    then obtain c m where c: "kol = Some c" "mid = Some m" "c \<noteq> []" "m \<noteq> 0" by (auto simp: has_source_def)
    have same: "readable_ok c m purpose i = readable_ok c m purpose j"
      using i j by (simp add: readable_ok_def readable_client_id_def int_text_digit py_isalnum_def is_alnum_digit)
    show ?thesis
    proof (cases "readable_ok c m purpose i")
      case True
      then show ?thesis using eq same inj c i j
        by (simp add: client_id_readable readable_client_id_def int_text_digit)
    next
      case False
      then show ?thesis using eq same inj c k
        by (simp add: client_id_coded h i j)
    qed
  qed
qed

text \<open>
  The readable form leaves the strategy out: two strategies of one message, for another symbol or side,
  have the same ids.
\<close>

lemma client_id_ignores_strategy:
  assumes "kol_code \<noteq> []" "message_id \<noteq> 0"
    and "py_isalnum (readable_client_id kol_code message_id purpose i)" "length (readable_client_id kol_code message_id purpose i) \<le> 20"
  shows "build_client_order_id sha1 sid i purpose (Some kol_code) (Some message_id)
       = build_client_order_id sha1 sid' i purpose (Some kol_code) (Some message_id)"
  using assms by (simp add: build_client_order_id_def)

end
