(* ===== verification/Order_Builder.thy ===== *)
theory Order_Builder
  imports TP_Plan Price_Normalization Order_Ids
begin

text \<open>
  The draft of an entry (\<open>deepcoin_order_builder.py\<close>): from the payload of a reviewed call to the legs
  of its orders, sized so that the stop costs the risk budget, its take profits and what still blocks
  it. A float is its value (\<open>Py_Float\<close>), so that every conversion between text, decimal and float is the
  code's. The fingerprint of a draft, a hash of its JSON text, is not modelled.
\<close>

section \<open>Contract specifications\<close>

record contract_spec =
  ct_instrument_id :: string
  ct_value :: rat
  ct_quantity_step :: rat
  ct_min_quantity :: rat
  ct_price_tick :: rat

definition make_contract_spec :: "string \<Rightarrow> rat \<Rightarrow> rat \<Rightarrow> rat \<Rightarrow> rat \<Rightarrow> contract_spec result" where
  "make_contract_spec instrument_id contract_value quantity_step min_quantity price_tick =
     (if instrument_id = [] then Inl (ValueError ''instrument_id is required'')
      else if contract_value \<le> 0 then Inl (ValueError ''contract_value must be positive'')
      else if quantity_step \<le> 0 then Inl (ValueError ''quantity_step must be positive'')
      else if min_quantity \<le> 0 then Inl (ValueError ''min_quantity must be positive'')
      else if price_tick \<le> 0 then Inl (ValueError ''price_tick must be positive'')
      else Inr \<lparr>ct_instrument_id = instrument_id, ct_value = contract_value, ct_quantity_step = quantity_step,
                ct_min_quantity = min_quantity, ct_price_tick = price_tick\<rparr>)"

section \<open>Rounding\<close>

text \<open>\<open>to_integral_value(rounding=ROUND_DOWN)\<close> and \<open>quantize(Decimal("0.000001"), rounding=ROUND_DOWN)\<close>.\<close>

definition trunc :: "rat \<Rightarrow> int" where
  "trunc x = (if 0 \<le> x then \<lfloor>x\<rfloor> else \<lceil>x\<rceil>)"

definition quantize_down6 :: "rat \<Rightarrow> rat result" where
  "quantize_down6 x = (let n = trunc (x * 10 ^ 6) in
     if 10 ^ 28 \<le> \<bar>n\<bar> then Inl InvalidOperation else Inr (of_int n / 10 ^ 6))"

definition round_down_to_step :: "rat \<Rightarrow> rat \<Rightarrow> rat result" where
  "round_down_to_step x step =
     (let value_decimal = float_decimal x; step_decimal = float_decimal step in
      if step_decimal \<le> 0 then Inl (DeepcoinOrderDraftError ''quantity or price step must be positive'')
      else Inr (fround (dmul (of_int (trunc (ddiv value_decimal step_decimal))) step_decimal)))"

definition normalize_price :: "rat \<Rightarrow> contract_spec option \<Rightarrow> rat result" where
  "normalize_price price spec = (case spec of
       None \<Rightarrow> Inr price | Some c \<Rightarrow> round_down_to_step price (ct_price_tick c))"

definition normalize_final_entry_price :: "rat \<Rightarrow> contract_spec option \<Rightarrow> string \<Rightarrow> rat result" where
  "normalize_final_entry_price price spec error_message =
     (if price \<le> 0 then Inl (DeepcoinOrderDraftError error_message)
      else rbind (normalize_price price spec) (\<lambda>normalized.
        if normalized \<le> 0 then Inl (DeepcoinOrderDraftError error_message) else Inr normalized))"

section \<open>Reading the payload\<close>

type_synonym payload = "(string \<times> pyobj) list"

definition require_value :: "payload \<Rightarrow> string \<Rightarrow> pyobj result" where
  "require_value payload key =
     (let v = dict_get payload key in
      if missing v then Inl (DeepcoinOrderDraftError (key @ '' is required'')) else Inr v)"

definition parse_entry_range :: "pyobj \<Rightarrow> pyobj \<Rightarrow> (rat \<times> rat) result" where
  "parse_entry_range v symbol =
     (if missing v then Inl (DeepcoinOrderDraftError ''entry_range is required'')
      else case extract_normalized_prices v symbol PyNone of
        [low, high] \<Rightarrow>
          (if low \<le> 0 \<or> high \<le> 0 then Inl (DeepcoinOrderDraftError ''entry_range prices must be positive'')
           else if high < low then Inr (high, low) else Inr (low, high))
      | _ \<Rightarrow> Inl (DeepcoinOrderDraftError ''entry_range must be low-high''))"

definition parse_optional_price :: "pyobj \<Rightarrow> pyobj \<Rightarrow> rat option result" where
  "parse_optional_price v symbol =
     (if missing v then Inr None
      else case extract_normalized_prices v symbol PyNone of
        p # ps \<Rightarrow> Inr (Some p)
      | [] \<Rightarrow> Inl (DeepcoinOrderDraftError ''stop_loss must contain a numeric price''))"

definition max_float_decimal :: rat where
  "max_float_decimal = 17976931348623157 * 10 ^ 292"

lemma max_float_decimal_code [code]:
  "max_float_decimal = 179769313486231570000000000000000000000000000000000000000000000000000000000000000000000000000000000000000000000000000000000000000000000000000000000000000000000000000000000000000000000000000000000000000000000000000000000000000000000000000000000000000000000000000000000000000000000000000000000000000000000000000"
  by (simp add: max_float_decimal_def)

definition nonnegative_error :: "string \<Rightarrow> py_exc" where
  "nonnegative_error field_name = DeepcoinOrderDraftError (field_name @ '' must be a non-negative finite decimal'')"

definition parse_nonnegative_decimal :: "pyobj \<Rightarrow> string \<Rightarrow> rat result" where
  "parse_nonnegative_decimal v field_name = (case v of
       Scalar (VBool b) \<Rightarrow> Inl (nonnegative_error field_name)
     | Scalar s \<Rightarrow>
         (case py_decimal (case s of VDec d \<Rightarrow> s | _ \<Rightarrow> VStr (py_strip (py_str s))) of
            Some (DFin x) \<Rightarrow>
              (if x < 0 \<or> max_float_decimal < x
               then Inl (DeepcoinOrderDraftError (field_name @ '' must be a non-negative finite decimal within the supported price range''))
               else Inr x)
          | Some d \<Rightarrow> Inl (DeepcoinOrderDraftError (field_name @ '' must be a non-negative finite decimal within the supported price range''))
          | None \<Rightarrow> Inl (nonnegative_error field_name))
     | _ \<Rightarrow> Inl (nonnegative_error field_name))"

definition sequence_items :: "pyobj \<Rightarrow> pyobj list option" where
  "sequence_items v = (case v of PyList xs \<Rightarrow> Some xs | PyTuple xs \<Rightarrow> Some xs | _ \<Rightarrow> None)"

text \<open>\<open>value in (None, "", [])\<close>; an empty tuple is not among them.\<close>

definition absent :: "pyobj \<Rightarrow> bool" where
  "absent v \<longleftrightarrow> missing v \<or> v = PyList []"

fun supplemental_prices :: "pyobj list \<Rightarrow> pyobj \<Rightarrow> contract_spec option \<Rightarrow> rat list \<Rightarrow> rat list result" where
  "supplemental_prices [] symbol spec prices = Inr prices"
| "supplemental_prices (item # items) symbol spec prices =
     (case extract_normalized_prices item symbol PyNone of
        [p] \<Rightarrow>
          (if p \<le> 0 then Inl (DeepcoinOrderDraftError ''supplemental_entry_prices must contain positive prices'')
           else rbind (normalize_final_entry_price p spec ''supplemental entry price is invalid after normalization'')
             (\<lambda>normalized. supplemental_prices items symbol spec
                (if normalized \<in> set prices then prices else prices @ [normalized])))
      | _ \<Rightarrow> Inl (DeepcoinOrderDraftError ''supplemental_entry_prices must contain positive prices''))"

definition parse_supplemental_entry_prices :: "pyobj \<Rightarrow> pyobj \<Rightarrow> contract_spec option \<Rightarrow> rat list result" where
  "parse_supplemental_entry_prices v symbol spec =
     (if absent v then Inr []
      else case sequence_items v of
        None \<Rightarrow> Inl (DeepcoinOrderDraftError ''supplemental_entry_prices must be a list'')
      | Some items \<Rightarrow> supplemental_prices items symbol spec [])"

definition entry_allocation :: "pyobj \<Rightarrow> rat result" where
  "entry_allocation item = rbind (parse_nonnegative_decimal item ''entry_allocations'') (\<lambda>allocation.
     if allocation \<le> 0 \<or> 1 < allocation
     then Inl (DeepcoinOrderDraftError ''entry_allocations must contain fractions in (0, 1]'')
     else Inr allocation)"

definition parse_entry_allocations :: "pyobj \<Rightarrow> rat list result" where
  "parse_entry_allocations v =
     (if absent v then Inr []
      else case sequence_items v of
        None \<Rightarrow> Inl (DeepcoinOrderDraftError ''entry_allocations must be a bounded list'')
      | Some items \<Rightarrow>
          (if items = [] \<or> 8 < length items then Inl (DeepcoinOrderDraftError ''entry_allocations must be a bounded list'')
           else rbind (mapM entry_allocation items) (\<lambda>parsed.
             if dsum parsed \<noteq> 1 then Inl (DeepcoinOrderDraftError ''entry_allocations must sum to 1'') else Inr parsed)))"

text \<open>The names of the instrument; the last four characters are cut off a name that ends in them.\<close>

definition dashed :: "string \<Rightarrow> string" where
  "dashed contract = map (\<lambda>c. if c = CHR ''_'' then CHR ''-'' else c) (py_upper contract)"

definition text_ends_with :: "string \<Rightarrow> string \<Rightarrow> bool" where
  "text_ends_with s suffix \<longleftrightarrow> length suffix \<le> length s \<and> drop (length s - length suffix) s = suffix"

definition to_deepcoin_swap_instrument :: "string \<Rightarrow> string" where
  "to_deepcoin_swap_instrument contract =
     (let n = dashed contract in
      if text_ends_with n ''-SWAP'' then n
      else if text_ends_with n ''-USDT'' then n @ ''-SWAP''
      else if text_ends_with n ''USDT'' then take (length n - 4) n @ ''-USDT-SWAP''
      else n @ ''-USDT-SWAP'')"

definition symbol_from_contract :: "string \<Rightarrow> string" where
  "symbol_from_contract contract =
     (let n = dashed contract in
      if CHR ''-'' \<in> set n then takeWhile (\<lambda>c. c \<noteq> CHR ''-'') n
      else if text_ends_with n ''USDT'' then take (length n - 4) n else n)"

definition normalize_margin_mode :: "pyobj \<Rightarrow> string" where
  "normalize_margin_mode v =
     (let t = py_lower (if obj_truthy v then obj_str v else ''cross'') in
      if t = ''isolated'' \<or> t = ''fixed'' \<or> t = [CHR 0xE9, CHR 0x80, CHR 0x90, CHR 0xE4, CHR 0xBB, CHR 0x93]
      then ''isolated'' else ''cross'')"

definition normalize_position_mode :: "pyobj \<Rightarrow> string" where
  "normalize_position_mode v =
     (let t = py_lower (if obj_truthy v then obj_str v else ''split'') in
      if t = ''net'' \<or> t = ''merged'' \<or> t = ''one_way'' \<or> t = [CHR 0xE5, CHR 0x90, CHR 0x88, CHR 0xE4, CHR 0xBB, CHR 0x93]
      then ''net'' else ''split'')"

section \<open>Prices of the legs\<close>

definition non_positive_price :: string where
  "non_positive_price = ''fixed entry offset produces non-positive price after tick normalization''"

definition range_entry_leg_prices ::
    "string \<Rightarrow> rat \<Rightarrow> rat \<Rightarrow> rat \<Rightarrow> rat \<Rightarrow> contract_spec option \<Rightarrow> (rat \<times> rat) result" where
  "range_entry_leg_prices position_side low high first_limit_offset second_limit_offset spec =
     (let low_decimal = float_decimal low; high_decimal = float_decimal high;
          first = (if position_side = ''long'' then dadd high_decimal first_limit_offset else dsub low_decimal first_limit_offset);
          second = (if position_side = ''long'' then dadd low_decimal second_limit_offset else dsub high_decimal second_limit_offset)
      in if first \<le> 0 \<or> second \<le> 0
         then Inl (DeepcoinOrderDraftError ''fixed entry offset produces non-positive price'')
         else if max_float_decimal < first \<or> max_float_decimal < second
         then Inl (DeepcoinOrderDraftError ''fixed entry offset produces price outside finite float range'')
         else rbind (normalize_final_entry_price (fround first) spec non_positive_price) (\<lambda>p.
              rbind (normalize_final_entry_price (fround second) spec non_positive_price) (\<lambda>q. Inr (p, q))))"

definition hybrid_market_entry_price ::
    "string \<Rightarrow> rat \<Rightarrow> rat \<Rightarrow> rat option \<Rightarrow> rat \<Rightarrow> contract_spec option \<Rightarrow> rat option result" where
  "hybrid_market_entry_price position_side low high current_price market_leg_threshold spec =
     (case current_price of
        None \<Rightarrow> Inr None
      | Some current \<Rightarrow>
          if market_leg_threshold \<le> 0 then Inr None
          else let anchor = (if position_side = ''long'' then high else low);
                   distance = \<bar>dsub (float_decimal current) (float_decimal anchor)\<bar>
               in if market_leg_threshold < distance then Inr None
                  else rbind (normalize_final_entry_price current spec
                         ''hybrid market entry produces non-positive price after tick normalization'') (\<lambda>p. Inr (Some p)))"

section \<open>Sizes of the legs\<close>

definition stop_equals_entry :: py_exc where
  "stop_equals_entry = DeepcoinOrderDraftError ''stop_loss must differ from entry price''"

definition price_risk :: "rat \<Rightarrow> rat \<Rightarrow> rat" where
  "price_risk entry_price stop = \<bar>dsub (float_decimal entry_price) (float_decimal stop)\<bar>"

definition estimate_leg_quantity :: "rat \<Rightarrow> rat \<Rightarrow> rat \<Rightarrow> rat option \<Rightarrow> rat option result" where
  "estimate_leg_quantity risk_budget allocation_pct entry_price stop_loss = (case stop_loss of
       None \<Rightarrow> Inr None
     | Some stop \<Rightarrow>
         (let risk = price_risk entry_price stop in
          if risk \<le> 0 then Inl stop_equals_entry
          else let leg_risk = ddiv (dmul (float_decimal risk_budget) (float_decimal allocation_pct)) 100
               in rbind (quantize_down6 (ddiv leg_risk risk)) (\<lambda>quantity. Inr (Some (fround quantity)))))"

definition range_entry_allocations :: "rat \<Rightarrow> rat \<Rightarrow> rat option \<Rightarrow> (rat \<times> rat) result" where
  "range_entry_allocations first_price second_price stop_loss = (case stop_loss of
       None \<Rightarrow> Inr (50, 50)
     | Some stop \<Rightarrow>
         (let first_distance = \<bar>fsub first_price stop\<bar>;
              second_distance = \<bar>fsub second_price stop\<bar>;
              total_distance = fadd first_distance second_distance
          in if first_distance \<le> 0 \<or> second_distance \<le> 0 \<or> total_distance \<le> 0 then Inl stop_equals_entry
             else let first_allocation = min 65 (max 50 (fmul (fdiv first_distance total_distance) 100))
                  in Inr (first_allocation, fsub 100 first_allocation)))"

definition leg_risk_budget :: "rat \<Rightarrow> rat \<Rightarrow> rat" where
  "leg_risk_budget risk_budget allocation_pct = general_format (fdiv (fmul risk_budget allocation_pct) 100)"

section \<open>Legs\<close>

record order_leg =
  ol_side :: string
  ol_position_side :: string
  ol_order_type :: string
  ol_price :: rat
  ol_allocation_pct :: rat
  ol_risk_budget :: rat
  ol_client_order_id :: string
  ol_quantity :: "rat option"
  ol_quantity_unit :: "string option"
  ol_base_estimate :: "rat option"
  ol_estimated_loss :: "rat option"
  ol_merged_from :: "nat list option"

definition estimated_stop_loss ::
    "rat \<Rightarrow> rat option \<Rightarrow> rat option \<Rightarrow> string option \<Rightarrow> contract_spec option \<Rightarrow> rat option" where
  "estimated_stop_loss entry_price stop_loss quantity quantity_unit spec = (case (stop_loss, quantity) of
       (Some stop, Some q) \<Rightarrow>
         (let risk = price_risk entry_price stop in
          if risk \<le> 0 then None
          else if quantity_unit = Some ''contracts''
          then (case spec of None \<Rightarrow> None
                | Some c \<Rightarrow> Some (fround (dmul (dmul risk (float_decimal q)) (float_decimal (ct_value c)))))
          else Some (fround (dmul risk (float_decimal q))))
     | _ \<Rightarrow> None)"

definition order_leg_of ::
    "string \<Rightarrow> string \<Rightarrow> string \<Rightarrow> rat \<Rightarrow> string \<Rightarrow> rat \<Rightarrow> rat \<Rightarrow> rat option \<Rightarrow> rat option
     \<Rightarrow> contract_spec option \<Rightarrow> order_leg result" where
  "order_leg_of side position_side order_type price client_order_id allocation_pct risk_budget_usdt quantity stop_loss spec =
     (let leg = \<lparr>ol_side = side, ol_position_side = position_side, ol_order_type = order_type,
                 ol_price = general_format price, ol_allocation_pct = allocation_pct, ol_risk_budget = risk_budget_usdt,
                 ol_client_order_id = client_order_id, ol_quantity = quantity, ol_quantity_unit = None,
                 ol_base_estimate = None, ol_estimated_loss = None, ol_merged_from = None\<rparr>
      in rbind (case (quantity, spec) of
             (None, _) \<Rightarrow> Inr leg
           | (Some q, None) \<Rightarrow> Inr (leg\<lparr>ol_quantity_unit := Some ''base_asset_estimate''\<rparr>)
           | (Some q, Some c) \<Rightarrow> rbind (round_down_to_step (fdiv q (ct_value c)) (ct_quantity_step c)) (\<lambda>contracts.
               Inr (leg\<lparr>ol_base_estimate := Some q, ol_quantity := Some contracts, ol_quantity_unit := Some ''contracts''\<rparr>)))
         (\<lambda>leg. Inr (leg\<lparr>ol_estimated_loss :=
            estimated_stop_loss price stop_loss (ol_quantity leg) (ol_quantity_unit leg) spec\<rparr>)))"

text \<open>What the legs of one draft have in common, and one leg, with its number.\<close>

record leg_terms =
  lt_side :: string
  lt_position_side :: string
  lt_strategy :: string
  lt_kol_code :: "string option"
  lt_message_id :: int
  lt_risk_budget :: rat
  lt_stop :: "rat option"
  lt_spec :: "contract_spec option"

definition build_leg :: "(string \<Rightarrow> string) \<Rightarrow> leg_terms \<Rightarrow> nat \<Rightarrow> string \<Rightarrow> rat \<Rightarrow> rat \<Rightarrow> order_leg result" where
  "build_leg sha1 t index order_type price allocation_pct =
     rbind (estimate_leg_quantity (lt_risk_budget t) allocation_pct price (lt_stop t)) (\<lambda>quantity.
       order_leg_of (lt_side t) (lt_position_side t) order_type price
         (build_client_order_id sha1 (lt_strategy t) (int index) ''entry'' (lt_kol_code t) (Some (lt_message_id t)))
         allocation_pct (leg_risk_budget (lt_risk_budget t) allocation_pct) quantity (lt_stop t) (lt_spec t))"

fun build_legs :: "(string \<Rightarrow> string) \<Rightarrow> leg_terms \<Rightarrow> nat \<Rightarrow> (string \<times> rat \<times> rat) list \<Rightarrow> order_leg list result" where
  "build_legs sha1 t index [] = Inr []"
| "build_legs sha1 t index ((order_type, price, allocation_pct) # plan) =
     rbind (build_leg sha1 t index order_type price allocation_pct) (\<lambda>leg.
     rbind (build_legs sha1 t (Suc index) plan) (\<lambda>legs. Inr (leg # legs)))"

section \<open>Equivalent legs are one order\<close>

definition leg_key :: "order_leg \<Rightarrow> string \<times> rat \<times> string \<times> string \<times> string option" where
  "leg_key leg = (ol_order_type leg, ol_price leg, ol_side leg, ol_position_side leg, ol_quantity_unit leg)"

definition add_field :: "rat option \<Rightarrow> rat option \<Rightarrow> rat option" where
  "add_field current incoming = (case (current, incoming) of
       (Some x, Some y) \<Rightarrow> Some (fadd x y) | _ \<Rightarrow> current)"

definition merge_leg :: "order_leg \<Rightarrow> order_leg \<Rightarrow> order_leg" where
  "merge_leg current incoming = current
     \<lparr>ol_allocation_pct := fadd (ol_allocation_pct current) (ol_allocation_pct incoming),
      ol_risk_budget := fadd (ol_risk_budget current) (ol_risk_budget incoming),
      ol_quantity := add_field (ol_quantity current) (ol_quantity incoming),
      ol_base_estimate := add_field (ol_base_estimate current) (ol_base_estimate incoming),
      ol_estimated_loss := add_field (ol_estimated_loss current) (ol_estimated_loss incoming)\<rparr>"

text \<open>The leg with its key's position in the result, and the numbers of the legs merged into it.\<close>

fun merge_into :: "nat \<Rightarrow> order_leg \<Rightarrow> (order_leg \<times> nat list) list \<Rightarrow> (order_leg \<times> nat list) list" where
  "merge_into index leg [] = [(leg, [index])]"
| "merge_into index leg ((current, sources) # rest) =
     (if leg_key current = leg_key leg
      then ((merge_leg current leg)\<lparr>ol_merged_from := Some (sources @ [index])\<rparr>, sources @ [index]) # rest
      else (current, sources) # merge_into index leg rest)"

fun coalesce_legs :: "nat \<Rightarrow> order_leg list \<Rightarrow> (order_leg \<times> nat list) list \<Rightarrow> (order_leg \<times> nat list) list" where
  "coalesce_legs index [] coalesced = coalesced"
| "coalesce_legs index (leg # legs) coalesced = coalesce_legs (Suc index) legs (merge_into index leg coalesced)"

definition coalesce_equivalent_entry_legs :: "order_leg list \<Rightarrow> order_leg list" where
  "coalesce_equivalent_entry_legs legs = map fst (coalesce_legs 1 legs [])"

section \<open>Take profits\<close>

text \<open>
  The configured allocations as the plan takes them; what cannot be iterated is a \<open>TypeError\<close>. A float
  goes into the plan as the decimal its text denotes.
\<close>

definition item_value :: "pyobj \<Rightarrow> pyval" where
  "item_value v = (case v of Scalar s \<Rightarrow> s | _ \<Rightarrow> VStr (obj_str v))"

definition allocations_argument :: "pyobj \<Rightarrow> allocation_input result" where
  "allocations_argument v = (case v of
       Scalar (VStr s) \<Rightarrow> Inr (AllocationText s)
     | Scalar s \<Rightarrow> if truthy s then Inl (TypeError ''object is not iterable'') else Inr NoAllocations
     | PyList xs \<Rightarrow> Inr (if xs = [] then NoAllocations else AllocationList (map item_value xs))
     | PyTuple xs \<Rightarrow> Inr (if xs = [] then NoAllocations else AllocationList (map item_value xs))
     | PyDict kvs \<Rightarrow> Inr (if kvs = [] then NoAllocations else AllocationList (map (\<lambda>kv. VStr (fst kv)) kvs)))"

record take_profit_order =
  to_index :: nat
  to_price :: rat
  to_allocation_pct :: rat

definition text_float :: "string \<Rightarrow> rat result" where
  "text_float s = (case py_float (PyStr s) of None \<Rightarrow> Inl (ValueError ''could not convert string to float'') | Some x \<Rightarrow> Inr x)"

fun take_profit_orders :: "nat \<Rightarrow> take_profit_plan \<Rightarrow> contract_spec option \<Rightarrow> take_profit_order list result" where
  "take_profit_orders index [] spec = Inr []"
| "take_profit_orders index (leg # plan) spec =
     rbind (text_float (tp_price leg)) (\<lambda>price.
     rbind (text_float (tp_allocation_pct leg)) (\<lambda>allocation.
     rbind (normalize_price price spec) (\<lambda>normalized.
     rbind (take_profit_orders (Suc index) plan spec) (\<lambda>orders.
       Inr (\<lparr>to_index = index + 1, to_price = general_format normalized, to_allocation_pct = allocation\<rparr> # orders)))))"

definition draft_error :: "py_exc \<Rightarrow> py_exc" where
  "draft_error e = (case e of TakeProfitPlanError msg \<Rightarrow> DeepcoinOrderDraftError msg | _ \<Rightarrow> e)"

definition plan_take_profits ::
    "rat list \<Rightarrow> string \<Rightarrow> pyobj \<Rightarrow> contract_spec option \<Rightarrow> take_profit_order list result" where
  "plan_take_profits prices position_side configured spec =
     (if prices = [] then Inr []
      else let values = map (\<lambda>p. VDec (DFin (float_decimal p))) prices in
           case allocations_argument configured of
             Inl e \<Rightarrow> (case plan_prices values of Inl e' \<Rightarrow> Inl (draft_error e') | Inr ps \<Rightarrow> Inl e)
           | Inr allocations \<Rightarrow>
               (case build_take_profit_plan values (VStr position_side) allocations VNone VNone VNone of
                  Inl e \<Rightarrow> Inl (draft_error e)
                | Inr plan \<Rightarrow> take_profit_orders 0 plan spec))"

section \<open>The plan of the entries\<close>

text \<open>The order type, price and share of every leg, before sizes.\<close>

definition max_entry_legs :: nat where "max_entry_legs = 5"

definition entry_normalization_error :: string where
  "entry_normalization_error = ''entry price produces non-positive price after tick normalization''"

definition planned_prices ::
    "string \<Rightarrow> rat \<Rightarrow> rat \<Rightarrow> bool \<Rightarrow> rat option \<Rightarrow> rat \<Rightarrow> rat \<Rightarrow> contract_spec option \<Rightarrow> rat list result" where
  "planned_prices position_side low high single hybrid first_offset second_offset spec =
     (if single then rbind (normalize_final_entry_price low spec entry_normalization_error) (\<lambda>p. Inr [p])
      else case hybrid of
        Some h \<Rightarrow> rbind (range_entry_leg_prices position_side low high 0 second_offset spec) (\<lambda>(p, q). Inr [h, q])
      | None \<Rightarrow> rbind (range_entry_leg_prices position_side low high first_offset second_offset spec) (\<lambda>(p, q). Inr [p, q]))"

fun add_prices :: "rat list \<Rightarrow> rat list \<Rightarrow> rat list" where
  "add_prices planned [] = planned"
| "add_prices planned (p # ps) = add_prices (if p \<in> set planned then planned else planned @ [p]) ps"

definition allocation_fractions :: "rat list \<Rightarrow> nat \<Rightarrow> rat list result" where
  "allocation_fractions explicit n =
     (if explicit \<noteq> [] then
        (if length explicit \<noteq> n then Inl (DeepcoinOrderDraftError ''entry_allocations must match the final entry leg count'')
         else Inr explicit)
      else Inr (replicate n (ddiv 1 (of_nat n))))"

definition custom_plan ::
    "string \<Rightarrow> rat option \<Rightarrow> rat list \<Rightarrow> rat list \<Rightarrow> rat list \<Rightarrow> (string \<times> rat \<times> rat) list result" where
  "custom_plan order_type hybrid planned supplemental explicit =
     (let prices = add_prices planned supplemental in
      if max_entry_legs < length prices then Inl (DeepcoinOrderDraftError ''entry plan exceeds maximum of 5 legs'')
      else rbind (allocation_fractions explicit (length prices)) (\<lambda>fractions.
        Inr (map (\<lambda>(i, price, fraction).
               (if i = 0 then (if hybrid \<noteq> None then ''market'' else order_type) else ''limit'', price, fround (dmul fraction 100)))
             (enumerate 0 (zip prices fractions)))))"

definition range_plan ::
    "string \<Rightarrow> string \<Rightarrow> rat \<Rightarrow> rat \<Rightarrow> rat option \<Rightarrow> rat \<Rightarrow> rat \<Rightarrow> rat option \<Rightarrow> contract_spec option
     \<Rightarrow> (string \<times> rat \<times> rat) list result" where
  "range_plan order_type position_side low high hybrid first_offset second_offset stop spec =
     rbind (planned_prices position_side low high False hybrid first_offset second_offset spec) (\<lambda>prices.
       case prices of
         [p, q] \<Rightarrow> rbind (range_entry_allocations p q stop) (\<lambda>(a, b).
           Inr [(if hybrid \<noteq> None then ''market'' else order_type, p, a), (if hybrid \<noteq> None then ''limit'' else order_type, q, b)])
       | _ \<Rightarrow> Inr [])"

section \<open>The draft\<close>

record order_draft =
  od_blocking_reason_codes :: "string list"
  od_strategy_instance_id :: string
  od_symbol :: string
  od_instrument_id :: string
  od_margin_mode :: string
  od_position_mode :: string
  od_order_legs :: "order_leg list"
  od_stop_loss :: "rat option"
  od_take_profit_legs :: "take_profit_order list"
  od_risk_budget :: rat
  od_source :: "pyobj \<times> int \<times> int \<times> string option"
  od_notes :: "string list"
  od_contract_spec :: "contract_spec option"

definition py_isclose :: "rat \<Rightarrow> rat \<Rightarrow> bool" where
  "py_isclose a b =
     (a = b \<or> (let diff = \<bar>fsub b a\<bar>; rel = fround (1 / 10 ^ 9) in
        diff \<le> \<bar>fmul rel b\<bar> \<or> diff \<le> \<bar>fmul rel a\<bar> \<or> diff \<le> 0))"

definition aggregate_risk :: "order_leg list \<Rightarrow> rat" where
  "aggregate_risk legs = dsum (map (\<lambda>leg. case ol_estimated_loss leg of None \<Rightarrow> 0 | Some x \<Rightarrow> float_decimal x) legs)"

definition blocking_reason_codes :: "rat option \<Rightarrow> contract_spec option \<Rightarrow> order_leg list \<Rightarrow> string list" where
  "blocking_reason_codes stop_loss spec order_legs = (case (stop_loss, spec) of
       (None, _) \<Rightarrow> [''missing_stop_loss'']
     | (_, None) \<Rightarrow> [''contract_size_unverified'']
     | (_, Some c) \<Rightarrow>
         (if list_ex (\<lambda>leg. (case ol_quantity leg of None \<Rightarrow> 0 | Some q \<Rightarrow> q) < ct_min_quantity c) order_legs
          then [''quantity_below_minimum''] else []))"

definition quantity_notes :: "rat option \<Rightarrow> contract_spec option \<Rightarrow> string list" where
  "quantity_notes stop_loss spec = (case (stop_loss, spec) of
       (None, _) \<Rightarrow> [''quantity_requires_stop_loss_or_manual_sizing'', ''limit_edge_selection_side_aware_default'']
     | (_, None) \<Rightarrow> [''quantity_uses_linear_price_risk_estimate'', ''limit_edge_selection_side_aware_default'',
                      ''contract_size_must_be_verified_before_live_order'']
     | _ \<Rightarrow> [''quantity_uses_linear_price_risk_estimate'', ''limit_edge_selection_side_aware_default'',
             ''contract_spec_applied'', ''quantity_rounded_down_to_step'', ''price_rounded_to_tick''])"

text \<open>The head of the payload: venue, order type, contract and sides, before any price is read.\<close>

record draft_head =
  dh_order_type :: string
  dh_open_side :: string
  dh_position_side :: string
  dh_instrument_id :: string
  dh_symbol :: string

definition read_head :: "payload \<Rightarrow> contract_spec option \<Rightarrow> draft_head result" where
  "read_head payload spec =
     rbind (require_value payload ''venue'') (\<lambda>venue.
     if py_lower (obj_str venue) \<noteq> ''deepcoin'' then Inl (DeepcoinOrderDraftError ''unsupported venue'')
     else rbind (require_value payload ''order_type'') (\<lambda>ot.
     let order_type = py_lower (obj_str ot) in
     if order_type \<noteq> ''limit'' \<and> order_type \<noteq> ''market''
     then Inl (DeepcoinOrderDraftError (''unsupported order_type: '' @ order_type))
     else rbind (require_value payload ''contract'') (\<lambda>ct.
     rbind (require_value payload ''open_side'') (\<lambda>os.
     rbind (require_value payload ''position_side'') (\<lambda>ps.
     let contract = py_upper (obj_str ct); open_side = py_lower (obj_str os); position_side = py_lower (obj_str ps) in
     if open_side \<noteq> ''buy'' \<and> open_side \<noteq> ''sell''
     then Inl (DeepcoinOrderDraftError (''unsupported open_side: '' @ open_side))
     else if position_side \<noteq> ''long'' \<and> position_side \<noteq> ''short''
     then Inl (DeepcoinOrderDraftError (''unsupported position_side: '' @ position_side))
     else if position_side = ''long'' \<and> open_side \<noteq> ''buy'' \<or> position_side = ''short'' \<and> open_side \<noteq> ''sell''
     then Inl (DeepcoinOrderDraftError ''open_side does not match position_side'')
     else let instrument_id = to_deepcoin_swap_instrument contract in
     if (case spec of None \<Rightarrow> False | Some c \<Rightarrow> py_upper (ct_instrument_id c) \<noteq> instrument_id)
     then Inl (DeepcoinOrderDraftError ''contract_spec instrument_id mismatch'')
     else Inr \<lparr>dh_order_type = order_type, dh_open_side = open_side, dh_position_side = position_side,
               dh_instrument_id = instrument_id, dh_symbol = symbol_from_contract contract\<rparr>)))))"

text \<open>Where the call comes from: \<open>payload["source"]\<close>, its numbers and the channel's code.\<close>

definition obj_int_or_zero :: "pyobj \<Rightarrow> int result" where
  "obj_int_or_zero v = (if \<not> obj_truthy v then Inr 0
     else case v of
       Scalar s \<Rightarrow> (case py_int s of None \<Rightarrow> Inl (ValueError ''invalid literal for int()'') | Some i \<Rightarrow> Inr i)
     | _ \<Rightarrow> Inl (TypeError ''int() argument''))"

definition read_source :: "(pyval \<times> pyobj) list \<Rightarrow> payload \<Rightarrow> (pyobj \<times> int \<times> int \<times> string option) result" where
  "read_source codes payload =
     (let v = dict_get payload ''source'' in
      case (if obj_truthy v then v else PyDict []) of
        PyDict source \<Rightarrow>
          rbind (obj_int_or_zero (dict_get source ''chat_id'')) (\<lambda>chat_id.
          rbind (obj_int_or_zero (dict_get source ''message_id'')) (\<lambda>message_id.
          rbind (resolve_kol_code codes (Some chat_id) (dict_get source ''kol_code'')) (\<lambda>code.
            Inr (dict_get source ''kol_id'', chat_id, message_id, code))))
      | _ \<Rightarrow> Inl (AttributeError ''get''))"

definition required_float :: "payload \<Rightarrow> string \<Rightarrow> rat result" where
  "required_float payload key = rbind (require_value payload key) (\<lambda>v.
     case py_float v of None \<Rightarrow> Inl (ValueError ''could not convert to float'') | Some x \<Rightarrow> Inr x)"

definition offset_value :: "payload \<Rightarrow> string \<Rightarrow> rat result" where
  "offset_value payload key =
     parse_nonnegative_decimal (case map_of payload key of None \<Rightarrow> PyStr ''0'' | Some v \<Rightarrow> v) key"

definition rmap_option :: "('a \<Rightarrow> 'b result) \<Rightarrow> 'a option \<Rightarrow> 'b option result" where
  "rmap_option f v = (case v of None \<Rightarrow> Inr None | Some x \<Rightarrow> rbind (f x) (\<lambda>y. Inr (Some y)))"

text \<open>The plan of the legs with the stop they are sized for, in the code's four branches.\<close>

definition entry_plan ::
    "draft_head \<Rightarrow> rat \<Rightarrow> rat \<Rightarrow> bool \<Rightarrow> rat option \<Rightarrow> rat \<Rightarrow> rat \<Rightarrow> rat list \<Rightarrow> rat list \<Rightarrow> rat option \<Rightarrow> rat option
     \<Rightarrow> contract_spec option \<Rightarrow> ((string \<times> rat \<times> rat) list \<times> rat option) result" where
  "entry_plan h low high single hybrid first_offset second_offset supplemental explicit stop normalized_stop spec =
     (if supplemental \<noteq> [] \<or> explicit \<noteq> [] then
        rbind (planned_prices (dh_position_side h) low high single hybrid first_offset second_offset spec) (\<lambda>prices.
        rbind (custom_plan (dh_order_type h) hybrid prices supplemental explicit) (\<lambda>plan. Inr (plan, normalized_stop)))
      else if dh_order_type h = ''market'' \<or> single then
        rbind (normalize_final_entry_price (fdiv (fadd low high) 2) spec entry_normalization_error) (\<lambda>price.
          Inr ([(dh_order_type h, price, 100)], stop))
      else
        rbind (range_plan (dh_order_type h) (dh_position_side h) low high hybrid first_offset second_offset normalized_stop spec)
          (\<lambda>plan. Inr (plan, normalized_stop)))"

definition build_deepcoin_order_draft ::
    "(string \<Rightarrow> string) \<Rightarrow> (pyval \<times> pyobj) list \<Rightarrow> payload \<Rightarrow> contract_spec option \<Rightarrow> order_draft result" where
  "build_deepcoin_order_draft sha1 codes payload spec =
     rbind (read_head payload spec) (\<lambda>h.
     let symbol = PyStr (dh_symbol h) in
     rbind (parse_entry_range (dict_get payload ''entry_range'') symbol) (\<lambda>(low, high).
     let single = py_isclose low high in
     rbind (read_source codes payload) (\<lambda>(kol_id, chat_id, message_id, kol_code).
     rbind (required_float payload ''risk_budget_usdt'') (\<lambda>risk_budget.
     rbind (parse_optional_price (dict_get payload ''stop_loss'') symbol) (\<lambda>stop_loss.
     rbind (rmap_option (\<lambda>s. normalize_price s spec) stop_loss) (\<lambda>normalized_stop.
     let instance = dict_get payload ''strategy_instance_id'';
         strategy = (if obj_truthy instance then obj_str instance
                     else build_strategy_instance_id ''deepcoin'' chat_id message_id (dh_symbol h) (dh_position_side h)) in
     rbind (parse_optional_price (dict_get payload ''current_price'') symbol) (\<lambda>current_price.
     rbind (offset_value payload ''market_leg_threshold'') (\<lambda>threshold.
     rbind (offset_value payload ''first_limit_offset'') (\<lambda>first_offset.
     rbind (offset_value payload ''second_limit_offset'') (\<lambda>second_offset.
     rbind (plan_take_profits (let v = dict_get payload ''take_profit'' in if missing v then [] else extract_normalized_prices v symbol PyNone)
              (dh_position_side h) (dict_get payload ''take_profit_allocations'') spec) (\<lambda>take_profits.
     rbind (if dh_order_type h = ''limit'' \<and> \<not> single
            then hybrid_market_entry_price (dh_position_side h) low high current_price threshold spec else Inr None) (\<lambda>hybrid.
     rbind (parse_supplemental_entry_prices (dict_get payload ''supplemental_entry_prices'') symbol spec) (\<lambda>supplemental.
     rbind (parse_entry_allocations (dict_get payload ''entry_allocations'')) (\<lambda>explicit.
     rbind (entry_plan h low high single hybrid first_offset second_offset supplemental explicit stop_loss normalized_stop spec)
       (\<lambda>(plan, sizing_stop).
     rbind (build_legs sha1 \<lparr>lt_side = dh_open_side h, lt_position_side = dh_position_side h, lt_strategy = strategy,
              lt_kol_code = kol_code, lt_message_id = message_id, lt_risk_budget = risk_budget, lt_stop = sizing_stop,
              lt_spec = spec\<rparr> 1 plan) (\<lambda>legs.
     let order_legs = coalesce_equivalent_entry_legs legs in
     if (supplemental \<noteq> [] \<or> explicit \<noteq> []) \<and> float_decimal risk_budget < aggregate_risk order_legs
     then Inl (DeepcoinOrderDraftError ''aggregate entry risk exceeds risk_budget_usdt'')
     else Inr \<lparr>od_blocking_reason_codes = blocking_reason_codes stop_loss spec order_legs,
               od_strategy_instance_id = strategy, od_symbol = dh_symbol h, od_instrument_id = dh_instrument_id h,
               od_margin_mode = normalize_margin_mode (dict_get payload ''margin_mode''),
               od_position_mode = normalize_position_mode (dict_get payload ''position_mode''),
               od_order_legs = order_legs, od_stop_loss = map_option general_format normalized_stop,
               od_take_profit_legs = take_profits, od_risk_budget = risk_budget,
               od_source = (kol_id, chat_id, message_id, kol_code),
               od_notes = [''offline_constructor_only'', ''default_cross_margin_split_position'',
                   ''strategy_instance_id_required_for_exit_matching''] @ quantity_notes stop_loss spec
                   @ (if hybrid \<noteq> None then [''range_entry_hybrid_market_dynamic_risk_limit''] else []),
               od_contract_spec = spec\<rparr>))))))))))))))))"

end
