(* ===== verification/Order_Soundness.thy ===== *)
theory Order_Soundness
  imports Order_Builder
begin

text \<open>
  What a draft keeps: at most its budget is at risk at the stop, up to the roundings on the way; its
  orders have different ids the exchange accepts; and when nothing blocks it, every order is complete.
\<close>

section \<open>Counting roundings\<close>

text \<open>
  \<open>below k x y\<close>: \<open>x\<close> is \<open>y\<close> after \<open>k\<close> roundings, each up by at most half a unit in the last place. A
  decimal rounds more finely than a float, so it counts the same.
\<close>

definition slack :: "nat \<Rightarrow> rat" where "slack k = (1 + float_eps) ^ k"

definition below :: "nat \<Rightarrow> rat \<Rightarrow> rat \<Rightarrow> bool" where
  "below k x y \<longleftrightarrow> 0 \<le> x \<and> x \<le> y * slack k"

lemma slack_pos [simp]: "0 < slack k" "0 \<le> slack k"
  by (simp_all add: slack_def add_pos_pos add_nonneg_nonneg)

lemma slack_ge_1: "1 \<le> slack k"
  by (simp add: slack_def one_le_power)

lemma slack_add: "slack (m + n) = slack m * slack n"
  by (simp add: slack_def power_add)

lemma slack_mono: "m \<le> n \<Longrightarrow> slack m \<le> slack n"
  unfolding slack_def by (rule power_increasing) simp_all

lemma slack_1: "slack 1 = 1 + float_eps" "slack (Suc 0) = 1 + float_eps"
  by (simp_all add: slack_def)

lemma slack_2: "1 + 2 * float_eps \<le> slack 2"
  by (simp add: slack_def power2_eq_square algebra_simps)

lemma below_refl: "0 \<le> x \<Longrightarrow> below 0 x x"
  by (simp add: below_def slack_def)

lemma below_nonneg: "below k x y \<Longrightarrow> 0 \<le> x \<and> 0 \<le> y"
proof -
  assume "below k x y"
  then have "0 \<le> x" "0 \<le> y * slack k" by (auto simp: below_def)
  moreover have "0 \<le> y" using \<open>0 \<le> y * slack k\<close> slack_pos(1) [of k] by (simp add: zero_le_mult_iff)
  ultimately show ?thesis by simp
qed

lemma below_step:
  assumes "below k x y" "0 \<le> x'" "x' \<le> x * slack n"
  shows "below (k + n) x' y"
proof -
  have "x' \<le> x * slack n" by (rule assms(3))
  also have "\<dots> \<le> (y * slack k) * slack n" using assms(1) by (intro mult_right_mono) (simp_all add: below_def)
  also have "\<dots> = y * slack (k + n)" by (simp add: slack_add)
  finally show ?thesis using assms(2) by (simp add: below_def)
qed

lemma below_le: "below k x y \<Longrightarrow> 0 \<le> x' \<Longrightarrow> x' \<le> x \<Longrightarrow> below k x' y"
  by (auto simp: below_def)

lemma below_more: "below k x y \<Longrightarrow> k \<le> n \<Longrightarrow> below n x y"
proof -
  assume b: "below k x y" and "k \<le> n"
  then have "y * slack k \<le> y * slack n" using below_nonneg [OF b] by (intro mult_left_mono slack_mono) simp_all
  with b show ?thesis by (auto simp: below_def)
qed

lemma below_mult:
  assumes "below m x y" "below n u v"
  shows "below (m + n) (x * u) (y * v)"
proof -
  have "x * u \<le> (y * slack m) * (v * slack n)"
    using assms below_nonneg [OF assms(1)] below_nonneg [OF assms(2)] by (intro mult_mono) (simp_all add: below_def)
  then show ?thesis using assms by (simp add: below_def slack_add algebra_simps)
qed

lemma below_div: "below k x y \<Longrightarrow> 0 < c \<Longrightarrow> below k (x / c) (y / c)"
  by (simp add: below_def divide_le_eq)

lemma below_times: "below k x y \<Longrightarrow> 0 \<le> c \<Longrightarrow> below k (c * x) (c * y)"
  using below_mult [OF below_refl] by simp

lemma fround_slack: "0 \<le> x \<Longrightarrow> fround x \<le> x * slack 1"
  using fround_bounds(1) [of x] by (simp add: slack_1)

lemma below_fround: "below k x y \<Longrightarrow> below (k + 1) (fround x) y"
  using fround_slack [of x] by (intro below_step) (auto simp: below_def intro: flt.rnd_nonneg)

lemma float_decimal_nonneg: "0 \<le> x \<Longrightarrow> 0 \<le> float_decimal x"
  using float_decimal_pos [of x] by (cases "x = 0") auto

lemma below_float_decimal: "below k x y \<Longrightarrow> below (k + 2) (float_decimal x) y"
proof (rule below_step)
  assume b: "below k x y"
  then have x: "0 \<le> x" by (simp add: below_def)
  have "float_decimal x \<le> x * (1 + 2 * float_eps)" using float_decimal_bounds(1) [OF x] .
  also have "\<dots> \<le> x * slack 2" using slack_2 x by (rule mult_left_mono)
  finally show "float_decimal x \<le> x * slack 2" .
  show "0 \<le> float_decimal x" using x by (rule float_decimal_nonneg)
qed

lemma dround_round_to: "dround x = round_to 10 28 x"
  by (simp add: dround_def round_to_def dexp_def base_exp_def)

lemma dround_error: "\<bar>dround x - x\<bar> \<le> \<bar>x\<bar> * float_eps"
proof -
  have "\<bar>dround x - x\<bar> \<le> \<bar>x\<bar> / (2 * 10 ^ 27)" using round_to_error [of 10 28 x] by (simp add: dround_round_to)
  also have "\<dots> \<le> \<bar>x\<bar> * float_eps"
    using mult_left_mono [of "1 / (2 * 10 ^ 27)" float_eps "\<bar>x\<bar>"] by (simp add: float_eps_def)
  finally show ?thesis .
qed

lemma below_dround: "below k x y \<Longrightarrow> below (k + 1) (dround x) y"
proof (rule below_step)
  assume "below k x y"
  then have x: "0 \<le> x" by (simp add: below_def)
  show "dround x \<le> x * slack 1" using dround_error [of x] x by (simp add: slack_1 abs_le_iff algebra_simps)
  show "0 \<le> dround x" using x by (rule ctx.rnd_nonneg)
qed

text \<open>The other way round: a sum of rounded decimals against the sum itself.\<close>

lemma inverse_slack:
  fixes x y c s :: rat
  assumes "x * (1 - c) \<le> y" "1 \<le> (1 - c) * s" "0 \<le> x" "0 \<le> s"
  shows "x \<le> y * s"
proof -
  have "x * 1 \<le> x * ((1 - c) * s)" using assms(2,3) by (intro mult_left_mono) simp_all
  also have "\<dots> = (x * (1 - c)) * s" by simp
  also have "\<dots> \<le> y * s" using assms(1,4) by (rule mult_right_mono)
  finally show ?thesis by simp
qed

lemma slack_numbers: "1 \<le> (1 - float_eps) * slack 2" "1 \<le> (1 - 2 * float_eps) * slack 4"
  unfolding slack_def float_eps_def by (simp_all add: power_divide)

lemma dround_up: "0 \<le> x \<Longrightarrow> x \<le> dround x * slack 2"
proof (rule inverse_slack [OF _ slack_numbers(1)])
  assume "0 \<le> x"
  then show "x * (1 - float_eps) \<le> dround x" using dround_error [of x] by (simp add: abs_le_iff right_diff_distrib)
qed simp_all

lemma float_decimal_up: "0 \<le> x \<Longrightarrow> x \<le> float_decimal x * slack 4"
  by (rule inverse_slack [OF float_decimal_bounds(2) slack_numbers(2)]) simp_all

lemma dadd_nonneg: "0 \<le> x \<Longrightarrow> 0 \<le> y \<Longrightarrow> 0 \<le> dadd x y"
  unfolding dadd_def by (rule ctx.rnd_nonneg) simp

lemma dsum_up:
  assumes "\<And>x. x \<in> set xs \<Longrightarrow> 0 \<le> x" "0 \<le> acc"
  shows "acc + sum_list xs \<le> foldl dadd acc xs * slack (2 * length xs)" "0 \<le> foldl dadd acc xs"
  using assms
proof (induction xs arbitrary: acc)
  case (Cons x xs)
  {
    case 1
    have x: "0 \<le> x" using 1(1) by simp
    have "acc + sum_list (x # xs) = (acc + x) + sum_list xs" by simp
    also have "\<dots> \<le> dadd acc x * slack 2 + sum_list xs * slack 2"
      using dround_up [of "acc + x"] x 1(2) mult_left_mono [OF slack_ge_1 [of 2] sum_list_nonneg [of xs]] 1(1)
      by (intro add_mono) (simp_all add: dadd_def)
    also have "\<dots> = (dadd acc x + sum_list xs) * slack 2" by (simp add: algebra_simps)
    also have "\<dots> \<le> (foldl dadd (dadd acc x) xs * slack (2 * length xs)) * slack 2"
      using Cons.IH(1) [of "dadd acc x"] x 1 by (intro mult_right_mono) (auto simp: dadd_nonneg)
    also have "\<dots> = foldl dadd acc (x # xs) * slack (2 * length (x # xs))" by (simp add: slack_add [symmetric] algebra_simps)
    finally show ?case .
  next
    case 2
    then show ?case using Cons.IH(2) [of "dadd acc x"] by (simp add: dadd_nonneg)
  }
qed (simp_all add: slack_def)

section \<open>One leg\<close>

lemma trunc_nonneg: "0 \<le> x \<Longrightarrow> 0 \<le> (of_int (trunc x) :: rat) \<and> of_int (trunc x) \<le> x"
  by (simp add: trunc_def)

lemma quantize_down6_Inr:
  assumes "quantize_down6 x = Inr q" "0 \<le> x"
  shows "0 \<le> q" "q \<le> x"
proof -
  from assms(1) have q: "q = of_int (trunc (x * 10 ^ 6)) / 10 ^ 6" by (simp add: quantize_down6_def Let_def split: if_splits)
  show "0 \<le> q" using trunc_nonneg [of "x * 10 ^ 6"] assms(2) by (simp add: q)
  show "q \<le> x" using trunc_nonneg [of "x * 10 ^ 6"] assms(2) by (simp add: q divide_le_eq)
qed

lemma round_down_below:
  assumes "round_down_to_step x step = Inr y" "below k x z"
  shows "below (k + 5) y z"
proof -
  let ?s = "float_decimal step"
  from assms(1) have s: "0 < ?s" and y: "y = fround (dmul (of_int (trunc (ddiv (float_decimal x) ?s))) ?s)"
    by (auto simp: round_down_to_step_def Let_def split: if_splits)
  have "below (k + 2 + 1) (ddiv (float_decimal x) ?s) (z / ?s)"
    unfolding ddiv_def by (intro below_dround below_div below_float_decimal assms(2) s)
  then have "below (k + 2 + 1) (of_int (trunc (ddiv (float_decimal x) ?s))) (z / ?s)"
    by (rule below_le) (use trunc_nonneg [of "ddiv (float_decimal x) ?s"] below_nonneg [OF \<open>below (k + 2 + 1) _ _\<close>] in simp_all)
  then have "below (k + 2 + 1 + 0) (of_int (trunc (ddiv (float_decimal x) ?s)) * ?s) (z / ?s * ?s)"
    by (rule below_mult) (use s in \<open>simp add: below_refl\<close>)
  then have "below (k + 3 + 1 + 1) y (z / ?s * ?s)" unfolding y dmul_def
    by (intro below_fround below_dround) (simp add: numeral_3_eq_3)
  then show ?thesis using s by (simp add: numeral_eq_Suc)
qed

lemma estimate_leg_quantity_below:
  assumes "estimate_leg_quantity B a price (Some stop) = Inr (Some q)" "0 \<le> B" "0 \<le> a"
  shows "0 < price_risk price stop" "below 8 q (B * a / 100 / price_risk price stop)"
proof -
  let ?r = "price_risk price stop"
  let ?l = "ddiv (dmul (float_decimal B) (float_decimal a)) 100"
  from assms(1) obtain q6 where r: "0 < ?r" and q6: "quantize_down6 (ddiv ?l ?r) = Inr q6" and q: "q = fround q6"
    by (auto simp: estimate_leg_quantity_def Let_def rbind_Inr_iff split: if_splits)
  show "0 < ?r" by (rule r)
  have "below (0 + 2 + (0 + 2)) (float_decimal B * float_decimal a) (B * a)"
    using assms(2,3) by (intro below_mult below_float_decimal below_refl)
  then have "below (0 + 2 + (0 + 2) + 1 + 1) ?l (B * a / 100)"
    unfolding ddiv_def dmul_def by (intro below_dround below_div) simp_all
  then have l: "below (0 + 2 + (0 + 2) + 1 + 1 + 1) (ddiv ?l ?r) (B * a / 100 / ?r)"
    unfolding ddiv_def [of ?l ?r] by (intro below_dround below_div r)
  then have "below (0 + 2 + (0 + 2) + 1 + 1 + 1) q6 (B * a / 100 / ?r)"
    using quantize_down6_Inr [OF q6] below_nonneg [OF l] by (intro below_le [OF l]) simp_all
  then have "below (0 + 2 + (0 + 2) + 1 + 1 + 1 + 1) q (B * a / 100 / ?r)" unfolding q by (rule below_fround)
  then show "below 8 q (B * a / 100 / ?r)" by (rule below_more) simp
qed

definition spec_ok :: "contract_spec option \<Rightarrow> bool" where
  "spec_ok spec \<longleftrightarrow> (\<forall>c. spec = Some c \<longrightarrow> 0 < ct_value c \<and> 0 < ct_quantity_step c \<and> 0 < ct_min_quantity c \<and> 0 < ct_price_tick c)"

lemma make_contract_spec_ok: "make_contract_spec i v s m t = Inr c \<Longrightarrow> spec_ok (Some c)"
  by (auto simp: make_contract_spec_def spec_ok_def split: if_splits)

text \<open>The shape of a leg that \<open>order_leg_of\<close> returns.\<close>

lemma order_leg_of_Inr:
  assumes "order_leg_of side ps ot price cid pct budget quantity stop spec = Inr leg"
  shows "ol_side leg = side" "ol_position_side leg = ps" "ol_order_type leg = ot" "ol_price leg = general_format price"
    "ol_client_order_id leg = cid" "ol_allocation_pct leg = pct" "ol_risk_budget leg = budget" "ol_merged_from leg = None"
    "ol_estimated_loss leg = estimated_stop_loss price stop (ol_quantity leg) (ol_quantity_unit leg) spec"
    "(ol_quantity leg = None) = (quantity = None)"
  using assms
  by (auto simp: order_leg_of_def Let_def rbind_Inr_iff split: option.splits)

lemma order_leg_of_quantity:
  assumes "order_leg_of side ps ot price cid pct budget (Some q) stop spec = Inr leg"
  shows "spec = None \<Longrightarrow> ol_quantity leg = Some q \<and> ol_quantity_unit leg = Some ''base_asset_estimate'' \<and> ol_base_estimate leg = None"
    and "spec = Some c \<Longrightarrow> \<exists>k. ol_quantity leg = Some k \<and> ol_quantity_unit leg = Some ''contracts'' \<and> ol_base_estimate leg = Some q
      \<and> round_down_to_step (fdiv q (ct_value c)) (ct_quantity_step c) = Inr k"
  using assms by (auto simp: order_leg_of_def Let_def rbind_Inr_iff)

text \<open>The loss of a leg at its stop is at most its share of the budget.\<close>

lemma leg_loss_below:
  assumes leg: "order_leg_of side ps ot price cid pct b quantity (Some stop) spec = Inr leg"
    and q: "estimate_leg_quantity B a price (Some stop) = Inr quantity" and nn: "0 \<le> B" "0 \<le> a" and ok: "spec_ok spec"
  shows "\<exists>x. ol_estimated_loss leg = Some x \<and> below 21 x (B * a / 100)"
proof -
  define r where "r = price_risk price stop"
  define z where "z = B * a / 100 / r"
  obtain Q where Q: "quantity = Some Q" using q by (auto simp: estimate_leg_quantity_def Let_def rbind_Inr_iff split: if_splits)
  have e: "0 < r" "below 8 Q z"
    using estimate_leg_quantity_below [OF q [unfolded Q] nn] by (simp_all only: r_def z_def)
  have z: "r * z = B * a / 100" using e(1) by (simp add: z_def)
  have r: "0 \<le> r" using e(1) by simp
  show ?thesis
  proof (cases spec)
    case None
    have "below (8 + 2 + 1 + 1) (fround (dmul r (float_decimal Q))) (r * z)"
      unfolding dmul_def by (intro below_fround below_dround below_times below_float_decimal e(2) r)
    then have "below 21 (fround (dmul r (float_decimal Q))) (B * a / 100)" unfolding z by (rule below_more) simp
    moreover have "ol_estimated_loss leg = Some (fround (dmul r (float_decimal Q)))"
      using order_leg_of_quantity(1) [OF leg [unfolded Q] None] order_leg_of_Inr(9) [OF leg] e(1)
      by (simp add: estimated_stop_loss_def r_def)
    ultimately show ?thesis by blast
  next
    case (Some c)
    let ?v = "ct_value c"
    have v: "0 < ?v" using ok Some by (simp add: spec_ok_def)
    obtain k where k: "ol_quantity leg = Some k" "ol_quantity_unit leg = Some ''contracts''"
      "round_down_to_step (fdiv Q ?v) (ct_quantity_step c) = Inr k"
      using order_leg_of_quantity(2) [OF leg [unfolded Q] Some] by blast
    have "below (8 + 1) (fdiv Q ?v) (z / ?v)" unfolding fdiv_def by (intro below_fround below_div e(2) v)
    then have "below (8 + 1 + 5) k (z / ?v)" by (rule round_down_below [OF k(3)])
    then have "below (8 + 1 + 5 + 2 + 1) (dmul r (float_decimal k)) (r * (z / ?v))"
      unfolding dmul_def by (intro below_dround below_times below_float_decimal r)
    then have "below (8 + 1 + 5 + 2 + 1 + (0 + 2)) (dmul r (float_decimal k) * float_decimal ?v) (r * (z / ?v) * ?v)"
      using v by (intro below_mult below_float_decimal below_refl) simp_all
    then have "below (8 + 1 + 5 + 2 + 1 + (0 + 2) + 1 + 1) (fround (dmul (dmul r (float_decimal k)) (float_decimal ?v))) (r * (z / ?v) * ?v)"
      unfolding dmul_def [of _ "float_decimal ?v"] by (intro below_fround below_dround)
    moreover have "r * (z / ?v) * ?v = B * a / 100" using v z by simp
    ultimately have "below (8 + 1 + 5 + 2 + 1 + (0 + 2) + 1 + 1) (fround (dmul (dmul r (float_decimal k)) (float_decimal ?v))) (B * a / 100)"
      by (simp only:)
    then have "below 21 (fround (dmul (dmul r (float_decimal k)) (float_decimal ?v))) (B * a / 100)" by (rule below_more) simp
    moreover have "ol_estimated_loss leg = Some (fround (dmul (dmul r (float_decimal k)) (float_decimal ?v)))"
      using k order_leg_of_Inr(9) [OF leg] e(1) Some by (simp add: estimated_stop_loss_def r_def)
    ultimately show ?thesis by blast
  qed
qed

section \<open>The legs together\<close>

definition leg_loss :: "order_leg \<Rightarrow> rat" where
  "leg_loss leg = (case ol_estimated_loss leg of None \<Rightarrow> 0 | Some x \<Rightarrow> x)"

definition total_loss :: "order_leg list \<Rightarrow> rat" where
  "total_loss legs = sum_list (map leg_loss legs)"

lemma total_loss_simps [simp]: "total_loss [] = 0" "total_loss (leg # legs) = leg_loss leg + total_loss legs"
  "total_loss (legs @ legs') = total_loss legs + total_loss legs'"
  by (simp_all add: total_loss_def)

lemma below_add: "below k x y \<Longrightarrow> below k u v \<Longrightarrow> below k (x + u) (y + v)"
  by (simp add: below_def distrib_right)

lemma build_leg_Inr:
  assumes "build_leg sha1 t index ot price a = Inr leg"
  obtains quantity where "estimate_leg_quantity (lt_risk_budget t) a price (lt_stop t) = Inr quantity"
    "order_leg_of (lt_side t) (lt_position_side t) ot price
       (build_client_order_id sha1 (lt_strategy t) (int index) ''entry'' (lt_kol_code t) (Some (lt_message_id t)))
       a (leg_risk_budget (lt_risk_budget t) a) quantity (lt_stop t) (lt_spec t) = Inr leg"
  using assms by (auto simp: build_leg_def rbind_Inr_iff)

lemma build_leg_loss:
  assumes "build_leg sha1 t index ot price a = Inr leg" "0 \<le> lt_risk_budget t" "0 \<le> a" "spec_ok (lt_spec t)"
  shows "below 21 (leg_loss leg) (lt_risk_budget t * a / 100)"
proof -
  obtain quantity where q: "estimate_leg_quantity (lt_risk_budget t) a price (lt_stop t) = Inr quantity"
    "order_leg_of (lt_side t) (lt_position_side t) ot price
       (build_client_order_id sha1 (lt_strategy t) (int index) ''entry'' (lt_kol_code t) (Some (lt_message_id t)))
       a (leg_risk_budget (lt_risk_budget t) a) quantity (lt_stop t) (lt_spec t) = Inr leg"
    using assms(1) by (rule build_leg_Inr)
  show ?thesis
  proof (cases "lt_stop t")
    case None
    then have "ol_estimated_loss leg = None" using order_leg_of_Inr(9) [OF q(2)] by (simp add: estimated_stop_loss_def)
    then show ?thesis using assms(2,3) by (simp add: leg_loss_def below_def)
  next
    case (Some stop)
    then show ?thesis using leg_loss_below [OF q(2) [unfolded Some] q(1) [unfolded Some] assms(2,3,4)]
      by (auto simp: leg_loss_def)
  qed
qed

definition plan_share :: "(string \<times> rat \<times> rat) list \<Rightarrow> rat" where
  "plan_share plan = sum_list (map (\<lambda>x. snd (snd x)) plan)"

lemma build_legs_loss:
  assumes "build_legs sha1 t index plan = Inr legs" "0 \<le> lt_risk_budget t" "spec_ok (lt_spec t)"
    "\<forall>x\<in>set plan. 0 \<le> snd (snd x)"
  shows "below 21 (total_loss legs) (lt_risk_budget t * plan_share plan / 100) \<and> (\<forall>leg\<in>set legs. 0 \<le> leg_loss leg)"
  using assms
proof (induction sha1 t index plan arbitrary: legs rule: build_legs.induct)
  case (2 sha1 t index ot price a plan)
  then obtain leg rest where l: "build_leg sha1 t index ot price a = Inr leg" "build_legs sha1 t (Suc index) plan = Inr rest" "legs = leg # rest"
    by (auto simp: rbind_Inr_iff)
  have leg: "below 21 (leg_loss leg) (lt_risk_budget t * a / 100)"
    using 2(5) by (intro build_leg_loss [OF l(1) 2(3) _ 2(4)]) simp
  have rest: "below 21 (total_loss rest) (lt_risk_budget t * plan_share plan / 100) \<and> (\<forall>leg\<in>set rest. 0 \<le> leg_loss leg)"
    using 2(5) by (intro "2.IH" [OF l(1,2) 2(3,4)]) simp
  then show ?case using below_add [OF leg, of "total_loss rest"] leg
    by (simp add: l(3) plan_share_def add_divide_distrib distrib_left below_def)
qed (simp add: below_def plan_share_def)

lemma build_legs_ids:
  "build_legs sha1 t index plan = Inr legs \<Longrightarrow> map ol_client_order_id legs
     = map (\<lambda>i. build_client_order_id sha1 (lt_strategy t) (int i) ''entry'' (lt_kol_code t) (Some (lt_message_id t)))
         [index..<index + length plan]"
proof (induction sha1 t index plan arbitrary: legs rule: build_legs.induct)
  case (2 sha1 t index ot price a plan)
  then obtain leg rest where l: "build_leg sha1 t index ot price a = Inr leg" "build_legs sha1 t (Suc index) plan = Inr rest" "legs = leg # rest"
    by (auto simp: rbind_Inr_iff)
  have "ol_client_order_id leg = build_client_order_id sha1 (lt_strategy t) (int index) ''entry'' (lt_kol_code t) (Some (lt_message_id t))"
    using l(1) by (rule build_leg_Inr) (simp add: order_leg_of_Inr(5))
  moreover have "[index..<index + length ((ot, price, a) # plan)] = index # [Suc index..<Suc index + length plan]"
    by (simp add: upt_conv_Cons del: upt_Suc)
  ultimately show ?case using "2.IH" [OF l(1,2)] by (simp only: l(3) list.map)
qed simp

section \<open>Merging equivalent legs\<close>

abbreviation merged :: "order_leg \<Rightarrow> order_leg \<Rightarrow> nat list \<Rightarrow> order_leg" where
  "merged current leg sources \<equiv> (merge_leg current leg)\<lparr>ol_merged_from := Some sources\<rparr>"

lemma merged_fields [simp]:
  "ol_client_order_id (merged x y s) = ol_client_order_id x" "ol_side (merged x y s) = ol_side x"
  "ol_position_side (merged x y s) = ol_position_side x" "ol_order_type (merged x y s) = ol_order_type x"
  "ol_price (merged x y s) = ol_price x" "ol_quantity_unit (merged x y s) = ol_quantity_unit x"
  "ol_quantity (merged x y s) = add_field (ol_quantity x) (ol_quantity y)"
  "ol_estimated_loss (merged x y s) = add_field (ol_estimated_loss x) (ol_estimated_loss y)"
  by (simp_all add: merge_leg_def)

lemma merged_loss:
  assumes "0 \<le> leg_loss x" "0 \<le> leg_loss y"
  shows "0 \<le> leg_loss (merged x y s)" "leg_loss (merged x y s) \<le> (leg_loss x + leg_loss y) * slack 1"
proof -
  have 1: "a \<le> (a + b) * slack 1" if "0 \<le> a" "0 \<le> b" for a b
    using mult_mono [of a "a + b" 1 "slack 1"] that slack_ge_1 [of 1] by simp
  show "0 \<le> leg_loss (merged x y s)"
    using assms by (auto simp: leg_loss_def add_field_def fadd_def intro!: flt.rnd_nonneg split: option.splits)
  show "leg_loss (merged x y s) \<le> (leg_loss x + leg_loss y) * slack 1"
    using assms 1 [of "leg_loss x" "leg_loss y"] fround_slack [of "leg_loss x + leg_loss y"] 1 [of 0 "leg_loss y"]
    by (auto simp: leg_loss_def add_field_def fadd_def split: option.splits)
qed

lemma merge_into_loss:
  assumes "0 \<le> leg_loss leg" "\<forall>x\<in>set acc. 0 \<le> leg_loss (fst x)"
  shows "total_loss (map fst (merge_into i leg acc)) \<le> (total_loss (map fst acc) + leg_loss leg) * slack 1
    \<and> (\<forall>x\<in>set (merge_into i leg acc). 0 \<le> leg_loss (fst x))"
  using assms
proof (induction i leg acc rule: merge_into.induct)
  case (1 index leg)
  then show ?case using mult_left_mono [OF slack_ge_1 [of 1], of "leg_loss leg"] by simp
next
  case (2 index leg current sources rest)
  have m: "z \<le> z * slack 1" if "0 \<le> z" for z using mult_left_mono [OF slack_ge_1 [of 1] that] by simp
  have nn: "0 \<le> leg_loss current" "0 \<le> total_loss (map fst rest)"
    using 2 by (auto simp: total_loss_def intro!: sum_list_nonneg)
  show ?case
  proof (cases "leg_key current = leg_key leg")
    case True
    then show ?thesis using merged_loss [OF nn(1) "2.prems"(1), of "sources @ [index]"] m [OF nn(2)] "2.prems"(2)
      by (simp add: algebra_simps)
  next
    case False
    then show ?thesis using "2.IH" [OF False "2.prems"(1)] "2.prems"(2) m [OF nn(1)] by (simp add: algebra_simps)
  qed
qed

lemma coalesce_loss:
  assumes "\<forall>leg\<in>set legs. 0 \<le> leg_loss leg" "\<forall>x\<in>set acc. 0 \<le> leg_loss (fst x)"
  shows "total_loss (map fst (coalesce_legs i legs acc)) \<le> (total_loss (map fst acc) + total_loss legs) * slack (length legs)
    \<and> (\<forall>x\<in>set (coalesce_legs i legs acc). 0 \<le> leg_loss (fst x))"
  using assms
proof (induction i legs acc rule: coalesce_legs.induct)
  case (1 index coalesced)
  then show ?case by (simp add: slack_def)
next
  case (2 index leg legs coalesced)
  let ?acc = "merge_into index leg coalesced"
  have m: "total_loss (map fst ?acc) \<le> (total_loss (map fst coalesced) + leg_loss leg) * slack 1"
    "\<forall>x\<in>set ?acc. 0 \<le> leg_loss (fst x)"
    using merge_into_loss [of leg coalesced index] "2.prems" by simp_all
  have t: "0 \<le> total_loss legs" using "2.prems"(1) by (auto simp: total_loss_def intro!: sum_list_nonneg)
  have ih: "total_loss (map fst (coalesce_legs (Suc index) legs ?acc)) \<le> (total_loss (map fst ?acc) + total_loss legs) * slack (length legs)"
    "\<forall>x\<in>set (coalesce_legs (Suc index) legs ?acc). 0 \<le> leg_loss (fst x)"
    using "2.IH" "2.prems"(1) m(2) by simp_all
  have "total_loss (map fst ?acc) + total_loss legs \<le> (total_loss (map fst coalesced) + leg_loss leg) * slack 1 + total_loss legs * slack 1"
    using m(1) mult_left_mono [OF slack_ge_1 [of 1] t] by linarith
  then have "(total_loss (map fst ?acc) + total_loss legs) * slack (length legs)
      \<le> ((total_loss (map fst coalesced) + leg_loss leg) * slack 1 + total_loss legs * slack 1) * slack (length legs)"
    by (rule mult_right_mono) simp
  also have "\<dots> = (total_loss (map fst coalesced) + total_loss (leg # legs)) * slack (length (leg # legs))"
    by (simp add: slack_def algebra_simps)
  finally show ?case using ih by simp
qed

lemma merge_into_ids:
  "map (ol_client_order_id \<circ> fst) (merge_into i leg acc) = map (ol_client_order_id \<circ> fst) acc
   \<or> map (ol_client_order_id \<circ> fst) (merge_into i leg acc) = map (ol_client_order_id \<circ> fst) acc @ [ol_client_order_id leg]"
  by (induction i leg acc rule: merge_into.induct) auto

abbreviation client_ids :: "(order_leg \<times> nat list) list \<Rightarrow> string list" where
  "client_ids acc \<equiv> map (ol_client_order_id \<circ> fst) acc"

lemma merge_into_length: "length (merge_into i leg acc) \<le> Suc (length acc) \<and> merge_into i leg acc \<noteq> []"
  by (induction i leg acc rule: merge_into.induct) simp_all

lemma coalesce_length: "length (coalesce_legs i legs acc) \<le> length acc + length legs"
proof (induction i legs acc rule: coalesce_legs.induct)
  case (2 index leg legs coalesced)
  then show ?case using merge_into_length [of index leg coalesced] by simp
qed simp

lemma coalesce_nonempty: "acc \<noteq> [] \<or> legs \<noteq> [] \<Longrightarrow> coalesce_legs i legs acc \<noteq> []"
  by (induction i legs acc rule: coalesce_legs.induct) (simp_all add: merge_into_length)

lemma coalesce_ids:
  assumes "distinct (client_ids acc @ map ol_client_order_id legs)"
  shows "distinct (client_ids (coalesce_legs i legs acc))
    \<and> set (client_ids (coalesce_legs i legs acc)) \<subseteq> set (client_ids acc) \<union> set (map ol_client_order_id legs)"
  using assms
proof (induction i legs acc rule: coalesce_legs.induct)
  case (2 index leg legs coalesced)
  let ?m = "merge_into index leg coalesced"
  have drop: "distinct (xs @ ys) \<and> distinct ((xs @ [x]) @ ys)" if "distinct (xs @ x # ys)" for xs ys and x :: string
    using that by auto
  have d: "distinct (client_ids coalesced @ map ol_client_order_id legs)"
    "distinct ((client_ids coalesced @ [ol_client_order_id leg]) @ map ol_client_order_id legs)"
    using drop [OF "2.prems" [unfolded list.map]] by (rule conjunct1) (rule conjunct2 [OF drop [OF "2.prems" [unfolded list.map]]])
  have "distinct (client_ids ?m @ map ol_client_order_id legs)
      \<and> set (client_ids ?m) \<subseteq> set (client_ids coalesced) \<union> {ol_client_order_id leg}"
    using merge_into_ids [of index leg coalesced]
  proof
    assume m: "client_ids ?m = client_ids coalesced"
    show ?thesis unfolding m using d(1) by (auto simp only: Un_upper1)
  next
    assume m: "client_ids ?m = client_ids coalesced @ [ol_client_order_id leg]"
    show ?thesis unfolding m using d(2) by (simp only: set_append list.set) simp
  qed
  then have h: "distinct (client_ids ?m @ map ol_client_order_id legs)"
    "set (client_ids ?m) \<subseteq> set (client_ids coalesced) \<union> {ol_client_order_id leg}" by blast+
  let ?c = "client_ids (coalesce_legs (Suc index) legs ?m)"
  have ih: "distinct ?c" "set ?c \<subseteq> set (client_ids ?m) \<union> set (map ol_client_order_id legs)"
    using "2.IH" [OF h(1)] by blast+
  have "set ?c \<subseteq> set (client_ids coalesced) \<union> ({ol_client_order_id leg} \<union> set (map ol_client_order_id legs))"
    using ih(2) h(2) by blast
  then show ?case using ih(1) by (simp only: coalesce_legs.simps list.map list.set insert_is_Un [symmetric])
qed simp

lemma coalesce_all:
  assumes step: "\<And>x y s. P x \<Longrightarrow> P y \<Longrightarrow> leg_key x = leg_key y \<Longrightarrow> P (merged x y s)"
    and "\<forall>leg\<in>set legs. P leg" "\<forall>x\<in>set acc. P (fst x)"
  shows "\<forall>x\<in>set (coalesce_legs i legs acc). P (fst x)"
proof -
  have m: "\<forall>x\<in>set (merge_into i leg acc). P (fst x)" if "P leg" "\<forall>x\<in>set acc. P (fst x)" for i leg acc
    using that by (induction i leg acc rule: merge_into.induct) (auto simp: step)
  show ?thesis using assms(2,3)
  proof (induction i legs acc rule: coalesce_legs.induct)
    case (2 index leg legs coalesced)
    then show ?case using m [of leg coalesced index] by simp
  qed simp
qed

section \<open>The plan\<close>

lemma range_entry_allocations_Inr:
  assumes "range_entry_allocations p q stop = Inr (a, b)"
  shows "0 \<le> a" "0 \<le> b" "a + b \<le> 100 * slack 1"
proof -
  have "a = 50 \<and> b = 50 \<or> 50 \<le> a \<and> a \<le> 65 \<and> b = fsub 100 a"
  proof (cases stop)
    case None
    then show ?thesis using assms by (simp add: range_entry_allocations_def)
  next
    case (Some s)
    define x where "x = fmul (fdiv \<bar>fsub p s\<bar> (fadd \<bar>fsub p s\<bar> \<bar>fsub q s\<bar>)) 100"
    have "a = min 65 (max 50 x) \<and> b = fsub 100 a"
      using assms by (auto simp: range_entry_allocations_def Some Let_def x_def [symmetric] split: if_splits)
    moreover have "50 \<le> min 65 (max 50 x)" "min 65 (max 50 x) \<le> 65" by simp_all
    ultimately show ?thesis by simp
  qed
  then have "0 \<le> a \<and> 0 \<le> b \<and> a + b \<le> 100 * slack 1"
  proof
    assume "a = 50 \<and> b = 50"
    then show ?thesis using slack_ge_1 [of 1] by simp
  next
    assume ab: "50 \<le> a \<and> a \<le> 65 \<and> b = fsub 100 a"
    have "b \<le> (100 - a) * slack 1" using ab fround_slack [of "100 - a"] by (simp add: fsub_def)
    moreover have "0 \<le> a * float_eps" using ab by (intro mult_nonneg_nonneg) simp_all
    moreover have "0 \<le> b" using ab by (auto simp: fsub_def intro: flt.rnd_nonneg)
    ultimately have "a + b \<le> 100 * slack 1" by (simp add: left_diff_distrib slack_1 distrib_left)
    then show ?thesis using ab \<open>0 \<le> b\<close> by simp
  qed
  then show "0 \<le> a" "0 \<le> b" "a + b \<le> 100 * slack 1" by simp_all
qed

lemma range_plan_shape:
  assumes "range_plan ot ps low high hybrid fo so stop spec = Inr plan"
  obtains p q a b t u where "planned_prices ps low high False hybrid fo so spec = Inr [p, q]"
    "range_entry_allocations p q stop = Inr (a, b)" "plan = [(t, p, a), (u, q, b)]"
proof -
  from assms obtain prices where ps: "planned_prices ps low high False hybrid fo so spec = Inr prices"
    and r: "(case prices of [p, q] \<Rightarrow> rbind (range_entry_allocations p q stop) (\<lambda>(a, b).
           Inr [(if hybrid \<noteq> None then ''market'' else ot, p, a), (if hybrid \<noteq> None then ''limit'' else ot, q, b)])
       | _ \<Rightarrow> Inr []) = Inr plan"
    by (auto simp: range_plan_def rbind_Inr_iff)
  from ps obtain p q where pq: "prices = [p, q]"
    by (auto simp: planned_prices_def rbind_Inr_iff split: option.splits prod.splits)
  from r obtain a b t u where "range_entry_allocations p q stop = Inr (a, b)" "plan = [(t, p, a), (u, q, b)]"
    by (auto simp: pq rbind_Inr_iff split: prod.splits)
  then show ?thesis using ps pq by (intro that) simp_all
qed

lemma range_plan_Inr:
  assumes "range_plan ot ps low high hybrid fo so stop spec = Inr plan"
  shows "length plan = 2" "\<forall>x\<in>set plan. 0 \<le> snd (snd x)" "plan_share plan \<le> 100 * slack 1"
  using assms by (auto elim!: range_plan_shape simp: plan_share_def dest: range_entry_allocations_Inr)

lemma add_prices_nonempty: "planned \<noteq> [] \<Longrightarrow> add_prices planned ps \<noteq> []"
  by (induction planned ps rule: add_prices.induct) auto

lemma custom_plan_Inr:
  assumes "custom_plan ot hybrid planned supplemental explicit = Inr plan" "planned \<noteq> []" "\<forall>e\<in>set explicit. 0 \<le> e"
  shows "plan \<noteq> []" "length plan \<le> 5" "\<forall>x\<in>set plan. 0 \<le> snd (snd x)"
proof -
  let ?prices = "add_prices planned supplemental"
  from assms(1) obtain fractions where n: "length ?prices \<le> 5"
    and f: "allocation_fractions explicit (length ?prices) = Inr fractions"
    and plan: "plan = map (\<lambda>(i, price, fraction).
               (if i = 0 then (if hybrid \<noteq> None then ''market'' else ot) else ''limit'', price, fround (dmul fraction 100)))
             (enumerate 0 (zip ?prices fractions))"
    by (auto simp: custom_plan_def Let_def rbind_Inr_iff max_entry_legs_def split: if_splits)
  have l: "length fractions = length ?prices" and nn: "\<forall>e\<in>set fractions. 0 \<le> e"
    using f assms(3) by (auto simp: allocation_fractions_def ddiv_def intro!: ctx.rnd_nonneg split: if_splits)
  show "plan \<noteq> []" "length plan \<le> 5"
    using n l add_prices_nonempty [OF assms(2), of supplemental] by (auto simp: plan enumerate_eq_zip simp flip: length_greater_0_conv)
  have "0 \<le> fround (dmul e 100)" if "e \<in> set fractions" for e
    using nn that unfolding dmul_def by (intro flt.rnd_nonneg ctx.rnd_nonneg) simp
  then show "\<forall>x\<in>set plan. 0 \<le> snd (snd x)"
    by (auto simp: plan enumerate_eq_zip dest!: set_zip_rightD)
qed

lemma planned_prices_nonempty: "planned_prices ps low high single hybrid fo so spec = Inr prices \<Longrightarrow> prices \<noteq> []"
  by (auto simp: planned_prices_def rbind_Inr_iff split: option.splits prod.splits if_splits)

lemma entry_plan_Inr:
  assumes "entry_plan h low high single hybrid fo so supplemental explicit stop nstop spec = Inr (plan, sizing)"
    and "\<forall>e\<in>set explicit. 0 \<le> e"
  shows "plan \<noteq> []" "length plan \<le> 5" "\<forall>x\<in>set plan. 0 \<le> snd (snd x)" "sizing = stop \<or> sizing = nstop"
    and "supplemental = [] \<Longrightarrow> explicit = [] \<Longrightarrow> length plan \<le> 2 \<and> plan_share plan \<le> 100 * slack 1"
proof -
  have "plan \<noteq> [] \<and> length plan \<le> 5 \<and> (\<forall>x\<in>set plan. 0 \<le> snd (snd x)) \<and> (sizing = stop \<or> sizing = nstop)
    \<and> (supplemental = [] \<longrightarrow> explicit = [] \<longrightarrow> length plan \<le> 2 \<and> plan_share plan \<le> 100 * slack 1)"
  proof (cases "supplemental \<noteq> [] \<or> explicit \<noteq> []")
    case True
    then obtain prices where p: "planned_prices (dh_position_side h) low high single hybrid fo so spec = Inr prices"
      "custom_plan (dh_order_type h) hybrid prices supplemental explicit = Inr plan" "sizing = nstop"
      using assms(1) by (auto simp: entry_plan_def rbind_Inr_iff split: if_splits)
    then show ?thesis using True custom_plan_Inr [OF p(2) planned_prices_nonempty [OF p(1)] assms(2)] by auto
  next
    case False
    note not_custom = False
    show ?thesis
    proof (cases "dh_order_type h = ''market'' \<or> single")
      case True
      then show ?thesis using assms(1) not_custom slack_ge_1 [of 1]
        by (auto simp: entry_plan_def rbind_Inr_iff plan_share_def split: if_splits)
    next
      case False
      then have r: "range_plan (dh_order_type h) (dh_position_side h) low high hybrid fo so nstop spec = Inr plan" "sizing = nstop"
        using assms(1) not_custom by (auto simp: entry_plan_def rbind_Inr_iff split: if_splits)
      then show ?thesis using range_plan_Inr [OF r(1)] by auto
    qed
  qed
  then show "plan \<noteq> []" "length plan \<le> 5" "\<forall>x\<in>set plan. 0 \<le> snd (snd x)" "sizing = stop \<or> sizing = nstop"
    "supplemental = [] \<Longrightarrow> explicit = [] \<Longrightarrow> length plan \<le> 2 \<and> plan_share plan \<le> 100 * slack 1" by blast+
qed

lemma parse_entry_allocations_nonneg: "parse_entry_allocations v = Inr xs \<Longrightarrow> \<forall>e\<in>set xs. 0 \<le> e"
  using mapM_Inr_set [of entry_allocation]
  by (fastforce simp: parse_entry_allocations_def entry_allocation_def rbind_Inr_iff split: if_splits option.splits)

section \<open>The draft\<close>

lemma rbind_InrE: "rbind m f = Inr y \<Longrightarrow> (\<And>x. m = Inr x \<Longrightarrow> f x = Inr y \<Longrightarrow> P) \<Longrightarrow> P"
  by (cases m) auto

lemma prod_InrE: "(case p of (a, b) \<Rightarrow> f a b) = Inr y \<Longrightarrow> (\<And>a b. p = (a, b) \<Longrightarrow> f a b = Inr y \<Longrightarrow> P) \<Longrightarrow> P"
  by (cases p) auto

lemma if_InrE: "(if c then Inl e else Inr x) = Inr y \<Longrightarrow> (\<not> c \<Longrightarrow> y = x \<Longrightarrow> P) \<Longrightarrow> P"
  by (cases c) auto

text \<open>The steps of a draft that was built: the plan, its legs, and the check on an explicit plan.\<close>

lemma build_draft_Inr:
  assumes "build_deepcoin_order_draft sha1 codes payload spec = Inr d"
  obtains h low high kol_id chat_id message_id kol_code budget stop_loss nstop fo so hybrid current threshold supplemental explicit plan sizing legs strategy
  where "read_head payload spec = Inr h"
    "read_source codes payload = Inr (kol_id, chat_id, message_id, kol_code)"
    "rmap_option (\<lambda>s. normalize_price s spec) stop_loss = Inr nstop"
    "(if dh_order_type h = ''limit'' \<and> \<not> py_isclose low high
      then hybrid_market_entry_price (dh_position_side h) low high current threshold spec else Inr None) = Inr hybrid"
    "parse_supplemental_entry_prices (dict_get payload ''supplemental_entry_prices'') (PyStr (dh_symbol h)) spec = Inr supplemental"
    "parse_entry_allocations (dict_get payload ''entry_allocations'') = Inr explicit"
    "entry_plan h low high (py_isclose low high) hybrid fo so supplemental explicit stop_loss nstop spec = Inr (plan, sizing)"
    "build_legs sha1 \<lparr>lt_side = dh_open_side h, lt_position_side = dh_position_side h, lt_strategy = strategy,
        lt_kol_code = kol_code, lt_message_id = message_id, lt_risk_budget = budget, lt_stop = sizing,
        lt_spec = spec\<rparr> 1 plan = Inr legs"
    "od_risk_budget d = budget" "od_order_legs d = coalesce_equivalent_entry_legs legs"
    "od_blocking_reason_codes d = blocking_reason_codes stop_loss spec (coalesce_equivalent_entry_legs legs)"
    "od_stop_loss d = map_option general_format nstop"
    "\<not> ((supplemental \<noteq> [] \<or> explicit \<noteq> []) \<and> float_decimal budget < aggregate_risk (coalesce_equivalent_entry_legs legs))"
  using assms unfolding build_deepcoin_order_draft_def Let_def
  apply -
  apply ((erule prod_InrE, hypsubst_thin) | erule rbind_InrE | erule if_InrE)+
  apply (rule that)
  apply (assumption | simp (no_asm_simp))+
  done

text \<open>Every planned price is positive.\<close>

lemma normalize_final_pos: "normalize_final_entry_price price spec msg = Inr p \<Longrightarrow> 0 < p"
  by (auto simp: normalize_final_entry_price_def rbind_Inr_iff split: if_splits)

lemma range_prices_pos: "range_entry_leg_prices ps low high fo so spec = Inr (p, q) \<Longrightarrow> 0 < p \<and> 0 < q"
  by (auto simp: range_entry_leg_prices_def Let_def rbind_Inr_iff dest: normalize_final_pos split: if_splits)

lemma supplemental_prices_cons:
  assumes "supplemental_prices (item # items) symbol spec prices = Inr res"
  obtains p where "0 < p" "supplemental_prices items symbol spec (if p \<in> set prices then prices else prices @ [p]) = Inr res"
proof -
  from assms obtain x where x: "extract_normalized_prices item symbol PyNone = [x]"
    by (auto split: list.splits)
  with assms obtain p where "normalize_final_entry_price x spec ''supplemental entry price is invalid after normalization'' = Inr p"
    "supplemental_prices items symbol spec (if p \<in> set prices then prices else prices @ [p]) = Inr res"
    by (auto simp: rbind_Inr_iff split: if_splits)
  then show ?thesis using that normalize_final_pos by blast
qed

lemma supplemental_pos:
  "supplemental_prices items symbol spec prices = Inr res \<Longrightarrow> \<forall>p\<in>set prices. 0 < p \<Longrightarrow> \<forall>p\<in>set res. 0 < p"
proof (induction items arbitrary: prices)
  case (Cons item items)
  from Cons.prems(1) obtain p where p: "0 < p"
    "supplemental_prices items symbol spec (if p \<in> set prices then prices else prices @ [p]) = Inr res"
    by (rule supplemental_prices_cons)
  show ?case by (rule Cons.IH [OF p(2)]) (use p(1) Cons.prems(2) in auto)
qed simp

lemma parse_supplemental_pos: "parse_supplemental_entry_prices v symbol spec = Inr res \<Longrightarrow> \<forall>p\<in>set res. 0 < p"
  by (auto simp: parse_supplemental_entry_prices_def dest: supplemental_pos split: if_splits option.splits)

lemma add_prices_set: "set (add_prices planned ps) = set planned \<union> set ps"
  by (induction planned ps rule: add_prices.induct) auto

lemma planned_prices_pos:
  assumes "planned_prices ps low high single hybrid fo so spec = Inr prices" "\<And>h. hybrid = Some h \<Longrightarrow> 0 < h"
  shows "\<forall>p\<in>set prices. 0 < p"
proof (cases single)
  case True
  then show ?thesis using assms(1) by (auto simp: planned_prices_def rbind_Inr_iff dest: normalize_final_pos)
next
  case False
  show ?thesis
  proof (cases hybrid)
    case None
    then obtain p q where "range_entry_leg_prices ps low high fo so spec = Inr (p, q)" "prices = [p, q]"
      using assms(1) False by (auto simp: planned_prices_def rbind_Inr_iff)
    then show ?thesis using range_prices_pos by simp
  next
    case (Some h)
    then obtain p q where "range_entry_leg_prices ps low high 0 so spec = Inr (p, q)" "prices = [h, q]"
      using assms(1) False by (auto simp: planned_prices_def rbind_Inr_iff)
    then show ?thesis using range_prices_pos assms(2) [OF Some] by simp
  qed
qed

lemma custom_plan_prices:
  assumes "custom_plan ot hybrid planned supplemental explicit = Inr plan" "x \<in> set plan"
  shows "fst (snd x) \<in> set planned \<union> set supplemental"
proof -
  from assms(1) obtain fractions where "plan = map (\<lambda>(i, price, fraction).
               (if i = 0 then (if hybrid \<noteq> None then ''market'' else ot) else ''limit'', price, fround (dmul fraction 100)))
             (enumerate 0 (zip (add_prices planned supplemental) fractions))"
    by (auto simp: custom_plan_def Let_def rbind_Inr_iff split: if_splits)
  with assms(2) obtain i price fraction where
    "(i, price, fraction) \<in> set (enumerate 0 (zip (add_prices planned supplemental) fractions))" "fst (snd x) = price"
    by auto
  then have "fst (snd x) \<in> set (add_prices planned supplemental)"
    unfolding enumerate_eq_zip by (metis set_zip_leftD set_zip_rightD)
  then show ?thesis by (simp add: add_prices_set)
qed

lemma entry_plan_pos:
  assumes "entry_plan h low high single hybrid fo so supplemental explicit stop nstop spec = Inr (plan, sizing)"
    "\<And>x. hybrid = Some x \<Longrightarrow> 0 < x" "\<forall>p\<in>set supplemental. 0 < p"
  shows "\<forall>x\<in>set plan. 0 < fst (snd x)"
proof (cases "supplemental \<noteq> [] \<or> explicit \<noteq> []")
  case True
  then obtain prices where p: "planned_prices (dh_position_side h) low high single hybrid fo so spec = Inr prices"
    "custom_plan (dh_order_type h) hybrid prices supplemental explicit = Inr plan"
    using assms(1) by (auto simp: entry_plan_def rbind_Inr_iff split: if_splits)
  show ?thesis using custom_plan_prices [OF p(2)] planned_prices_pos [OF p(1) assms(2)] assms(3) by blast
next
  case not_custom: False
  show ?thesis
  proof (cases "dh_order_type h = ''market'' \<or> single")
    case True
    then show ?thesis using assms(1) not_custom
      by (auto simp: entry_plan_def rbind_Inr_iff dest: normalize_final_pos split: if_splits)
  next
    case False
    then have "range_plan (dh_order_type h) (dh_position_side h) low high hybrid fo so nstop spec = Inr plan"
      using assms(1) not_custom by (auto simp: entry_plan_def rbind_Inr_iff split: if_splits)
    then show ?thesis by (rule range_plan_shape) (use planned_prices_pos [OF _ assms(2)] in fastforce)
  qed
qed

lemma hybrid_pos:
  "(if c then hybrid_market_entry_price ps low high current threshold spec else Inr None) = Inr (Some x) \<Longrightarrow> 0 < x"
  by (auto simp: hybrid_market_entry_price_def Let_def rbind_Inr_iff dest: normalize_final_pos split: if_splits option.splits)

lemma read_head_sides:
  "read_head payload spec = Inr h \<Longrightarrow> dh_position_side h = ''long'' \<and> dh_open_side h = ''buy''
     \<or> dh_position_side h = ''short'' \<and> dh_open_side h = ''sell''"
  by (auto simp: read_head_def rbind_Inr_iff Let_def split: if_splits option.splits)

section \<open>What a draft keeps\<close>

lemma slack_24: "slack 24 \<le> 1 + 1 / 10 ^ 14"
  unfolding slack_def float_eps_def by (simp add: power_divide)

lemma aggregate_risk_total: "\<forall>leg\<in>set legs. 0 \<le> leg_loss leg \<Longrightarrow> length legs \<le> 5
   \<Longrightarrow> total_loss legs \<le> aggregate_risk legs * slack 14"
proof -
  assume nn: "\<forall>leg\<in>set legs. 0 \<le> leg_loss leg" and len: "length legs \<le> 5"
  let ?ds = "map (\<lambda>leg. case ol_estimated_loss leg of None \<Rightarrow> 0 | Some x \<Rightarrow> float_decimal x) legs"
  have up: "leg_loss leg \<le> (case ol_estimated_loss leg of None \<Rightarrow> 0 | Some x \<Rightarrow> float_decimal x) * slack 4
      \<and> 0 \<le> (case ol_estimated_loss leg of None \<Rightarrow> 0 | Some x \<Rightarrow> float_decimal x)" if "leg \<in> set legs" for leg
    using bspec [OF nn that] float_decimal_up float_decimal_nonneg by (auto simp: leg_loss_def split: option.splits)
  have "total_loss legs \<le> sum_list (map (\<lambda>d. d * slack 4) ?ds)"
    unfolding total_loss_def map_map using up by (intro sum_list_mono) simp
  also have "\<dots> = sum_list ?ds * slack 4" using sum_list_mult_const [of "\<lambda>d. d" "slack 4" ?ds] by (simp del: map_map)
  also have "\<dots> \<le> (aggregate_risk legs * slack (2 * length legs)) * slack 4"
    unfolding aggregate_risk_def dsum_def using dsum_up(1) [of ?ds 0] up by (intro mult_right_mono) auto
  also have "\<dots> = aggregate_risk legs * slack (2 * length legs + 4)" by (simp add: slack_add)
  also have "\<dots> \<le> aggregate_risk legs * slack 14"
    unfolding aggregate_risk_def dsum_def using len dsum_up(2) [of ?ds 0] up by (intro mult_left_mono slack_mono) auto
  finally show ?thesis .
qed

text \<open>
  Claim C2: the legs of a draft lose at most its risk budget at the stop they are sized for, whatever the
  payload: a market entry, a range, an explicit plan with its own shares, with and without a contract's
  steps, merged or not. The tolerance covers every rounding of a float or decimal on the way.
\<close>

theorem draft_risk_within_budget:
  assumes "build_deepcoin_order_draft sha1 codes payload spec = Inr d"
    and "spec_ok spec" and "0 \<le> od_risk_budget d"
  shows "total_loss (od_order_legs d) \<le> od_risk_budget d * (1 + 1 / 10 ^ 14)
    \<and> (\<forall>leg\<in>set (od_order_legs d). 0 \<le> leg_loss leg)"
proof (intro conjI)
  from assms(1) obtain h low high message_id kol_code budget stop_loss nstop fo so hybrid supplemental explicit plan sizing legs strategy
    where ex: "parse_entry_allocations (dict_get payload ''entry_allocations'') = Inr explicit"
      and pl: "entry_plan h low high (py_isclose low high) hybrid fo so supplemental explicit stop_loss nstop spec = Inr (plan, sizing)"
      and lg: "build_legs sha1 \<lparr>lt_side = dh_open_side h, lt_position_side = dh_position_side h, lt_strategy = strategy,
        lt_kol_code = kol_code, lt_message_id = message_id, lt_risk_budget = budget, lt_stop = sizing, lt_spec = spec\<rparr> 1 plan = Inr legs"
      and B: "od_risk_budget d = budget" and od: "od_order_legs d = coalesce_equivalent_entry_legs legs"
      and chk: "\<not> ((supplemental \<noteq> [] \<or> explicit \<noteq> []) \<and> float_decimal budget < aggregate_risk (coalesce_equivalent_entry_legs legs))"
    by (rule build_draft_Inr) (rule that)
  note ep = entry_plan_Inr [OF pl parse_entry_allocations_nonneg [OF ex]]
  have b: "0 \<le> budget" using assms(3) B by simp
  have loss: "below 21 (total_loss legs) (budget * plan_share plan / 100)" "\<forall>leg\<in>set legs. 0 \<le> leg_loss leg"
    using build_legs_loss [OF lg] b assms(2) ep(3) by simp_all
  have len: "length legs = length plan" using arg_cong [OF build_legs_ids [OF lg], of length] by (simp del: upt_Suc)
  have co: "total_loss (od_order_legs d) \<le> total_loss legs * slack (length legs)"
    "\<forall>leg\<in>set (od_order_legs d). 0 \<le> leg_loss leg" "length (od_order_legs d) \<le> length legs"
    using coalesce_loss [OF loss(2), of "[]" 1] coalesce_length [of 1 legs "[]"]
    by (auto simp: od coalesce_equivalent_entry_legs_def)
  show "\<forall>leg\<in>set (od_order_legs d). 0 \<le> leg_loss leg" by (rule co(2))
  have "total_loss (od_order_legs d) \<le> budget * slack 24"
  proof (cases "supplemental \<noteq> [] \<or> explicit \<noteq> []")
    case True
    have "total_loss (od_order_legs d) \<le> aggregate_risk (od_order_legs d) * slack 14"
      using co(2,3) len ep(2) by (intro aggregate_risk_total) simp_all
    also have "\<dots> \<le> float_decimal budget * slack 14" using chk True by (intro mult_right_mono) (auto simp: od not_less)
    also have "\<dots> \<le> (budget * slack 2) * slack 14"
      using below_float_decimal [OF below_refl [OF b]] by (intro mult_right_mono) (simp_all add: below_def numeral_eq_Suc)
    also have "\<dots> = budget * slack (2 + 14)" by (simp only: slack_add mult.assoc)
    also have "\<dots> \<le> budget * slack 24" using b by (intro mult_left_mono slack_mono) simp_all
    finally show ?thesis .
  next
    case False
    then have sh: "length plan \<le> 2" "plan_share plan \<le> 100 * slack 1" using ep(5) by simp_all
    have "total_loss (od_order_legs d) \<le> total_loss legs * slack (length legs)" by (rule co(1))
    also have "\<dots> \<le> (budget * plan_share plan / 100 * slack 21) * slack 2"
      using loss(1) len sh(1) by (intro mult_mono slack_mono) (auto simp: below_def intro: mult_nonneg_nonneg)
    also have "\<dots> \<le> (budget * slack 1 * slack 21) * slack 2"
      using mult_left_mono [OF sh(2) b] by (intro mult_right_mono) (simp_all add: divide_le_eq)
    also have "\<dots> = budget * slack (1 + 21 + 2)" by (simp only: slack_add mult.assoc)
    finally show ?thesis by simp
  qed
  also have "\<dots> \<le> budget * (1 + 1 / 10 ^ 14)" using slack_24 b by (rule mult_left_mono)
  finally show "total_loss (od_order_legs d) \<le> od_risk_budget d * (1 + 1 / 10 ^ 14)" by (simp add: B)
qed

text \<open>
  Claim C20: the orders of a draft have different client order ids of at most twenty letters and digits, so
  the exchange takes every one of them and each answer can be told apart; there are one to five orders.
\<close>

theorem draft_client_ids:
  assumes "build_deepcoin_order_draft sha1 codes payload spec = Inr d" and "hex_digest sha1"
  shows "distinct (map ol_client_order_id (od_order_legs d))
    \<and> (\<forall>leg\<in>set (od_order_legs d). length (ol_client_order_id leg) \<le> 20 \<and> py_isalnum (ol_client_order_id leg))
    \<and> od_order_legs d \<noteq> [] \<and> length (od_order_legs d) \<le> 5"
proof (intro conjI)
  from assms(1) obtain h low high kol_id chat_id message_id kol_code budget stop_loss nstop fo so hybrid supplemental explicit plan sizing legs strategy
    where src: "read_source codes payload = Inr (kol_id, chat_id, message_id, kol_code)"
      and ex: "parse_entry_allocations (dict_get payload ''entry_allocations'') = Inr explicit"
      and pl: "entry_plan h low high (py_isclose low high) hybrid fo so supplemental explicit stop_loss nstop spec = Inr (plan, sizing)"
      and lg: "build_legs sha1 \<lparr>lt_side = dh_open_side h, lt_position_side = dh_position_side h, lt_strategy = strategy,
        lt_kol_code = kol_code, lt_message_id = message_id, lt_risk_budget = budget, lt_stop = sizing, lt_spec = spec\<rparr> 1 plan = Inr legs"
      and od: "od_order_legs d = coalesce_equivalent_entry_legs legs"
    by (rule build_draft_Inr) (rule that)
  note ep = entry_plan_Inr [OF pl parse_entry_allocations_nonneg [OF ex]]
  let ?id = "\<lambda>i. build_client_order_id sha1 strategy (int i) ''entry'' kol_code (Some message_id)"
  have code: "is_kol_code c" if "kol_code = Some c" for c
    using src that resolve_kol_code_ok
    by (auto simp: read_source_def Let_def rbind_Inr_iff split: pyobj.splits if_splits)
  have ids: "map ol_client_order_id legs = map ?id [1..<1 + length plan]" using build_legs_ids [OF lg] by simp
  have len: "length legs = length plan" using arg_cong [OF ids, of length] by (simp del: upt_Suc)
  have "inj_on ?id (set [1..<1 + length plan])"
  proof (rule inj_onI)
    fix i j assume "i \<in> set [1..<1 + length plan]" "j \<in> set [1..<1 + length plan]" and eq: "?id i = ?id j"
    then have "int i < 10" "int j < 10" using ep(2) by auto
    then have "int i = int j" using client_id_distinct [OF assms(2) _ _ _ _ code eq] by simp
    then show "i = j" by simp
  qed
  then have dist: "distinct (map ol_client_order_id legs)" unfolding ids by (simp add: distinct_map del: upt_Suc)
  have co: "distinct (client_ids (coalesce_legs 1 legs []))"
    "set (client_ids (coalesce_legs 1 legs [])) \<subseteq> set (map ol_client_order_id legs)"
    using coalesce_ids [of "[]" legs 1] dist by simp_all
  have same: "map ol_client_order_id (od_order_legs d) = client_ids (coalesce_legs 1 legs [])"
    by (simp add: od coalesce_equivalent_entry_legs_def)
  show "distinct (map ol_client_order_id (od_order_legs d))" unfolding same by (rule co(1))
  have ne: "legs \<noteq> []" using len ep(1) by auto
  show "od_order_legs d \<noteq> []" "length (od_order_legs d) \<le> 5"
    using ne coalesce_nonempty [of "[]" legs 1] coalesce_length [of 1 legs "[]"] len ep(1,2)
    by (auto simp: od coalesce_equivalent_entry_legs_def)
  show "\<forall>leg\<in>set (od_order_legs d). length (ol_client_order_id leg) \<le> 20 \<and> py_isalnum (ol_client_order_id leg)"
  proof
    fix leg assume "leg \<in> set (od_order_legs d)"
    then have "ol_client_order_id leg \<in> set (map ol_client_order_id (od_order_legs d))" by simp
    then have "ol_client_order_id leg \<in> set (map ?id [1..<1 + length plan])" using co(2) unfolding same ids by blast
    then obtain i where i: "i \<in> set [1..<1 + length plan]" "ol_client_order_id leg = ?id i" by auto
    then have "int i < 10" using ep(2) by auto
    then show "length (ol_client_order_id leg) \<le> 20 \<and> py_isalnum (ol_client_order_id leg)"
      unfolding i(2) using code by (intro client_id_short assms(2)) simp_all
  qed
qed

text \<open>The fields a leg keeps, and keeps when another is merged into it.\<close>

definition leg_complete :: "string \<Rightarrow> string \<Rightarrow> contract_spec \<Rightarrow> order_leg \<Rightarrow> bool" where
  "leg_complete side ps c leg \<longleftrightarrow> ol_side leg = side \<and> ol_position_side leg = ps \<and> 0 < ol_price leg
     \<and> ol_quantity_unit leg = Some ''contracts'' \<and> ol_quantity leg \<noteq> None \<and> ol_estimated_loss leg \<noteq> None"

lemma merged_complete: "leg_complete side ps c x \<Longrightarrow> leg_complete side ps c y \<Longrightarrow> leg_complete side ps c (merged x y s)"
  by (auto simp: leg_complete_def add_field_def)

lemma build_leg_complete:
  assumes "build_leg sha1 t index ot price a = Inr leg" "0 < price" "lt_stop t = Some stop" "lt_spec t = Some c"
  shows "leg_complete (lt_side t) (lt_position_side t) c leg"
proof -
  obtain quantity where q: "estimate_leg_quantity (lt_risk_budget t) a price (lt_stop t) = Inr quantity"
    "order_leg_of (lt_side t) (lt_position_side t) ot price
       (build_client_order_id sha1 (lt_strategy t) (int index) ''entry'' (lt_kol_code t) (Some (lt_message_id t)))
       a (leg_risk_budget (lt_risk_budget t) a) quantity (lt_stop t) (lt_spec t) = Inr leg"
    using assms(1) by (rule build_leg_Inr)
  obtain Q where Q: "quantity = Some Q" and r: "0 < price_risk price stop"
    using q(1) by (auto simp: assms(3) estimate_leg_quantity_def Let_def rbind_Inr_iff split: if_splits)
  obtain k where "ol_quantity leg = Some k" "ol_quantity_unit leg = Some ''contracts''"
    using order_leg_of_quantity(2) [OF q(2) [unfolded Q] assms(4)] by blast
  then show ?thesis using order_leg_of_Inr [OF q(2)] assms(2-4) r
    by (simp add: leg_complete_def estimated_stop_loss_def)
qed

lemma build_legs_all:
  "build_legs sha1 t index plan = Inr legs \<Longrightarrow> leg \<in> set legs
   \<Longrightarrow> \<exists>i ot price a. (ot, price, a) \<in> set plan \<and> build_leg sha1 t i ot price a = Inr leg"
proof (induction sha1 t index plan arbitrary: legs rule: build_legs.induct)
  case (2 sha1 t index ot price a plan)
  then obtain leg' rest where l: "build_leg sha1 t index ot price a = Inr leg'" "build_legs sha1 t (Suc index) plan = Inr rest" "legs = leg' # rest"
    by (auto simp: rbind_Inr_iff)
  show ?case
  proof (cases "leg = leg'")
    case True
    then show ?thesis using l(1) by auto
  next
    case False
    then show ?thesis using "2.IH" [OF l(1,2)] "2.prems"(2) l(3) by auto
  qed
qed simp

text \<open>
  Claim C21: a draft that nothing blocks is complete. It has a contract specification and a stop, and each
  of its orders is on the side of its position, at a positive price, with a size in contracts that is no
  less than the exchange's minimum and with its loss at the stop.
\<close>

theorem unblocked_draft_is_complete:
  assumes "build_deepcoin_order_draft sha1 codes payload spec = Inr d" and "od_blocking_reason_codes d = []"
  shows "\<exists>c stop. spec = Some c \<and> od_stop_loss d = Some stop
    \<and> (\<forall>leg\<in>set (od_order_legs d).
         (ol_position_side leg = ''long'' \<and> ol_side leg = ''buy'' \<or> ol_position_side leg = ''short'' \<and> ol_side leg = ''sell'')
         \<and> 0 < ol_price leg \<and> ol_quantity_unit leg = Some ''contracts''
         \<and> (\<exists>q loss. ol_quantity leg = Some q \<and> ct_min_quantity c \<le> q \<and> ol_estimated_loss leg = Some loss))"
proof -
  from assms(1) obtain h low high message_id kol_code budget stop_loss nstop fo so hybrid current threshold supplemental explicit plan sizing legs strategy
    where hd: "read_head payload spec = Inr h"
      and ns: "rmap_option (\<lambda>s. normalize_price s spec) stop_loss = Inr nstop"
      and hy: "(if dh_order_type h = ''limit'' \<and> \<not> py_isclose low high
        then hybrid_market_entry_price (dh_position_side h) low high current threshold spec else Inr None) = Inr hybrid"
      and sp: "parse_supplemental_entry_prices (dict_get payload ''supplemental_entry_prices'') (PyStr (dh_symbol h)) spec = Inr supplemental"
      and ex: "parse_entry_allocations (dict_get payload ''entry_allocations'') = Inr explicit"
      and pl: "entry_plan h low high (py_isclose low high) hybrid fo so supplemental explicit stop_loss nstop spec = Inr (plan, sizing)"
      and lg: "build_legs sha1 \<lparr>lt_side = dh_open_side h, lt_position_side = dh_position_side h, lt_strategy = strategy,
        lt_kol_code = kol_code, lt_message_id = message_id, lt_risk_budget = budget, lt_stop = sizing, lt_spec = spec\<rparr> 1 plan = Inr legs"
      and od: "od_order_legs d = coalesce_equivalent_entry_legs legs" "od_stop_loss d = map_option general_format nstop"
      and bl: "od_blocking_reason_codes d = blocking_reason_codes stop_loss spec (coalesce_equivalent_entry_legs legs)"
    by (rule build_draft_Inr) (rule that)
  obtain s c where s: "stop_loss = Some s" "spec = Some c"
    and q: "\<forall>leg\<in>set (od_order_legs d). ct_min_quantity c \<le> (case ol_quantity leg of None \<Rightarrow> 0 | Some q \<Rightarrow> q)"
    using bl assms(2) by (fastforce simp: blocking_reason_codes_def od list_ex_iff not_less split: option.splits if_splits)
  obtain n where n: "nstop = Some n" using ns s(1) by (auto simp: rmap_option_def rbind_Inr_iff)
  obtain z where z: "sizing = Some z" using entry_plan_Inr(4) [OF pl parse_entry_allocations_nonneg [OF ex]] s(1) n by auto
  have pos: "\<forall>x\<in>set plan. 0 < fst (snd x)"
    using entry_plan_pos [OF pl _ parse_supplemental_pos [OF sp]] hybrid_pos hy by blast
  have "\<forall>leg\<in>set legs. leg_complete (dh_open_side h) (dh_position_side h) c leg"
    using build_legs_all [OF lg] build_leg_complete [of sha1 _ _ _ _ _ _ z c] pos z s(2) by fastforce
  then have "\<forall>x\<in>set (coalesce_legs 1 legs []). leg_complete (dh_open_side h) (dh_position_side h) c (fst x)"
    by (intro coalesce_all) (auto intro: merged_complete)
  then have all: "\<forall>leg\<in>set (od_order_legs d). leg_complete (dh_open_side h) (dh_position_side h) c leg"
    by (auto simp: od coalesce_equivalent_entry_legs_def)
  have "(ol_position_side leg = ''long'' \<and> ol_side leg = ''buy'' \<or> ol_position_side leg = ''short'' \<and> ol_side leg = ''sell'')
         \<and> 0 < ol_price leg \<and> ol_quantity_unit leg = Some ''contracts''
         \<and> (\<exists>q loss. ol_quantity leg = Some q \<and> ct_min_quantity c \<le> q \<and> ol_estimated_loss leg = Some loss)"
    if "leg \<in> set (od_order_legs d)" for leg
    using bspec [OF all that] bspec [OF q that] read_head_sides [OF hd] by (auto simp: leg_complete_def)
  then show ?thesis using s(2) n od(2) by simp
qed

section \<open>Examples\<close>

definition example_sha1 :: "string \<Rightarrow> string" where "example_sha1 s = replicate 40 CHR ''0''"

definition example_spec :: contract_spec where
  "example_spec = \<lparr>ct_instrument_id = ''SOL-USDT-SWAP'', ct_value = 1/2, ct_quantity_step = 1, ct_min_quantity = 1, ct_price_tick = 1/2\<rparr>"

definition example_payload :: payload where
  "example_payload = [(''venue'', PyStr ''deepcoin''), (''order_type'', PyStr ''limit''), (''contract'', PyStr ''SOL-USDT''),
    (''open_side'', PyStr ''buy''), (''position_side'', PyStr ''long''), (''entry_range'', PyStr ''62-63''),
    (''stop_loss'', PyStr ''60''), (''take_profit'', PyStr ''64''), (''risk_budget_usdt'', Scalar (VInt 20)),
    (''source'', PyDict [(''chat_id'', Scalar (VInt 7)), (''message_id'', Scalar (VInt 812)), (''kol_code'', PyStr ''ROSE'')])]"

definition example_head :: draft_head where
  "example_head = \<lparr>dh_order_type = ''limit'', dh_open_side = ''buy'', dh_position_side = ''long'',
     dh_instrument_id = ''SOL-USDT-SWAP'', dh_symbol = ''SOL''\<rparr>"

lemma example_stage_1:
  "read_head example_payload (Some example_spec) = Inr example_head"
  "parse_entry_range (dict_get example_payload ''entry_range'') (PyStr (dh_symbol example_head)) = Inr (62, 63)"
  by code_simp+

lemma example_stage_2:
  "read_source [] example_payload = Inr (PyNone, 7, 812, Some ''ROSE'')"
  "required_float example_payload ''risk_budget_usdt'' = Inr 20"
  by code_simp+

lemma example_stage_3:
  "parse_optional_price (dict_get example_payload ''stop_loss'') (PyStr (dh_symbol example_head)) = Inr (Some 60)"
  by code_simp

lemma example_stage_4:
  "normalize_price 60 (Some example_spec) = Inr 60"
  "parse_optional_price (dict_get example_payload ''current_price'') (PyStr (dh_symbol example_head)) = Inr None"
  by code_simp+

lemma example_stage_5:
  "offset_value example_payload ''market_leg_threshold'' = Inr 0"
  by code_simp

lemma example_stage_6:
  "offset_value example_payload ''first_limit_offset'' = Inr 0"
  by code_simp

lemma example_stage_7:
  "offset_value example_payload ''second_limit_offset'' = Inr 0"
  by code_simp

lemma example_stage_8:
  "hybrid_market_entry_price (dh_position_side example_head) 62 63 None 0 (Some example_spec) = Inr None"
  by code_simp

lemma example_stage_9:
  "parse_supplemental_entry_prices (dict_get example_payload ''supplemental_entry_prices'') (PyStr (dh_symbol example_head)) (Some example_spec) = Inr []"
  "parse_entry_allocations (dict_get example_payload ''entry_allocations'') = Inr []"
  by code_simp+

lemma example_not_close: "py_isclose 62 63 = False"
proof -
  have "fround (1 / 10 ^ 9) \<le> 1 / 10 ^ 9 * (1 + float_eps)" by (rule fround_bounds) simp
  then have r: "fround (1 / 10 ^ 9) \<le> 1 / 10 ^ 8" by (simp add: float_eps_def)
  have "fmul (fround (1 / 10 ^ 9)) b \<le> 1 / 2" if "0 \<le> b" "b \<le> 63" for b
  proof -
    have "fround (1 / 10 ^ 9) * b \<le> 1 / 10 ^ 8 * 63" using r that by (intro mult_mono) simp_all
    moreover have "fmul (fround (1 / 10 ^ 9)) b \<le> fround (1 / 10 ^ 9) * b * (1 + float_eps)"
      unfolding fmul_def using that by (intro fround_bounds mult_nonneg_nonneg flt.rnd_nonneg) simp_all
    moreover have "fround (1 / 10 ^ 9) * b * float_eps \<le> fround (1 / 10 ^ 9) * b * 1"
      using that float_eps_simps(3) by (intro mult_left_mono mult_nonneg_nonneg flt.rnd_nonneg) simp_all
    moreover have "z \<le> 1 / 2" if "t \<le> 1 / 10 ^ 8 * 63" "z \<le> t + u" "u \<le> t" for t u z :: rat
      using that by simp
    ultimately show ?thesis unfolding distrib_left mult_1_right by blast
  qed
  moreover have "0 \<le> fmul (fround (1 / 10 ^ 9)) b" if "0 \<le> b" for b
    unfolding fmul_def using that by (intro flt.rnd_nonneg mult_nonneg_nonneg) simp_all
  moreover have "fsub 63 62 = 1" by code_simp
  ultimately have "\<bar>fmul (fround (1 / 10 ^ 9)) 62\<bar> \<le> 1 / 2" "\<bar>fmul (fround (1 / 10 ^ 9)) 63\<bar> \<le> 1 / 2" "fsub 63 62 = 1" by simp_all
  then have "\<not> \<bar>fsub 63 62\<bar> \<le> \<bar>fmul (fround (1 / 10 ^ 9)) 63\<bar>" "\<not> \<bar>fsub 63 62\<bar> \<le> \<bar>fmul (fround (1 / 10 ^ 9)) 62\<bar>"
    "\<not> \<bar>fsub 63 62\<bar> \<le> 0" by linarith+
  then show ?thesis unfolding py_isclose_def Let_def by simp
qed

lemmas example_evaluation = example_not_close example_stage_1 example_stage_2 example_stage_3 example_stage_4 example_stage_5 example_stage_6 example_stage_7 example_stage_8 example_stage_9

lemma example_take_profits:
  "plan_take_profits (let v = dict_get example_payload ''take_profit'' in if missing v then [] else extract_normalized_prices v (PyStr (dh_symbol example_head)) PyNone)
     (dh_position_side example_head) (dict_get example_payload ''take_profit_allocations'') (Some example_spec)
   = Inr [\<lparr>to_index = 1, to_price = 64, to_allocation_pct = 100\<rparr>]"
  by code_simp

lemma example_plan:
  "entry_plan example_head 62 63 False None 0 0 [] [] (Some 60) (Some 60) (Some example_spec)
   = Inr ([(''limit'', 63, 60), (''limit'', 62, 40)], Some 60)"
  by code_simp

definition example_terms :: leg_terms where
  "example_terms = \<lparr>lt_side = dh_open_side example_head, lt_position_side = dh_position_side example_head,
     lt_strategy = (let i = dict_get example_payload ''strategy_instance_id'' in if obj_truthy i then obj_str i
        else build_strategy_instance_id ''deepcoin'' 7 812 (dh_symbol example_head) (dh_position_side example_head)),
     lt_kol_code = Some ''ROSE'', lt_message_id = 812, lt_risk_budget = 20, lt_stop = Some 60, lt_spec = Some example_spec\<rparr>"

definition example_order_leg :: "rat \<Rightarrow> rat \<Rightarrow> string \<Rightarrow> rat \<Rightarrow> order_leg" where
  "example_order_leg price pct cid loss = \<lparr>ol_side = ''buy'', ol_position_side = ''long'', ol_order_type = ''limit'', ol_price = price,
     ol_allocation_pct = pct, ol_risk_budget = loss, ol_client_order_id = cid, ol_quantity = Some 8,
     ol_quantity_unit = Some ''contracts'', ol_base_estimate = Some 4, ol_estimated_loss = Some loss, ol_merged_from = None\<rparr>"

lemma example_legs:
  "build_leg example_sha1 example_terms 1 ''limit'' 63 60 = Inr (example_order_leg 63 60 ''TKROSE812E1'' 12)"
  "build_leg example_sha1 example_terms (Suc 1) ''limit'' 62 40 = Inr (example_order_leg 62 40 ''TKROSE812E2'' 8)"
  by code_simp+

definition example_order_draft :: order_draft where
  "example_order_draft = \<lparr>od_blocking_reason_codes = [], od_strategy_instance_id = lt_strategy example_terms, od_symbol = ''SOL'',
     od_instrument_id = ''SOL-USDT-SWAP'', od_margin_mode = ''cross'', od_position_mode = ''split'',
     od_order_legs = [example_order_leg 63 60 ''TKROSE812E1'' 12, example_order_leg 62 40 ''TKROSE812E2'' 8],
     od_stop_loss = Some (general_format 60), od_take_profit_legs = [\<lparr>to_index = 1, to_price = 64, to_allocation_pct = 100\<rparr>],
     od_risk_budget = 20, od_source = (PyNone, 7, 812, Some ''ROSE''),
     od_notes = [''offline_constructor_only'', ''default_cross_margin_split_position'', ''strategy_instance_id_required_for_exit_matching'']
       @ quantity_notes (Some 60) (Some example_spec),
     od_contract_spec = Some example_spec\<rparr>"

lemma example_coalesced:
  "coalesce_equivalent_entry_legs [example_order_leg 63 60 ''TKROSE812E1'' 12, example_order_leg 62 40 ''TKROSE812E2'' 8]
   = [example_order_leg 63 60 ''TKROSE812E1'' 12, example_order_leg 62 40 ''TKROSE812E2'' 8]"
  by (simp add: coalesce_equivalent_entry_legs_def leg_key_def example_order_leg_def)

lemma example_modes:
  "normalize_margin_mode (dict_get example_payload ''margin_mode'') = ''cross''"
  "normalize_position_mode (dict_get example_payload ''position_mode'') = ''split''"
  by code_simp+

lemma example_build:
  "build_deepcoin_order_draft example_sha1 [] example_payload (Some example_spec) = Inr example_order_draft"
proof -
  have limit: "dh_order_type example_head = ''limit''" by (simp add: example_head_def)
  have legs: "build_legs example_sha1 example_terms 1 [(''limit'', 63, 60), (''limit'', 62, 40)]
      = Inr [example_order_leg 63 60 ''TKROSE812E1'' 12, example_order_leg 62 40 ''TKROSE812E2'' 8]"
    by (simp only: build_legs.simps example_legs sum.case)
  have blocking: "blocking_reason_codes (Some 60) (Some example_spec)
      [example_order_leg 63 60 ''TKROSE812E1'' 12, example_order_leg 62 40 ''TKROSE812E2'' 8] = []"
    by (simp add: blocking_reason_codes_def example_order_leg_def example_spec_def)
  show ?thesis
    unfolding build_deepcoin_order_draft_def Let_def
    by (simp only: example_evaluation sum.case prod.case rmap_option_def option.case limit simp_thms if_True if_False
      example_take_profits [unfolded Let_def] example_plan legs [unfolded example_terms_def Let_def] example_coalesced blocking
      example_modes example_order_draft_def option.map append_Nil2)
      (simp add: example_terms_def example_head_def Let_def)
qed

lemma example_inputs: "spec_ok (Some example_spec)" "hex_digest example_sha1" "od_risk_budget example_order_draft = 20"
  "od_blocking_reason_codes example_order_draft = []"
  by (simp_all add: spec_ok_def example_spec_def hex_digest_def example_sha1_def list_all_iff is_alnum_def is_digit_def char_code_def
      example_order_draft_def)

theorem draft_risk_within_budget_witness:
  "build_deepcoin_order_draft example_sha1 [] example_payload (Some example_spec) = Inr example_order_draft
     \<and> total_loss (od_order_legs example_order_draft) \<le> 20 * (1 + 1 / 10 ^ 14)"
  using draft_risk_within_budget [OF example_build example_inputs(1)] example_build by (simp add: example_inputs(3))

theorem draft_client_ids_witness:
  "build_deepcoin_order_draft example_sha1 [] example_payload (Some example_spec) = Inr example_order_draft
     \<and> distinct (map ol_client_order_id (od_order_legs example_order_draft))"
  using draft_client_ids [OF example_build example_inputs(2)] example_build by blast

theorem unblocked_draft_is_complete_witness:
  "build_deepcoin_order_draft example_sha1 [] example_payload (Some example_spec) = Inr example_order_draft
     \<and> (\<exists>c stop. Some example_spec = Some c \<and> od_stop_loss example_order_draft = Some stop)"
  using unblocked_draft_is_complete [OF example_build example_inputs(4)] example_build by blast

text \<open>
  What the bound does not cover. A single entry is sized for the stop as written, while the draft's stop is
  rounded to a tick: with a tick of a half, an entry at 100 and a stop at 99.75 are sized for a quarter, and
  the order that is placed stops at 99.5, losing twice the budget.
\<close>

definition gap_terms :: leg_terms where
  "gap_terms = \<lparr>lt_side = ''buy'', lt_position_side = ''long'', lt_strategy = ''s'', lt_kol_code = None, lt_message_id = 1,
     lt_risk_budget = 64, lt_stop = Some (399 / 4), lt_spec = Some example_spec\<rparr>"

lemma single_entry_stop_gap:
  "entry_plan example_head 100 100 True None 0 0 [] [] (Some (399 / 4)) (Some (199 / 2)) (Some example_spec)
     = Inr ([(''limit'', 100, 100)], Some (399 / 4))"
  "normalize_price (399 / 4) (Some example_spec) = Inr (199 / 2)"
  "(case build_leg example_sha1 gap_terms 1 ''limit'' 100 100 of
      Inr leg \<Rightarrow> ol_quantity leg = Some 512 | Inl e \<Rightarrow> False)"
  "512 * ct_value example_spec * \<bar>100 - 199 / 2\<bar> = 2 * lt_risk_budget gap_terms"
  by code_simp+

text \<open>The price of a leg is written with six digits, although it was planned, and sized, at its tick.\<close>

lemma leg_price_keeps_six_digits:
  "fround (1042505 / 10) = 1042505 / 10" "general_format (1042505 / 10) = 104250"
  "order_leg_of side ps ot (1042505 / 10) cid pct b q stop spec = Inr leg \<Longrightarrow> ol_price leg = 104250"
proof -
  show "fround (1042505 / 10) = 1042505 / 10" by code_simp
  show *: "general_format (1042505 / 10) = 104250" by code_simp
  show "ol_price leg = 104250" if "order_leg_of side ps ot (1042505 / 10) cid pct b q stop spec = Inr leg"
    using order_leg_of_Inr(4) [OF that] by (simp only: *)
qed

end
