(* ===== verification/Spec2Isabelle.thy ===== *)
theory Spec2Isabelle
  imports Break_Even Stop_Ladder TP_Plan Mgmt_Sizing TP_Adjustment Ws_Stream Keyed_Locks TP_Consumption Worker_Runs Assignment_Soundness Entry_Geometry Limit_Entry Entry_Risk
    Disposal_Soundness Gateway_Adapters Order_Soundness
begin

text \<open>
  A model of the decision core of \<open>telegram-kol-analyzer\<close>, a program that reads trading calls
  from Telegram channels and executes them on the Deepcoin exchange.

  \<^bold>\<open>The program.\<close> Three processes share one SQLite database. \<open>ingest\<close> listens to the channels and
  stores every message under its chat's lock. \<open>worker\<close> takes the messages as jobs, recognises
  entries and management instructions with language models, plans them and executes the plans on
  Deepcoin, on positions its own ledger and the exchange's rows prove to be the strategy's.
  \<open>web\<close> shows and repairs. Protection orders on the exchange are additive: a stop or a take
  profit is changed by placing the new order and cancelling the old one, so every plan below
  says what to place, what to keep and what to cancel. Between the two halves (recognition before,
  exchange calls after) lies the code modelled here: functions that decide from rows already read
  what may be done. Decisions are what loses money when wrong, and they are deterministic.

  \<^bold>\<open>Theories, in the order they build on each other\<close> (sources under \<open>src/telegram_kol_research/\<close>):
  \<^item> \<open>Prelude\<close>: the modules' exceptions as the type \<open>pyerror\<close>, \<open>'a result\<close> (an exception or a
    value), Python's stable \<open>sorted\<close>, facts on lists and results.
  \<^item> \<open>Py_Value\<close>: untyped values (\<open>Any\<close> arguments, JSON and exchange rows) as \<open>pyval\<close>, a dictionary
    as \<open>row\<close>, with Python's truth, \<open>str\<close>, \<open>strip\<close>, \<open>lower\<close>, \<open>int\<close>.
  \<^item> \<open>Py_Decimal\<close>: \<open>decimal.Decimal\<close>: the value of a finite decimal as a rational, the default
    context's rounding \<open>dround\<close> (28 digits, half even), parsing and printing, \<open>quantize\<close>. The
    locale \<open>decimal_context\<close> has the laws of a rounding the components use, interpreted on \<open>dround\<close>.
  \<^item> \<open>Backup_Stop\<close>, \<open>Market_Policy\<close> (\<open>trigger_backup_stop.py\<close>, \<open>strategy_management_market_policy.py\<close>):
    the pair of stops of a position. The locale \<open>protective_order\<close> is the order "at least as
    protective", interpreted for each direction; that no plan loosens a stop follows from its laws.
  \<^item> \<open>Break_Even\<close> (\<open>break_even_reference.py\<close>): which price a break-even stop refers to, and the
    round trip of that price through the stored plan.
  \<^item> \<open>Fill_Predicate\<close> (\<open>take_profit_fill_predicate.py\<close>): when a take profit is proven filled. The locale
    \<open>fill_evidence\<close> is what the ladder and the consumption rely on.
  \<^item> \<open>Stop_Ladder\<close> (\<open>stop_ladder.py\<close>): the rungs, the level reached, the stop one rung behind, and a
    round's action. The target only ratchets from the second level on,
    and from the first when the first rung is at least as protective as the reference.
  \<^item> \<open>Step_Grid\<close>: sizes as whole numbers of contract steps, on which decimal arithmetic is exact.
  \<^item> \<open>TP_Plan\<close>, \<open>Mgmt_Sizing\<close> (\<open>take_profit_plan.py\<close>, \<open>strategy_management_sizing.py\<close>): how a position is
    divided into stages, and a requested reduction among positions.
  \<^item> \<open>TP_Adjustment\<close> (\<open>take_profit_adjustment.py\<close>, sizer of \<open>trigger_take_profit_convergence_executor.py\<close>):
    the plan that turns the resting take profits into the requested ones; executing it and planning
    again is already satisfied.
  \<^item> \<open>Native_Tpsl\<close>, \<open>Protection_Authority\<close> (\<open>native_tpsl.py\<close>, \<open>deepcoin_trigger_rows.py\<close>,
    \<open>protection_authority.py\<close>, part of \<open>position_attribution.py\<close>): reading an exchange's protective rows, and
    which of them belong to one exact position. The database tables the code queries are the fields
    of \<open>protection_db\<close>; the scan over the pending rows is \<open>scan_rows\<close>, with the loop's lists as the
    record \<open>authority_scan\<close>.
  \<^item> \<open>TP_Consumption\<close> (\<open>strategy_management_take_profit_consumption.py\<close>): consuming the first take-profit
    stage for an instruction, on top of the authority and the fill predicate.
  \<^item> \<open>Ws_Stream\<close> (\<open>deepcoin_ws_stream_state.py\<close>): the private stream's state machine, the newest state per
    entity from frames and REST rows, and the permission for new entries.
  \<^item> \<open>Keyed_Locks\<close> (\<open>keyed_async_locks.py\<close>): the ingest process's locks as a step relation \<open>lock_step\<close> over
    tasks, the condition variable being the set of its sleepers, which only \<open>notify_all\<close> wakes; an invariant
    by rule induction over the reachable states, that no wakeup is lost in it, and a bound on every run
    without new requests, which ends with everyone served.
  \<^item> \<open>Py_Json\<close>, \<open>Py_Object\<close>, \<open>Json_Object\<close>: JSON text as \<open>json.dumps\<close> prints and \<open>json.loads\<close> reads it,
    with their round trip; values with lists and dictionaries (\<open>pyobj\<close>), and the two against each
    other. \<open>Py_Datetime\<close>: datetimes as microseconds and an optional offset, their ISO text and arithmetic.
  \<^item> \<open>Worker_Commands\<close>, \<open>Worker_Runs\<close> (\<open>worker_command_jobs.py\<close>): the durable commands the web process
    leaves for the worker: enqueue, claim with a lease, execution, settlement, recovery; and what
    holds along every history of them. Seen through \<open>life_of\<close> a command follows the queue's contract \<open>life_step\<close>.
  \<^item> \<open>Protection_Assignment\<close>, \<open>Assignment_Soundness\<close> (\<open>trigger_protection_assignment.py\<close>): which
    protective order of the exchange belongs to which filled leg: the scan of the candidates, the
    edges, the mutually unique pairs; and that nothing else is ever assigned, in whatever order rows come.
  \<^item> \<open>Entry_Geometry\<close>, \<open>Limit_Entry\<close>, \<open>Entry_Risk\<close> (\<open>entry_price_geometry.py\<close>,
    \<open>deepcoin_limit_entry.py\<close>, \<open>entry_revision_risk.py\<close>): entries. On which side of the entries stop and
    take profits must lie, for prices, for a final draft and for a candidate; the payload of a limit
    order and which legs may become one; the reduction that brings a revised entry into its budget.
  \<^item> \<open>Py_Float\<close>: a finite float as a rational, each operation rounded to 53 binary digits; \<open>repr\<close> and
    \<open>:g\<close>. The locale \<open>digit_format\<close> states what any rounding to a number of digits satisfies, interpreted
    on floats and on the six digits of \<open>:g\<close>, and gives the laws of \<open>decimal_context\<close> again. The
    text of a float reads back.
  \<^item> \<open>Price_Normalization\<close>, \<open>Order_Ids\<close>, \<open>Order_Builder\<close>, \<open>Order_Soundness\<close> (\<open>price_normalization.py\<close>,
    \<open>kol_codes.py\<close>, part of \<open>execution_bindings.py\<close>, \<open>deepcoin_order_builder.py\<close>): the draft of an
    entry. The prices of a text, short forms expanded; the ids of strategies and orders; the legs with
    their sizes, stop and take profits, and what blocks a draft. What is at risk at the stop stays
    within the budget up to one part in \<open>10^14\<close>, the float roundings on the way counted by \<open>below\<close>; the
    legs' ids differ and are ones the exchange takes; an unblocked draft is complete.
  \<^item> \<open>Mgmt_Contract\<close>, \<open>Stop_Gate\<close>, \<open>Price_Disposal\<close>, \<open>Disposal_Soundness\<close>
    (\<open>strategy_management_contracts.py\<close>, \<open>management_stop_price_gate.py\<close>,
    \<open>management_price_plausibility.py\<close>): a management instruction from its contract to its stop. The
    contract and its text, the gate a stop price passes, the removal of a price an implicit stop must
    not carry, and its adoption when it is tighter and the gate lets it pass; the planner's validator
    connects the last two.
  \<^item> \<open>Mutation_Intents\<close>, \<open>Mutation_Authority\<close>, \<open>Mutation_Gateway\<close>, \<open>Gateway_Runs\<close>, \<open>Gateway_Soundness\<close>
    (\<open>position_mutation_intents.py\<close>, \<open>position_mutation_authority.py\<close>, \<open>position_mutation_gateway.py\<close>): the
    one way to write to a position. The intents as a table with its unique indexes, the authority a
    write is made under, the gateway's calls as the steps \<open>gateway_step\<close> of a program counter \<open>pc\<close>, one
    step for each transaction and each exchange with the outside. \<open>world_step\<close> lets any number of calls,
    their deaths and the reconciliation interleave; \<open>world_ok\<close> is the invariant of what it reaches.
  \<^item> \<open>Gateway_Reconcile\<close>, \<open>Gateway_Adapters\<close> (the rest of \<open>position_mutation_gateway.py\<close>, and
    \<open>protection_ledger.py\<close>): the reconciliation that settles open intents by what the exchange shows,
    a refinement of the world's steps; the ledger row it files for an order; the adapters that build a
    fresh authority, write through the gateway and read the order back.

  \<^bold>\<open>What the properties say.\<close> Safety: a resolved authority has only orders proven to be the position's
  and misses none; a cancel goes ahead only on an order re-read unchanged, and consumption only on
  orders the authority, the ledger and the exchange agree on; no plan and no ladder round loosens a
  stop; a new entry needs a stream that is healthy out of a converged resync; no key is held twice;
  a side effect of a durable command and a write of one idempotency key happen at most once, a write
  only after every check, and "not submitted" is only said when it is so; an intent without an answer
  is settled only on the readback's evidence; a price a message named
  becomes a break-even stop only through the gate.
  Exactness: sizes are step-aligned and sum to what was asked; keep, cancel and place partition the
  orders; each decision branch is characterised, refusals included; a draft risks its budget; the stop gate and the entry
  geometry pass exactly what they are to pass. Termination: a gateway call ends within twelve of its
  own steps, the rank \<open>pc_rank\<close> falling at each; a run of \<open>b\<close> tasks on the locks within \<open>10 b\<^sup>2 + 9 b\<close> steps, \<open>lock_work\<close>
  falling at each. Round trips: a contract and its text. Invariants over time: the
  ladder's ratchet, the newest state of an entity, the machine's transition log, the locks' counters.

  \<^bold>\<open>Bounds and hypotheses.\<close> Numbers are unbounded except for the decimal context. \<open>fits 28 x\<close> says
  that a value has at most 28 digits; where exactness of a sum matters the sizes are hypothesised to
  be multiples \<open>k * t\<close> of a step (\<open>grid_step t\<close>: positive, at most seven digits; counts below \<open>10^21\<close>),
  which every contract of the exchange satisfies by far. Loops are structural or have fuel that is
  a length (\<open>bulk_passes\<close>: each pass fills a capacity, so the number of positions bounds the passes;
  a proof shows it suffices). Code outside the modelled modules is an argument of the definitions:
  the clocks, the random number of the backoff and its rounding, \<open>sha256\<close> and \<open>sha1\<close> (of the latter only
  \<open>hex_digest\<close>: forty hexadecimal digits), the configuration file's parsed items, the readers of message
  text (\<open>text_reader\<close>), the exchange's answers (\<open>answer\<close>), whether a leg's stored position is
  authoritative; \<open>json.loads\<close> in \<open>Break_Even\<close>.

  \<^bold>\<open>Not modelled of Python\<close>: strings beyond ASCII (but for the UTF-8 bytes of the character
  for ten thousand in \<open>Price_Normalization\<close>), the sign of a decimal zero, the payload of a NaN,
  exponents outside the default limits, \<open>InvalidOperation\<close> from operations on more than 28 digits;
  infinite floats, float NaNs and the bounds of a float's exponent. Outside \<open>Py_Float\<close> and what builds on
  it, floats appear only by their printed text.

  \<^bold>\<open>Not modelled of the program\<close>: the recognition of messages (regular expressions over Chinese text
  and language models), the Telegram and Deepcoin clients, the web pages, command line and database
  schema, deployment, monitoring, and one-off repairs. They are input and output around the
  decisions or have no contract to state. Of the modelled modules left out: what only records an
  incident, and the fingerprint of a draft. The executors
  (\<open>strategy_management_executor.py\<close>, \<open>break_even_convergence_executor.py\<close> and others) and the planner are
  long sequences of database and exchange calls around the modelled decisions; the manifest lists them.
\<close>

end
